(* ===== verification/Go_Prelude.thy ===== *)
theory Go_Prelude
  imports Main "HOL-Library.Sublist"
begin

text \<open>
  The part of Go and of its standard library that the modelled code uses, and the lemmas every
  component shares.

  A Go string is a sequence of bytes, here a \<^typ>\<open>string\<close> (a list of 8-bit characters).
  The functions of package \<^verbatim>\<open>strings\<close> are given on ASCII: white space is tab, line feed,
  vertical tab, form feed, carriage return and blank, and case folding maps A-Z to a-z; a byte
  of a multi-byte UTF-8 sequence is neither white space nor cased and passes through unchanged.
  Go's \<^verbatim>\<open>int\<close> (64 bits on every platform the services are built for) is an \<^typ>\<open>int\<close>
  whose arithmetic is wrapped by \<open>wrap64\<close> wherever it can leave the range.
\<close>

section \<open>Collections of facts\<close>

named_theorems go_defs "definitions that a proof about one handler unfolds"
named_theorems frame_simps "what an operation leaves unchanged"

section \<open>Results\<close>

text \<open>A Go result pair (value, error) is a sum: \<open>Inl\<close> the error, \<open>Inr\<close> the value.\<close>

definition bind_res :: "'e + 'a \<Rightarrow> ('a \<Rightarrow> 'e + 'b) \<Rightarrow> 'e + 'b" where
  "bind_res r f = (case r of Inl e \<Rightarrow> Inl e | Inr x \<Rightarrow> f x)"

lemma bind_res_simps [simp]:
  "bind_res (Inl e) f = Inl e"
  "bind_res (Inr x) f = f x"
  by (simp_all add: bind_res_def)

lemma bind_res_Inr_iff: "bind_res r f = Inr y \<longleftrightarrow> (\<exists>x. r = Inr x \<and> f x = Inr y)"
  by (cases r) simp_all

lemma bind_res_Inl_iff:
  "bind_res r f = Inl e \<longleftrightarrow> r = Inl e \<or> (\<exists>x. r = Inr x \<and> f x = Inl e)"
  by (cases r) auto

section \<open>Machine integers\<close>

definition in_int64 :: "int \<Rightarrow> bool" where
  "in_int64 n \<longleftrightarrow> - (2 ^ 63) \<le> n \<and> n < 2 ^ 63"

definition wrap64 :: "int \<Rightarrow> int" where
  "wrap64 n = (n + 2 ^ 63) mod 2 ^ 64 - 2 ^ 63"

lemma wrap64_id [simp]: "in_int64 n \<Longrightarrow> wrap64 n = n"
  by (simp add: in_int64_def wrap64_def)

lemma wrap64_range [simp, intro]: "in_int64 (wrap64 n)"
proof -
  have "0 \<le> (n + 2 ^ 63) mod 2 ^ 64" and "(n + 2 ^ 63) mod 2 ^ 64 < (2 ^ 64 :: int)"
    by simp_all
  then show ?thesis by (simp add: in_int64_def wrap64_def)
qed

lemma wrap64_small: "- (2 ^ 62) \<le> n \<Longrightarrow> n \<le> 2 ^ 62 \<Longrightarrow> wrap64 n = n"
  by (rule wrap64_id) (simp add: in_int64_def)

text \<open>Times and durations are in nanoseconds; \<^verbatim>\<open>Time.Sub\<close> saturates.\<close>

definition time_sub :: "int \<Rightarrow> int \<Rightarrow> int" where
  "time_sub a b = max (- (2 ^ 63)) (min (2 ^ 63 - 1) (a - b))"

lemma time_sub_less: "0 < d \<Longrightarrow> d < 2 ^ 63 \<Longrightarrow> time_sub a b < d \<longleftrightarrow> a - b < d"
  by (auto simp: time_sub_def)

section \<open>Bytes and strings\<close>

definition is_space :: "char \<Rightarrow> bool" where
  "is_space c \<longleftrightarrow> c = CHR '' '' \<or> c = CHR 0x09 \<or> c = CHR 0x0A \<or> c = CHR 0x0B
     \<or> c = CHR 0x0C \<or> c = CHR 0x0D"

definition code_of :: "char \<Rightarrow> nat" where
  "code_of c = of_char c"

definition lower_char :: "char \<Rightarrow> char" where
  "lower_char c = (if 65 \<le> code_of c \<and> code_of c \<le> 90 then char_of (code_of c + 32) else c)"

definition to_lower :: "string \<Rightarrow> string" where
  "to_lower s = map lower_char s"

definition trim_left :: "string \<Rightarrow> string" where
  "trim_left s = dropWhile is_space s"

definition trim_right :: "string \<Rightarrow> string" where
  "trim_right s = rev (dropWhile is_space (rev s))"

definition trim_space :: "string \<Rightarrow> string" where
  "trim_space s = trim_right (trim_left s)"

text \<open>\<^verbatim>\<open>strings.Fields\<close>: the maximal runs of bytes that are not white space.\<close>

fun fields_acc :: "string \<Rightarrow> string \<Rightarrow> string list" where
  "fields_acc w [] = (if w = [] then [] else [rev w])"
| "fields_acc w (c # cs) =
     (if is_space c then (if w = [] then fields_acc [] cs else rev w # fields_acc [] cs)
      else fields_acc (c # w) cs)"

definition str_fields :: "string \<Rightarrow> string list" where
  "str_fields s = fields_acc [] s"

text \<open>\<^verbatim>\<open>strings.Split\<close> (and \<^verbatim>\<open>SplitSeq\<close>) on one byte: empty pieces are kept.\<close>

fun split_acc :: "char \<Rightarrow> string \<Rightarrow> string \<Rightarrow> string list" where
  "split_acc d w [] = [rev w]"
| "split_acc d w (c # cs) = (if c = d then rev w # split_acc d [] cs else split_acc d (c # w) cs)"

definition split_on :: "char \<Rightarrow> string \<Rightarrow> string list" where
  "split_on d s = split_acc d [] s"

definition has_prefix :: "string \<Rightarrow> string \<Rightarrow> bool" where
  "has_prefix p s \<longleftrightarrow> take (length p) s = p"

definition trim_prefix :: "string \<Rightarrow> string \<Rightarrow> string" where
  "trim_prefix p s = (if has_prefix p s then drop (length p) s else s)"

definition has_suffix :: "string \<Rightarrow> string \<Rightarrow> bool" where
  "has_suffix p s \<longleftrightarrow> length p \<le> length s \<and> drop (length s - length p) s = p"

definition trim_suffix :: "string \<Rightarrow> string \<Rightarrow> string" where
  "trim_suffix p s = (if has_suffix p s then take (length s - length p) s else s)"

fun join_with :: "string \<Rightarrow> string list \<Rightarrow> string" where
  "join_with sep [] = []"
| "join_with sep [x] = x"
| "join_with sep (x # y # zs) = x @ sep @ join_with sep (y # zs)"

definition replace_char :: "char \<Rightarrow> char \<Rightarrow> string \<Rightarrow> string" where
  "replace_char c d s = map (\<lambda>x. if x = c then d else x) s"

fun contains_str :: "string \<Rightarrow> string \<Rightarrow> bool" where
  "contains_str [] p = (p = [])"
| "contains_str (c # cs) p = (has_prefix p (c # cs) \<or> contains_str cs p)"

definition equal_fold :: "string \<Rightarrow> string \<Rightarrow> bool" where
  "equal_fold a b \<longleftrightarrow> to_lower a = to_lower b"

text \<open>
  The argument part of a chat command: what follows the first blank or tab
  (\<^verbatim>\<open>strings.IndexAny(raw, " \t")\<close> and the slice after it), trimmed.
\<close>

definition after_token :: "string \<Rightarrow> string" where
  "after_token raw =
     trim_space (drop 1 (dropWhile (\<lambda>c. \<not> (c = CHR '' '' \<or> c = CHR 0x09)) raw))"

section \<open>Decimal numbers\<close>

definition digit_val :: "char \<Rightarrow> int option" where
  "digit_val c = (if 48 \<le> code_of c \<and> code_of c \<le> 57 then Some (int (code_of c) - 48) else None)"

fun digits_val :: "int \<Rightarrow> string \<Rightarrow> int option" where
  "digits_val acc [] = Some acc"
| "digits_val acc (c # cs) =
     (case digit_val c of None \<Rightarrow> None | Some d \<Rightarrow> digits_val (10 * acc + d) cs)"

definition unsigned_val :: "string \<Rightarrow> int option" where
  "unsigned_val s = (if s = [] then None else digits_val 0 s)"

text \<open>\<^verbatim>\<open>strconv.Atoi\<close>: an optional sign, at least one digit, and the result in range.\<close>

definition atoi :: "string \<Rightarrow> int option" where
  "atoi s =
     (let r = (case s of
                 [] \<Rightarrow> None
               | c # cs \<Rightarrow> if c = CHR ''-'' then map_option uminus (unsigned_val cs)
                          else if c = CHR ''+'' then unsigned_val cs
                          else unsigned_val s)
      in case r of None \<Rightarrow> None | Some n \<Rightarrow> if in_int64 n then Some n else None)"

fun nat_digits :: "nat \<Rightarrow> string" where
  "nat_digits n = (if n < 10 then [char_of (48 + n)]
                   else nat_digits (n div 10) @ [char_of (48 + n mod 10)])"

declare nat_digits.simps [simp del]

text \<open>\<^verbatim>\<open>%d\<close> of a format string.\<close>

definition itoa :: "int \<Rightarrow> string" where
  "itoa n = (if n < 0 then CHR ''-'' # nat_digits (nat (- n)) else nat_digits (nat n))"

section \<open>Facts about strings and numbers\<close>

lemma digit_char [simp]: "d < 10 \<Longrightarrow> digit_val (char_of (48 + d :: nat)) = Some (int d)"
  by (simp add: digit_val_def code_of_def)

lemma digits_val_append:
  "digits_val a (s @ t) = (case digits_val a s of None \<Rightarrow> None | Some b \<Rightarrow> digits_val b t)"
  by (induction s arbitrary: a) (auto split: option.splits)

lemma nat_digits_val: "digits_val 0 (nat_digits n) = Some (int n)"
proof (induction n rule: nat_digits.induct)
  case (1 n)
  show ?case
  proof (cases "n < 10")
    case True
    then show ?thesis by (subst nat_digits.simps) simp
  next
    case False
    with 1 have "digits_val 0 (nat_digits (n div 10)) = Some (int (n div 10))" by simp
    moreover have "10 * int (n div 10) + int (n mod 10) = int n" by presburger
    ultimately show ?thesis using False
      by (subst nat_digits.simps) (simp add: digits_val_append)
  qed
qed

lemma nat_digits_digit: "\<forall>c \<in> set (nat_digits n). digit_val c \<noteq> None"
proof (induction n rule: nat_digits.induct)
  case (1 n)
  show ?case
  proof (cases "n < 10")
    case True
    then show ?thesis by (subst nat_digits.simps) simp
  next
    case False
    with 1 show ?thesis by (subst nat_digits.simps) simp
  qed
qed

lemma nat_digits_ne [simp]: "nat_digits n \<noteq> []"
  by (subst nat_digits.simps) simp

lemma nat_digits_Cons: "\<exists>c cs. nat_digits n = c # cs \<and> c \<noteq> CHR ''-'' \<and> c \<noteq> CHR ''+''"
proof (cases "nat_digits n")
  case (Cons c cs)
  then have "digit_val c \<noteq> None" using nat_digits_digit [of n] by simp
  then have "c \<noteq> CHR ''-''" and "c \<noteq> CHR ''+''" by (auto simp: digit_val_def code_of_def)
  with Cons show ?thesis by blast
qed simp

lemma atoi_itoa [simp]: "in_int64 n \<Longrightarrow> atoi (itoa n) = Some n"
proof (cases "n < 0")
  case True
  moreover assume "in_int64 n"
  ultimately show ?thesis
    by (simp add: itoa_def atoi_def unsigned_val_def nat_digits_val)
next
  case False
  moreover assume "in_int64 n"
  moreover obtain c cs where "nat_digits (nat n) = c # cs" "c \<noteq> CHR ''-''" "c \<noteq> CHR ''+''"
    using nat_digits_Cons by blast
  ultimately show ?thesis
    using nat_digits_val [of "nat n"]
    by (simp add: itoa_def atoi_def unsigned_val_def)
qed

lemma atoi_range: "atoi s = Some n \<Longrightarrow> in_int64 n"
  by (auto simp: atoi_def Let_def split: option.splits if_splits list.splits)

lemma lower_space [simp]: "is_space (lower_char c) = is_space c"
  unfolding is_space_def lower_char_def code_of_def
  by (cases "65 \<le> (of_char c::nat) \<and> (of_char c::nat) \<le> 90") (auto dest: arg_cong[where f="of_char::char\<Rightarrow>nat"])

lemma lower_idem [simp]: "lower_char (lower_char c) = lower_char c"
  by (simp add: lower_char_def code_of_def)

lemma to_lower_idem [simp]: "to_lower (to_lower s) = to_lower s"
  by (simp add: to_lower_def)

lemma to_lower_Nil_iff [simp]: "to_lower s = [] \<longleftrightarrow> s = []"
  by (simp add: to_lower_def)

lemma to_lower_Nil [simp]: "to_lower [] = []"
  by (simp add: to_lower_def)

lemma dropWhile_lower: "dropWhile is_space (map lower_char s) = map lower_char (dropWhile is_space s)"
  by (simp add: dropWhile_map comp_def)

lemma trim_space_lower: "trim_space (to_lower s) = to_lower (trim_space s)"
  by (simp add: trim_space_def trim_left_def trim_right_def to_lower_def dropWhile_lower rev_map)

lemma fields_acc_lower:
  "fields_acc (map lower_char w) (map lower_char s) = map to_lower (fields_acc w s)"
  by (induction w s rule: fields_acc.induct) (auto simp: to_lower_def rev_map)

lemma fields_lower: "str_fields (to_lower s) = map to_lower (str_fields s)"
  using fields_acc_lower [of "[]" s] by (simp add: str_fields_def to_lower_def)

lemma dropWhile_idem [simp]: "dropWhile P (dropWhile P xs) = dropWhile P xs"
  by (induction xs) auto

lemma trim_left_hd: "trim_left s = c # cs \<Longrightarrow> \<not> is_space c"
  by (metis trim_left_def dropWhile_eq_Cons_conv)

lemma trim_right_Nil [simp]: "trim_right [] = []" by (simp add: trim_right_def)

lemma trim_right_append: "\<exists>sp. s = trim_right s @ sp \<and> (\<forall>c \<in> set sp. is_space c)"
proof -
  have "rev s = takeWhile is_space (rev s) @ dropWhile is_space (rev s)" by simp
  then have "s = rev (dropWhile is_space (rev s)) @ rev (takeWhile is_space (rev s))"
    by (metis rev_append rev_rev_ident)
  then show ?thesis unfolding trim_right_def by (metis set_rev set_takeWhileD)
qed

lemma trim_left_id: "(\<And>c cs. s = c # cs \<Longrightarrow> \<not> is_space c) \<Longrightarrow> trim_left s = s"
  by (cases s) (auto simp: trim_left_def)

lemma trim_around:
  assumes "\<forall>c \<in> set s. \<not> is_space c" and "list_all is_space before" and "list_all is_space after" and "s \<noteq> []"
  shows "trim_space (before @ s @ after) = s"
proof -
  have l: "dropWhile is_space (sp @ w # ws) = w # ws" if "list_all is_space sp" "\<not> is_space w" for sp w ws
    using that by (induction sp) auto
  obtain c cs where s: "s = c # cs" using assms(4) by (cases s) auto
  have left: "trim_left (before @ s @ after) = s @ after"
    using l [OF assms(2), of c "cs @ after"] assms(1) unfolding trim_left_def s by simp
  obtain d ds where r: "rev s = d # ds" using assms(4) by (cases "rev s") auto
  have "\<not> is_space d" using assms(1) r by (metis list.set_intros(1) set_rev)
  moreover have "list_all is_space (rev after)" using assms(3) by (simp add: list_all_iff)
  ultimately have "dropWhile is_space (rev (s @ after)) = rev s" using l [of "rev after" d ds] r by simp
  then have "trim_right (s @ after) = s" by (simp add: trim_right_def)
  then show ?thesis unfolding trim_space_def left .
qed

lemma trim_space_idem [simp]: "trim_space (trim_space s) = trim_space s"
proof -
  let ?l = "trim_left s" and ?r = "trim_right (trim_left s)"
  obtain sp where sp: "?l = ?r @ sp" using trim_right_append by blast
  have "trim_left ?r = ?r"
  proof (rule trim_left_id)
    fix c cs assume "?r = c # cs"
    with sp have "?l = c # cs @ sp" by simp
    then show "\<not> is_space c" by (rule trim_left_hd)
  qed
  moreover have "trim_right ?r = ?r" by (simp add: trim_right_def)
  ultimately show ?thesis by (simp add: trim_space_def)
qed

lemma fields_acc_spaces: "\<forall>c \<in> set sp. is_space c \<Longrightarrow> fields_acc w (s @ sp) = fields_acc w s"
proof (induction w s rule: fields_acc.induct)
  case (1 w)
  then show ?case
    by (induction sp arbitrary: w) auto
qed auto

lemma fields_left: "fields_acc [] (dropWhile is_space s) = fields_acc [] s"
  by (induction s) auto

lemma fields_trim [simp]: "str_fields (trim_space s) = str_fields s"
proof -
  obtain sp where sp: "trim_left s = trim_right (trim_left s) @ sp" "\<forall>c \<in> set sp. is_space c"
    using trim_right_append by blast
  have "str_fields (trim_left s) = str_fields (trim_right (trim_left s))"
    unfolding str_fields_def by (subst sp(1)) (rule fields_acc_spaces [OF sp(2)])
  moreover have "str_fields (trim_left s) = str_fields s"
    by (simp add: str_fields_def trim_left_def fields_left)
  ultimately show ?thesis by (simp add: trim_space_def)
qed

definition solid :: "string \<Rightarrow> bool" where
  "solid t \<longleftrightarrow> list_all (\<lambda>c. \<not> is_space c) t"

lemma solid_simps [simp]:
  "solid []" "solid (c # t) \<longleftrightarrow> \<not> is_space c \<and> solid t" "solid (rev t) = solid t"
  by (simp_all add: solid_def)

lemma fields_acc_words:
  "solid w \<Longrightarrow> list_all (\<lambda>t. t \<noteq> [] \<and> solid t) (fields_acc w s)"
  by (induction s arbitrary: w) auto

lemma fields_words: "list_all (\<lambda>t. t \<noteq> [] \<and> solid t) (str_fields s)"
  unfolding str_fields_def by (rule fields_acc_words) simp

lemma fields_acc_word:
  "solid t \<Longrightarrow> fields_acc w (t @ s) = fields_acc (rev t @ w) s"
  by (induction t arbitrary: w) auto

lemma fields_join:
  "list_all (\<lambda>t. t \<noteq> [] \<and> solid t) ts \<Longrightarrow> str_fields (join_with '' '' ts) = ts"
  unfolding str_fields_def
proof (induction ts rule: induct_list012)
  case (2 x)
  then show ?case using fields_acc_word [of x "[]" "[]"] by simp
next
  case (3 x y zs)
  then have "fields_acc [] (join_with '' '' (y # zs)) = y # zs" by simp
  moreover have "is_space CHR '' ''" by (simp add: is_space_def)
  ultimately show ?case using 3(3) fields_acc_word [of x "[]" "'' '' @ join_with '' '' (y # zs)"]
    by simp
qed simp

lemma trim_suffix_Nil [simp]: "trim_suffix p [] = []"
  by (simp add: trim_suffix_def)

end
