(* ===== verification/Wire.thy ===== *)
theory Wire
  imports Go_Prelude
begin

text \<open>
  The wire types of package \<^verbatim>\<open>internal/libraries/overseer/wire\<close> that the chat side and the
  executor exchange: positions, regions, actions, commands and their acknowledgements, envelopes.
  An action is the source's flat struct, a record with one field per member; a Go pointer that may
  be nil is an option. The JSON tags are the business of the codec, which is a parameter of
  theory \<open>Overseer_Link\<close>.
\<close>

section \<open>Actions\<close>

record position =
  pos_x :: int
  pos_y :: int
  pos_z :: int

record region =
  rmin :: position
  rmax :: position

text \<open>
  \<^verbatim>\<open>ActionKind\<close> is a string type with fifteen named values; a value that arrives over the wire
  can be any other string, which is \<open>KindOther\<close>.
\<close>

datatype action_kind =
    KindManufacture | KindPause | KindUnpause | KindCamera | KindHelp | KindPlace | KindBrew
  | KindMine | KindChannel | KindDigRamp | KindCutTree | KindStockpile | KindZone | KindTaskat
  | KindAppoint | KindOther string

definition kind_names :: "(action_kind \<times> string) list" where
  "kind_names =
     [(KindManufacture, ''manufacture''), (KindPause, ''pause''), (KindUnpause, ''unpause''),
      (KindCamera, ''camera''), (KindHelp, ''help''), (KindPlace, ''place''), (KindBrew, ''brew''),
      (KindMine, ''mine''), (KindChannel, ''channel''), (KindDigRamp, ''digramp''),
      (KindCutTree, ''cuttree''), (KindStockpile, ''stockpile''), (KindZone, ''zone''),
      (KindTaskat, ''taskat''), (KindAppoint, ''appoint'')]"

definition kind_string :: "action_kind \<Rightarrow> string" where
  "kind_string k = (case k of KindOther s \<Rightarrow> s | _ \<Rightarrow> the (map_of kind_names k))"

definition kind_of_string :: "string \<Rightarrow> action_kind" where
  "kind_of_string s =
     (case map_of (map (\<lambda>(k, n). (n, k)) kind_names) s of Some k \<Rightarrow> k | None \<Rightarrow> KindOther s)"

record action =
  act_kind :: action_kind
  act_item :: string
  act_material :: "string option"
  act_quantity :: int
  act_position :: "position option"
  act_region :: "region option"
  act_office :: string
  act_unit :: int
  act_workshop :: int

text \<open>The composite literal \<^verbatim>\<open>wire.Action{Kind: k}\<close>: every other field is its zero value.\<close>

definition action_of_kind :: "action_kind \<Rightarrow> action" where
  "action_of_kind k =
     \<lparr> act_kind = k, act_item = [], act_material = None, act_quantity = 0, act_position = None,
       act_region = None, act_office = [], act_unit = 0, act_workshop = 0 \<rparr>"

section \<open>Commands, acknowledgements, envelopes\<close>

record command_source =
  src_username :: string
  src_platform :: string
  src_channel :: string

record command =
  cmd_id :: string
  cmd_received_at :: int
  cmd_raw_text :: string
  cmd_from :: command_source
  cmd_action :: action

datatype exec_result = ExecOK | ExecError

record executed_cmd =
  ex_command_id :: string
  ex_raw_text :: string
  ex_action :: action
  ex_from_username :: string
  ex_executed_at :: int
  ex_chat_to_exec_ms :: int
  ex_result :: exec_result
  ex_error_message :: string

datatype envelope_type = EnvCommand | EnvStateSnapshot | EnvExecutedCmd | EnvOther string

record 'd envelope =
  env_type :: envelope_type
  env_seq :: nat
  env_sent_at :: int
  env_hmac :: string
  env_data :: 'd

section \<open>Facts\<close>

lemma kind_of_kind_string:
  "(\<forall>s. k \<noteq> KindOther s) \<Longrightarrow> kind_of_string (kind_string k) = k"
  by (cases k) (simp_all add: kind_of_string_def kind_string_def kind_names_def)

lemma kind_string_of_string [simp]: "kind_string (kind_of_string s) = s"
  by (auto simp: kind_of_string_def kind_string_def kind_names_def)

lemma action_of_kind_sel [simp]:
  "act_kind (action_of_kind k) = k" "act_item (action_of_kind k) = []"
  "act_material (action_of_kind k) = None" "act_quantity (action_of_kind k) = 0"
  "act_position (action_of_kind k) = None" "act_region (action_of_kind k) = None"
  "act_office (action_of_kind k) = []" "act_unit (action_of_kind k) = 0"
  "act_workshop (action_of_kind k) = 0"
  by (simp_all add: action_of_kind_def)

end
