(* ===== verification/Verb_Vocab.thy ===== *)
theory Verb_Vocab
  imports Wire
begin

text \<open>
  The vocabulary tables of package \<^verbatim>\<open>internal/libraries/overseer/verbs\<close>, entry by entry. A Go
  map with struct{} values is the list of its keys, a Go map with string or struct values an
  association list; the code only ever looks keys up, so the order is immaterial.
\<close>

section \<open>Tables of vocab.go\<close>

definition item_vocab :: "string list" where
  "item_vocab = [
      ''table'', ''bed'', ''door'', ''chair'', ''throne'', ''coffin'', ''block'', ''cabinet'',
      ''chest'', ''statue'', ''floodgate'', ''bucket'', ''barrel'', ''ash'', ''charcoal'',
      ''armorstand'', ''grate'', ''hatchcover'', ''millstone'', ''quern'', ''slab'',
      ''weaponrack'', ''altar'', ''bookcase'', ''pedestal'', ''cage'', ''animaltrap'', ''bin'',
      ''crutch'', ''splint'', ''pipesection'', ''minecart'', ''stepladder'', ''wheelbarrow'',
      ''shield'', ''buckler'', ''trainingaxe'', ''trainingspear'', ''trainingsword'',
      ''corkscrew'', ''menacingspike'', ''spikedball'']"

definition item_material_not_applicable :: "string list" where
  "item_material_not_applicable = [''ash'', ''charcoal'']"

definition item_material_allowlist :: "(string \<times> string list) list" where
  "item_material_allowlist = [(''bed'', [''wood'']), (''barrel'', [''wood''])]"

definition material_vocab :: "string list" where
  "material_vocab = [
      ''stone'', ''wood'', ''bone'', ''leather'', ''cloth'', ''shell'', ''iron'', ''copper'',
      ''bronze'', ''steel'', ''silver'', ''gold'', ''metal'']"

definition material_aliases :: "(string \<times> string) list" where
  "material_aliases = [(''wooden'', ''wood'')]"

definition filler_words :: "string list" where
  "filler_words = [
      ''a'', ''an'', ''the'', ''some'', ''me'', ''us'', ''please'', ''drink'', ''from'']"

section \<open>Tables of manufacture.go\<close>

definition item_to_job_type :: "(string \<times> string) list" where
  "item_to_job_type = [
      (''table'', ''ConstructTable''), (''bed'', ''ConstructBed''),
      (''door'', ''ConstructDoor''), (''chair'', ''ConstructThrone''),
      (''throne'', ''ConstructThrone''), (''coffin'', ''ConstructCoffin''),
      (''block'', ''ConstructBlocks''), (''cabinet'', ''ConstructCabinet''),
      (''chest'', ''ConstructChest''), (''statue'', ''ConstructStatue''),
      (''floodgate'', ''ConstructFloodgate''), (''bucket'', ''MakeBucket''),
      (''barrel'', ''MakeBarrel''), (''ash'', ''MakeAsh''), (''charcoal'', ''MakeCharcoal''),
      (''armorstand'', ''ConstructArmorStand''), (''grate'', ''ConstructGrate''),
      (''hatchcover'', ''ConstructHatchCover''), (''millstone'', ''ConstructMillstone''),
      (''quern'', ''ConstructQuern''), (''slab'', ''ConstructSlab''),
      (''weaponrack'', ''ConstructWeaponRack''), (''cage'', ''MakeCage''),
      (''animaltrap'', ''MakeAnimalTrap''), (''bin'', ''ConstructBin''),
      (''crutch'', ''ConstructCrutch''), (''splint'', ''ConstructSplint''),
      (''pipesection'', ''MakePipeSection'')]"

record subtype_job_spec =
  sj_job :: string
  sj_item_subtype :: string

definition subtype_job :: "string \<Rightarrow> string \<Rightarrow> subtype_job_spec" where
  "subtype_job j s = \<lparr> sj_job = j, sj_item_subtype = s \<rparr>"

definition item_to_subtype_job :: "(string \<times> subtype_job_spec) list" where
  "item_to_subtype_job = [
      (''altar'', subtype_job ''MakeTool'' ''ITEM_TOOL_ALTAR''),
      (''bookcase'', subtype_job ''MakeTool'' ''ITEM_TOOL_BOOKCASE''),
      (''pedestal'', subtype_job ''MakeTool'' ''ITEM_TOOL_PEDESTAL''),
      (''minecart'', subtype_job ''MakeTool'' ''ITEM_TOOL_MINECART''),
      (''stepladder'', subtype_job ''MakeTool'' ''ITEM_TOOL_STEPLADDER''),
      (''wheelbarrow'', subtype_job ''MakeTool'' ''ITEM_TOOL_WHEELBARROW''),
      (''shield'', subtype_job ''MakeShield'' ''ITEM_SHIELD_SHIELD''),
      (''buckler'', subtype_job ''MakeShield'' ''ITEM_SHIELD_BUCKLER''),
      (''trainingaxe'', subtype_job ''MakeWeapon'' ''ITEM_WEAPON_AXE_TRAINING''),
      (''trainingspear'', subtype_job ''MakeWeapon'' ''ITEM_WEAPON_SPEAR_TRAINING''),
      (''trainingsword'', subtype_job ''MakeWeapon'' ''ITEM_WEAPON_SWORD_SHORT_TRAINING''),
      (''corkscrew'', subtype_job ''MakeTrapComponent'' ''ITEM_TRAPCOMP_ENORMOUSCORKSCREW''),
      (''menacingspike'', subtype_job ''MakeTrapComponent'' ''ITEM_TRAPCOMP_MENACINGSPIKE''),
      (''spikedball'', subtype_job ''MakeTrapComponent'' ''ITEM_TRAPCOMP_SPIKEDBALL'')]"

record workorder_material_spec =
  wm_material :: string
  wm_category :: "string list"

definition wm_inorganic :: "string \<Rightarrow> workorder_material_spec" where
  "wm_inorganic m = \<lparr> wm_material = m, wm_category = [] \<rparr>"

definition wm_of_category :: "string \<Rightarrow> workorder_material_spec" where
  "wm_of_category c = \<lparr> wm_material = [], wm_category = [c] \<rparr>"

definition material_to_workorder_spec :: "(string \<times> workorder_material_spec) list" where
  "material_to_workorder_spec = [
      (''stone'', wm_inorganic ''INORGANIC''), (''wood'', wm_of_category ''wood''),
      (''iron'', wm_inorganic ''INORGANIC:IRON''),
      (''copper'', wm_inorganic ''INORGANIC:COPPER''),
      (''bronze'', wm_inorganic ''INORGANIC:BRONZE''),
      (''steel'', wm_inorganic ''INORGANIC:STEEL''),
      (''silver'', wm_inorganic ''INORGANIC:SILVER''),
      (''gold'', wm_inorganic ''INORGANIC:GOLD''), (''bone'', wm_of_category ''bone''),
      (''leather'', wm_of_category ''leather''), (''cloth'', wm_of_category ''cloth''),
      (''shell'', wm_of_category ''shell''), (''metal'', wm_of_category ''metal'')]"

section \<open>Tables of place.go, stockpile.go, zone.go, brew.go and appoint.go\<close>

text \<open>At most one of the two subtypes of a placement is set; the datatype says which.\<close>

datatype place_subtype = NoSubtype | WorkshopSubtype string | FurnaceSubtype string

record place_spec =
  pl_building_type :: string
  pl_subtype :: place_subtype

definition place_of :: "string \<Rightarrow> place_subtype \<Rightarrow> place_spec" where
  "place_of b s = \<lparr> pl_building_type = b, pl_subtype = s \<rparr>"

definition placeable_item_to_building :: "(string \<times> place_spec) list" where
  "placeable_item_to_building = [
      (''table'', place_of ''Table'' NoSubtype), (''bed'', place_of ''Bed'' NoSubtype),
      (''door'', place_of ''Door'' NoSubtype), (''chair'', place_of ''Chair'' NoSubtype),
      (''throne'', place_of ''Chair'' NoSubtype), (''coffin'', place_of ''Coffin'' NoSubtype),
      (''cabinet'', place_of ''Cabinet'' NoSubtype), (''chest'', place_of ''Box'' NoSubtype),
      (''statue'', place_of ''Statue'' NoSubtype),
      (''floodgate'', place_of ''Floodgate'' NoSubtype),
      (''armorstand'', place_of ''Armorstand'' NoSubtype),
      (''weaponrack'', place_of ''Weaponrack'' NoSubtype),
      (''hatchcover'', place_of ''Hatch'' NoSubtype),
      (''grate'', place_of ''GrateFloor'' NoSubtype), (''slab'', place_of ''Slab'' NoSubtype),
      (''bookcase'', place_of ''Bookcase'' NoSubtype),
      (''pedestal'', place_of ''DisplayFurniture'' NoSubtype),
      (''altar'', place_of ''OfferingPlace'' NoSubtype), (''cage'', place_of ''Cage'' NoSubtype),
      (''animaltrap'', place_of ''AnimalTrap'' NoSubtype),
      (''quern'', place_of ''Workshop'' (WorkshopSubtype ''Quern'')),
      (''millstone'', place_of ''Workshop'' (WorkshopSubtype ''Millstone'')),
      (''carpenter'', place_of ''Workshop'' (WorkshopSubtype ''Carpenters'')),
      (''farmer'', place_of ''Workshop'' (WorkshopSubtype ''Farmers'')),
      (''mason'', place_of ''Workshop'' (WorkshopSubtype ''Masons'')),
      (''craftsdwarf'', place_of ''Workshop'' (WorkshopSubtype ''Craftsdwarfs'')),
      (''jeweler'', place_of ''Workshop'' (WorkshopSubtype ''Jewelers'')),
      (''forge'', place_of ''Workshop'' (WorkshopSubtype ''MetalsmithsForge'')),
      (''magmaforge'', place_of ''Workshop'' (WorkshopSubtype ''MagmaForge'')),
      (''bowyer'', place_of ''Workshop'' (WorkshopSubtype ''Bowyers'')),
      (''mechanic'', place_of ''Workshop'' (WorkshopSubtype ''Mechanics'')),
      (''siegeworkshop'', place_of ''Workshop'' (WorkshopSubtype ''Siege'')),
      (''butcher'', place_of ''Workshop'' (WorkshopSubtype ''Butchers'')),
      (''leatherwork'', place_of ''Workshop'' (WorkshopSubtype ''Leatherworks'')),
      (''tanner'', place_of ''Workshop'' (WorkshopSubtype ''Tanners'')),
      (''clothier'', place_of ''Workshop'' (WorkshopSubtype ''Clothiers'')),
      (''fishery'', place_of ''Workshop'' (WorkshopSubtype ''Fishery'')),
      (''still'', place_of ''Workshop'' (WorkshopSubtype ''Still'')),
      (''loom'', place_of ''Workshop'' (WorkshopSubtype ''Loom'')),
      (''kennel'', place_of ''Workshop'' (WorkshopSubtype ''Kennels'')),
      (''ashery'', place_of ''Workshop'' (WorkshopSubtype ''Ashery'')),
      (''kitchen'', place_of ''Workshop'' (WorkshopSubtype ''Kitchen'')),
      (''dyer'', place_of ''Workshop'' (WorkshopSubtype ''Dyers'')),
      (''woodfurnace'', place_of ''Furnace'' (FurnaceSubtype ''WoodFurnace'')),
      (''smelter'', place_of ''Furnace'' (FurnaceSubtype ''Smelter'')),
      (''glassfurnace'', place_of ''Furnace'' (FurnaceSubtype ''GlassFurnace'')),
      (''kiln'', place_of ''Furnace'' (FurnaceSubtype ''Kiln'')),
      (''magmasmelter'', place_of ''Furnace'' (FurnaceSubtype ''MagmaSmelter'')),
      (''magmaglassfurnace'', place_of ''Furnace'' (FurnaceSubtype ''MagmaGlassFurnace'')),
      (''magmakiln'', place_of ''Furnace'' (FurnaceSubtype ''MagmaKiln''))]"

definition stockpile_category_to_preset :: "(string \<times> string) list" where
  "stockpile_category_to_preset = [
      (''all'', ''library/all''), (''ammo'', ''library/cat_ammo''),
      (''animal'', ''library/cat_animals''), (''armor'', ''library/cat_armor''),
      (''bar'', ''library/cat_bars_blocks''), (''cloth'', ''library/cat_cloth''),
      (''coin'', ''library/cat_coins''), (''corpse'', ''library/cat_corpses''),
      (''good'', ''library/cat_finished_goods''), (''food'', ''library/cat_food''),
      (''furniture'', ''library/cat_furniture''), (''gem'', ''library/cat_gems''),
      (''leather'', ''library/cat_leather''), (''refuse'', ''library/cat_refuse''),
      (''sheet'', ''library/cat_sheets''), (''stone'', ''library/cat_stone''),
      (''weapon'', ''library/cat_weapons''), (''wood'', ''library/cat_wood'')]"

definition zone_type_to_civzone :: "(string \<times> string) list" where
  "zone_type_to_civzone =
     [(''office'', ''Office''), (''bedroom'', ''Bedroom''), (''dormitory'', ''Dormitory'')]"

definition brew_source_to_reaction :: "(string \<times> string) list" where
  "brew_source_to_reaction =
     [(''fruit'', ''BREW_DRINK_FROM_PLANT_GROWTH''), (''plant'', ''BREW_DRINK_FROM_PLANT'')]"

definition noble_vocab :: "string list" where
  "noble_vocab = [''manager'', ''bookkeeper'', ''broker'', ''doctor'', ''commander'']"

text \<open>The reason string holds an em dash, three bytes in UTF-8.\<close>

definition noble_deferred :: "(string \<times> string) list" where
  "noble_deferred =
     [(''captain'', ''captain needs a squad '' @ [CHR 0xE2, CHR 0x80, CHR 0x94]
         @ '' not supported yet'')]"

definition office_to_position_code :: "(string \<times> string) list" where
  "office_to_position_code =
     [(''manager'', ''MANAGER''), (''bookkeeper'', ''BOOKKEEPER''), (''broker'', ''BROKER''),
      (''doctor'', ''CHIEF_MEDICAL_DWARF''), (''commander'', ''MILITIA_COMMANDER'')]"

end
