(* ===== verification/Verb_Parse.thy ===== *)
theory Verb_Parse
  imports Verb_Vocab
begin

text \<open>
  The chat-side parser: the helpers of \<^verbatim>\<open>overseer/verbs/helpers.go\<close>, one parser per verb and the
  dispatcher \<^verbatim>\<open>ParseCommand\<close> of \<^verbatim>\<open>overseer/parse.go\<close>. An error of the source is a constructor
  of \<open>parse_error\<close> that holds the values its message is formatted from; \<open>Reject\<close> is
  \<^verbatim>\<open>wire.RejectReason\<close>, the one kind of error that is shown to the chatter.
\<close>

section \<open>Errors\<close>

datatype parse_error =
    EmptyCommand
  | UnknownVerb string
  | InvalidCoordinate string
  | CoordCount string nat
  | AreaOverCap string int int int
  | MissingItem
  | QuantityNotPositive
  | UnknownItem string
  | MissingMaterial
  | UnknownMaterial string
  | ExtraTokens string
  | MaterialNotAllowed string string
  | NotPlaceable string
  | UnknownCategory string
  | UnknownZoneType string
  | UnknownBrewSource string
  | MissingArguments string
  | WorkshopIdPrefix
  | InvalidWorkshopId string
  | FixedRecipeItem string
  | MaterialCount string
  | AppointArguments
  | InvalidUnitId int
  | UnknownPosition string
  | Reject string

section \<open>Helpers (helpers.go)\<close>

definition region_verb_max_area :: int where
  "region_verb_max_area = 100"

fun parse_ints :: "string list \<Rightarrow> parse_error + int list" where
  "parse_ints [] = Inr []"
| "parse_ints (p # ps) =
     (case atoi p of
        None \<Rightarrow> Inl (InvalidCoordinate p)
      | Some n \<Rightarrow> bind_res (parse_ints ps) (\<lambda>ns. Inr (n # ns)))"

definition extract_coord_ints :: "string list \<Rightarrow> parse_error + int list" where
  "extract_coord_ints rest =
     (let joined = join_with '' '' rest;
          cleaned = fold (\<lambda>c s. replace_char c (CHR '' '') s) [CHR ''('', CHR '')'', CHR '',''] joined
      in parse_ints (str_fields cleaned))"

definition abs64 :: "int \<Rightarrow> int" where
  "abs64 n = (if n < 0 then wrap64 (- n) else n)"

definition check_region :: "string \<Rightarrow> int \<Rightarrow> int \<Rightarrow> int \<Rightarrow> int \<Rightarrow> int \<Rightarrow> parse_error + region" where
  "check_region verb x1 y1 z x2 y2 =
     (let dx = wrap64 (abs64 (wrap64 (x2 - x1)) + 1);
          dy = wrap64 (abs64 (wrap64 (y2 - y1)) + 1);
          area = wrap64 (dx * dy)
      in if area > region_verb_max_area then Inl (AreaOverCap verb dx dy area)
         else Inr \<lparr> rmin = \<lparr> pos_x = x1, pos_y = y1, pos_z = z \<rparr>,
                    rmax = \<lparr> pos_x = x2, pos_y = y2, pos_z = z \<rparr> \<rparr>)"

fun region_of_coords :: "string \<Rightarrow> int list \<Rightarrow> parse_error + region" where
  "region_of_coords verb [x1, y1, z] = check_region verb x1 y1 z x1 y1"
| "region_of_coords verb [x1, y1, z, x2, y2] = check_region verb x1 y1 z x2 y2"
| "region_of_coords verb [x1, y1, z, x2, y2, z2] = check_region verb x1 y1 z x2 y2"
| "region_of_coords verb cs = Inl (CoordCount verb (length cs))"

definition parse_region_verb :: "string \<Rightarrow> string list \<Rightarrow> parse_error + region" where
  "parse_region_verb verb rest = bind_res (extract_coord_ints rest) (region_of_coords verb)"

definition strip_filler_words :: "string list \<Rightarrow> string list" where
  "strip_filler_words tokens = filter (\<lambda>t. t \<notin> set filler_words) tokens"

definition normalize_material :: "string \<Rightarrow> string" where
  "normalize_material token =
     (case map_of material_aliases token of Some a \<Rightarrow> a | None \<Rightarrow> token)"

text \<open>
  The optional leading quantity of make, brew and taskat. The callers have checked that there is
  a first token.
\<close>

fun parse_qty :: "string list \<Rightarrow> parse_error + int \<times> string list" where
  "parse_qty [] = Inr (1, [])"
| "parse_qty (t # ts) =
     (case atoi t of
        None \<Rightarrow> Inr (1, t # ts)
      | Some n \<Rightarrow> if n \<le> 0 then Inl QuantityNotPositive else Inr (n, ts))"

section \<open>One parser per verb\<close>

definition parse_no_args :: "action_kind \<Rightarrow> string list \<Rightarrow> parse_error + action" where
  "parse_no_args k rest =
     (if rest \<noteq> [] then Inl (ExtraTokens (join_with '' '' rest)) else Inr (action_of_kind k))"

definition parse_pause :: "string list \<Rightarrow> parse_error + action" where
  "parse_pause rest = parse_no_args KindPause rest"

definition parse_unpause :: "string list \<Rightarrow> parse_error + action" where
  "parse_unpause rest = parse_no_args KindUnpause rest"

definition parse_help :: "string list \<Rightarrow> parse_error + action" where
  "parse_help rest = parse_no_args KindHelp rest"

fun position_of_coords :: "string \<Rightarrow> int list \<Rightarrow> parse_error + position" where
  "position_of_coords verb [x, y, z] = Inr \<lparr> pos_x = x, pos_y = y, pos_z = z \<rparr>"
| "position_of_coords verb cs = Inl (CoordCount verb (length cs))"

definition parse_camera :: "string list \<Rightarrow> parse_error + action" where
  "parse_camera rest =
     bind_res (extract_coord_ints rest) (\<lambda>coords.
     bind_res (position_of_coords ''camera'' coords) (\<lambda>p.
       Inr ((action_of_kind KindCamera)\<lparr> act_position := Some p \<rparr>)))"

definition parse_region_action :: "action_kind \<Rightarrow> string \<Rightarrow> string list \<Rightarrow> parse_error + action" where
  "parse_region_action k verb rest =
     bind_res (parse_region_verb verb rest) (\<lambda>r. Inr ((action_of_kind k)\<lparr> act_region := Some r \<rparr>))"

definition parse_mine :: "string list \<Rightarrow> parse_error + action" where
  "parse_mine rest = parse_region_action KindMine ''mine'' rest"

definition parse_channel :: "string list \<Rightarrow> parse_error + action" where
  "parse_channel rest = parse_region_action KindChannel ''channel'' rest"

definition parse_digramp :: "string list \<Rightarrow> parse_error + action" where
  "parse_digramp rest = parse_region_action KindDigRamp ''digramp'' rest"

definition parse_cuttree :: "string list \<Rightarrow> parse_error + action" where
  "parse_cuttree rest = parse_region_action KindCutTree ''cuttree'' rest"

fun parse_stockpile :: "string list \<Rightarrow> parse_error + action" where
  "parse_stockpile [] = Inl (MissingArguments ''stockpile'')"
| "parse_stockpile (c # rest) =
     (let category = trim_suffix ''s'' c in
      if map_of stockpile_category_to_preset category = None then Inl (UnknownCategory c)
      else bind_res (parse_region_verb ''stockpile'' rest) (\<lambda>r.
             Inr ((action_of_kind KindStockpile)\<lparr> act_item := category, act_region := Some r \<rparr>)))"

fun parse_zone :: "string list \<Rightarrow> parse_error + action" where
  "parse_zone [] = Inl (MissingArguments ''zone'')"
| "parse_zone (t # rest) =
     (let zone_type = trim_suffix ''s'' t in
      if map_of zone_type_to_civzone zone_type = None then Inl (UnknownZoneType t)
      else bind_res (parse_region_verb ''zone'' rest) (\<lambda>r.
             Inr ((action_of_kind KindZone)\<lparr> act_item := zone_type, act_region := Some r \<rparr>)))"

fun parse_place :: "string list \<Rightarrow> parse_error + action" where
  "parse_place [] = Inl (MissingArguments ''place'')"
| "parse_place (t # rest) =
     (let item = trim_suffix ''s'' t in
      if map_of placeable_item_to_building item = None then Inl (NotPlaceable item)
      else bind_res (extract_coord_ints rest) (\<lambda>coords.
           bind_res (position_of_coords ''place'' coords) (\<lambda>p.
             Inr ((action_of_kind KindPlace)\<lparr> act_item := item, act_position := Some p \<rparr>))))"

definition parse_brew :: "string list \<Rightarrow> parse_error + action" where
  "parse_brew tokens =
     (if tokens = [] then Inl (MissingArguments ''brew'')
      else bind_res (parse_qty tokens) (\<lambda>(qty, ts).
        if ts = [] then Inl (MissingArguments ''brew'')
        else let source = trim_suffix ''s'' (last ts) in
          if map_of brew_source_to_reaction source = None then Inl (UnknownBrewSource source)
          else if length ts > 1 then Inl (ExtraTokens (join_with '' '' (butlast ts)))
          else Inr ((action_of_kind KindBrew)\<lparr> act_item := source, act_quantity := qty \<rparr>)))"

text \<open>
  The material part of make: the tokens between the quantity and the item. An item with a fixed
  recipe takes none and ignores one; every other item needs exactly one, from the vocabulary and,
  where the item is restricted, from its allow list.
\<close>

fun parse_material :: "string \<Rightarrow> string list \<Rightarrow> parse_error + string option" where
  "parse_material item [] =
     (if item \<in> set item_material_not_applicable then Inr None else Inl MissingMaterial)"
| "parse_material item [m] =
     (if item \<in> set item_material_not_applicable then Inr None
      else let mat = normalize_material m in
        if mat \<notin> set material_vocab then Inl (UnknownMaterial m)
        else (case map_of item_material_allowlist item of
                None \<Rightarrow> Inr (Some mat)
              | Some allowed \<Rightarrow>
                  if mat \<in> set allowed then Inr (Some mat) else Inl (MaterialNotAllowed mat item)))"
| "parse_material item pre = Inl (ExtraTokens (join_with '' '' pre))"

definition parse_manufacture :: "string list \<Rightarrow> parse_error + action" where
  "parse_manufacture tokens =
     (if tokens = [] then Inl MissingItem
      else bind_res (parse_qty tokens) (\<lambda>(qty, ts).
        if ts = [] then Inl MissingItem
        else let item = trim_suffix ''s'' (last ts) in
          if item \<notin> set item_vocab then Inl (UnknownItem item)
          else bind_res (parse_material item (butlast ts)) (\<lambda>material.
            Inr ((action_of_kind KindManufacture)\<lparr>
                   act_item := item, act_material := material, act_quantity := qty \<rparr>))))"

definition taskat_item :: "string list \<Rightarrow> parse_error + string \<times> string" where
  "taskat_item ts =
     (let item = trim_suffix ''s'' (last ts) in
      if item \<notin> set item_vocab then Inl (UnknownItem item)
      else if item \<in> set item_material_not_applicable then Inl (FixedRecipeItem item)
      else (case butlast ts of
              [m] \<Rightarrow> let mat = normalize_material m in
                     if mat \<notin> set material_vocab then Inl (UnknownMaterial m) else Inr (item, mat)
            | pre \<Rightarrow> Inl (MaterialCount (join_with '' '' pre))))"

definition parse_taskat :: "string list \<Rightarrow> parse_error + action" where
  "parse_taskat tokens =
     (if length tokens < 3 then Inl (MissingArguments ''taskat'')
      else if \<not> has_prefix ''#'' (hd tokens) then Inl WorkshopIdPrefix
      else case atoi (trim_prefix ''#'' (hd tokens)) of
        None \<Rightarrow> Inl (InvalidWorkshopId (hd tokens))
      | Some ws \<Rightarrow>
          if ws < 0 then Inl (InvalidWorkshopId (hd tokens))
          else bind_res (parse_qty (tl tokens)) (\<lambda>(qty, ts).
            if length ts < 2 then Inl (MissingArguments ''taskat'')
            else bind_res (taskat_item ts) (\<lambda>(item, mat).
              Inr ((action_of_kind KindTaskat)\<lparr>
                     act_item := item, act_material := Some mat, act_quantity := qty,
                     act_workshop := ws \<rparr>))))"

definition appoint_position :: "string \<Rightarrow> int \<Rightarrow> parse_error + action" where
  "appoint_position pos uid =
     (if uid < 0 then Inl (InvalidUnitId uid)
      else case map_of noble_deferred pos of
        Some reason \<Rightarrow> Inl (Reject reason)
      | None \<Rightarrow>
          if pos \<notin> set noble_vocab then Inl (UnknownPosition pos)
          else Inr ((action_of_kind KindAppoint)\<lparr> act_office := pos, act_unit := uid \<rparr>))"

fun parse_appoint :: "string list \<Rightarrow> parse_error + action" where
  "parse_appoint [a, b] =
     (let t0 = trim_prefix ''#'' a; t1 = trim_prefix ''#'' b in
      case (atoi t0, atoi t1) of
        (None, Some n1) \<Rightarrow> appoint_position t0 n1
      | (Some n0, None) \<Rightarrow> appoint_position t1 n0
      | _ \<Rightarrow> Inl AppointArguments)"
| "parse_appoint ts = Inl (MissingArguments ''appoint'')"

section \<open>The dispatcher (parse.go)\<close>

definition verb_parsers :: "(string \<times> (string list \<Rightarrow> parse_error + action)) list" where
  "verb_parsers =
     [(''make'', parse_manufacture), (''pause'', parse_pause), (''unpause'', parse_unpause),
      (''camera'', parse_camera), (''help'', parse_help), (''place'', parse_place),
      (''brew'', parse_brew), (''mine'', parse_mine), (''channel'', parse_channel),
      (''digramp'', parse_digramp), (''cuttree'', parse_cuttree),
      (''stockpile'', parse_stockpile), (''zone'', parse_zone), (''taskat'', parse_taskat),
      (''appoint'', parse_appoint)]"

definition command_tokens :: "string \<Rightarrow> string list" where
  "command_tokens args = strip_filler_words (str_fields (to_lower (trim_space args)))"

definition parse_command :: "string \<Rightarrow> parse_error + action" where
  "parse_command args =
     (case command_tokens args of
        [] \<Rightarrow> Inl EmptyCommand
      | verb # rest \<Rightarrow>
          (case map_of verb_parsers verb of
             None \<Rightarrow> Inl (UnknownVerb verb)
           | Some p \<Rightarrow> p rest))"

end
