(* ===== verification/Verb_Submit.thy ===== *)
theory Verb_Submit
  imports Verb_Parse
begin

text \<open>
  The executor side: the \<^verbatim>\<open>Submit*\<close> functions of package \<^verbatim>\<open>verbs\<close> and the dispatch
  \<^verbatim>\<open>nivekOverseerServiceImpl.Submit\<close>. A submitter decides what to run and hands it to the
  executor interface; here it returns the call (\<open>executor_call\<close>) or the error, and
  \<open>submit\<close> runs the call through the executor, which is a parameter: it shells out to
  \<^verbatim>\<open>dfhack-run\<close>.

  A Lua script is its template, a constructor, with the values formatted into the template's
  slots in their order. A workorder is the JSON text itself.
\<close>

section \<open>Executor calls\<close>

datatype lua_script =
    LuaSetPause bool
  | LuaCamera int int int                              \<comment> \<open>z, x, y\<close>
  | LuaPlace int string string int int                 \<comment> \<open>z, building type, subtype line, x, y\<close>
  | LuaDig int int int int int string                  \<comment> \<open>z, minX, maxX, minY, maxY, designation\<close>
  | LuaCutTree int int int int int                     \<comment> \<open>z, minX, maxX, minY, maxY\<close>
  | LuaStockpile int int int int int string            \<comment> \<open>z, x, y, width, height, preset\<close>
  | LuaZone int int int int int string                 \<comment> \<open>z, x, y, width, height, civzone type\<close>
  | LuaAppoint int string                              \<comment> \<open>unit, position code\<close>
  | LuaTaskat int int string string                    \<comment> \<open>workshop, count, job type, material lines\<close>

datatype executor_call = RunLua lua_script | RunDFHack "string list"

datatype submit_error =
    UnsupportedKind action_kind
  | RegionRequired action_kind
  | NotSingleLevel action_kind int int
  | PositionRequired action_kind
  | NoMapping action_kind string
  | NoMaterialMapping string
  | WorkshopRequired
  | MaterialRequired
  | SubtypeNotSupported string
  | MaterialNotSupported string
  | ExecutorFailed string

section \<open>Workorders: make and brew\<close>

record workorder_request =
  wo_job :: string
  wo_amount_total :: int
  wo_material :: string
  wo_material_category :: "string list"
  wo_item_subtype :: string

text \<open>
  \<^verbatim>\<open>encoding/json\<close> on the two request structs: the members in order, those tagged
  \<^verbatim>\<open>omitempty\<close> only when they are not empty. No string that reaches it holds a character that
  JSON escapes (\<open>workorder_strings_plain\<close> below).
\<close>

definition json_str :: "string \<Rightarrow> string" where
  "json_str s = [CHR 0x22] @ s @ [CHR 0x22]"

definition json_member :: "string \<Rightarrow> string \<Rightarrow> string" where
  "json_member k v = json_str k @ '':'' @ v"

definition json_object :: "string list \<Rightarrow> string" where
  "json_object ms = ''{'' @ join_with '','' ms @ ''}''"

definition marshal_workorder :: "workorder_request \<Rightarrow> string" where
  "marshal_workorder r = json_object
     ([json_member ''job'' (json_str (wo_job r)),
       json_member ''amount_total'' (itoa (wo_amount_total r))]
      @ (if wo_material r = [] then [] else [json_member ''material'' (json_str (wo_material r))])
      @ (if wo_material_category r = [] then []
         else [json_member ''material_category''
                 (''['' @ join_with '','' (map json_str (wo_material_category r)) @ '']'')])
      @ (if wo_item_subtype r = [] then []
         else [json_member ''item_subtype'' (json_str (wo_item_subtype r))]))"

definition marshal_custom_reaction :: "string \<Rightarrow> int \<Rightarrow> string" where
  "marshal_custom_reaction reaction qty = json_object
     [json_member ''job'' (json_str ''CustomReaction''),
      json_member ''reaction'' (json_str reaction),
      json_member ''amount_total'' (itoa qty)]"

definition workorder_job :: "string \<Rightarrow> submit_error + string \<times> string" where
  "workorder_job item =
     (case map_of item_to_subtype_job item of
        Some spec \<Rightarrow> Inr (sj_job spec, sj_item_subtype spec)
      | None \<Rightarrow> (case map_of item_to_job_type item of
          Some j \<Rightarrow> Inr (j, [])
        | None \<Rightarrow> Inl (NoMapping KindManufacture item)))"

definition workorder_material :: "string option \<Rightarrow> submit_error + workorder_material_spec" where
  "workorder_material m =
     (case m of
        None \<Rightarrow> Inr \<lparr> wm_material = [], wm_category = [] \<rparr>
      | Some mat \<Rightarrow> (case map_of material_to_workorder_spec mat of
          None \<Rightarrow> Inl (NoMaterialMapping mat)
        | Some spec \<Rightarrow> Inr spec))"

definition manufacture_request :: "action \<Rightarrow> submit_error + workorder_request" where
  "manufacture_request a =
     (let qty = (if act_quantity a \<le> 0 then 1 else act_quantity a) in
      bind_res (workorder_job (act_item a)) (\<lambda>(job, subtype).
      bind_res (workorder_material (act_material a)) (\<lambda>spec.
        Inr \<lparr> wo_job = job, wo_amount_total = qty, wo_material = wm_material spec,
              wo_material_category = wm_category spec, wo_item_subtype = subtype \<rparr>)))"

definition submit_manufacture :: "action \<Rightarrow> submit_error + executor_call" where
  "submit_manufacture a =
     bind_res (manufacture_request a) (\<lambda>req. Inr (RunDFHack [''workorder'', marshal_workorder req]))"

definition submit_brew :: "action \<Rightarrow> submit_error + executor_call" where
  "submit_brew a =
     (case map_of brew_source_to_reaction (act_item a) of
        None \<Rightarrow> Inl (NoMapping KindBrew (act_item a))
      | Some reaction \<Rightarrow>
          let qty = (if act_quantity a \<le> 0 then 1 else act_quantity a) in
          Inr (RunDFHack [''workorder'', marshal_custom_reaction reaction qty]))"

section \<open>Pause, camera, place\<close>

definition submit_pause :: "action \<Rightarrow> submit_error + executor_call" where
  "submit_pause a = Inr (RunLua (LuaSetPause True))"

definition submit_unpause :: "action \<Rightarrow> submit_error + executor_call" where
  "submit_unpause a = Inr (RunLua (LuaSetPause False))"

definition submit_camera :: "action \<Rightarrow> submit_error + executor_call" where
  "submit_camera a =
     (case act_position a of
        None \<Rightarrow> Inl (PositionRequired KindCamera)
      | Some p \<Rightarrow> Inr (RunLua (LuaCamera (pos_z p) (pos_x p) (pos_y p))))"

fun subtype_lua :: "place_subtype \<Rightarrow> string" where
  "subtype_lua NoSubtype = ''local subtype = -1''"
| "subtype_lua (WorkshopSubtype s) = ''local subtype = df.workshop_type.'' @ s"
| "subtype_lua (FurnaceSubtype s) = ''local subtype = df.furnace_type.'' @ s"

definition submit_place :: "action \<Rightarrow> submit_error + executor_call" where
  "submit_place a =
     (case act_position a of
        None \<Rightarrow> Inl (PositionRequired KindPlace)
      | Some p \<Rightarrow> (case map_of placeable_item_to_building (act_item a) of
          None \<Rightarrow> Inl (NoMapping KindPlace (act_item a))
        | Some spec \<Rightarrow>
            Inr (RunLua (LuaPlace (pos_z p) (pl_building_type spec) (subtype_lua (pl_subtype spec))
                          (pos_x p) (pos_y p)))))"

section \<open>Region verbs\<close>

text \<open>
  Every region submitter refuses a region that spans levels and then orders the corners. The
  ordered corners are \<open>(z, minX, maxX, minY, maxY)\<close>.
\<close>

definition ordered_region :: "action_kind \<Rightarrow> region \<Rightarrow> submit_error + int \<times> int \<times> int \<times> int \<times> int" where
  "ordered_region k r =
     (if pos_z (rmin r) \<noteq> pos_z (rmax r)
      then Inl (NotSingleLevel k (pos_z (rmin r)) (pos_z (rmax r)))
      else let x1 = pos_x (rmin r); x2 = pos_x (rmax r);
               y1 = pos_y (rmin r); y2 = pos_y (rmax r);
               (minX, maxX) = (if x1 > x2 then (x2, x1) else (x1, x2));
               (minY, maxY) = (if y1 > y2 then (y2, y1) else (y1, y2))
           in Inr (pos_z (rmin r), minX, maxX, minY, maxY))"

definition submit_dig_designation :: "action \<Rightarrow> string \<Rightarrow> submit_error + executor_call" where
  "submit_dig_designation a designation =
     (case act_region a of
        None \<Rightarrow> Inl (RegionRequired (act_kind a))
      | Some r \<Rightarrow> bind_res (ordered_region (act_kind a) r) (\<lambda>(z, minX, maxX, minY, maxY).
          Inr (RunLua (LuaDig z minX maxX minY maxY designation))))"

definition submit_mine :: "action \<Rightarrow> submit_error + executor_call" where
  "submit_mine a = submit_dig_designation a ''Default''"

definition submit_channel :: "action \<Rightarrow> submit_error + executor_call" where
  "submit_channel a = submit_dig_designation a ''Channel''"

definition submit_digramp :: "action \<Rightarrow> submit_error + executor_call" where
  "submit_digramp a = submit_dig_designation a ''Ramp''"

definition submit_cuttree :: "action \<Rightarrow> submit_error + executor_call" where
  "submit_cuttree a =
     (case act_region a of
        None \<Rightarrow> Inl (RegionRequired KindCutTree)
      | Some r \<Rightarrow> bind_res (ordered_region KindCutTree r) (\<lambda>(z, minX, maxX, minY, maxY).
          Inr (RunLua (LuaCutTree z minX maxX minY maxY))))"

definition extent :: "int \<Rightarrow> int \<Rightarrow> int" where
  "extent lo hi = wrap64 (wrap64 (hi - lo) + 1)"

definition submit_stockpile :: "action \<Rightarrow> submit_error + executor_call" where
  "submit_stockpile a =
     (case act_region a of
        None \<Rightarrow> Inl (RegionRequired KindStockpile)
      | Some r \<Rightarrow> (case map_of stockpile_category_to_preset (act_item a) of
          None \<Rightarrow> Inl (NoMapping KindStockpile (act_item a))
        | Some preset \<Rightarrow> bind_res (ordered_region KindStockpile r) (\<lambda>(z, minX, maxX, minY, maxY).
            Inr (RunLua (LuaStockpile z minX minY (extent minX maxX) (extent minY maxY) preset)))))"

definition submit_zone :: "action \<Rightarrow> submit_error + executor_call" where
  "submit_zone a =
     (case act_region a of
        None \<Rightarrow> Inl (RegionRequired KindZone)
      | Some r \<Rightarrow> (case map_of zone_type_to_civzone (act_item a) of
          None \<Rightarrow> Inl (NoMapping KindZone (act_item a))
        | Some enum \<Rightarrow> bind_res (ordered_region KindZone r) (\<lambda>(z, minX, maxX, minY, maxY).
            Inr (RunLua (LuaZone z minX minY (extent minX maxX) (extent minY maxY) enum)))))"

section \<open>Appoint and taskat\<close>

definition submit_appoint :: "action \<Rightarrow> submit_error + executor_call" where
  "submit_appoint a =
     (case map_of office_to_position_code (act_office a) of
        None \<Rightarrow> Inl (NoMapping KindAppoint (act_office a))
      | Some code \<Rightarrow> Inr (RunLua (LuaAppoint (act_unit a) code)))"

definition category_materials :: "string list" where
  "category_materials = [''wood'', ''bone'', ''leather'', ''cloth'', ''shell'', ''metal'']"

definition taskat_material_lua :: "string \<Rightarrow> string \<Rightarrow> string" where
  "taskat_material_lua material job_var =
     (if material \<in> set category_materials
      then job_var @ ''.material_category.'' @ material @ '' = true''
      else if material = ''stone''
      then job_var @ ''.mat_type = 0; '' @ job_var @ ''.mat_index = -1''
      else [])"

definition taskat_job :: "string \<Rightarrow> submit_error + string" where
  "taskat_job item =
     (case map_of item_to_subtype_job item of
        Some spec \<Rightarrow>
          if sj_item_subtype spec \<noteq> [] then Inl (SubtypeNotSupported item) else Inr (sj_job spec)
      | None \<Rightarrow> (case map_of item_to_job_type item of
          Some j \<Rightarrow> Inr j
        | None \<Rightarrow> Inl (NoMapping KindTaskat item)))"

definition submit_taskat :: "action \<Rightarrow> submit_error + executor_call" where
  "submit_taskat a =
     (if act_workshop a = 0 then Inl WorkshopRequired
      else case act_material a of
        None \<Rightarrow> Inl MaterialRequired
      | Some mat \<Rightarrow>
          bind_res (taskat_job (act_item a)) (\<lambda>job.
            let material_lua = taskat_material_lua mat ''j'' in
            if material_lua = [] then Inl (MaterialNotSupported mat)
            else let qty = (if act_quantity a < 1 then 1 else act_quantity a) in
              Inr (RunLua (LuaTaskat (act_workshop a) qty job material_lua))))"

section \<open>The dispatch (service.go)\<close>

definition submit_call :: "action \<Rightarrow> submit_error + executor_call" where
  "submit_call a =
     (case act_kind a of
        KindManufacture \<Rightarrow> submit_manufacture a
      | KindPause \<Rightarrow> submit_pause a
      | KindUnpause \<Rightarrow> submit_unpause a
      | KindCamera \<Rightarrow> submit_camera a
      | KindPlace \<Rightarrow> submit_place a
      | KindBrew \<Rightarrow> submit_brew a
      | KindMine \<Rightarrow> submit_mine a
      | KindChannel \<Rightarrow> submit_channel a
      | KindDigRamp \<Rightarrow> submit_digramp a
      | KindCutTree \<Rightarrow> submit_cuttree a
      | KindStockpile \<Rightarrow> submit_stockpile a
      | KindZone \<Rightarrow> submit_zone a
      | KindAppoint \<Rightarrow> submit_appoint a
      | KindTaskat \<Rightarrow> submit_taskat a
      | _ \<Rightarrow> Inl (UnsupportedKind (act_kind a)))"

text \<open>
  The executor takes its own state \<^typ>\<open>'w\<close> (the game) and answers with \<open>None\<close> for success or
  the error text of \<^verbatim>\<open>dfhack-run\<close>.
\<close>

type_synonym 'w executor = "executor_call \<Rightarrow> 'w \<Rightarrow> string option \<times> 'w"

definition submit :: "'w executor \<Rightarrow> action \<Rightarrow> 'w \<Rightarrow> submit_error option \<times> 'w" where
  "submit ex a w =
     (case submit_call a of
        Inl e \<Rightarrow> (Some e, w)
      | Inr c \<Rightarrow> (case ex c w of
          (None, w') \<Rightarrow> (None, w')
        | (Some msg, w') \<Rightarrow> (Some (ExecutorFailed msg), w')))"

text \<open>
  The tiles the region scripts act on: the two nested Lua loops of the dig designation, the
  bounding test of cuttree, and the footprint that \<^verbatim>\<open>constructBuilding\<close> is asked for.
\<close>

fun script_tiles :: "lua_script \<Rightarrow> (int \<times> int) list" where
  "script_tiles (LuaDig z x1 x2 y1 y2 d) = List.product [x1..x2] [y1..y2]"
| "script_tiles (LuaCutTree z x1 x2 y1 y2) = List.product [x1..x2] [y1..y2]"
| "script_tiles (LuaStockpile z x y w h p) = List.product [x..x + w - 1] [y..y + h - 1]"
| "script_tiles (LuaZone z x y w h e) = List.product [x..x + w - 1] [y..y + h - 1]"
| "script_tiles (LuaPlace z b s x y) = [(x, y)]"
| "script_tiles _ = []"

end
