(* ===== verification/Verb_Contract.thy ===== *)
theory Verb_Contract
  imports Verb_Submit
begin

text \<open>
  What parser and submitter of one verb promise each other, as locales: a parser only returns
  actions of its kind that are well formed, a submitter accepts every well-formed action of its
  kind, and a region verb acts on exactly the tiles of the rectangle that was typed. Each of the
  fifteen verbs is an interpretation; the properties of the whole dispatch follow from them.
\<close>

section \<open>Well-formed actions\<close>

definition allowed_material :: "string \<Rightarrow> string \<Rightarrow> bool" where
  "allowed_material item mat \<longleftrightarrow>
     mat \<in> set material_vocab \<and>
     (case map_of item_material_allowlist item of None \<Rightarrow> True | Some ms \<Rightarrow> mat \<in> set ms)"

definition wf_region :: "action \<Rightarrow> bool" where
  "wf_region a = (case act_region a of None \<Rightarrow> False | Some r \<Rightarrow> pos_z (rmin r) = pos_z (rmax r))"

definition wf_action :: "action \<Rightarrow> bool" where
  "wf_action a =
     (case act_kind a of
        KindManufacture \<Rightarrow> act_item a \<in> set item_vocab \<and> 0 < act_quantity a \<and>
          (case act_material a of
             None \<Rightarrow> act_item a \<in> set item_material_not_applicable
           | Some m \<Rightarrow> act_item a \<notin> set item_material_not_applicable \<and> allowed_material (act_item a) m)
      | KindTaskat \<Rightarrow> act_item a \<in> set item_vocab - set item_material_not_applicable \<and>
          0 < act_quantity a \<and> 0 \<le> act_workshop a \<and>
          (case act_material a of None \<Rightarrow> False | Some m \<Rightarrow> m \<in> set material_vocab)
      | KindBrew \<Rightarrow> map_of brew_source_to_reaction (act_item a) \<noteq> None \<and> 0 < act_quantity a
      | KindCamera \<Rightarrow> act_position a \<noteq> None
      | KindPlace \<Rightarrow> act_position a \<noteq> None \<and> map_of placeable_item_to_building (act_item a) \<noteq> None
      | KindMine \<Rightarrow> wf_region a
      | KindChannel \<Rightarrow> wf_region a
      | KindDigRamp \<Rightarrow> wf_region a
      | KindCutTree \<Rightarrow> wf_region a
      | KindStockpile \<Rightarrow> wf_region a \<and> map_of stockpile_category_to_preset (act_item a) \<noteq> None
      | KindZone \<Rightarrow> wf_region a \<and> map_of zone_type_to_civzone (act_item a) \<noteq> None
      | KindAppoint \<Rightarrow> act_office a \<in> set noble_vocab \<and> 0 \<le> act_unit a
      | KindPause \<Rightarrow> a = action_of_kind KindPause
      | KindUnpause \<Rightarrow> a = action_of_kind KindUnpause
      | KindHelp \<Rightarrow> a = action_of_kind KindHelp
      | KindOther s \<Rightarrow> False)"

definition region_tiles :: "region \<Rightarrow> (int \<times> int) set" where
  "region_tiles r =
     {min (pos_x (rmin r)) (pos_x (rmax r)) .. max (pos_x (rmin r)) (pos_x (rmax r))} \<times>
     {min (pos_y (rmin r)) (pos_y (rmax r)) .. max (pos_y (rmin r)) (pos_y (rmax r))}"

definition capped_region :: "region \<Rightarrow> bool" where
  "capped_region r \<longleftrightarrow>
     pos_z (rmin r) = pos_z (rmax r) \<and>
     wrap64 (wrap64 (abs64 (wrap64 (pos_x (rmax r) - pos_x (rmin r))) + 1) *
             wrap64 (abs64 (wrap64 (pos_y (rmax r) - pos_y (rmin r))) + 1)) \<le> region_verb_max_area"

definition small_coord :: "int \<Rightarrow> bool" where
  "small_coord n \<longleftrightarrow> - (2 ^ 30) \<le> n \<and> n \<le> 2 ^ 30"

definition small_region :: "region \<Rightarrow> bool" where
  "small_region r \<longleftrightarrow> small_coord (pos_x (rmin r)) \<and> small_coord (pos_y (rmin r)) \<and>
     small_coord (pos_x (rmax r)) \<and> small_coord (pos_y (rmax r))"

section \<open>The contracts\<close>

locale verb_parser =
  fixes kind :: action_kind
    and parse :: "string list \<Rightarrow> parse_error + action"
  assumes parse_kind: "parse ts = Inr a \<Longrightarrow> act_kind a = kind"
    and parse_wf: "parse ts = Inr a \<Longrightarrow> wf_action a"

locale verb = verb_parser +
  fixes submitter :: "action \<Rightarrow> submit_error + executor_call"
  assumes submit_wf: "act_kind a = kind \<Longrightarrow> wf_action a \<Longrightarrow> \<exists>c. submitter a = Inr c"
    and submit_dispatch: "act_kind a = kind \<Longrightarrow> submit_call a = submitter a"
begin

lemma parsed_submits: "parse ts = Inr a \<Longrightarrow> \<exists>c. submit_call a = Inr c"
  using parse_kind parse_wf submit_wf submit_dispatch by metis

end

locale region_verb = verb +
  assumes parse_region: "parse ts = Inr a \<Longrightarrow>
      \<exists>r. act_region a = Some r \<and> capped_region r"
    and submit_tiles: "act_kind a = kind \<Longrightarrow> wf_action a \<Longrightarrow> act_region a = Some r \<Longrightarrow>
      small_region r \<Longrightarrow> \<exists>s. submitter a = Inr (RunLua s) \<and> set (script_tiles s) = region_tiles r
        \<and> distinct (script_tiles s)"

section \<open>Tables are closed under each other\<close>

lemma item_vocab_has_job:
  assumes "i \<in> set item_vocab"
  shows "\<exists>js. workorder_job i = Inr js"
proof -
  have "list_all (\<lambda>i. case workorder_job i of Inl _ \<Rightarrow> False | Inr _ \<Rightarrow> True) item_vocab"
    by code_simp
  with assms show ?thesis
    by (cases "workorder_job i") (auto simp: list_all_iff)
qed

lemma material_vocab_has_spec:
  assumes "m \<in> set material_vocab"
  shows "\<exists>spec. map_of material_to_workorder_spec m = Some spec"
proof -
  have "list_all (\<lambda>m. case map_of material_to_workorder_spec m of None \<Rightarrow> False | Some _ \<Rightarrow> True)
          material_vocab"
    by code_simp
  with assms show ?thesis
    by (cases "map_of material_to_workorder_spec m") (auto simp: list_all_iff)
qed

lemma noble_vocab_has_code:
  "p \<in> set noble_vocab \<Longrightarrow> \<exists>code. map_of office_to_position_code p = Some code"
  by (auto simp: noble_vocab_def office_to_position_code_def)

section \<open>Parsers\<close>

lemma parse_qty_Inr: "parse_qty ts = Inr (n, us) \<Longrightarrow> 0 < n"
  by (cases ts) (auto split: option.splits if_splits)

lemma parse_no_args_Inr: "parse_no_args k ts = Inr a \<Longrightarrow> a = action_of_kind k"
  by (simp add: parse_no_args_def split: if_splits)

lemma check_region_capped: "check_region v x1 y1 z x2 y2 = Inr r \<Longrightarrow> capped_region r"
  by (auto simp: check_region_def capped_region_def Let_def split: if_splits)

lemma region_of_coords_capped: "region_of_coords v cs = Inr r \<Longrightarrow> capped_region r"
  by (cases "(v, cs)" rule: region_of_coords.cases) (auto dest: check_region_capped)

lemma parse_region_verb_capped: "parse_region_verb v ts = Inr r \<Longrightarrow> capped_region r"
  by (auto simp: parse_region_verb_def bind_res_Inr_iff dest: region_of_coords_capped)

lemma parse_region_action_Inr:
  "parse_region_action k v ts = Inr a \<Longrightarrow>
     act_kind a = k \<and> (\<exists>r. act_region a = Some r \<and> capped_region r)"
  by (auto simp: parse_region_action_def bind_res_Inr_iff dest: parse_region_verb_capped)

lemma capped_wf: "act_region a = Some r \<Longrightarrow> capped_region r \<Longrightarrow> wf_region a"
  by (simp add: wf_region_def capped_region_def)

lemma parse_stockpile_Inr:
  "parse_stockpile ts = Inr a \<Longrightarrow> act_kind a = KindStockpile \<and>
     map_of stockpile_category_to_preset (act_item a) \<noteq> None \<and>
     (\<exists>r. act_region a = Some r \<and> capped_region r)"
  by (cases ts) (auto simp: bind_res_Inr_iff Let_def split: if_splits dest: parse_region_verb_capped)

lemma parse_zone_Inr:
  "parse_zone ts = Inr a \<Longrightarrow> act_kind a = KindZone \<and>
     map_of zone_type_to_civzone (act_item a) \<noteq> None \<and>
     (\<exists>r. act_region a = Some r \<and> capped_region r)"
  by (cases ts) (auto simp: bind_res_Inr_iff Let_def split: if_splits dest: parse_region_verb_capped)

lemma parse_material_Inr:
  "parse_material item pre = Inr m \<Longrightarrow>
     (case m of None \<Rightarrow> item \<in> set item_material_not_applicable
      | Some mat \<Rightarrow> item \<notin> set item_material_not_applicable \<and> allowed_material item mat)"
  by (cases "(item, pre)" rule: parse_material.cases)
     (auto simp: Let_def allowed_material_def split: if_splits option.splits)

lemma parse_manufacture_Inr:
  "parse_manufacture ts = Inr a \<Longrightarrow> act_kind a = KindManufacture \<and> wf_action a"
  by (auto simp: parse_manufacture_def bind_res_Inr_iff Let_def wf_action_def split: if_splits
      dest!: parse_qty_Inr parse_material_Inr split: option.splits)

lemma taskat_item_Inr:
  "taskat_item ts = Inr im \<Longrightarrow>
     fst im \<in> set item_vocab \<and> fst im \<notin> set item_material_not_applicable \<and>
     snd im \<in> set material_vocab"
  by (auto simp: taskat_item_def Let_def split: if_splits list.splits)

lemma parse_taskat_Inr:
  "parse_taskat ts = Inr a \<Longrightarrow> act_kind a = KindTaskat \<and> wf_action a"
  by (auto simp: parse_taskat_def bind_res_Inr_iff wf_action_def split: if_splits option.splits
      dest!: parse_qty_Inr taskat_item_Inr)

lemma parse_brew_Inr: "parse_brew ts = Inr a \<Longrightarrow> act_kind a = KindBrew \<and> wf_action a"
  by (auto simp: parse_brew_def bind_res_Inr_iff Let_def wf_action_def split: if_splits
      dest!: parse_qty_Inr)

lemma parse_place_Inr: "parse_place ts = Inr a \<Longrightarrow> act_kind a = KindPlace \<and> wf_action a"
  by (cases ts) (auto simp: bind_res_Inr_iff Let_def wf_action_def split: if_splits)

lemma parse_camera_Inr: "parse_camera ts = Inr a \<Longrightarrow> act_kind a = KindCamera \<and> wf_action a"
  by (auto simp: parse_camera_def bind_res_Inr_iff wf_action_def)

lemma appoint_position_Inr:
  "appoint_position pos uid = Inr a \<Longrightarrow> act_kind a = KindAppoint \<and> wf_action a"
  by (auto simp: appoint_position_def wf_action_def split: if_splits option.splits)

lemma parse_appoint_Inr: "parse_appoint ts = Inr a \<Longrightarrow> act_kind a = KindAppoint \<and> wf_action a"
  by (cases ts rule: parse_appoint.cases)
     (auto simp: Let_def split: option.splits dest!: appoint_position_Inr)

section \<open>Submitters\<close>

lemma ordered_region_wf:
  "pos_z (rmin r) = pos_z (rmax r) \<Longrightarrow> \<exists>c. ordered_region k r = Inr c"
  by (simp add: ordered_region_def Let_def)

lemma ordered_region_Inr:
  "ordered_region k r = Inr (z, x1, x2, y1, y2) \<Longrightarrow> region_tiles r = {x1..x2} \<times> {y1..y2}"
  by (auto simp: ordered_region_def Let_def region_tiles_def split: if_splits)

lemma product_tiles:
  "set (List.product [x1..x2] [y1..y2]) = {x1..x2} \<times> {y1..y2}"
  "distinct (List.product [x1..x2] [y1..y2])"
  by (auto intro: distinct_product)

lemma extent_small:
  "small_coord lo \<Longrightarrow> small_coord hi \<Longrightarrow> extent lo hi = hi - lo + 1"
  by (simp add: extent_def small_coord_def wrap64_small)

lemma ordered_region_small:
  "ordered_region k r = Inr (z, x1, x2, y1, y2) \<Longrightarrow> small_region r \<Longrightarrow>
     small_coord x1 \<and> small_coord x2 \<and> small_coord y1 \<and> small_coord y2"
  by (auto simp: ordered_region_def Let_def small_region_def split: if_splits)

lemma submit_dig_tiles:
  assumes "act_region a = Some r" and "wf_region a"
  shows "\<exists>s. submit_dig_designation a d = Inr (RunLua s) \<and> set (script_tiles s) = region_tiles r
          \<and> distinct (script_tiles s)"
proof -
  from assms obtain z x1 x2 y1 y2 where o: "ordered_region (act_kind a) r = Inr (z, x1, x2, y1, y2)"
    using ordered_region_wf [of r "act_kind a"] by (auto simp: wf_region_def)
  then show ?thesis using assms(1)
    by (simp add: submit_dig_designation_def ordered_region_Inr product_tiles del: set_product)
qed

lemma submit_cuttree_tiles:
  assumes "act_region a = Some r" and "wf_region a"
  shows "\<exists>s. submit_cuttree a = Inr (RunLua s) \<and> set (script_tiles s) = region_tiles r
          \<and> distinct (script_tiles s)"
proof -
  from assms obtain z x1 x2 y1 y2 where o: "ordered_region KindCutTree r = Inr (z, x1, x2, y1, y2)"
    using ordered_region_wf [of r KindCutTree] by (auto simp: wf_region_def)
  then show ?thesis using assms(1)
    by (simp add: submit_cuttree_def ordered_region_Inr product_tiles del: set_product)
qed

lemma submit_stockpile_tiles:
  assumes "act_region a = Some r" and "wf_region a" and "small_region r"
    and "map_of stockpile_category_to_preset (act_item a) \<noteq> None"
  shows "\<exists>s. submit_stockpile a = Inr (RunLua s) \<and> set (script_tiles s) = region_tiles r
          \<and> distinct (script_tiles s)"
proof -
  from assms obtain z x1 x2 y1 y2 where o: "ordered_region KindStockpile r = Inr (z, x1, x2, y1, y2)"
    using ordered_region_wf [of r KindStockpile] by (auto simp: wf_region_def)
  with assms ordered_region_small [OF o] show ?thesis
    by (auto simp add: submit_stockpile_def ordered_region_Inr product_tiles extent_small simp del: set_product)
qed

lemma submit_zone_tiles:
  assumes "act_region a = Some r" and "wf_region a" and "small_region r"
    and "map_of zone_type_to_civzone (act_item a) \<noteq> None"
  shows "\<exists>s. submit_zone a = Inr (RunLua s) \<and> set (script_tiles s) = region_tiles r
          \<and> distinct (script_tiles s)"
proof -
  from assms obtain z x1 x2 y1 y2 where o: "ordered_region KindZone r = Inr (z, x1, x2, y1, y2)"
    using ordered_region_wf [of r KindZone] by (auto simp: wf_region_def)
  with assms ordered_region_small [OF o] show ?thesis
    by (auto simp add: submit_zone_def ordered_region_Inr product_tiles extent_small simp del: set_product)
qed

lemma wf_region_cases: "wf_region a \<Longrightarrow> \<exists>r. act_region a = Some r \<and> pos_z (rmin r) = pos_z (rmax r)"
  by (auto simp: wf_region_def split: option.splits)

lemma submit_manufacture_wf:
  assumes "act_kind a = KindManufacture" and "wf_action a"
  shows "\<exists>c. submit_manufacture a = Inr c"
proof -
  from assms have "act_item a \<in> set item_vocab" by (simp add: wf_action_def)
  then obtain j where j: "workorder_job (act_item a) = Inr j"
    using item_vocab_has_job by blast
  have "\<exists>spec. workorder_material (act_material a) = Inr spec"
    using assms
    by (auto simp: wf_action_def workorder_material_def allowed_material_def split: option.splits
        dest: material_vocab_has_spec)
  with j show ?thesis
    by (cases j) (auto simp: submit_manufacture_def manufacture_request_def Let_def)
qed

section \<open>The verbs as interpretations\<close>

interpretation make_verb: verb KindManufacture parse_manufacture submit_manufacture
  by unfold_locales (auto simp: submit_call_def dest: parse_manufacture_Inr submit_manufacture_wf)

interpretation pause_verb: verb KindPause parse_pause submit_pause
  by unfold_locales
     (auto simp: submit_call_def parse_pause_def wf_action_def submit_pause_def dest: parse_no_args_Inr)

interpretation unpause_verb: verb KindUnpause parse_unpause submit_unpause
  by unfold_locales
     (auto simp: submit_call_def parse_unpause_def wf_action_def submit_unpause_def dest: parse_no_args_Inr)

interpretation help_verb: verb_parser KindHelp parse_help
  by unfold_locales (auto simp: parse_help_def wf_action_def dest: parse_no_args_Inr)

interpretation camera_verb: verb KindCamera parse_camera submit_camera
  by unfold_locales (auto simp: submit_call_def wf_action_def submit_camera_def dest: parse_camera_Inr)

interpretation place_verb: verb KindPlace parse_place submit_place
  by unfold_locales (auto simp: submit_call_def wf_action_def submit_place_def dest: parse_place_Inr)

interpretation brew_verb: verb KindBrew parse_brew submit_brew
  by unfold_locales (auto simp: submit_call_def wf_action_def submit_brew_def Let_def dest: parse_brew_Inr)

interpretation appoint_verb: verb KindAppoint parse_appoint submit_appoint
  by unfold_locales
     (auto simp: submit_call_def wf_action_def submit_appoint_def dest: parse_appoint_Inr noble_vocab_has_code)

interpretation taskat_verb: verb_parser KindTaskat parse_taskat
  by unfold_locales (auto dest: parse_taskat_Inr)

lemma parse_region_action_wf:
  assumes "parse_region_action k v ts = Inr a" and "k \<in> {KindMine, KindChannel, KindDigRamp, KindCutTree}"
  shows "act_kind a = k \<and> wf_action a \<and> (\<exists>r. act_region a = Some r \<and> capped_region r)"
  using assms parse_region_action_Inr [OF assms(1)] capped_wf by (auto simp: wf_action_def)

lemma submit_region_wf:
  assumes "wf_region a"
  shows "\<exists>c. submit_dig_designation a d = Inr c" and "\<exists>c. submit_cuttree a = Inr c"
    and "map_of stockpile_category_to_preset (act_item a) \<noteq> None \<Longrightarrow> \<exists>c. submit_stockpile a = Inr c"
    and "map_of zone_type_to_civzone (act_item a) \<noteq> None \<Longrightarrow> \<exists>c. submit_zone a = Inr c"
proof -
  obtain r where r: "act_region a = Some r" "pos_z (rmin r) = pos_z (rmax r)"
    using assms wf_region_cases by blast
  have o: "\<exists>c. ordered_region k r = Inr c" for k using r(2) by (rule ordered_region_wf)
  show "\<exists>c. submit_dig_designation a d = Inr c"
    using r(1) o [of "act_kind a"] by (auto simp: submit_dig_designation_def)
  show "\<exists>c. submit_cuttree a = Inr c"
    using r(1) o [of KindCutTree] by (auto simp: submit_cuttree_def)
  show "map_of stockpile_category_to_preset (act_item a) \<noteq> None \<Longrightarrow> \<exists>c. submit_stockpile a = Inr c"
    using r(1) o [of KindStockpile] by (auto simp: submit_stockpile_def)
  show "map_of zone_type_to_civzone (act_item a) \<noteq> None \<Longrightarrow> \<exists>c. submit_zone a = Inr c"
    using r(1) o [of KindZone] by (auto simp: submit_zone_def)
qed

lemma region_verbI:
  assumes "\<And>ts a. parse ts = Inr a \<Longrightarrow> act_kind a = k \<and> wf_action a \<and>
             (\<exists>r. act_region a = Some r \<and> capped_region r)"
    and "\<And>a. act_kind a = k \<Longrightarrow> submit_call a = sub a"
    and "\<And>a. act_kind a = k \<Longrightarrow> wf_action a \<Longrightarrow> \<exists>c. sub a = Inr c"
    and "\<And>a r. act_kind a = k \<Longrightarrow> wf_action a \<Longrightarrow> act_region a = Some r \<Longrightarrow> small_region r \<Longrightarrow>
             \<exists>s. sub a = Inr (RunLua s) \<and> set (script_tiles s) = region_tiles r \<and> distinct (script_tiles s)"
  shows "region_verb k parse sub"
  by unfold_locales (use assms in blast)+

interpretation mine_verb: region_verb KindMine parse_mine submit_mine
  by (rule region_verbI)
     (auto simp: parse_mine_def submit_call_def submit_mine_def wf_action_def
       intro: submit_dig_tiles submit_region_wf dest!: parse_region_action_wf)

interpretation channel_verb: region_verb KindChannel parse_channel submit_channel
  by (rule region_verbI)
     (auto simp: parse_channel_def submit_call_def submit_channel_def wf_action_def
       intro: submit_dig_tiles submit_region_wf dest!: parse_region_action_wf)

interpretation digramp_verb: region_verb KindDigRamp parse_digramp submit_digramp
  by (rule region_verbI)
     (auto simp: parse_digramp_def submit_call_def submit_digramp_def wf_action_def
       intro: submit_dig_tiles submit_region_wf dest!: parse_region_action_wf)

interpretation cuttree_verb: region_verb KindCutTree parse_cuttree submit_cuttree
  by (rule region_verbI)
     (auto simp: parse_cuttree_def submit_call_def wf_action_def
       intro: submit_cuttree_tiles submit_region_wf dest!: parse_region_action_wf)

interpretation stockpile_verb: region_verb KindStockpile parse_stockpile submit_stockpile
  by (rule region_verbI)
     (auto simp: submit_call_def wf_action_def
       intro: submit_stockpile_tiles submit_region_wf capped_wf dest!: parse_stockpile_Inr)

interpretation zone_verb: region_verb KindZone parse_zone submit_zone
  by (rule region_verbI)
     (auto simp: submit_call_def wf_action_def
       intro: submit_zone_tiles submit_region_wf capped_wf dest!: parse_zone_Inr)

section \<open>The dispatcher as a whole\<close>

lemma parse_command_Inr:
  assumes "parse_command args = Inr a"
  shows "\<exists>v p ts. (v, p) \<in> set verb_parsers \<and> command_tokens args = v # ts \<and> p ts = Inr a"
  using assms
  by (auto simp: parse_command_def split: list.splits option.splits dest!: map_of_SomeD)

lemmas verb_cases =
  make_verb.parse_kind pause_verb.parse_kind unpause_verb.parse_kind camera_verb.parse_kind
  help_verb.parse_kind place_verb.parse_kind brew_verb.parse_kind mine_verb.parse_kind
  channel_verb.parse_kind digramp_verb.parse_kind cuttree_verb.parse_kind stockpile_verb.parse_kind
  zone_verb.parse_kind taskat_verb.parse_kind appoint_verb.parse_kind

lemmas verb_wf =
  make_verb.parse_wf pause_verb.parse_wf unpause_verb.parse_wf camera_verb.parse_wf
  help_verb.parse_wf place_verb.parse_wf brew_verb.parse_wf mine_verb.parse_wf
  channel_verb.parse_wf digramp_verb.parse_wf cuttree_verb.parse_wf stockpile_verb.parse_wf
  zone_verb.parse_wf taskat_verb.parse_wf appoint_verb.parse_wf

lemmas verb_submits =
  make_verb.parsed_submits pause_verb.parsed_submits unpause_verb.parsed_submits
  camera_verb.parsed_submits place_verb.parsed_submits brew_verb.parsed_submits
  mine_verb.parsed_submits channel_verb.parsed_submits digramp_verb.parsed_submits
  cuttree_verb.parsed_submits stockpile_verb.parsed_submits zone_verb.parsed_submits
  appoint_verb.parsed_submits

lemma parse_command_wf_action: "parse_command args = Inr a \<Longrightarrow> wf_action a"
  by (drule parse_command_Inr) (auto simp: verb_parsers_def dest: verb_wf)

lemma parse_command_submits:
  assumes "parse_command args = Inr a" and "act_kind a \<noteq> KindHelp" and "act_kind a \<noteq> KindTaskat"
  shows "\<exists>c. submit_call a = Inr c"
proof -
  obtain v p ts where p: "(v, p) \<in> set verb_parsers" "p ts = Inr a"
    using parse_command_Inr [OF assms(1)] by blast
  then show ?thesis using assms(2,3)
    by (auto simp: verb_parsers_def dest: verb_submits help_verb.parse_kind taskat_verb.parse_kind)
qed

lemma parse_command_kind_dispatch:
  assumes "parse_command args = Inr a" and "act_kind a = k"
  shows "(k = KindMine \<longrightarrow> (\<exists>ts. parse_mine ts = Inr a)) \<and> (k = KindChannel \<longrightarrow> (\<exists>ts. parse_channel ts = Inr a))
    \<and> (k = KindDigRamp \<longrightarrow> (\<exists>ts. parse_digramp ts = Inr a)) \<and> (k = KindCutTree \<longrightarrow> (\<exists>ts. parse_cuttree ts = Inr a))
    \<and> (k = KindStockpile \<longrightarrow> (\<exists>ts. parse_stockpile ts = Inr a)) \<and> (k = KindZone \<longrightarrow> (\<exists>ts. parse_zone ts = Inr a))"
proof -
  obtain v p ts where p: "(v, p) \<in> set verb_parsers" "p ts = Inr a"
    using parse_command_Inr [OF assms(1)] by blast
  have "\<And>ts k. parse_no_args k ts = Inr a \<Longrightarrow> act_kind a = k"
    by (auto dest: parse_no_args_Inr)
  with p assms(2) show ?thesis
    by (auto simp: verb_parsers_def dest: verb_cases)
qed

definition region_kinds :: "action_kind set" where
  "region_kinds = {KindMine, KindChannel, KindDigRamp, KindCutTree, KindStockpile, KindZone}"

lemma capped_small_card:
  assumes "capped_region r" and "small_region r"
  shows "card (region_tiles r) \<le> 100"
proof -
  let ?dx = "\<bar>pos_x (rmax r) - pos_x (rmin r)\<bar> + 1" and ?dy = "\<bar>pos_y (rmax r) - pos_y (rmin r)\<bar> + 1"
  have s: "small_coord (pos_x (rmin r))" "small_coord (pos_y (rmin r))"
    "small_coord (pos_x (rmax r))" "small_coord (pos_y (rmax r))"
    using assms(2) by (simp_all add: small_region_def)
  have abs: "wrap64 (abs64 (wrap64 (b - a)) + 1) = \<bar>b - a\<bar> + 1" if "small_coord a" "small_coord b" for a b
    using that by (auto simp: abs64_def small_coord_def wrap64_small)
  have dx: "0 \<le> ?dx" "?dx \<le> 2 ^ 31 + 1" and dy: "0 \<le> ?dy" "?dy \<le> 2 ^ 31 + 1"
    using s by (auto simp: small_coord_def)
  have "?dx * ?dy \<le> (2 ^ 31 + 1) * (2 ^ 31 + 1)" using dx dy by (intro mult_mono) auto
  moreover have "0 \<le> ?dx * ?dy" using dx dy by simp
  moreover have "in_int64 p" if "0 \<le> p" "p \<le> (2 ^ 31 + 1) * (2 ^ 31 + 1)" for p
    using that by (simp add: in_int64_def)
  ultimately have "in_int64 (?dx * ?dy)" by blast
  then have le: "?dx * ?dy \<le> int 100"
    using assms(1) s by (simp add: capped_region_def abs region_verb_max_area_def)
  have "card (region_tiles r) = nat ?dx * nat ?dy"
    unfolding region_tiles_def by (simp add: card_cartesian_product abs_if min_def max_def)
  also have "\<dots> = nat (?dx * ?dy)" using dx by (simp only: nat_mult_distrib)
  also have "\<dots> \<le> 100" using le by (simp only: nat_le_iff)
  finally show ?thesis .
qed

lemma parse_command_region:
  assumes "parse_command args = Inr a" and "act_kind a \<in> region_kinds"
  shows "\<exists>r. act_region a = Some r \<and> capped_region r"
  using assms parse_command_kind_dispatch [OF assms(1) refl]
  by (auto simp: region_kinds_def dest: mine_verb.parse_region channel_verb.parse_region
      digramp_verb.parse_region cuttree_verb.parse_region stockpile_verb.parse_region zone_verb.parse_region)

lemma submit_call_region:
  assumes "wf_action a" and "act_kind a \<in> region_kinds" and "act_region a = Some r" and "small_region r"
  shows "\<exists>s. submit_call a = Inr (RunLua s) \<and> set (script_tiles s) = region_tiles r
          \<and> distinct (script_tiles s)"
  using assms mine_verb.submit_tiles [of a r] channel_verb.submit_tiles [of a r]
    digramp_verb.submit_tiles [of a r] cuttree_verb.submit_tiles [of a r]
    stockpile_verb.submit_tiles [of a r] zone_verb.submit_tiles [of a r]
  by (auto simp: region_kinds_def submit_call_def)

lemma taskat_material_lua_ne:
  "taskat_material_lua m v \<noteq> [] \<longleftrightarrow> m \<in> set category_materials \<or> m = ''stone''"
  by (simp add: taskat_material_lua_def)

lemma subtype_jobs_have_subtype:
  "map_of item_to_subtype_job i = Some spec \<Longrightarrow> sj_item_subtype spec \<noteq> []"
  by (drule map_of_SomeD) (auto simp: item_to_subtype_job_def subtype_job_def)

end
