(* ===== verification/Verb_Properties.thy ===== *)
theory Verb_Properties
  imports Verb_Contract
begin

text \<open>
  The properties of the command pipeline from a chat line to the executor call: what a parsed
  action satisfies, that the executor side accepts it, the tiles a region verb acts on, the
  area cap and where it fails, and what of an error can reach chat.
\<close>

section \<open>From a chat line to an action\<close>

text \<open>
  C16: every action ParseCommand returns is well formed: quantities are positive, items, materials,
  presets, zone types and offices come from the vocabulary tables, the material rules of make hold
  (none for fixed recipes, wood for beds and barrels), positions are set, and a region lies on one
  level.
\<close>

theorem parse_command_wf: "parse_command args = Inr a \<Longrightarrow> wf_action a"
  by (rule parse_command_wf_action)

theorem parse_command_wf_witness:
  "\<exists>a. parse_command ''Make me 3 WOODEN beds please'' = Inr a \<and> wf_action a \<and> act_quantity a = 3
     \<and> act_item a = ''bed'' \<and> act_material a = Some ''wood''"
proof -
  define a where "a = (action_of_kind KindManufacture)\<lparr> act_item := ''bed'',
    act_material := Some ''wood'', act_quantity := 3 \<rparr>"
  have p: "parse_command ''Make me 3 WOODEN beds please'' = Inr a"
    unfolding a_def by code_simp
  show ?thesis using p parse_command_wf [OF p] by (auto simp: a_def)
qed

text \<open>
  C8: no parsed action is refused by the executor side's own tables: whatever ParseCommand returns,
  other than help (answered in chat) and taskat, Submit turns into one call to the executor, and
  its result is the executor's.
\<close>

theorem parsed_command_reaches_executor:
  assumes "parse_command args = Inr a" and "act_kind a \<noteq> KindHelp" and "act_kind a \<noteq> KindTaskat"
  shows "\<exists>c. \<forall>ex w. submit ex a w =
           (map_option ExecutorFailed (fst (ex c w)), snd (ex c w))"
proof -
  obtain c where "submit_call a = Inr c" using parse_command_submits [OF assms] by blast
  then show ?thesis
    by (intro exI [of _ c]) (auto simp: submit_def split: prod.splits option.splits)
qed

theorem parsed_command_reaches_executor_witness:
  "\<exists>a c. parse_command ''brew drink from fruits'' = Inr a \<and>
     (\<forall>w::nat. submit (\<lambda>c w. (None, Suc w)) a w = (None, Suc w)) \<and>
     (\<forall>ex w. submit ex a (w::nat) = (map_option ExecutorFailed (fst (ex c w)), snd (ex c w)))"
proof -
  define a where "a = (action_of_kind KindBrew)\<lparr> act_item := ''fruit'', act_quantity := 1 \<rparr>"
  have p: "parse_command ''brew drink from fruits'' = Inr a" unfolding a_def by code_simp
  have "act_kind a \<noteq> KindHelp" "act_kind a \<noteq> KindTaskat" by (simp_all add: a_def)
  then obtain c where c: "\<forall>ex (w::nat). submit ex a w = (map_option ExecutorFailed (fst (ex c w)), snd (ex c w))"
    using parsed_command_reaches_executor [OF p] by blast
  have "\<forall>w::nat. submit (\<lambda>c w. (None, Suc w)) a w = (None, Suc w)" using c by simp
  with p c show ?thesis by blast
qed

text \<open>
  C38: taskat is the exception, and exactly so: a parsed taskat is accepted by the executor side iff
  the workshop id is not 0, the item is not dispatched by subtype, and the material is stone or one
  of the six category materials; the parser lets the other combinations through.
\<close>

theorem parsed_taskat_accepted_iff:
  assumes "parse_command args = Inr a" and "act_kind a = KindTaskat" and "act_material a = Some m"
  shows "(\<exists>c. submit_call a = Inr c) \<longleftrightarrow>
    act_workshop a \<noteq> 0 \<and> map_of item_to_subtype_job (act_item a) = None \<and>
    (m \<in> set category_materials \<or> m = ''stone'')"
proof -
  have "act_item a \<in> set item_vocab"
    using parse_command_wf_action [OF assms(1)] assms(2) by (simp add: wf_action_def)
  then have "\<exists>j. map_of item_to_subtype_job (act_item a) = None \<longrightarrow>
      map_of item_to_job_type (act_item a) = Some j"
    using item_vocab_has_job [of "act_item a"] by (auto simp: workorder_job_def split: option.splits)
  then show ?thesis
    using assms(2,3) taskat_material_lua_ne [of m "''j''"] subtype_jobs_have_subtype [of "act_item a"]
    by (auto simp: submit_call_def submit_taskat_def taskat_job_def Let_def split: option.splits)
qed

theorem parsed_taskat_accepted_iff_witness:
  "\<exists>a b. parse_command ''taskat #2 wood table'' = Inr a \<and> (\<exists>c. submit_call a = Inr c) \<and>
     parse_command ''taskat #0 wood table'' = Inr b \<and> \<not> (\<exists>c. submit_call b = Inr c)"
proof -
  define t where "t n = (action_of_kind KindTaskat)\<lparr> act_item := ''table'',
    act_material := Some ''wood'', act_quantity := 1, act_workshop := n \<rparr>" for n
  have a: "parse_command ''taskat #2 wood table'' = Inr (t 2)" unfolding t_def by code_simp
  have b: "parse_command ''taskat #0 wood table'' = Inr (t 0)" unfolding t_def by code_simp
  have k: "act_kind (t n) = KindTaskat" "act_material (t n) = Some ''wood''" "act_workshop (t n) = n"
    "act_item (t n) = ''table''" for n by (simp_all add: t_def)
  have none: "map_of item_to_subtype_job ''table'' = None" by code_simp
  have wood: "''wood'' \<in> set category_materials" by (simp add: category_materials_def)
  have "\<exists>c. submit_call (t 2) = Inr c"
    using parsed_taskat_accepted_iff [OF a k(1,2)] k none wood by simp
  moreover have "\<not> (\<exists>c. submit_call (t 0) = Inr c)"
    using parsed_taskat_accepted_iff [OF b k(1,2)] k by simp
  ultimately show ?thesis using a b by blast
qed

section \<open>Regions\<close>

text \<open>
  C30: for coordinates of at most 2^30 in absolute value, a region command (mine, channel, digramp,
  cuttree, stockpile, zone) that parses is submitted as one script that acts on exactly the tiles of
  the typed rectangle, each once, whichever corner was typed first, and there are at most 100.
\<close>

theorem region_command_tiles:
  assumes "parse_command args = Inr a" and "act_kind a \<in> region_kinds"
    and "act_region a = Some r" and "small_region r"
  shows "\<exists>s. submit_call a = Inr (RunLua s) \<and> set (script_tiles s) = region_tiles r \<and>
           length (script_tiles s) \<le> 100"
proof -
  obtain s where s: "submit_call a = Inr (RunLua s)" "set (script_tiles s) = region_tiles r"
    "distinct (script_tiles s)"
    using submit_call_region [OF parse_command_wf_action [OF assms(1)] assms(2-4)] by blast
  have "capped_region r" using parse_command_region [OF assms(1,2)] assms(3) by simp
  then have "card (set (script_tiles s)) \<le> 100"
    using capped_small_card assms(4) s(2) by simp
  then have "length (script_tiles s) \<le> 100" using distinct_card [OF s(3)] by simp
  with s show ?thesis by blast
qed

theorem region_command_tiles_witness:
  "\<exists>s a. parse_command ''mine (10,20,150) (12,19,150)'' = Inr a \<and> submit_call a = Inr (RunLua s) \<and>
     set (script_tiles s) = {10..12} \<times> {19..20} \<and> length (script_tiles s) \<le> 100"
proof -
  define r where "r = \<lparr> rmin = \<lparr> pos_x = 10, pos_y = 20, pos_z = 150 \<rparr>,
    rmax = \<lparr> pos_x = 12, pos_y = 19, pos_z = 150 \<rparr> \<rparr>"
  define a where "a = (action_of_kind KindMine)\<lparr> act_region := Some r \<rparr>"
  have p: "parse_command ''mine (10,20,150) (12,19,150)'' = Inr a"
    unfolding a_def r_def by code_simp
  have "act_kind a \<in> region_kinds" "act_region a = Some r" "small_region r"
    by (simp_all add: a_def r_def region_kinds_def small_region_def small_coord_def)
  then obtain s where "submit_call a = Inr (RunLua s)" "set (script_tiles s) = region_tiles r"
    "length (script_tiles s) \<le> 100"
    using region_command_tiles [OF p] by blast
  moreover have "region_tiles r = {10..12} \<times> {19..20}" by (simp add: region_tiles_def r_def)
  ultimately show ?thesis using p by blast
qed

text \<open>
  the 100-tile cap is not enforced for every integer a chatter can type: the product of the two
  extents wraps in 64 bits, so a square of side 2^32 has computed area 0 and passes.
\<close>

theorem area_cap_wraps:
  "\<exists>a r. parse_command ''mine 0 0 0 4294967295 4294967295'' = Inr a \<and> act_region a = Some r \<and>
     card (region_tiles r) = 2 ^ 64"
proof -
  define r where "r = \<lparr> rmin = \<lparr> pos_x = 0, pos_y = 0, pos_z = 0 \<rparr>,
    rmax = \<lparr> pos_x = 4294967295, pos_y = 4294967295, pos_z = 0 \<rparr> \<rparr>"
  have p: "parse_command ''mine 0 0 0 4294967295 4294967295'' =
      Inr ((action_of_kind KindMine)\<lparr> act_region := Some r \<rparr>)"
    unfolding r_def by code_simp
  have "card (region_tiles r) = 2 ^ 64"
    by (simp add: region_tiles_def r_def card_cartesian_product)
  with p show ?thesis by auto
qed

section \<open>Tolerances and errors\<close>

lemma lower_solid: "solid t \<Longrightarrow> solid (to_lower t)"
  by (simp add: solid_def to_lower_def list_all_iff)

lemma command_tokens_normal:
  "list_all (\<lambda>t. t \<noteq> [] \<and> solid t) (command_tokens args)"
  "map to_lower (command_tokens args) = command_tokens args"
  "strip_filler_words (command_tokens args) = command_tokens args"
proof -
  have e: "command_tokens args = strip_filler_words (map to_lower (str_fields args))"
    by (simp add: command_tokens_def trim_space_lower [symmetric] fields_lower)
  show "list_all (\<lambda>t. t \<noteq> [] \<and> solid t) (command_tokens args)"
    using fields_words [of args] lower_solid
    by (auto simp: e strip_filler_words_def list_all_iff)
  show "map to_lower (command_tokens args) = command_tokens args"
    unfolding e strip_filler_words_def by (rule map_idI) auto
  show "strip_filler_words (command_tokens args) = command_tokens args"
    by (simp add: e strip_filler_words_def)
qed

text \<open>
  parsing depends only on the canonical form of the line: its lower-cased words without the
  filler words, joined by single blanks. Case, extra white space and fillers anywhere never change
  the action or the error.
\<close>

theorem parse_command_canonical:
  "parse_command args = parse_command (join_with '' '' (command_tokens args))"
proof -
  have "str_fields (join_with '' '' (command_tokens args)) = command_tokens args"
    by (rule fields_join) (rule command_tokens_normal)
  then have "command_tokens (join_with '' '' (command_tokens args)) = command_tokens args"
    by (simp add: command_tokens_def [of "join_with _ _"] trim_space_lower [symmetric] fields_lower
        command_tokens_normal)
  then show ?thesis by (simp add: parse_command_def)
qed

lemma parse_ints_no_reject: "parse_ints ts \<noteq> Inl (Reject m)"
  by (induction ts) (auto split: option.splits simp: bind_res_Inl_iff)

lemma coords_no_reject: "extract_coord_ints ts \<noteq> Inl (Reject m)"
  by (simp add: extract_coord_ints_def Let_def parse_ints_no_reject)

lemma region_no_reject: "parse_region_verb v ts \<noteq> Inl (Reject m)"
proof -
  have "region_of_coords v cs \<noteq> Inl (Reject m)" for cs
    by (cases "(v, cs)" rule: region_of_coords.cases) (auto simp: check_region_def Let_def)
  then show ?thesis by (auto simp: parse_region_verb_def bind_res_Inl_iff coords_no_reject)
qed

lemma position_no_reject: "position_of_coords v cs \<noteq> Inl (Reject m)"
  by (cases "(v, cs)" rule: position_of_coords.cases) auto

lemma qty_no_reject: "parse_qty ts \<noteq> Inl (Reject m)"
  by (cases ts) (auto split: option.splits)

lemma material_no_reject: "parse_material i ts \<noteq> Inl (Reject m)"
  by (cases "(i, ts)" rule: parse_material.cases) (auto simp: Let_def split: option.splits)

lemma taskat_item_no_reject: "taskat_item ts \<noteq> Inl (Reject m)"
  by (auto simp: taskat_item_def Let_def split: list.splits)

lemmas no_reject = parse_ints_no_reject coords_no_reject region_no_reject position_no_reject
  qty_no_reject material_no_reject taskat_item_no_reject

lemma verbs_no_reject:
  "parse_no_args k ts \<noteq> Inl (Reject m)" "parse_camera ts \<noteq> Inl (Reject m)"
  "parse_region_action k v ts \<noteq> Inl (Reject m)" "parse_stockpile ts \<noteq> Inl (Reject m)"
  "parse_zone ts \<noteq> Inl (Reject m)" "parse_place ts \<noteq> Inl (Reject m)"
  "parse_brew ts \<noteq> Inl (Reject m)" "parse_manufacture ts \<noteq> Inl (Reject m)"
  "parse_taskat ts \<noteq> Inl (Reject m)"
  subgoal by (simp add: parse_no_args_def)
  subgoal by (auto simp: parse_camera_def bind_res_Inl_iff no_reject)
  subgoal by (auto simp: parse_region_action_def bind_res_Inl_iff no_reject)
  subgoal by (cases ts) (auto simp: bind_res_Inl_iff no_reject Let_def)
  subgoal by (cases ts) (auto simp: bind_res_Inl_iff no_reject Let_def)
  subgoal by (cases ts) (auto simp: bind_res_Inl_iff no_reject Let_def)
  subgoal by (auto simp: parse_brew_def bind_res_Inl_iff no_reject Let_def split: if_splits)
  subgoal by (auto simp: parse_manufacture_def bind_res_Inl_iff no_reject Let_def split: if_splits)
  subgoal by (auto simp: parse_taskat_def bind_res_Inl_iff no_reject split: if_splits option.splits)
  done

lemma appoint_reject:
  assumes "parse_appoint ts = Inl (Reject m)"
  shows "(''captain'', m) \<in> set noble_deferred"
  using assms
  by (cases ts rule: parse_appoint.cases)
     (auto simp: Let_def appoint_position_def noble_deferred_def split: option.splits if_splits)

text \<open>
  the only parse error whose text is shown to the chatter is the fixed sentence about the
  captain, and only for an appoint command: no text a chatter typed is ever reflected by a reject
  reason.
\<close>

theorem reject_reason_fixed:
  assumes "parse_command args = Inl (Reject m)"
  shows "noble_deferred = [(''captain'', m)] \<and> hd (command_tokens args) = ''appoint''"
proof -
  obtain v ts p where t: "command_tokens args = v # ts" "(v, p) \<in> set verb_parsers" "p ts = Inl (Reject m)"
    using assms by (auto simp: parse_command_def split: list.splits option.splits dest!: map_of_SomeD)
  then have "v = ''appoint'' \<and> parse_appoint ts = Inl (Reject m)"
    by (auto simp: verb_parsers_def verbs_no_reject parse_pause_def parse_unpause_def parse_help_def
        parse_mine_def parse_channel_def parse_digramp_def parse_cuttree_def)
  with t(1) appoint_reject show ?thesis by (auto simp: noble_deferred_def)
qed

theorem reject_reason_fixed_witness:
  "\<exists>m. parse_command ''appoint the captain #7'' = Inl (Reject m) \<and>
     noble_deferred = [(''captain'', m)]"
proof -
  define m where "m = ''captain needs a squad '' @ [CHR 0xE2, CHR 0x80, CHR 0x94] @ '' not supported yet''"
  have p: "parse_command ''appoint the captain #7'' = Inl (Reject m)"
    unfolding m_def by code_simp
  from reject_reason_fixed [OF p] p show ?thesis by blast
qed

end
