(* ===== verification/Overseer_Link.thy ===== *)
theory Overseer_Link
  imports Wire
begin

text \<open>
  The authenticated WebSocket link between the bot and the executor: \<^verbatim>\<open>overseer/envelope.go\<close>,
  \<^verbatim>\<open>overseer/server.go\<close>, \<^verbatim>\<open>overseer/client.go\<close>.

  A WebSocket message is a \<open>frame\<close>: text that is no envelope, or an envelope. The data of an
  envelope is a \<open>payload\<close>: the JSON of a command, the JSON of an acknowledgement, or anything
  else. HMAC-SHA256 is a parameter \<open>mac\<close> from a key and the canonical form (type, sequence
  number, time stamp, data) to the hex tag. The transport is a parameter record of functions over a
  network state. Sequence numbers are natural numbers (uint64 in the source; a connection never sees
  2^64 messages). The marshalling errors of the source cannot occur for these types.
\<close>

section \<open>Envelopes (envelope.go)\<close>

datatype payload = PCommand command | PExecuted executed_cmd | POther string

datatype frame = BadFrame string | Frame "payload envelope"

type_synonym 'k mac = "'k \<Rightarrow> envelope_type \<times> nat \<times> int \<times> payload \<Rightarrow> string"

definition compute_hmac :: "'k mac \<Rightarrow> payload envelope \<Rightarrow> 'k \<Rightarrow> string" where
  "compute_hmac mac env key = mac key (env_type env, env_seq env, env_sent_at env, env_data env)"

definition marshal_envelope :: "'k mac \<Rightarrow> envelope_type \<Rightarrow> nat \<Rightarrow> payload \<Rightarrow> 'k \<Rightarrow> int \<Rightarrow> frame" where
  "marshal_envelope mac typ sq data key now =
     (let env = \<lparr> env_type = typ, env_seq = sq, env_sent_at = now, env_hmac = [], env_data = data \<rparr>
      in Frame (env\<lparr> env_hmac := compute_hmac mac env key \<rparr>))"

datatype envelope_error = NotAnEnvelope | HmacMismatch

fun unmarshal_envelope :: "'k mac \<Rightarrow> frame \<Rightarrow> 'k \<Rightarrow> envelope_error + payload envelope" where
  "unmarshal_envelope mac (BadFrame s) key = Inl NotAnEnvelope"
| "unmarshal_envelope mac (Frame env) key =
     (if env_hmac env = compute_hmac mac env key then Inr env else Inl HmacMismatch)"

section \<open>The server (server.go)\<close>

datatype close_reason = ReadFailed | EnvelopeRejected envelope_error | ReplayDetected | WriteFailed

text \<open>
  The state of one connection. \<open>sv_world\<close> is what the submit function acts on; \<open>sv_log\<close>, the
  commands executed so far with their sequence numbers, and \<open>sv_acks\<close>, the frames written,
  are observations that the handler itself never reads.
\<close>

record 'w server =
  sv_last_req_seq :: nat
  sv_ack_seq :: nat
  sv_closed :: "close_reason option"
  sv_world :: 'w
  sv_log :: "(nat \<times> command) list"
  sv_acks :: "frame list"

definition server_init :: "'w \<Rightarrow> 'w server" where
  "server_init w = \<lparr> sv_last_req_seq = 0, sv_ack_seq = 0, sv_closed = None, sv_world = w,
                     sv_log = [], sv_acks = [] \<rparr>"

text \<open>
  What one turn of the read loop meets: the message read (\<open>None\<close> for a read error or timeout),
  the time of execution, and whether the acknowledgement can be written.
\<close>

record turn =
  tn_read :: "frame option"
  tn_now :: int
  tn_write_ok :: bool

type_synonym 'w submit_fn = "action \<Rightarrow> 'w \<Rightarrow> string option \<times> 'w"

text \<open>\<^verbatim>\<open>Duration.Milliseconds\<close> truncates towards zero.\<close>

definition milliseconds :: "int \<Rightarrow> int" where
  "milliseconds d = sgn d * (abs d div 1000000)"

definition executed_of :: "command \<Rightarrow> string option \<Rightarrow> int \<Rightarrow> executed_cmd" where
  "executed_of cmd err now =
     \<lparr> ex_command_id = cmd_id cmd, ex_raw_text = cmd_raw_text cmd, ex_action = cmd_action cmd,
       ex_from_username = src_username (cmd_from cmd), ex_executed_at = now,
       ex_chat_to_exec_ms = milliseconds (time_sub now (cmd_received_at cmd)),
       ex_result = (case err of None \<Rightarrow> ExecOK | Some _ \<Rightarrow> ExecError),
       ex_error_message = (case err of None \<Rightarrow> [] | Some m \<Rightarrow> m) \<rparr>"

definition server_execute :: "'k mac \<Rightarrow> 'k \<Rightarrow> 'w submit_fn \<Rightarrow> turn \<Rightarrow> command \<Rightarrow> 'w server \<Rightarrow> 'w server" where
  "server_execute mac key submit t cmd s =
     (let (err, w) = submit (cmd_action cmd) (sv_world s);
          ack_seq = sv_ack_seq s + 1;
          ack = marshal_envelope mac EnvExecutedCmd ack_seq
                  (PExecuted (executed_of cmd err (tn_now t))) key (tn_now t);
          s1 = s\<lparr> sv_world := w, sv_log := sv_log s @ [(sv_last_req_seq s, cmd)], sv_ack_seq := ack_seq \<rparr>
      in if tn_write_ok t then s1\<lparr> sv_acks := sv_acks s @ [ack] \<rparr>
         else s1\<lparr> sv_closed := Some WriteFailed \<rparr>)"

definition server_turn :: "'k mac \<Rightarrow> 'k \<Rightarrow> 'w submit_fn \<Rightarrow> turn \<Rightarrow> 'w server \<Rightarrow> 'w server" where
  "server_turn mac key submit t s =
     (if sv_closed s \<noteq> None then s
      else case tn_read t of
        None \<Rightarrow> s\<lparr> sv_closed := Some ReadFailed \<rparr>
      | Some buf \<Rightarrow>
          (case unmarshal_envelope mac buf key of
             Inl e \<Rightarrow> s\<lparr> sv_closed := Some (EnvelopeRejected e) \<rparr>
           | Inr env \<Rightarrow>
               if env_seq env \<le> sv_last_req_seq s then s\<lparr> sv_closed := Some ReplayDetected \<rparr>
               else let s1 = s\<lparr> sv_last_req_seq := env_seq env \<rparr> in
                 if env_type env \<noteq> EnvCommand then s1
                 else case env_data env of
                   PCommand cmd \<Rightarrow> server_execute mac key submit t cmd s1
                 | _ \<Rightarrow> s1))"

fun server_run :: "'k mac \<Rightarrow> 'k \<Rightarrow> 'w submit_fn \<Rightarrow> turn list \<Rightarrow> 'w server \<Rightarrow> 'w server" where
  "server_run mac key submit [] s = s"
| "server_run mac key submit (t # ts) s = server_run mac key submit ts (server_turn mac key submit t s)"

section \<open>The client (client.go)\<close>

text \<open>
  The transport: dial, write, read and close, each on the state of the network \<^typ>\<open>'n\<close>; a
  connection is a handle \<^typ>\<open>'c\<close>.
\<close>

record ('c, 'n) transport =
  tp_dial :: "'n \<Rightarrow> 'c option \<times> 'n"
  tp_write :: "'c \<Rightarrow> frame \<Rightarrow> 'n \<Rightarrow> bool \<times> 'n"
  tp_read :: "'c \<Rightarrow> 'n \<Rightarrow> frame option \<times> 'n"
  tp_close :: "'c \<Rightarrow> 'n \<Rightarrow> 'n"

record 'c client =
  cl_conn :: "'c option"
  cl_sent_seq :: nat
  cl_last_ack_seq :: nat

definition client_init :: "'c client" where
  "client_init = \<lparr> cl_conn = None, cl_sent_seq = 0, cl_last_ack_seq = 0 \<rparr>"

datatype link_error =
    ConnectFailed | WriteError | ReadError | VerifyFailed envelope_error
  | UnexpectedAckType envelope_type | AckReplay | DecodeFailed

definition ensure_connected :: "('c, 'n) transport \<Rightarrow> 'c client \<Rightarrow> 'n \<Rightarrow> 'c option \<times> 'c client \<times> 'n" where
  "ensure_connected tp c n =
     (case cl_conn c of
        Some h \<Rightarrow> (Some h, c, n)
      | None \<Rightarrow> (case tp_dial tp n of
          (None, n') \<Rightarrow> (None, c, n')
        | (Some h, n') \<Rightarrow> (Some h, \<lparr> cl_conn = Some h, cl_sent_seq = 0, cl_last_ack_seq = 0 \<rparr>, n')))"

definition drop_conn :: "('c, 'n) transport \<Rightarrow> 'c client \<Rightarrow> 'n \<Rightarrow> 'c client \<times> 'n" where
  "drop_conn tp c n =
     (case cl_conn c of
        None \<Rightarrow> (c, n)
      | Some h \<Rightarrow> (c\<lparr> cl_conn := None \<rparr>, tp_close tp h n))"

text \<open>The checks on an acknowledgement frame; the flag says whether the connection is dropped.\<close>

definition check_ack :: "'k mac \<Rightarrow> 'k \<Rightarrow> frame \<Rightarrow> 'c client \<Rightarrow> (bool \<times> link_error + executed_cmd) \<times> 'c client" where
  "check_ack mac key buf c =
     (case unmarshal_envelope mac buf key of
        Inl e \<Rightarrow> (Inl (True, VerifyFailed e), c)
      | Inr env \<Rightarrow>
          if env_type env \<noteq> EnvExecutedCmd then (Inl (False, UnexpectedAckType (env_type env)), c)
          else if env_seq env \<le> cl_last_ack_seq c then (Inl (False, AckReplay), c)
          else let c1 = c\<lparr> cl_last_ack_seq := env_seq env \<rparr> in
            (case env_data env of
               PExecuted e \<Rightarrow> (Inr e, c1)
             | _ \<Rightarrow> (Inl (False, DecodeFailed), c1)))"

text \<open>One attempt. The result's error carries whether the failure is retryable.\<close>

definition send_once ::
  "'k mac \<Rightarrow> 'k \<Rightarrow> ('c, 'n) transport \<Rightarrow> int \<Rightarrow> command \<Rightarrow> 'c client \<times> 'n
     \<Rightarrow> (bool \<times> link_error + executed_cmd) \<times> 'c client \<times> 'n" where
  "send_once mac key tp now cmd cn =
     (case ensure_connected tp (fst cn) (snd cn) of
        (None, c, n) \<Rightarrow> (Inl (False, ConnectFailed), c, n)
      | (Some h, c, n) \<Rightarrow>
          let sq = cl_sent_seq c + 1;
              c1 = c\<lparr> cl_sent_seq := sq \<rparr>;
              (wrote, n1) = tp_write tp h (marshal_envelope mac EnvCommand sq (PCommand cmd) key now) n
          in if \<not> wrote then (Inl (True, WriteError), drop_conn tp c1 n1)
             else case tp_read tp h n1 of
               (None, n2) \<Rightarrow> (Inl (True, ReadError), drop_conn tp c1 n2)
             | (Some buf, n2) \<Rightarrow>
                 (case check_ack mac key buf c1 of
                    (Inl (dropped, e), c2) \<Rightarrow>
                      (Inl (False, e), if dropped then drop_conn tp c2 n2 else (c2, n2))
                  | (Inr e, c2) \<Rightarrow> (Inr e, c2, n2)))"

text \<open>
  \<^verbatim>\<open>Client.Send\<close>: a retryable failure is tried once more, on a fresh connection. \<open>now1\<close> and
  \<open>now2\<close> are the times of the two attempts.
\<close>

definition client_send ::
  "'k mac \<Rightarrow> 'k \<Rightarrow> ('c, 'n) transport \<Rightarrow> int \<Rightarrow> int \<Rightarrow> command \<Rightarrow> 'c client \<times> 'n
     \<Rightarrow> (link_error + executed_cmd) \<times> 'c client \<times> 'n" where
  "client_send mac key tp now1 now2 cmd cn =
     (case send_once mac key tp now1 cmd cn of
        (Inr e, cn1) \<Rightarrow> (Inr e, cn1)
      | (Inl (retryable, e), cn1) \<Rightarrow>
          if \<not> retryable then (Inl e, cn1)
          else (case send_once mac key tp now2 cmd cn1 of
                  (Inr e2, cn2) \<Rightarrow> (Inr e2, cn2)
                | (Inl (_, e2), cn2) \<Rightarrow> (Inl e2, cn2)))"

definition client_close :: "('c, 'n) transport \<Rightarrow> 'c client \<Rightarrow> 'n \<Rightarrow> 'c client \<times> 'n" where
  "client_close tp c n =
     (case cl_conn c of
        None \<Rightarrow> (c, n)
      | Some h \<Rightarrow> (c\<lparr> cl_conn := None \<rparr>, tp_close tp h n))"

end
