(* ===== verification/Link_Properties.thy ===== *)
theory Link_Properties
  imports Overseer_Link
begin

text \<open>
  The properties of the executor link: what the server executes on one connection and what it
  acknowledges, the client's bound on attempts, and the two composed over a lossless link.
\<close>

section \<open>Invariant of the server loop\<close>

definition authentic :: "'k mac \<Rightarrow> 'k \<Rightarrow> turn list \<Rightarrow> nat \<times> command \<Rightarrow> bool" where
  "authentic mac key ts qc \<longleftrightarrow>
     (\<exists>t env. t \<in> set ts \<and> tn_read t = Some (Frame env) \<and> env_hmac env = compute_hmac mac env key \<and>
        env_type env = EnvCommand \<and> env_seq env = fst qc \<and> env_data env = PCommand (snd qc))"

text \<open>The sequence number and the command id an acknowledgement frame carries.\<close>

fun ack_summary :: "frame \<Rightarrow> (nat \<times> string) option" where
  "ack_summary (BadFrame s) = None"
| "ack_summary (Frame env) =
     (case env_data env of PExecuted e \<Rightarrow> Some (env_seq env, ex_command_id e) | _ \<Rightarrow> None)"

definition acked :: "'w server \<Rightarrow> (nat \<times> command) list" where
  "acked s = (if sv_closed s = Some WriteFailed then butlast (sv_log s) else sv_log s)"

definition run_world :: "'w submit_fn \<Rightarrow> (nat \<times> command) list \<Rightarrow> 'w \<Rightarrow> 'w" where
  "run_world submit log w = fold (\<lambda>(q, c) w. snd (submit (cmd_action c) w)) log w"

definition server_inv :: "'k mac \<Rightarrow> 'k \<Rightarrow> 'w submit_fn \<Rightarrow> 'w \<Rightarrow> turn list \<Rightarrow> 'w server \<Rightarrow> bool" where
  "server_inv mac key submit w0 ts s \<longleftrightarrow>
     sorted_wrt (<) (map fst (sv_log s)) \<and>
     (\<forall>qc \<in> set (sv_log s). fst qc \<le> sv_last_req_seq s \<and> authentic mac key ts qc) \<and>
     sv_world s = run_world submit (sv_log s) w0 \<and>
     sv_ack_seq s = length (sv_log s) \<and>
     map ack_summary (sv_acks s) = map Some (enumerate 1 (map (cmd_id \<circ> snd) (acked s)))"

lemma server_inv_init: "server_inv mac key submit w0 [] (server_init w0)"
  by (simp add: server_inv_def server_init_def run_world_def acked_def)

lemma authentic_mono: "authentic mac key ts qc \<Longrightarrow> authentic mac key (ts @ us) qc"
  by (auto simp: authentic_def)

lemma server_inv_mono:
  "server_inv mac key submit w0 ts s \<Longrightarrow> server_inv mac key submit w0 (ts @ us) s"
  by (auto simp: server_inv_def intro: authentic_mono)

lemma unmarshal_Inr:
  "unmarshal_envelope mac buf key = Inr env \<Longrightarrow>
     buf = Frame env \<and> env_hmac env = compute_hmac mac env key"
  by (cases buf) (auto split: if_splits)

lemma ack_summary_marshal [simp]:
  "ack_summary (marshal_envelope mac typ q (PExecuted e) key now) = Some (q, ex_command_id e)"
  by (simp add: marshal_envelope_def Let_def)

lemma server_execute_inv:
  assumes inv: "server_inv mac key submit w0 ts s" and "sv_closed s = None"
    and new: "sv_last_req_seq s < q" and auth: "authentic mac key ts (q, cmd)"
  shows "server_inv mac key submit w0 ts
           (server_execute mac key submit t cmd (s\<lparr> sv_last_req_seq := q \<rparr>))"
proof -
  obtain err w where sub: "submit (cmd_action cmd) (sv_world s) = (err, w)" by force
  have lt: "\<forall>qc \<in> set (sv_log s). fst qc < q"
    using inv new by (auto simp: server_inv_def intro: le_less_trans)
  have w: "w = run_world submit (sv_log s @ [(q, cmd)]) w0"
    using inv sub by (simp add: server_inv_def run_world_def)
  have acks: "map ack_summary (sv_acks s) =
      map Some (enumerate 1 (map (cmd_id \<circ> snd) (sv_log s)))"
    and len: "sv_ack_seq s = length (sv_log s)"
    using inv assms(2) by (auto simp: server_inv_def acked_def)
  show ?thesis
    using inv sub lt auth w acks len assms(2)
    by (auto simp: server_inv_def server_execute_def Let_def sorted_wrt_append acked_def executed_of_def
        enumerate_append_eq
        dest: less_imp_le)
qed

lemma server_turn_inv:
  assumes "server_inv mac key submit w0 ts s"
  shows "server_inv mac key submit w0 (ts @ [t]) (server_turn mac key submit t s)"
proof -
  have inv: "server_inv mac key submit w0 (ts @ [t]) s" using assms by (rule server_inv_mono)
  have upd: "server_inv mac key submit w0 (ts @ [t]) (s\<lparr> sv_last_req_seq := q \<rparr>)"
    if "sv_last_req_seq s < q" for q
    using inv that by (auto simp: server_inv_def acked_def)
  show ?thesis
  proof (cases "sv_closed s")
    case None
    have cl: "server_inv mac key submit w0 (ts @ [t]) (s\<lparr> sv_closed := Some r \<rparr>)"
      if "r \<noteq> WriteFailed" for r
      using inv None that by (auto simp: server_inv_def acked_def)
    have exe: "server_inv mac key submit w0 (ts @ [t])
        (server_execute mac key submit t cmd (s\<lparr> sv_last_req_seq := env_seq env \<rparr>))"
      if "tn_read t = Some buf" "unmarshal_envelope mac buf key = Inr env"
        "sv_last_req_seq s < env_seq env" "env_type env = EnvCommand" "env_data env = PCommand cmd"
      for buf env cmd
      using inv None that unmarshal_Inr [OF that(2)]
      by (intro server_execute_inv) (auto simp: authentic_def)
    show ?thesis
      using None upd cl exe
      by (auto simp: server_turn_def Let_def not_le split: option.splits sum.splits payload.splits)
  qed (simp add: server_turn_def inv)
qed

lemma server_run_inv:
  "server_inv mac key submit w0 us s \<Longrightarrow>
     server_inv mac key submit w0 (us @ ts) (server_run mac key submit ts s)"
proof (induction ts arbitrary: us s)
  case (Cons t ts)
  from server_turn_inv [OF Cons.prems, of t] Cons.IH [of "us @ [t]"] show ?case by simp
qed simp

lemma server_run_init_inv:
  "server_inv mac key submit w ts (server_run mac key submit ts (server_init w))"
  using server_run_inv [OF server_inv_init, of mac key submit w ts] by simp

lemma server_run_closed: "sv_closed s \<noteq> None \<Longrightarrow> server_run mac key submit ts s = s"
  by (induction ts) (simp_all add: server_turn_def)

section \<open>Data for concrete instances\<close>

definition demo_command :: "string \<Rightarrow> action_kind \<Rightarrow> command" where
  "demo_command i k =
     \<lparr> cmd_id = i, cmd_received_at = 0, cmd_raw_text = kind_string k,
       cmd_from = \<lparr> src_username = ''viewer'', src_platform = ''twitch'', src_channel = ''chan'' \<rparr>,
       cmd_action = action_of_kind k \<rparr>"

text \<open>A tag that depends on the sequence number and the key, and a game that counts commands.\<close>

definition demo_mac :: "nat mac" where
  "demo_mac k x = replicate (k + fst (snd x)) CHR ''f''"

definition demo_submit :: "nat submit_fn" where
  "demo_submit a w = (None, Suc w)"

definition demo_turn :: "nat \<Rightarrow> string \<Rightarrow> turn" where
  "demo_turn q i =
     \<lparr> tn_read = Some (marshal_envelope demo_mac EnvCommand q (PCommand (demo_command i KindPause)) 7 0),
       tn_now = 5, tn_write_ok = True \<rparr>"

section \<open>Properties of the server\<close>

text \<open>
  C5: on one connection, whatever frames arrive, the sequence numbers of the executed commands are
  strictly increasing, so no envelope is executed twice, and every executed command came in an
  envelope whose HMAC verifies under the server's key.
\<close>

theorem server_executes_authentic_once:
  fixes mac :: "'k mac"
  shows "sorted_wrt (<) (map fst (sv_log (server_run mac key submit ts (server_init w)))) \<and>
    (\<forall>qc \<in> set (sv_log (server_run mac key submit ts (server_init w))). authentic mac key ts qc)"
  using server_run_init_inv [of mac key submit w ts] by (simp add: server_inv_def)

theorem server_executes_authentic_once_witness:
  "map fst (sv_log (server_run demo_mac 7 demo_submit [demo_turn 2 ''a'', demo_turn 3 ''b'', demo_turn 3 ''b''] (server_init 0)))
     = [2, 3] \<and>
   authentic demo_mac 7 [demo_turn 2 ''a'', demo_turn 3 ''b'', demo_turn 3 ''b''] (3, demo_command ''b'' KindPause)"
proof -
  let ?ts = "[demo_turn 2 ''a'', demo_turn 3 ''b'', demo_turn 3 ''b'']"
  have log: "sv_log (server_run demo_mac 7 demo_submit ?ts (server_init 0)) =
      [(2, demo_command ''a'' KindPause), (3, demo_command ''b'' KindPause)]"
    by (simp add: server_turn_def server_init_def demo_turn_def marshal_envelope_def compute_hmac_def
        demo_mac_def server_execute_def demo_submit_def Let_def)
  with server_executes_authentic_once [of demo_mac 7 demo_submit ?ts 0] show ?thesis by simp
qed

text \<open>
  the game is exactly what executing the logged commands in order makes of it, the
  acknowledgement counter counts them, and the acknowledgements written are numbered 1, 2, 3, ... and
  name the logged commands in order; only a failed write leaves the last command unacknowledged.
\<close>

theorem server_world_and_acks:
  fixes mac :: "'k mac"
  shows "let s = server_run mac key submit ts (server_init w) in
    sv_world s = run_world submit (sv_log s) w \<and> sv_ack_seq s = length (sv_log s) \<and>
    map ack_summary (sv_acks s) = map Some (enumerate 1 (map (cmd_id \<circ> snd) (acked s)))"
  using server_run_init_inv [of mac key submit w ts] by (simp add: server_inv_def Let_def)

text \<open>
  a frame that does not verify, or repeats a sequence number, ends the connection: nothing is
  executed for it or for any frame after it, and nothing more is acknowledged.
\<close>

theorem server_rejects_forged_and_replayed:
  assumes "sv_closed s = None" and "tn_read t = Some buf"
    and "case unmarshal_envelope mac buf key of Inl e \<Rightarrow> True | Inr env \<Rightarrow> env_seq env \<le> sv_last_req_seq s"
  shows "sv_closed (server_run mac key submit (t # ts) s) \<noteq> None \<and>
    sv_log (server_run mac key submit (t # ts) s) = sv_log s \<and>
    sv_world (server_run mac key submit (t # ts) s) = sv_world s \<and>
    sv_acks (server_run mac key submit (t # ts) s) = sv_acks s"
  using assms
  by (auto simp: server_turn_def server_run_closed split: sum.splits)

theorem server_rejects_forged_and_replayed_witness:
  "sv_world (server_run demo_mac 7 demo_submit
      [\<lparr> tn_read = Some (marshal_envelope demo_mac EnvCommand 9 (PCommand (demo_command ''x'' KindPause)) 8 0),
         tn_now = 0, tn_write_ok = True \<rparr>, demo_turn 10 ''y''] (server_init 3)) = 3"
proof -
  let ?f = "marshal_envelope demo_mac EnvCommand 9 (PCommand (demo_command ''x'' KindPause)) 8 0"
  have u: "unmarshal_envelope demo_mac ?f 7 = Inl HmacMismatch"
    by (simp add: marshal_envelope_def compute_hmac_def demo_mac_def Let_def)
  show ?thesis
    using server_rejects_forged_and_replayed
      [where s = "server_init 3" and mac = demo_mac and key = 7 and buf = ?f and submit = demo_submit
        and t = "\<lparr> tn_read = Some ?f, tn_now = 0, tn_write_ok = True \<rparr>" and ts = "[demo_turn 10 ''y'']"] u
    by (simp add: server_init_def)
qed

section \<open>Properties of the client\<close>

lemma drop_conn_frame:
  "(\<And>h n. cnt (tp_close tp h n) = cnt n) \<Longrightarrow> cnt (snd (drop_conn tp c n)) = cnt n"
  by (simp add: drop_conn_def split: option.splits)

lemma send_once_count:
  assumes dial: "\<And>n. cnt (snd (tp_dial tp n)) = cnt n"
    and wr: "\<And>h f n. cnt (snd (tp_write tp h f n)) = Suc (cnt n)"
    and rd: "\<And>h n. cnt (snd (tp_read tp h n)) = cnt n"
    and cl: "\<And>h n. cnt (tp_close tp h n) = cnt n"
  shows "cnt (snd (snd (send_once mac key tp now cmd cn))) \<le> Suc (cnt (snd cn))"
proof -
  obtain h c n where ec: "ensure_connected tp (fst cn) (snd cn) = (h, c, n)"
    by (metis prod_cases3)
  then have n: "cnt n = cnt (snd cn)"
    using dial [of "snd cn"] by (auto simp: ensure_connected_def split: option.splits prod.splits)
  show ?thesis
  proof (cases h)
    case None
    then show ?thesis using ec n by (simp add: send_once_def)
  next
    case (Some hd)
    define c1 where "c1 = c\<lparr> cl_sent_seq := cl_sent_seq c + 1 \<rparr>"
    obtain wrote n1 where w: "tp_write tp hd (marshal_envelope mac EnvCommand (cl_sent_seq c + 1)
        (PCommand cmd) key now) n = (wrote, n1)" by force
    obtain buf n2 where r: "tp_read tp hd n1 = (buf, n2)" by force
    have n1: "cnt n1 = Suc (cnt n)" using wr w by (metis snd_conv)
    have n2: "cnt n2 = cnt n1" using rd r by (metis snd_conv)
    have d: "cnt (snd (drop_conn tp x y)) = cnt y" for x y using cl by (rule drop_conn_frame)
    show ?thesis
      using ec Some w r n n1 n2 d
      by (auto simp: send_once_def Let_def c1_def split: option.splits sum.splits prod.splits)
  qed
qed

text \<open>
  Send writes the command at most twice, and at most once when the first attempt fails for any
  reason other than a transport failure. The count is any measure of the network that a write
  increases by one and the other transport operations leave alone.
\<close>

theorem send_writes_at_most_twice:
  assumes "\<And>n. cnt (snd (tp_dial tp n)) = cnt n"
    and "\<And>h f n. cnt (snd (tp_write tp h f n)) = Suc (cnt n)"
    and "\<And>h n. cnt (snd (tp_read tp h n)) = cnt n"
    and "\<And>h n. cnt (tp_close tp h n) = cnt n"
  shows "cnt (snd (snd (client_send mac key tp now1 now2 cmd cn))) \<le> cnt (snd cn) + 2 \<and>
    ((\<forall>e. fst (send_once mac key tp now1 cmd cn) \<noteq> Inl (True, e)) \<longrightarrow>
      cnt (snd (snd (client_send mac key tp now1 now2 cmd cn))) \<le> cnt (snd cn) + 1)"
proof -
  note c = send_once_count [where cnt = cnt and tp = tp, OF assms]
  obtain r1 cn1 where s1: "send_once mac key tp now1 cmd cn = (r1, cn1)"
    by (cases "send_once mac key tp now1 cmd cn")
  obtain r2 cn2 where s2: "send_once mac key tp now2 cmd cn1 = (r2, cn2)"
    by (cases "send_once mac key tp now2 cmd cn1")
  have "cnt (snd cn1) \<le> Suc (cnt (snd cn))" using c [of mac key now1 cmd cn] s1 by simp
  moreover have "cnt (snd cn2) \<le> Suc (cnt (snd cn1))" using c [of mac key now2 cmd cn1] s2 by simp
  ultimately show ?thesis
    using s1 s2 by (auto simp: client_send_def split: sum.splits prod.splits)
qed

definition counting_transport :: "(unit, nat) transport" where
  "counting_transport = \<lparr> tp_dial = (\<lambda>n. (Some (), n)), tp_write = (\<lambda>h f n. (True, Suc n)),
     tp_read = (\<lambda>h n. (None, n)), tp_close = (\<lambda>h n. n) \<rparr>"

theorem send_writes_at_most_twice_witness:
  "snd (snd (client_send demo_mac 7 counting_transport 0 0 (demo_command ''a'' KindHelp) (client_init, 5))) = 7 \<and>
   snd (snd (client_send demo_mac 7 counting_transport 0 0 (demo_command ''a'' KindHelp) (client_init, 5))) \<le> (5::nat) + 2"
proof -
  have "snd (snd (client_send demo_mac 7 counting_transport 0 0 (demo_command ''a'' KindHelp) (client_init, 5))) = 7"
    by (simp add: client_send_def send_once_def ensure_connected_def client_init_def counting_transport_def
        drop_conn_def Let_def)
  with send_writes_at_most_twice [where cnt = "\<lambda>n::nat. n" and tp = counting_transport and mac = demo_mac
      and key = 7 and ?now1.0 = 0 and ?now2.0 = 0 and cmd = "demo_command ''a'' KindHelp" and cn = "(client_init, 5)"]
  show ?thesis by (simp add: counting_transport_def)
qed

text \<open>
  The two ends composed. \<open>lossless_link\<close> is what the client needs of its transport to be answered:
  dialling reaches a fresh server connection on the same world, a written frame is one turn of the
  server whose acknowledgement can be written back, and reads return the acknowledgements in order.
\<close>

section \<open>Client and server over a lossless link\<close>

locale lossless_link =
  fixes mac :: "'k mac" and key :: 'k and submit :: "'w submit_fn"
    and tp :: "('c, 'n) transport"
    and srv :: "'n \<Rightarrow> 'w server" and deliv :: "'n \<Rightarrow> nat"
  assumes dial_ok: "\<exists>h n'. tp_dial tp n = (Some h, n') \<and> srv n' = server_init (sv_world (srv n)) \<and> deliv n' = 0"
    and write_ok: "\<exists>n' now. tp_write tp h f n = (True, n') \<and> deliv n' = deliv n \<and>
      srv n' = server_turn mac key submit \<lparr> tn_read = Some f, tn_now = now, tn_write_ok = True \<rparr> (srv n)"
    and read_ok: "deliv n < length (sv_acks (srv n)) \<Longrightarrow>
      \<exists>n'. tp_read tp h n = (Some (sv_acks (srv n) ! deliv n), n') \<and> srv n' = srv n \<and> deliv n' = Suc (deliv n)"
begin

definition synced :: "'c client \<Rightarrow> 'n \<Rightarrow> bool" where
  "synced c n \<longleftrightarrow> (cl_conn c \<noteq> None \<longrightarrow>
     sv_closed (srv n) = None \<and> sv_last_req_seq (srv n) = cl_sent_seq c \<and>
     sv_ack_seq (srv n) = cl_last_ack_seq c \<and> deliv n = length (sv_acks (srv n)))"

lemma ensure_synced:
  assumes "synced c n"
  shows "\<exists>h c' n'. ensure_connected tp c n = (Some h, c', n') \<and> cl_conn c' = Some h \<and> synced c' n' \<and>
           sv_world (srv n') = sv_world (srv n)"
proof (cases "cl_conn c")
  case None
  obtain h n' where "tp_dial tp n = (Some h, n')" "srv n' = server_init (sv_world (srv n))" "deliv n' = 0"
    using dial_ok by blast
  with None show ?thesis
    by (auto simp: ensure_connected_def synced_def server_init_def)
qed (use assms in \<open>simp add: ensure_connected_def\<close>)

lemma send_synced:
  assumes "synced c n"
  shows "\<exists>e c' n'. client_send mac key tp now1 now2 cmd (c, n) = (Inr e, c', n') \<and>
    (\<exists>t. e = executed_of cmd (fst (submit (cmd_action cmd) (sv_world (srv n)))) t) \<and>
    sv_world (srv n') = snd (submit (cmd_action cmd) (sv_world (srv n))) \<and>
    cl_conn c' \<noteq> None \<and> synced c' n'"
proof -
  obtain h c1 n1 where ec: "ensure_connected tp c n = (Some h, c1, n1)" and h: "cl_conn c1 = Some h"
    and sy: "synced c1 n1" and w: "sv_world (srv n1) = sv_world (srv n)"
    using ensure_synced [OF assms] by blast
  define q where "q = Suc (cl_sent_seq c1)"
  define f where "f = marshal_envelope mac EnvCommand q (PCommand cmd) key now1"
  obtain n2 t where wr: "tp_write tp h f n1 = (True, n2)" and dv: "deliv n2 = deliv n1"
    and sr: "srv n2 = server_turn mac key submit \<lparr> tn_read = Some f, tn_now = t, tn_write_ok = True \<rparr> (srv n1)"
    using write_ok by blast
  obtain err w' where sub: "submit (cmd_action cmd) (sv_world (srv n)) = (err, w')" by force
  define ack where "ack = marshal_envelope mac EnvExecutedCmd (Suc (cl_last_ack_seq c1))
      (PExecuted (executed_of cmd err t)) key t"
  have s1: "sv_closed (srv n1) = None" "sv_last_req_seq (srv n1) = cl_sent_seq c1"
    "sv_ack_seq (srv n1) = cl_last_ack_seq c1" "deliv n1 = length (sv_acks (srv n1))"
    using sy h by (simp_all add: synced_def)
  have s2: "sv_closed (srv n2) = None" "sv_last_req_seq (srv n2) = q" "sv_world (srv n2) = w'"
    "sv_ack_seq (srv n2) = Suc (cl_last_ack_seq c1)" "sv_acks (srv n2) = sv_acks (srv n1) @ [ack]"
    using s1 sub w
    by (simp_all add: sr f_def q_def ack_def server_turn_def marshal_envelope_def compute_hmac_def
        server_execute_def Let_def)
  obtain n3 where rd: "tp_read tp h n2 = (Some ack, n3)" and s3: "srv n3 = srv n2" "deliv n3 = Suc (deliv n2)"
    using read_ok [of n2 h] s2 s1 dv by auto
  show ?thesis
    using ec wr rd s2 s3 sub s1 dv h
    by (auto simp: client_send_def send_once_def check_ack_def f_def q_def ack_def Let_def
        marshal_envelope_def compute_hmac_def executed_of_def synced_def split: option.splits)
qed

end

text \<open>
  The link made of the modelled server itself: the network state is the server's connection and the
  number of its acknowledgements already read; time stands still.
\<close>

definition pipe_transport :: "'k mac \<Rightarrow> 'k \<Rightarrow> 'w submit_fn \<Rightarrow> (unit, 'w server \<times> nat) transport" where
  "pipe_transport mac key submit =
     \<lparr> tp_dial = (\<lambda>(s, k). (Some (), server_init (sv_world s), 0)),
       tp_write = (\<lambda>h f (s, k). (True,
         server_turn mac key submit \<lparr> tn_read = Some f, tn_now = 0, tn_write_ok = True \<rparr> s, k)),
       tp_read = (\<lambda>h (s, k). if k < length (sv_acks s) then (Some (sv_acks s ! k), s, Suc k) else (None, s, k)),
       tp_close = (\<lambda>h n. n) \<rparr>"

interpretation pipe: lossless_link mac key submit "pipe_transport mac key submit" fst snd
  for mac :: "'k mac" and key :: 'k and submit :: "'w submit_fn"
  by unfold_locales (auto simp: pipe_transport_def)

fun send_all :: "'k mac \<Rightarrow> 'k \<Rightarrow> 'w submit_fn \<Rightarrow> command list \<Rightarrow> unit client \<times> 'w server \<times> nat
    \<Rightarrow> (link_error + executed_cmd) list \<times> unit client \<times> 'w server \<times> nat" where
  "send_all mac key submit [] cn = ([], cn)"
| "send_all mac key submit (cmd # cmds) cn =
     (let (r, cn1) = client_send mac key (pipe_transport mac key submit) 0 0 cmd cn;
          (rs, cn2) = send_all mac key submit cmds cn1
      in (r # rs, cn2))"

lemma send_all_synced:
  assumes "pipe.synced (fst cn) (snd cn)"
  shows "(\<forall>r \<in> set (fst (send_all mac key submit cmds cn)). \<exists>e. r = Inr e) \<and>
    map (map_sum id ex_command_id) (fst (send_all mac key submit cmds cn)) = map (Inr \<circ> cmd_id) cmds \<and>
    sv_world (fst (snd (snd (send_all mac key submit cmds cn)))) =
      fold (\<lambda>cmd w. snd (submit (cmd_action cmd) w)) cmds (sv_world (fst (snd cn)))"
  using assms
proof (induction cmds arbitrary: cn)
  case (Cons cmd cmds)
  obtain c s k where cn: "cn = (c, s, k)" by (cases cn)
  from pipe.send_synced [of c "(s, k)" mac key submit 0 0 cmd] Cons.prems cn
  obtain e c' s' k' where
    snd: "client_send mac key (pipe_transport mac key submit) 0 0 cmd cn = (Inr e, c', s', k')"
    and e: "ex_command_id e = cmd_id cmd" and w: "sv_world s' = snd (submit (cmd_action cmd) (sv_world s))"
    and sy: "pipe.synced c' (s', k')"
    by (fastforce simp: executed_of_def)
  from Cons.IH [of "(c', s', k')"] sy w e snd cn show ?case
    by (auto simp: Let_def split: prod.splits)
qed simp

text \<open>
  C9: client and server composed over a lossless link: starting unconnected, every command sent is
  acknowledged with its own id, and the game ends as if the commands had been executed once each, in
  order. The sequence numbers of the two ends never get out of step.
\<close>

theorem link_delivers_in_order:
  fixes mac :: "'k mac" and w :: 'w
  shows "let (rs, cn) = send_all mac key submit cmds (client_init, server_init w, 0) in
    map (map_sum id ex_command_id) rs = map (Inr \<circ> cmd_id) cmds \<and>
    sv_world (fst (snd cn)) = fold (\<lambda>cmd w. snd (submit (cmd_action cmd) w)) cmds w"
proof -
  have "pipe.synced (fst (client_init, server_init w, 0::nat)) (snd (client_init, server_init w, 0::nat))"
    by (simp add: pipe.synced_def client_init_def)
  from send_all_synced [OF this, of mac key submit cmds]
  show ?thesis by (auto simp: server_init_def split: prod.splits)
qed

end
