(* ===== verification/Tables.thy ===== *)
theory Tables
  imports Go_Prelude
begin

text \<open>
  The database as the services see it: a table is its rows and its id sequence, and the calls of
  \<^verbatim>\<open>upper/db\<close> and the SQL statements of the services act on it as list operations. Whether a call
  reaches the database is not the program's choice: an operation takes the outcomes of its calls as a
  function \<open>fl\<close> from the call's position in the operation to "this call fails", and every failure
  is a branch. The locale \<open>row_type\<close> says what a kind of row must provide for the table lemmas;
  each service interprets it on its own rows.
\<close>

section \<open>Tables\<close>

record 'r table =
  tb_rows :: "'r list"
  tb_serial :: int

type_synonym faults = "nat \<Rightarrow> bool"

definition no_faults :: faults where
  "no_faults n = False"

definition empty_table :: "'r table" where
  "empty_table = \<lparr> tb_rows = [], tb_serial = 0 \<rparr>"

definition find_rows :: "('r \<Rightarrow> bool) \<Rightarrow> 'r table \<Rightarrow> 'r list" where
  "find_rows P t = filter P (tb_rows t)"

text \<open>\<^verbatim>\<open>Find(cond).One(&rec)\<close>: \<open>None\<close> is \<^verbatim>\<open>db.ErrNoMoreRows\<close>.\<close>

definition find_one :: "('r \<Rightarrow> bool) \<Rightarrow> 'r table \<Rightarrow> 'r option" where
  "find_one P t = find P (tb_rows t)"

text \<open>
  \<^verbatim>\<open>Insert\<close>: the row gets the next id. \<open>None\<close> is a violation of the unique constraint on the key.
\<close>

definition insert_row ::
  "('r \<Rightarrow> int \<Rightarrow> 'r) \<Rightarrow> ('r \<Rightarrow> 'k) \<Rightarrow> 'r \<Rightarrow> 'r table \<Rightarrow> ('r \<times> 'r table) option" where
  "insert_row with_id key r t =
     (if key r \<in> set (map key (tb_rows t)) then None
      else let r' = with_id r (tb_serial t + 1)
           in Some (r', \<lparr> tb_rows = tb_rows t @ [r'], tb_serial = tb_serial t + 1 \<rparr>))"

text \<open>\<^verbatim>\<open>UpdateReturning\<close>: replaces the row with the record's id; \<open>None\<close> when there is none.\<close>

definition update_row :: "('r \<Rightarrow> int) \<Rightarrow> 'r \<Rightarrow> 'r table \<Rightarrow> 'r table option" where
  "update_row rid r t =
     (if rid r \<in> set (map rid (tb_rows t))
      then Some (t\<lparr> tb_rows := map (\<lambda>x. if rid x = rid r then r else x) (tb_rows t) \<rparr>)
      else None)"

lemma update_row_rows:
  "update_row rid r t = Some t' \<Longrightarrow> tb_rows t' = map (\<lambda>x. if rid x = rid r then r else x) (tb_rows t)"
  unfolding update_row_def by (cases "rid r \<in> set (map rid (tb_rows t))") (simp_all, force)

definition update_where :: "('r \<Rightarrow> bool) \<Rightarrow> ('r \<Rightarrow> 'r) \<Rightarrow> 'r table \<Rightarrow> 'r table" where
  "update_where P f t = t\<lparr> tb_rows := map (\<lambda>x. if P x then f x else x) (tb_rows t) \<rparr>"

definition delete_where :: "('r \<Rightarrow> bool) \<Rightarrow> 'r table \<Rightarrow> 'r table" where
  "delete_where P t = t\<lparr> tb_rows := filter (\<lambda>x. \<not> P x) (tb_rows t) \<rparr>"

text \<open>
  The invariant the schema enforces: ids and keys are unique, and the sequence is ahead of the ids.
\<close>

definition wf_table :: "('r \<Rightarrow> int) \<Rightarrow> ('r \<Rightarrow> 'k) \<Rightarrow> 'r table \<Rightarrow> bool" where
  "wf_table rid key t \<longleftrightarrow>
     distinct (map rid (tb_rows t)) \<and> distinct (map key (tb_rows t)) \<and>
     (\<forall>r \<in> set (tb_rows t). rid r \<le> tb_serial t)"

section \<open>Facts about lists of rows\<close>

lemma find_Some_mem: "find P xs = Some r \<Longrightarrow> r \<in> set xs \<and> P r"
  by (auto simp: find_Some_iff)

lemma find_distinct_key:
  "distinct (map key xs) \<Longrightarrow> r \<in> set xs \<Longrightarrow> find (\<lambda>x. key x = key r) xs = Some r"
  by (induction xs) auto

lemma filter_distinct_key:
  "distinct (map key xs) \<Longrightarrow> r \<in> set xs \<Longrightarrow> filter (\<lambda>x. key x = key r) xs = [r]"
proof (induction xs)
  case (Cons x xs)
  show ?case
  proof (cases "r = x")
    case True
    then have "filter (\<lambda>y. key y = key r) xs = []"
      using Cons.prems(1) True by (auto simp: filter_empty_conv image_iff)
    then show ?thesis using True by simp
  next
    case False
    then show ?thesis using Cons by auto
  qed
qed simp

lemma find_append: "find P (xs @ ys) = (case find P xs of None \<Rightarrow> find P ys | Some r \<Rightarrow> Some r)"
  by (induction xs) auto

lemma find_map_replace:
  assumes "distinct (map rid xs)" and "r0 \<in> set xs" and "rid r = rid r0" and "P r = P r0"
  shows "find P (map (\<lambda>x. if rid x = rid r then r else x) xs) =
     (case find P xs of None \<Rightarrow> None | Some x \<Rightarrow> Some (if rid x = rid r then r else x))"
  using assms
proof (induction xs)
  case (Cons x xs)
  show ?case
  proof (cases "rid x = rid r")
    case True
    have "r0 = x"
    proof (rule ccontr)
      assume "r0 \<noteq> x"
      then have "rid r0 \<in> set (map rid xs)" using Cons.prems(2) by simp
      then show False using Cons.prems(1,3) True by simp
    qed
    moreover have "map (\<lambda>y. if rid y = rid r then r else y) xs = xs"
    proof (rule map_idI)
      fix y assume "y \<in> set xs"
      then have "rid y \<in> rid ` set xs" by blast
      then show "(if rid y = rid r then r else y) = y" using Cons.prems(1) True by auto
    qed
    moreover have "rid y \<noteq> rid r" if "find P xs = Some y" for y
    proof -
      have "rid y \<in> rid ` set xs" using find_Some_mem [OF that] by blast
      then show ?thesis using Cons.prems(1) True by auto
    qed
    ultimately show ?thesis using True Cons.prems(4) by (auto split: option.splits)
  next
    case False
    then have "r0 \<in> set xs" using Cons.prems(2,3) by auto
    with False Cons show ?thesis by auto
  qed
qed simp

lemma map_replace_key:
  assumes "distinct (map rid xs)" and "r0 \<in> set xs" and "rid r = rid r0" and "key r = key r0"
  shows "map key (map (\<lambda>x. if rid x = rid r then r else x) xs) = map key xs"
  using assms by (auto simp: distinct_map inj_on_def)

section \<open>What a kind of row provides\<close>

locale row_type =
  fixes rid :: "'r \<Rightarrow> int" and key :: "'r \<Rightarrow> 'k" and with_id :: "'r \<Rightarrow> int \<Rightarrow> 'r"
  assumes rid_with_id: "rid (with_id r n) = n"
    and key_with_id: "key (with_id r n) = key r"
begin

lemma wf_empty: "wf_table rid key empty_table"
  by (simp add: wf_table_def empty_table_def)

lemma find_key_None: "find_one (\<lambda>x. key x = k) t = None \<longleftrightarrow> k \<notin> set (map key (tb_rows t))"
  by (auto simp: find_one_def find_None_iff)

lemma find_key_Some:
  assumes "wf_table rid key t"
  shows "find_one (\<lambda>x. key x = k) t = Some r \<longleftrightarrow> r \<in> set (tb_rows t) \<and> key r = k"
  using assms find_distinct_key [of key "tb_rows t" r]
  by (auto simp: wf_table_def find_one_def dest: find_Some_mem)

lemma insert_ok:
  assumes "find_one (\<lambda>x. key x = key r) t = None"
  shows "insert_row with_id key r t =
     Some (with_id r (tb_serial t + 1),
           \<lparr> tb_rows = tb_rows t @ [with_id r (tb_serial t + 1)], tb_serial = tb_serial t + 1 \<rparr>)"
  using assms by (simp add: find_key_None insert_row_def Let_def)

lemma insert_wf:
  assumes "wf_table rid key t" and "insert_row with_id key r t = Some (r', t')"
  shows "wf_table rid key t'"
  using assms by (fastforce simp: wf_table_def insert_row_def Let_def rid_with_id key_with_id split: if_splits)

lemma insert_find:
  assumes "insert_row with_id key r t = Some (r', t')"
  shows "find_one (\<lambda>x. key x = k) t' = (if k = key r then Some r' else find_one (\<lambda>x. key x = k) t)"
proof -
  have n: "find_one (\<lambda>x. key x = key r) t = None" and r': "key r' = key r"
    and t': "tb_rows t' = tb_rows t @ [r']"
    using assms by (auto simp: insert_row_def Let_def find_key_None key_with_id split: if_splits)
  show ?thesis using n r' by (auto simp: find_one_def t' find_append split: option.splits)
qed

lemma update_ok:
  assumes "r0 \<in> set (tb_rows t)" and "rid r = rid r0"
  shows "update_row rid r t = Some (t\<lparr> tb_rows := map (\<lambda>x. if rid x = rid r then r else x) (tb_rows t) \<rparr>)"
  using assms by (auto simp: update_row_def)

lemma update_wf:
  assumes "wf_table rid key t" and "r0 \<in> set (tb_rows t)" and "rid r = rid r0" and "key r = key r0"
    and "update_row rid r t = Some t'"
  shows "wf_table rid key t'"
proof -
  have d: "distinct (map rid (tb_rows t))" using assms(1) by (simp add: wf_table_def)
  have t': "tb_rows t' = map (\<lambda>x. if rid x = rid r then r else x) (tb_rows t)" "tb_serial t' = tb_serial t"
    using assms(5) by (auto simp: update_row_def split: if_splits)
  have "map key (tb_rows t') = map key (tb_rows t)" and "map rid (tb_rows t') = map rid (tb_rows t)"
    unfolding t' using map_replace_key [OF d assms(2,3)] assms(3,4) by (blast, simp)
  moreover have "\<forall>x \<in> set (tb_rows t'). rid x \<le> tb_serial t"
    using assms(1-3) by (auto simp: t' wf_table_def)
  ultimately show ?thesis using assms(1) t'(2) by (simp add: wf_table_def)
qed

lemma update_find:
  assumes "wf_table rid key t" and "r0 \<in> set (tb_rows t)" and "rid r = rid r0" and "key r = key r0"
    and "update_row rid r t = Some t'"
  shows "find_one (\<lambda>x. key x = k) t' = (if k = key r then Some r else find_one (\<lambda>x. key x = k) t)"
proof -
  have wf': "wf_table rid key t'" using update_wf [OF assms] .
  have t': "tb_rows t' = map (\<lambda>x. if rid x = rid r then r else x) (tb_rows t)"
    using assms(5) by (auto simp: update_row_def split: if_splits)
  have r: "r \<in> set (tb_rows t')" using assms(2,3) by (force simp: t')
  show ?thesis
  proof (cases "k = key r")
    case True
    then show ?thesis using r wf' find_key_Some by auto
  next
    case False
    have d: "distinct (map rid (tb_rows t))" using assms(1) by (simp add: wf_table_def)
    have "find_one (\<lambda>x. key x = k) t' =
        (case find (\<lambda>x. key x = k) (tb_rows t) of None \<Rightarrow> None | Some x \<Rightarrow> Some (if rid x = rid r then r else x))"
      unfolding find_one_def t' using assms(3,4) by (intro find_map_replace [OF d assms(2)]) auto
    moreover have "rid x \<noteq> rid r" if "find (\<lambda>x. key x = k) (tb_rows t) = Some x" for x
    proof
      assume "rid x = rid r"
      with find_Some_mem [OF that] assms(2,3) d have "x = r0" by (auto simp: distinct_map inj_on_def)
      with find_Some_mem [OF that] assms(4) False show False by simp
    qed
    ultimately show ?thesis using False by (auto simp: find_one_def split: option.splits)
  qed
qed

text \<open>The two facts a client uses: what an insert of a new key and an update of a row leave behind.\<close>

lemma insert_spec:
  assumes "wf_table rid key t" and "find_one (\<lambda>x. key x = key r) t = None"
  obtains t' where "insert_row with_id key r t = Some (with_id r (tb_serial t + 1), t')"
    and "wf_table rid key t'" and "set (tb_rows t') = insert (with_id r (tb_serial t + 1)) (set (tb_rows t))"
    and "\<And>k. find_one (\<lambda>x. key x = k) t' =
          (if k = key r then Some (with_id r (tb_serial t + 1)) else find_one (\<lambda>x. key x = k) t)"
proof -
  note i = insert_ok [OF assms(2)]
  show ?thesis using that [OF i insert_wf [OF assms(1) i] _ insert_find [OF i]] by simp
qed

lemma update_spec:
  assumes "wf_table rid key t" and "r0 \<in> set (tb_rows t)" and "rid r = rid r0" and "key r = key r0"
  obtains t' where "update_row rid r t = Some t'" and "wf_table rid key t'"
    and "r \<in> set (tb_rows t')" and "set (tb_rows t') \<subseteq> insert r (set (tb_rows t))"
    and "\<And>k. find_one (\<lambda>x. key x = k) t' = (if k = key r then Some r else find_one (\<lambda>x. key x = k) t)"
proof -
  obtain t' where u: "update_row rid r t = Some t'"
    and rows: "tb_rows t' = map (\<lambda>x. if rid x = rid r then r else x) (tb_rows t)"
    using update_ok [OF assms(2,3)] by auto
  have w: "wf_table rid key t'" using update_wf [OF assms u] .
  have f: "find_one (\<lambda>x. key x = k) t' = (if k = key r then Some r else find_one (\<lambda>x. key x = k) t)" for k
    using update_find [OF assms u] .
  have "r \<in> set (tb_rows t')" using find_key_Some [OF w] f [of "key r"] by simp
  moreover have "set (tb_rows t') \<subseteq> insert r (set (tb_rows t))" unfolding rows by auto
  ultimately show ?thesis using that [OF u w _ _ f] by blast
qed

lemma delete_wf: "wf_table rid key t \<Longrightarrow> wf_table rid key (delete_where P t)"
  by (auto simp: wf_table_def delete_where_def distinct_map_filter)

lemma delete_find:
  assumes "wf_table rid key t"
  shows "find_one (\<lambda>x. key x = k) (delete_where P t) =
     (case find_one (\<lambda>x. key x = k) t of None \<Rightarrow> None | Some r \<Rightarrow> if P r then None else Some r)"
proof (cases "find_one (\<lambda>x. key x = k) t")
  case None
  then have "find_one (\<lambda>x. key x = k) (delete_where P t) = None"
    by (auto simp: find_key_None delete_where_def)
  with None show ?thesis by simp
next
  case (Some r)
  then have r: "r \<in> set (tb_rows t)" "key r = k" using find_key_Some [OF assms] by auto
  have u: "x = r" if "x \<in> set (tb_rows t)" "key x = k" for x
    using that r assms by (auto simp: wf_table_def distinct_map inj_on_def)
  show ?thesis
  proof (cases "P r")
    case True
    then show ?thesis using Some u by (auto simp: find_one_def delete_where_def find_None_iff)
  next
    case False
    then have "r \<in> set (tb_rows (delete_where P t))" using r by (simp add: delete_where_def)
    then show ?thesis using Some False r find_key_Some [OF delete_wf [OF assms]] by auto
  qed
qed

end

section \<open>Counters\<close>

text \<open>
  The contract of a per-key counter: an increment returns the new value and touches one key. What
  follows from it alone is the value after any sequence of increments.
\<close>

locale counter =
  fixes inv :: "'s \<Rightarrow> bool" and incr :: "'k \<Rightarrow> 's \<Rightarrow> int \<times> 's" and val :: "'k \<Rightarrow> 's \<Rightarrow> int"
  assumes incr_inv: "inv s \<Longrightarrow> inv (snd (incr k s))"
    and incr_result: "inv s \<Longrightarrow> fst (incr k s) = val k s + 1"
    and incr_val: "inv s \<Longrightarrow> val j (snd (incr k s)) = (if j = k then val k s + 1 else val j s)"
begin

lemma run_inv: "inv s \<Longrightarrow> inv (fold (\<lambda>k s. snd (incr k s)) ks s)"
  by (induction ks arbitrary: s) (simp_all add: incr_inv)

lemma run_val: "inv s \<Longrightarrow> val j (fold (\<lambda>k s. snd (incr k s)) ks s) = val j s + int (count_list ks j)"
  by (induction ks arbitrary: s) (simp_all add: incr_inv incr_val)

end

end
