(* ===== verification/Counters.thy ===== *)
theory Counters
  imports Tables
begin

text \<open>
  The per-chatter counters: the lurk service (\<^verbatim>\<open>internal/libraries/lurk/service.go\<close>), which reads the
  record, creates it when it is missing and writes it back, and the bread service
  (\<^verbatim>\<open>internal/libraries/bread/service.go\<close>), which increments in one upsert. Both are proved to be
  counters in the sense of the locale \<open>counter\<close>; only the second stays one when calls interleave.
\<close>

section \<open>The lurk service\<close>

record lurker =
  lk_id :: int
  lk_channel :: string
  lk_chatter :: string
  lk_count :: int

definition lk_key :: "lurker \<Rightarrow> string \<times> string" where
  "lk_key r = (lk_channel r, lk_chatter r)"

definition lk_with_id :: "lurker \<Rightarrow> int \<Rightarrow> lurker" where
  "lk_with_id r n = r\<lparr> lk_id := n \<rparr>"

datatype lurk_error = Lurk_Find_Failed | Lurk_Create_Failed | Lurk_No_Inserted_Id | Lurk_Update_Failed

text \<open>
  Positions of the calls that can fail: 0 the lookup, 1 the insert, 2 the driver's answer without an
  integer id, 3 the update.
\<close>

definition create_lurker ::
  "faults \<Rightarrow> lurker \<Rightarrow> lurker table \<Rightarrow> (lurk_error + lurker) \<times> lurker table" where
  "create_lurker fl new t =
     (if fl 1 then (Inl Lurk_Create_Failed, t)
      else case insert_row lk_with_id lk_key new t of
        None \<Rightarrow> (Inl Lurk_Create_Failed, t)
      | Some (r, t') \<Rightarrow>
          if fl 2 then (Inl Lurk_No_Inserted_Id, t')
          else (Inr \<lparr> lk_id = lk_id r, lk_channel = lk_channel new,
                     lk_chatter = lk_chatter new, lk_count = 0 \<rparr>, t'))"

definition get_lurker_for_message ::
  "faults \<Rightarrow> string \<Rightarrow> string \<Rightarrow> lurker table \<Rightarrow> (lurk_error + lurker) \<times> lurker table" where
  "get_lurker_for_message fl channel chatter t =
     (if fl 0 then (Inl Lurk_Find_Failed, t)
      else case find_one (\<lambda>r. lk_key r = (channel, chatter)) t of
        None \<Rightarrow> create_lurker fl
                  \<lparr> lk_id = 0, lk_channel = channel, lk_chatter = chatter, lk_count = 0 \<rparr> t
      | Some r \<Rightarrow> (Inr r, t))"

definition increment_lurk_count ::
  "faults \<Rightarrow> lurker \<Rightarrow> lurker table \<Rightarrow> (lurk_error + lurker) \<times> lurker table" where
  "increment_lurk_count fl r t =
     (let r' = r\<lparr> lk_count := lk_count r + 1 \<rparr> in
      if fl 3 then (Inl Lurk_Update_Failed, t)
      else case update_row lk_id r' t of
        None \<Rightarrow> (Inl Lurk_Update_Failed, t)
      | Some t' \<Rightarrow> (Inr r', t'))"

definition on_message ::
  "faults \<Rightarrow> string \<Rightarrow> string \<Rightarrow> lurker table \<Rightarrow> int \<times> lurker table" where
  "on_message fl channel chatter t =
     (case get_lurker_for_message fl channel chatter t of
        (Inl _, t') \<Rightarrow> (0, t')
      | (Inr r, t') \<Rightarrow>
          (case increment_lurk_count fl r t' of
             (Inl _, t'') \<Rightarrow> (0, t'')
           | (Inr r', t'') \<Rightarrow> (lk_count r', t'')))"

definition lurk_count :: "string \<times> string \<Rightarrow> lurker table \<Rightarrow> int" where
  "lurk_count k t = (case find_one (\<lambda>r. lk_key r = k) t of None \<Rightarrow> 0 | Some r \<Rightarrow> lk_count r)"

abbreviation wf_lurk :: "lurker table \<Rightarrow> bool" where
  "wf_lurk \<equiv> wf_table lk_id lk_key"

interpretation lurk_rows: row_type lk_id lk_key lk_with_id
  by unfold_locales (simp_all add: lk_key_def lk_with_id_def)

lemma lk_sel [simp]:
  "lk_id (lk_with_id r n) = n" "lk_count (lk_with_id r n) = lk_count r"
  "lk_channel (lk_with_id r n) = lk_channel r" "lk_chatter (lk_with_id r n) = lk_chatter r"
  by (simp_all add: lk_with_id_def)

text \<open>The lookup leaves the counts alone and hands out a row of the table it leaves.\<close>

lemma get_lurker_spec:
  assumes "wf_lurk t" and "get_lurker_for_message fl c u t = (res, t')"
  shows "wf_lurk t'" and "lurk_count k t' = lurk_count k t"
    and "res = Inr r \<Longrightarrow> r \<in> set (tb_rows t') \<and> lk_key r = (c, u) \<and> lk_count r = lurk_count (c, u) t"
proof -
  define new where "new = \<lparr> lk_id = 0, lk_channel = c, lk_chatter = u, lk_count = 0 \<rparr>"
  have key: "lk_key new = (c, u)" by (simp add: new_def lk_key_def)
  note d = get_lurker_for_message_def create_lurker_def new_def [symmetric]
  have *: "wf_lurk t' \<and> lurk_count k t' = lurk_count k t \<and>
      (\<forall>r. res = Inr r \<longrightarrow> r \<in> set (tb_rows t') \<and> lk_key r = (c, u) \<and> lk_count r = lurk_count (c, u) t)"
  proof (cases "find_one (\<lambda>r. lk_key r = (c, u)) t")
    case (Some r)
    then have "r \<in> set (tb_rows t)" "lk_key r = (c, u)"
      using lurk_rows.find_key_Some [OF assms(1)] by blast+
    then show ?thesis using assms Some by (auto simp: d lurk_count_def split: if_splits)
  next
    case None
    define r' where "r' = lk_with_id new (tb_serial t + 1)"
    define t1 where "t1 = \<lparr> tb_rows = tb_rows t @ [r'], tb_serial = tb_serial t + 1 \<rparr>"
    have ins: "insert_row lk_with_id lk_key new t = Some (r', t1)"
      unfolding r'_def t1_def using None key by (intro lurk_rows.insert_ok) simp
    have wf1: "wf_lurk t1" using lurk_rows.insert_wf [OF assms(1) ins] .
    have cnt: "lurk_count j t1 = lurk_count j t" for j
      using lurk_rows.insert_find [OF ins, of j] None key
      by (auto simp: lurk_count_def r'_def new_def)
    have zero: "lurk_count (c, u) t = 0" using None by (simp add: lurk_count_def)
    have row: "\<lparr> lk_id = lk_id r', lk_channel = lk_channel new, lk_chatter = lk_chatter new, lk_count = 0 \<rparr> = r'"
      by (simp add: r'_def lk_with_id_def new_def)
    have g: "get_lurker_for_message fl c u t =
        (if fl 0 then (Inl Lurk_Find_Failed, t) else if fl 1 then (Inl Lurk_Create_Failed, t)
         else if fl 2 then (Inl Lurk_No_Inserted_Id, t1) else (Inr r', t1))"
      using None ins row by (simp add: d)
    have r': "r' \<in> set (tb_rows t1)" "lk_key r' = (c, u)" "lk_count r' = 0"
      using key by (auto simp: t1_def r'_def lurk_rows.key_with_id new_def)
    show ?thesis using assms(2) wf1 cnt zero r' assms(1) unfolding g by (auto split: if_splits)
  qed
  then show "wf_lurk t'" and "lurk_count k t' = lurk_count k t" by auto
  show "res = Inr r \<Longrightarrow> r \<in> set (tb_rows t') \<and> lk_key r = (c, u) \<and> lk_count r = lurk_count (c, u) t"
    using * by auto
qed

text \<open>The increment of a row of the table: exactly one count moves, by one above the record's.\<close>

lemma increment_lurk_spec:
  assumes "wf_lurk t" and "r0 \<in> set (tb_rows t)" and "lk_id r = lk_id r0" and "lk_key r = lk_key r0"
  obtains t' where "increment_lurk_count fl r t =
       (if fl 3 then (Inl Lurk_Update_Failed, t) else (Inr (r\<lparr> lk_count := lk_count r + 1 \<rparr>), t'))"
    and "wf_lurk t'" and "r\<lparr> lk_count := lk_count r + 1 \<rparr> \<in> set (tb_rows t')"
    and "\<And>k. lurk_count k t' = (if k = lk_key r then lk_count r + 1 else lurk_count k t)"
proof -
  let ?r = "r\<lparr> lk_count := lk_count r + 1 \<rparr>"
  have k: "lk_key ?r = lk_key r" by (simp add: lk_key_def)
  obtain t' where t': "update_row lk_id ?r t = Some t'"
    using lurk_rows.update_ok [of r0 t ?r] assms(2,3) by auto
  have wf': "wf_lurk t'" using lurk_rows.update_wf [OF assms(1,2) _ _ t'] assms(3,4) k by simp
  have f: "find_one (\<lambda>x. lk_key x = j) t' = (if j = lk_key r then Some ?r else find_one (\<lambda>x. lk_key x = j) t)" for j
    using lurk_rows.update_find [OF assms(1,2) _ _ t', of j] assms(3,4) k by simp
  have "?r \<in> set (tb_rows t')" using lurk_rows.find_key_Some [OF wf'] f [of "lk_key r"] by simp
  moreover have "lurk_count j t' = (if j = lk_key r then lk_count r + 1 else lurk_count j t)" for j
    by (simp add: lurk_count_def f)
  moreover have "increment_lurk_count fl r t = (if fl 3 then (Inl Lurk_Update_Failed, t) else (Inr ?r, t'))"
    by (simp add: increment_lurk_count_def t')
  ultimately show ?thesis using that wf' by blast
qed

definition lurk_inv :: "lurker table \<Rightarrow> bool" where
  "lurk_inv t \<longleftrightarrow> wf_lurk t \<and> (\<forall>k. 0 \<le> lurk_count k t)"

lemma lurk_invD: "lurk_inv t \<Longrightarrow> wf_lurk t" "lurk_inv t \<Longrightarrow> 0 \<le> lurk_count k t"
  by (simp_all only: lurk_inv_def)

lemma lurk_count_empty: "lurk_count k empty_table = 0"
  by (simp add: lurk_count_def find_one_def empty_table_def)

lemma lurk_inv_empty: "lurk_inv empty_table"
  unfolding lurk_inv_def by (simp only: lurk_rows.wf_empty lurk_count_empty) simp

text \<open>One message: the reply is 0 or the new count, and the count moves exactly when the reply is not 0.\<close>

lemma on_message_spec:
  assumes "lurk_inv t"
  obtains n t' where "on_message fl c u t = (n, t')" and "lurk_inv t'"
    and "n = 0 \<and> (fl 0 \<or> fl 1 \<or> fl 2 \<or> fl 3) \<or> n = lurk_count (c, u) t + 1 \<and> \<not> fl 0 \<and> \<not> fl 3"
    and "\<And>k. lurk_count k t' = (if k = (c, u) \<and> n \<noteq> 0 then n else lurk_count k t)"
proof -
  obtain res t1 where g: "get_lurker_for_message fl c u t = (res, t1)" by (meson surj_pair)
  note w = lurk_invD(1) [OF assms]
  note G = get_lurker_spec [OF w g]
  show ?thesis
  proof (cases res)
    case (Inl e)
    have "fl 0 \<or> fl 1 \<or> fl 2"
      using g Inl lurk_rows.insert_ok [of "\<lparr> lk_id = 0, lk_channel = c, lk_chatter = u, lk_count = 0 \<rparr>" t]
      by (auto simp: get_lurker_for_message_def create_lurker_def lk_key_def split: if_splits option.splits prod.splits)
    then show ?thesis using g Inl G(1,2) lurk_invD(2) [OF assms]
      by (intro that [of 0 t1]) (auto simp: on_message_def lurk_inv_def)
  next
    case (Inr r)
    have r: "r \<in> set (tb_rows t1)" "lk_key r = (c, u)" "lk_count r = lurk_count (c, u) t"
      using G(3) [OF Inr] by auto
    have f0: "\<not> fl 0" using g Inr by (auto simp: get_lurker_for_message_def)
    obtain t2 where i: "increment_lurk_count fl r t1 =
         (if fl 3 then (Inl Lurk_Update_Failed, t1) else (Inr (r\<lparr> lk_count := lk_count r + 1 \<rparr>), t2))"
      and w2: "wf_lurk t2" and c2: "\<And>k. lurk_count k t2 = (if k = lk_key r then lk_count r + 1 else lurk_count k t1)"
      using increment_lurk_spec [OF G(1) r(1) refl refl, of fl] by metis
    show ?thesis
    proof (cases "fl 3")
      case True
      then show ?thesis using g Inr i G(1,2) lurk_invD(2) [OF assms]
        by (intro that [of 0 t1]) (auto simp: on_message_def lurk_inv_def)
    next
      case False
      have p: "0 \<le> lurk_count k t2" for k
        using c2 [of k] G(2) [of k] r(2,3) lurk_invD(2) [OF assms, of k] by (auto split: if_splits)
      have q: "lurk_count k t2 = (if k = (c, u) \<and> lurk_count (c, u) t + 1 \<noteq> 0
           then lurk_count (c, u) t + 1 else lurk_count k t)" for k
        using c2 [of k] G(2) [of k] r(2,3) lurk_invD(2) [OF assms, of "(c, u)"] by simp
      have "on_message fl c u t = (lurk_count (c, u) t + 1, t2)"
        using g Inr i False r(3) by (simp add: on_message_def)
      moreover have "lurk_inv t2" using w2 p by (simp only: lurk_inv_def simp_thms)
      ultimately show ?thesis using f0 False by (blast intro: that q)
    qed
  qed
qed

definition lurk_incr :: "string \<times> string \<Rightarrow> lurker table \<Rightarrow> int \<times> lurker table" where
  "lurk_incr k = on_message no_faults (fst k) (snd k)"

interpretation lurk_counter: counter lurk_inv lurk_incr lurk_count
proof
  fix s :: "lurker table" and k j :: "string \<times> string"
  assume i: "lurk_inv s"
  obtain n t' where m: "lurk_incr k s = (n, t')" "lurk_inv t'" "n = lurk_count k s + 1"
    and v: "\<And>l. lurk_count l t' = (if l = k \<and> n \<noteq> 0 then n else lurk_count l s)"
    using on_message_spec [OF i, of no_faults "fst k" "snd k"]
    by (auto simp: lurk_incr_def no_faults_def)
  have p: "n \<noteq> 0" using m(3) lurk_invD(2) [OF i, of k] by simp
  show "lurk_inv (snd (lurk_incr k s))" using m by simp
  show "fst (lurk_incr k s) = lurk_count k s + 1" using m by simp
  show "lurk_count j (snd (lurk_incr k s)) = (if j = k then lurk_count k s + 1 else lurk_count j s)"
    using m v [of j] p by simp
qed

section \<open>The bread service\<close>

record bread =
  br_id :: int
  br_channel :: string
  br_chatter :: string
  br_count :: int

definition br_key :: "bread \<Rightarrow> string \<times> string" where
  "br_key r = (br_channel r, br_chatter r)"

definition br_with_id :: "bread \<Rightarrow> int \<Rightarrow> bread" where
  "br_with_id r n = r\<lparr> br_id := n \<rparr>"

text \<open>
  The errors of the service. The second wraps the wrong variable in the code (the nil \<^verbatim>\<open>err\<close> and
  not \<^verbatim>\<open>errScan\<close>), so it carries no cause.
\<close>

datatype bread_error = Bread_Upsert_Failed | Bread_Format_Failed | Bread_Total_Failed

text \<open>
  \<^verbatim>\<open>INSERT ... ON CONFLICT DO UPDATE ... RETURNING\<close>: one atomic statement of the database.
\<close>

definition upsert_bread :: "string \<Rightarrow> string \<Rightarrow> bread table \<Rightarrow> bread \<times> bread table" where
  "upsert_bread channel chatter t =
     (case find_one (\<lambda>r. br_key r = (channel, chatter)) t of
        None \<Rightarrow>
          let r = \<lparr> br_id = tb_serial t + 1, br_channel = channel, br_chatter = chatter, br_count = 1 \<rparr>
          in (r, \<lparr> tb_rows = tb_rows t @ [r], tb_serial = tb_serial t + 1 \<rparr>)
      | Some r \<Rightarrow>
          (r\<lparr> br_count := br_count r + 1 \<rparr>,
           update_where (\<lambda>x. br_key x = (channel, chatter)) (\<lambda>x. x\<lparr> br_count := br_count x + 1 \<rparr>) t))"

text \<open>
  Positions: 0 the query is not sent, 1 the statement fails in the database (the driver reports it
  at \<^verbatim>\<open>Scan\<close>), 2 the committed row cannot be scanned.
\<close>

definition increment_count ::
  "faults \<Rightarrow> string \<Rightarrow> string \<Rightarrow> bread table \<Rightarrow> (bread_error + int) \<times> bread table" where
  "increment_count fl channel chatter t =
     (if fl 0 then (Inl Bread_Upsert_Failed, t)
      else if fl 1 then (Inl Bread_Format_Failed, t)
      else let (r, t') = upsert_bread channel chatter t
           in if fl 2 then (Inl Bread_Format_Failed, t') else (Inr (br_count r), t'))"

definition get_total_bread_for_channel :: "faults \<Rightarrow> string \<Rightarrow> bread table \<Rightarrow> bread_error + int" where
  "get_total_bread_for_channel fl channel t =
     (if fl 0 then Inl Bread_Total_Failed
      else Inr (sum_list (map br_count (find_rows (\<lambda>r. br_channel r = channel) t))))"

definition bread_count :: "string \<times> string \<Rightarrow> bread table \<Rightarrow> int" where
  "bread_count k t = (case find_one (\<lambda>r. br_key r = k) t of None \<Rightarrow> 0 | Some r \<Rightarrow> br_count r)"

abbreviation wf_bread :: "bread table \<Rightarrow> bool" where
  "wf_bread \<equiv> wf_table br_id br_key"

interpretation bread_rows: row_type br_id br_key br_with_id
  by unfold_locales (simp_all add: br_key_def br_with_id_def)

lemma map_update_key:
  assumes "\<And>x. g (f x) = g x"
  shows "map g (map (\<lambda>x. if P x then f x else x) xs) = map g xs"
  using assms by (induction xs) auto

lemma upsert_wf:
  assumes "wf_bread t"
  shows "wf_bread (snd (upsert_bread c u t))"
proof (cases "find_one (\<lambda>r. br_key r = (c, u)) t")
  case None
  let ?r = "\<lparr> br_id = 0, br_channel = c, br_chatter = u, br_count = 1 \<rparr>"
  have "insert_row br_with_id br_key ?r t = Some (upsert_bread c u t)"
    using None bread_rows.insert_ok [of ?r t] by (simp add: upsert_bread_def Let_def br_key_def br_with_id_def)
  then show ?thesis using bread_rows.insert_wf [OF assms] by (cases "upsert_bread c u t") simp
next
  case (Some r)
  let ?f = "\<lambda>x. x\<lparr> br_count := br_count x + 1 \<rparr>"
  have "br_key (?f x) = br_key x" "br_id (?f x) = br_id x" for x by (simp_all add: br_key_def)
  then show ?thesis using assms Some
    by (auto simp: upsert_bread_def wf_table_def update_where_def map_update_key simp del: map_map)
qed

lemma find_update_where:
  assumes "\<And>x. key (f x) = key x"
  shows "find (\<lambda>x. key x = k) (map (\<lambda>x. if key x = j then f x else x) xs) =
     map_option (\<lambda>x. if key x = j then f x else x) (find (\<lambda>x. key x = k) xs)"
  using assms by (induction xs) auto

lemma upsert_count:
  assumes "wf_bread t"
  shows "br_count (fst (upsert_bread c u t)) = bread_count (c, u) t + 1"
    and "bread_count k (snd (upsert_bread c u t)) = (if k = (c, u) then bread_count k t + 1 else bread_count k t)"
proof -
  let ?f = "\<lambda>x. x\<lparr> br_count := br_count x + 1 \<rparr>"
  have key: "br_key (?f x) = br_key x" for x by (simp add: br_key_def)
  show "br_count (fst (upsert_bread c u t)) = bread_count (c, u) t + 1"
    by (auto simp: upsert_bread_def Let_def bread_count_def split: option.splits)
  show "bread_count k (snd (upsert_bread c u t)) = (if k = (c, u) then bread_count k t + 1 else bread_count k t)"
  proof (cases "find_one (\<lambda>r. br_key r = (c, u)) t")
    case None
    then show ?thesis
      by (auto simp: upsert_bread_def Let_def bread_count_def find_one_def find_append br_key_def split: option.splits)
  next
    case (Some r)
    then show ?thesis using find_update_where [of br_key ?f k "(c, u)" "tb_rows t"] key
      by (auto simp: upsert_bread_def bread_count_def find_one_def update_where_def
          split: option.splits dest: find_Some_mem)
  qed
qed

definition bread_incr :: "string \<times> string \<Rightarrow> bread table \<Rightarrow> int \<times> bread table" where
  "bread_incr k t =
     (case increment_count no_faults (fst k) (snd k) t of (Inl _, t') \<Rightarrow> (0, t') | (Inr n, t') \<Rightarrow> (n, t'))"

lemma bread_incr_upsert: "bread_incr k t = (br_count (fst (upsert_bread (fst k) (snd k) t)), snd (upsert_bread (fst k) (snd k) t))"
  by (simp add: bread_incr_def increment_count_def no_faults_def split: prod.splits)

interpretation bread_counter: counter wf_bread bread_incr bread_count
  by unfold_locales (simp_all add: bread_incr_upsert upsert_wf upsert_count)

text \<open>The channel total and the per-chatter counts are two views of the same rows.\<close>

lemma bread_total_step:
  assumes "wf_bread t"
  shows "sum_list (map br_count (find_rows (\<lambda>r. br_channel r = ch) (snd (upsert_bread c u t)))) =
     sum_list (map br_count (find_rows (\<lambda>r. br_channel r = ch) t)) + (if c = ch then 1 else 0)"
proof (cases "find_one (\<lambda>r. br_key r = (c, u)) t")
  case None
  then show ?thesis by (simp add: upsert_bread_def Let_def find_rows_def)
next
  case (Some r)
  let ?g = "\<lambda>x. if br_key x = (c, u) then x\<lparr> br_count := br_count x + 1 \<rparr> else x"
  have "sum_list (map br_count (filter (\<lambda>r. br_channel r = ch) (map ?g xs))) =
      sum_list (map br_count (filter (\<lambda>r. br_channel r = ch) xs)) +
      (if c = ch then int (length (filter (\<lambda>x. br_key x = (c, u)) xs)) else 0)" for xs
    by (induction xs) (auto simp: br_key_def)
  moreover have "length (filter (\<lambda>x. br_key x = (c, u)) (tb_rows t)) = 1"
  proof -
    have r: "r \<in> set (tb_rows t)" "br_key r = (c, u)"
      using Some bread_rows.find_key_Some [OF assms] by blast+
    then have "filter (\<lambda>x. br_key x = br_key r) (tb_rows t) = [r]"
      using assms by (intro filter_distinct_key) (simp_all add: wf_table_def)
    then show ?thesis by (simp add: r(2))
  qed
  ultimately show ?thesis using Some by (auto simp: upsert_bread_def update_where_def find_rows_def)
qed

section \<open>Properties\<close>

text \<open>
  The value OnMessage returns after any history of fault-free messages, starting from an empty
  table, is the number of that chatter's earlier messages in that channel plus one: counts never mix
  chatters or channels.
\<close>

theorem lurk_reply_counts_messages:
  "fst (on_message no_faults c u (fold (\<lambda>k t. snd (lurk_incr k t)) ks empty_table)) =
     int (count_list ks (c, u)) + 1"
proof -
  note i = lurk_counter.run_inv [OF lurk_inv_empty, of ks]
    and v = lurk_counter.run_val [OF lurk_inv_empty, of "(c, u)" ks]
  show ?thesis using lurk_counter.incr_result [OF i, of "(c, u)"] v
    by (simp add: lurk_incr_def lurk_count_empty)
qed

text \<open>
  Under any pattern of database failures one message either answers 0 and leaves every count as it
  was, or answers the chatter's new count, which is the old one plus one; no other chatter's count
  moves, and the table stays well formed. An answer of 0 needs a failing call.
\<close>

theorem lurk_faults_never_miscount:
  assumes "lurk_inv t" and "on_message fl c u t = (n, t')"
  shows "lurk_inv t' \<and>
     (n = 0 \<and> (fl 0 \<or> fl 1 \<or> fl 2 \<or> fl 3) \<and> (\<forall>k. lurk_count k t' = lurk_count k t) \<or>
      n = lurk_count (c, u) t + 1 \<and>
      (\<forall>k. lurk_count k t' = (if k = (c, u) then n else lurk_count k t)))"
proof (rule on_message_spec [OF assms(1), of fl c u])
  fix n' t''
  assume m: "on_message fl c u t = (n', t'')" "lurk_inv t''"
    and r: "n' = 0 \<and> (fl 0 \<or> fl 1 \<or> fl 2 \<or> fl 3) \<or> n' = lurk_count (c, u) t + 1 \<and> \<not> fl 0 \<and> \<not> fl 3"
    and v: "\<And>k. lurk_count k t'' = (if k = (c, u) \<and> n' \<noteq> 0 then n' else lurk_count k t)"
  have e: "n' = n" "t'' = t'" using m(1) assms(2) by simp_all
  have p: "n = lurk_count (c, u) t + 1 \<longrightarrow> n \<noteq> 0" using lurk_invD(2) [OF assms(1), of "(c, u)"] by linarith
  show ?thesis
  proof (cases "n = 0")
    case True
    then have "\<forall>k. lurk_count k t' = lurk_count k t" using v unfolding e by metis
    then show ?thesis using r p True m(2) unfolding e by blast
  next
    case False
    then have "\<forall>k. lurk_count k t' = (if k = (c, u) then n else lurk_count k t)" using v unfolding e by metis
    then show ?thesis using r False m(2) unfolding e by blast
  qed
qed

theorem lurk_faults_never_miscount_witness:
  "lurk_inv (snd (on_message (\<lambda>i. i = 3) ''ch'' ''bob'' empty_table))"
  using lurk_faults_never_miscount [OF lurk_inv_empty, of "\<lambda>i. i = 3" "''ch''" "''bob''"]
  by (metis prod.collapse)

text \<open>
  The lurk counter is not safe under interleaving. When two messages of the same known chatter
  both read the record before either writes it back, both answer the same count and one increment is
  lost.
\<close>

theorem lurk_interleaving_loses_an_increment:
  assumes "lurk_inv t" and "find_one (\<lambda>r. lk_key r = (c, u)) t = Some r"
  shows "\<exists>t1 t2. get_lurker_for_message no_faults c u t = (Inr r, t) \<and>
     increment_lurk_count no_faults r t = (Inr (r\<lparr> lk_count := lk_count r + 1 \<rparr>), t1) \<and>
     increment_lurk_count no_faults r t1 = (Inr (r\<lparr> lk_count := lk_count r + 1 \<rparr>), t2) \<and>
     lurk_count (c, u) t2 = lurk_count (c, u) t + 1"
proof -
  note w = lurk_invD(1) [OF assms(1)]
  have r: "r \<in> set (tb_rows t)" "lk_key r = (c, u)" using lurk_rows.find_key_Some [OF w] assms(2) by blast+
  let ?r = "r\<lparr> lk_count := lk_count r + 1 \<rparr>"
  have f: "lk_id r = lk_id ?r" "lk_key r = lk_key ?r" "\<not> no_faults 3"
    by (simp_all add: lk_key_def no_faults_def)
  obtain t1 where t1: "increment_lurk_count no_faults r t = (Inr ?r, t1)" "wf_lurk t1" "?r \<in> set (tb_rows t1)"
    using increment_lurk_spec [OF w r(1) refl refl, of no_faults] by (metis no_faults_def)
  obtain t2 where t2: "increment_lurk_count no_faults r t1 = (Inr ?r, t2)"
      "lurk_count (lk_key r) t2 = lk_count r + 1"
    using increment_lurk_spec [OF t1(2,3), of r no_faults] f by metis
  show ?thesis using assms(2) t1 t2 r(2)
    by (auto simp: get_lurker_for_message_def no_faults_def lurk_count_def)
qed

theorem lurk_interleaving_loses_an_increment_witness:
  "let r = \<lparr> lk_id = 1, lk_channel = ''ch'', lk_chatter = ''bob'', lk_count = 4 \<rparr>;
       t = \<lparr> tb_rows = [r], tb_serial = 1 \<rparr>
   in \<exists>t1 t2. increment_lurk_count no_faults r t = (Inr (r\<lparr> lk_count := 5 \<rparr>), t1) \<and>
     increment_lurk_count no_faults r t1 = (Inr (r\<lparr> lk_count := 5 \<rparr>), t2)"
proof -
  let ?r = "\<lparr> lk_id = 1, lk_channel = ''ch'', lk_chatter = ''bob'', lk_count = 4 \<rparr>"
  have "lurk_inv \<lparr> tb_rows = [?r], tb_serial = 1 \<rparr>"
    unfolding lurk_inv_def by (simp add: wf_table_def lurk_count_def find_one_def)
  moreover have "find_one (\<lambda>r. lk_key r = (''ch'', ''bob'')) \<lparr> tb_rows = [?r], tb_serial = 1 \<rparr> = Some ?r"
    by (simp add: find_one_def lk_key_def)
  ultimately show ?thesis
    using lurk_interleaving_loses_an_increment [of _ "''ch''" "''bob''" ?r] by (force simp: Let_def)
qed

text \<open>
  The bread counter: after any sequence of increments from an empty table, each chatter's count is
  the number of its own increments, and the channel total that GetTotalBreadForChannel reports is the
  number of increments made in that channel.
\<close>

theorem bread_counts_and_total:
  "let t = fold (\<lambda>k t. snd (bread_incr k t)) ks empty_table
   in bread_count (c, u) t = int (count_list ks (c, u)) \<and>
      get_total_bread_for_channel no_faults c t = Inr (int (count_list (map fst ks) c))"
proof -
  have e: "wf_bread empty_table" by (rule bread_rows.wf_empty)
  have total: "wf_bread t \<Longrightarrow>
      sum_list (map br_count (find_rows (\<lambda>r. br_channel r = c) (fold (\<lambda>k t. snd (bread_incr k t)) ks t))) =
      sum_list (map br_count (find_rows (\<lambda>r. br_channel r = c) t)) + int (count_list (map fst ks) c)" for t
    by (induction ks arbitrary: t) (simp_all add: bread_incr_upsert upsert_wf bread_total_step)
  have z: "bread_count k empty_table = 0" "find_rows P (empty_table :: bread table) = []" for k P
    by (simp_all add: bread_count_def empty_table_def find_one_def find_rows_def)
  show ?thesis using bread_counter.run_val [OF e, of "(c, u)" ks] total [OF e]
    by (simp only: Let_def get_total_bread_for_channel_def no_faults_def z) simp
qed

end
