(* ===== verification/Fishing.thy ===== *)
theory Fishing
  imports Tables "HOL-Library.Multiset"
begin

text \<open>
  The fishing game (\<^verbatim>\<open>internal/libraries/fishing\<close>): the fish table and the weighted roll, the score
  records, the leaderboard line and GoFishing as a whole. \<^verbatim>\<open>rand.Intn\<close> is the argument \<open>roll\<close>, the
  order the database gives rows of equal score is the argument \<open>ord\<close>, and each database call can fail.
  Reply texts are constructors with the values the format strings interpolate.
\<close>

section \<open>Fish and scores\<close>

record fish =
  fish_value :: int
  fish_name :: string
  fish_scarcity :: int

record fish_score =
  fs_id :: int
  fs_channel :: string
  fs_chatter :: string
  fs_score :: int
  fs_fish :: "fish list"
  fs_trash :: int
  fs_times :: int

definition fs_key :: "fish_score \<Rightarrow> string \<times> string" where
  "fs_key r = (fs_channel r, fs_chatter r)"

definition fs_with_id :: "fish_score \<Rightarrow> int \<Rightarrow> fish_score" where
  "fs_with_id r n = r\<lparr> fs_id := n \<rparr>"

definition init_fish :: "fish list" where
  "init_fish =
     [\<lparr> fish_value = 5, fish_name = ''Blue Tang'', fish_scarcity = 1 \<rparr>,
      \<lparr> fish_value = 10, fish_name = ''Trout'', fish_scarcity = 1 \<rparr>,
      \<lparr> fish_value = 25, fish_name = ''Redfish'', fish_scarcity = 5 \<rparr>,
      \<lparr> fish_value = 30, fish_name = ''Black Grouper'', fish_scarcity = 10 \<rparr>,
      \<lparr> fish_value = 50, fish_name = ''Snook'', fish_scarcity = 50 \<rparr>,
      \<lparr> fish_value = 100, fish_name = ''Doctorfish'', fish_scarcity = 100 \<rparr>,
      \<lparr> fish_value = 1000, fish_name = ''Goliath Grouper'', fish_scarcity = 1000 \<rparr>]"

section \<open>The roll\<close>

text \<open>Scarcities are positive, where Go's truncating division and \<open>div\<close> agree.\<close>

definition fish_weight :: "fish \<Rightarrow> int" where
  "fish_weight f = 100 div fish_scarcity f"

definition nothing_weight :: int where
  "nothing_weight = 50"

definition trash_weight :: int where
  "trash_weight = 25"

definition total_weight :: "fish list \<Rightarrow> int" where
  "total_weight fishes = sum_list (map fish_weight fishes) + (nothing_weight + trash_weight)"

fun pick_fish :: "fish list \<Rightarrow> int \<Rightarrow> int \<Rightarrow> fish option" where
  "pick_fish [] current roll = None"
| "pick_fish (f # fs) current roll =
     (let current' = current + fish_weight f
      in if roll < current' then Some f else pick_fish fs current' roll)"

text \<open>Returns the fish caught, whether trash was caught, and whether nothing was caught.\<close>

definition roll_for_fish :: "int \<Rightarrow> fish option \<times> bool \<times> bool" where
  "roll_for_fish roll =
     (if roll < nothing_weight then (None, False, True)
      else let roll' = roll - nothing_weight
           in if roll' < trash_weight then (None, True, False)
              else (pick_fish init_fish 0 (roll' - trash_weight), False, False))"

section \<open>Score records\<close>

datatype fishing_error =
    Score_Find_Failed | Score_Create_Failed | Score_No_Inserted_Id | Score_Update_Failed
  | Board_Fetch_Failed | Invalid_Placement nat

definition new_fish_score :: "string \<Rightarrow> string \<Rightarrow> fish_score" where
  "new_fish_score channel chatter =
     \<lparr> fs_id = 0, fs_channel = channel, fs_chatter = chatter, fs_score = 0, fs_fish = [],
       fs_trash = 0, fs_times = 0 \<rparr>"

text \<open>
  Positions of the calls that can fail: 0 the lookup, 1 the insert, 2 the driver's answer without an
  id, 3 the update before the leaderboard query, 4 the query for the last place, 5 the leaderboard,
  6 the final update, 7 the sum across chats.
\<close>

definition get_chatter_fish_score ::
  "faults \<Rightarrow> string \<Rightarrow> string \<Rightarrow> fish_score table \<Rightarrow> (fishing_error + fish_score) \<times> fish_score table" where
  "get_chatter_fish_score fl channel chatter t =
     (if fl 0 then (Inl Score_Find_Failed, t)
      else case find_one (\<lambda>r. fs_key r = (channel, chatter)) t of
        Some r \<Rightarrow> (Inr r, t)
      | None \<Rightarrow>
          if fl 1 then (Inl Score_Create_Failed, t)
          else case insert_row fs_with_id fs_key (new_fish_score channel chatter) t of
            None \<Rightarrow> (Inl Score_Create_Failed, t)
          | Some (r, t') \<Rightarrow>
              if fl 2 then (Inl Score_No_Inserted_Id, t')
              else (Inr ((new_fish_score channel chatter)\<lparr> fs_id := fs_id r \<rparr>), t'))"

definition update_score ::
  "bool \<Rightarrow> fish_score \<Rightarrow> fish_score table \<Rightarrow> fishing_error option \<times> fish_score table" where
  "update_score failing r t =
     (if failing then (Some Score_Update_Failed, t)
      else case update_row fs_id r t of
        None \<Rightarrow> (Some Score_Update_Failed, t)
      | Some t' \<Rightarrow> (None, t'))"

definition chatter_score_across_all_chats :: "faults \<Rightarrow> string \<Rightarrow> fish_score table \<Rightarrow> int" where
  "chatter_score_across_all_chats fl chatter t =
     (if fl 7 then 0 else sum_list (map fs_score (find_rows (\<lambda>r. fs_chatter r = chatter) t)))"

section \<open>The leaderboard\<close>

type_synonym ordering = "fish_score list \<Rightarrow> fish_score list"

text \<open>\<^verbatim>\<open>OrderBy("-score")\<close> sorts by falling score; ties come in an order the database chooses.\<close>

definition orders_by_score :: "ordering \<Rightarrow> bool" where
  "orders_by_score ord \<longleftrightarrow>
     (\<forall>xs. mset (ord xs) = mset xs \<and> sorted_wrt (\<lambda>a b. fs_score a \<ge> fs_score b) (ord xs))"

definition fetch_leaderboard ::
  "ordering \<Rightarrow> faults \<Rightarrow> string \<Rightarrow> fish_score table \<Rightarrow> fishing_error + fish_score list" where
  "fetch_leaderboard ord fl channel t =
     (if fl 5 then Inl Board_Fetch_Failed
      else Inr (take 5 (ord (find_rows (\<lambda>r. fs_channel r = channel) t))))"

text \<open>Any error of the query, not only a missing fifth place, reads as a score of 0.\<close>

definition fetch_last_place_leaderboard ::
  "ordering \<Rightarrow> faults \<Rightarrow> string \<Rightarrow> fish_score table \<Rightarrow> int" where
  "fetch_last_place_leaderboard ord fl channel t =
     (if fl 4 then 0
      else case drop 4 (ord (find_rows (\<lambda>r. fs_channel r = channel) t)) of
        [] \<Rightarrow> 0
      | r # _ \<Rightarrow> fs_score r)"

text \<open>The loop over the leaderboard keeps the last match; 0 is no match.\<close>

fun chatter_place :: "string \<Rightarrow> nat \<Rightarrow> fish_score list \<Rightarrow> nat \<Rightarrow> nat" where
  "chatter_place chatter i [] place = place"
| "chatter_place chatter i (r # rs) place =
     chatter_place chatter (i + 1) rs (if fs_chatter r = chatter then i + 1 else place)"

datatype catch_line =
    No_Line
  | Caught string string int
  | In_Place catch_line nat
  | Old_Boot
  | Nothing_Bit
  | Went_Wrong

definition leaderboard_update_message ::
  "ordering \<Rightarrow> faults \<Rightarrow> string \<Rightarrow> int \<Rightarrow> string \<Rightarrow> catch_line \<Rightarrow> fish_score table
     \<Rightarrow> catch_line \<times> fishing_error option" where
  "leaderboard_update_message ord fl channel chatter_score chatter msg t =
     (if fetch_last_place_leaderboard ord fl channel t < chatter_score
      then case fetch_leaderboard ord fl channel t of
          Inl e \<Rightarrow> (msg, Some e)
        | Inr board \<Rightarrow>
            let place = chatter_place chatter 0 board 0
            in if 1 \<le> place \<and> place \<le> 5 then (In_Place msg place, None)
               else (msg, Some (Invalid_Placement place))
      else (msg, None))"

section \<open>GoFishing\<close>

datatype fishing_reply =
    Score_Unavailable
  | Report catch_line int int int int

text \<open>The branch that caught a fish saves the score before it asks for the leaderboard.\<close>

definition catch_fish ::
  "ordering \<Rightarrow> faults \<Rightarrow> string \<Rightarrow> string \<Rightarrow> fish option \<Rightarrow> fish_score \<Rightarrow> fish_score table
     \<Rightarrow> fish_score \<times> catch_line \<times> fish_score table" where
  "catch_fish ord fl channel chatter fsh r t =
     (case fsh of
        None \<Rightarrow> (r, No_Line, t)
      | Some f \<Rightarrow>
          let r' = r\<lparr> fs_fish := fs_fish r @ [f], fs_score := fs_score r + fish_value f \<rparr>;
              t' = snd (update_score (fl 3) r' t)
          in (r', fst (leaderboard_update_message ord fl channel (fs_score r') chatter
                         (Caught chatter (fish_name f) (fish_value f)) t'), t'))"

definition go_fishing ::
  "ordering \<Rightarrow> faults \<Rightarrow> int \<Rightarrow> string \<Rightarrow> string \<Rightarrow> fish_score table \<Rightarrow> fishing_reply \<times> fish_score table" where
  "go_fishing ord fl roll channel chatter t =
     (case get_chatter_fish_score fl channel chatter t of
        (Inl _, t1) \<Rightarrow> (Score_Unavailable, t1)
      | (Inr rec0, t1) \<Rightarrow>
          let rec1 = rec0\<lparr> fs_times := fs_times rec0 + 1 \<rparr>;
              (fsh, trash_caught, nothing_caught) = roll_for_fish roll;
              (rec2, msg2, t2) = catch_fish ord fl channel chatter fsh rec1 t1;
              (rec3, msg3) =
                (if trash_caught then (rec2\<lparr> fs_trash := fs_trash rec2 + 1 \<rparr>, Old_Boot) else (rec2, msg2));
              msg4 = (if nothing_caught then Nothing_Bit else msg3);
              msg5 = (if fsh = None \<and> \<not> trash_caught \<and> \<not> nothing_caught then Went_Wrong else msg4);
              t3 = snd (update_score (fl 6) rec3 t2)
          in (Report msg5 (int (length (fs_fish rec3))) (fs_trash rec3) (fs_score rec3)
                (chatter_score_across_all_chats fl chatter t3), t3))"

text \<open>The two score listings of the service.\<close>

definition get_channel_fish_score ::
  "ordering \<Rightarrow> faults \<Rightarrow> string \<Rightarrow> fish_score table \<Rightarrow> fishing_error + fish_score list" where
  "get_channel_fish_score ord fl channel t =
     (if fl 0 then Inl Board_Fetch_Failed
      else Inr (ord (find_rows (\<lambda>r. fs_channel r = channel \<and> fs_chatter r \<noteq> channel) t)))"

definition get_user_fish_score :: "faults \<Rightarrow> string \<Rightarrow> fish_score table \<Rightarrow> fishing_error + fish_score list" where
  "get_user_fish_score fl user t =
     (if fl 0 then Inl Board_Fetch_Failed else Inr (find_rows (\<lambda>r. fs_chatter r = user) t))"

section \<open>The records a cast leaves\<close>

interpretation fs_rows: row_type fs_id fs_key fs_with_id
  by unfold_locales (simp_all add: fs_key_def fs_with_id_def)

abbreviation wf_fishing :: "fish_score table \<Rightarrow> bool" where
  "wf_fishing \<equiv> wf_table fs_id fs_key"

text \<open>What every record says about its own history.\<close>

definition score_ok :: "fish_score \<Rightarrow> bool" where
  "score_ok r \<longleftrightarrow>
     fs_score r = sum_list (map fish_value (fs_fish r)) \<and> set (fs_fish r) \<subseteq> set init_fish \<and>
     0 \<le> fs_trash r \<and> int (length (fs_fish r)) + fs_trash r \<le> fs_times r"

definition fishing_inv :: "fish_score table \<Rightarrow> bool" where
  "fishing_inv t \<longleftrightarrow> wf_fishing t \<and> (\<forall>r \<in> set (tb_rows t). score_ok r)"

lemma fishing_invD: "fishing_inv t \<Longrightarrow> wf_fishing t" "fishing_inv t \<Longrightarrow> r \<in> set (tb_rows t) \<Longrightarrow> score_ok r"
  by (simp_all add: fishing_inv_def)

lemma score_ok_new: "score_ok (fs_with_id (new_fish_score c u) n)"
  by (simp add: score_ok_def new_fish_score_def fs_with_id_def)

text \<open>The record after a cast, as a function of the record before and the roll.\<close>

definition record_after :: "int \<Rightarrow> fish_score \<Rightarrow> fish_score" where
  "record_after roll r =
     (case roll_for_fish roll of (fsh, trash, _) \<Rightarrow>
        r\<lparr> fs_times := fs_times r + 1,
           fs_fish := fs_fish r @ (case fsh of None \<Rightarrow> [] | Some f \<Rightarrow> [f]),
           fs_score := fs_score r + (case fsh of None \<Rightarrow> 0 | Some f \<Rightarrow> fish_value f),
           fs_trash := fs_trash r + (if trash then 1 else 0) \<rparr>)"

lemma record_after_keeps [simp]: "fs_id (record_after roll r) = fs_id r" "fs_key (record_after roll r) = fs_key r"
  by (simp_all add: record_after_def fs_key_def split: prod.splits)

lemma pick_fish_mem: "pick_fish fs c roll = Some f \<Longrightarrow> f \<in> set fs"
  by (induction fs c roll rule: pick_fish.induct) (auto simp: Let_def split: if_splits)

lemma roll_fish_mem: "roll_for_fish roll = (Some f, b, n) \<Longrightarrow> f \<in> set init_fish \<and> \<not> b"
  by (auto simp: roll_for_fish_def Let_def split: if_splits dest: pick_fish_mem)

lemma record_after_ok: "score_ok r \<Longrightarrow> score_ok (record_after roll r)"
  by (cases "roll_for_fish roll"; cases "fst (roll_for_fish roll)")
     (auto simp: record_after_def score_ok_def dest: roll_fish_mem)

definition others_kept :: "string \<times> string \<Rightarrow> fish_score table \<Rightarrow> fish_score table \<Rightarrow> bool" where
  "others_kept key t t' \<longleftrightarrow>
     (\<forall>k. k \<noteq> key \<longrightarrow> find_one (\<lambda>r. fs_key r = k) t' = find_one (\<lambda>r. fs_key r = k) t)"

lemma others_kept_refl: "others_kept k t t"
  by (simp add: others_kept_def)

lemma others_kept_trans: "others_kept k t t1 \<Longrightarrow> others_kept k t1 t2 \<Longrightarrow> others_kept k t t2"
  unfolding others_kept_def by metis

text \<open>The record a cast starts from: the chatter's row, or the new row the service inserts.\<close>

definition current_record :: "string \<Rightarrow> string \<Rightarrow> fish_score table \<Rightarrow> fish_score" where
  "current_record c u t =
     (case find_one (\<lambda>r. fs_key r = (c, u)) t of
        Some r \<Rightarrow> r
      | None \<Rightarrow> fs_with_id (new_fish_score c u) (tb_serial t + 1))"

lemma get_score_spec:
  assumes "fishing_inv t" and "get_chatter_fish_score fl c u t = (res, t')"
  shows "fishing_inv t'"
    and "others_kept (c, u) t t'"
    and "\<And>r. res = Inr r \<Longrightarrow> r \<in> set (tb_rows t') \<and> fs_key r = (c, u) \<and> r = current_record c u t"
    and "\<And>e. res = Inl e \<Longrightarrow> fl 0 \<or> fl 1 \<or> fl 2"
proof -
  note w = fishing_invD(1) [OF assms(1)]
  have "fishing_inv t' \<and> others_kept (c, u) t t' \<and>
      (\<forall>r. res = Inr r \<longrightarrow> r \<in> set (tb_rows t') \<and> fs_key r = (c, u) \<and> r = current_record c u t) \<and> (\<forall>e. res = Inl e \<longrightarrow> fl 0 \<or> fl 1 \<or> fl 2)"
  proof (cases "find_one (\<lambda>r. fs_key r = (c, u)) t")
    case (Some r)
    then have "r \<in> set (tb_rows t)" "fs_key r = (c, u)" using fs_rows.find_key_Some [OF w] by blast+
    then show ?thesis using assms Some others_kept_refl by (auto simp: get_chatter_fish_score_def current_record_def split: if_splits)
  next
    case None
    let ?n = "new_fish_score c u"
    have k: "fs_key ?n = (c, u)" by (simp add: new_fish_score_def fs_key_def)
    obtain t1 where i: "insert_row fs_with_id fs_key ?n t = Some (fs_with_id ?n (tb_serial t + 1), t1)"
      and w1: "wf_fishing t1" and s1: "set (tb_rows t1) = insert (fs_with_id ?n (tb_serial t + 1)) (set (tb_rows t))"
      and f1: "\<And>k. find_one (\<lambda>x. fs_key x = k) t1 =
          (if k = fs_key ?n then Some (fs_with_id ?n (tb_serial t + 1)) else find_one (\<lambda>x. fs_key x = k) t)"
      using fs_rows.insert_spec [OF w, of ?n] None k by metis
    have g: "get_chatter_fish_score fl c u t =
        (if fl 0 then (Inl Score_Find_Failed, t) else if fl 1 then (Inl Score_Create_Failed, t)
         else if fl 2 then (Inl Score_No_Inserted_Id, t1) else (Inr (fs_with_id ?n (tb_serial t + 1)), t1))"
      using None i by (simp add: get_chatter_fish_score_def fs_with_id_def)
    have inv1: "fishing_inv t1" using w1 s1 assms(1) score_ok_new by (auto simp: fishing_inv_def)
    have f2: "others_kept (c, u) t t1"
      using f1 k by (simp add: others_kept_def)
    show ?thesis
    proof (cases "fl 0 \<or> fl 1 \<or> fl 2")
      case True
      then have "\<exists>e. res = Inl e" and "t' = t \<or> t' = t1" using assms(2) unfolding g by (auto split: if_splits)
      then show ?thesis using True inv1 f2 assms(1) others_kept_refl by auto
    next
      case False
      then have "res = Inr (fs_with_id ?n (tb_serial t + 1))" and "t' = t1" using assms(2) unfolding g by auto
      then show ?thesis using inv1 f2 s1 k fs_rows.key_with_id None by (simp add: current_record_def)
    qed
  qed
  then show "fishing_inv t'"
    and "others_kept (c, u) t t'"
    and "\<And>r. res = Inr r \<Longrightarrow> r \<in> set (tb_rows t') \<and> fs_key r = (c, u) \<and> r = current_record c u t"
    and "\<And>e. res = Inl e \<Longrightarrow> fl 0 \<or> fl 1 \<or> fl 2" by blast+
qed

lemma update_score_spec:
  assumes "fishing_inv t" and "r0 \<in> set (tb_rows t)" and "fs_id r = fs_id r0" and "fs_key r = fs_key r0"
    and "score_ok r" and "snd (update_score b r t) = t'"
  shows "fishing_inv t'" and "others_kept (fs_key r) t t'"
    and "\<exists>x \<in> set (tb_rows t'). fs_id r = fs_id x \<and> fs_key r = fs_key x"
    and "\<not> b \<Longrightarrow> r \<in> set (tb_rows t')"
proof -
  have *: "fishing_inv t' \<and> others_kept (fs_key r) t t' \<and>
     (\<exists>x \<in> set (tb_rows t'). fs_id r = fs_id x \<and> fs_key r = fs_key x) \<and> (\<not> b \<longrightarrow> r \<in> set (tb_rows t'))"
  proof (cases b)
    case True
    then have "t' = t" using assms(6) by (simp add: update_score_def)
    then show ?thesis using assms True others_kept_refl by blast
  next
    case False
    obtain t1 where u: "update_row fs_id r t = Some t1" "wf_fishing t1" "r \<in> set (tb_rows t1)"
        "set (tb_rows t1) \<subseteq> insert r (set (tb_rows t))"
      and f: "\<And>k. find_one (\<lambda>x. fs_key x = k) t1 = (if k = fs_key r then Some r else find_one (\<lambda>x. fs_key x = k) t)"
      using fs_rows.update_spec [OF fishing_invD(1) [OF assms(1)] assms(2-4)] by metis
    have "t1 = t'" using assms(6) False u(1) by (simp add: update_score_def)
    moreover have "fishing_inv t1" using u assms(1,5) by (auto simp: fishing_inv_def)
    moreover have "others_kept (fs_key r) t t1" unfolding others_kept_def using f by metis
    ultimately show ?thesis using u(3) by blast
  qed
  then show "fishing_inv t'" and "others_kept (fs_key r) t t'"
    and "\<exists>x \<in> set (tb_rows t'). fs_id r = fs_id x \<and> fs_key r = fs_key x" by blast+
  show "\<not> b \<Longrightarrow> r \<in> set (tb_rows t')" using * by blast
qed

lemma catch_fish_spec:
  assumes "fishing_inv t" and "r \<in> set (tb_rows t)" and "roll_for_fish roll = (fsh, tr, no)"
    and "catch_fish ord fl c u fsh (r\<lparr> fs_times := fs_times r + 1 \<rparr>) t = (r', m, t')"
  shows "fishing_inv t'" and "others_kept (fs_key r) t t'"
    and "\<exists>x \<in> set (tb_rows t'). fs_id r = fs_id x \<and> fs_key r = fs_key x"
    and "(if tr then r'\<lparr> fs_trash := fs_trash r' + 1 \<rparr> else r') = record_after roll r"
proof -
  have *: "fishing_inv t' \<and> others_kept (fs_key r) t t' \<and>
     (\<exists>x \<in> set (tb_rows t'). fs_id r = fs_id x \<and> fs_key r = fs_key x) \<and>
     (if tr then r'\<lparr> fs_trash := fs_trash r' + 1 \<rparr> else r') = record_after roll r"
  proof (cases fsh)
    case None
    then have "r' = r\<lparr> fs_times := fs_times r + 1 \<rparr>" and "t' = t" using assms(4) by (auto simp: catch_fish_def)
    then show ?thesis using assms(1-3) None others_kept_refl by (auto simp: record_after_def)
  next
    case (Some f)
    have ra: "record_after roll r = r\<lparr> fs_times := fs_times r + 1, fs_fish := fs_fish r @ [f],
        fs_score := fs_score r + fish_value f \<rparr>" and tr: "\<not> tr"
      using roll_fish_mem [of roll f tr no] assms(3) Some by (auto simp: record_after_def)
    have ok: "score_ok (record_after roll r)" using record_after_ok fishing_invD(2) [OF assms(1,2)] .
    have r': "r' = record_after roll r" and t': "snd (update_score (fl 3) (record_after roll r) t) = t'"
      using assms(4) by (auto simp: catch_fish_def Some ra Let_def)
    show ?thesis using update_score_spec [OF assms(1,2) _ _ ok t'] tr r' by (simp add: record_after_keeps)
  qed
  then show "fishing_inv t'" and "others_kept (fs_key r) t t'"
    and "\<exists>x \<in> set (tb_rows t'). fs_id r = fs_id x \<and> fs_key r = fs_key x"
    and "(if tr then r'\<lparr> fs_trash := fs_trash r' + 1 \<rparr> else r') = record_after roll r" by blast+
qed

lemma go_fishing_spec:
  assumes "fishing_inv t" and "go_fishing ord fl roll c u t = (reply, t')"
    and "r = record_after roll (current_record c u t)"
  shows "fishing_inv t'" and "others_kept (c, u) t t'"
    and "\<not> fl 0 \<Longrightarrow> \<not> fl 1 \<Longrightarrow> \<not> fl 2 \<Longrightarrow> \<not> fl 6 \<Longrightarrow>
         (\<exists>line. reply = Report line (int (length (fs_fish r))) (fs_trash r) (fs_score r)
                    (chatter_score_across_all_chats fl u t')) \<and>
         find_one (\<lambda>x. fs_key x = (c, u)) t' = Some r"
proof -
  obtain res t1 where g: "get_chatter_fish_score fl c u t = (res, t1)" by (meson surj_pair)
  note G = get_score_spec [OF assms(1) g]
  obtain fsh tr no where roll: "roll_for_fish roll = (fsh, tr, no)" by (meson prod_cases3)
  have *: "fishing_inv t' \<and> others_kept (c, u) t t' \<and>
     (\<not> fl 0 \<and> \<not> fl 1 \<and> \<not> fl 2 \<and> \<not> fl 6 \<longrightarrow>
        (\<exists>line. reply = Report line (int (length (fs_fish r))) (fs_trash r) (fs_score r)
                    (chatter_score_across_all_chats fl u t')) \<and>
        find_one (\<lambda>x. fs_key x = (c, u)) t' = Some r)"
  proof (cases res)
    case (Inl e)
    then have "t' = t1" using assms(2) g by (simp add: go_fishing_def)
    then show ?thesis using G(1,2) G(4) [OF Inl] by blast
  next
    case (Inr r0)
    have r0: "r0 \<in> set (tb_rows t1)" "fs_key r0 = (c, u)" and r: "r = record_after roll r0"
      using G(3) [OF Inr] assms(3) by auto
    obtain r2 m2 t2 where c2: "catch_fish ord fl c u fsh (r0\<lparr> fs_times := fs_times r0 + 1 \<rparr>) t1 = (r2, m2, t2)"
      by (meson prod_cases3)
    note C = catch_fish_spec [OF G(1) r0(1) roll c2, folded r]
    have ok: "score_ok r" unfolding r using record_after_ok fishing_invD(2) [OF G(1) r0(1)] .
    have key: "fs_key r = (c, u)" and id: "fs_id r = fs_id r0" using r r0(2) by simp_all
    obtain x where x: "x \<in> set (tb_rows t2)" "fs_id r = fs_id x" "fs_key r = fs_key x"
      using C(3) key id r0(2) by auto
    obtain t3 where t3: "snd (update_score (fl 6) r t2) = t3" by blast
    note U = update_score_spec [OF C(1) x ok t3]
    have eq: "\<exists>line. (reply, t') = (Report line (int (length (fs_fish r))) (fs_trash r) (fs_score r)
         (chatter_score_across_all_chats fl u t3), t3)"
      using t3 unfolding assms(2) [symmetric] C(4) [symmetric]
      by (cases tr) (simp_all add: go_fishing_def g Inr roll c2 Let_def)
    then have t': "t' = t3" by blast
    have "others_kept (c, u) t t'"
      using others_kept_trans [OF others_kept_trans [OF G(2)]] C(2) U(2) key r0(2) t' by simp
    moreover have "find_one (\<lambda>x. fs_key x = (c, u)) t' = Some r" if "\<not> fl 6"
      unfolding t' using fs_rows.find_key_Some [OF fishing_invD(1) [OF U(1)]] U(4) [OF that] key by blast
    ultimately show ?thesis using eq t' U(1) by blast
  qed
  then show "fishing_inv t'" and "others_kept (c, u) t t'" by blast+
  show "\<not> fl 0 \<Longrightarrow> \<not> fl 1 \<Longrightarrow> \<not> fl 2 \<Longrightarrow> \<not> fl 6 \<Longrightarrow>
         (\<exists>line. reply = Report line (int (length (fs_fish r))) (fs_trash r) (fs_score r)
                    (chatter_score_across_all_chats fl u t')) \<and>
         find_one (\<lambda>x. fs_key x = (c, u)) t' = Some r" using * by blast
qed

section \<open>Properties\<close>

text \<open>
  The roll, value by value: of the 308 equally likely values 50 are nothing, 25 trash, 100 a Blue
  Tang, 100 a Trout, 20 a Redfish, 10 a Black Grouper, 2 a Snook and 1 a Doctorfish. The three results
  are exclusive and the "something went wrong" branch is never taken.
\<close>

theorem roll_outcomes:
  assumes "0 \<le> roll" and "roll < total_weight init_fish"
  shows "(case roll_for_fish roll of (fsh, trash, nothing) \<Rightarrow> (map_option fish_name fsh, trash, nothing)) =
     (if roll < 50 then (None, False, True)
      else if roll < 75 then (None, True, False)
      else (Some (if roll < 175 then ''Blue Tang'' else if roll < 275 then ''Trout''
                  else if roll < 295 then ''Redfish'' else if roll < 305 then ''Black Grouper''
                  else if roll < 307 then ''Snook'' else ''Doctorfish''), False, False))"
  using assms
  by (simp add: roll_for_fish_def init_fish_def total_weight_def fish_weight_def nothing_weight_def trash_weight_def)

theorem roll_outcomes_witness:
  "map_option fish_name (fst (roll_for_fish 306)) = Some ''Snook''"
  using roll_outcomes [of 306]
  by (simp add: total_weight_def init_fish_def fish_weight_def nothing_weight_def trash_weight_def split: prod.splits)

text \<open>
  The Goliath Grouper cannot be caught: its scarcity of 1000 makes the integer weight 100 / 1000
  zero, so no value the random generator can return selects the fish worth 1000 points.
\<close>

theorem goliath_never_caught:
  assumes "roll < total_weight init_fish"
  shows "\<exists>f \<in> set init_fish. fish_name f = ''Goliath Grouper'' \<and> fish_weight f = 0 \<and>
     fst (roll_for_fish roll) \<noteq> Some f"
  using assms
  by (simp add: roll_for_fish_def init_fish_def total_weight_def fish_weight_def nothing_weight_def trash_weight_def)

theorem goliath_never_caught_witness:
  "\<exists>f \<in> set init_fish. fish_name f = ''Goliath Grouper'' \<and> fst (roll_for_fish 307) \<noteq> Some f"
proof -
  have "(307 :: int) < total_weight init_fish"
    by (simp add: total_weight_def init_fish_def fish_weight_def nothing_weight_def trash_weight_def)
  from goliath_never_caught [OF this] show ?thesis by blast
qed

text \<open>
  Whatever calls fail and whatever is rolled, a cast keeps every record consistent (the score is
  the sum of the fish it lists, which are fish of the table, and fish and trash never outnumber the
  casts), keeps ids and keys unique, and leaves every other chatter's record alone.
\<close>

theorem cast_keeps_scores_consistent:
  assumes "fishing_inv t"
  shows "fishing_inv (snd (go_fishing ord fl roll c u t)) \<and>
     (\<forall>k. k \<noteq> (c, u) \<longrightarrow> find_one (\<lambda>r. fs_key r = k) (snd (go_fishing ord fl roll c u t)) =
        find_one (\<lambda>r. fs_key r = k) t)"
proof -
  obtain reply t' where g: "go_fishing ord fl roll c u t = (reply, t')" by (meson surj_pair)
  show ?thesis using go_fishing_spec(1,2) [OF assms g refl] unfolding g others_kept_def snd_conv by blast
qed

lemma fishing_inv_empty: "fishing_inv empty_table"
  using fs_rows.wf_empty by (simp add: fishing_inv_def empty_table_def)

theorem cast_keeps_scores_consistent_witness:
  "fishing_inv (snd (go_fishing (\<lambda>xs. xs) no_faults 100 ''ch'' ''bob'' empty_table))"
  using cast_keeps_scores_consistent [OF fishing_inv_empty] by blast

text \<open>
  When no call fails, the figures of the reply (fish, trash, score, score over all chats) are those
  of the record the cast leaves in the database, and that record is the chatter's record before (a new
  one when there was none) with one more cast and exactly the rolled fish or trash.
\<close>

theorem cast_report_matches_database:
  assumes "fishing_inv t"
  shows "let r = record_after roll (current_record c u t)
     in \<exists>line t'. go_fishing ord no_faults roll c u t =
          (Report line (int (length (fs_fish r))) (fs_trash r) (fs_score r)
             (sum_list (map fs_score (find_rows (\<lambda>x. fs_chatter x = u) t'))), t') \<and>
        find_one (\<lambda>x. fs_key x = (c, u)) t' = Some r"
proof -
  obtain reply t' where g: "go_fishing ord no_faults roll c u t = (reply, t')" by (meson surj_pair)
  show ?thesis using go_fishing_spec(3) [OF assms g refl] g
    by (auto simp: no_faults_def Let_def chatter_score_across_all_chats_def)
qed

theorem cast_report_matches_database_witness:
  "\<exists>line total t'. go_fishing (\<lambda>xs. xs) no_faults 100 ''ch'' ''bob'' empty_table = (Report line 1 0 5 total, t')"
proof -
  have "let r = record_after 100 (current_record ''ch'' ''bob'' empty_table)
     in length (fs_fish r) = 1 \<and> fs_trash r = 0 \<and> fs_score r = 5"
    by code_simp
  then show ?thesis
    using cast_report_matches_database [OF fishing_inv_empty, of 100 "''ch''" "''bob''" "\<lambda>xs. xs"]
    by (auto simp: Let_def)
qed

lemma chatter_place_unique:
  assumes "j < length xs" and "fs_chatter (xs ! j) = u"
    and "\<And>m. m < length xs \<Longrightarrow> fs_chatter (xs ! m) = u \<Longrightarrow> m = j"
  shows "chatter_place u i xs p = i + j + 1"
  using assms
proof (induction xs arbitrary: i j p)
  case (Cons x xs)
  have none: "fs_chatter y \<noteq> u" if "y \<in> set xs" "j = 0" for y
    using Cons.prems(3) [of "Suc _"] that by (metis Suc_less_eq in_set_conv_nth length_Cons nat.distinct(1) nth_Cons_Suc)
  have stay: "\<forall>y \<in> set ys. fs_chatter y \<noteq> u \<Longrightarrow> chatter_place u n ys q = q" for ys n q
    by (induction ys arbitrary: n) auto
  show ?case
  proof (cases j)
    case 0
    then show ?thesis using Cons.prems(2) none stay [of xs] by simp
  next
    case (Suc j')
    have "fs_chatter x \<noteq> u" using Cons.prems(3) [of 0] Suc by auto
    moreover have "chatter_place u (i + 1) xs p = i + 1 + j' + 1"
      using Cons.prems Suc by (intro Cons.IH) (auto, metis Suc_less_eq length_Cons nat.inject nth_Cons_Suc)
    ultimately show ?thesis using Suc by simp
  qed
qed simp

text \<open>A row of the channel sits at one index of the ordered rows, and nowhere else.\<close>

lemma ordered_index:
  assumes "wf_fishing t" and "orders_by_score ord" and "find_one (\<lambda>r. fs_key r = (c, u)) t = Some r"
  defines "xs \<equiv> ord (find_rows (\<lambda>r. fs_channel r = c) t)"
  obtains j where "j < length xs" and "xs ! j = r"
    and "\<And>m. m < length xs \<Longrightarrow> fs_chatter (xs ! m) = u \<Longrightarrow> m = j"
proof -
  have r: "r \<in> set (tb_rows t)" "fs_key r = (c, u)" using fs_rows.find_key_Some [OF assms(1)] assms(3) by blast+
  have ms: "mset xs = mset (find_rows (\<lambda>r. fs_channel r = c) t)" using assms(2) by (simp add: xs_def orders_by_score_def)
  have set: "set xs = set (find_rows (\<lambda>r. fs_channel r = c) t)" using mset_eq_setD [OF ms] .
  have "distinct (map fs_key (find_rows (\<lambda>r. fs_channel r = c) t))"
    using assms(1) by (simp add: wf_table_def find_rows_def distinct_map_filter)
  then have d: "distinct (map fs_key xs)" using ms by (metis mset_eq_imp_distinct_iff mset_map)
  have "r \<in> set xs" using r set by (simp add: find_rows_def fs_key_def)
  then obtain j where j: "j < length xs" "xs ! j = r" by (auto simp: in_set_conv_nth)
  have "m = j" if m: "m < length xs" "fs_chatter (xs ! m) = u" for m
  proof -
    have "xs ! m \<in> set xs" using m(1) by simp
    then have "fs_channel (xs ! m) = c" unfolding set by (simp add: find_rows_def)
    then have "map fs_key xs ! m = map fs_key xs ! j" using m j r(2) by (simp add: fs_key_def)
    then show ?thesis using d m(1) j(1) by (metis length_map nth_eq_iff_index_eq)
  qed
  then show ?thesis using that j by blast
qed

text \<open>
  The leaderboard line. When the chatter's saved score beats the fifth score of the channel (or
  fewer than five have played and it is positive), the line names the chatter's rank in the ordered
  scores, and that rank is at most four: the fifth place of the leaderboard is never announced, and
  the "invalid placement" error never occurs. Otherwise the line is left as it is.
\<close>

theorem leaderboard_announces_first_four:
  assumes "wf_fishing t" and "orders_by_score ord" and "\<not> fl 4" and "\<not> fl 5"
    and "find_one (\<lambda>r. fs_key r = (c, u)) t = Some r"
  shows "let board = ord (find_rows (\<lambda>r. fs_channel r = c) t);
             fifth = (if length board < 5 then 0 else fs_score (board ! 4))
     in if fifth < fs_score r
        then \<exists>k. leaderboard_update_message ord fl c (fs_score r) u msg t = (In_Place msg (k + 1), None) \<and>
               k < 4 \<and> k < length board \<and> board ! k = r
        else leaderboard_update_message ord fl c (fs_score r) u msg t = (msg, None)"
proof -
  define board where "board = ord (find_rows (\<lambda>r. fs_channel r = c) t)"
  define fifth where "fifth = (if length board < 5 then 0 else fs_score (board ! 4))"
  have sorted: "sorted_wrt (\<lambda>a b. fs_score a \<ge> fs_score b) board"
    using assms(2) by (simp add: board_def orders_by_score_def)
  have last: "fetch_last_place_leaderboard ord fl c t = fifth"
  proof (cases "length board < 5")
    case True
    then show ?thesis using assms(3)
      by (simp add: fetch_last_place_leaderboard_def board_def [symmetric] fifth_def)
  next
    case False
    then have "drop 4 board = board ! 4 # drop (Suc 4) board" by (intro Cons_nth_drop_Suc [symmetric]) simp
    then show ?thesis using False assms(3)
      by (simp add: fetch_last_place_leaderboard_def board_def [symmetric] fifth_def)
  qed
  obtain k where k: "k < length board" "board ! k = r"
    and uniq: "\<And>m. m < length board \<Longrightarrow> fs_chatter (board ! m) = u \<Longrightarrow> m = k"
    using ordered_index [OF assms(1,2,5)] unfolding board_def [symmetric] by metis
  have u: "fs_chatter r = u"
    using fs_rows.find_key_Some [OF assms(1), of "(c, u)" r] assms(5) by (auto simp: fs_key_def [of r])
  have "?thesis \<longleftrightarrow> (if fifth < fs_score r
        then \<exists>k. leaderboard_update_message ord fl c (fs_score r) u msg t = (In_Place msg (k + 1), None) \<and>
               k < 4 \<and> k < length board \<and> board ! k = r
        else leaderboard_update_message ord fl c (fs_score r) u msg t = (msg, None))"
    by (simp add: Let_def board_def fifth_def)
  also have "\<dots>"
  proof (cases "fifth < fs_score r")
    case True
    have k4: "k < 4"
    proof (rule ccontr)
      assume "\<not> k < 4"
      then have len: "\<not> length board < 5" and "4 \<le> k" using k(1) by auto
      then have "fs_score (board ! k) \<le> fs_score (board ! 4)"
        using sorted k(1) by (cases "k = 4") (auto simp: sorted_wrt_iff_nth_less)
      then show False using True k(2) len by (simp add: fifth_def)
    qed
    have "chatter_place u 0 (take 5 board) 0 = 0 + k + 1"
    proof (rule chatter_place_unique)
      show "k < length (take 5 board)" "fs_chatter (take 5 board ! k) = u" using k k4 u by simp_all
      show "m = k" if "m < length (take 5 board)" "fs_chatter (take 5 board ! m) = u" for m
        using that by (intro uniq) simp_all
    qed
    then have "leaderboard_update_message ord fl c (fs_score r) u msg t = (In_Place msg (k + 1), None)"
      using True k4 last assms(4)
      by (simp add: leaderboard_update_message_def fetch_leaderboard_def board_def [symmetric])
    then show ?thesis using True k k4 by (simp only: if_True) blast
  next
    case False
    then show ?thesis using last by (simp add: leaderboard_update_message_def)
  qed
  finally show ?thesis .
qed

theorem leaderboard_announces_first_four_witness:
  "let row = (\<lambda>i name sc. \<lparr> fs_id = i, fs_channel = ''ch'', fs_chatter = name, fs_score = sc,
                 fs_fish = [], fs_trash = 0, fs_times = 1 \<rparr>);
       t = \<lparr> tb_rows = [row 1 ''a'' 50, row 2 ''b'' 40, row 3 ''c'' 30, row 4 ''d'' 20, row 5 ''e'' 10], tb_serial = 5 \<rparr>;
       ord = sort_key (\<lambda>r. - fs_score r)
   in leaderboard_update_message ord no_faults ''ch'' 10 ''e'' No_Line t = (No_Line, None)"
proof -
  let ?row = "\<lambda>i name sc. \<lparr> fs_id = i, fs_channel = ''ch'', fs_chatter = name, fs_score = sc,
                 fs_fish = [], fs_trash = 0, fs_times = 1 \<rparr>"
  let ?t = "\<lparr> tb_rows = [?row 1 ''a'' 50, ?row 2 ''b'' 40, ?row 3 ''c'' 30, ?row 4 ''d'' 20, ?row 5 ''e'' 10], tb_serial = 5 \<rparr>"
  let ?ord = "sort_key (\<lambda>r. - fs_score r)"
  have ord: "orders_by_score ?ord"
    using sorted_sort_key [of "\<lambda>r. - fs_score r"] by (auto simp: orders_by_score_def sorted_wrt_map)
  have wf: "wf_fishing ?t" by (simp add: wf_table_def fs_key_def)
  have find: "find_one (\<lambda>r. fs_key r = (''ch'', ''e'')) ?t = Some (?row 5 ''e'' 10)"
    by (simp add: find_one_def fs_key_def)
  show ?thesis
    using leaderboard_announces_first_four [OF wf ord _ _ find, of no_faults No_Line]
    by (simp add: no_faults_def Let_def find_rows_def)
qed

end
