(* ===== verification/Chat_Message.thy ===== *)
theory Chat_Message
  imports Go_Prelude
begin

text \<open>
  A chat message as EventSub delivers it (\<^verbatim>\<open>internal/libraries/twitchbot/bot_read_message.go\<close>), the
  role tests of the command handlers (\<^verbatim>\<open>bot.go\<close>, \<^verbatim>\<open>custom_commands.go\<close>), and the argument
  extraction that the commands with arguments share.
\<close>

record chat_message =
  cm_broadcaster_id :: string
  cm_broadcaster_login :: string
  cm_chatter_id :: string
  cm_chatter_login :: string
  cm_chatter_name :: string
  cm_message_id :: string
  cm_text :: string
  cm_badges :: "string list"
  cm_trigger :: string

fun has_badge :: "string \<Rightarrow> string list \<Rightarrow> bool" where
  "has_badge b [] = False"
| "has_badge b (x # xs) = (if x = b then True else has_badge b xs)"

definition is_mod_or_broadcaster :: "chat_message \<Rightarrow> bool" where
  "is_mod_or_broadcaster m =
     (if cm_broadcaster_id m = cm_chatter_id m then True else has_badge ''moderator'' (cm_badges m))"

definition meets_min_role :: "chat_message \<Rightarrow> string \<Rightarrow> bool" where
  "meets_min_role m min_role =
     (let is_broadcaster = (cm_broadcaster_id m = cm_chatter_id m);
          is_moderator = has_badge ''moderator'' (cm_badges m);
          is_subscriber = has_badge ''subscriber'' (cm_badges m);
          is_vip = has_badge ''vip'' (cm_badges m)
      in if min_role = ''broadcaster'' then is_broadcaster
         else if min_role = ''mod'' then is_broadcaster \<or> is_moderator
         else if min_role = ''vip'' then is_broadcaster \<or> is_moderator \<or> is_vip
         else if min_role = ''sub'' then is_broadcaster \<or> is_moderator \<or> is_subscriber
         else True)"

text \<open>The arguments of a command: everything after the first blank of the trimmed text, trimmed.\<close>

definition command_args :: "chat_message \<Rightarrow> string" where
  "command_args m =
     (let raw = trim_space (cm_text m)
      in if (\<exists>c \<in> set raw. c = CHR '' '' \<or> c = CHR 0x09) then after_token raw else [])"

text \<open>A lower-cased, trimmed name: the key under which the bot and the services file a channel.\<close>

definition norm_name :: "string \<Rightarrow> string" where
  "norm_name s = to_lower (trim_space s)"

lemma has_badge_iff: "has_badge b xs \<longleftrightarrow> b \<in> set xs"
  by (induction xs) auto

lemma norm_name_idem [simp]: "norm_name (norm_name s) = norm_name s"
  by (simp add: norm_name_def trim_space_lower)

lemma norm_name_lower [simp]: "to_lower (norm_name s) = norm_name s"
  by (simp add: norm_name_def)

lemma norm_name_trim [simp]: "trim_space (norm_name s) = norm_name s"
  by (simp add: norm_name_def trim_space_lower)

text \<open>Roles are cumulative: moderators pass whatever they may run, and each tier admits the next.\<close>

lemma mod_meets: "is_mod_or_broadcaster m \<longleftrightarrow> meets_min_role m ''mod''"
  by (simp add: is_mod_or_broadcaster_def meets_min_role_def Let_def)

end
