(* ===== verification/Api_Client.thy ===== *)
theory Api_Client
  imports Tables
begin

text \<open>
  How the bot reaches core-api: what an endpoint answers, and what a call of the client
  (\<^verbatim>\<open>internal/libraries/api/core_api_client.go\<close>) makes of the answer and of a lost request.
\<close>

section \<open>Endpoints and calls\<close>

text \<open>
  An endpoint answers with a status and, on 200, a body. The client fails on any other status, and
  when the request or its answer is lost; a lost answer leaves the effect.
\<close>

datatype 'a http = Http_Ok 'a | Http_Bad_Request | Http_Server_Error

datatype network = Net_Ok | Request_Lost | Answer_Lost

definition api_call :: "network \<Rightarrow> ('s \<Rightarrow> 'a http \<times> 's) \<Rightarrow> 's \<Rightarrow> 'a option \<times> 's" where
  "api_call net f s =
     (case net of
        Request_Lost \<Rightarrow> (None, s)
      | _ \<Rightarrow> (case f s of
               (Http_Ok x, s') \<Rightarrow> (if net = Net_Ok then Some x else None, s')
             | (_, s') \<Rightarrow> (None, s')))"

text \<open>What a call can have done: nothing that the endpoint would not do.\<close>

lemma api_call_state: "snd (api_call net f s) = s \<or> snd (api_call net f s) = snd (f s)"
  by (cases net; cases "f s") (auto simp: api_call_def split: http.splits)

lemma api_call_Some: "api_call net f s = (Some x, s') \<longleftrightarrow> net = Net_Ok \<and> f s = (Http_Ok x, s')"
  by (cases net; cases "f s"; cases "fst (f s)") (auto simp: api_call_def split: http.splits)

end
