(* ===== verification/Stalk.thy ===== *)
theory Stalk
  imports Tables Chat_Message Api_Client
begin

text \<open>
  The stalk feature: the service behind core-api (\<^verbatim>\<open>internal/libraries/stalk\<close>), its endpoints
  (\<^verbatim>\<open>cmd/core-api/endpoints/bot/stalk.go\<close>), and the bot's side (\<^verbatim>\<open>twitchbot/cmd_stalk.go\<close>): the
  watches held for live channels, the recording of the watched chatter and the command itself.
\<close>

section \<open>The service\<close>

record stalk_row =
  st_id :: int
  st_channel :: string
  st_target :: string
  st_set_by :: string
  st_last :: string

definition st_with_id :: "stalk_row \<Rightarrow> int \<Rightarrow> stalk_row" where
  "st_with_id r n = r\<lparr> st_id := n \<rparr>"

datatype stalk_error =
    Channel_Required | Channel_And_Target_Required
  | Stalk_Lookup_Failed | Stalk_Create_Failed | Stalk_Update_Failed | Stalk_Delete_Failed

text \<open>\<^verbatim>\<open>^[a-z0-9_]{1,25}$\<close>\<close>

definition login_char :: "char \<Rightarrow> bool" where
  "login_char c \<longleftrightarrow>
     (97 \<le> code_of c \<and> code_of c \<le> 122) \<or> (48 \<le> code_of c \<and> code_of c \<le> 57) \<or> c = CHR ''_''"

definition login_re :: "string \<Rightarrow> bool" where
  "login_re s \<longleftrightarrow> 1 \<le> length s \<and> length s \<le> 25 \<and> list_all login_char s"

definition normalize_target :: "string \<Rightarrow> string option" where
  "normalize_target raw =
     (let s = trim_space (trim_prefix ''@'' (norm_name raw))
      in if login_re s then Some s else None)"

text \<open>Positions of the calls that can fail: 0 the lookup, 1 the insert, 2 the update or delete.\<close>

definition stalk_find :: "string \<Rightarrow> stalk_row table \<Rightarrow> stalk_row option" where
  "stalk_find channel t = find_one (\<lambda>r. st_channel r = channel) t"

definition stalk_get :: "faults \<Rightarrow> string \<Rightarrow> stalk_row table \<Rightarrow> stalk_error + stalk_row option" where
  "stalk_get fl channel0 t =
     (let channel = norm_name channel0
      in if channel = [] then Inl Channel_Required
         else if fl 0 then Inl Stalk_Lookup_Failed
         else Inr (stalk_find channel t))"

definition stalk_set ::
  "faults \<Rightarrow> string \<Rightarrow> string \<Rightarrow> string \<Rightarrow> stalk_row table \<Rightarrow> stalk_error option \<times> stalk_row table" where
  "stalk_set fl channel0 target0 set_by0 t =
     (let channel = norm_name channel0; target = norm_name target0; set_by = norm_name set_by0
      in if channel = [] \<or> target = [] then (Some Channel_And_Target_Required, t)
         else if fl 0 then (Some Stalk_Lookup_Failed, t)
         else case stalk_find channel t of
           None \<Rightarrow>
             if fl 1 then (Some Stalk_Create_Failed, t)
             else (case insert_row st_with_id st_channel
                     \<lparr> st_id = 0, st_channel = channel, st_target = target, st_set_by = set_by, st_last = [] \<rparr> t of
                   None \<Rightarrow> (Some Stalk_Create_Failed, t)
                 | Some (_, t') \<Rightarrow> (None, t'))
         | Some r \<Rightarrow>
             let r1 = (if st_target r \<noteq> target then r\<lparr> st_last := [] \<rparr> else r);
                 r2 = r1\<lparr> st_target := target, st_set_by := set_by \<rparr>
             in if fl 2 then (Some Stalk_Update_Failed, t)
                else (case update_row st_id r2 t of
                      None \<Rightarrow> (Some Stalk_Update_Failed, t)
                    | Some t' \<Rightarrow> (None, t')))"

definition stalk_set_last_message ::
  "faults \<Rightarrow> string \<Rightarrow> string \<Rightarrow> string \<Rightarrow> stalk_row table \<Rightarrow> (stalk_error + bool) \<times> stalk_row table" where
  "stalk_set_last_message fl channel0 target0 message0 t =
     (let channel = norm_name channel0; target = norm_name target0; message = trim_space message0
      in if channel = [] then (Inl Channel_Required, t)
         else if fl 0 then (Inl Stalk_Lookup_Failed, t)
         else case stalk_find channel t of
           None \<Rightarrow> (Inr False, t)
         | Some r \<Rightarrow>
             if target \<noteq> [] \<and> st_target r \<noteq> target then (Inr False, t)
             else if fl 2 then (Inl Stalk_Update_Failed, t)
             else (case update_row st_id (r\<lparr> st_last := message \<rparr>) t of
                     None \<Rightarrow> (Inl Stalk_Update_Failed, t)
                   | Some t' \<Rightarrow> (Inr True, t')))"

definition stalk_clear :: "faults \<Rightarrow> string \<Rightarrow> stalk_row table \<Rightarrow> (stalk_error + bool) \<times> stalk_row table" where
  "stalk_clear fl channel0 t =
     (let channel = norm_name channel0
      in if channel = [] then (Inl Channel_Required, t)
         else if fl 0 then (Inl Stalk_Lookup_Failed, t)
         else case stalk_find channel t of
           None \<Rightarrow> (Inr False, t)
         | Some r \<Rightarrow>
             if fl 2 then (Inl Stalk_Delete_Failed, t)
             else (Inr True, delete_where (\<lambda>x. st_id x = st_id r) t))"

section \<open>The endpoints and the bot's client\<close>

definition get_stalk_endpoint ::
  "faults \<Rightarrow> string \<Rightarrow> stalk_row table \<Rightarrow> (string \<times> string \<times> bool) http \<times> stalk_row table" where
  "get_stalk_endpoint fl channel t =
     (if channel = [] then (Http_Bad_Request, t)
      else case stalk_get fl channel t of
        Inl _ \<Rightarrow> (Http_Server_Error, t)
      | Inr None \<Rightarrow> (Http_Ok ([], [], False), t)
      | Inr (Some r) \<Rightarrow> (Http_Ok (st_target r, st_last r, True), t))"

definition post_stalk_set_endpoint ::
  "faults \<Rightarrow> string \<Rightarrow> string \<Rightarrow> string \<Rightarrow> stalk_row table \<Rightarrow> unit http \<times> stalk_row table" where
  "post_stalk_set_endpoint fl channel target set_by t =
     (if channel = [] \<or> target = [] then (Http_Bad_Request, t)
      else case stalk_set fl channel target set_by t of
        (Some _, t') \<Rightarrow> (Http_Server_Error, t')
      | (None, t') \<Rightarrow> (Http_Ok (), t'))"

definition post_stalk_clear_endpoint ::
  "faults \<Rightarrow> string \<Rightarrow> stalk_row table \<Rightarrow> bool http \<times> stalk_row table" where
  "post_stalk_clear_endpoint fl channel t =
     (if channel = [] then (Http_Bad_Request, t)
      else case stalk_clear fl channel t of
        (Inl _, t') \<Rightarrow> (Http_Server_Error, t')
      | (Inr found, t') \<Rightarrow> (Http_Ok found, t'))"

definition post_stalk_last_message_endpoint ::
  "faults \<Rightarrow> string \<Rightarrow> string \<Rightarrow> string \<Rightarrow> stalk_row table \<Rightarrow> bool http \<times> stalk_row table" where
  "post_stalk_last_message_endpoint fl channel target message t =
     (if channel = [] then (Http_Bad_Request, t)
      else case stalk_set_last_message fl channel target message t of
        (Inl _, t') \<Rightarrow> (Http_Server_Error, t')
      | (Inr found, t') \<Rightarrow> (Http_Ok found, t'))"

section \<open>The bot's watches\<close>

record stalk_watch =
  sw_target :: string
  sw_last :: string

type_synonym watches = "string \<Rightarrow> stalk_watch option"

definition set_stalk_watch :: "string \<Rightarrow> string \<Rightarrow> watches \<Rightarrow> watches" where
  "set_stalk_watch channel0 target0 w =
     (let channel = norm_name channel0; target = norm_name target0
      in if channel = [] \<or> target = [] then w
         else case w channel of
           Some existing \<Rightarrow>
             if sw_target existing = target then w
             else w(channel \<mapsto> \<lparr> sw_target = target, sw_last = [] \<rparr>)
         | None \<Rightarrow> w(channel \<mapsto> \<lparr> sw_target = target, sw_last = [] \<rparr>))"

definition hydrate_stalk_last :: "string \<Rightarrow> string \<Rightarrow> watches \<Rightarrow> watches" where
  "hydrate_stalk_last channel0 last0 w =
     (let said = trim_space last0
      in if said = [] then w
         else case w (norm_name channel0) of
           None \<Rightarrow> w
         | Some x \<Rightarrow> if sw_last x \<noteq> [] then w else w(norm_name channel0 \<mapsto> x\<lparr> sw_last := said \<rparr>))"

definition drop_stalk_target :: "string \<Rightarrow> watches \<Rightarrow> watches" where
  "drop_stalk_target login w = w(to_lower login := None)"

definition stalk_watch_for :: "string \<Rightarrow> watches \<Rightarrow> stalk_watch option" where
  "stalk_watch_for channel w = w (to_lower channel)"

definition is_stalk_command :: "string \<Rightarrow> bool" where
  "is_stalk_command msg \<longleftrightarrow> msg = ''!stalk'' \<or> has_prefix ''!stalk '' msg"

text \<open>
  Recording a line returns the new watches and the write that a goroutine will persist later
  (channel, target and text), when there is one.
\<close>

type_synonym persist_job = "string \<times> string \<times> string"

definition remember_stalk_message ::
  "string \<Rightarrow> string \<Rightarrow> string \<Rightarrow> string \<Rightarrow> string \<Rightarrow> watches \<Rightarrow> watches \<times> persist_job option" where
  "remember_stalk_message bot_username channel0 login0 display0 text0 w =
     (let text = trim_space text0
      in if text = [] then (w, None)
         else if is_stalk_command (to_lower text) then (w, None)
         else let channel = norm_name channel0; login = norm_name login0; display = norm_name display0
              in if channel = [] \<or> login = [] then (w, None)
                 else if equal_fold login bot_username then (w, None)
                 else case w channel of
                   None \<Rightarrow> (w, None)
                 | Some x \<Rightarrow>
                     if login \<noteq> sw_target x \<and> display \<noteq> sw_target x then (w, None)
                     else if sw_last x = text then (w, None)
                     else (w(channel \<mapsto> x\<lparr> sw_last := text \<rparr>), Some (channel, sw_target x, text)))"

section \<open>The command\<close>

datatype stalk_reply =
    Only_Mods_Pick string
  | Stalk_Usage string
  | Not_A_Username string
  | Target_Not_Saved string
  | Now_Stalking string
  | Target_Not_Cleared string
  | Nobody_Was_Stalked string
  | Stopped_Stalking
  | Target_Lookup_Failed
  | Nobody_Stalked_Yet
  | Not_Seen_Yet string
  | Quote string string

type_synonym stalk_state = "watches \<times> stalk_row table"

text \<open>
  The calls of a handler to core-api can fail in the network and in the database: \<open>nf\<close> and \<open>fl\<close>.
\<close>

definition set_stalk_target ::
  "network \<Rightarrow> faults \<Rightarrow> string \<Rightarrow> string \<Rightarrow> string \<Rightarrow> stalk_state \<Rightarrow> stalk_reply \<times> stalk_state" where
  "set_stalk_target nf fl channel set_by raw_target s =
     (case normalize_target raw_target of
        None \<Rightarrow> (Not_A_Username set_by, s)
      | Some target \<Rightarrow>
          (case api_call nf (post_stalk_set_endpoint fl channel target set_by) (snd s) of
             (None, t) \<Rightarrow> (Target_Not_Saved set_by, (fst s, t))
           | (Some _, t) \<Rightarrow> (Now_Stalking target, (set_stalk_watch channel target (fst s), t))))"

definition clear_stalk_target ::
  "network \<Rightarrow> faults \<Rightarrow> string \<Rightarrow> string \<Rightarrow> stalk_state \<Rightarrow> stalk_reply \<times> stalk_state" where
  "clear_stalk_target nf fl channel username s =
     (case api_call nf (post_stalk_clear_endpoint fl channel) (snd s) of
        (None, t) \<Rightarrow> (Target_Not_Cleared username, (fst s, t))
      | (Some found, t) \<Rightarrow>
          (if found then Stopped_Stalking else Nobody_Was_Stalked username,
           (drop_stalk_target channel (fst s), t)))"

definition quote_stalk_target ::
  "network \<Rightarrow> faults \<Rightarrow> string \<Rightarrow> stalk_state \<Rightarrow> stalk_reply \<times> stalk_state" where
  "quote_stalk_target nf fl channel s =
     (case api_call nf (get_stalk_endpoint fl channel) (snd s) of
        (None, t) \<Rightarrow> (Target_Lookup_Failed, (fst s, t))
      | (Some (api_target, api_last, found), t) \<Rightarrow>
          if \<not> found \<or> api_target = [] then (Nobody_Stalked_Yet, (drop_stalk_target channel (fst s), t))
          else let w = hydrate_stalk_last channel api_last (set_stalk_watch channel api_target (fst s))
               in case stalk_watch_for channel w of
                    None \<Rightarrow> (Nobody_Stalked_Yet, (w, t))
                  | Some x \<Rightarrow>
                      (if sw_last x = [] then Not_Seen_Yet (sw_target x) else Quote (sw_target x) (sw_last x),
                       (w, t)))"

definition handle_stalk_command ::
  "network \<Rightarrow> faults \<Rightarrow> chat_message \<Rightarrow> stalk_state \<Rightarrow> stalk_reply \<times> stalk_state" where
  "handle_stalk_command nf fl m s =
     (let channel = cm_broadcaster_login m; username = cm_chatter_login m;
          words = str_fields (command_args m)
      in if words = [] then quote_stalk_target nf fl channel s
         else if to_lower (hd words) = ''set'' then
           (if \<not> is_mod_or_broadcaster m then (Only_Mods_Pick username, s)
            else if length words < 2 then (Stalk_Usage username, s)
            else set_stalk_target nf fl channel username (words ! 1) s)
         else if to_lower (hd words) = ''clear'' \<or> to_lower (hd words) = ''unset'' then
           (if \<not> is_mod_or_broadcaster m then (Only_Mods_Pick username, s)
            else clear_stalk_target nf fl channel username s)
         else if is_mod_or_broadcaster m \<and> length words = 1
           then set_stalk_target nf fl channel username (hd words) s
         else quote_stalk_target nf fl channel s)"

definition load_stalk_target :: "network \<Rightarrow> faults \<Rightarrow> string \<Rightarrow> stalk_state \<Rightarrow> stalk_state" where
  "load_stalk_target nf fl login0 s =
     (let login = norm_name login0
      in if login = [] then s
         else case api_call nf (get_stalk_endpoint fl login) (snd s) of
           (None, t) \<Rightarrow> (fst s, t)
         | (Some (target, said, found), t) \<Rightarrow>
             if \<not> found \<or> target = [] then (fst s, t)
             else (hydrate_stalk_last login said (set_stalk_watch login target (fst s)), t))"

definition persist_stalk_last :: "network \<Rightarrow> faults \<Rightarrow> persist_job \<Rightarrow> stalk_row table \<Rightarrow> stalk_row table" where
  "persist_stalk_last nf fl job t =
     (case job of (channel, target, text) \<Rightarrow>
        snd (api_call nf (post_stalk_last_message_endpoint fl channel target text) t))"

end
