(* ===== verification/Stalk_Properties.thy ===== *)
theory Stalk_Properties
  imports Stalk
begin

text \<open>
  The stalk service refines a map from channels to a target and its last line; on top of that, what
  the bot quotes was really said by the chatter it names, in every run of atomic handlers, and what
  goes wrong when a load is interleaved with a change of target.
\<close>

section \<open>The service as a map\<close>

abbreviation wf_stalk :: "stalk_row table \<Rightarrow> bool" where
  "wf_stalk \<equiv> wf_table st_id st_channel"

interpretation stalk_rows: row_type st_id st_channel st_with_id
  by unfold_locales (simp_all add: st_with_id_def)

definition stalk_view :: "stalk_row table \<Rightarrow> string \<Rightarrow> (string \<times> string) option" where
  "stalk_view t ch = map_option (\<lambda>r. (st_target r, st_last r)) (stalk_find ch t)"

text \<open>The abstract operations.\<close>

definition retarget :: "string \<Rightarrow> (string \<times> string) option \<Rightarrow> string \<times> string" where
  "retarget target old =
     (case old of
        None \<Rightarrow> (target, [])
      | Some (tg, said) \<Rightarrow> (target, if tg = target then said else []))"

lemma stalk_find_mem: "stalk_find ch t = Some r \<Longrightarrow> r \<in> set (tb_rows t) \<and> st_channel r = ch"
  unfolding stalk_find_def find_one_def by (drule find_Some_mem)

lemma stalk_update:
  assumes "wf_stalk t" and "stalk_find ch t = Some r0" and "st_id r = st_id r0" and "st_channel r = ch"
  obtains t' where "update_row st_id r t = Some t'" and "wf_stalk t'"
    and "stalk_view t' = (stalk_view t)(ch \<mapsto> (st_target r, st_last r))"
proof -
  have m: "r0 \<in> set (tb_rows t)" "st_channel r = st_channel r0" using stalk_find_mem [OF assms(2)] assms(4) by auto
  obtain t' where t': "update_row st_id r t = Some t'" "wf_stalk t'"
    and f: "\<And>k. find_one (\<lambda>x. st_channel x = k) t' = (if k = st_channel r then Some r else find_one (\<lambda>x. st_channel x = k) t)"
    using stalk_rows.update_spec [OF assms(1) m(1) assms(3) m(2)] by metis
  have "stalk_view t' = (stalk_view t)(ch \<mapsto> (st_target r, st_last r))"
    by (rule ext) (simp add: stalk_view_def stalk_find_def f assms(4))
  then show ?thesis using that t' by blast
qed

lemma stalk_set_spec:
  assumes "wf_stalk t" and "stalk_set fl c g b t = (e, t')"
  shows "wf_stalk t'"
    and "stalk_view t' = (if e = None then (stalk_view t)(norm_name c \<mapsto> retarget (norm_name g) (stalk_view t (norm_name c)))
                          else stalk_view t)"
    and "e = None \<Longrightarrow> norm_name g \<noteq> []"
    and "e \<noteq> None \<Longrightarrow> norm_name c = [] \<or> norm_name g = [] \<or> fl 0 \<or> fl 1 \<or> fl 2"
proof -
  let ?c = "norm_name c" and ?g = "norm_name g"
  have "wf_stalk t' \<and>
     stalk_view t' = (if e = None then (stalk_view t)(?c \<mapsto> retarget ?g (stalk_view t ?c)) else stalk_view t) \<and>
     (e = None \<longrightarrow> ?g \<noteq> []) \<and> (e \<noteq> None \<longrightarrow> ?c = [] \<or> ?g = [] \<or> fl 0 \<or> fl 1 \<or> fl 2)"
  proof (cases "?c = [] \<or> ?g = [] \<or> fl 0")
    case True
    then have "e \<noteq> None \<and> t' = t" using assms(2) by (auto simp: stalk_set_def Let_def split: if_splits)
    then show ?thesis using True assms(1) by auto
  next
    case False
    show ?thesis
    proof (cases "stalk_find ?c t")
      case None
      define r where "r = \<lparr> st_id = 0, st_channel = ?c, st_target = ?g, st_set_by = norm_name b, st_last = [] \<rparr>"
      have n: "find_one (\<lambda>x. st_channel x = st_channel r) t = None" using None by (simp add: stalk_find_def r_def)
      obtain t1 where i: "insert_row st_with_id st_channel r t = Some (st_with_id r (tb_serial t + 1), t1)"
        and w: "wf_stalk t1"
        and f: "\<And>k. find_one (\<lambda>x. st_channel x = k) t1 =
          (if k = st_channel r then Some (st_with_id r (tb_serial t + 1)) else find_one (\<lambda>x. st_channel x = k) t)"
        using stalk_rows.insert_spec [OF assms(1) n] by metis
      have v: "stalk_view t1 = (stalk_view t)(?c \<mapsto> retarget ?g (stalk_view t ?c))"
        using None by (intro ext) (simp add: stalk_view_def stalk_find_def f retarget_def st_with_id_def r_def)
      have "(e, t') = (if fl 1 then (Some Stalk_Create_Failed, t) else (None, t1))"
        unfolding assms(2) [symmetric] using False None i by (simp add: stalk_set_def Let_def r_def)
      then show ?thesis using w v assms(1) False by (cases "fl 1") simp_all
    next
      case (Some r)
      let ?r = "(if st_target r \<noteq> ?g then r\<lparr> st_last := [] \<rparr> else r)\<lparr> st_target := ?g, st_set_by := norm_name b \<rparr>"
      have r: "st_id ?r = st_id r" "st_channel ?r = ?c" using stalk_find_mem [OF Some] by simp_all
      obtain t1 where u: "update_row st_id ?r t = Some t1" and w: "wf_stalk t1"
        and v: "stalk_view t1 = (stalk_view t)(?c \<mapsto> (st_target ?r, st_last ?r))"
        using stalk_update [OF assms(1) Some r] by blast
      have v': "stalk_view t1 = (stalk_view t)(?c \<mapsto> retarget ?g (stalk_view t ?c))"
        unfolding v using Some by (simp add: stalk_view_def retarget_def)
      have "(e, t') = (if fl 2 then (Some Stalk_Update_Failed, t) else (None, t1))"
        unfolding assms(2) [symmetric] using False Some u by (simp add: stalk_set_def Let_def)
      then show ?thesis using w v' assms(1) False by (cases "fl 2") simp_all
    qed
  qed
  then show "wf_stalk t'"
    and "stalk_view t' = (if e = None then (stalk_view t)(?c \<mapsto> retarget ?g (stalk_view t ?c)) else stalk_view t)"
    and "e = None \<Longrightarrow> ?g \<noteq> []"
    and "e \<noteq> None \<Longrightarrow> ?c = [] \<or> ?g = [] \<or> fl 0 \<or> fl 1 \<or> fl 2" by blast+
qed

lemma stalk_last_spec:
  assumes "wf_stalk t" and "stalk_set_last_message fl c g m t = (res, t')"
  shows "wf_stalk t'"
    and "stalk_view t' = stalk_view t \<or>
         (\<exists>tg said. stalk_view t (norm_name c) = Some (tg, said) \<and> (norm_name g = [] \<or> tg = norm_name g) \<and>
            stalk_view t' = (stalk_view t)(norm_name c \<mapsto> (tg, trim_space m)))"
proof -
  let ?c = "norm_name c" and ?g = "norm_name g"
  have "wf_stalk t' \<and> (stalk_view t' = stalk_view t \<or>
         (\<exists>tg said. stalk_view t ?c = Some (tg, said) \<and> (?g = [] \<or> tg = ?g) \<and>
            stalk_view t' = (stalk_view t)(?c \<mapsto> (tg, trim_space m))))"
  proof (cases "t' = t")
    case True
    then show ?thesis using assms(1) by simp
  next
    case False
    then obtain r where r: "stalk_find ?c t = Some r" "?g = [] \<or> st_target r = ?g"
      and u: "update_row st_id (r\<lparr> st_last := trim_space m \<rparr>) t = Some t'"
      using assms(2) by (auto simp: stalk_set_last_message_def Let_def split: if_splits option.splits)
    have "st_channel (r\<lparr> st_last := trim_space m \<rparr>) = ?c" using stalk_find_mem [OF r(1)] by simp
    then obtain t1 where "update_row st_id (r\<lparr> st_last := trim_space m \<rparr>) t = Some t1" "wf_stalk t1"
        "stalk_view t1 = (stalk_view t)(?c \<mapsto> (st_target r, trim_space m))"
      using stalk_update [OF assms(1) r(1), of "r\<lparr> st_last := trim_space m \<rparr>"] by auto
    then show ?thesis using u r by (auto simp: stalk_view_def)
  qed
  then show "wf_stalk t'"
    and "stalk_view t' = stalk_view t \<or>
         (\<exists>tg said. stalk_view t ?c = Some (tg, said) \<and> (?g = [] \<or> tg = ?g) \<and>
            stalk_view t' = (stalk_view t)(?c \<mapsto> (tg, trim_space m)))" by blast+
qed

lemma stalk_clear_spec:
  assumes "wf_stalk t" and "stalk_clear fl c t = (res, t')"
  shows "wf_stalk t'" and "stalk_view t' = (if res = Inr True then (stalk_view t)(norm_name c := None) else stalk_view t)"
    and "res = Inr False \<Longrightarrow> stalk_view t (norm_name c) = None"
proof -
  let ?c = "norm_name c"
  have "wf_stalk t' \<and> stalk_view t' = (if res = Inr True then (stalk_view t)(?c := None) else stalk_view t) \<and>
      (res = Inr False \<longrightarrow> stalk_view t ?c = None)"
  proof (cases "res = Inr True")
    case True
    then obtain r where r: "stalk_find ?c t = Some r" and t': "t' = delete_where (\<lambda>x. st_id x = st_id r) t"
      using assms(2) by (auto simp: stalk_clear_def Let_def split: if_splits option.splits)
    have other: "st_id x \<noteq> st_id r" if "stalk_find k t = Some x" "k \<noteq> ?c" for x k
    proof
      assume "st_id x = st_id r"
      then have "x = r" using assms(1) stalk_find_mem [OF that(1)] stalk_find_mem [OF r]
        by (auto simp: wf_table_def distinct_map inj_on_def)
      then show False using stalk_find_mem [OF that(1)] stalk_find_mem [OF r] that(2) by simp
    qed
    have "stalk_view t' k = ((stalk_view t)(?c := None)) k" for k
      using stalk_rows.delete_find [OF assms(1), of k "\<lambda>x. st_id x = st_id r"] r other [of k]
      by (cases "stalk_find k t") (auto simp: t' stalk_view_def stalk_find_def)
    then show ?thesis using True stalk_rows.delete_wf [OF assms(1)] t' by auto
  next
    case False
    then have "t' = t" and "res = Inr False \<longrightarrow> stalk_find ?c t = None"
      using assms(2) by (auto simp: stalk_clear_def Let_def split: if_splits option.splits)
    then show ?thesis using assms(1) False by (auto simp: stalk_view_def)
  qed
  then show "wf_stalk t'" and "stalk_view t' = (if res = Inr True then (stalk_view t)(?c := None) else stalk_view t)"
    and "res = Inr False \<Longrightarrow> stalk_view t ?c = None" by blast+
qed

section \<open>Who said what\<close>

text \<open>What was said so far: the channel, the speaker's login and display name, and the text.\<close>

type_synonym said_log = "(string \<times> string \<times> string \<times> string) list"

definition said_in :: "said_log \<Rightarrow> string \<Rightarrow> string \<Rightarrow> string \<Rightarrow> bool" where
  "said_in S ch target text \<longleftrightarrow>
     (\<exists>(c, login, display, raw) \<in> set S.
        norm_name c = ch \<and> (norm_name login = target \<or> norm_name display = target) \<and> trim_space raw = text)"

text \<open>A target with its last line is honest when the line, if any, was said by that target.\<close>

definition honest :: "said_log \<Rightarrow> string \<Rightarrow> string \<times> string \<Rightarrow> bool" where
  "honest S ch p \<longleftrightarrow> fst p \<noteq> [] \<and> norm_name (fst p) = fst p \<and> (snd p = [] \<or> said_in S ch (fst p) (snd p))"

definition honest_db :: "said_log \<Rightarrow> stalk_row table \<Rightarrow> bool" where
  "honest_db S t \<longleftrightarrow> wf_stalk t \<and> (\<forall>ch p. stalk_view t ch = Some p \<longrightarrow> honest S ch p)"

definition honest_mem :: "said_log \<Rightarrow> watches \<Rightarrow> bool" where
  "honest_mem S w \<longleftrightarrow> (\<forall>ch x. w ch = Some x \<longrightarrow> honest S ch (sw_target x, sw_last x))"

definition honest_job :: "said_log \<Rightarrow> persist_job \<Rightarrow> bool" where
  "honest_job S j \<longleftrightarrow> (case j of (ch, target, text) \<Rightarrow>
     norm_name ch = ch \<and> norm_name target = target \<and> target \<noteq> [] \<and> said_in S ch target text)"

lemma said_in_trim: "said_in S ch tg tx \<Longrightarrow> trim_space tx = tx"
  by (auto simp: said_in_def)

lemma said_in_mono: "said_in S ch tg tx \<Longrightarrow> said_in (u # S) ch tg tx"
  unfolding said_in_def by auto

lemma trim_space_Nil [simp]: "trim_space [] = []"
  by (simp add: trim_space_def trim_left_def)

lemma honest_dbD: "honest_db S t \<Longrightarrow> stalk_view t ch = Some p \<Longrightarrow> honest S ch p"
  unfolding honest_db_def by blast

lemma honest_mono: "honest S ch p \<Longrightarrow> honest (u # S) ch p"
  by (auto simp: honest_def said_in_mono)

lemma honest_job_mono: "honest_job S j \<Longrightarrow> honest_job (u # S) j"
  by (auto simp: honest_job_def said_in_mono)

lemma honest_db_mono: "honest_db S t \<Longrightarrow> honest_db (u # S) t"
  using honest_mono unfolding honest_db_def by blast

lemma honest_mem_mono: "honest_mem S w \<Longrightarrow> honest_mem (u # S) w"
  using honest_mono unfolding honest_mem_def by blast

subsection \<open>The service keeps its rows honest\<close>

lemma honest_db_set: "honest_db S t \<Longrightarrow> honest_db S (snd (stalk_set fl c g b t))"
proof -
  assume h: "honest_db S t"
  obtain e t' where s: "stalk_set fl c g b t = (e, t')" by (meson surj_pair)
  note w = h [unfolded honest_db_def, THEN conjunct1]
  note spec = stalk_set_spec [OF w s]
  have "honest S ch p" if p: "stalk_view t' ch = Some p" for ch p
  proof (cases "e = None \<and> ch = norm_name c")
    case True
    then have "p = retarget (norm_name g) (stalk_view t ch)" using p spec(2) by simp
    then show ?thesis using True spec(3) honest_dbD [OF h, of ch]
      by (cases "stalk_view t ch") (auto simp: retarget_def honest_def)
  next
    case False
    then have "stalk_view t ch = Some p" using p spec(2) by (auto split: if_splits)
    then show ?thesis by (rule honest_dbD [OF h])
  qed
  then show ?thesis using spec(1) s by (simp add: honest_db_def)
qed

lemma honest_db_last:
  assumes "honest_db S t" and "honest_job S (ch, target, text)"
  shows "honest_db S (snd (stalk_set_last_message fl ch target text t))"
proof -
  obtain res t' where s: "stalk_set_last_message fl ch target text t = (res, t')" by (meson surj_pair)
  note w = assms(1) [unfolded honest_db_def, THEN conjunct1]
  note spec = stalk_last_spec [OF w s]
  have j: "norm_name ch = ch" "norm_name target = target" "target \<noteq> []" "said_in S ch target text"
    using assms(2) by (simp_all add: honest_job_def)
  have "honest S c p" if p: "stalk_view t' c = Some p" for c p
  proof (cases "stalk_view t' = stalk_view t")
    case True
    then have "stalk_view t c = Some p" using p by simp
    then show ?thesis by (rule honest_dbD [OF assms(1)])
  next
    case False
    then have "stalk_view t' = (stalk_view t)(ch \<mapsto> (target, text))"
      using spec(2) j said_in_trim [OF j(4)] by auto
    then show ?thesis using p honest_dbD [OF assms(1), of c] j by (auto simp: honest_def split: if_splits)
  qed
  then show ?thesis using spec(1) s by (simp add: honest_db_def)
qed

lemma honest_db_clear: "honest_db S t \<Longrightarrow> honest_db S (snd (stalk_clear fl c t))"
proof -
  assume h: "honest_db S t"
  obtain res t' where s: "stalk_clear fl c t = (res, t')" by (meson surj_pair)
  note spec = stalk_clear_spec [OF h [unfolded honest_db_def, THEN conjunct1] s]
  show ?thesis using spec h s by (auto simp: honest_db_def split: if_splits)
qed

lemma honest_db_api:
  assumes "honest_db S t" and "honest_db S (snd (f t))"
  shows "honest_db S (snd (api_call net f t))"
  using assms api_call_state [of net f t] by metis

lemma honest_db_post_set: "honest_db S t \<Longrightarrow> honest_db S (snd (api_call net (post_stalk_set_endpoint fl c g b) t))"
proof -
  assume h: "honest_db S t"
  have "snd (post_stalk_set_endpoint fl c g b t) \<in> {t, snd (stalk_set fl c g b t)}"
    by (auto simp: post_stalk_set_endpoint_def split: prod.splits option.splits)
  then show ?thesis using honest_db_api [OF h] honest_db_set [OF h] h by (metis empty_iff insert_iff)
qed

lemma honest_db_post_clear: "honest_db S t \<Longrightarrow> honest_db S (snd (api_call net (post_stalk_clear_endpoint fl c) t))"
proof -
  assume h: "honest_db S t"
  have "snd (post_stalk_clear_endpoint fl c t) \<in> {t, snd (stalk_clear fl c t)}"
    by (auto simp: post_stalk_clear_endpoint_def split: prod.splits sum.splits)
  then show ?thesis using honest_db_api [OF h] honest_db_clear [OF h] h by (metis empty_iff insert_iff)
qed

lemma honest_db_persist:
  assumes "honest_db S t" and "honest_job S j"
  shows "honest_db S (persist_stalk_last nf fl j t)"
proof -
  obtain ch tg tx where j: "j = (ch, tg, tx)" by (metis prod_cases3)
  have "snd (post_stalk_last_message_endpoint fl ch tg tx t) \<in> {t, snd (stalk_set_last_message fl ch tg tx t)}"
    by (auto simp: post_stalk_last_message_endpoint_def split: prod.splits sum.splits)
  then have "honest_db S (snd (post_stalk_last_message_endpoint fl ch tg tx t))"
    using honest_db_last [OF assms(1) assms(2) [unfolded j]] assms(1) by (metis empty_iff insert_iff)
  then show ?thesis using honest_db_api [OF assms(1)] by (simp add: persist_stalk_last_def j)
qed

text \<open>Reading changes nothing, and what is read is honest for the channel's key.\<close>

lemma get_endpoint_spec:
  assumes "honest_db S t" and "api_call net (get_stalk_endpoint fl c) t = (r, t')"
  shows "t' = t" and "r = Some (tg, said, True) \<Longrightarrow> honest S (norm_name c) (tg, said)"
proof -
  have "t' = t \<and> (r = Some (tg, said, True) \<longrightarrow> stalk_view t (norm_name c) = Some (tg, said))"
    using assms(2) by (auto simp: api_call_def get_stalk_endpoint_def stalk_get_def Let_def stalk_view_def
        split: network.splits if_splits option.splits)
  then show "t' = t" and "r = Some (tg, said, True) \<Longrightarrow> honest S (norm_name c) (tg, said)"
    using assms(1) by (auto simp: honest_db_def)
qed

subsection \<open>The bot keeps its watches honest\<close>

lemma honest_mem_watch:
  "honest_mem S w \<Longrightarrow> honest_mem S (set_stalk_watch c g w)"
  by (auto simp: honest_mem_def set_stalk_watch_def Let_def honest_def split: option.splits if_splits)

lemma set_watch_target:
  "norm_name c \<noteq> [] \<Longrightarrow> norm_name g \<noteq> [] \<Longrightarrow>
     \<exists>x. set_stalk_watch c g w (norm_name c) = Some x \<and> sw_target x = norm_name g"
  by (auto simp: set_stalk_watch_def Let_def split: option.splits)

lemma honest_mem_hydrate:
  assumes "honest_mem S w" and "\<And>x. w (norm_name c) = Some x \<Longrightarrow> honest S (norm_name c) (sw_target x, said)"
  shows "honest_mem S (hydrate_stalk_last c said w)"
  using assms
  by (auto simp: honest_mem_def hydrate_stalk_last_def Let_def honest_def said_in_trim
      split: option.splits if_splits)

lemma honest_mem_load:
  assumes "honest_mem S w" and "norm_name c \<noteq> []" and "honest S (norm_name c) (tg, said)"
  shows "honest_mem S (hydrate_stalk_last c said (set_stalk_watch c tg w))"
proof (rule honest_mem_hydrate [OF honest_mem_watch [OF assms(1)]])
  fix x assume "set_stalk_watch c tg w (norm_name c) = Some x"
  moreover have "norm_name tg = tg" "tg \<noteq> []" using assms(3) by (simp_all add: honest_def)
  ultimately have "sw_target x = tg" using set_watch_target [OF assms(2), of tg w] by auto
  then show "honest S (norm_name c) (sw_target x, said)" using assms(3) by simp
qed

lemma honest_mem_drop: "honest_mem S w \<Longrightarrow> honest_mem S (drop_stalk_target c w)"
  by (auto simp: honest_mem_def drop_stalk_target_def)

lemma honest_remember:
  assumes "honest_mem S w" and "remember_stalk_message bt c l d tx w = (w', job)"
  shows "honest_mem ((c, l, d, tx) # S) w'" and "\<And>j. job = Some j \<Longrightarrow> honest_job ((c, l, d, tx) # S) j"
proof -
  have m: "honest_mem ((c, l, d, tx) # S) w" using honest_mem_mono [OF assms(1)] .
  have "honest_mem ((c, l, d, tx) # S) w' \<and> (\<forall>j. job = Some j \<longrightarrow> honest_job ((c, l, d, tx) # S) j)"
  proof (cases job)
    case None
    then have "w' = w" using assms(2)
      by (auto simp: remember_stalk_message_def Let_def split: if_splits option.splits)
    then show ?thesis using m None by simp
  next
    case (Some j)
    obtain x where x: "w (norm_name c) = Some x" "norm_name l = sw_target x \<or> norm_name d = sw_target x"
      and w': "w' = w(norm_name c \<mapsto> x\<lparr> sw_last := trim_space tx \<rparr>)"
      and j: "j = (norm_name c, sw_target x, trim_space tx)"
      using assms(2) Some
      by (auto simp: remember_stalk_message_def Let_def split: if_splits option.splits)
    have h: "honest S (norm_name c) (sw_target x, sw_last x)" using assms(1) x(1) by (simp add: honest_mem_def)
    have s: "said_in ((c, l, d, tx) # S) (norm_name c) (sw_target x) (trim_space tx)"
      using x(2) by (auto simp: said_in_def)
    show ?thesis using m w' j Some h s by (auto simp: honest_mem_def honest_job_def honest_def)
  qed
  then show "honest_mem ((c, l, d, tx) # S) w'" and "\<And>j. job = Some j \<Longrightarrow> honest_job ((c, l, d, tx) # S) j" by blast+
qed

subsection \<open>Handlers\<close>

definition honest_state :: "said_log \<Rightarrow> stalk_state \<Rightarrow> bool" where
  "honest_state S s \<longleftrightarrow> honest_mem S (fst s) \<and> honest_db S (snd s)"

lemma honest_set_target: "honest_state S s \<Longrightarrow> honest_state S (snd (set_stalk_target nf fl c u raw s))"
  using honest_db_post_set [of S "snd s" nf fl c _ u] honest_mem_watch [of S "fst s" c]
  by (auto simp: set_stalk_target_def honest_state_def split: option.splits prod.splits) (metis snd_conv)+

lemma honest_clear_target: "honest_state S s \<Longrightarrow> honest_state S (snd (clear_stalk_target nf fl c u s))"
  using honest_db_post_clear [of S "snd s" nf fl c] honest_mem_drop [of S "fst s" c]
  by (auto simp: clear_stalk_target_def honest_state_def split: option.splits prod.splits)

lemma get_ok_channel: "api_call nf (get_stalk_endpoint fl c) t = (Some (tg, said, True), t') \<Longrightarrow> norm_name c \<noteq> []"
  by (auto simp: api_call_def get_stalk_endpoint_def stalk_get_def Let_def
      split: network.splits if_splits option.splits)

lemma honest_quote:
  assumes "honest_state S s" and "quote_stalk_target nf fl c s = (rep, s')"
  shows "honest_state S s'" and "rep = Quote tg said \<Longrightarrow> said_in S (to_lower c) tg said"
proof -
  have h: "honest_mem S (fst s)" "honest_db S (snd s)" using assms(1) by (simp_all add: honest_state_def)
  obtain r t where a: "api_call nf (get_stalk_endpoint fl c) (snd s) = (r, t)" by (meson surj_pair)
  have t: "t = snd s" using get_endpoint_spec(1) [OF h(2) a] .
  have "honest_state S s' \<and> (\<forall>tg said. rep = Quote tg said \<longrightarrow> said_in S (to_lower c) tg said)"
  proof (cases "\<exists>tg said. r = Some (tg, said, True) \<and> tg \<noteq> []")
    case False
    then have "(rep, s') = (Target_Lookup_Failed, s) \<or> (rep, s') = (Nobody_Stalked_Yet, (drop_stalk_target c (fst s), snd s))"
      using assms(2) a t by (auto simp: quote_stalk_target_def split: option.splits)
    then show ?thesis using h honest_mem_drop [OF h(1)] assms(1) by (auto simp: honest_state_def)
  next
    case True
    then obtain tg said where r: "r = Some (tg, said, True)" "tg \<noteq> []" by blast
    let ?w = "hydrate_stalk_last c said (set_stalk_watch c tg (fst s))"
    have hw: "honest_mem S ?w"
      using honest_mem_load [OF h(1) get_ok_channel [OF a [unfolded r]] get_endpoint_spec(2) [OF h(2) a r(1)]] .
    have "s' = (?w, snd s)" and "rep = Quote x y \<Longrightarrow> ?w (to_lower c) = Some \<lparr> sw_target = x, sw_last = y \<rparr> \<and> y \<noteq> []" for x y
      using assms(2) a r t
      by (auto simp: quote_stalk_target_def stalk_watch_for_def Let_def split: option.splits if_splits)
    then show ?thesis using hw h(2) by (fastforce simp: honest_state_def honest_mem_def honest_def)
  qed
  then show "honest_state S s'" and "rep = Quote tg said \<Longrightarrow> said_in S (to_lower c) tg said" by blast+
qed

lemma honest_load:
  assumes "honest_state S s"
  shows "honest_state S (load_stalk_target nf fl c s)"
proof -
  have h: "honest_mem S (fst s)" "honest_db S (snd s)" using assms(1) by (simp_all add: honest_state_def)
  obtain r t where a: "api_call nf (get_stalk_endpoint fl (norm_name c)) (snd s) = (r, t)" by (meson surj_pair)
  have t: "t = snd s" using get_endpoint_spec(1) [OF h(2) a] .
  show ?thesis
  proof (cases "\<exists>tg said. r = Some (tg, said, True) \<and> tg \<noteq> []")
    case False
    then have "load_stalk_target nf fl c s = s" using a t
      by (auto simp: load_stalk_target_def Let_def split: option.splits)
    then show ?thesis using assms by simp
  next
    case True
    then obtain tg said where r: "r = Some (tg, said, True)" "tg \<noteq> []" by blast
    have "honest_mem S (hydrate_stalk_last (norm_name c) said (set_stalk_watch (norm_name c) tg (fst s)))"
      using honest_mem_load [OF h(1) get_ok_channel [OF a [unfolded r]] get_endpoint_spec(2) [OF h(2) a r(1)]] .
    then show ?thesis using a r t h by (simp add: load_stalk_target_def Let_def honest_state_def)
  qed
qed

lemma handle_stalk_cases:
  "handle_stalk_command nf fl m s \<in>
     {quote_stalk_target nf fl (cm_broadcaster_login m) s,
      (Only_Mods_Pick (cm_chatter_login m), s), (Stalk_Usage (cm_chatter_login m), s)} \<union>
     (if is_mod_or_broadcaster m
      then range (\<lambda>raw. set_stalk_target nf fl (cm_broadcaster_login m) (cm_chatter_login m) raw s) \<union>
           {clear_stalk_target nf fl (cm_broadcaster_login m) (cm_chatter_login m) s}
      else {})"
  by (simp add: handle_stalk_command_def Let_def)

lemma set_target_not_quote: "fst (set_stalk_target nf fl c u raw s) \<noteq> Quote tg said"
  by (auto simp: set_stalk_target_def split: option.splits prod.splits)

lemma clear_target_not_quote: "fst (clear_stalk_target nf fl c u s) \<noteq> Quote tg said"
  by (auto simp: clear_stalk_target_def split: option.splits prod.splits)

lemma honest_command:
  assumes "honest_state S s" and "handle_stalk_command nf fl m s = (rep, s')"
  shows "honest_state S s'" and "rep = Quote tg said \<Longrightarrow> said_in S (to_lower (cm_broadcaster_login m)) tg said"
proof -
  let ?c = "cm_broadcaster_login m" and ?u = "cm_chatter_login m"
  consider (q) "quote_stalk_target nf fl ?c s = (rep, s')"
    | (same) "s' = s" "rep \<noteq> Quote tg said"
    | (set) raw where "set_stalk_target nf fl ?c ?u raw s = (rep, s')"
    | (clear) "clear_stalk_target nf fl ?c ?u s = (rep, s')"
    using handle_stalk_cases [of nf fl m s] assms(2) by (auto split: if_splits)
  then have "honest_state S s' \<and> (rep = Quote tg said \<longrightarrow> said_in S (to_lower ?c) tg said)"
  proof cases
    case q
    then show ?thesis using honest_quote [OF assms(1) q] by blast
  next
    case same
    then show ?thesis using assms(1) by simp
  next
    case (set raw)
    then show ?thesis using honest_set_target [OF assms(1), of nf fl ?c ?u raw] set_target_not_quote [of nf fl ?c ?u raw s]
      by auto
  next
    case clear
    then show ?thesis using honest_clear_target [OF assms(1), of nf fl ?c ?u] clear_target_not_quote [of nf fl ?c ?u s]
      by auto
  qed
  then show "honest_state S s'" and "rep = Quote tg said \<Longrightarrow> said_in S (to_lower ?c) tg said" by blast+
qed

section \<open>Runs of the feature\<close>

record stalk_world =
  wo_said :: said_log
  wo_state :: stalk_state
  wo_jobs :: "persist_job list"

definition stalk_start :: stalk_world where
  "stalk_start = \<lparr> wo_said = [], wo_state = (\<lambda>_. None, empty_table), wo_jobs = [] \<rparr>"

text \<open>
  One step is one handler run without interruption: a line is recorded, a pending write is persisted
  (in any order, or fails), a command runs, a watch is loaded or dropped, the dashboard sets or
  clears a target, the bot restarts. Every call may fail in the network and in the database.
\<close>

inductive stalk_step :: "string \<Rightarrow> stalk_world \<Rightarrow> stalk_world \<Rightarrow> bool" for bt where
  Line: "remember_stalk_message bt c l d tx (fst (wo_state W)) = (w, job) \<Longrightarrow>
    stalk_step bt W (W\<lparr> wo_said := (c, l, d, tx) # wo_said W, wo_state := (w, snd (wo_state W)),
                      wo_jobs := wo_jobs W @ (case job of None \<Rightarrow> [] | Some j \<Rightarrow> [j]) \<rparr>)"
| Persist: "j \<in> set (wo_jobs W) \<Longrightarrow>
    stalk_step bt W (W\<lparr> wo_state := (fst (wo_state W), persist_stalk_last nf fl j (snd (wo_state W))),
                      wo_jobs := remove1 j (wo_jobs W) \<rparr>)"
| Command: "handle_stalk_command nf fl m (wo_state W) = (rep, s) \<Longrightarrow> stalk_step bt W (W\<lparr> wo_state := s \<rparr>)"
| Load: "stalk_step bt W (W\<lparr> wo_state := load_stalk_target nf fl login (wo_state W) \<rparr>)"
| Drop: "stalk_step bt W (W\<lparr> wo_state := (drop_stalk_target login (fst (wo_state W)), snd (wo_state W)) \<rparr>)"
| Dashboard_Set: "stalk_step bt W (W\<lparr> wo_state := (fst (wo_state W), snd (stalk_set fl c g b (snd (wo_state W)))) \<rparr>)"
| Dashboard_Clear: "stalk_step bt W (W\<lparr> wo_state := (fst (wo_state W), snd (stalk_clear fl c (snd (wo_state W)))) \<rparr>)"
| Restart: "stalk_step bt W (W\<lparr> wo_state := (\<lambda>_. None, snd (wo_state W)), wo_jobs := [] \<rparr>)"

inductive_cases stalk_stepE: "stalk_step bt W W'"

definition world_ok :: "stalk_world \<Rightarrow> bool" where
  "world_ok W \<longleftrightarrow> honest_state (wo_said W) (wo_state W) \<and> (\<forall>j \<in> set (wo_jobs W). honest_job (wo_said W) j)"

lemma world_ok_start: "world_ok stalk_start"
  using stalk_rows.wf_empty
  by (simp add: world_ok_def stalk_start_def honest_state_def honest_mem_def honest_db_def
      stalk_view_def stalk_find_def find_one_def empty_table_def)

lemma world_ok_step:
  assumes "stalk_step bt W W'" and "world_ok W"
  shows "world_ok W'"
  using assms(1)
proof cases
  case (Line c l d tx w job)
  have h: "honest_mem (wo_said W) (fst (wo_state W))" "honest_db (wo_said W) (snd (wo_state W))"
    "\<forall>j \<in> set (wo_jobs W). honest_job (wo_said W) j" using assms(2) by (simp_all add: world_ok_def honest_state_def)
  show ?thesis using honest_remember [OF h(1) Line(2)] honest_db_mono [OF h(2)] honest_job_mono h(3) Line(1)
    by (auto simp: world_ok_def honest_state_def split: option.splits)
next
  case (Persist j nf fl)
  then show ?thesis using assms(2) honest_db_persist set_remove1_subset [of j "wo_jobs W"]
    by (auto simp: world_ok_def honest_state_def)
next
  case (Command nf fl m rep s)
  then show ?thesis using assms(2) honest_command(1) [OF _ Command(2)] by (simp add: world_ok_def)
next
  case (Load nf fl login)
  then show ?thesis using assms(2) honest_load by (auto simp: world_ok_def)
next
  case (Drop login)
  then show ?thesis using assms(2) honest_mem_drop by (auto simp: world_ok_def honest_state_def)
next
  case (Dashboard_Set fl c g b)
  then show ?thesis using assms(2) honest_db_set by (auto simp: world_ok_def honest_state_def)
next
  case (Dashboard_Clear fl c)
  then show ?thesis using assms(2) honest_db_clear by (auto simp: world_ok_def honest_state_def)
next
  case Restart
  then show ?thesis using assms(2) by (auto simp: world_ok_def honest_state_def honest_mem_def)
qed

lemma world_ok_reachable: "(stalk_step bt)\<^sup>*\<^sup>* stalk_start W \<Longrightarrow> world_ok W"
  by (induction rule: rtranclp_induct) (auto simp: world_ok_start intro: world_ok_step)

section \<open>Properties\<close>

text \<open>
  C10: What a channel is told was said, was said. In every run of whole handlers (with failing and lost
  calls, writes persisted late and out of order, restarts, dashboard edits), when a stalk command
  answers with a quote, the quoted text is a line that the named target really sent in that channel.
\<close>

theorem quotes_are_genuine:
  assumes "(stalk_step bt)\<^sup>*\<^sup>* stalk_start W"
    and "handle_stalk_command nf fl m (wo_state W) = (Quote target text, s)"
  shows "\<exists>(c, login, display, raw) \<in> set (wo_said W).
     norm_name c = to_lower (cm_broadcaster_login m) \<and>
     (norm_name login = target \<or> norm_name display = target) \<and> trim_space raw = text"
proof -
  have "honest_state (wo_said W) (wo_state W)" using world_ok_reachable [OF assms(1)] by (simp add: world_ok_def)
  from honest_command(2) [OF this assms(2)] show ?thesis by (simp add: said_in_def)
qed

definition demo_message :: "string \<Rightarrow> string \<Rightarrow> chat_message" where
  "demo_message chatter text =
     \<lparr> cm_broadcaster_id = ''1'', cm_broadcaster_login = ''ch'', cm_chatter_id = ''1'', cm_chatter_login = chatter,
       cm_chatter_name = chatter, cm_message_id = ''m'', cm_text = text, cm_badges = [], cm_trigger = [] \<rparr>"

theorem quotes_are_genuine_witness:
  "\<exists>W s. (stalk_step ''bot'')\<^sup>*\<^sup>* stalk_start W \<and>
     handle_stalk_command Net_Ok no_faults (demo_message ''ch'' ''!stalk'') (wo_state W) = (Quote ''stan'' ''hi'', s) \<and>
     (\<exists>(c, login, display, raw) \<in> set (wo_said W). trim_space raw = ''hi'')"
proof -
  let ?m = "demo_message ''ch''"
  define h where "h = handle_stalk_command Net_Ok no_faults (?m ''!stalk set Stan'') (wo_state stalk_start)"
  define W1 where "W1 = stalk_start\<lparr> wo_state := snd h \<rparr>"
  define w where "w = remember_stalk_message ''bot'' ''ch'' ''stan'' ''Stan'' '' hi '' (fst (wo_state W1))"
  define W2 where "W2 = W1\<lparr> wo_said := (''ch'', ''stan'', ''Stan'', '' hi '') # wo_said W1,
      wo_state := (fst w, snd (wo_state W1)), wo_jobs := wo_jobs W1 @ (case snd w of None \<Rightarrow> [] | Some j \<Rightarrow> [j]) \<rparr>"
  have "stalk_step ''bot'' stalk_start W1"
    unfolding W1_def h_def by (rule stalk_step.Command [OF prod.collapse [symmetric]])
  moreover have "stalk_step ''bot'' W1 W2"
    unfolding W2_def w_def by (rule stalk_step.Line [OF prod.collapse [symmetric]])
  ultimately have run: "(stalk_step ''bot'')\<^sup>*\<^sup>* stalk_start W2" by (rule converse_rtranclp_into_rtranclp [OF _ r_into_rtranclp])
  have q: "fst (handle_stalk_command Net_Ok no_faults (?m ''!stalk'') (wo_state W2)) = Quote ''stan'' ''hi''"
    unfolding W2_def w_def W1_def h_def stalk_start_def by code_simp
  then obtain s' where "handle_stalk_command Net_Ok no_faults (?m ''!stalk'') (wo_state W2) = (Quote ''stan'' ''hi'', s')"
    by (metis prod.collapse)
  with quotes_are_genuine [OF run this] run show ?thesis by fast
qed

text \<open>
  The load of a watch is not atomic, and the line it read is not tied to the target it was read
  for: when a target is set between the two writes of a load, the fresh watch inherits the old
  target's last line, and the next quote attributes it to the wrong chatter.
\<close>

theorem load_race_misattributes:
  assumes "norm_name c \<noteq> []" and "norm_name old \<noteq> []" and "norm_name new \<noteq> []" and "norm_name new \<noteq> norm_name old"
    and "trim_space said \<noteq> []"
  shows "hydrate_stalk_last c said (set_stalk_watch c new (set_stalk_watch c old w)) (norm_name c) =
     Some \<lparr> sw_target = norm_name new, sw_last = trim_space said \<rparr>"
proof -
  obtain x where x: "set_stalk_watch c old w (norm_name c) = Some x" "sw_target x = norm_name old"
    using set_watch_target [OF assms(1,2)] by blast
  then have "set_stalk_watch c new (set_stalk_watch c old w) (norm_name c) =
      Some \<lparr> sw_target = norm_name new, sw_last = [] \<rparr>"
    using assms by (simp add: set_stalk_watch_def [of c new] Let_def)
  then show ?thesis using assms(5) by (simp add: hydrate_stalk_last_def Let_def)
qed

theorem load_race_misattributes_witness:
  "hydrate_stalk_last ''ch'' ''I am Stan'' (set_stalk_watch ''ch'' ''dave'' (set_stalk_watch ''ch'' ''stan'' (\<lambda>_. None)))
     ''ch'' = Some \<lparr> sw_target = ''dave'', sw_last = ''I am Stan'' \<rparr>"
proof -
  have n: "norm_name ''ch'' = ''ch''" "norm_name ''stan'' = ''stan''" "norm_name ''dave'' = ''dave''"
    "trim_space ''I am Stan'' = ''I am Stan''" by code_simp+
  show ?thesis using load_race_misattributes [of "''ch''" "''stan''" "''dave''" "''I am Stan''" "\<lambda>_. None"]
    by (simp add: n)
qed

text \<open>
  Only the broadcaster and moderators configure the stalk: whatever anybody else writes, the
  stored targets stay as they are, whichever calls fail.
\<close>

theorem viewers_cannot_retarget:
  assumes "\<not> is_mod_or_broadcaster m"
  shows "snd (snd (handle_stalk_command nf fl m s)) = snd s"
proof -
  have "snd (api_call nf (get_stalk_endpoint fl c) t) = t" for c t
    by (auto simp: api_call_def get_stalk_endpoint_def split: network.splits sum.splits option.splits prod.splits)
  then have "snd (snd (quote_stalk_target nf fl c s)) = snd s" for c
    by (auto simp: quote_stalk_target_def Let_def split: option.splits prod.splits) (metis snd_conv)+
  then show ?thesis using handle_stalk_cases [of nf fl m s] assms by auto
qed

theorem viewers_cannot_retarget_witness:
  "snd (snd (handle_stalk_command Net_Ok no_faults
     ((demo_message ''bob'' ''!stalk set Stan'')\<lparr> cm_chatter_id := ''2'' \<rparr>) (\<lambda>_. None, empty_table))) = empty_table"
  using viewers_cannot_retarget [of "(demo_message ''bob'' ''!stalk set Stan'')\<lparr> cm_chatter_id := ''2'' \<rparr>"
      Net_Ok no_faults "(\<lambda>_. None, empty_table)"]
  by (simp add: is_mod_or_broadcaster_def demo_message_def)

text \<open>
  The service refines a map from channels to a target and its last line: without failures a set
  binds the channel (keeping the last line only for an unchanged target), a clear unbinds it and says
  whether it was bound, and a get returns the binding; names are compared trimmed and lower-cased.
\<close>

theorem stalk_service_refines_map:
  assumes "wf_stalk t" and "norm_name c \<noteq> []" and "norm_name g \<noteq> []"
  shows "\<exists>t1 t2. stalk_set no_faults c g b t = (None, t1) \<and> wf_stalk t1 \<and>
       stalk_view t1 = (stalk_view t)(norm_name c \<mapsto> retarget (norm_name g) (stalk_view t (norm_name c))) \<and>
     stalk_clear no_faults c t = (Inr (stalk_view t (norm_name c) \<noteq> None), t2) \<and> wf_stalk t2 \<and>
       stalk_view t2 = (stalk_view t)(norm_name c := None) \<and>
     (\<exists>r. stalk_get no_faults c t = Inr r \<and> map_option (\<lambda>x. (st_target x, st_last x)) r = stalk_view t (norm_name c))"
proof -
  obtain e t1 where s: "stalk_set no_faults c g b t = (e, t1)" by (meson surj_pair)
  have e: "e = None" using stalk_set_spec(4) [OF assms(1) s] assms(2,3) by (cases e) (auto simp: no_faults_def)
  obtain res t2 where cl: "stalk_clear no_faults c t = (res, t2)" by (meson surj_pair)
  have r: "res = Inr (stalk_view t (norm_name c) \<noteq> None)"
    using cl assms(2) by (auto simp: stalk_clear_def Let_def no_faults_def stalk_view_def split: option.splits)
  have v2: "stalk_view t2 = (stalk_view t)(norm_name c := None)"
    using stalk_clear_spec(2) [OF assms(1) cl] r by (cases "stalk_view t (norm_name c)") (auto simp: fun_upd_idem)
  have g: "stalk_get no_faults c t = Inr (stalk_find (norm_name c) t)"
    using assms(2) by (simp add: stalk_get_def Let_def no_faults_def)
  show ?thesis
    using s e cl r v2 g stalk_set_spec(1,2) [OF assms(1) s] stalk_clear_spec(1) [OF assms(1) cl]
    by (auto simp: stalk_view_def)
qed

theorem stalk_service_refines_map_witness:
  "\<exists>t1. stalk_set no_faults '' Ch'' ''Stan '' ''mod'' empty_table = (None, t1) \<and>
     stalk_view t1 ''ch'' = Some (''stan'', [])"
proof -
  have n: "norm_name '' Ch'' = ''ch''" "norm_name ''Stan '' = ''stan''" by code_simp+
  have e: "stalk_view empty_table ''ch'' = None" by (simp add: stalk_view_def stalk_find_def find_one_def empty_table_def)
  show ?thesis
    using stalk_service_refines_map [OF stalk_rows.wf_empty, of "'' Ch''" "''Stan ''" "''mod''"] n e
    by (auto simp: retarget_def)
qed

text \<open>
  A target the bot accepts is a fixed point of every normalisation it later goes through, so the
  name announced in chat, the name stored by the service and the name of the watch are the same.
\<close>

theorem accepted_target_is_stored_verbatim:
  assumes "normalize_target raw = Some target"
  shows "norm_name target = target \<and> target \<noteq> [] \<and> length target \<le> 25 \<and> normalize_target target = Some target"
proof -
  have re: "login_re target" using assms by (auto simp: normalize_target_def Let_def split: if_splits)
  have ch: "login_char c \<Longrightarrow> lower_char c = c \<and> \<not> is_space c \<and> c \<noteq> CHR ''@''" for c
    by (auto simp: login_char_def lower_char_def is_space_def code_of_def)
  have low: "to_lower target = target" using re ch by (auto simp: login_re_def to_lower_def list_all_iff map_idI)
  have "dropWhile is_space xs = xs" if "list_all login_char xs" for xs
    using that ch by (cases xs) auto
  then have trim: "trim_space target = target"
    using re by (simp add: trim_space_def trim_left_def trim_right_def login_re_def)
  have at: "trim_prefix ''@'' target = target"
    using re ch by (cases target) (auto simp: trim_prefix_def has_prefix_def login_re_def)
  show ?thesis using re low trim at
    by (auto simp: normalize_target_def norm_name_def login_re_def Let_def)
qed

theorem accepted_target_is_stored_verbatim_witness:
  "norm_name ''stan_99'' = ''stan_99'' \<and> normalize_target ''stan_99'' = Some ''stan_99''"
proof -
  have "normalize_target '' @Stan_99'' = Some ''stan_99''" by code_simp
  from accepted_target_is_stored_verbatim [OF this] show ?thesis by simp
qed

end
