(* ===== verification/Overlay_Log.thy ===== *)
theory Overlay_Log
  imports Tables
begin

text \<open>
  The overlay relay's durable side (\<^verbatim>\<open>internal/libraries/overlayrelay/service.go\<close>, \<^verbatim>\<open>token.go\<close>):
  the per-broadcaster event log with its retried append, the replay query, and the device tokens.
  Other transactions are the argument \<open>race\<close> of an ingest: what they have committed between the
  snapshot of an attempt and its insert. The hash of tokens is a parameter.
\<close>

section \<open>The log\<close>

datatype event_kind = Kind_Cheer | Kind_Redemption | Kind_Power_Up | Kind_Extension | Kind_Command

record overlay_event =
  oe_user :: int
  oe_seq :: int
  oe_msg :: string
  oe_kind :: event_kind
  oe_payload :: string

record incoming =
  in_msg :: string
  in_broadcaster :: string
  in_kind :: event_kind
  in_payload :: string

record overlay_user =
  ou_id :: int
  ou_twitch :: "string option"

type_synonym event_log = "overlay_event list"

definition user_events :: "int \<Rightarrow> event_log \<Rightarrow> event_log" where
  "user_events user log = filter (\<lambda>e. oe_user e = user) log"

text \<open>\<^verbatim>\<open>COALESCE(MAX(seq), 0)\<close>\<close>

definition max_seq :: "int \<Rightarrow> event_log \<Rightarrow> int" where
  "max_seq user log = foldr max (map oe_seq (user_events user log)) 0"

datatype append_result = Appended overlay_event | Already_Stored | Seq_Conflict

text \<open>
  One insert statement: the position comes from its snapshot, the constraints are checked against
  what is committed by then, the message constraint (\<^verbatim>\<open>ON CONFLICT DO NOTHING\<close>) first.
\<close>

definition append_event :: "event_log \<Rightarrow> int \<Rightarrow> incoming \<Rightarrow> event_log \<Rightarrow> append_result \<times> event_log" where
  "append_event snapshot user inc log =
     (let e = \<lparr> oe_user = user, oe_seq = max_seq user snapshot + 1, oe_msg = in_msg inc,
                oe_kind = in_kind inc, oe_payload = in_payload inc \<rparr>
      in if (\<exists>x \<in> set log. oe_user x = user \<and> oe_msg x = oe_msg e) then (Already_Stored, log)
         else if (\<exists>x \<in> set log. oe_user x = user \<and> oe_seq x = oe_seq e) then (Seq_Conflict, log)
         else (Appended e, log @ [e]))"

datatype ingest_error = Unknown_Broadcaster | Resolve_Failed | Append_Failed | Attempts_Exhausted

definition seq_retries :: nat where
  "seq_retries = 5"

text \<open>
  The retry loop; \<open>fl n\<close> is a failing statement at attempt \<open>n\<close>. Ends by the number of attempts left.
\<close>

fun append_loop ::
  "nat \<Rightarrow> nat \<Rightarrow> faults \<Rightarrow> (nat \<Rightarrow> event_log \<Rightarrow> event_log) \<Rightarrow> int \<Rightarrow> incoming \<Rightarrow> event_log
     \<Rightarrow> (ingest_error + overlay_event option) \<times> event_log" where
  "append_loop attempt 0 fl race user inc log = (Inl Attempts_Exhausted, log)"
| "append_loop attempt (Suc left) fl race user inc log =
     (let log' = race attempt log
      in if fl attempt then (Inl Append_Failed, log')
         else case append_event log user inc log' of
           (Appended e, log'') \<Rightarrow> (Inr (Some e), log'')
         | (Already_Stored, log'') \<Rightarrow> (Inr None, log'')
         | (Seq_Conflict, log'') \<Rightarrow> append_loop (attempt + 1) left fl race user inc log'')"

definition user_of_broadcaster :: "overlay_user list \<Rightarrow> string \<Rightarrow> overlay_user option" where
  "user_of_broadcaster users broadcaster = find (\<lambda>u. ou_twitch u = Some broadcaster) users"

text \<open>
  \<open>lookup_fails\<close> is a failing user lookup. The result is the stored event when it is new, and nothing
  when the message was stored before.
\<close>

definition ingest ::
  "bool \<Rightarrow> faults \<Rightarrow> (nat \<Rightarrow> event_log \<Rightarrow> event_log) \<Rightarrow> overlay_user list \<Rightarrow> incoming \<Rightarrow> event_log
     \<Rightarrow> (ingest_error + overlay_event option) \<times> event_log" where
  "ingest lookup_fails fl race users inc log =
     (if lookup_fails then (Inl Resolve_Failed, log)
      else case user_of_broadcaster users (in_broadcaster inc) of
        None \<Rightarrow> (Inl Unknown_Broadcaster, log)
      | Some u \<Rightarrow> append_loop 0 seq_retries fl race (ou_id u) inc log)"

definition max_replay :: nat where
  "max_replay = 500"

definition clamp_limit :: "int \<Rightarrow> nat" where
  "clamp_limit limit = (if limit \<le> 0 \<or> limit > int max_replay then max_replay else nat limit)"

definition events_after :: "bool \<Rightarrow> int \<Rightarrow> int \<Rightarrow> int \<Rightarrow> event_log \<Rightarrow> event_log option" where
  "events_after failing user since limit log =
     (if failing then None
      else Some (take (clamp_limit limit)
        (sort_key oe_seq (filter (\<lambda>e. oe_user e = user \<and> oe_seq e > since \<and> oe_kind e \<noteq> Kind_Command) log))))"

section \<open>Tokens\<close>

text \<open>\<^verbatim>\<open>base64.RawURLEncoding\<close>: three bytes are four characters, and no padding at the end.\<close>

definition b64_alphabet :: string where
  "b64_alphabet = ''ABCDEFGHIJKLMNOPQRSTUVWXYZabcdefghijklmnopqrstuvwxyz0123456789-_''"

definition b64_char :: "nat \<Rightarrow> char" where
  "b64_char n = b64_alphabet ! (n mod 64)"

fun b64_encode :: "nat list \<Rightarrow> string" where
  "b64_encode [] = []"
| "b64_encode [a] = [b64_char (a div 4), b64_char (a mod 4 * 16)]"
| "b64_encode [a, b] = [b64_char (a div 4), b64_char (a mod 4 * 16 + b div 16), b64_char (b mod 16 * 4)]"
| "b64_encode (a # b # c # rest) =
     b64_char (a div 4) # b64_char (a mod 4 * 16 + b div 16) # b64_char (b mod 16 * 4 + c div 64) #
     b64_char (c mod 64) # b64_encode rest"

text \<open>
  The decoder skips line breaks and refuses characters outside the alphabet; only the number of
  decoded bytes is used.
\<close>

definition b64_decoded_length :: "string \<Rightarrow> nat option" where
  "b64_decoded_length s =
     (let body = filter (\<lambda>c. c \<noteq> CHR 0x0A \<and> c \<noteq> CHR 0x0D) s
      in if list_all (\<lambda>c. c \<in> set b64_alphabet) body \<and> length body mod 4 \<noteq> 1
         then Some (length body * 6 div 8) else None)"

definition token_prefix :: string where
  "token_prefix = ''rsov_''"

definition token_bytes :: nat where
  "token_bytes = 32"

text \<open>\<^verbatim>\<open>MintToken\<close> with the bytes the random source returned (\<open>None\<close>: it failed).\<close>

definition mint_token :: "(string \<Rightarrow> string) \<Rightarrow> nat list option \<Rightarrow> (string \<times> string) option" where
  "mint_token hash random =
     (case random of
        None \<Rightarrow> None
      | Some buf \<Rightarrow> let token = token_prefix @ b64_encode buf in Some (token, hash token))"

definition looks_like_token :: "string \<Rightarrow> bool" where
  "looks_like_token token \<longleftrightarrow>
     has_prefix token_prefix token \<and>
     b64_decoded_length (trim_prefix token_prefix token) = Some token_bytes"

section \<open>Devices\<close>

record device =
  dv_id :: int
  dv_user :: int
  dv_start_seq :: int
  dv_hash :: string
  dv_label :: string
  dv_revoked :: bool

definition dv_with_id :: "device \<Rightarrow> int \<Rightarrow> device" where
  "dv_with_id d n = d\<lparr> dv_id := n \<rparr>"

datatype device_error = Mint_Failed | Device_Not_Found | Device_Db_Failed

text \<open>
  Positions: 0 revoking the prior devices, 1 and 2 reading the tail, 3 the insert, 4 the commit. The
  whole is one transaction: any failure leaves the tables as they were.
\<close>

definition create_device ::
  "(string \<Rightarrow> string) \<Rightarrow> nat list option \<Rightarrow> faults \<Rightarrow> int \<Rightarrow> string \<Rightarrow> event_log \<Rightarrow> device table
     \<Rightarrow> (device_error + string \<times> device) \<times> device table" where
  "create_device hash random fl user label log t =
     (case mint_token hash random of
        None \<Rightarrow> (Inl Mint_Failed, t)
      | Some (token, h) \<Rightarrow>
          if fl 0 \<or> fl 1 \<or> fl 2 \<or> fl 3 \<or> fl 4 then (Inl Device_Db_Failed, t)
          else let d = \<lparr> dv_id = 0, dv_user = user, dv_start_seq = max_seq user log, dv_hash = h,
                         dv_label = trim_space label, dv_revoked = False \<rparr>;
                   t1 = update_where (\<lambda>x. dv_user x = user \<and> \<not> dv_revoked x) (\<lambda>x. x\<lparr> dv_revoked := True \<rparr>) t
               in case insert_row dv_with_id dv_hash d t1 of
                    None \<Rightarrow> (Inl Device_Db_Failed, t)
                  | Some (d', t2) \<Rightarrow> (Inr (token, d'), t2))"

definition authenticate_device ::
  "(string \<Rightarrow> string) \<Rightarrow> faults \<Rightarrow> string \<Rightarrow> device table \<Rightarrow> device_error + device" where
  "authenticate_device hash fl token t =
     (if \<not> looks_like_token token then Inl Device_Not_Found
      else if fl 0 then Inl Device_Db_Failed
      else case find_one (\<lambda>d. dv_hash d = hash token \<and> \<not> dv_revoked d) t of
        None \<Rightarrow> Inl Device_Not_Found
      | Some d \<Rightarrow> Inr d)"

text \<open>Ordered by creation, which is the order of the ids.\<close>

definition list_devices :: "faults \<Rightarrow> int \<Rightarrow> device table \<Rightarrow> device_error + device list" where
  "list_devices fl user t =
     (if fl 0 then Inl Device_Db_Failed
      else Inr (sort_key dv_id (find_rows (\<lambda>d. dv_user d = user \<and> \<not> dv_revoked d) t)))"

definition revoke_device :: "faults \<Rightarrow> int \<Rightarrow> int \<Rightarrow> device table \<Rightarrow> device_error option \<times> device table" where
  "revoke_device fl user device_id t =
     (let cond = (\<lambda>d. dv_id d = device_id \<and> dv_user d = user \<and> \<not> dv_revoked d)
      in if fl 0 then (Some Device_Db_Failed, t)
         else case find_one cond t of
           None \<Rightarrow> (Some Device_Not_Found, t)
         | Some _ \<Rightarrow>
             if fl 1 then (Some Device_Db_Failed, t)
             else (None, update_where cond (\<lambda>d. d\<lparr> dv_revoked := True \<rparr>) t))"

definition has_active_device ::
  "faults \<Rightarrow> overlay_user list \<Rightarrow> string \<Rightarrow> device table \<Rightarrow> device_error + bool" where
  "has_active_device fl users broadcaster t =
     (if trim_space broadcaster = [] then Inr False
      else if fl 0 then Inl Device_Db_Failed
      else Inr (\<exists>d \<in> set (tb_rows t). \<not> dv_revoked d \<and>
                  (\<exists>u \<in> set users. ou_id u = dv_user d \<and> ou_twitch u = Some broadcaster)))"

definition broadcasters_with_active_devices ::
  "faults \<Rightarrow> overlay_user list \<Rightarrow> device table \<Rightarrow> device_error + string list" where
  "broadcasters_with_active_devices fl users t =
     (if fl 0 then Inl Device_Db_Failed
      else Inr (remdups (concat (map (\<lambda>d.
             if dv_revoked d then []
             else concat (map (\<lambda>u. if ou_id u = dv_user d then
                                 (case ou_twitch u of None \<Rightarrow> [] | Some tw \<Rightarrow> if tw = [] then [] else [tw])
                               else []) users)) (tb_rows t)))))"

end
