(* ===== verification/Overlay_Log_Properties.thy ===== *)
theory Overlay_Log_Properties
  imports Overlay_Log
begin

text \<open>
  The log is gapless and stores a message once under any interleaving of commits, the replay query
  reads it in order without commands, and a broadcaster has one valid device token at a time.
\<close>

section \<open>The log invariant\<close>

definition log_inv :: "event_log \<Rightarrow> bool" where
  "log_inv log \<longleftrightarrow>
     (\<forall>u. map oe_seq (user_events u log) = map int [1..<Suc (length (user_events u log))]) \<and>
     distinct (map (\<lambda>e. (oe_user e, oe_msg e)) log)"

definition stored :: "int \<Rightarrow> string \<Rightarrow> event_log \<Rightarrow> bool" where
  "stored user msg log \<longleftrightarrow> (user, msg) \<in> set (map (\<lambda>e. (oe_user e, oe_msg e)) log)"

definition legit_race :: "(nat \<Rightarrow> event_log \<Rightarrow> event_log) \<Rightarrow> bool" where
  "legit_race race \<longleftrightarrow> (\<forall>n log. log_inv log \<longrightarrow> log_inv (race n log) \<and> prefix log (race n log))"

lemma log_inv_Nil: "log_inv []"
  by (simp add: log_inv_def user_events_def)

lemma user_events_append [simp]: "user_events u (a @ b) = user_events u a @ user_events u b"
  by (simp add: user_events_def)

lemma stored_append [simp]: "stored u m (a @ b) \<longleftrightarrow> stored u m a \<or> stored u m b"
  by (simp add: stored_def)

lemma foldr_max_upt: "foldr max (map int [1..<Suc n]) a = (if n = 0 then a else max (int n) a)"
proof (induction n arbitrary: a)
  case (Suc n)
  have "foldr max (map int [1..<Suc (Suc n)]) a = foldr max (map int [1..<Suc n]) (max (int (Suc n)) a)"
    by simp
  then show ?case using Suc by auto
qed simp

lemma max_seq_length: "log_inv log \<Longrightarrow> max_seq u log = int (length (user_events u log))"
proof -
  assume "log_inv log"
  then have "map oe_seq (user_events u log) = map int [1..<Suc (length (user_events u log))]"
    unfolding log_inv_def by blast
  then show ?thesis unfolding max_seq_def by (simp only: foldr_max_upt) auto
qed

lemma seq_range:
  assumes "log_inv log" and "x \<in> set log" and "oe_user x = u"
  shows "1 \<le> oe_seq x \<and> oe_seq x \<le> int (length (user_events u log))"
proof -
  have "oe_seq x \<in> set (map oe_seq (user_events u log))" using assms(2,3) by (simp add: user_events_def)
  also have "map oe_seq (user_events u log) = map int [1..<Suc (length (user_events u log))]"
    using assms(1) unfolding log_inv_def by blast
  finally show ?thesis by auto
qed

lemma seq_taken:
  assumes "log_inv log" and "1 \<le> n" and "n \<le> int (length (user_events u log))"
  shows "\<exists>x \<in> set log. oe_user x = u \<and> oe_seq x = n"
proof -
  have "n \<in> set (map int [1..<Suc (length (user_events u log))])"
    using assms(2,3) by (auto simp: image_iff intro!: bexI [of _ "nat n"])
  also have "map int [1..<Suc (length (user_events u log))] = map oe_seq (user_events u log)"
    using assms(1) unfolding log_inv_def by metis
  finally show ?thesis by (auto simp: user_events_def)
qed

text \<open>One attempt: what each outcome says about the log it was checked against.\<close>

lemma append_event_spec:
  assumes "log_inv snap" and "log_inv log" and "prefix snap log" and "append_event snap user inc log = (res, log')"
  shows "log_inv log' \<and> prefix log log' \<and>
    (case res of
       Appended e \<Rightarrow> log' = log @ [e] \<and> \<not> stored user (in_msg inc) log \<and>
          e = \<lparr> oe_user = user, oe_seq = int (length (user_events user log)) + 1, oe_msg = in_msg inc,
                oe_kind = in_kind inc, oe_payload = in_payload inc \<rparr>
     | Already_Stored \<Rightarrow> log' = log \<and> stored user (in_msg inc) log
     | Seq_Conflict \<Rightarrow> log' = log \<and> length (user_events user snap) < length (user_events user log))"
proof -
  define n where "n = int (length (user_events user snap)) + 1"
  define e where "e = \<lparr> oe_user = user, oe_seq = n, oe_msg = in_msg inc, oe_kind = in_kind inc, oe_payload = in_payload inc \<rparr>"
  have def: "append_event snap user inc log =
     (if \<exists>x \<in> set log. oe_user x = user \<and> oe_msg x = in_msg inc then (Already_Stored, log)
      else if \<exists>x \<in> set log. oe_user x = user \<and> oe_seq x = n then (Seq_Conflict, log)
      else (Appended e, log @ [e]))"
    by (simp add: append_event_def Let_def max_seq_length [OF assms(1)] e_def n_def)
  have st: "(\<exists>x \<in> set log. oe_user x = user \<and> oe_msg x = in_msg inc) \<longleftrightarrow> stored user (in_msg inc) log"
    by (auto simp: stored_def)
  have le: "length (user_events user snap) \<le> length (user_events user log)"
    using assms(3) by (auto simp: prefix_def)
  consider (old) "stored user (in_msg inc) log"
    | (conflict) "\<not> stored user (in_msg inc) log" "\<exists>x \<in> set log. oe_user x = user \<and> oe_seq x = n"
    | (new) "\<not> stored user (in_msg inc) log" "\<not> (\<exists>x \<in> set log. oe_user x = user \<and> oe_seq x = n)"
    by blast
  then show ?thesis
  proof cases
    case old
    then show ?thesis using assms(2,4) def st by auto
  next
    case conflict
    then obtain x where "x \<in> set log" "oe_user x = user" "oe_seq x = n" by blast
    then have "length (user_events user snap) < length (user_events user log)"
      using seq_range [OF assms(2)] by (force simp: n_def)
    then show ?thesis using conflict assms(2,4) def st by auto
  next
    case new
    have eq: "length (user_events user snap) = length (user_events user log)"
    proof (rule ccontr)
      assume "length (user_events user snap) \<noteq> length (user_events user log)"
      then have "n \<le> int (length (user_events user log))" using le by (simp add: n_def)
      then show False using seq_taken [OF assms(2), of n user] new(2) by (simp add: n_def)
    qed
    have res: "res = Appended e" "log' = log @ [e]" using assms(4) def new st by auto
    have "log_inv (log @ [e])"
      unfolding log_inv_def
    proof (intro conjI allI)
      fix u
      have "map oe_seq (user_events u log) = map int [1..<Suc (length (user_events u log))]"
        using assms(2) unfolding log_inv_def by blast
      then show "map oe_seq (user_events u (log @ [e])) = map int [1..<Suc (length (user_events u (log @ [e])))]"
        using eq by (simp add: user_events_def e_def n_def)
    next
      show "distinct (map (\<lambda>e. (oe_user e, oe_msg e)) (log @ [e]))"
        using assms(2) new(1) by (auto simp: log_inv_def stored_def e_def)
    qed
    then show ?thesis using res new(1) eq by (simp add: e_def n_def)
  qed
qed

lemma append_loop_spec:
  assumes "log_inv log" and "legit_race race" and "append_loop k left fl race user inc log = (res, log')"
  shows "log_inv log' \<and> prefix log log' \<and>
    (case res of
       Inr (Some e) \<Rightarrow> oe_user e = user \<and> oe_msg e = in_msg inc \<and> oe_kind e = in_kind inc \<and>
          oe_payload e = in_payload inc \<and> \<not> stored user (in_msg inc) log \<and>
          (\<exists>before. log' = before @ [e] \<and> oe_seq e = int (length (user_events user before)) + 1)
     | Inr None \<Rightarrow> stored user (in_msg inc) log'
     | Inl err \<Rightarrow> err = Append_Failed \<and> (\<exists>n. fl n) \<or>
          err = Attempts_Exhausted \<and> length (user_events user log) + left \<le> length (user_events user log'))"
  using assms
proof (induction left arbitrary: k log)
  case (Suc left)
  let ?l = "race k log"
  have r: "log_inv ?l" "prefix log ?l" using Suc.prems(1,2) by (auto simp: legit_race_def)
  have mono: "stored u m log \<Longrightarrow> stored u m ?l" for u m using r(2) by (auto simp: prefix_def)
  show ?case
  proof (cases "fl k")
    case True
    then show ?thesis using Suc.prems(3) r by auto
  next
    case False
    obtain ar l2 where a: "append_event log user inc ?l = (ar, l2)" by (meson surj_pair)
    note S = append_event_spec [OF Suc.prems(1) r a]
    show ?thesis
    proof (cases ar)
      case (Appended e)
      then have "res = Inr (Some e)" "log' = l2" using Suc.prems(3) False a by (auto simp: Let_def)
      then show ?thesis using S Appended mono prefix_order.trans [OF r(2)] by auto
    next
      case Already_Stored
      then have "res = Inr None" "log' = l2" using Suc.prems(3) False a by (auto simp: Let_def)
      then show ?thesis using S Already_Stored prefix_order.trans [OF r(2)] by auto
    next
      case Seq_Conflict
      then have l2: "l2 = ?l" and grow: "length (user_events user log) < length (user_events user ?l)" using S by auto
      have "append_loop (k + 1) left fl race user inc ?l = (res, log')"
        using Suc.prems(3) False a Seq_Conflict l2 by (simp add: Let_def)
      from Suc.IH [OF r(1) Suc.prems(2) this]
      show ?thesis using grow mono prefix_order.trans [OF r(2)]
        by (auto split: sum.splits option.splits)
    qed
  qed
qed auto

text \<open>A whole ingest; the shared fact behind the properties below.\<close>

lemma ingest_spec:
  assumes "log_inv log" and "legit_race race" and "ingest lf fl race users inc log = (res, log')"
  shows "log_inv log' \<and> prefix log log' \<and>
    (\<forall>e. res = Inr (Some e) \<longrightarrow>
       (\<exists>u before. user_of_broadcaster users (in_broadcaster inc) = Some u \<and> oe_user e = ou_id u \<and>
          oe_msg e = in_msg inc \<and> oe_kind e = in_kind inc \<and> oe_payload e = in_payload inc \<and>
          \<not> stored (ou_id u) (in_msg inc) log \<and> log' = before @ [e] \<and>
          oe_seq e = int (length (user_events (ou_id u) before)) + 1)) \<and>
    (res = Inr None \<longrightarrow>
       (\<exists>u. user_of_broadcaster users (in_broadcaster inc) = Some u \<and> stored (ou_id u) (in_msg inc) log'))"
proof (cases "lf \<or> user_of_broadcaster users (in_broadcaster inc) = None")
  case True
  then have "log' = log" "\<exists>err. res = Inl err" using assms(3) by (auto simp: ingest_def split: if_splits)
  then show ?thesis using assms(1) by auto
next
  case False
  then obtain u where u: "user_of_broadcaster users (in_broadcaster inc) = Some u" by auto
  have "append_loop 0 seq_retries fl race (ou_id u) inc log = (res, log')"
    using assms(3) False u by (simp add: ingest_def)
  from append_loop_spec [OF assms(1,2) this] u show ?thesis by (auto split: sum.splits option.splits)
qed

section \<open>Properties of the log\<close>

text \<open>
  C4: Whatever else commits meanwhile and whichever statements fail, an ingest leaves the log an
  extension of what it was in which every broadcaster's positions are 1, 2, ..., n without gap or
  repetition and no message is stored twice; when it reports a new event, that event is the last one
  of the log, at the next position, with the message, kind and payload handed in, and the message was
  not stored before; when it reports a known message, the message is in the log.
\<close>

theorem ingest_keeps_log_gapless:
  assumes "log_inv log" and "legit_race race" and "ingest lf fl race users inc log = (res, log')"
  shows "log_inv log' \<and> prefix log log' \<and>
    (\<forall>e. res = Inr (Some e) \<longrightarrow>
       (\<exists>u before. user_of_broadcaster users (in_broadcaster inc) = Some u \<and> oe_user e = ou_id u \<and>
          oe_msg e = in_msg inc \<and> oe_kind e = in_kind inc \<and> oe_payload e = in_payload inc \<and>
          \<not> stored (ou_id u) (in_msg inc) log \<and> log' = before @ [e] \<and>
          oe_seq e = int (length (user_events (ou_id u) before)) + 1)) \<and>
    (res = Inr None \<longrightarrow>
       (\<exists>u. user_of_broadcaster users (in_broadcaster inc) = Some u \<and> stored (ou_id u) (in_msg inc) log'))"
  by (rule ingest_spec [OF assms])

lemma legit_no_race: "legit_race (\<lambda>_ log. log)"
  by (simp add: legit_race_def)

definition demo_cheer :: "string \<Rightarrow> incoming" where
  "demo_cheer msg = \<lparr> in_msg = msg, in_broadcaster = ''77'', in_kind = Kind_Cheer, in_payload = ''{}'' \<rparr>"

definition demo_users :: "overlay_user list" where
  "demo_users = [\<lparr> ou_id = 4, ou_twitch = Some ''77'' \<rparr>]"

theorem ingest_keeps_log_gapless_witness:
  "\<exists>e. ingest False no_faults (\<lambda>_ log. log) demo_users (demo_cheer ''a'') [] = (Inr (Some e), [e]) \<and>
     oe_seq e = 1 \<and> log_inv [e]"
proof -
  obtain res log' where i: "ingest False no_faults (\<lambda>_ log. log) demo_users (demo_cheer ''a'') [] = (res, log')"
    by (meson surj_pair)
  have v: "ingest False no_faults (\<lambda>_ log. log) demo_users (demo_cheer ''a'') [] =
      (Inr (Some \<lparr> oe_user = 4, oe_seq = 1, oe_msg = ''a'', oe_kind = Kind_Cheer, oe_payload = ''{}'' \<rparr>),
       [\<lparr> oe_user = 4, oe_seq = 1, oe_msg = ''a'', oe_kind = Kind_Cheer, oe_payload = ''{}'' \<rparr>])"
    by code_simp
  show ?thesis using ingest_keeps_log_gapless [OF log_inv_Nil legit_no_race i] i v by auto
qed

fun deliver_again ::
  "overlay_user list \<Rightarrow> incoming \<Rightarrow> (bool \<times> faults \<times> (nat \<Rightarrow> event_log \<Rightarrow> event_log)) list \<Rightarrow> event_log
     \<Rightarrow> (ingest_error + overlay_event option) list \<times> event_log" where
  "deliver_again users inc [] log = ([], log)"
| "deliver_again users inc ((lf, fl, race) # rest) log =
     (case ingest lf fl race users inc log of (res, log1) \<Rightarrow>
        (case deliver_again users inc rest log1 of (ress, log2) \<Rightarrow> (res # ress, log2)))"

definition is_new :: "ingest_error + overlay_event option \<Rightarrow> bool" where
  "is_new res = (case res of Inr (Some _) \<Rightarrow> True | _ \<Rightarrow> False)"

lemma deliver_known:
  assumes "log_inv log" and "\<forall>(lf, fl, race) \<in> set runs. legit_race race"
    and "user_of_broadcaster users (in_broadcaster inc) = Some u" and "stored (ou_id u) (in_msg inc) log"
    and "deliver_again users inc runs log = (ress, log')"
  shows "filter is_new ress = [] \<and> log_inv log'"
  using assms
proof (induction runs arbitrary: log ress log')
  case (Cons run runs)
  obtain lf fl race where run: "run = (lf, fl, race)" by (metis prod_cases3)
  obtain res log1 where i: "ingest lf fl race users inc log = (res, log1)" by (meson surj_pair)
  obtain ress2 log2 where d: "deliver_again users inc runs log1 = (ress2, log2)" by (meson surj_pair)
  have l: "legit_race race" using Cons.prems(2) run by auto
  note G = ingest_spec [OF Cons.prems(1) l i]
  have st: "stored (ou_id u) (in_msg inc) log1" using G Cons.prems(4) by (auto simp: prefix_def)
  have "filter is_new ress2 = [] \<and> log_inv log2"
    using Cons.IH [OF _ _ Cons.prems(3) st d] G Cons.prems(2) by auto
  moreover have "\<not> is_new res"
  proof
    assume "is_new res"
    then obtain e where "res = Inr (Some e)" by (auto simp: is_new_def split: sum.splits option.splits)
    then show False using G Cons.prems(3,4) by auto
  qed
  ultimately show ?case using Cons.prems(5) run i d by auto
qed simp

text \<open>
  Redelivery is absorbed: however often a message is handed in again, with whatever failures and
  concurrent commits, at most one of the deliveries is reported as new, and the log holds the message
  at most once.
\<close>

theorem redelivery_is_stored_once:
  assumes "log_inv log" and "\<forall>(lf, fl, race) \<in> set runs. legit_race race"
    and "deliver_again users inc runs log = (ress, log')"
  shows "length (filter is_new ress) \<le> 1 \<and>
     (\<forall>u. length (filter (\<lambda>e. oe_user e = u \<and> oe_msg e = in_msg inc) log') \<le> 1)"
proof -
  have "length (filter is_new ress) \<le> 1 \<and> log_inv log'"
    using assms
  proof (induction runs arbitrary: log ress log')
    case (Cons run runs)
    obtain lf fl race where run: "run = (lf, fl, race)" by (metis prod_cases3)
    obtain res log1 where i: "ingest lf fl race users inc log = (res, log1)" by (meson surj_pair)
    obtain ress2 log2 where d: "deliver_again users inc runs log1 = (ress2, log2)" by (meson surj_pair)
    have l: "legit_race race" and ls: "\<forall>(lf, fl, race) \<in> set runs. legit_race race" using Cons.prems(2) run by auto
    have out: "ress = res # ress2" "log' = log2" using Cons.prems(3) run i d by auto
    note G = ingest_spec [OF Cons.prems(1) l i]
    show ?case
    proof (cases "is_new res")
      case True
      then obtain e where "res = Inr (Some e)" by (auto simp: is_new_def split: sum.splits option.splits)
      then obtain u where u: "user_of_broadcaster users (in_broadcaster inc) = Some u" "stored (ou_id u) (in_msg inc) log1"
        using G by (fastforce simp: stored_def)
      then show ?thesis using deliver_known [OF _ ls u(1,2) d] G out True by simp
    next
      case False
      then show ?thesis using Cons.IH [OF _ ls d] G out by simp
    qed
  qed simp
  moreover have "length (filter (\<lambda>e. oe_user e = u \<and> oe_msg e = in_msg inc) log') \<le> 1" if "log_inv log'" for u
  proof (cases "filter (\<lambda>e. oe_user e = u \<and> oe_msg e = in_msg inc) log'")
    case (Cons e es)
    have "e \<in> set (filter (\<lambda>e. oe_user e = u \<and> oe_msg e = in_msg inc) log')" unfolding Cons by simp
    then have e: "e \<in> set log'" "oe_user e = u" "oe_msg e = in_msg inc" by simp_all
    have "filter (\<lambda>x. (oe_user x, oe_msg x) = (oe_user e, oe_msg e)) log' = [e]"
      using that e(1) by (intro filter_distinct_key [where key = "\<lambda>x. (oe_user x, oe_msg x)"]) (auto simp: log_inv_def)
    then show ?thesis using e by simp
  qed simp
  ultimately show ?thesis by blast
qed

theorem redelivery_is_stored_once_witness:
  "length (filter is_new (fst (deliver_again demo_users (demo_cheer ''a'')
     [(True, no_faults, \<lambda>_ log. log), (False, no_faults, \<lambda>_ log. log), (False, no_faults, \<lambda>_ log. log)] []))) \<le> 1"
  using redelivery_is_stored_once [OF log_inv_Nil, of "[(True, no_faults, \<lambda>_ log. log),
    (False, no_faults, \<lambda>_ log. log), (False, no_faults, \<lambda>_ log. log)]" demo_users "demo_cheer ''a''", OF _ surjective_pairing]
  by (simp add: legit_no_race)

text \<open>
  An ingest for a known broadcaster fails only for a stated reason: a failing lookup, a failing
  statement, or five lost races, each of which made the broadcaster's log longer. Without failures and
  without contention it always returns, with a new event or a known message.
\<close>

theorem ingest_fails_only_for_cause:
  assumes "log_inv log" and "legit_race race"
    and "user_of_broadcaster users (in_broadcaster inc) = Some u"
    and "ingest lf fl race users inc log = (Inl err, log')"
  shows "err = Resolve_Failed \<and> lf \<or> err = Append_Failed \<and> (\<exists>n. fl n) \<or>
     err = Attempts_Exhausted \<and> length (user_events (ou_id u) log) + 5 \<le> length (user_events (ou_id u) log')"
proof (cases lf)
  case True
  then show ?thesis using assms(4) by (simp add: ingest_def)
next
  case False
  then have "append_loop 0 seq_retries fl race (ou_id u) inc log = (Inl err, log')"
    using assms(3,4) by (simp add: ingest_def)
  from append_loop_spec [OF assms(1,2) this] show ?thesis by (auto simp: seq_retries_def)
qed

theorem ingest_fails_only_for_cause_witness:
  "\<forall>err. fst (ingest False no_faults (\<lambda>_ log. log) demo_users (demo_cheer ''b'') []) \<noteq> Inl err"
proof (intro allI notI)
  fix err assume "fst (ingest False no_faults (\<lambda>_ log. log) demo_users (demo_cheer ''b'') []) = Inl err"
  then obtain log' where i: "ingest False no_faults (\<lambda>_ log. log) demo_users (demo_cheer ''b'') [] = (Inl err, log')"
    by (metis prod.collapse)
  have u: "user_of_broadcaster demo_users (in_broadcaster (demo_cheer ''b'')) = Some \<lparr> ou_id = 4, ou_twitch = Some ''77'' \<rparr>"
    by code_simp
  have "length (snd (ingest False no_faults (\<lambda>_ log. log) demo_users (demo_cheer ''b'') [])) = 1" by code_simp
  then have "length log' = 1" using i by simp
  moreover have "length (user_events 4 log') \<le> length log'" by (simp add: user_events_def)
  ultimately show False
    using ingest_fails_only_for_cause [OF log_inv_Nil legit_no_race u i] by (auto simp: no_faults_def user_events_def)
qed

section \<open>Replay\<close>

lemma user_events_sorted:
  assumes "log_inv log"
  shows "sorted_wrt (\<lambda>a b. oe_seq a < oe_seq b) (user_events u log)"
proof -
  have "map oe_seq (user_events u log) = map int [1..<Suc (length (user_events u log))]"
    using assms unfolding log_inv_def by blast
  moreover have "sorted_wrt (<) (map int [1..<Suc n])" for n
    using sorted_wrt_upt [of 1 "Suc n"] by (simp add: sorted_wrt_map del: upt_Suc)
  ultimately have "sorted_wrt (<) (map oe_seq (user_events u log))" by metis
  then show ?thesis by (simp add: sorted_wrt_map)
qed

text \<open>The missed events of a broadcaster after a position: in the log's own order.\<close>

definition missed :: "int \<Rightarrow> int \<Rightarrow> event_log \<Rightarrow> event_log" where
  "missed u since log = filter (\<lambda>e. oe_seq e > since \<and> oe_kind e \<noteq> Kind_Command) (user_events u log)"

lemma missed_sorted: "log_inv log \<Longrightarrow> sorted_wrt (\<lambda>a b. oe_seq a < oe_seq b) (missed u since log)"
  unfolding missed_def by (intro sorted_wrt_filter user_events_sorted)

lemma events_after_missed:
  assumes "log_inv log"
  shows "events_after False u since limit log = Some (take (clamp_limit limit) (missed u since log))"
proof -
  have "filter (\<lambda>e. oe_user e = u \<and> oe_seq e > since \<and> oe_kind e \<noteq> Kind_Command) log = missed u since log"
    by (auto simp: missed_def user_events_def intro: filter_cong)
  moreover have "sort_key oe_seq (missed u since log) = missed u since log"
    using sorted_wrt_mono_rel [OF _ missed_sorted [OF assms, of u since], of "\<lambda>a b. oe_seq a \<le> oe_seq b"]
    by (intro sort_key_id_if_sorted) (auto simp: sorted_wrt_map)
  ultimately show ?thesis by (simp add: events_after_def)
qed

end
