(* ===== verification/Overlay_Connect.thy ===== *)
theory Overlay_Connect
  imports Overlay_Log_Properties
begin

text \<open>
  The live side of the overlay relay: the connection registry
  (\<^verbatim>\<open>internal/libraries/overlayrelay/registry.go\<close>) and the stream one connection is sent
  (\<^verbatim>\<open>cmd/core-api/endpoints/overlay/connect.go\<close>): paged replay, the ready frame, the frames that
  arrived meanwhile, and the live frames.
\<close>

section \<open>The registry\<close>

datatype server_frame = Frame_Ready | Frame_Pong | Frame_Event overlay_event

text \<open>A connection is a number; two connections of one device are different connections.\<close>

record conn =
  cn_user :: int
  cn_device :: int
  cn_out :: "server_frame list"
  cn_closed :: bool

record registry =
  rg_map :: "int \<Rightarrow> nat option"
  rg_conns :: "nat \<Rightarrow> conn"
  rg_next :: nat

definition outbox_depth :: nat where
  "outbox_depth = 64"

definition new_registry :: registry where
  "new_registry = \<lparr> rg_map = (\<lambda>_. None),
     rg_conns = (\<lambda>_. \<lparr> cn_user = 0, cn_device = 0, cn_out = [], cn_closed = True \<rparr>), rg_next = 0 \<rparr>"

definition close_conn :: "nat \<Rightarrow> registry \<Rightarrow> registry" where
  "close_conn c r = r\<lparr> rg_conns := (rg_conns r)(c := (rg_conns r c)\<lparr> cn_closed := True \<rparr>) \<rparr>"

definition registry_add :: "int \<Rightarrow> int \<Rightarrow> registry \<Rightarrow> nat \<times> registry" where
  "registry_add user dev r =
     (let c = rg_next r;
          previous = rg_map r user;
          r1 = r\<lparr> rg_map := (rg_map r)(user \<mapsto> c),
                  rg_conns := (rg_conns r)(c := \<lparr> cn_user = user, cn_device = dev, cn_out = [], cn_closed = False \<rparr>),
                  rg_next := c + 1 \<rparr>
      in (c, case previous of None \<Rightarrow> r1 | Some p \<Rightarrow> close_conn p r1))"

definition registry_remove :: "nat \<Rightarrow> registry \<Rightarrow> registry" where
  "registry_remove c r =
     (let user = cn_user (rg_conns r c);
          r1 = (if rg_map r user = Some c then r\<lparr> rg_map := (rg_map r)(user := None) \<rparr> else r)
      in close_conn c r1)"

definition registry_push :: "int \<Rightarrow> server_frame \<Rightarrow> registry \<Rightarrow> registry" where
  "registry_push user frame r =
     (case rg_map r user of
        None \<Rightarrow> r
      | Some c \<Rightarrow>
          if length (cn_out (rg_conns r c)) < outbox_depth
          then r\<lparr> rg_conns := (rg_conns r)(c := (rg_conns r c)\<lparr> cn_out := cn_out (rg_conns r c) @ [frame] \<rparr>) \<rparr>
          else close_conn c r)"

definition is_connected :: "int \<Rightarrow> registry \<Rightarrow> bool" where
  "is_connected user r \<longleftrightarrow> rg_map r user \<noteq> None"

definition connected_device_id :: "int \<Rightarrow> registry \<Rightarrow> int option" where
  "connected_device_id user r = map_option (\<lambda>c. cn_device (rg_conns r c)) (rg_map r user)"

definition disconnect_device :: "int \<Rightarrow> int \<Rightarrow> registry \<Rightarrow> registry" where
  "disconnect_device user dev r =
     (case rg_map r user of
        None \<Rightarrow> r
      | Some c \<Rightarrow> if cn_device (rg_conns r c) = dev then close_conn c r else r)"

text \<open>The writer takes the next frame of its queue.\<close>

definition registry_drain :: "nat \<Rightarrow> registry \<Rightarrow> registry" where
  "registry_drain c r = r\<lparr> rg_conns := (rg_conns r)(c := (rg_conns r c)\<lparr> cn_out := tl (cn_out (rg_conns r c)) \<rparr>) \<rparr>"

datatype registry_op =
    Op_Add int int | Op_Remove nat | Op_Push int server_frame | Op_Disconnect int int | Op_Drain nat

fun registry_step :: "registry_op \<Rightarrow> registry \<Rightarrow> registry" where
  "registry_step (Op_Add u d) r = snd (registry_add u d r)"
| "registry_step (Op_Remove c) r = (if c < rg_next r then registry_remove c r else r)"
| "registry_step (Op_Push u f) r = registry_push u f r"
| "registry_step (Op_Disconnect u d) r = disconnect_device u d r"
| "registry_step (Op_Drain c) r = (if c < rg_next r then registry_drain c r else r)"

section \<open>The stream of a connection\<close>

definition max_replay_per_conn :: nat where
  "max_replay_per_conn = 5000"

record stream =
  sm_sent :: event_log
  sm_cursor :: int
  sm_last_replayed :: int
  sm_replayed :: nat
  sm_pending :: "server_frame list"

text \<open>
  The handler starts at the overlay's own position, but not before the device was paired.
\<close>

definition start_cursor :: "int \<Rightarrow> int \<Rightarrow> int" where
  "start_cursor since start_seq =
     (let since' = (if since < 0 then 0 else since)
      in if start_seq > since' then start_seq else since')"

definition start_stream :: "int \<Rightarrow> int \<Rightarrow> stream" where
  "start_stream since start_seq =
     \<lparr> sm_sent = [], sm_cursor = start_cursor since start_seq, sm_last_replayed = 0,
       sm_replayed = 0, sm_pending = [] \<rparr>"

text \<open>
  One page. After each event the live outbox is drained into the pending buffer: \<open>live n\<close> are the
  frames found after the \<open>n\<close>-th replayed event. False is too much pending.
\<close>

fun replay_page :: "(nat \<Rightarrow> server_frame list) \<Rightarrow> event_log \<Rightarrow> stream \<Rightarrow> bool \<times> stream" where
  "replay_page live [] s = (True, s)"
| "replay_page live (e # es) s =
     (let n = sm_replayed s + 1;
          s' = s\<lparr> sm_sent := sm_sent s @ [e], sm_cursor := oe_seq e, sm_last_replayed := oe_seq e,
                  sm_replayed := n, sm_pending := sm_pending s @ live n \<rparr>
      in if length (sm_pending s') > max_replay_per_conn then (False, s')
         else replay_page live es s')"

lemma replay_page_count: "replay_page live es s = (True, s') \<Longrightarrow> sm_replayed s' = sm_replayed s + length es"
  by (induction es arbitrary: s) (auto simp: Let_def split: if_splits)

datatype replay_end = Caught_Up | Replay_Failed | Overloaded | Budget_Reached

text \<open>
  The page loop: \<open>logs k\<close> is the log the \<open>k\<close>-th query sees, \<open>None\<close> a failing query. It ends because a
  full page uses up 500 of the 5000 events a connection may replay.
\<close>

function replay_loop ::
  "int \<Rightarrow> (nat \<Rightarrow> event_log option) \<Rightarrow> (nat \<Rightarrow> server_frame list) \<Rightarrow> nat \<Rightarrow> stream \<Rightarrow> replay_end \<times> stream" where
  "replay_loop user logs live k s =
     (case Option.bind (logs k) (events_after False user (sm_cursor s) (int max_replay)) of
        None \<Rightarrow> (Replay_Failed, s)
      | Some backlog \<Rightarrow>
          (case replay_page live backlog s of
             (False, s') \<Rightarrow> (Overloaded, s')
           | (True, s') \<Rightarrow>
               if length backlog < max_replay then (Caught_Up, s')
               else if sm_replayed s' \<ge> max_replay_per_conn then (Budget_Reached, s')
               else replay_loop user logs live (k + 1) s'))"
  by pat_completeness auto

termination
proof (relation "measure (\<lambda>(user, logs, live, k, s). max_replay_per_conn - sm_replayed s)", goal_cases)
  case 1
  show ?case by simp
next
  case (2 user logs live k s backlog x y)
  then have "sm_replayed y = sm_replayed s + length backlog" using replay_page_count [of live backlog s y] by simp
  then show ?case using 2 by (simp add: max_replay_def max_replay_per_conn_def)
qed

text \<open>Frames the replay already covered are dropped; frames without a position pass.\<close>

definition not_covered :: "int \<Rightarrow> server_frame \<Rightarrow> bool" where
  "not_covered last_replayed f = (case f of Frame_Event e \<Rightarrow> oe_seq e > last_replayed | _ \<Rightarrow> True)"

text \<open>
  The frames a connection is sent while its writes succeed: \<open>drained\<close> is what the last drain before
  the flush finds, \<open>later\<close> what arrives afterwards.
\<close>

definition connect_stream ::
  "int \<Rightarrow> int \<Rightarrow> int \<Rightarrow> (nat \<Rightarrow> event_log option) \<Rightarrow> (nat \<Rightarrow> server_frame list) \<Rightarrow> server_frame list
     \<Rightarrow> server_frame list \<Rightarrow> replay_end \<times> server_frame list" where
  "connect_stream user since start_seq logs live drained later =
     (case replay_loop user logs live 0 (start_stream since start_seq) of
        (Caught_Up, s) \<Rightarrow>
          let backlog = map Frame_Event (sm_sent s) @ [Frame_Ready];
              pending = sm_pending s @ drained
          in if length pending > max_replay_per_conn then (Overloaded, backlog)
             else (Caught_Up, backlog @ filter (not_covered (sm_last_replayed s)) pending
                                @ filter (not_covered (sm_last_replayed s)) later)
      | (other, s) \<Rightarrow> (other, map Frame_Event (sm_sent s)))"

section \<open>The reader\<close>

text \<open>
  The goroutine that drains a connection: what each read gives, in order, and whether the answer to a ping could be
  written. The result is the number of pongs and whether the connection has been cancelled.
\<close>

datatype client_read = Read_Broken | Not_A_Frame | Client_Frame string

fun read_pump :: "(client_read \<times> bool) list \<Rightarrow> nat \<times> bool" where
  "read_pump [] = (0, False)"
| "read_pump ((r, write_ok) # rs) =
     (case r of
        Read_Broken \<Rightarrow> (0, True)
      | Not_A_Frame \<Rightarrow> read_pump rs
      | Client_Frame kind \<Rightarrow>
          if kind = ''ping'' then
            (if write_ok then (case read_pump rs of (n, ended) \<Rightarrow> (n + 1, ended)) else (0, True))
          else read_pump rs)"

text \<open>A reader that goes on has answered every ping.\<close>

lemma read_pump_answers:
  "read_pump rs = (n, False) \<Longrightarrow> n = length (filter (\<lambda>(r, _). r = Client_Frame ''ping'') rs)"
  by (induction rs arbitrary: n rule: read_pump.induct)
    (auto split: client_read.splits if_splits prod.splits)

text \<open>A connection ends with the first read that fails, whatever follows.\<close>

lemma read_pump_ends: "snd (read_pump (rs @ (Read_Broken, ok) # after))"
  by (induction rs rule: read_pump.induct) (auto split: client_read.splits prod.splits)

end
