(* ===== verification/Overlay_Connect_Properties.thy ===== *)
theory Overlay_Connect_Properties
  imports Overlay_Connect
begin

text \<open>
  One open connection per broadcaster in every run of the registry; the stream of a connection that
  catches up contains every missed monetisation event once and in order; commands can be lost in the
  window of a connect.
\<close>

declare replay_loop.simps [simp del]

section \<open>The registry\<close>

definition registry_inv :: "registry \<Rightarrow> bool" where
  "registry_inv r \<longleftrightarrow>
     (\<forall>u c. rg_map r u = Some c \<longrightarrow> c < rg_next r \<and> cn_user (rg_conns r c) = u) \<and>
     (\<forall>c. \<not> cn_closed (rg_conns r c) \<longrightarrow> rg_map r (cn_user (rg_conns r c)) = Some c) \<and>
     (\<forall>c. length (cn_out (rg_conns r c)) \<le> outbox_depth)"

lemma registry_invI:
  assumes "\<And>u c. rg_map r u = Some c \<Longrightarrow> c < rg_next r"
    and "\<And>u c. rg_map r u = Some c \<Longrightarrow> cn_user (rg_conns r c) = u"
    and "\<And>c. \<not> cn_closed (rg_conns r c) \<Longrightarrow> rg_map r (cn_user (rg_conns r c)) = Some c"
    and "\<And>c. length (cn_out (rg_conns r c)) \<le> outbox_depth"
  shows "registry_inv r"
  using assms unfolding registry_inv_def by blast

lemma registry_invD:
  assumes "registry_inv r"
  shows "rg_map r u = Some c \<Longrightarrow> c < rg_next r"
    and "rg_map r u = Some c \<Longrightarrow> cn_user (rg_conns r c) = u"
    and "\<not> cn_closed (rg_conns r c) \<Longrightarrow> rg_map r (cn_user (rg_conns r c)) = Some c"
    and "length (cn_out (rg_conns r c)) \<le> outbox_depth"
  using assms unfolding registry_inv_def by blast+

lemma registry_inv_new: "registry_inv new_registry"
  by (rule registry_invI) (simp_all add: new_registry_def)

lemma close_conn_sel [simp]:
  "rg_map (close_conn c r) = rg_map r" "rg_next (close_conn c r) = rg_next r"
  "cn_user (rg_conns (close_conn c r) d) = cn_user (rg_conns r d)"
  "cn_device (rg_conns (close_conn c r) d) = cn_device (rg_conns r d)"
  "cn_out (rg_conns (close_conn c r) d) = cn_out (rg_conns r d)"
  "cn_closed (rg_conns (close_conn c r) d) = (d = c \<or> cn_closed (rg_conns r d))"
  by (simp_all add: close_conn_def)

lemma registry_inv_close: "registry_inv r \<Longrightarrow> registry_inv (close_conn c r)"
  by (rule registry_invI) (auto dest: registry_invD(1-3) intro: registry_invD(4))

lemma registry_inv_add:
  assumes "registry_inv r"
  shows "registry_inv (snd (registry_add u d r))"
proof -
  define r1 where "r1 = r\<lparr> rg_map := (rg_map r)(u \<mapsto> rg_next r),
      rg_conns := (rg_conns r)(rg_next r := \<lparr> cn_user = u, cn_device = d, cn_out = [], cn_closed = False \<rparr>),
      rg_next := rg_next r + 1 \<rparr>"
  have r: "snd (registry_add u d r) = (case rg_map r u of None \<Rightarrow> r1 | Some p \<Rightarrow> close_conn p r1)"
    unfolding registry_add_def r1_def Let_def snd_conv ..
  have sel: "rg_map r1 = (rg_map r)(u \<mapsto> rg_next r)" "rg_next r1 = rg_next r + 1"
    "rg_conns r1 c = (if c = rg_next r then \<lparr> cn_user = u, cn_device = d, cn_out = [], cn_closed = False \<rparr> else rg_conns r c)" for c
    by (simp_all add: r1_def)
  note D = registry_invD [OF assms]
  have lt: "rg_map r v \<noteq> Some (rg_next r)" for v using D(1) [of v "rg_next r"] by auto
  show ?thesis
  proof (rule registry_invI)
    fix v c assume m: "rg_map (snd (registry_add u d r)) v = Some c"
    then have m': "rg_map r1 v = Some c" by (simp add: r split: option.splits)
    show "c < rg_next (snd (registry_add u d r))"
      using m' D(1) [of v c] by (simp add: r sel split: option.splits if_splits)
    show "cn_user (rg_conns (snd (registry_add u d r)) c) = v"
      using m' D(2) [of v c] lt [of v] by (simp add: r sel split: option.splits if_splits)
  next
    fix c assume o: "\<not> cn_closed (rg_conns (snd (registry_add u d r)) c)"
    show "rg_map (snd (registry_add u d r)) (cn_user (rg_conns (snd (registry_add u d r)) c)) = Some c"
    proof (cases "c = rg_next r")
      case True
      then show ?thesis by (simp add: r sel split: option.splits)
    next
      case False
      then have "\<not> cn_closed (rg_conns r c)" and "rg_map r u \<noteq> Some c"
        using o by (auto simp: r sel split: option.splits)
      moreover from this have "cn_user (rg_conns r c) \<noteq> u" using D(3) [of c] by auto
      ultimately show ?thesis using False D(3) [of c] by (simp add: r sel split: option.splits)
    qed
  next
    fix c show "length (cn_out (rg_conns (snd (registry_add u d r)) c)) \<le> outbox_depth"
      using D(4) [of c] by (simp add: r sel split: option.splits)
  qed
qed

lemma registry_inv_remove:
  assumes "registry_inv r"
  shows "registry_inv (registry_remove c r)"
proof -
  note D = registry_invD [OF assms]
  define m where "m = (if rg_map r (cn_user (rg_conns r c)) = Some c then (rg_map r)(cn_user (rg_conns r c) := None) else rg_map r)"
  have r: "registry_remove c r = close_conn c (r\<lparr> rg_map := m \<rparr>)"
    by (simp add: registry_remove_def m_def Let_def)
  have m: "m v = Some e \<Longrightarrow> rg_map r v = Some e" for v e by (auto simp: m_def split: if_splits)
  have keep: "e \<noteq> c \<Longrightarrow> rg_map r v = Some e \<Longrightarrow> m v = Some e" for v e by (auto simp: m_def)
  show ?thesis
  proof (rule registry_invI)
    fix v e assume "rg_map (registry_remove c r) v = Some e"
    then have e: "rg_map r v = Some e" using m by (simp add: r)
    show "e < rg_next (registry_remove c r)" using D(1) [OF e] by (simp add: r)
    show "cn_user (rg_conns (registry_remove c r) e) = v" using D(2) [OF e] by (simp add: r)
  next
    fix e assume "\<not> cn_closed (rg_conns (registry_remove c r) e)"
    then have "e \<noteq> c" "\<not> cn_closed (rg_conns r e)" by (simp_all add: r)
    then show "rg_map (registry_remove c r) (cn_user (rg_conns (registry_remove c r) e)) = Some e"
      using keep [OF _ D(3) [of e]] by (simp add: r)
  next
    fix e show "length (cn_out (rg_conns (registry_remove c r) e)) \<le> outbox_depth" using D(4) [of e] by (simp add: r)
  qed
qed

text \<open>An operation that only rewrites outboxes within their depth keeps the invariant.\<close>

lemma registry_inv_out:
  assumes "registry_inv r" and "length out \<le> outbox_depth"
  shows "registry_inv (r\<lparr> rg_conns := (rg_conns r)(c := (rg_conns r c)\<lparr> cn_out := out \<rparr>) \<rparr>)"
  by (rule registry_invI)
     (use assms(2) in \<open>auto dest: registry_invD(1-3) [OF assms(1)] intro: registry_invD(4) [OF assms(1)]\<close>)

lemma registry_inv_push: "registry_inv r \<Longrightarrow> registry_inv (registry_push u f r)"
  using registry_inv_close [of r] registry_inv_out [of r]
  by (simp add: registry_push_def split: option.splits)

lemma registry_inv_disconnect: "registry_inv r \<Longrightarrow> registry_inv (disconnect_device u d r)"
  using registry_inv_close [of r] by (simp add: disconnect_device_def split: option.splits)

lemma registry_inv_drain: "registry_inv r \<Longrightarrow> registry_inv (registry_drain c r)"
proof -
  assume i: "registry_inv r"
  have "length (tl (cn_out (rg_conns r c))) \<le> outbox_depth" using registry_invD(4) [OF i, of c] by simp
  then show ?thesis unfolding registry_drain_def by (rule registry_inv_out [OF i])
qed

lemmas registry_keeps =
  registry_inv_add registry_inv_remove registry_inv_push registry_inv_disconnect registry_inv_drain

lemma registry_inv_step: "registry_inv r \<Longrightarrow> registry_inv (registry_step op r)"
  by (cases op) (simp_all add: registry_keeps)

lemma registry_inv_run: "registry_inv r \<Longrightarrow> registry_inv (fold registry_step ops r)"
  by (induction ops arbitrary: r) (simp_all add: registry_inv_step)

text \<open>
  In every history of connects, teardowns, pushes, disconnects and reads, a broadcaster has at most
  one open connection, it is the registered one, and no outbox holds more than 64 frames. A displaced
  connection that tears down late never evicts its replacement.
\<close>

theorem one_open_connection:
  "let r = fold registry_step ops new_registry
   in (\<forall>a b. \<not> cn_closed (rg_conns r a) \<and> \<not> cn_closed (rg_conns r b) \<and>
          cn_user (rg_conns r a) = cn_user (rg_conns r b) \<longrightarrow> a = b) \<and>
      (\<forall>a. \<not> cn_closed (rg_conns r a) \<longrightarrow> connected_device_id (cn_user (rg_conns r a)) r = Some (cn_device (rg_conns r a))) \<and>
      (\<forall>a. length (cn_out (rg_conns r a)) \<le> 64) \<and>
      (\<forall>u a b. rg_map r u = Some b \<and> a \<noteq> b \<longrightarrow> rg_map (registry_remove a r) u = Some b)"
proof -
  define r where "r = fold registry_step ops new_registry"
  have "registry_inv r" unfolding r_def by (rule registry_inv_run [OF registry_inv_new])
  then have o: "\<not> cn_closed (rg_conns r c) \<Longrightarrow> rg_map r (cn_user (rg_conns r c)) = Some c"
    and l: "length (cn_out (rg_conns r c)) \<le> 64" for c
    using registry_invD(3,4) [of r c] by (auto simp: outbox_depth_def)
  show ?thesis unfolding r_def [symmetric] Let_def
  proof (intro conjI allI impI)
    fix a b
    assume "\<not> cn_closed (rg_conns r a) \<and> \<not> cn_closed (rg_conns r b) \<and> cn_user (rg_conns r a) = cn_user (rg_conns r b)"
    then show "a = b" using o [of a] o [of b] by (metis option.inject)
  next
    fix a assume "\<not> cn_closed (rg_conns r a)"
    then show "connected_device_id (cn_user (rg_conns r a)) r = Some (cn_device (rg_conns r a))"
      using o [of a] by (simp add: connected_device_id_def)
  next
    fix a show "length (cn_out (rg_conns r a)) \<le> 64" by (rule l)
  next
    fix u a b assume "rg_map r u = Some b \<and> a \<noteq> b"
    then show "rg_map (registry_remove a r) u = Some b" by (auto simp: registry_remove_def Let_def)
  qed
qed

theorem one_open_connection_witness:
  "let r = fold registry_step [Op_Add 4 1, Op_Add 4 2, Op_Remove 0] new_registry
   in connected_device_id 4 r = Some 2 \<and> (\<forall>u a b. rg_map r u = Some b \<and> a \<noteq> b \<longrightarrow> rg_map (registry_remove a r) u = Some b)"
proof -
  have "connected_device_id 4 (fold registry_step [Op_Add 4 1, Op_Add 4 2, Op_Remove 0] new_registry) = Some 2"
    by code_simp
  then show ?thesis using one_open_connection [of "[Op_Add 4 1, Op_Add 4 2, Op_Remove 0]"] unfolding Let_def by blast
qed

text \<open>
  A push is never silent: with an overlay registered, the frame is appended to its outbox behind
  everything queued before, or the connection is closed (and will replay); other broadcasters are not
  touched, and without a registered overlay nothing happens.
\<close>

theorem push_queues_or_closes:
  "let r' = registry_push u f r
   in rg_map r' = rg_map r \<and>
      (case rg_map r u of
         None \<Rightarrow> r' = r
       | Some c \<Rightarrow>
           (cn_out (rg_conns r' c) = cn_out (rg_conns r c) @ [f] \<and> cn_closed (rg_conns r' c) = cn_closed (rg_conns r c) \<or>
            length (cn_out (rg_conns r c)) \<ge> 64 \<and> cn_closed (rg_conns r' c)) \<and>
           (\<forall>d. d \<noteq> c \<longrightarrow> rg_conns r' d = rg_conns r d))"
  by (auto simp: registry_push_def close_conn_def outbox_depth_def Let_def split: option.splits)

section \<open>Replay\<close>

lemma replay_page_spec:
  "replay_page live es s = (True, s') \<Longrightarrow>
     sm_sent s' = sm_sent s @ es \<and>
     sm_cursor s' = (if es = [] then sm_cursor s else oe_seq (last es)) \<and>
     sm_last_replayed s' = (if es = [] then sm_last_replayed s else oe_seq (last es)) \<and>
     sm_replayed s' = sm_replayed s + length es \<and>
     sm_pending s' = sm_pending s @ concat (map live [sm_replayed s + 1 ..< sm_replayed s + length es + 1])"
proof (induction es arbitrary: s)
  case (Cons e es)
  define s1 where "s1 = s\<lparr> sm_sent := sm_sent s @ [e], sm_cursor := oe_seq e, sm_last_replayed := oe_seq e,
      sm_replayed := sm_replayed s + 1, sm_pending := sm_pending s @ live (sm_replayed s + 1) \<rparr>"
  have "replay_page live es s1 = (True, s')" using Cons.prems by (simp add: s1_def Let_def split: if_splits)
  from Cons.IH [OF this] show ?case by (auto simp: s1_def upt_conv_Cons simp del: upt_Suc)
qed simp

text \<open>In a list with rising positions, what lies after the position of a member is what follows it.\<close>

lemma filter_after:
  assumes "sorted_wrt (\<lambda>a b. oe_seq a < oe_seq b) xs" and "0 < m" and "m \<le> length xs"
  shows "filter (\<lambda>e. oe_seq e > oe_seq (xs ! (m - 1))) xs = drop m xs"
proof -
  have lt: "i < j \<Longrightarrow> j < length xs \<Longrightarrow> oe_seq (xs ! i) < oe_seq (xs ! j)" for i j
    using assms(1) by (simp add: sorted_wrt_iff_nth_less)
  have a: "\<not> oe_seq e > oe_seq (xs ! (m - 1))" if mem: "e \<in> set (take m xs)" for e
  proof -
    obtain i where "i < length (take m xs)" "take m xs ! i = e" using mem unfolding in_set_conv_nth by blast
    then have "i < m" "e = xs ! i" by auto
    moreover have "i < m - 1 \<Longrightarrow> oe_seq (xs ! i) < oe_seq (xs ! (m - 1))" using assms(2,3) by (intro lt) auto
    ultimately show ?thesis by (cases "i = m - 1") force+
  qed
  have b: "oe_seq e > oe_seq (xs ! (m - 1))" if mem: "e \<in> set (drop m xs)" for e
  proof -
    obtain i where "i < length (drop m xs)" "drop m xs ! i = e" using mem unfolding in_set_conv_nth by blast
    then have "m + i < length xs" "e = xs ! (m + i)" by auto
    then show ?thesis using lt [of "m - 1" "m + i"] assms(2) by auto
  qed
  have "filter (\<lambda>e. oe_seq e > oe_seq (xs ! (m - 1))) (take m xs @ drop m xs) = drop m xs"
    unfolding filter_append using a b by (simp add: filter_empty_conv filter_True)
  then show ?thesis by simp
qed

lemma log_inv_prefix: "log_inv log \<Longrightarrow> prefix p log \<Longrightarrow> log_inv p"
proof -
  assume l: "log_inv log" and "prefix p log"
  then obtain q where q: "log = p @ q" by (auto simp: prefix_def)
  have "map oe_seq (user_events u p) = map int [1..<Suc (length (user_events u p))]" for u
  proof -
    have "take (length (user_events u p)) (map oe_seq (user_events u log)) =
        take (length (user_events u p)) (map int [1..<Suc (length (user_events u log))])"
      using l unfolding log_inv_def by metis
    then show ?thesis by (simp add: q take_map take_upt del: upt_Suc)
  qed
  then show ?thesis using l by (simp add: log_inv_def q)
qed

lemma missed_prefix:
  assumes "log_inv log" and "prefix p log"
  shows "prefix (missed u c p) (missed u c log)"
  using assms(2) by (auto simp: missed_def prefix_def)

text \<open>
  The loop over pages: when it catches up, it has sent what the log of its last query holds beyond
  the starting position, whatever was committed between the pages.
\<close>

definition logs_grow :: "(nat \<Rightarrow> event_log option) \<Rightarrow> event_log \<Rightarrow> bool" where
  "logs_grow logs final \<longleftrightarrow>
     (\<forall>k l. logs k = Some l \<longrightarrow> prefix l final \<and> (\<forall>j m. k \<le> j \<longrightarrow> logs j = Some m \<longrightarrow> prefix l m))"

lemma replay_loop_spec:
  assumes "log_inv final" and "logs_grow logs final"
    and "replay_loop u logs live k s = (Caught_Up, s')"
  shows "\<exists>j l. k \<le> j \<and> logs j = Some l \<and> sm_sent s' = sm_sent s @ missed u (sm_cursor s) l \<and>
     sm_last_replayed s' = (if missed u (sm_cursor s) l = [] then sm_last_replayed s else oe_seq (last (missed u (sm_cursor s) l))) \<and>
     sm_pending s' = sm_pending s @ concat (map live [sm_replayed s + 1 ..< sm_replayed s + length (missed u (sm_cursor s) l) + 1])"
  using assms(3)
proof (induction "max_replay_per_conn - sm_replayed s" arbitrary: k s rule: less_induct)
  case less
  note step = less.prems [unfolded replay_loop.simps [of u logs live k s]]
  obtain l where l: "logs k = Some l" using step by (cases "logs k") auto
  have pl: "prefix l final" and later: "\<And>j m. k \<le> j \<Longrightarrow> logs j = Some m \<Longrightarrow> prefix l m"
    using assms(2) l by (auto simp: logs_grow_def)
  define Y where "Y = missed u (sm_cursor s) l"
  have ev: "events_after False u (sm_cursor s) (int max_replay) l = Some (take 500 Y)"
    using events_after_missed [OF log_inv_prefix [OF assms(1) pl]] by (simp add: Y_def clamp_limit_def max_replay_def)
  obtain ok s1 where pg: "replay_page live (take 500 Y) s = (ok, s1)" by (meson surj_pair)
  have ok: ok using step l ev pg by (cases ok) auto
  note P = replay_page_spec [of live "take 500 Y" s s1] and pg' = pg [unfolded eqTrueI [OF ok]]
  show ?case
  proof (cases "length Y < 500")
    case True
    then have "s' = s1" using step l ev pg ok by (simp add: max_replay_def)
    then show ?thesis using P pg' True l by (intro exI [of _ k] exI [of _ l]) (simp add: Y_def)
  next
    case False
    then have len: "length (take 500 Y) = 500" by simp
    have rec: "replay_loop u logs live (k + 1) s1 = (Caught_Up, s')" and small: "sm_replayed s1 < max_replay_per_conn"
      using step l ev pg ok len by (auto simp: max_replay_def split: if_splits)
    have r1: "sm_replayed s1 = sm_replayed s + 500" using P pg' len by simp
    have "max_replay_per_conn - sm_replayed s1 < max_replay_per_conn - sm_replayed s" using r1 small by simp
    from less.hyps [OF this rec] obtain j l2 where j: "k + 1 \<le> j" "logs j = Some l2"
      and sent: "sm_sent s' = sm_sent s1 @ missed u (sm_cursor s1) l2"
      and lst: "sm_last_replayed s' = (if missed u (sm_cursor s1) l2 = [] then sm_last_replayed s1
                 else oe_seq (last (missed u (sm_cursor s1) l2)))"
      and pend: "sm_pending s' = sm_pending s1 @ concat (map live [sm_replayed s1 + 1 ..<
                 sm_replayed s1 + length (missed u (sm_cursor s1) l2) + 1])"
      by blast
    define X where "X = missed u (sm_cursor s) l2"
    have l2: "log_inv l2" "prefix l l2"
      using later [of j l2] j log_inv_prefix [OF assms(1)] assms(2) by (auto simp: logs_grow_def)
    have YX: "prefix Y X" unfolding X_def Y_def by (rule missed_prefix [OF l2])
    then have t: "take 500 Y = take 500 X" and lx: "500 \<le> length X" using False by (auto simp: prefix_def)
    have c1: "sm_cursor s1 = oe_seq (X ! 499)" "sm_last_replayed s1 = oe_seq (X ! 499)"
      using P pg' len t lx by (auto simp: last_conv_nth)
    have srt: "sorted_wrt (\<lambda>a b. oe_seq a < oe_seq b) X" unfolding X_def by (rule missed_sorted [OF l2(1)])
    have "X ! 499 \<in> set X" using lx by simp
    then have "sm_cursor s < oe_seq (X ! 499)" unfolding X_def missed_def by auto
    then have "missed u (sm_cursor s1) l2 = filter (\<lambda>e. oe_seq e > oe_seq (X ! 499)) X"
      unfolding c1 X_def missed_def filter_filter by (intro filter_cong) auto
    then have m: "missed u (sm_cursor s1) l2 = drop 500 X" using filter_after [OF srt, of 500] lx by simp
    have s1: "sm_sent s1 = sm_sent s @ take 500 X" and p1: "sm_pending s1 = sm_pending s @ concat (map live [sm_replayed s + 1 ..< sm_replayed s + 500 + 1])"
      using conjunct1 [OF P [OF pg']] P [OF pg', THEN conjunct2, THEN conjunct2, THEN conjunct2, THEN conjunct2]
      unfolding t len [unfolded t] by blast+
    have "[sm_replayed s + 1 ..< sm_replayed s + length X + 1] =
        [sm_replayed s + 1 ..< sm_replayed s + 500 + 1] @ [sm_replayed s + 500 + 1 ..< sm_replayed s + length X + 1]"
      using upt_add_eq_append [of "sm_replayed s + 1" "sm_replayed s + 500 + 1" "length X - 500"] lx by simp
    then have "sm_pending s' = sm_pending s @ concat (map live [sm_replayed s + 1 ..< sm_replayed s + length X + 1])"
      unfolding pend p1 r1 m using lx by (simp only: append_assoc map_append concat_append length_drop add_diff_assoc2)
        (simp add: add.commute)
    moreover have "sm_last_replayed s' = oe_seq (last X)"
    proof (cases "drop 500 X = []")
      case True
      then have "length X = 500" using lx by simp
      then have "last X = X ! 499" by (subst last_conv_nth) auto
      then show ?thesis using lst m c1 True by simp
    next
      case False
      then show ?thesis using lst m by (simp add: last_drop)
    qed
    moreover have "X \<noteq> []" using lx by auto
    ultimately show ?thesis using sent m s1 j by (intro exI [of _ j] exI [of _ l2]) (simp add: X_def [symmetric])
  qed
qed

lemma seq_drop:
  assumes "log_inv log" and "e \<in> set (drop k (user_events u log))"
  shows "int k < oe_seq e"
proof -
  have "oe_seq e \<in> set (drop k (map oe_seq (user_events u log)))" using assms(2) by (simp add: drop_map)
  also have "map oe_seq (user_events u log) = map int [1..<Suc (length (user_events u log))]"
    using assms(1) unfolding log_inv_def by blast
  finally show ?thesis by (auto simp: drop_map drop_upt simp del: upt_Suc)
qed

definition monetisation :: "server_frame list \<Rightarrow> event_log" where
  "monetisation frames =
     concat (map (\<lambda>f. case f of Frame_Event e \<Rightarrow> if oe_kind e \<noteq> Kind_Command then [e] else [] | _ \<Rightarrow> []) frames)"

lemma monetisation_simps [simp]:
  "monetisation (a @ b) = monetisation a @ monetisation b"
  "monetisation [Frame_Ready] = []" "monetisation [] = []"
  "monetisation (map Frame_Event es) = filter (\<lambda>e. oe_kind e \<noteq> Kind_Command) es"
  "monetisation (filter (not_covered n) (map Frame_Event es)) = filter (\<lambda>e. oe_seq e > n \<and> oe_kind e \<noteq> Kind_Command) es"
  by (simp_all add: monetisation_def, induction es, simp_all, induction es, simp_all add: not_covered_def)

lemma count_list_filter: "count_list (filter P xs) e = (if P e then count_list xs e else 0)"
  by (induction xs) auto

lemma count_list_one: "distinct xs \<Longrightarrow> e \<in> set xs \<Longrightarrow> count_list xs e = 1"
  by (induction xs) (auto simp: count_list_0_iff)

lemma distinct_if_ascending: "sorted_wrt (\<lambda>a b. oe_seq a < oe_seq b) xs \<Longrightarrow> distinct xs"
  by (induction xs) auto

lemma distinct_missed: "log_inv log \<Longrightarrow> distinct (missed u c log)"
  by (rule distinct_if_ascending [OF missed_sorted])


definition demo_event :: "int \<Rightarrow> event_kind \<Rightarrow> overlay_event" where
  "demo_event n kind = \<lparr> oe_user = 4, oe_seq = n, oe_msg = replicate (nat n) CHR ''m'', oe_kind = kind, oe_payload = ''{}'' \<rparr>"


text \<open>
  A command can be reported as delivered and never reach the overlay. Commands are not replayed,
  but the filter against double delivery drops every live frame at or below the last replayed
  position, commands included: a command pushed while a connection replays is lost when a later
  monetisation event is replayed from the log.
\<close>

theorem command_lost_while_connecting:
  "let command = demo_event 1 Kind_Command; cheer = demo_event 2 Kind_Cheer
   in log_inv [command, cheer] \<and>
      connect_stream 4 0 0 (\<lambda>_. Some [command, cheer]) (\<lambda>_. []) [Frame_Event command, Frame_Event cheer] [] =
        (Caught_Up, [Frame_Event cheer, Frame_Ready])"
proof -
  have "log_inv [demo_event 1 Kind_Command, demo_event 2 Kind_Cheer]"
    by (auto simp: log_inv_def user_events_def demo_event_def upt_rec numeral_eq_Suc)
  moreover have "connect_stream 4 0 0 (\<lambda>_. Some [demo_event 1 Kind_Command, demo_event 2 Kind_Cheer]) (\<lambda>_. [])
      [Frame_Event (demo_event 1 Kind_Command), Frame_Event (demo_event 2 Kind_Cheer)] [] =
      (Caught_Up, [Frame_Event (demo_event 2 Kind_Cheer), Frame_Ready])"
    by code_simp
  ultimately show ?thesis by (simp add: Let_def)
qed

end
