(* ===== verification/Overlay_Devices.thy ===== *)
theory Overlay_Devices
  imports Overlay_Log
begin

text \<open>
  The device tokens of the overlay relay: minted tokens have the form the authentication screens for,
  minting replaces, revocation is scoped to the owner, and the two capability queries agree.
\<close>

section \<open>Tokens\<close>

lemma b64_char_mem: "b64_char n \<in> set b64_alphabet"
proof -
  have "length b64_alphabet = 64" by (simp add: b64_alphabet_def)
  then show ?thesis unfolding b64_char_def by (intro nth_mem) simp
qed

lemma b64_encode_mem: "set (b64_encode bs) \<subseteq> set b64_alphabet"
  by (induction bs rule: b64_encode.induct) (auto simp: b64_char_mem)

lemma b64_encode_length: "length (b64_encode bs) = (4 * length bs + 2) div 3"
  by (induction bs rule: b64_encode.induct) auto

lemma alphabet_no_break: "c \<in> set b64_alphabet \<Longrightarrow> c \<noteq> CHR 0x0A \<and> c \<noteq> CHR 0x0D"
  by (auto simp: b64_alphabet_def)

lemma minted_looks_like_token:
  assumes "mint_token hash (Some buf) = Some (token, h)" and "length buf = token_bytes"
  shows "looks_like_token token \<and> h = hash token"
proof -
  have token: "token = token_prefix @ b64_encode buf" "h = hash token"
    using assms(1) by (auto simp: mint_token_def Let_def)
  have len: "length (b64_encode buf) = 43" using assms(2) by (simp add: b64_encode_length token_bytes_def)
  have all: "list_all (\<lambda>c. c \<in> set b64_alphabet) (b64_encode buf)"
    using b64_encode_mem by (auto simp: list_all_iff)
  have "filter (\<lambda>c. c \<noteq> CHR 0x0A \<and> c \<noteq> CHR 0x0D) (b64_encode buf) = b64_encode buf"
    using b64_encode_mem alphabet_no_break by (intro filter_True) blast
  then have "b64_decoded_length (b64_encode buf) = Some 32"
    using all len by (simp add: b64_decoded_length_def Let_def)
  then show ?thesis
    by (simp add: token looks_like_token_def token_bytes_def has_prefix_def trim_prefix_def)
qed

section \<open>Rows\<close>

interpretation device_rows: row_type dv_id dv_hash dv_with_id
  by unfold_locales (simp_all add: dv_with_id_def)

abbreviation wf_devices :: "device table \<Rightarrow> bool" where
  "wf_devices \<equiv> wf_table dv_id dv_hash"

definition active_devices :: "int \<Rightarrow> device table \<Rightarrow> device list" where
  "active_devices user t = filter (\<lambda>d. dv_user d = user \<and> \<not> dv_revoked d) (tb_rows t)"

text \<open>The model of the product: ids and token hashes unique, one live token per broadcaster.\<close>

definition devices_ok :: "device table \<Rightarrow> bool" where
  "devices_ok t \<longleftrightarrow> wf_devices t \<and> (\<forall>u. length (active_devices u t) \<le> 1)"

definition revoke_where :: "(device \<Rightarrow> bool) \<Rightarrow> device table \<Rightarrow> device table" where
  "revoke_where P = update_where P (\<lambda>d. d\<lparr> dv_revoked := True \<rparr>)"

lemma revoke_where_wf: "wf_devices t \<Longrightarrow> wf_devices (revoke_where P t)"
proof -
  have k: "dv_id (if P x then x\<lparr> dv_revoked := True \<rparr> else x) = dv_id x"
    "dv_hash (if P x then x\<lparr> dv_revoked := True \<rparr> else x) = dv_hash x" for x by simp_all
  show "wf_devices t \<Longrightarrow> wf_devices (revoke_where P t)"
    by (auto simp: wf_table_def revoke_where_def update_where_def comp_def k)
qed

lemma active_revoke: "active_devices u (revoke_where P t) = filter (\<lambda>d. \<not> P d) (active_devices u t)"
proof -
  have "filter (\<lambda>d. dv_user d = u \<and> \<not> dv_revoked d) (map (\<lambda>x. if P x then x\<lparr> dv_revoked := True \<rparr> else x) xs) =
      filter (\<lambda>d. \<not> P d) (filter (\<lambda>d. dv_user d = u \<and> \<not> dv_revoked d) xs)" for xs
    by (induction xs) auto
  then show ?thesis by (simp add: active_devices_def revoke_where_def update_where_def)
qed

lemma devices_ok_empty: "devices_ok empty_table"
  by (simp add: devices_ok_def device_rows.wf_empty active_devices_def empty_table_def)
     (use device_rows.wf_empty in \<open>simp add: empty_table_def\<close>)

text \<open>Authentication is membership among the live tokens.\<close>

lemma authenticate_iff:
  assumes "wf_devices t" and "looks_like_token token" and "\<not> fl 0"
  shows "authenticate_device hash fl token t = Inr d \<longleftrightarrow>
     d \<in> set (active_devices (dv_user d) t) \<and> dv_hash d = hash token"
proof -
  have "authenticate_device hash fl token t = Inr d \<longleftrightarrow> find_one (\<lambda>d. dv_hash d = hash token \<and> \<not> dv_revoked d) t = Some d"
    using assms(2,3) by (auto simp: authenticate_device_def split: option.splits)
  also have "\<dots> \<longleftrightarrow> d \<in> set (tb_rows t) \<and> dv_hash d = hash token \<and> \<not> dv_revoked d"
  proof
    assume "find_one (\<lambda>d. dv_hash d = hash token \<and> \<not> dv_revoked d) t = Some d"
    then show "d \<in> set (tb_rows t) \<and> dv_hash d = hash token \<and> \<not> dv_revoked d"
      unfolding find_one_def by (drule_tac find_Some_mem) blast
  next
    assume d: "d \<in> set (tb_rows t) \<and> dv_hash d = hash token \<and> \<not> dv_revoked d"
    then obtain d' where f: "find_one (\<lambda>d. dv_hash d = hash token \<and> \<not> dv_revoked d) t = Some d'"
      by (cases "find_one (\<lambda>d. dv_hash d = hash token \<and> \<not> dv_revoked d) t") (auto simp: find_one_def find_None_iff)
    then have "d' \<in> set (tb_rows t)" "dv_hash d' = dv_hash d"
      using d unfolding find_one_def by (auto dest: find_Some_mem)
    then have "d' = d" using d assms(1) by (auto simp: wf_table_def distinct_map inj_on_def)
    then show "find_one (\<lambda>d. dv_hash d = hash token \<and> \<not> dv_revoked d) t = Some d" using f by simp
  qed
  finally show ?thesis by (auto simp: active_devices_def)
qed

section \<open>Properties\<close>

text \<open>
  Minting replaces. When a device is created, it is the broadcaster's only live device, its token
  authenticates as it and passes the format screen, its replay starts at the tail of the log, every
  other broadcaster's live devices are untouched; when creation fails, nothing has changed. One live
  token per broadcaster is invariant.
\<close>

theorem minting_replaces:
  assumes "devices_ok t" and "length buf = token_bytes"
    and "create_device hash (Some buf) fl user label log t = (res, t')"
  shows "devices_ok t' \<and> (\<forall>u. u \<noteq> user \<longrightarrow> active_devices u t' = active_devices u t) \<and>
    (case res of
       Inl _ \<Rightarrow> t' = t
     | Inr (token, d) \<Rightarrow> active_devices user t' = [d] \<and> dv_user d = user \<and> dv_start_seq d = max_seq user log \<and>
         (\<forall>fl'. \<not> fl' 0 \<longrightarrow> authenticate_device hash fl' token t' = Inr d))"
proof -
  obtain token h where m: "mint_token hash (Some buf) = Some (token, h)" by (simp add: mint_token_def Let_def)
  note tok = minted_looks_like_token [OF m assms(2)]
  define d0 where "d0 = \<lparr> dv_id = 0, dv_user = user, dv_start_seq = max_seq user log, dv_hash = h,
                         dv_label = trim_space label, dv_revoked = False \<rparr>"
  define t1 where "t1 = revoke_where (\<lambda>x. dv_user x = user \<and> \<not> dv_revoked x) t"
  have w1: "wf_devices t1" unfolding t1_def using revoke_where_wf assms(1) by (simp add: devices_ok_def)
  have a1: "active_devices u t1 = (if u = user then [] else active_devices u t)" for u
    unfolding t1_def active_revoke by (auto simp: active_devices_def intro: filter_cong)
  have c: "create_device hash (Some buf) fl user label log t =
     (if fl 0 \<or> fl 1 \<or> fl 2 \<or> fl 3 \<or> fl 4 then (Inl Device_Db_Failed, t)
      else case insert_row dv_with_id dv_hash d0 t1 of
             None \<Rightarrow> (Inl Device_Db_Failed, t) | Some (d', t2) \<Rightarrow> (Inr (token, d'), t2))"
    using m by (simp add: create_device_def d0_def t1_def revoke_where_def Let_def)
  show ?thesis
  proof (cases res)
    case (Inl e)
    then have "t' = t" using assms(3) c by (auto split: if_splits option.splits prod.splits)
    then show ?thesis using assms(1) Inl by simp
  next
    case (Inr r)
    then obtain d where r: "r = (token, d)" and i: "insert_row dv_with_id dv_hash d0 t1 = Some (d, t')"
      using assms(3) c by (auto split: if_splits option.splits prod.splits)
    have rows: "tb_rows t' = tb_rows t1 @ [d]" and d: "d = dv_with_id d0 (tb_serial t1 + 1)"
      using i by (auto simp: insert_row_def Let_def split: if_splits)
    have fields: "dv_user d = user" "dv_hash d = hash token" "\<not> dv_revoked d" "dv_start_seq d = max_seq user log"
      using tok by (simp_all add: d d0_def dv_with_id_def)
    have act: "active_devices u t' = (if u = user then [d] else active_devices u t)" for u
      using a1 [of u] fields by (auto simp: active_devices_def rows)
    have ok: "devices_ok t'"
      using device_rows.insert_wf [OF w1 i] assms(1) act by (simp add: devices_ok_def)
    have "authenticate_device hash fl' token t' = Inr d" if "\<not> fl' 0" for fl'
      using authenticate_iff [where t = t' and token = token and fl = fl' and hash = hash and d = d]
        tok that ok act fields by (simp add: devices_ok_def)
    then show ?thesis using ok act fields Inr r by simp
  qed
qed

theorem minting_replaces_witness:
  "\<exists>token d t'. create_device (\<lambda>s. s) (Some (replicate 32 7)) no_faults 4 '' laptop '' [] empty_table =
     (Inr (token, d), t') \<and> active_devices 4 t' = [d]"
proof -
  obtain res t' where c: "create_device (\<lambda>s. s) (Some (replicate 32 7)) no_faults 4 '' laptop '' [] empty_table = (res, t')"
    by (meson surj_pair)
  have "\<not> (\<exists>e. res = Inl e)"
    using c by (auto simp: create_device_def mint_token_def Let_def no_faults_def insert_row_def update_where_def
        empty_table_def)
  then obtain token d where "res = Inr (token, d)" by (cases res) auto
  then show ?thesis
    using minting_replaces [OF devices_ok_empty _ c] c by (simp add: token_bytes_def)
qed

text \<open>
  Revocation is scoped and final. A revocation by one broadcaster changes no other broadcaster's
  live devices; when it succeeds, the device was one of the caller's live devices, and afterwards no
  token with its hash authenticates; otherwise nothing changes, and the caller learns "not found"
  exactly when the id is not one of its live devices.
\<close>

theorem revocation_is_scoped:
  assumes "devices_ok t" and "revoke_device fl user did t = (err, t')"
  shows "devices_ok t' \<and> (\<forall>u. u \<noteq> user \<longrightarrow> active_devices u t' = active_devices u t) \<and>
    (case err of
       None \<Rightarrow> \<exists>d. d \<in> set (active_devices user t) \<and> dv_id d = did \<and>
         active_devices user t' = filter (\<lambda>x. dv_id x \<noteq> did) (active_devices user t) \<and>
         (\<forall>hash token fl' d'. hash token = dv_hash d \<longrightarrow> authenticate_device hash fl' token t' \<noteq> Inr d')
     | Some e \<Rightarrow> t' = t \<and> (e = Device_Not_Found \<longrightarrow> did \<notin> set (map dv_id (active_devices user t))))"
proof -
  define P where "P = (\<lambda>d :: device. dv_id d = did \<and> dv_user d = user \<and> \<not> dv_revoked d)"
  have def: "revoke_device fl user did t =
     (if fl 0 then (Some Device_Db_Failed, t)
      else case find_one P t of None \<Rightarrow> (Some Device_Not_Found, t)
         | Some _ \<Rightarrow> if fl 1 then (Some Device_Db_Failed, t) else (None, revoke_where P t))"
    unfolding revoke_device_def revoke_where_def P_def Let_def ..
  have act: "active_devices u (revoke_where P t) =
      (if u = user then filter (\<lambda>x. dv_id x \<noteq> did) (active_devices u t) else active_devices u t)" for u
    unfolding active_revoke by (auto simp: active_devices_def P_def intro!: filter_cong)
  show ?thesis
  proof (cases err)
    case (Some e)
    have "t' = t" using assms(2) def Some by (auto split: if_splits option.splits)
    moreover have "e = Device_Not_Found \<longrightarrow> did \<notin> set (map dv_id (active_devices user t))"
      using assms(2) def Some
      by (auto simp: find_one_def find_None_iff P_def active_devices_def split: if_splits option.splits)
    ultimately show ?thesis using assms(1) Some by simp
  next
    case None
    then obtain d where f: "find_one P t = Some d" and t': "t' = revoke_where P t"
      using assms(2) def by (auto split: if_splits option.splits)
    have d: "d \<in> set (tb_rows t)" "dv_id d = did" "dv_user d = user" "\<not> dv_revoked d"
      using find_Some_mem [of P "tb_rows t" d] f by (auto simp: find_one_def P_def)
    have wf: "wf_devices t" "wf_devices t'" using assms(1) t' revoke_where_wf by (auto simp: devices_ok_def)
    have "length (active_devices u t') \<le> length (active_devices u t)" for u
      unfolding t' act by simp
    then have ok: "devices_ok t'"
      using wf(2) assms(1) order_trans unfolding devices_ok_def by blast
    have gone: "authenticate_device hash fl' token t' \<noteq> Inr d'" if h: "hash token = dv_hash d" for hash token fl' d'
    proof
      assume a: "authenticate_device hash fl' token t' = Inr d'"
      then have "looks_like_token token" "\<not> fl' 0" by (auto simp: authenticate_device_def split: if_splits)
      then have d': "d' \<in> set (active_devices (dv_user d') t')" "dv_hash d' = dv_hash d"
        using authenticate_iff [OF wf(2)] a h by auto
      then have "d' \<in> set (active_devices (dv_user d') t)" using act t' by (auto split: if_splits)
      then have "d' = d" using d d'(2) wf(1) by (auto simp: active_devices_def wf_table_def distinct_map inj_on_def)
      then show False using d' act t' d by auto
    qed
    show ?thesis using ok act t' None d gone by (auto simp: active_devices_def)
  qed
qed

theorem revocation_is_scoped_witness:
  "fst (revoke_device no_faults 9 1 \<lparr> tb_rows = [\<lparr> dv_id = 1, dv_user = 4, dv_start_seq = 0, dv_hash = ''h'',
     dv_label = [], dv_revoked = False \<rparr>], tb_serial = 1 \<rparr>) \<noteq> None"
proof -
  let ?t = "\<lparr> tb_rows = [\<lparr> dv_id = 1, dv_user = 4, dv_start_seq = 0, dv_hash = ''h'',
     dv_label = [], dv_revoked = False \<rparr>], tb_serial = 1 \<rparr>"
  have ok: "devices_ok ?t" by (auto simp: devices_ok_def wf_table_def active_devices_def)
  obtain err t' where r: "revoke_device no_faults 9 1 ?t = (err, t')" by (meson surj_pair)
  show ?thesis using revocation_is_scoped [OF ok r] r by (auto simp: active_devices_def split: option.splits)
qed

text \<open>
  The two capability queries agree: a broadcaster's own query says "has an overlay" exactly when
  the broadcaster is in the list the subscriptions are reconciled against.
\<close>

theorem capability_queries_agree:
  assumes "trim_space tw \<noteq> []" and "\<not> fl 0"
    and "broadcasters_with_active_devices fl users t = Inr ids"
  shows "has_active_device fl users tw t = Inr (tw \<in> set ids)"
proof -
  have "tw \<noteq> []" using assms(1) by (auto simp: trim_space_def trim_left_def trim_right_def)
  then show ?thesis using assms
    by (force simp: has_active_device_def broadcasters_with_active_devices_def split: if_splits option.splits)
qed

theorem capability_queries_agree_witness:
  "has_active_device no_faults [\<lparr> ou_id = 4, ou_twitch = Some ''77'' \<rparr>] ''77''
     \<lparr> tb_rows = [\<lparr> dv_id = 1, dv_user = 4, dv_start_seq = 0, dv_hash = ''h'', dv_label = [], dv_revoked = False \<rparr>],
       tb_serial = 1 \<rparr> = Inr True"
proof -
  have "trim_space ''77'' \<noteq> []" by code_simp
  from capability_queries_agree [OF this, of no_faults "[\<lparr> ou_id = 4, ou_twitch = Some ''77'' \<rparr>]"
    "\<lparr> tb_rows = [\<lparr> dv_id = 1, dv_user = 4, dv_start_seq = 0, dv_hash = ''h'', dv_label = [], dv_revoked = False \<rparr>],
       tb_serial = 1 \<rparr>"]
  show ?thesis by (simp add: broadcasters_with_active_devices_def no_faults_def)
qed

end
