(* ===== verification/Overlay_Relay.thy ===== *)
theory Overlay_Relay
  imports Overlay_Connect_Properties Overlay_Devices
begin

text \<open>
  The handlers that feed the overlay relay: Twitch notifications
  (\<^verbatim>\<open>cmd/core-api/endpoints/overlay/eventsub.go\<close>, \<^verbatim>\<open>internal/libraries/overlayrelay/eventsub.go\<close>,
  \<^verbatim>\<open>internal/libraries/twitchsig\<close>), chat commands (\<^verbatim>\<open>dispatch.go\<close>), Bits receipts (\<^verbatim>\<open>extension.go\<close>,
  \<^verbatim>\<open>internal/libraries/twitchext\<close>), and the devices of a streamer (\<^verbatim>\<open>device.go\<close>). HMAC, the JWT library, the
  JSON codec and the time parser are parameters; requests change the log and the registry.
\<close>

section \<open>Signatures and freshness\<close>

record headers =
  hd_message_id :: string
  hd_timestamp :: string
  hd_signature :: string
  hd_message_type :: string
  hd_subscription_type :: string

definition signature_prefix :: string where
  "signature_prefix = ''sha256=''"

text \<open>\<open>hmac key message\<close> is the hexadecimal digest.\<close>

definition verify_signature :: "(string \<Rightarrow> string \<Rightarrow> string) \<Rightarrow> headers \<Rightarrow> string \<Rightarrow> string \<Rightarrow> bool" where
  "verify_signature hmac h raw secret =
     (if secret = [] then False
      else if \<not> has_prefix signature_prefix (hd_signature h) then False
      else hd_signature h = signature_prefix @ hmac secret (hd_message_id h @ hd_timestamp h @ raw))"

definition max_message_age :: int where
  "max_message_age = 10 * 60 * 1000000000"

definition is_stale :: "(string \<Rightarrow> int option) \<Rightarrow> headers \<Rightarrow> int \<Rightarrow> int \<Rightarrow> bool" where
  "is_stale parse_time h now window =
     (case parse_time (hd_timestamp h) of
        None \<Rightarrow> True
      | Some ts \<Rightarrow>
          let drift = time_sub now ts;
              drift' = (if drift < 0 then wrap64 (- drift) else drift)
          in drift' > window)"

section \<open>Payloads and notifications\<close>

record cheer_payload =
  cp_user_id :: string
  cp_user_login :: string
  cp_user_name :: string
  cp_is_anonymous :: bool
  cp_bits :: int
  cp_message :: string

record redemption_payload =
  rp_user_id :: string
  rp_user_login :: string
  rp_user_name :: string
  rp_reward_id :: string
  rp_reward_title :: string
  rp_reward_cost :: int
  rp_user_input :: string
  rp_status :: string

record power_up_payload =
  pp_user_id :: string
  pp_user_login :: string
  pp_user_name :: string
  pp_bits :: int
  pp_power_up_id :: string
  pp_power_up_title :: string

record command_payload =
  mp_action :: string
  mp_args :: "string list"
  mp_user_id :: string
  mp_user_login :: string
  mp_user_name :: string

record extension_payload =
  xp_user_id :: string
  xp_user_login :: string
  xp_user_name :: string
  xp_bits :: int
  xp_product_sku :: string
  xp_product_name :: string

datatype payload =
    Pay_Cheer cheer_payload | Pay_Redemption redemption_payload | Pay_Power_Up power_up_payload
  | Pay_Command command_payload | Pay_Extension extension_payload

text \<open>The decoded shapes of the incoming JSON.\<close>

record notification =
  nt_type :: string
  nt_broadcaster :: string
  nt_event :: string
  nt_challenge :: string

record reward =
  rw_id :: string
  rw_title :: string
  rw_cost :: int

record redemption_event =
  re_user_id :: string
  re_user_login :: string
  re_user_name :: string
  re_user_input :: string
  re_status :: string
  re_reward :: reward

record power_up =
  pu_id :: string
  pu_title :: string
  pu_bits :: int

record power_up_event =
  pe_user_id :: string
  pe_user_login :: string
  pe_user_name :: string
  pe_custom_power_up :: power_up

record dispatch_request =
  dr_broadcaster :: string
  dr_dedupe_key :: string
  dr_action :: string
  dr_args :: "string list"
  dr_user_id :: string
  dr_user_login :: string
  dr_user_name :: string

text \<open>The JSON library on these types: decoders that may refuse, and the encoder of payloads.\<close>

record codec =
  cd_notification :: "string \<Rightarrow> notification option"
  cd_cheer :: "string \<Rightarrow> cheer_payload option"
  cd_redemption :: "string \<Rightarrow> redemption_event option"
  cd_power_up :: "string \<Rightarrow> power_up_event option"
  cd_dispatch :: "string \<Rightarrow> dispatch_request option"
  cd_receipt :: "string \<Rightarrow> string option"
  cd_payload :: "payload \<Rightarrow> string"

definition sub_type_cheer :: string where
  "sub_type_cheer = ''channel.cheer''"

definition sub_type_redemption :: string where
  "sub_type_redemption = ''channel.channel_points_custom_reward_redemption.add''"

definition sub_type_power_up :: string where
  "sub_type_power_up = ''channel.custom_power_up_redemption.add''"

datatype notification_error =
  Bad_Notification | No_Message_Id | No_Broadcaster | Bad_Event | Unsupported_Type string

definition challenge :: "codec \<Rightarrow> string \<Rightarrow> string option" where
  "challenge cd raw =
     (case cd_notification cd raw of
        None \<Rightarrow> None
      | Some n \<Rightarrow> if nt_challenge n = [] then None else Some (nt_challenge n))"

definition redemption_of :: "redemption_event \<Rightarrow> redemption_payload" where
  "redemption_of r =
     \<lparr> rp_user_id = re_user_id r, rp_user_login = re_user_login r, rp_user_name = re_user_name r,
       rp_reward_id = rw_id (re_reward r), rp_reward_title = rw_title (re_reward r),
       rp_reward_cost = rw_cost (re_reward r), rp_user_input = re_user_input r, rp_status = re_status r \<rparr>"

definition power_up_of :: "power_up_event \<Rightarrow> power_up_payload" where
  "power_up_of r =
     \<lparr> pp_user_id = pe_user_id r, pp_user_login = pe_user_login r, pp_user_name = pe_user_name r,
       pp_bits = pu_bits (pe_custom_power_up r), pp_power_up_id = pu_id (pe_custom_power_up r),
       pp_power_up_title = pu_title (pe_custom_power_up r) \<rparr>"

definition parse_notification :: "codec \<Rightarrow> headers \<Rightarrow> string \<Rightarrow> notification_error + incoming" where
  "parse_notification cd h raw =
     (case cd_notification cd raw of
        None \<Rightarrow> Inl Bad_Notification
      | Some n \<Rightarrow>
          if hd_message_id h = [] then Inl No_Message_Id
          else if nt_broadcaster n = [] then Inl No_Broadcaster
          else
            let result = (\<lambda>kind pl. Inr \<lparr> in_msg = hd_message_id h, in_broadcaster = nt_broadcaster n,
                                          in_kind = kind, in_payload = cd_payload cd pl \<rparr>)
            in if nt_type n = sub_type_cheer then
                 (case cd_cheer cd (nt_event n) of None \<Rightarrow> Inl Bad_Event
                  | Some r \<Rightarrow> result Kind_Cheer (Pay_Cheer r))
               else if nt_type n = sub_type_redemption then
                 (case cd_redemption cd (nt_event n) of None \<Rightarrow> Inl Bad_Event
                  | Some r \<Rightarrow> result Kind_Redemption (Pay_Redemption (redemption_of r)))
               else if nt_type n = sub_type_power_up then
                 (case cd_power_up cd (nt_event n) of None \<Rightarrow> Inl Bad_Event
                  | Some r \<Rightarrow> result Kind_Power_Up (Pay_Power_Up (power_up_of r)))
               else Inl (Unsupported_Type (nt_type n)))"

section \<open>The handlers that ingest\<close>

datatype reply = Status nat | Text string | Delivered bool

text \<open>What one ingest meets: the users, the failures, and the commits of others.\<close>

record store =
  so_users :: "overlay_user list"
  so_lookup_fails :: bool
  so_faults :: faults
  so_race :: "nat \<Rightarrow> event_log \<Rightarrow> event_log"

definition ingest_with :: "store \<Rightarrow> incoming \<Rightarrow> event_log \<Rightarrow> (ingest_error + overlay_event option) \<times> event_log" where
  "ingest_with st inc log = ingest (so_lookup_fails st) (so_faults st) (so_race st) (so_users st) inc log"

text \<open>The common tail of the two ingest handlers, run under the broadcaster's lock.\<close>

definition store_and_push :: "store \<Rightarrow> incoming \<Rightarrow> event_log \<Rightarrow> registry \<Rightarrow> reply \<times> event_log \<times> registry" where
  "store_and_push st inc log reg =
     (case ingest_with st inc log of
        (Inl Unknown_Broadcaster, log') \<Rightarrow> (Status 204, log', reg)
      | (Inl _, log') \<Rightarrow> (Status 500, log', reg)
      | (Inr None, log') \<Rightarrow> (Status 204, log', reg)
      | (Inr (Some e), log') \<Rightarrow> (Status 204, log', registry_push (oe_user e) (Frame_Event e) reg))"

definition max_webhook_body :: nat where
  "max_webhook_body = 256 * 1024"

text \<open>\<open>secret\<close>: \<open>None\<close> without a configuration; \<open>body\<close>: \<open>None\<close> when reading it fails.\<close>

definition eventsub_endpoint ::
  "codec \<Rightarrow> (string \<Rightarrow> string \<Rightarrow> string) \<Rightarrow> (string \<Rightarrow> int option) \<Rightarrow> store \<Rightarrow> string option \<Rightarrow> int
     \<Rightarrow> headers \<Rightarrow> string option \<Rightarrow> event_log \<Rightarrow> registry \<Rightarrow> reply \<times> event_log \<times> registry" where
  "eventsub_endpoint cd hmac parse_time st secret now h body log reg =
     (case secret of
        None \<Rightarrow> (Status 500, log, reg)
      | Some key \<Rightarrow>
          if key = [] then (Status 503, log, reg)
          else case body of
            None \<Rightarrow> (Status 400, log, reg)
          | Some bytes \<Rightarrow>
              let raw = take max_webhook_body bytes
              in if \<not> verify_signature hmac h raw key then (Status 403, log, reg)
                 else if is_stale parse_time h now max_message_age then (Status 403, log, reg)
                 else if hd_message_type h = ''webhook_callback_verification'' then
                   (case challenge cd raw of None \<Rightarrow> (Status 400, log, reg) | Some c \<Rightarrow> (Text c, log, reg))
                 else if hd_message_type h = ''revocation'' then (Status 204, log, reg)
                 else case parse_notification cd h raw of
                   Inl (Unsupported_Type _) \<Rightarrow> (Status 204, log, reg)
                 | Inl _ \<Rightarrow> (Status 400, log, reg)
                 | Inr inc \<Rightarrow> store_and_push st inc log reg)"

definition max_dedupe_key :: nat where
  "max_dedupe_key = 64"

definition max_command_args :: nat where
  "max_command_args = 8"

definition dispatch_incoming :: "codec \<Rightarrow> dispatch_request \<Rightarrow> incoming" where
  "dispatch_incoming cd req =
     \<lparr> in_msg = dr_dedupe_key req, in_broadcaster = dr_broadcaster req, in_kind = Kind_Command,
       in_payload = cd_payload cd (Pay_Command
         \<lparr> mp_action = dr_action req, mp_args = dr_args req, mp_user_id = dr_user_id req,
           mp_user_login = dr_user_login req, mp_user_name = dr_user_name req \<rparr>) \<rparr>"

definition dispatch_endpoint ::
  "codec \<Rightarrow> store \<Rightarrow> string \<Rightarrow> event_log \<Rightarrow> registry \<Rightarrow> reply \<times> event_log \<times> registry" where
  "dispatch_endpoint cd st body log reg =
     (case cd_dispatch cd body of
        None \<Rightarrow> (Status 400, log, reg)
      | Some req0 \<Rightarrow>
          let req = req0\<lparr> dr_broadcaster := trim_space (dr_broadcaster req0),
                          dr_action := trim_space (dr_action req0),
                          dr_dedupe_key := trim_space (dr_dedupe_key req0) \<rparr>
          in if dr_broadcaster req = [] \<or> dr_action req = [] \<or> dr_dedupe_key req = [] then (Status 400, log, reg)
             else if length (dr_dedupe_key req) > max_dedupe_key then (Status 400, log, reg)
             else
               let req' = (if length (dr_args req) > max_command_args
                           then req\<lparr> dr_args := take max_command_args (dr_args req) \<rparr> else req)
               in case ingest_with st (dispatch_incoming cd req') log of
                    (Inl Unknown_Broadcaster, log') \<Rightarrow> (Delivered False, log', reg)
                  | (Inl _, log') \<Rightarrow> (Status 500, log', reg)
                  | (Inr None, log') \<Rightarrow> (Delivered False, log', reg)
                  | (Inr (Some e), log') \<Rightarrow>
                      (Delivered (is_connected (oe_user e) reg), log',
                       registry_push (oe_user e) (Frame_Event e) reg))"

section \<open>Concurrent deliveries\<close>

text \<open>
  Each handler appends and then pushes. The two ingest handlers hold the broadcaster's lock of their
  own keyed mutex over both; dispatch takes no lock. A thread is a request between the two steps.
\<close>

datatype handler = Eventsub | Extension | Dispatch

datatype delivery = Waiting_To_Append | Appended_Not_Pushed handler string overlay_event

record relay_run =
  rr_log :: event_log
  rr_pushed :: event_log
  rr_threads :: "nat \<Rightarrow> delivery"

definition relay_init :: relay_run where
  "relay_init = \<lparr> rr_log = [], rr_pushed = [], rr_threads = (\<lambda>_. Waiting_To_Append) \<rparr>"

definition lock_free :: "handler \<Rightarrow> string \<Rightarrow> relay_run \<Rightarrow> bool" where
  "lock_free hn b r \<longleftrightarrow> hn = Dispatch \<or> (\<forall>t e. rr_threads r t \<noteq> Appended_Not_Pushed hn b e)"

inductive relay_step :: "overlay_user list \<Rightarrow> relay_run \<Rightarrow> handler \<Rightarrow> relay_run \<Rightarrow> bool" for users where
  Append_New: "rr_threads r t = Waiting_To_Append \<Longrightarrow> lock_free hn (in_broadcaster inc) r \<Longrightarrow>
    ingest False no_faults (\<lambda>_ log. log) users inc (rr_log r) = (Inr (Some e), log') \<Longrightarrow>
    relay_step users r hn
      (r\<lparr> rr_log := log', rr_threads := (rr_threads r)(t := Appended_Not_Pushed hn (in_broadcaster inc) e) \<rparr>)"
| Push_Release: "rr_threads r t = Appended_Not_Pushed hn b e \<Longrightarrow>
    relay_step users r hn
      (r\<lparr> rr_pushed := rr_pushed r @ [e], rr_threads := (rr_threads r)(t := Waiting_To_Append) \<rparr>)"

inductive_cases relay_stepE: "relay_step users r hn r'"

text \<open>Runs in which every request goes to one of the given handlers.\<close>

definition relay_runs :: "overlay_user list \<Rightarrow> handler set \<Rightarrow> relay_run \<Rightarrow> bool" where
  "relay_runs users hns r \<longleftrightarrow> (\<lambda>x y. \<exists>hn \<in> hns. relay_step users x hn y)\<^sup>*\<^sup>* relay_init r"

end
