(* ===== verification/Overlay_Relay_Properties.thy ===== *)
theory Overlay_Relay_Properties
  imports Overlay_Relay
begin

text \<open>
  What the ingest handlers promise: nothing unverified has an effect, an acknowledged notification is
  stored, a chat command runs at most once, freshness as computed, and the order of live pushes.
\<close>

section \<open>Effects of the handlers\<close>

lemma ingest_with_spec:
  assumes "log_inv log" and "legit_race (so_race st)" and "ingest_with st inc log = (res, log')"
  shows "log_inv log' \<and> prefix log log'"
    and "res = Inr (Some e) \<Longrightarrow>
       \<exists>u before. user_of_broadcaster (so_users st) (in_broadcaster inc) = Some u \<and> oe_user e = ou_id u \<and>
          oe_msg e = in_msg inc \<and> oe_kind e = in_kind inc \<and> oe_payload e = in_payload inc \<and>
          \<not> stored (ou_id u) (in_msg inc) log \<and> log' = before @ [e]"
    and "res = Inr None \<Longrightarrow>
       \<exists>u. user_of_broadcaster (so_users st) (in_broadcaster inc) = Some u \<and> stored (ou_id u) (in_msg inc) log'"
    and "res = Inl Unknown_Broadcaster \<Longrightarrow>
       user_of_broadcaster (so_users st) (in_broadcaster inc) = None \<and> log' = log"
proof -
  have i: "ingest (so_lookup_fails st) (so_faults st) (so_race st) (so_users st) inc log = (res, log')"
    using assms(3) by (simp add: ingest_with_def)
  note S = ingest_spec [OF assms(1,2) i]
  show "log_inv log' \<and> prefix log log'" using S by blast
  show "res = Inr (Some e) \<Longrightarrow>
       \<exists>u before. user_of_broadcaster (so_users st) (in_broadcaster inc) = Some u \<and> oe_user e = ou_id u \<and>
          oe_msg e = in_msg inc \<and> oe_kind e = in_kind inc \<and> oe_payload e = in_payload inc \<and>
          \<not> stored (ou_id u) (in_msg inc) log \<and> log' = before @ [e]" using S by blast
  show "res = Inr None \<Longrightarrow>
       \<exists>u. user_of_broadcaster (so_users st) (in_broadcaster inc) = Some u \<and> stored (ou_id u) (in_msg inc) log'"
    using S by blast
  show "res = Inl Unknown_Broadcaster \<Longrightarrow>
       user_of_broadcaster (so_users st) (in_broadcaster inc) = None \<and> log' = log"
  proof -
    assume r: "res = Inl Unknown_Broadcaster"
    have "append_loop 0 seq_retries fl race user inc log \<noteq> (Inl Unknown_Broadcaster, log')" if "legit_race race" for fl race user
      using append_loop_spec [OF assms(1) that, of 0 seq_retries fl user inc] by fastforce
    then show ?thesis using i r assms(2) by (auto simp: ingest_def split: if_splits option.splits)
  qed
qed

lemma stored_last: "oe_user e = u \<Longrightarrow> oe_msg e = m \<Longrightarrow> stored u m (before @ [e])"
  by (simp add: stored_def)

lemma store_and_push_spec:
  assumes "log_inv log" and "legit_race (so_race st)" and "store_and_push st inc log reg = (r, log', reg')"
  shows "log_inv log' \<and> prefix log log' \<and> r \<in> {Status 204, Status 500} \<and>
     (\<forall>u. r = Status 204 \<and> user_of_broadcaster (so_users st) (in_broadcaster inc) = Some u \<longrightarrow>
        stored (ou_id u) (in_msg inc) log' \<and>
        (reg' \<noteq> reg \<longrightarrow> \<not> stored (ou_id u) (in_msg inc) log \<and>
           oe_user (last log') = ou_id u \<and> oe_msg (last log') = in_msg inc \<and>
           reg' = registry_push (ou_id u) (Frame_Event (last log')) reg))"
proof -
  obtain res l where i: "ingest_with st inc log = (res, l)" by (meson surj_pair)
  note S = ingest_with_spec [OF assms(1,2) i]
  have l: "log' = l" using assms(3) i by (auto simp: store_and_push_def split: sum.splits option.splits ingest_error.splits)
  show ?thesis
  proof (cases res)
    case (Inl err)
    then show ?thesis using assms(3) i S l by (cases err) (auto simp: store_and_push_def)
  next
    case (Inr x)
    show ?thesis
    proof (cases x)
      case None
      then show ?thesis using assms(3) i S l Inr by (auto simp: store_and_push_def)
    next
      case (Some e)
      then have r: "r = Status 204" "reg' = registry_push (oe_user e) (Frame_Event e) reg"
        using assms(3) i Inr by (auto simp: store_and_push_def)
      obtain u before where u: "user_of_broadcaster (so_users st) (in_broadcaster inc) = Some u" "oe_user e = ou_id u"
          "oe_msg e = in_msg inc" "\<not> stored (ou_id u) (in_msg inc) log" "l = before @ [e]"
        using S(2) Inr Some by blast
      then show ?thesis using S(1) r l stored_last [OF u(2,3)] by auto
    qed
  qed
qed

text \<open>A codec and a signer for the witnesses: fixed decodings, and a digest that echoes its key.\<close>

definition demo_codec :: codec where
  "demo_codec = \<lparr>
     cd_notification = (\<lambda>s. Some \<lparr> nt_type = sub_type_cheer, nt_broadcaster = ''77'', nt_event = s, nt_challenge = [] \<rparr>),
     cd_cheer = (\<lambda>s. Some \<lparr> cp_user_id = ''9'', cp_user_login = ''ann'', cp_user_name = ''Ann'',
       cp_is_anonymous = False, cp_bits = 100, cp_message = s \<rparr>),
     cd_redemption = (\<lambda>_. None), cd_power_up = (\<lambda>_. None),
     cd_dispatch = (\<lambda>s. Some \<lparr> dr_broadcaster = ''77'', dr_dedupe_key = s, dr_action = ''nuke'', dr_args = [],
       dr_user_id = ''9'', dr_user_login = ''ann'', dr_user_name = ''Ann'' \<rparr>),
     cd_receipt = (\<lambda>_. None), cd_payload = (\<lambda>_. ''{}'') \<rparr>"

definition demo_store :: store where
  "demo_store = \<lparr> so_users = demo_users, so_lookup_fails = False, so_faults = no_faults, so_race = (\<lambda>_ log. log) \<rparr>"

definition demo_headers :: headers where
  "demo_headers = \<lparr> hd_message_id = ''m1'', hd_timestamp = [], hd_signature = ''sha256=key'',
     hd_message_type = ''notification'', hd_subscription_type = sub_type_cheer \<rparr>"

lemma legit_demo: "legit_race (so_race demo_store)"
  by (simp add: demo_store_def legit_no_race)

text \<open>
  C17: The webhook of the overlay relay. Whatever is delivered, the log stays gapless and only grows, and
  a delivery that is not signed with the configured secret, or is not fresh, changes neither the log nor
  any overlay's queue. A notification of a known broadcaster that is answered with success is stored;
  when it had been stored before, nothing is pushed, and otherwise at most the event just stored is,
  to that broadcaster.
\<close>

theorem acknowledged_notification_is_stored:
  assumes "log_inv log" and "legit_race (so_race st)"
    and "eventsub_endpoint cd hmac parse_time st secret now h (Some body) log reg = (r, log', reg')"
  shows "log_inv log' \<and> prefix log log' \<and>
    ((log', reg') \<noteq> (log, reg) \<longrightarrow>
       (\<exists>key. secret = Some key \<and> verify_signature hmac h (take (256 * 1024) body) key) \<and>
       \<not> is_stale parse_time h now max_message_age) \<and>
    (\<forall>inc u. parse_notification cd h (take (256 * 1024) body) = Inr inc \<and> r = Status 204 \<and>
        hd_message_type h = ''notification'' \<and>
        user_of_broadcaster (so_users st) (in_broadcaster inc) = Some u \<longrightarrow>
        stored (ou_id u) (in_msg inc) log' \<and>
        (reg' \<noteq> reg \<longrightarrow> \<not> stored (ou_id u) (in_msg inc) log \<and>
           oe_user (last log') = ou_id u \<and> oe_msg (last log') = in_msg inc \<and>
           reg' = registry_push (ou_id u) (Frame_Event (last log')) reg))"
proof -
  let ?raw = "take (256 * 1024) body"
  consider (same) "log' = log" "reg' = reg" "r \<noteq> Status 204 \<or> hd_message_type h = ''revocation'' \<or>
        (\<exists>e. parse_notification cd h ?raw = Inl e)"
    | (ingest) key inc where "secret = Some key" "verify_signature hmac h ?raw key"
        "\<not> is_stale parse_time h now max_message_age" "parse_notification cd h ?raw = Inr inc"
        "store_and_push st inc log reg = (r, log', reg')"
    using assms(3)
    by (auto simp: eventsub_endpoint_def max_webhook_body_def Let_def
        split: option.splits if_splits sum.splits notification_error.splits)
  then show ?thesis
  proof cases
    case same
    then show ?thesis using assms(1) by auto
  next
    case (ingest key inc)
    then show ?thesis using store_and_push_spec [OF assms(1,2) ingest(5)] by auto
  qed
qed

theorem acknowledged_notification_is_stored_witness:
  "\<exists>log' reg'. eventsub_endpoint demo_codec (\<lambda>k m. k) (\<lambda>_. Some 0) demo_store (Some ''key'') 0 demo_headers
      (Some ''{}'') [] new_registry = (Status 204, log', reg') \<and> stored 4 ''m1'' log'"
proof -
  obtain r log' reg' where e: "eventsub_endpoint demo_codec (\<lambda>k m. k) (\<lambda>_. Some 0) demo_store (Some ''key'') 0
      demo_headers (Some ''{}'') [] new_registry = (r, log', reg')" by (metis prod_cases3)
  have p: "parse_notification demo_codec demo_headers ''{}'' =
      Inr \<lparr> in_msg = ''m1'', in_broadcaster = ''77'', in_kind = Kind_Cheer, in_payload = ''{}'' \<rparr>"
    and v: "verify_signature (\<lambda>k m. k) demo_headers ''{}'' ''key''"
    and f: "\<not> is_stale (\<lambda>_. Some 0) demo_headers 0 max_message_age"
    and t: "hd_message_type demo_headers = ''notification''"
    by code_simp+
  have i: "ingest_with demo_store \<lparr> in_msg = ''m1'', in_broadcaster = ''77'', in_kind = Kind_Cheer, in_payload = ''{}'' \<rparr> [] =
      (Inr (Some \<lparr> oe_user = 4, oe_seq = 1, oe_msg = ''m1'', oe_kind = Kind_Cheer, oe_payload = ''{}'' \<rparr>),
       [\<lparr> oe_user = 4, oe_seq = 1, oe_msg = ''m1'', oe_kind = Kind_Cheer, oe_payload = ''{}'' \<rparr>])" by code_simp
  have r: "r = Status 204"
    using e v f by (simp add: eventsub_endpoint_def max_webhook_body_def p t store_and_push_def i Let_def)
  have u: "user_of_broadcaster (so_users demo_store) ''77'' = Some \<lparr> ou_id = 4, ou_twitch = Some ''77'' \<rparr>" by code_simp
  show ?thesis
    using acknowledged_notification_is_stored [OF log_inv_Nil legit_demo e] e r p u
    by (simp add: demo_headers_def)
qed

text \<open>
  What "fresh" means in the code: a parsable timestamp is accepted exactly when it is at most ten
  minutes from now in either direction, or lies 2^63 nanoseconds (about 292 years) or more in the
  future: there the saturated difference has no 64-bit negation and stays negative.
\<close>

theorem fresh_window:
  "is_stale (\<lambda>_. Some ts) h now max_message_age \<longleftrightarrow>
     \<not> (\<bar>now - ts\<bar> \<le> 600 * 10 ^ 9 \<or> ts - now \<ge> 2 ^ 63)"
proof (cases "ts - now \<ge> 2 ^ 63")
  case True
  then have "time_sub now ts = - (2 ^ 63)" by (simp add: time_sub_def)
  then show ?thesis using True by (simp add: is_stale_def Let_def wrap64_def max_message_age_def)
next
  case False
  define d where "d = time_sub now ts"
  have d: "d = min (2 ^ 63 - 1) (now - ts)" "- (2 ^ 63) < d" using False by (auto simp: d_def time_sub_def)
  have "d < 0 \<Longrightarrow> wrap64 (- d) = - d" using d(2) by (intro wrap64_id) (simp add: in_int64_def)
  then have "is_stale (\<lambda>_. Some ts) h now max_message_age \<longleftrightarrow> \<bar>d\<bar> > 600 * 10 ^ 9"
    by (auto simp: is_stale_def Let_def d_def [symmetric] max_message_age_def)
  also have "\<dots> \<longleftrightarrow> \<bar>now - ts\<bar> > 600 * 10 ^ 9" using d by auto
  finally show ?thesis using False by auto
qed

text \<open>
  C35: A chat command runs at most once. When a dispatch was answered "delivered" or "not delivered" and
  the same message is dispatched again, later, with the same users, the second is never answered
  "delivered" and never reaches an overlay, whatever happened to the log and the registry in between.
  A command that is answered "delivered" went to an attached overlay as the newest event of the log.
\<close>

theorem command_dispatched_at_most_once:
  assumes "log_inv log" and "legit_race (so_race st)"
    and "dispatch_endpoint cd st body log reg = (Delivered d, log1, reg1)"
    and "log_inv log2" and "prefix log1 log2" and "legit_race (so_race st')" and "so_users st' = so_users st"
    and "dispatch_endpoint cd st' body log2 reg2 = (r, log3, reg3)"
  shows "(d \<longrightarrow> is_connected (oe_user (last log1)) reg \<and> oe_kind (last log1) = Kind_Command \<and>
            reg1 = registry_push (oe_user (last log1)) (Frame_Event (last log1)) reg) \<and>
         r \<noteq> Delivered True \<and> reg3 = reg2"
proof -
  define inc where "inc = dispatch_incoming cd (case cd_dispatch cd body of Some req0 \<Rightarrow>
     let req = req0\<lparr> dr_broadcaster := trim_space (dr_broadcaster req0), dr_action := trim_space (dr_action req0),
                     dr_dedupe_key := trim_space (dr_dedupe_key req0) \<rparr>
     in if length (dr_args req) > max_command_args then req\<lparr> dr_args := take max_command_args (dr_args req) \<rparr> else req)"
  have def: "dispatch_endpoint cd s body l rg =
      (case ingest_with s inc l of
         (Inl Unknown_Broadcaster, log') \<Rightarrow> (Delivered False, log', rg)
       | (Inl _, log') \<Rightarrow> (Status 500, log', rg)
       | (Inr None, log') \<Rightarrow> (Delivered False, log', rg)
       | (Inr (Some e), log') \<Rightarrow>
           (Delivered (is_connected (oe_user e) rg), log', registry_push (oe_user e) (Frame_Event e) rg))" for s l rg
    using assms(3) by (auto simp: dispatch_endpoint_def inc_def Let_def split: option.splits if_splits)
  have kind: "in_kind inc = Kind_Command" by (simp add: inc_def dispatch_incoming_def)
  obtain res1 l1 where i1: "ingest_with st inc log = (res1, l1)" by (meson surj_pair)
  note S1 = ingest_with_spec [OF assms(1,2) i1]
  obtain res2 l2 where i2: "ingest_with st' inc log2 = (res2, l2)" by (meson surj_pair)
  note S2 = ingest_with_spec [OF assms(4,6) i2]
  have first: "res1 = Inl Unknown_Broadcaster \<or> res1 = Inr None \<or> (\<exists>e. res1 = Inr (Some e))" and l1: "log1 = l1"
    using assms(3) unfolding def i1 by (auto split: sum.splits option.splits ingest_error.splits)
  have not_new: "res2 \<noteq> Inr (Some e)" for e
  proof
    assume a: "res2 = Inr (Some e)"
    then obtain u where u: "user_of_broadcaster (so_users st) (in_broadcaster inc) = Some u"
        "\<not> stored (ou_id u) (in_msg inc) log2" using S2(2) assms(7) by auto
    then have "\<not> stored (ou_id u) (in_msg inc) l1" using assms(5) l1 by (auto simp: prefix_def)
    then show False using first S1(2-4) u(1) by (auto simp: stored_def)
  qed
  have second: "r \<noteq> Delivered True \<and> reg3 = reg2"
    using assms(8) not_new unfolding def i2 by (auto split: sum.splits option.splits ingest_error.splits)
  have "is_connected (oe_user (last log1)) reg \<and> oe_kind (last log1) = Kind_Command \<and>
      reg1 = registry_push (oe_user (last log1)) (Frame_Event (last log1)) reg" if d: d
  proof -
    obtain e where e: "res1 = Inr (Some e)" "is_connected (oe_user e) reg"
        "reg1 = registry_push (oe_user e) (Frame_Event e) reg"
      using assms(3) d unfolding def i1 by (auto split: sum.splits option.splits ingest_error.splits)
    then show ?thesis using S1(2) kind l1 by auto
  qed
  then show ?thesis using second by blast
qed

theorem command_dispatched_at_most_once_witness:
  "fst (dispatch_endpoint demo_codec demo_store ''k1''
      (fst (snd (dispatch_endpoint demo_codec demo_store ''k1'' [] new_registry))) new_registry) \<noteq> Delivered True"
proof -
  obtain r1 log1 reg1 where one: "dispatch_endpoint demo_codec demo_store ''k1'' [] new_registry = (r1, log1, reg1)"
    by (metis prod_cases3)
  obtain r2 log2 reg2 where two: "dispatch_endpoint demo_codec demo_store ''k1'' log1 new_registry = (r2, log2, reg2)"
    by (metis prod_cases3)
  have "fst (dispatch_endpoint demo_codec demo_store ''k1'' [] new_registry) = Delivered False" by code_simp
  then have "dispatch_endpoint demo_codec demo_store ''k1'' [] new_registry = (Delivered False, log1, reg1)" using one by simp
  moreover have "log_inv log1"
  proof -
    have "fst (snd (dispatch_endpoint demo_codec demo_store ''k1'' [] new_registry)) =
       [\<lparr> oe_user = 4, oe_seq = 1, oe_msg = ''k1'', oe_kind = Kind_Command, oe_payload = ''{}'' \<rparr>]" by code_simp
    then show ?thesis using one by (simp add: log_inv_def user_events_def)
  qed
  ultimately show ?thesis
    using command_dispatched_at_most_once [OF log_inv_Nil legit_demo _ _ prefix_order.refl legit_demo refl two] one two by simp
qed

section \<open>The order of live pushes\<close>

lemma runs_init: "relay_runs users hns relay_init"
  by (simp add: relay_runs_def)

lemma runs_step: "relay_runs users hns r \<Longrightarrow> hn \<in> hns \<Longrightarrow> relay_step users r hn r' \<Longrightarrow> relay_runs users hns r'"
  unfolding relay_runs_def by (rule rtranclp.rtrancl_into_rtrancl) auto

definition owned_by :: "overlay_user list \<Rightarrow> string \<Rightarrow> overlay_event \<Rightarrow> bool" where
  "owned_by users b e \<longleftrightarrow> (\<exists>u. user_of_broadcaster users b = Some u \<and> oe_user e = ou_id u)"

lemma owned_by_inj:
  assumes "distinct (map ou_id users)" and "owned_by users b e" and "owned_by users b' e'" and "oe_user e = oe_user e'"
  shows "b = b'"
proof -
  obtain u u' where u: "user_of_broadcaster users b = Some u" "user_of_broadcaster users b' = Some u'" "ou_id u = ou_id u'"
    using assms(2-4) by (auto simp: owned_by_def)
  have m: "u \<in> set users \<and> ou_twitch u = Some b" "u' \<in> set users \<and> ou_twitch u' = Some b'"
    using u(1,2) find_Some_mem unfolding user_of_broadcaster_def by fast+
  then have "u = u'" using u(3) assms(1) by (meson distinct_map inj_onD)
  then show ?thesis using m by simp
qed

definition order_inv :: "overlay_user list \<Rightarrow> handler \<Rightarrow> relay_run \<Rightarrow> bool" where
  "order_inv users hn r \<longleftrightarrow>
     log_inv (rr_log r) \<and> set (rr_pushed r) \<subseteq> set (rr_log r) \<and>
     (\<forall>u. sorted_wrt (<) (map oe_seq (user_events u (rr_pushed r)))) \<and>
     (\<forall>t hn' b e. rr_threads r t = Appended_Not_Pushed hn' b e \<longrightarrow>
        hn' = hn \<and> e \<in> set (rr_log r) \<and> owned_by users b e \<and>
        (\<forall>x \<in> set (rr_pushed r). oe_user x = oe_user e \<longrightarrow> oe_seq x < oe_seq e)) \<and>
     (\<forall>t t' b e e'. rr_threads r t = Appended_Not_Pushed hn b e \<and>
        rr_threads r t' = Appended_Not_Pushed hn b e' \<longrightarrow> t = t')"

lemma order_invD:
  assumes "order_inv users hn r"
  shows "log_inv (rr_log r)" and "set (rr_pushed r) \<subseteq> set (rr_log r)"
    and "sorted_wrt (<) (map oe_seq (user_events u (rr_pushed r)))"
    and "rr_threads r t = Appended_Not_Pushed hn' b e \<Longrightarrow> hn' = hn"
    and "rr_threads r t = Appended_Not_Pushed hn' b e \<Longrightarrow> e \<in> set (rr_log r)"
    and "rr_threads r t = Appended_Not_Pushed hn' b e \<Longrightarrow> owned_by users b e"
    and "rr_threads r t = Appended_Not_Pushed hn' b e \<Longrightarrow> x \<in> set (rr_pushed r) \<Longrightarrow>
           oe_user x = oe_user e \<Longrightarrow> oe_seq x < oe_seq e"
    and "rr_threads r t = Appended_Not_Pushed hn b e \<Longrightarrow> rr_threads r t' = Appended_Not_Pushed hn b e' \<Longrightarrow> t = t'"
  using assms unfolding order_inv_def by blast+

lemma order_invI:
  assumes "log_inv (rr_log r)" and "set (rr_pushed r) \<subseteq> set (rr_log r)"
    and "\<And>u. sorted_wrt (<) (map oe_seq (user_events u (rr_pushed r)))"
    and "\<And>t hn' b e. rr_threads r t = Appended_Not_Pushed hn' b e \<Longrightarrow> hn' = hn \<and> e \<in> set (rr_log r) \<and> owned_by users b e"
    and "\<And>t b e x. rr_threads r t = Appended_Not_Pushed hn b e \<Longrightarrow> x \<in> set (rr_pushed r) \<Longrightarrow>
           oe_user x = oe_user e \<Longrightarrow> oe_seq x < oe_seq e"
    and "\<And>t t' b e e'. rr_threads r t = Appended_Not_Pushed hn b e \<Longrightarrow>
           rr_threads r t' = Appended_Not_Pushed hn b e' \<Longrightarrow> t = t'"
  shows "order_inv users hn r"
  unfolding order_inv_def using assms by blast

lemma order_inv_init: "order_inv users hn relay_init"
  by (rule order_invI) (simp_all add: relay_init_def log_inv_Nil user_events_def)

lemma order_inv_append:
  assumes "distinct (map ou_id users)" and "hn \<noteq> Dispatch" and "order_inv users hn r"
    and "rr_threads r t = Waiting_To_Append" and "lock_free hn (in_broadcaster inc) r"
    and "ingest False no_faults (\<lambda>_ log. log) users inc (rr_log r) = (Inr (Some e), log')"
  shows "order_inv users hn
     (r\<lparr> rr_log := log', rr_threads := (rr_threads r)(t := Appended_Not_Pushed hn (in_broadcaster inc) e) \<rparr>)"
proof -
  note D = order_invD [OF assms(3)]
  obtain u before where i: "log_inv log'" "prefix (rr_log r) log'" "log' = before @ [e]"
      "user_of_broadcaster users (in_broadcaster inc) = Some u" "oe_user e = ou_id u"
      "\<not> stored (ou_id u) (in_msg inc) (rr_log r)" "oe_msg e = in_msg inc"
      "oe_seq e = int (length (user_events (ou_id u) before)) + 1"
    using ingest_spec [OF D(1) legit_no_race assms(6)] by blast
  have "rr_log r \<noteq> before @ [e]" using i(5-7) by (auto simp: stored_def)
  then have pre: "prefix (rr_log r) before" using i(2,3) by (auto simp: prefix_snoc)
  have free: "rr_threads r s \<noteq> Appended_Not_Pushed hn (in_broadcaster inc) x" for s x
    using assms(2,5) by (auto simp: lock_free_def)
  have newer: "oe_seq x < oe_seq e" if "x \<in> set (rr_log r)" "oe_user x = ou_id u" for x
  proof -
    have "oe_seq x \<le> int (length (user_events (ou_id u) (rr_log r)))" using seq_range [OF D(1) that] by simp
    also have "\<dots> \<le> int (length (user_events (ou_id u) before))" using pre by (auto simp: prefix_def)
    finally show ?thesis using i(8) by simp
  qed
  show ?thesis
  proof (rule order_invI; simp)
    show "log_inv log'" by (rule i(1))
    show "set (rr_pushed r) \<subseteq> set log'" using D(2) i(2) by (auto simp: prefix_def)
    show "sorted_wrt (<) (map oe_seq (user_events v (rr_pushed r)))" for v by (rule D(3))
  next
    fix s hn' b e'
    assume a: "(if s = t then Appended_Not_Pushed hn (in_broadcaster inc) e else rr_threads r s) = Appended_Not_Pushed hn' b e'"
    show "hn' = hn \<and> e' \<in> set log' \<and> owned_by users b e'"
    proof (cases "s = t")
      case True
      then show ?thesis using a i by (auto simp: owned_by_def)
    next
      case False
      then show ?thesis using a D(4-6) [of s hn' b e'] i(2) by (auto simp: prefix_def)
    qed
  next
    fix s b e' x
    assume a: "(if s = t then Appended_Not_Pushed hn (in_broadcaster inc) e else rr_threads r s) = Appended_Not_Pushed hn b e'"
      "x \<in> set (rr_pushed r)" "oe_user x = oe_user e'"
    show "oe_seq x < oe_seq e'"
    proof (cases "s = t")
      case True
      then show ?thesis using a newer D(2) i(5) by auto
    next
      case False
      then show ?thesis using a D(7) by auto
    qed
  next
    fix s s' b e1 e2
    assume "(if s = t then Appended_Not_Pushed hn (in_broadcaster inc) e else rr_threads r s) = Appended_Not_Pushed hn b e1"
      "(if s' = t then Appended_Not_Pushed hn (in_broadcaster inc) e else rr_threads r s') = Appended_Not_Pushed hn b e2"
    then show "s = s'" using free D(8) by (auto split: if_splits)
  qed
qed

lemma order_inv_push:
  assumes "distinct (map ou_id users)" and "order_inv users hn r"
    and "rr_threads r t = Appended_Not_Pushed hn' b e"
  shows "order_inv users hn (r\<lparr> rr_pushed := rr_pushed r @ [e], rr_threads := (rr_threads r)(t := Waiting_To_Append) \<rparr>)"
proof -
  note D = order_invD [OF assms(2)]
  have hn: "hn' = hn" using D(4) [OF assms(3)] .
  have other: "oe_user x \<noteq> oe_user e" if "s \<noteq> t" "rr_threads r s = Appended_Not_Pushed hn c x" for s c x
  proof
    assume "oe_user x = oe_user e"
    then have "c = b" using owned_by_inj [OF assms(1) D(6) [OF that(2)] D(6) [OF assms(3)]] by simp
    then show False using D(8) that assms(3) hn by blast
  qed
  show ?thesis
  proof (rule order_invI; simp)
    show "log_inv (rr_log r)" by (rule D(1))
    show "e \<in> set (rr_log r) \<and> set (rr_pushed r) \<subseteq> set (rr_log r)" using D(2) D(5) [OF assms(3)] by simp
    show "sorted_wrt (<) (map oe_seq (user_events u (rr_pushed r)) @ map oe_seq (user_events u [e]))" for u
      using D(3) [of u] D(7) [OF assms(3)] by (auto simp: sorted_wrt_append user_events_def)
  next
    fix s hn'' c x assume "(if s = t then Waiting_To_Append else rr_threads r s) = Appended_Not_Pushed hn'' c x"
    then show "hn'' = hn \<and> x \<in> set (rr_log r) \<and> owned_by users c x" using D(4-6) by (auto split: if_splits)
  next
    fix s c x y assume a: "(if s = t then Waiting_To_Append else rr_threads r s) = Appended_Not_Pushed hn c x"
      "y = e \<or> y \<in> set (rr_pushed r)" "oe_user y = oe_user x"
    then have s: "s \<noteq> t" "rr_threads r s = Appended_Not_Pushed hn c x" by (auto split: if_splits)
    show "oe_seq y < oe_seq x" using a(2,3) D(7) [OF s(2)] other [OF s] by auto
  next
    fix s s' c x y assume "(if s = t then Waiting_To_Append else rr_threads r s) = Appended_Not_Pushed hn c x"
      "(if s' = t then Waiting_To_Append else rr_threads r s') = Appended_Not_Pushed hn c y"
    then show "s = s'" using D(8) by (auto split: if_splits)
  qed
qed

lemma order_inv_runs:
  assumes "distinct (map ou_id users)" and "hn \<noteq> Dispatch" and "relay_runs users {hn} r"
  shows "order_inv users hn r"
  using assms(3) unfolding relay_runs_def
proof (induction rule: rtranclp_induct)
  case base
  show ?case by (rule order_inv_init)
next
  case (step r r')
  then have "relay_step users r hn r'" by simp
  then show ?case
    by (cases rule: relay_stepE) (use order_inv_append [OF assms(1,2) step(3)] order_inv_push [OF assms(1) step(3)] in auto)
qed

text \<open>
  C11: As long as all of a broadcaster's events come through one of the two ingest handlers, live events
  are pushed in the order of their positions, in every interleaving of any number of requests.
\<close>

theorem one_handler_pushes_in_order:
  assumes "distinct (map ou_id users)" and "hn \<noteq> Dispatch" and "relay_runs users {hn} r"
  shows "sorted_wrt (<) (map oe_seq (user_events u (rr_pushed r))) \<and> set (rr_pushed r) \<subseteq> set (rr_log r)"
  using order_invD(2,3) [OF order_inv_runs [OF assms]] by blast

theorem one_handler_pushes_in_order_witness:
  "\<exists>r. relay_runs demo_users {Eventsub} r \<and> map oe_seq (rr_pushed r) = [1] \<and>
     sorted_wrt (<) (map oe_seq (user_events 4 (rr_pushed r)))"
proof -
  define e where "e = \<lparr> oe_user = 4, oe_seq = 1, oe_msg = ''a'', oe_kind = Kind_Cheer, oe_payload = ''{}'' \<rparr>"
  define r1 where "r1 = relay_init\<lparr> rr_log := [e], rr_threads := (rr_threads relay_init)
      (0 := Appended_Not_Pushed Eventsub (in_broadcaster (demo_cheer ''a'')) e) \<rparr>"
  define r2 where "r2 = r1\<lparr> rr_pushed := rr_pushed r1 @ [e], rr_threads := (rr_threads r1)(0 := Waiting_To_Append) \<rparr>"
  have i: "ingest False no_faults (\<lambda>_ log. log) demo_users (demo_cheer ''a'') [] = (Inr (Some e), [e])"
    unfolding e_def by code_simp
  have "relay_step demo_users relay_init Eventsub r1"
    unfolding r1_def using i by (intro Append_New) (simp_all add: relay_init_def lock_free_def)
  moreover have "relay_step demo_users r1 Eventsub r2"
    unfolding r2_def
    by (rule Push_Release [where hn = Eventsub and b = "in_broadcaster (demo_cheer ''a'')"]) (simp add: r1_def)
  ultimately have runs: "relay_runs demo_users {Eventsub} r2"
    using runs_init [of demo_users "{Eventsub}"] runs_step by blast
  have "distinct (map ou_id demo_users)" by (simp add: demo_users_def)
  note P = one_handler_pushes_in_order [OF this _ runs, of 4, simplified]
  show ?thesis
    by (intro exI [of _ r2] conjI runs conjunct1 [OF P]) (simp add: r2_def r1_def relay_init_def e_def)
qed

definition demo_purchase :: incoming where
  "demo_purchase = \<lparr> in_msg = ''b'', in_broadcaster = ''77'', in_kind = Kind_Extension, in_payload = ''{}'' \<rparr>"

text \<open>
  The two ingest handlers together do not keep that promise. Each holds a keyed mutex of its own, so
  a cheer and an extension purchase of one broadcaster can be appended as 1 and 2 and pushed as 2 and 1.
\<close>

theorem two_handlers_push_out_of_order:
  "\<exists>r. relay_runs demo_users {Eventsub, Extension} r \<and> map oe_user (rr_pushed r) = [4, 4] \<and>
     map oe_seq (rr_pushed r) = [2, 1]"
proof -
  define e1 where "e1 = \<lparr> oe_user = 4, oe_seq = 1, oe_msg = ''a'', oe_kind = Kind_Cheer, oe_payload = ''{}'' \<rparr>"
  define e2 where "e2 = \<lparr> oe_user = 4, oe_seq = 2, oe_msg = ''b'', oe_kind = Kind_Extension, oe_payload = ''{}'' \<rparr>"
  have i1: "ingest False no_faults (\<lambda>_ log. log) demo_users (demo_cheer ''a'') [] = (Inr (Some e1), [e1])"
    and i2: "ingest False no_faults (\<lambda>_ log. log) demo_users demo_purchase [e1] = (Inr (Some e2), [e1, e2])"
    unfolding e1_def e2_def by code_simp+
  define r1 where "r1 = relay_init\<lparr> rr_log := [e1], rr_threads := (rr_threads relay_init)
      (0 := Appended_Not_Pushed Eventsub (in_broadcaster (demo_cheer ''a'')) e1) \<rparr>"
  define r2 where "r2 = r1\<lparr> rr_log := [e1, e2], rr_threads := (rr_threads r1)
      (1 := Appended_Not_Pushed Extension (in_broadcaster demo_purchase) e2) \<rparr>"
  define r3 where "r3 = r2\<lparr> rr_pushed := rr_pushed r2 @ [e2], rr_threads := (rr_threads r2)(1 := Waiting_To_Append) \<rparr>"
  define r4 where "r4 = r3\<lparr> rr_pushed := rr_pushed r3 @ [e1], rr_threads := (rr_threads r3)(0 := Waiting_To_Append) \<rparr>"
  have s1: "relay_step demo_users relay_init Eventsub r1"
    unfolding r1_def using i1 by (intro Append_New) (simp_all add: relay_init_def lock_free_def)
  have s2: "relay_step demo_users r1 Extension r2"
    unfolding r2_def using i2 by (intro Append_New) (simp_all add: r1_def relay_init_def lock_free_def)
  have s3: "relay_step demo_users r2 Extension r3"
    unfolding r3_def
    by (rule Push_Release [where hn = Extension and b = "in_broadcaster demo_purchase"]) (simp add: r2_def)
  have s4: "relay_step demo_users r3 Eventsub r4"
    unfolding r4_def
    by (rule Push_Release [where hn = Eventsub and b = "in_broadcaster (demo_cheer ''a'')"]) (simp add: r3_def r2_def r1_def)
  have "relay_runs demo_users {Eventsub, Extension} r4"
    by (rule runs_step [OF runs_step [OF runs_step [OF runs_step [OF runs_init _ s1] _ s2] _ s3] _ s4]) simp_all
  moreover have "rr_pushed r4 = [e2, e1]" by (simp add: r4_def r3_def r2_def r1_def relay_init_def)
  ultimately show ?thesis by (auto simp: e1_def e2_def)
qed

end
