(* ===== verification/Overlay_Extension.thy ===== *)
theory Overlay_Extension
  imports Overlay_Relay_Properties
begin

text \<open>
  Bits purchases of the Twitch Extension: \<^verbatim>\<open>internal/libraries/twitchext\<close> (the shared secret and the
  two tokens) and \<^verbatim>\<open>cmd/core-api/endpoints/overlay/extension.go\<close>. The JWT library is a parameter:
  the claims of a token whose signature, method and expiry it accepts under a key.
\<close>

section \<open>The shared secret\<close>

definition b64_std_alphabet :: string where
  "b64_std_alphabet = ''ABCDEFGHIJKLMNOPQRSTUVWXYZabcdefghijklmnopqrstuvwxyz0123456789+/''"

fun index_of :: "char \<Rightarrow> string \<Rightarrow> nat \<Rightarrow> nat option" where
  "index_of c [] n = None"
| "index_of c (d # ds) n = (if c = d then Some n else index_of c ds (n + 1))"

definition b64_value :: "string \<Rightarrow> char \<Rightarrow> nat option" where
  "b64_value alphabet c = index_of c alphabet 0"

text \<open>The padded decoders of \<^verbatim>\<open>encoding/base64\<close>, after the line breaks are skipped.\<close>

fun b64_quanta :: "string \<Rightarrow> string \<Rightarrow> nat list option" where
  "b64_quanta alphabet [] = Some []"
| "b64_quanta alphabet (a # b # c # d # rest) =
     (case (b64_value alphabet a, b64_value alphabet b) of
        (Some x, Some y) \<Rightarrow>
          (if c = CHR ''='' then
             (if d = CHR ''='' \<and> rest = [] then Some [(x * 64 + y) div 16] else None)
           else case b64_value alphabet c of
             None \<Rightarrow> None
           | Some z \<Rightarrow>
               (if d = CHR ''='' then
                  (if rest = [] then Some [(x * 64 + y) div 16, (y * 64 + z) div 4 mod 256] else None)
                else case b64_value alphabet d of
                  None \<Rightarrow> None
                | Some w \<Rightarrow>
                    map_option (\<lambda>bs. [(x * 64 + y) div 16, (y * 64 + z) div 4 mod 256, (z * 64 + w) mod 256] @ bs)
                      (b64_quanta alphabet rest)))
      | _ \<Rightarrow> None)"
| "b64_quanta alphabet _ = None"

definition b64_decode :: "string \<Rightarrow> string \<Rightarrow> nat list option" where
  "b64_decode alphabet s = b64_quanta alphabet (filter (\<lambda>c. c \<noteq> CHR 0x0A \<and> c \<noteq> CHR 0x0D) s)"

definition decode_secret :: "string \<Rightarrow> nat list option" where
  "decode_secret secret =
     (let s = trim_space secret
      in if s = [] then None
         else
           let m = length s mod 4;
               s' = (if m \<noteq> 0 then s @ replicate (4 - m) (CHR ''='') else s);
               decoded = (case b64_decode b64_std_alphabet s' of
                            Some bs \<Rightarrow> Some bs
                          | None \<Rightarrow> b64_decode b64_alphabet s')
           in case decoded of
                None \<Rightarrow> None
              | Some bs \<Rightarrow> if bs = [] then None else Some bs)"

section \<open>The tokens\<close>

record identity_claims =
  ic_channel_id :: string

record receipt_claims =
  rc_topic :: string
  rc_transaction_id :: string
  rc_user_id :: string
  rc_sku :: string
  rc_display_name :: string
  rc_amount :: int

text \<open>\<open>jwt key token\<close> are the claims of an acceptable token.\<close>

definition verify_token :: "(nat list \<Rightarrow> string \<Rightarrow> 'c option) \<Rightarrow> string \<Rightarrow> nat list \<Rightarrow> 'c option" where
  "verify_token jwt token key = (if trim_space token = [] then None else jwt key token)"

definition verify_identity ::
  "(nat list \<Rightarrow> string \<Rightarrow> identity_claims option) \<Rightarrow> string \<Rightarrow> nat list \<Rightarrow> identity_claims option" where
  "verify_identity jwt token key =
     (case verify_token jwt token key of
        None \<Rightarrow> None
      | Some claims \<Rightarrow> if trim_space (ic_channel_id claims) = [] then None else Some claims)"

definition receipt_topic :: string where
  "receipt_topic = ''bits_transaction_receipt''"

definition verify_receipt ::
  "(nat list \<Rightarrow> string \<Rightarrow> receipt_claims option) \<Rightarrow> string \<Rightarrow> nat list \<Rightarrow> receipt_claims option" where
  "verify_receipt jwt token key =
     (case verify_token jwt token key of
        None \<Rightarrow> None
      | Some claims \<Rightarrow>
          if rc_topic claims \<noteq> receipt_topic then None
          else if trim_space (rc_sku claims) = [] then None
          else if trim_space (rc_transaction_id claims) = [] then None
          else Some claims)"

section \<open>The handler\<close>

definition bearer_token :: "string \<Rightarrow> string" where
  "bearer_token header =
     (let prefix = ''bearer ''
      in if length header < length prefix \<or> \<not> equal_fold (take (length prefix) header) prefix then []
         else trim_space (drop (length prefix) header))"

record extension_config =
  ec_client_id :: string
  ec_secret :: string

definition extension_enabled :: "extension_config \<Rightarrow> bool" where
  "extension_enabled cfg \<longleftrightarrow> trim_space (ec_client_id cfg) \<noteq> [] \<and> trim_space (ec_secret cfg) \<noteq> []"

definition max_extension_body :: nat where
  "max_extension_body = 64 * 1024"

definition purchase_incoming :: "codec \<Rightarrow> identity_claims \<Rightarrow> receipt_claims \<Rightarrow> incoming" where
  "purchase_incoming cd identity receipt =
     \<lparr> in_msg = rc_transaction_id receipt, in_broadcaster = ic_channel_id identity, in_kind = Kind_Extension,
       in_payload = cd_payload cd (Pay_Extension
         \<lparr> xp_user_id = rc_user_id receipt, xp_user_login = [], xp_user_name = [], xp_bits = rc_amount receipt,
           xp_product_sku = rc_sku receipt, xp_product_name = rc_display_name receipt \<rparr>) \<rparr>"

definition extension_endpoint ::
  "codec \<Rightarrow> (nat list \<Rightarrow> string \<Rightarrow> identity_claims option) \<Rightarrow> (nat list \<Rightarrow> string \<Rightarrow> receipt_claims option) \<Rightarrow> store
     \<Rightarrow> extension_config option \<Rightarrow> string \<Rightarrow> string option \<Rightarrow> event_log \<Rightarrow> registry
     \<Rightarrow> reply \<times> event_log \<times> registry" where
  "extension_endpoint cd jwt_id jwt_rc st config authorization body log reg =
     (case config of
        None \<Rightarrow> (Status 500, log, reg)
      | Some cfg \<Rightarrow>
          if \<not> extension_enabled cfg then (Status 503, log, reg)
          else case decode_secret (ec_secret cfg) of
            None \<Rightarrow> (Status 500, log, reg)
          | Some key \<Rightarrow>
              let token = bearer_token authorization
              in if token = [] then (Status 401, log, reg)
                 else case body of
                   None \<Rightarrow> (Status 400, log, reg)
                 | Some bytes \<Rightarrow>
                     (case cd_receipt cd (take max_extension_body bytes) of
                        None \<Rightarrow> (Status 400, log, reg)
                      | Some receipt_token \<Rightarrow>
                          if trim_space receipt_token = [] then (Status 400, log, reg)
                          else case verify_identity jwt_id token key of
                            None \<Rightarrow> (Status 403, log, reg)
                          | Some identity \<Rightarrow>
                              (case verify_receipt jwt_rc receipt_token key of
                                 None \<Rightarrow> (Status 403, log, reg)
                               | Some receipt \<Rightarrow>
                                   store_and_push st (purchase_incoming cd identity receipt) log reg)))"

section \<open>Properties\<close>

lemma b64_char_value:
  assumes "n < 64"
  shows "b64_value b64_alphabet (b64_char n) = Some n" and "b64_char n \<noteq> CHR ''=''"
    and "b64_char n \<noteq> CHR 0x0A" and "b64_char n \<noteq> CHR 0x0D" and "\<not> is_space (b64_char n)"
proof -
  have "list_all (\<lambda>n. b64_value b64_alphabet (b64_char n) = Some n \<and> b64_char n \<noteq> CHR ''='' \<and>
      b64_char n \<noteq> CHR 0x0A \<and> b64_char n \<noteq> CHR 0x0D \<and> \<not> is_space (b64_char n)) [0..<64]" by code_simp
  then have "\<forall>n \<in> {0..<64}. b64_value b64_alphabet (b64_char n) = Some n \<and> b64_char n \<noteq> CHR ''='' \<and>
      b64_char n \<noteq> CHR 0x0A \<and> b64_char n \<noteq> CHR 0x0D \<and> \<not> is_space (b64_char n)"
    by (simp only: list_all_iff set_upt)
  then show "b64_value b64_alphabet (b64_char n) = Some n" "b64_char n \<noteq> CHR ''=''"
      "b64_char n \<noteq> CHR 0x0A" "b64_char n \<noteq> CHR 0x0D" "\<not> is_space (b64_char n)"
    using assms by auto
qed

definition pad_b64 :: "string \<Rightarrow> string" where
  "pad_b64 s = s @ replicate ((4 - length s mod 4) mod 4) (CHR ''='')"

lemma quantum_bytes:
  fixes a b c :: nat
  assumes "a < 256" and "b < 256" and "c < 256"
  shows "a div 4 < 64" "a mod 4 * 16 < 64" "a mod 4 * 16 + b div 16 < 64" "b mod 16 * 4 < 64"
    "b mod 16 * 4 + c div 64 < 64" "c mod 64 < 64"
    "(a div 4 * 64 + a mod 4 * 16) div 16 = a"
    "(a div 4 * 64 + (a mod 4 * 16 + b div 16)) div 16 = a"
    "((a mod 4 * 16 + b div 16) * 64 + b mod 16 * 4) div 4 mod 256 = b"
    "((a mod 4 * 16 + b div 16) * 64 + (b mod 16 * 4 + c div 64)) div 4 mod 256 = b"
    "((b mod 16 * 4 + c div 64) * 64 + c mod 64) mod 256 = c"
proof -
  show "a div 4 < 64" "a mod 4 * 16 < 64" "b mod 16 * 4 < 64" "c mod 64 < 64" using assms by auto
  have "a mod 4 \<le> 3" "b div 16 < 16" "b mod 16 \<le> 15" "c div 64 < 4" using assms by auto
  then show "a mod 4 * 16 + b div 16 < 64" "b mod 16 * 4 + c div 64 < 64" by linarith+
  show "(a div 4 * 64 + a mod 4 * 16) div 16 = a" by presburger
  have "a div 4 * 64 + (a mod 4 * 16 + b div 16) = b div 16 + (a div 4 * 4 + a mod 4) * 16"
    by (simp only: distrib_right mult.assoc)
  moreover have "b div 16 < 16" using assms(2) by simp
  ultimately show "(a div 4 * 64 + (a mod 4 * 16 + b div 16)) div 16 = a" by simp
  have b: "b div 16 * 16 + b mod 16 = b" and c: "c div 64 * 64 + c mod 64 = c" by simp_all
  have s1: "(p * 16 + q) * 64 + r * 4 = (p * 256 + (q * 16 + r)) * 4"
    and s2: "(p * 16 + q) * 64 + (r * 4 + v) = v + (p * 256 + (q * 16 + r)) * 4"
    and s3: "(r * 4 + p) * 64 + q = (p * 64 + q) + r * 256" for p q r v :: nat by simp_all
  have s4: "(v + p * 4) div 4 = p" if "v < 4" for v p :: nat using that by simp
  have cs: "c div 64 < 4" using assms(3) by simp
  show "((a mod 4 * 16 + b div 16) * 64 + b mod 16 * 4) div 4 mod 256 = b"
    unfolding s1 b using assms(2) by simp
  show "((a mod 4 * 16 + b div 16) * 64 + (b mod 16 * 4 + c div 64)) div 4 mod 256 = b"
    unfolding s2 b s4 [OF cs] using assms(2) by simp
  show "((b mod 16 * 4 + c div 64) * 64 + c mod 64) mod 256 = c"
    unfolding s3 c using assms(3) by simp
qed

text \<open>The two alphabets agree on every value they share.\<close>

lemma std_value:
  assumes "n < 64"
  shows "b64_value b64_std_alphabet (b64_char n) = None \<or> b64_value b64_std_alphabet (b64_char n) = Some n"
proof -
  have "list_all (\<lambda>n. b64_value b64_std_alphabet (b64_char n) = None \<or>
      b64_value b64_std_alphabet (b64_char n) = Some n) [0..<64]" by code_simp
  then have "\<forall>n \<in> {0..<64}. b64_value b64_std_alphabet (b64_char n) = None \<or>
      b64_value b64_std_alphabet (b64_char n) = Some n" by (simp only: list_all_iff set_upt)
  then show ?thesis using assms by auto
qed

definition value_or :: "bool \<Rightarrow> string \<Rightarrow> char \<Rightarrow> nat \<Rightarrow> bool" where
  "value_or weak al ch n \<longleftrightarrow> b64_value al ch = Some n \<or> weak \<and> b64_value al ch = None"

lemma quantum1:
  assumes "value_or weak al c1 x" and "value_or weak al c2 y" and "(x * 64 + y) div 16 = a"
  shows "b64_quanta al [c1, c2, CHR ''='', CHR ''=''] = Some [a] \<or> weak \<and> b64_quanta al [c1, c2, CHR ''='', CHR ''=''] = None"
  using assms(1,2) unfolding assms(3) [symmetric] value_or_def by (auto split: option.splits)

lemma quantum2:
  assumes "value_or weak al c1 x" and "value_or weak al c2 y" and "value_or weak al c3 z" and "c3 \<noteq> CHR ''=''"
    and "(x * 64 + y) div 16 = a" and "(y * 64 + z) div 4 mod 256 = b"
  shows "b64_quanta al [c1, c2, c3, CHR ''=''] = Some [a, b] \<or> weak \<and> b64_quanta al [c1, c2, c3, CHR ''=''] = None"
  using assms(1-4) unfolding assms(5,6) [symmetric] value_or_def by (auto split: option.splits)

lemma quantum3:
  assumes "value_or weak al c1 x" and "value_or weak al c2 y" and "value_or weak al c3 z" and "value_or weak al c4 w"
    and "c3 \<noteq> CHR ''=''" and "c4 \<noteq> CHR ''=''"
    and "(x * 64 + y) div 16 = a" and "(y * 64 + z) div 4 mod 256 = b" and "(z * 64 + w) mod 256 = c"
    and "b64_quanta al cs = Some bs \<or> weak \<and> b64_quanta al cs = None"
  shows "b64_quanta al (c1 # c2 # c3 # c4 # cs) = Some (a # b # c # bs) \<or> weak \<and> b64_quanta al (c1 # c2 # c3 # c4 # cs) = None"
  using assms(1-6,10) unfolding assms(7-9) [symmetric] value_or_def by (auto split: option.splits)

lemma quanta_encode:
  assumes "\<And>n. n < 64 \<Longrightarrow> value_or weak al (b64_char n) n" and "list_all (\<lambda>b. b < 256) bs"
  shows "b64_quanta al (pad_b64 (b64_encode bs)) = Some bs \<or> weak \<and> b64_quanta al (pad_b64 (b64_encode bs)) = None"
  using assms(2)
proof (induction bs rule: b64_encode.induct)
  case 1
  show ?case by (simp add: pad_b64_def)
next
  case (2 a)
  have p: "pad_b64 (b64_encode [a]) = [b64_char (a div 4), b64_char (a mod 4 * 16), CHR ''='', CHR ''='']"
    by (simp add: pad_b64_def numeral_2_eq_2)
  show ?case unfolding p
    by (rule quantum1 [OF assms(1) assms(1)]) (use 2 quantum_bytes(1,2,7) [of a 0 0] in simp_all)
next
  case (3 a b)
  have p: "pad_b64 (b64_encode [a, b]) =
      [b64_char (a div 4), b64_char (a mod 4 * 16 + b div 16), b64_char (b mod 16 * 4), CHR ''='']"
    by (simp add: pad_b64_def)
  have q: "a < 256" "b < 256" "(0 :: nat) < 256" using 3 by simp_all
  show ?case unfolding p
    by (rule quantum2 [OF assms(1) [OF quantum_bytes(1) [OF q]] assms(1) [OF quantum_bytes(3) [OF q]]
          assms(1) [OF quantum_bytes(4) [OF q]] b64_char_value(2) [OF quantum_bytes(4) [OF q]]
          quantum_bytes(8) [OF q] quantum_bytes(9) [OF q]])
next
  case (4 a b c rest)
  have q: "a < 256" "b < 256" "c < 256" and r: "list_all (\<lambda>b. b < 256) rest" using 4 by simp_all
  have len: "length (b64_encode (a # b # c # rest)) mod 4 = length (b64_encode rest) mod 4" by simp
  have pad: "pad_b64 (b64_encode (a # b # c # rest)) =
      b64_char (a div 4) # b64_char (a mod 4 * 16 + b div 16) # b64_char (b mod 16 * 4 + c div 64) #
      b64_char (c mod 64) # pad_b64 (b64_encode rest)" unfolding pad_b64_def len by simp
  show ?case unfolding pad
    by (rule quantum3 [OF assms(1) [OF quantum_bytes(1) [OF q]] assms(1) [OF quantum_bytes(3) [OF q]]
          assms(1) [OF quantum_bytes(5) [OF q]] assms(1) [OF quantum_bytes(6) [OF q]]
          b64_char_value(2) [OF quantum_bytes(5) [OF q]] b64_char_value(2) [OF quantum_bytes(6) [OF q]]
          quantum_bytes(8) [OF q] quantum_bytes(10) [OF q] quantum_bytes(11) [OF q] 4(1) [OF r]])
qed

lemma encode_chars:
  "list_all (\<lambda>b. b < 256) bs \<Longrightarrow> list_all (\<lambda>c. c \<noteq> CHR 0x0A \<and> c \<noteq> CHR 0x0D \<and> \<not> is_space c) (b64_encode bs)"
proof (induction bs rule: b64_encode.induct)
  case (2 a)
  then show ?case using quantum_bytes(1,2) [of a 0 0] b64_char_value(3-5) by simp
next
  case (3 a b)
  then show ?case using quantum_bytes(1,3,4) [of a b 0] b64_char_value(3-5) by simp
next
  case (4 a b c rest)
  then show ?case using quantum_bytes(1,3,5,6) [of a b c] b64_char_value(3-5) by simp
qed simp

text \<open>
  Any non-empty secret survives the way the developer console shows it: its unpadded base64 text,
  with blanks around it, decodes to exactly its bytes.
\<close>

theorem unpadded_secret_decodes:
  assumes "bs \<noteq> []" and "list_all (\<lambda>b. b < 256) bs" and "list_all is_space before" and "list_all is_space after"
  shows "decode_secret (before @ b64_encode bs @ after) = Some bs"
proof -
  let ?e = "b64_encode bs"
  have ne: "?e \<noteq> []" using assms(1) by (cases bs rule: b64_encode.cases) auto
  have sp: "\<forall>c \<in> set ?e. \<not> is_space c" "\<forall>c \<in> set ?e. c \<noteq> CHR 0x0A \<and> c \<noteq> CHR 0x0D"
    using encode_chars [OF assms(2)] by (auto simp: list_all_iff)
  have t: "trim_space (before @ ?e @ after) = ?e"
    using sp(1) assms(3,4) ne by (rule trim_around)
  have f: "filter (\<lambda>c. c \<noteq> CHR 0x0A \<and> c \<noteq> CHR 0x0D) (pad_b64 ?e) = pad_b64 ?e"
    using sp(2) by (auto simp: pad_b64_def filter_id_conv)
  have pad: "(if length ?e mod 4 \<noteq> 0 then ?e @ replicate (4 - length ?e mod 4) (CHR ''='') else ?e) = pad_b64 ?e"
    by (auto simp: pad_b64_def)
  have v1: "\<And>n. n < 64 \<Longrightarrow> value_or True b64_std_alphabet (b64_char n) n"
    using std_value unfolding value_or_def by blast
  from quanta_encode [OF v1 assms(2)]
  have std: "b64_decode b64_std_alphabet (pad_b64 ?e) = Some bs \<or> b64_decode b64_std_alphabet (pad_b64 ?e) = None"
    unfolding b64_decode_def f by simp
  have v2: "\<And>n. n < 64 \<Longrightarrow> value_or False b64_alphabet (b64_char n) n" using b64_char_value(1) by (simp add: value_or_def)
  from quanta_encode [OF v2 assms(2)]
  have url: "b64_decode b64_alphabet (pad_b64 ?e) = Some bs" unfolding b64_decode_def f by simp
  show ?thesis unfolding decode_secret_def t Let_def pad using std url ne assms(1) by auto
qed

theorem unpadded_secret_decodes_witness:
  "decode_secret ('' '' @ b64_encode [251, 240, 1, 7] @ []) = Some [251, 240, 1, 7]"
  by (rule unpadded_secret_decodes) (simp_all add: is_space_def)



end
