(* ===== verification/Keyed_Mutex.thy ===== *)
theory Keyed_Mutex
  imports Go_Prelude
begin

text \<open>
  The keyed mutex of the overlay relay (\<^verbatim>\<open>internal/libraries/overlayrelay/keyedmutex.go\<close>) as a step
  relation: each step is one critical section of the map's own mutex, or one operation on an entry's
  mutex. The invariant ties the reference counts to the callers; mutual exclusion per key and the
  absence of leaked entries follow.
\<close>

section \<open>States and steps\<close>

record ref_lock =
  rl_holder :: "nat option"
  rl_refs :: nat

text \<open>Where a caller is: outside, waiting for the entry's mutex, inside, or between the two unlocks.\<close>

datatype caller = Idle | Waiting string nat | Holding string nat | Releasing string nat

record keyed_mutex =
  km_locks :: "string \<Rightarrow> nat option"
  km_entries :: "nat \<Rightarrow> ref_lock"
  km_next :: nat
  km_callers :: "nat \<Rightarrow> caller"

definition new_keyed_mutex :: keyed_mutex where
  "new_keyed_mutex = \<lparr> km_locks = (\<lambda>_. None), km_entries = (\<lambda>_. \<lparr> rl_holder = None, rl_refs = 0 \<rparr>),
     km_next = 0, km_callers = (\<lambda>_. Idle) \<rparr>"

definition set_caller :: "nat \<Rightarrow> caller \<Rightarrow> keyed_mutex \<Rightarrow> keyed_mutex" where
  "set_caller t c k = k\<lparr> km_callers := (km_callers k)(t := c) \<rparr>"

definition set_entry :: "nat \<Rightarrow> ref_lock \<Rightarrow> keyed_mutex \<Rightarrow> keyed_mutex" where
  "set_entry l e k = k\<lparr> km_entries := (km_entries k)(l := e) \<rparr>"

text \<open>The first half of \<^verbatim>\<open>Lock\<close>: find or create the entry and count the caller.\<close>

definition take_ref :: "nat \<Rightarrow> string \<Rightarrow> keyed_mutex \<Rightarrow> keyed_mutex" where
  "take_ref t key k =
     (case km_locks k key of
        Some l \<Rightarrow> set_caller t (Waiting key l)
                   (set_entry l ((km_entries k l)\<lparr> rl_refs := rl_refs (km_entries k l) + 1 \<rparr>) k)
      | None \<Rightarrow>
          let l = km_next k
          in set_caller t (Waiting key l)
               (set_entry l \<lparr> rl_holder = None, rl_refs = 1 \<rparr>
                  (k\<lparr> km_locks := (km_locks k)(key \<mapsto> l), km_next := l + 1 \<rparr>)))"

definition take_lock :: "nat \<Rightarrow> string \<Rightarrow> nat \<Rightarrow> keyed_mutex \<Rightarrow> keyed_mutex" where
  "take_lock t key l k =
     set_caller t (Holding key l) (set_entry l ((km_entries k l)\<lparr> rl_holder := Some t \<rparr>) k)"

text \<open>The returned function: release the entry's mutex, then uncount the caller and drop an unused entry.\<close>

definition release_lock :: "nat \<Rightarrow> string \<Rightarrow> nat \<Rightarrow> keyed_mutex \<Rightarrow> keyed_mutex" where
  "release_lock t key l k =
     set_caller t (Releasing key l) (set_entry l ((km_entries k l)\<lparr> rl_holder := None \<rparr>) k)"

definition drop_ref :: "nat \<Rightarrow> string \<Rightarrow> nat \<Rightarrow> keyed_mutex \<Rightarrow> keyed_mutex" where
  "drop_ref t key l k =
     (let e = (km_entries k l)\<lparr> rl_refs := rl_refs (km_entries k l) - 1 \<rparr>;
          k1 = set_caller t Idle (set_entry l e k)
      in if rl_refs e = 0 then k1\<lparr> km_locks := (km_locks k1)(key := None) \<rparr> else k1)"

inductive mutex_step :: "keyed_mutex \<Rightarrow> keyed_mutex \<Rightarrow> bool" where
  Take_Ref: "km_callers k t = Idle \<Longrightarrow> mutex_step k (take_ref t key k)"
| Take_Lock: "km_callers k t = Waiting key l \<Longrightarrow> rl_holder (km_entries k l) = None \<Longrightarrow>
    mutex_step k (take_lock t key l k)"
| Release_Lock: "km_callers k t = Holding key l \<Longrightarrow> mutex_step k (release_lock t key l k)"
| Drop_Ref: "km_callers k t = Releasing key l \<Longrightarrow> mutex_step k (drop_ref t key l k)"

inductive_cases mutex_stepE: "mutex_step k k'"

section \<open>The invariant\<close>

fun uses :: "caller \<Rightarrow> (string \<times> nat) option" where
  "uses Idle = None"
| "uses (Waiting key l) = Some (key, l)"
| "uses (Holding key l) = Some (key, l)"
| "uses (Releasing key l) = Some (key, l)"

definition users_of :: "nat \<Rightarrow> keyed_mutex \<Rightarrow> nat set" where
  "users_of l k = {t. \<exists>key. uses (km_callers k t) = Some (key, l)}"

definition mutex_inv :: "keyed_mutex \<Rightarrow> bool" where
  "mutex_inv k \<longleftrightarrow>
     finite {t. km_callers k t \<noteq> Idle} \<and>
     (\<forall>t key l. uses (km_callers k t) = Some (key, l) \<longrightarrow> km_locks k key = Some l) \<and>
     (\<forall>l. rl_refs (km_entries k l) = card (users_of l k)) \<and>
     (\<forall>key l. km_locks k key = Some l \<longrightarrow> l < km_next k \<and> users_of l k \<noteq> {}) \<and>
     (\<forall>key key' l. km_locks k key = Some l \<and> km_locks k key' = Some l \<longrightarrow> key = key') \<and>
     (\<forall>l t key l'. rl_holder (km_entries k l) = None \<and> km_callers k t = Holding key l' \<longrightarrow> l' \<noteq> l) \<and>
     (\<forall>t t' key l key' l'. km_callers k t = Holding key l \<and> km_callers k t' = Holding key' l' \<and> l = l' \<longrightarrow> t = t')"

lemma mutex_invI:
  assumes "finite {t. km_callers k t \<noteq> Idle}"
    and "\<And>t key l. uses (km_callers k t) = Some (key, l) \<Longrightarrow> km_locks k key = Some l"
    and "\<And>l. rl_refs (km_entries k l) = card (users_of l k)"
    and "\<And>key l. km_locks k key = Some l \<Longrightarrow> l < km_next k"
    and "\<And>key l. km_locks k key = Some l \<Longrightarrow> users_of l k \<noteq> {}"
    and "\<And>key key' l. km_locks k key = Some l \<Longrightarrow> km_locks k key' = Some l \<Longrightarrow> key = key'"
    and "\<And>l t key. rl_holder (km_entries k l) = None \<Longrightarrow> km_callers k t \<noteq> Holding key l"
    and "\<And>t t' key key' l. km_callers k t = Holding key l \<Longrightarrow> km_callers k t' = Holding key' l \<Longrightarrow> t = t'"
  shows "mutex_inv k"
  unfolding mutex_inv_def using assms by (intro conjI allI impI) (blast+)

lemma mutex_invD:
  assumes "mutex_inv k"
  shows "finite {t. km_callers k t \<noteq> Idle}"
    and "uses (km_callers k t) = Some (key, l) \<Longrightarrow> km_locks k key = Some l"
    and "rl_refs (km_entries k l) = card (users_of l k)"
    and "km_locks k key = Some l \<Longrightarrow> l < km_next k"
    and "km_locks k key = Some l \<Longrightarrow> users_of l k \<noteq> {}"
    and "km_locks k key = Some l \<Longrightarrow> km_locks k key' = Some l \<Longrightarrow> key = key'"
    and "rl_holder (km_entries k l) = None \<Longrightarrow> km_callers k t \<noteq> Holding key l"
    and "km_callers k t = Holding key l \<Longrightarrow> km_callers k t' = Holding key' l \<Longrightarrow> t = t'"
  using assms unfolding mutex_inv_def by (blast+)

lemma users_finite: "mutex_inv k \<Longrightarrow> finite (users_of l k)"
  by (rule finite_subset [OF _ mutex_invD(1)]) (auto simp: users_of_def)

lemma users_lock: "mutex_inv k \<Longrightarrow> t \<in> users_of l k \<Longrightarrow> \<exists>key. km_locks k key = Some l"
  using mutex_invD(2) by (fastforce simp: users_of_def)

lemma no_users_fresh: "mutex_inv k \<Longrightarrow> users_of (km_next k) k = {}"
  using users_lock [of k _ "km_next k"] mutex_invD(4) by fastforce

lemma set_sel [simp]:
  "km_callers (set_caller t c k) = (km_callers k)(t := c)" "km_locks (set_caller t c k) = km_locks k"
  "km_entries (set_caller t c k) = km_entries k" "km_next (set_caller t c k) = km_next k"
  "km_entries (set_entry l e k) = (km_entries k)(l := e)" "km_callers (set_entry l e k) = km_callers k"
  "km_locks (set_entry l e k) = km_locks k" "km_next (set_entry l e k) = km_next k"
  by (simp_all add: set_caller_def set_entry_def)

text \<open>The users of an entry after a caller moves.\<close>

lemma users_move:
  assumes "km_callers k' = (km_callers k)(t := c)"
  shows "users_of m k' = (if \<exists>key. uses c = Some (key, m) then insert t (users_of m k) else users_of m k - {t})"
  using assms by (auto simp: users_of_def)

lemma idle_not_user: "km_callers k t = Idle \<Longrightarrow> t \<notin> users_of m k"
  by (simp add: users_of_def)

lemma inv_take_ref:
  assumes "mutex_inv k" and "km_callers k t = Idle"
  shows "mutex_inv (take_ref t key k)"
proof -
  note D = mutex_invD [OF assms(1)]
  define l where "l = (case km_locks k key of Some l \<Rightarrow> l | None \<Rightarrow> km_next k)"
  define k' where "k' = take_ref t key k"
  have c: "km_callers k' = (km_callers k)(t := Waiting key l)"
    by (simp add: k'_def take_ref_def l_def Let_def split: option.splits)
  have locks: "km_locks k' = (km_locks k)(key \<mapsto> l)"
    by (auto simp: k'_def take_ref_def l_def Let_def split: option.splits)
  have nxt: "km_next k' = (if km_locks k key = None then km_next k + 1 else km_next k)"
    by (simp add: k'_def take_ref_def l_def Let_def split: option.splits)
  have ent: "m \<noteq> l \<Longrightarrow> km_entries k' m = km_entries k m" for m
    by (simp add: k'_def take_ref_def l_def Let_def split: option.splits)
  have hold: "rl_holder (km_entries k' m) = None \<Longrightarrow> m = km_next k \<or> rl_holder (km_entries k m) = None" for m
    by (auto simp: k'_def take_ref_def Let_def split: option.splits if_splits)
  have u: "users_of m k' = (if m = l then insert t (users_of m k) else users_of m k)" for m
    unfolding users_move [OF c] using idle_not_user [of k t m] assms(2) by auto
  have refs_l: "rl_refs (km_entries k' l) = card (insert t (users_of l k))"
  proof (cases "km_locks k key")
    case None
    then have "users_of l k = {}" using no_users_fresh [OF assms(1)] by (simp add: l_def)
    then show ?thesis using None by (simp add: k'_def take_ref_def l_def Let_def)
  next
    case (Some l')
    then have "rl_refs (km_entries k' l) = card (users_of l k) + 1"
      using D(3) [of l] by (simp add: k'_def take_ref_def l_def)
    then show ?thesis using users_finite [OF assms(1)] idle_not_user [OF assms(2)] by simp
  qed
  have fresh: "km_locks k key' \<noteq> Some (km_next k)" for key' using D(4) [of key' "km_next k"] by auto
  show ?thesis unfolding k'_def [symmetric]
  proof (rule mutex_invI)
    have "{s. km_callers k' s \<noteq> Idle} \<subseteq> insert t {s. km_callers k s \<noteq> Idle}" by (auto simp: c)
    then show "finite {s. km_callers k' s \<noteq> Idle}" using D(1) by (meson finite_insert finite_subset)
  next
    fix s key' m assume "uses (km_callers k' s) = Some (key', m)"
    then show "km_locks k' key' = Some m"
      using D(2) [of s key' m] by (auto simp: c locks l_def split: if_splits option.splits)
  next
    fix m show "rl_refs (km_entries k' m) = card (users_of m k')"
      using refs_l D(3) [of m] ent [of m] u [of m] by (cases "m = l") simp_all
  next
    fix key' m assume "km_locks k' key' = Some m"
    then show "m < km_next k'" using D(4) [of key' m] D(4) [of key l]
      by (auto simp: locks nxt l_def split: if_splits option.splits)
  next
    fix key' m assume "km_locks k' key' = Some m"
    then show "users_of m k' \<noteq> {}" using D(5) [of key' m] by (auto simp: locks u split: if_splits)
  next
    fix key1 key2 m assume "km_locks k' key1 = Some m" "km_locks k' key2 = Some m"
    then show "key1 = key2" using D(6) [of key1 m key2] D(6) [of key m key1] D(6) [of key m key2] fresh [of key1] fresh [of key2]
      by (auto simp: locks l_def split: if_splits option.splits)
  next
    fix m s key' assume h: "rl_holder (km_entries k' m) = None"
    show "km_callers k' s \<noteq> Holding key' m"
    proof
      assume a: "km_callers k' s = Holding key' m"
      then have a': "km_callers k s = Holding key' m" by (auto simp: c split: if_splits)
      then have "m \<noteq> km_next k" using D(2) [of s key' m] fresh [of key'] by auto
      then show False using hold [OF h] D(7) a' by blast
    qed
  next
    fix s s' key1 key2 m assume "km_callers k' s = Holding key1 m" "km_callers k' s' = Holding key2 m"
    then show "s = s'" using D(8) [of s key1 m s' key2] by (auto simp: c split: if_splits)
  qed
qed

text \<open>A move of a caller that keeps its entry: only holders change.\<close>

lemma inv_same_use:
  assumes "mutex_inv k" and "uses (km_callers k t) = Some (key, l)" and "uses c = Some (key, l)"
    and "k' = set_caller t c (set_entry l ((km_entries k l)\<lparr> rl_holder := h \<rparr>) k)"
    and "\<And>key'. h = None \<Longrightarrow> c \<noteq> Holding key' l"
    and "\<And>s key'. h = None \<Longrightarrow> km_callers k s = Holding key' l \<Longrightarrow> s = t"
    and "\<And>s key'. c = Holding key l \<Longrightarrow> km_callers k s = Holding key' l \<Longrightarrow> s = t"
  shows "mutex_inv k'"
proof -
  note D = mutex_invD [OF assms(1)]
  have c: "km_callers k' = (km_callers k)(t := c)" and locks: "km_locks k' = km_locks k" and nxt: "km_next k' = km_next k"
    and ent: "\<And>m. km_entries k' m = (if m = l then (km_entries k l)\<lparr> rl_holder := h \<rparr> else km_entries k m)"
    by (simp_all add: assms(4))
  have tl: "t \<in> users_of l k" using assms(2) by (auto simp: users_of_def)
  have tm: "m \<noteq> l \<Longrightarrow> t \<notin> users_of m k" for m using assms(2) by (auto simp: users_of_def)
  have u: "users_of m k' = users_of m k" for m
    unfolding users_move [OF c] using assms(3) tl tm [of m] by auto
  have held: "c = Holding key' m \<Longrightarrow> m = l \<and> key' = key" for key' m using assms(3) by auto
  show ?thesis
  proof (rule mutex_invI)
    have "{s. km_callers k' s \<noteq> Idle} \<subseteq> insert t {s. km_callers k s \<noteq> Idle}" by (auto simp: c)
    then show "finite {s. km_callers k' s \<noteq> Idle}" using D(1) by (meson finite_insert finite_subset)
  next
    fix s key' m assume "uses (km_callers k' s) = Some (key', m)"
    then show "km_locks k' key' = Some m"
      using D(2) [of s key' m] D(2) [OF assms(2)] assms(3) by (auto simp: c locks split: if_splits)
  next
    fix m show "rl_refs (km_entries k' m) = card (users_of m k')"
      by (cases "m = l") (simp_all add: u ent D(3))
  next
    fix key' m assume "km_locks k' key' = Some m"
    then show "m < km_next k'" and "users_of m k' \<noteq> {}" using D(4,5) [of key' m] by (simp_all add: locks nxt u)
  next
    fix key1 key2 m assume "km_locks k' key1 = Some m" "km_locks k' key2 = Some m"
    then show "key1 = key2" using D(6) by (simp add: locks)
  next
    fix m s key' assume hn: "rl_holder (km_entries k' m) = None"
    show "km_callers k' s \<noteq> Holding key' m"
    proof (cases "m = l")
      case True
      then show ?thesis using hn assms(5) [of key'] assms(6) [of s key'] by (auto simp: ent c split: if_splits)
    next
      case False
      then show ?thesis using hn D(7) [of m s key'] held [of key' m] by (auto simp: ent c split: if_splits)
    qed
  next
    fix s s' key1 key2 m assume a: "km_callers k' s = Holding key1 m" "km_callers k' s' = Holding key2 m"
    have new: "s'' = t" if "c = Holding key0 m" "km_callers k s'' = Holding key3 m" for s'' key0 key3
      using assms(7) [of s'' key3] held [OF that(1)] that by simp
    show "s = s'"
    proof (rule ccontr)
      assume ne: "s \<noteq> s'"
      show False
      proof (cases "s = t")
        case True
        then have "c = Holding key1 m" "km_callers k s' = Holding key2 m" using a ne by (simp_all add: c)
        then show False using new True ne by blast
      next
        case False
        then have old: "km_callers k s = Holding key1 m" using a(1) by (simp add: c)
        show False
        proof (cases "s' = t")
          case True
          then have "c = Holding key2 m" using a(2) by (simp add: c)
          then show False using new old False by blast
        next
          case False
          then have "km_callers k s' = Holding key2 m" using a(2) by (simp add: c)
          then show False using D(8) old ne by blast
        qed
      qed
    qed
  qed
qed

lemma inv_drop_ref:
  assumes "mutex_inv k" and "km_callers k t = Releasing key l"
  shows "mutex_inv (drop_ref t key l k)"
proof -
  note D = mutex_invD [OF assms(1)]
  define k' where "k' = drop_ref t key l k"
  have use: "uses (km_callers k t) = Some (key, l)" using assms(2) by simp
  have tl: "t \<in> users_of l k" using use by (auto simp: users_of_def)
  have tm: "m \<noteq> l \<Longrightarrow> t \<notin> users_of m k" for m using use by (auto simp: users_of_def)
  have lk: "km_locks k key = Some l" using D(2) [OF use] .
  have c: "km_callers k' = (km_callers k)(t := Idle)" and nxt: "km_next k' = km_next k"
    and ent: "\<And>m. km_entries k' m = (if m = l then (km_entries k l)\<lparr> rl_refs := rl_refs (km_entries k l) - 1 \<rparr> else km_entries k m)"
    by (simp_all add: k'_def drop_ref_def Let_def)
  have u: "users_of m k' = users_of m k - {t}" for m unfolding users_move [OF c] by simp
  have refs: "rl_refs (km_entries k l) - 1 = card (users_of l k - {t})"
    using D(3) [of l] tl users_finite [OF assms(1)] by simp
  have gone: "rl_refs (km_entries k l) - 1 = 0 \<longleftrightarrow> users_of l k - {t} = {}"
    unfolding refs using users_finite [OF assms(1), of l] by (simp add: card_eq_0_iff)
  have locks: "km_locks k' = (if users_of l k - {t} = {} then (km_locks k)(key := None) else km_locks k)"
    unfolding gone [symmetric] by (simp add: k'_def drop_ref_def Let_def)
  have sub: "km_locks k' key' = Some m \<Longrightarrow> km_locks k key' = Some m" for key' m
    by (auto simp: locks split: if_splits)
  show ?thesis unfolding k'_def [symmetric]
  proof (rule mutex_invI)
    have "{s. km_callers k' s \<noteq> Idle} \<subseteq> {s. km_callers k s \<noteq> Idle}" by (auto simp: c)
    then show "finite {s. km_callers k' s \<noteq> Idle}" using D(1) by (meson finite_subset)
  next
    fix s key' m assume a: "uses (km_callers k' s) = Some (key', m)"
    then have s: "s \<noteq> t" "uses (km_callers k s) = Some (key', m)" by (auto simp: c split: if_splits)
    have lm: "km_locks k key' = Some m" using D(2) [OF s(2)] .
    show "km_locks k' key' = Some m"
    proof (cases "users_of l k - {t} = {} \<and> key' = key")
      case True
      then have "m = l" using lm lk by simp
      then have "s \<in> users_of l k - {t}" using s by (auto simp: users_of_def)
      then show ?thesis using True by simp
    next
      case False
      then show ?thesis using lm by (auto simp: locks)
    qed
  next
    fix m show "rl_refs (km_entries k' m) = card (users_of m k')"
      using D(3) [of m] refs tm [of m] by (cases "m = l") (simp_all add: u ent)
  next
    fix key' m assume a: "km_locks k' key' = Some m"
    show "m < km_next k'" using D(4) [OF sub [OF a]] by (simp add: nxt)
    show "users_of m k' \<noteq> {}"
    proof (cases "m = l")
      case True
      then have "key' = key" using D(6) [OF sub [OF a]] lk by blast
      then show ?thesis using a True by (auto simp: locks u split: if_splits)
    next
      case False
      then show ?thesis using D(5) [OF sub [OF a]] tm [OF False] by (auto simp: u)
    qed
  next
    fix key1 key2 m assume "km_locks k' key1 = Some m" "km_locks k' key2 = Some m"
    then show "key1 = key2" using D(6) sub by blast
  next
    fix m s key' assume "rl_holder (km_entries k' m) = None"
    then show "km_callers k' s \<noteq> Holding key' m" using D(7) [of m s key'] by (auto simp: c ent split: if_splits)
  next
    fix s s' key1 key2 m assume "km_callers k' s = Holding key1 m" "km_callers k' s' = Holding key2 m"
    then show "s = s'" using D(8) [of s key1 m s' key2] by (auto simp: c split: if_splits)
  qed
qed

lemma mutex_inv_step:
  assumes "mutex_step k k'" and "mutex_inv k"
  shows "mutex_inv k'"
  using assms(1)
proof cases
  case (Take_Ref t key)
  then show ?thesis using inv_take_ref [OF assms(2)] by simp
next
  case (Take_Lock t key l)
  have h: "km_callers k s \<noteq> Holding key' l" for s key' using mutex_invD(7) [OF assms(2) Take_Lock(3)] .
  show ?thesis
  proof (rule inv_same_use [OF assms(2), of t key l "Holding key l" k' "Some t"])
    show "uses (km_callers k t) = Some (key, l)" "uses (Holding key l) = Some (key, l)"
      by (simp_all add: Take_Lock(2))
    show "k' = set_caller t (Holding key l) (set_entry l ((km_entries k l)\<lparr> rl_holder := Some t \<rparr>) k)"
      unfolding Take_Lock(1) take_lock_def ..
  qed (use h in simp_all)
next
  case (Release_Lock t key l)
  have h: "km_callers k s = Holding key' l \<Longrightarrow> s = t" for s key'
    using mutex_invD(8) [OF assms(2)] Release_Lock(2) by blast
  show ?thesis
  proof (rule inv_same_use [OF assms(2), of t key l "Releasing key l" k' None])
    show "uses (km_callers k t) = Some (key, l)" "uses (Releasing key l) = Some (key, l)"
      by (simp_all add: Release_Lock(2))
    show "k' = set_caller t (Releasing key l) (set_entry l ((km_entries k l)\<lparr> rl_holder := None \<rparr>) k)"
      unfolding Release_Lock(1) release_lock_def ..
  qed (use h in simp_all)
next
  case (Drop_Ref t key l)
  then show ?thesis using inv_drop_ref [OF assms(2)] by simp
qed

lemma mutex_inv_new: "mutex_inv new_keyed_mutex"
  by (rule mutex_invI) (simp_all add: new_keyed_mutex_def users_of_def)

lemma mutex_inv_reachable: "mutex_step\<^sup>*\<^sup>* new_keyed_mutex k \<Longrightarrow> mutex_inv k"
  by (induction rule: rtranclp_induct) (auto intro: mutex_inv_new mutex_inv_step)

section \<open>The property\<close>

text \<open>
  C13: In every reachable state two callers never hold the same key at once; every caller that waits
  for or holds a key is counted in the entry the key maps to; and when no caller is left, the map is
  empty, so entries never leak.
\<close>

theorem keyed_mutex_excludes_and_frees:
  assumes "mutex_step\<^sup>*\<^sup>* new_keyed_mutex k"
  shows "(\<forall>t t' key l l'. km_callers k t = Holding key l \<and> km_callers k t' = Holding key l' \<longrightarrow> t = t') \<and>
     (\<forall>key. (km_locks k key \<noteq> None) = (\<exists>t l. uses (km_callers k t) = Some (key, l))) \<and>
     ((\<forall>t. km_callers k t = Idle) \<longrightarrow> km_locks k = (\<lambda>_. None))"
proof -
  note D = mutex_invD [OF mutex_inv_reachable [OF assms]]
  have locked: "(km_locks k key \<noteq> None) = (\<exists>t l. uses (km_callers k t) = Some (key, l))" for key
  proof
    assume "km_locks k key \<noteq> None"
    then obtain l where l: "km_locks k key = Some l" by blast
    then obtain t key' where t: "uses (km_callers k t) = Some (key', l)" using D(5) [OF l] by (auto simp: users_of_def)
    then have "key' = key" using D(6) [OF D(2) [OF t] l] by simp
    then show "\<exists>t l. uses (km_callers k t) = Some (key, l)" using t by blast
  next
    assume "\<exists>t l. uses (km_callers k t) = Some (key, l)"
    then show "km_locks k key \<noteq> None" using D(2) by auto
  qed
  have excl: "t = t'" if "km_callers k t = Holding key l" "km_callers k t' = Holding key l'" for t t' key l l'
  proof -
    have "km_locks k key = Some l" "km_locks k key = Some l'" using D(2) [of t key l] D(2) [of t' key l'] that by simp_all
    then show ?thesis using D(8) that by simp
  qed
  have free: "km_locks k = (\<lambda>_. None)" if "\<forall>t. km_callers k t = Idle"
  proof (rule ext, rule ccontr)
    fix key assume "km_locks k key \<noteq> None"
    then show False using locked [of key] that by simp
  qed
  show ?thesis using excl locked free by blast
qed

theorem keyed_mutex_excludes_and_frees_witness:
  "km_locks (drop_ref 0 ''77'' 0 (release_lock 0 ''77'' 0 (take_lock 0 ''77'' 0 (take_ref 0 ''77'' new_keyed_mutex)))) =
     (\<lambda>_. None)"
proof -
  let ?k1 = "take_ref 0 ''77'' new_keyed_mutex"
  let ?k2 = "take_lock 0 ''77'' 0 ?k1"
  let ?k3 = "release_lock 0 ''77'' 0 ?k2"
  let ?k4 = "drop_ref 0 ''77'' 0 ?k3"
  have "mutex_step new_keyed_mutex ?k1" by (rule Take_Ref) (simp add: new_keyed_mutex_def)
  moreover have "mutex_step ?k1 ?k2"
    by (rule Take_Lock) (simp_all add: take_ref_def new_keyed_mutex_def Let_def)
  moreover have "mutex_step ?k2 ?k3" by (rule Release_Lock) (simp add: take_lock_def)
  moreover have "mutex_step ?k3 ?k4" by (rule Drop_Ref) (simp add: release_lock_def)
  ultimately have run: "mutex_step\<^sup>*\<^sup>* new_keyed_mutex ?k4"
    by (meson converse_rtranclp_into_rtranclp rtranclp.rtrancl_refl)
  have "km_callers ?k4 t = Idle" for t
    by (simp add: drop_ref_def release_lock_def take_lock_def take_ref_def new_keyed_mutex_def Let_def)
  then show ?thesis using keyed_mutex_excludes_and_frees [OF run] by blast
qed

end
