(* ===== verification/Users.thy ===== *)
theory Users
  imports Api_Client
begin

text \<open>
  The users: the service (\<^verbatim>\<open>internal/libraries/user/service.go\<close>) and the endpoints the bot calls
  (\<^verbatim>\<open>cmd/core-api/endpoints/bot/channels.go\<close>). A user is a channel of the bot; its \<^verbatim>\<open>stream_key\<close>
  identifies the broadcast that is running, and the per-stream tallies are stamped with it. A freshly
  minted key is a parameter (\<open>uuid\<close>).
\<close>

section \<open>The table\<close>

record user =
  us_id :: int
  us_twitch_id :: "string option"
  us_login :: "string option"
  us_display_name :: "string option"
  us_opt_in :: bool
  us_live :: bool
  us_key :: "string option"

datatype user_error = User_Not_Found | User_Db_Failed

text \<open>The unique column \<^verbatim>\<open>twitch_id\<close> admits any number of NULLs.\<close>

definition insert_user :: "user \<Rightarrow> user table \<Rightarrow> (user \<times> user table) option" where
  "insert_user u t =
     (if us_twitch_id u \<noteq> None \<and> us_twitch_id u \<in> us_twitch_id ` set (tb_rows t) then None
      else let u' = u\<lparr> us_id := tb_serial t + 1 \<rparr>
           in Some (u', \<lparr> tb_rows = tb_rows t @ [u'], tb_serial = tb_serial t + 1 \<rparr>))"

definition users_ok :: "user table \<Rightarrow> bool" where
  "users_ok t \<longleftrightarrow> distinct (map us_id (tb_rows t)) \<and>
     (\<forall>u \<in> set (tb_rows t). us_id u \<le> tb_serial t) \<and>
     (\<forall>u \<in> set (tb_rows t). \<forall>v \<in> set (tb_rows t). us_twitch_id u \<noteq> None \<longrightarrow> us_twitch_id u = us_twitch_id v \<longrightarrow> u = v)"

section \<open>The service\<close>

definition create_new_user :: "faults \<Rightarrow> user \<Rightarrow> user table \<Rightarrow> user_error option \<times> user table" where
  "create_new_user fl u t =
     (if fl 0 then (Some User_Db_Failed, t)
      else case insert_user u t of None \<Rightarrow> (Some User_Db_Failed, t) | Some (_, t') \<Rightarrow> (None, t'))"

definition get_all_active_users :: "faults \<Rightarrow> user table \<Rightarrow> user_error + user list" where
  "get_all_active_users fl t = (if fl 0 then Inl User_Db_Failed else Inr (find_rows us_opt_in t))"

definition get_user_by_id :: "faults \<Rightarrow> int \<Rightarrow> user table \<Rightarrow> user_error + user" where
  "get_user_by_id fl i t =
     (if fl 0 then Inl User_Db_Failed
      else case find_one (\<lambda>u. us_id u = i) t of None \<Rightarrow> Inl User_Not_Found | Some u \<Rightarrow> Inr u)"

definition get_user_by_broadcaster_id :: "faults \<Rightarrow> string \<Rightarrow> user table \<Rightarrow> user_error + user" where
  "get_user_by_broadcaster_id fl i t =
     (if fl 0 then Inl User_Db_Failed
      else case find_one (\<lambda>u. us_twitch_id u = Some i) t of None \<Rightarrow> Inl User_Not_Found | Some u \<Rightarrow> Inr u)"

text \<open>An update writes the row with the record's id; \<open>None\<close> also when it would repeat a Twitch id.\<close>

definition write_user :: "user \<Rightarrow> user table \<Rightarrow> user table option" where
  "write_user u t =
     (if us_twitch_id u \<noteq> None \<and> (\<exists>v \<in> set (tb_rows t). us_id v \<noteq> us_id u \<and> us_twitch_id v = us_twitch_id u) then None
      else update_row us_id u t)"

lemma write_user_update: "write_user u t = Some t' \<Longrightarrow> update_row us_id u t = Some t'"
  unfolding write_user_def by (meson option.distinct(1))

definition update_user :: "faults \<Rightarrow> user \<Rightarrow> user table \<Rightarrow> user_error option \<times> user table" where
  "update_user fl u t =
     (if fl 0 then (Some User_Db_Failed, t)
      else case write_user u t of None \<Rightarrow> (Some User_Db_Failed, t) | Some t' \<Rightarrow> (None, t'))"

definition put_channel_state ::
  "faults \<Rightarrow> string \<Rightarrow> string \<Rightarrow> bool \<Rightarrow> user table \<Rightarrow> user_error option \<times> user table" where
  "put_channel_state fl uuid login live t =
     (if fl 0 then (Some User_Db_Failed, t)
      else case find_one (\<lambda>u. us_login u = Some login) t of
        None \<Rightarrow> (Some User_Not_Found, t)
      | Some u \<Rightarrow>
          let u1 = u\<lparr> us_live := live \<rparr>;
              u2 = (if live \<and> \<not> us_live u then u1\<lparr> us_key := Some uuid \<rparr> else u1)
          in if fl 1 then (Some User_Db_Failed, t)
             else case write_user u2 t of None \<Rightarrow> (Some User_Db_Failed, t) | Some t' \<Rightarrow> (None, t'))"

text \<open>
  The fallback of the next two asks for a column \<^verbatim>\<open>username\<close>, which the table does not have
  (\<^verbatim>\<open>database/init.sql\<close>, lines 17 to 27): the query fails.
\<close>

definition set_bot_opt_in :: "faults \<Rightarrow> string \<Rightarrow> bool \<Rightarrow> user table \<Rightarrow> user_error option \<times> user table" where
  "set_bot_opt_in fl login opt_in t =
     (if fl 0 then (Some User_Db_Failed, t)
      else case find_one (\<lambda>u. us_login u = Some login) t of
        None \<Rightarrow> (Some User_Db_Failed, t)
      | Some u \<Rightarrow>
          if fl 1 then (Some User_Db_Failed, t)
          else (case write_user (u\<lparr> us_opt_in := opt_in \<rparr>) t of
                  None \<Rightarrow> (Some User_Db_Failed, t)
                | Some t' \<Rightarrow> (None, t')))"

definition is_bot_opt_in :: "faults \<Rightarrow> string \<Rightarrow> user table \<Rightarrow> user_error + bool" where
  "is_bot_opt_in fl login t =
     (if fl 0 then Inl User_Db_Failed
      else case find_one (\<lambda>u. us_login u = Some login) t of
        None \<Rightarrow> Inl User_Db_Failed
      | Some u \<Rightarrow> Inr (us_opt_in u))"

definition delete_user_by_id :: "faults \<Rightarrow> int \<Rightarrow> user table \<Rightarrow> user_error option \<times> user table" where
  "delete_user_by_id fl i t =
     (if fl 0 then (Some User_Db_Failed, t) else (None, delete_where (\<lambda>u. us_id u = i) t))"

record twitch_profile =
  tp_id :: string
  tp_login :: string
  tp_display_name :: string

definition deref_or_empty :: "string option \<Rightarrow> string" where
  "deref_or_empty s = (case s of None \<Rightarrow> [] | Some x \<Rightarrow> x)"

definition new_twitch_user :: "twitch_profile \<Rightarrow> user" where
  "new_twitch_user p =
     \<lparr> us_id = 0, us_twitch_id = Some (tp_id p), us_login = Some (tp_login p), us_display_name = Some (tp_display_name p),
       us_opt_in = True, us_live = False, us_key = None \<rparr>"

text \<open>The user of a sign-in, whether it is new, and the table.\<close>

definition find_or_create ::
  "faults \<Rightarrow> twitch_profile \<Rightarrow> user table \<Rightarrow> (user_error + user \<times> bool) \<times> user table" where
  "find_or_create fl p t =
     (if fl 0 then (Inl User_Db_Failed, t)
      else case find_one (\<lambda>u. us_twitch_id u = Some (tp_id p)) t of
        Some u \<Rightarrow>
          if deref_or_empty (us_login u) \<noteq> tp_login p \<or> deref_or_empty (us_display_name u) \<noteq> tp_display_name p
          then let u' = u\<lparr> us_login := Some (tp_login p), us_display_name := Some (tp_display_name p) \<rparr>
               in if fl 1 then (Inl User_Db_Failed, t)
                  else (Inr (u', False), update_where (\<lambda>x. us_id x = us_id u) (\<lambda>_. u') t)
          else (Inr (u, False), t)
      | None \<Rightarrow>
          if fl 1 then (Inl User_Db_Failed, t)
          else case find_one (\<lambda>u. us_login u = Some (tp_login p)) t of
            Some u \<Rightarrow>
              let u' = u\<lparr> us_twitch_id := Some (tp_id p), us_login := Some (tp_login p),
                          us_display_name := Some (tp_display_name p) \<rparr>
              in if fl 2 then (Inl User_Db_Failed, t)
                 else (Inr (u', False), update_where (\<lambda>x. us_id x = us_id u) (\<lambda>_. u') t)
          | None \<Rightarrow>
              if fl 2 then (Inl User_Db_Failed, t)
              else case insert_user (new_twitch_user p) t of
                None \<Rightarrow> (Inl User_Db_Failed, t)
              | Some (u', t') \<Rightarrow> (Inr (u', True), t'))"

section \<open>The endpoints\<close>

definition get_active_channels_endpoint :: "faults \<Rightarrow> user table \<Rightarrow> user list http \<times> user table" where
  "get_active_channels_endpoint fl t =
     (case get_all_active_users fl t of Inl _ \<Rightarrow> (Http_Server_Error, t) | Inr us \<Rightarrow> (Http_Ok us, t))"

text \<open>\<open>req\<close> is the user in the body, \<open>None\<close> when it does not bind.\<close>

definition post_heal_legacy_user_endpoint ::
  "faults \<Rightarrow> user option \<Rightarrow> user table \<Rightarrow> user http \<times> user table" where
  "post_heal_legacy_user_endpoint fl req t =
     (case req of
        None \<Rightarrow> (Http_Bad_Request, t)
      | Some u \<Rightarrow>
          (case us_twitch_id u of
             None \<Rightarrow> (Http_Bad_Request, t)
           | Some i \<Rightarrow>
               if us_login u = None \<or> us_display_name u = None then (Http_Bad_Request, t)
               else (case update_user fl u t of
                       (Some _, t') \<Rightarrow> (Http_Server_Error, t')
                     | (None, t') \<Rightarrow>
                         (case get_user_by_broadcaster_id (\<lambda>n. fl (n + 1)) i t' of
                            Inl _ \<Rightarrow> (Http_Server_Error, t')
                          | Inr fresh \<Rightarrow> (Http_Ok fresh, t')))))"

text \<open>Without a Twitch id in the body the handler panics, which the server answers with a 500.\<close>

definition put_new_user_endpoint :: "faults \<Rightarrow> user option \<Rightarrow> user table \<Rightarrow> unit http \<times> user table" where
  "put_new_user_endpoint fl req t =
     (case req of
        None \<Rightarrow> (Http_Bad_Request, t)
      | Some u \<Rightarrow>
          (case us_twitch_id u of
             None \<Rightarrow> (Http_Server_Error, t)
           | Some i \<Rightarrow>
               (case get_user_by_broadcaster_id fl i t of
                  Inl User_Db_Failed \<Rightarrow> (Http_Server_Error, t)
                | Inr old \<Rightarrow>
                    (case update_user (\<lambda>n. fl (n + 1)) (old\<lparr> us_opt_in := True \<rparr>) t of
                       (Some _, t') \<Rightarrow> (Http_Server_Error, t')
                     | (None, t') \<Rightarrow> (Http_Ok (), t'))
                | Inl User_Not_Found \<Rightarrow>
                    (case create_new_user (\<lambda>n. fl (n + 1)) u t of
                       (Some _, t') \<Rightarrow> (Http_Server_Error, t')
                     | (None, t') \<Rightarrow> (Http_Ok (), t')))))"

definition post_opt_out_endpoint :: "faults \<Rightarrow> string option \<Rightarrow> user table \<Rightarrow> unit http \<times> user table" where
  "post_opt_out_endpoint fl login t =
     (case login of
        None \<Rightarrow> (Http_Bad_Request, t)
      | Some l \<Rightarrow>
          if l = [] then (Http_Bad_Request, t)
          else (case set_bot_opt_in fl l False t of
                  (Some _, t') \<Rightarrow> (Http_Server_Error, t')
                | (None, t') \<Rightarrow> (Http_Ok (), t')))"

definition post_opt_in_check_endpoint :: "faults \<Rightarrow> string option \<Rightarrow> user table \<Rightarrow> bool http \<times> user table" where
  "post_opt_in_check_endpoint fl login t =
     (case login of
        None \<Rightarrow> (Http_Bad_Request, t)
      | Some l \<Rightarrow>
          if l = [] then (Http_Bad_Request, t)
          else (case is_bot_opt_in fl l t of Inl _ \<Rightarrow> (Http_Server_Error, t) | Inr b \<Rightarrow> (Http_Ok b, t)))"

definition put_channel_state_endpoint ::
  "faults \<Rightarrow> string \<Rightarrow> string option \<Rightarrow> bool \<Rightarrow> user table \<Rightarrow> unit http \<times> user table" where
  "put_channel_state_endpoint fl uuid login live t =
     (case login of
        None \<Rightarrow> (Http_Bad_Request, t)
      | Some l \<Rightarrow>
          (case put_channel_state fl uuid l live t of
             (Some _, t') \<Rightarrow> (Http_Server_Error, t')
           | (None, t') \<Rightarrow> (Http_Ok (), t')))"

end
