(* ===== verification/Event_Sub.thy ===== *)
theory Event_Sub
  imports Go_Prelude
begin

text \<open>
  The client of Twitch's EventSub and Helix (\<^verbatim>\<open>internal/libraries/twitcheventsub\<close>): the cached app
  access token, the one retry with a fresh token, the subscriptions it creates, lists and deletes, the
  profile and live queries. Twitch and the clock are parameters: a state \<open>'w\<close> and a record of what it
  answers in a state, each answer \<open>None\<close> when the exchange fails, otherwise the status and the decoded
  body (itself \<open>None\<close> when it does not decode).
\<close>

section \<open>Data\<close>

text \<open>A subscription as Twitch lists it; its version and creation time are not read anywhere.\<close>

record subscription =
  sub_id :: string
  sub_type :: string
  sub_status :: string
  sub_broadcaster :: string
  sub_method :: string
  sub_callback :: string

record sub_payload =
  sp_type :: string
  sp_version :: string
  sp_broadcaster :: string
  sp_user :: "string option"
  sp_method :: string
  sp_callback :: string
  sp_secret :: string

record event_sub_config =
  ec_client_id :: string
  ec_client_secret :: string
  ec_secret :: string
  ec_callback :: string

record twitch_user =
  tu_id :: string
  tu_login :: string
  tu_display_name :: string

record 'w twitch =
  tw_now :: "'w \<Rightarrow> int"
  tw_token :: "string \<Rightarrow> string \<Rightarrow> 'w \<Rightarrow> (int \<times> (string \<times> int) option) option \<times> 'w"
  tw_create :: "sub_payload \<Rightarrow> string \<Rightarrow> 'w \<Rightarrow> (int \<times> string) option \<times> 'w"
  tw_list :: "string \<Rightarrow> string \<Rightarrow> 'w \<Rightarrow> (int \<times> (subscription list \<times> string) option) option \<times> 'w"
  tw_delete :: "string \<Rightarrow> string \<Rightarrow> 'w \<Rightarrow> (int \<times> unit) option \<times> 'w"
  tw_streams :: "string \<Rightarrow> string \<Rightarrow> 'w \<Rightarrow> (int \<times> string list option) option \<times> 'w"
  tw_users :: "string option \<Rightarrow> string \<Rightarrow> 'w \<Rightarrow> (int \<times> twitch_user list option) option \<times> 'w"

datatype event_sub_error =
    Missing_Credentials | Missing_Secret | Missing_Id | Missing_Argument
  | Token_Unavailable | Token_Status int | Token_Undecodable | Token_Missing
  | Request_Failed | Bad_Status int | Undecodable | Empty_Data

section \<open>The client and its token\<close>

record event_sub_client =
  ev_config :: event_sub_config
  ev_token :: string
  ev_expiry :: int

text \<open>Go's zero time, in nanoseconds from the epoch.\<close>

definition zero_time :: int where
  "zero_time = - 62135596800 * 1000000000"

definition default_callback :: string where
  "default_callback = ''https://peanutbudderbot.com'' @ ''/eventsub''"

definition new_client :: "event_sub_config \<Rightarrow> event_sub_error + event_sub_client" where
  "new_client cfg =
     (if ec_client_id cfg = [] \<or> ec_client_secret cfg = [] then Inl Missing_Credentials
      else if ec_secret cfg = [] then Inl Missing_Secret
      else Inr \<lparr> ev_config = (if ec_callback cfg = [] then cfg\<lparr> ec_callback := default_callback \<rparr> else cfg),
                 ev_token = [], ev_expiry = zero_time \<rparr>)"

definition app_token_expiry_skew :: int where
  "app_token_expiry_skew = 60 * 1000000000"

definition fetch_app_access_token ::
  "'w twitch \<Rightarrow> event_sub_config \<Rightarrow> 'w \<Rightarrow> (event_sub_error + string \<times> int) \<times> 'w" where
  "fetch_app_access_token tw cfg w =
     (case tw_token tw (ec_client_id cfg) (ec_client_secret cfg) w of
        (None, w') \<Rightarrow> (Inl Token_Unavailable, w')
      | (Some (status, body), w') \<Rightarrow>
          (if status \<noteq> 200 then (Inl (Token_Status status), w')
           else case body of
             None \<Rightarrow> (Inl Token_Undecodable, w')
           | Some (tok, expires) \<Rightarrow>
               if tok = [] then (Inl Token_Missing, w')
               else (Inr (tok, if expires \<le> 0 then 86400 else expires), w')))"

text \<open>The whole of it runs under the client's mutex.\<close>

definition app_access_token ::
  "'w twitch \<Rightarrow> event_sub_client \<times> 'w \<Rightarrow> (event_sub_error + string) \<times> event_sub_client \<times> 'w" where
  "app_access_token tw s =
     (case s of (c, w) \<Rightarrow>
        if ev_token c \<noteq> [] \<and> tw_now tw w < ev_expiry c - app_token_expiry_skew then (Inr (ev_token c), c, w)
        else case fetch_app_access_token tw (ev_config c) w of
          (Inl e, w') \<Rightarrow> (Inl e, c, w')
        | (Inr (tok, expires), w') \<Rightarrow>
            (Inr tok, c\<lparr> ev_token := tok, ev_expiry := tw_now tw w' + wrap64 (expires * 1000000000) \<rparr>, w'))"

definition invalidate_app_access_token :: "event_sub_client \<Rightarrow> event_sub_client" where
  "invalidate_app_access_token c = c\<lparr> ev_token := [], ev_expiry := zero_time \<rparr>"

section \<open>Requests\<close>

text \<open>
  The loop that every request of the client runs: with a token, and once more with a fresh one when
  Twitch answers 401 and a retry is left.
\<close>

primrec authorized ::
  "nat \<Rightarrow> 'w twitch \<Rightarrow> (string \<Rightarrow> 'w \<Rightarrow> (int \<times> 'b) option \<times> 'w) \<Rightarrow> event_sub_client \<times> 'w
     \<Rightarrow> (event_sub_error + int \<times> 'b) \<times> event_sub_client \<times> 'w" where
  "authorized 0 tw send s =
     (case app_access_token tw s of
        (Inl e, s1) \<Rightarrow> (Inl e, s1)
      | (Inr tok, c1, w1) \<Rightarrow>
          (case send tok w1 of
             (None, w2) \<Rightarrow> (Inl Request_Failed, c1, w2)
           | (Some answer, w2) \<Rightarrow> (Inr answer, c1, w2)))"
| "authorized (Suc retries) tw send s =
     (case app_access_token tw s of
        (Inl e, s1) \<Rightarrow> (Inl e, s1)
      | (Inr tok, c1, w1) \<Rightarrow>
          (case send tok w1 of
             (None, w2) \<Rightarrow> (Inl Request_Failed, c1, w2)
           | (Some answer, w2) \<Rightarrow>
               if fst answer = 401 then authorized retries tw send (invalidate_app_access_token c1, w2)
               else (Inr answer, c1, w2)))"

definition attempt_new_subscription ::
  "'w twitch \<Rightarrow> sub_payload \<Rightarrow> event_sub_client \<times> 'w \<Rightarrow> (event_sub_error + int \<times> string) \<times> event_sub_client \<times> 'w" where
  "attempt_new_subscription tw p = authorized 1 tw (tw_create tw p)"

definition webhook_payload :: "string \<Rightarrow> string option \<Rightarrow> event_sub_config \<Rightarrow> string \<Rightarrow> sub_payload" where
  "webhook_payload typ user cfg bid =
     \<lparr> sp_type = typ, sp_version = ''1'', sp_broadcaster = bid, sp_user = user, sp_method = ''webhook'',
       sp_callback = ec_callback cfg, sp_secret = ec_secret cfg \<rparr>"

definition subscribe_webhook ::
  "string \<Rightarrow> string option \<Rightarrow> 'w twitch \<Rightarrow> string \<Rightarrow> event_sub_client \<times> 'w
     \<Rightarrow> (event_sub_error + int \<times> string) \<times> event_sub_client \<times> 'w" where
  "subscribe_webhook typ user tw bid s =
     (if bid = [] then (Inl Missing_Id, s)
      else attempt_new_subscription tw (webhook_payload typ user (ev_config (fst s)) bid) s)"

definition subscribe_channel_chat_messages where
  "subscribe_channel_chat_messages = subscribe_webhook ''channel.chat.message'' (Some ''1322716097'')"

definition subscribe_stream_online where
  "subscribe_stream_online = subscribe_webhook ''stream.online'' None"

definition subscribe_stream_offline where
  "subscribe_stream_offline = subscribe_webhook ''stream.offline'' None"

definition subscribe_custom_power_up_redemption_add where
  "subscribe_custom_power_up_redemption_add = subscribe_webhook ''channel.custom_power_up_redemption.add'' None"

definition subscribe_channel_cheer where
  "subscribe_channel_cheer = subscribe_webhook ''channel.cheer'' None"

definition subscribe_channel_points_redemption_add where
  "subscribe_channel_points_redemption_add = subscribe_webhook ''channel.channel_points_custom_reward_redemption.add'' None"

definition already_exists :: "int \<times> string \<Rightarrow> bool" where
  "already_exists r \<longleftrightarrow> fst r = 409"

definition result_ok :: "int \<times> string \<Rightarrow> bool" where
  "result_ok r \<longleftrightarrow> fst r = 202 \<or> fst r = 200"

text \<open>
  The three webhooks of the bot, in the order \<open>order\<close> (the code ranges over a map); the result counts the
  new, the existing and the failed ones, as the log lines do.
\<close>

fun subscribe_to_all_webhooks ::
  "(string \<Rightarrow> event_sub_client \<times> 'w \<Rightarrow> (event_sub_error + int \<times> string) \<times> event_sub_client \<times> 'w) list \<Rightarrow> string
     \<Rightarrow> event_sub_client \<times> 'w \<Rightarrow> (nat \<times> nat \<times> nat) \<times> event_sub_client \<times> 'w" where
  "subscribe_to_all_webhooks [] bid s = ((0, 0, 0), s)"
| "subscribe_to_all_webhooks (hook # order) bid s =
     (case hook bid s of (r, s1) \<Rightarrow>
        (case subscribe_to_all_webhooks order bid s1 of ((ok, exists, failed), s2) \<Rightarrow>
           ((case r of
               Inl _ \<Rightarrow> (ok, exists, Suc failed)
             | Inr a \<Rightarrow> if already_exists a then (ok, Suc exists, failed)
                        else if result_ok a then (Suc ok, exists, failed)
                        else (ok, exists, Suc failed)), s2)))"

definition bot_webhooks where
  "bot_webhooks tw = [subscribe_stream_online tw, subscribe_stream_offline tw, subscribe_channel_chat_messages tw]"

section \<open>Listing and deleting\<close>

definition do_app_get ::
  "'w twitch \<Rightarrow> (string \<Rightarrow> 'w \<Rightarrow> (int \<times> 'b) option \<times> 'w) \<Rightarrow> event_sub_client \<times> 'w
     \<Rightarrow> (event_sub_error + int \<times> 'b) \<times> event_sub_client \<times> 'w" where
  "do_app_get tw send = authorized 1 tw send"

text \<open>Page after page until one has no cursor, which nothing here bounds.\<close>

partial_function (option) list_pages ::
  "'w twitch \<Rightarrow> string \<Rightarrow> subscription list \<Rightarrow> event_sub_client \<times> 'w
     \<Rightarrow> ((event_sub_error + subscription list) \<times> event_sub_client \<times> 'w) option" where
  "list_pages tw cursor out s =
     (case do_app_get tw (tw_list tw cursor) s of
        (Inl e, s1) \<Rightarrow> Some (Inl e, s1)
      | (Inr (status, body), s1) \<Rightarrow>
          (if status \<noteq> 200 then Some (Inl (Bad_Status status), s1)
           else case body of
             None \<Rightarrow> Some (Inl Undecodable, s1)
           | Some (subs, next) \<Rightarrow>
               if next = [] then Some (Inr (out @ subs), s1) else list_pages tw next (out @ subs) s1))"

definition list_event_sub_subscriptions where
  "list_event_sub_subscriptions tw s = list_pages tw [] [] s"

definition delete_event_sub_subscription ::
  "'w twitch \<Rightarrow> string \<Rightarrow> event_sub_client \<times> 'w \<Rightarrow> (event_sub_error + unit) \<times> event_sub_client \<times> 'w" where
  "delete_event_sub_subscription tw i s =
     (if i = [] then (Inl Missing_Id, s)
      else case authorized 1 tw (tw_delete tw i) s of
        (Inl e, s1) \<Rightarrow> (Inl e, s1)
      | (Inr (status, _), s1) \<Rightarrow>
          (if status = 204 \<or> status = 404 then Inr () else Inl (Bad_Status status), s1))"

section \<open>Profiles and live state\<close>

definition is_stream_live ::
  "'w twitch \<Rightarrow> string \<Rightarrow> event_sub_client \<times> 'w \<Rightarrow> (event_sub_error + bool) \<times> event_sub_client \<times> 'w" where
  "is_stream_live tw bid s =
     (if bid = [] then (Inl Missing_Id, s)
      else case authorized 1 tw (tw_streams tw bid) s of
        (Inl e, s1) \<Rightarrow> (Inl e, s1)
      | (Inr (status, body), s1) \<Rightarrow>
          (if status \<noteq> 200 then Inl (Bad_Status status)
           else case body of None \<Rightarrow> Inl Undecodable | Some streams \<Rightarrow> Inr (streams \<noteq> []), s1))"

definition first_user :: "(int \<times> twitch_user list option) option \<Rightarrow> event_sub_error + twitch_user" where
  "first_user answer =
     (case answer of
        None \<Rightarrow> Inl Request_Failed
      | Some (status, body) \<Rightarrow>
          if status \<noteq> 200 then Inl (Bad_Status status)
          else case body of
            None \<Rightarrow> Inl Undecodable
          | Some [] \<Rightarrow> Inl Empty_Data
          | Some (u # _) \<Rightarrow> Inr u)"

text \<open>These two requests are not retried: a 401 is an error and leaves the cached token alone.\<close>

definition fetch_twitch_profile_by_broadcaster_id ::
  "'w twitch \<Rightarrow> string \<Rightarrow> event_sub_client \<times> 'w \<Rightarrow> (event_sub_error + twitch_user) \<times> event_sub_client \<times> 'w" where
  "fetch_twitch_profile_by_broadcaster_id tw bid s =
     (case app_access_token tw s of
        (Inl e, s1) \<Rightarrow> (Inl e, s1)
      | (Inr tok, c1, w1) \<Rightarrow> (case tw_users tw (Some bid) tok w1 of (answer, w2) \<Rightarrow> (first_user answer, c1, w2)))"

definition fetch_twitch_profile_by_access_token ::
  "'w twitch \<Rightarrow> string \<Rightarrow> event_sub_client \<times> 'w \<Rightarrow> (event_sub_error + twitch_user) \<times> event_sub_client \<times> 'w" where
  "fetch_twitch_profile_by_access_token tw tok s =
     (case s of (c, w) \<Rightarrow> (case tw_users tw None tok w of (answer, w1) \<Rightarrow> (first_user answer, c, w1)))"

definition fetch_twitch_profile ::
  "'w twitch \<Rightarrow> string option \<Rightarrow> string option \<Rightarrow> event_sub_client \<times> 'w
     \<Rightarrow> (event_sub_error + twitch_user) \<times> event_sub_client \<times> 'w" where
  "fetch_twitch_profile tw bid tok s =
     (case tok of
        Some t \<Rightarrow> fetch_twitch_profile_by_access_token tw t s
      | None \<Rightarrow> (case bid of
          Some b \<Rightarrow> fetch_twitch_profile_by_broadcaster_id tw b s
        | None \<Rightarrow> (Inl Missing_Argument, s)))"

end
