(* ===== verification/Bot_Channels.thy ===== *)
theory Bot_Channels
  imports Users Chat_Message Event_Sub
begin

text \<open>
  The channels the bot tracks (\<^verbatim>\<open>config.Channels\<close> of \<^verbatim>\<open>twitchbot/bot.go\<close>): the users of core-api
  with the flag whether the bot may read the channel's chat (\<^verbatim>\<open>chat_privs.go\<close>).
\<close>

section \<open>The list\<close>

record bot_user = user +
  bu_privs :: bool

definition bot_user_of :: "user \<Rightarrow> bot_user" where
  "bot_user_of u =
     \<lparr> us_id = us_id u, us_twitch_id = us_twitch_id u, us_login = us_login u, us_display_name = us_display_name u,
       us_opt_in = us_opt_in u, us_live = us_live u, us_key = us_key u, bu_privs = False \<rparr>"

definition bot_creator_channel :: string where
  "bot_creator_channel = ''timallenfanclubofficial''"

definition is_permanent_channel :: "string \<Rightarrow> string \<Rightarrow> bool" where
  "is_permanent_channel bot_name login0 \<longleftrightarrow>
     (let login = to_lower login0 in login = bot_creator_channel \<or> login = to_lower bot_name)"

fun is_tracked :: "string \<Rightarrow> bot_user list \<Rightarrow> bool" where
  "is_tracked login [] = False"
| "is_tracked login (c # cs) = (if us_login c = Some login then True else is_tracked login cs)"

definition is_tracked_channel :: "string \<Rightarrow> bot_user list \<Rightarrow> bool" where
  "is_tracked_channel login cs = is_tracked (to_lower login) cs"

fun channel_twitch_id :: "string \<Rightarrow> bot_user list \<Rightarrow> string option" where
  "channel_twitch_id login [] = None"
| "channel_twitch_id login (c # cs) =
     (case us_login c of
        None \<Rightarrow> channel_twitch_id login cs
      | Some l \<Rightarrow>
          (case us_twitch_id c of
             None \<Rightarrow> channel_twitch_id login cs
           | Some i \<Rightarrow> if equal_fold l login \<and> i \<noteq> [] then Some i else channel_twitch_id login cs))"

section \<open>Chat-read privileges\<close>

fun channel_has_privs :: "string \<Rightarrow> bot_user list \<Rightarrow> bool" where
  "channel_has_privs login [] = False"
| "channel_has_privs login (c # cs) = (if us_login c = Some login then bu_privs c else channel_has_privs login cs)"

text \<open>Both setters change the first match only.\<close>

fun set_channel_privs_by_login :: "string \<Rightarrow> bool \<Rightarrow> bot_user list \<Rightarrow> bot_user list" where
  "set_channel_privs_by_login login v [] = []"
| "set_channel_privs_by_login login v (c # cs) =
     (if us_login c = Some login then c\<lparr> bu_privs := v \<rparr> # cs else c # set_channel_privs_by_login login v cs)"

fun set_channel_privs_by_id :: "string \<Rightarrow> bool \<Rightarrow> bot_user list \<Rightarrow> bot_user list" where
  "set_channel_privs_by_id i v [] = []"
| "set_channel_privs_by_id i v (c # cs) =
     (if us_twitch_id c = Some i then c\<lparr> bu_privs := v \<rparr> # cs else c # set_channel_privs_by_id i v cs)"

definition chat_read_sub_type :: string where
  "chat_read_sub_type = ''channel.chat.message''"

text \<open>\<open>subs\<close> is \<open>None\<close> when the listing fails.\<close>

definition hydrate_chat_read_privs :: "subscription list option \<Rightarrow> bot_user list \<Rightarrow> bot_user list" where
  "hydrate_chat_read_privs subs cs =
     (case subs of
        None \<Rightarrow> cs
      | Some ss \<Rightarrow>
          let granted = map sub_broadcaster (filter (\<lambda>s. sub_type s = chat_read_sub_type \<and> sub_status s = ''enabled'') ss)
          in map (\<lambda>c. case us_twitch_id c of
                         None \<Rightarrow> c
                       | Some i \<Rightarrow> if i \<in> set granted then c\<lparr> bu_privs := True \<rparr> else c) cs)"

text \<open>
  The throttle of the attempts to subscribe: which are under way and when each channel's last one was.
\<close>

record grants =
  gr_at :: "string \<Rightarrow> int option"
  gr_in_flight :: "string \<Rightarrow> bool"

definition chat_read_cooldown :: int where
  "chat_read_cooldown = 60 * 1000000000"

definition claim_grant_attempt :: "int \<Rightarrow> string \<Rightarrow> grants \<Rightarrow> bool \<times> grants" where
  "claim_grant_attempt now login g =
     (if gr_in_flight g login then (False, g)
      else if (case gr_at g login of None \<Rightarrow> False | Some t \<Rightarrow> time_sub now t < chat_read_cooldown) then (False, g)
      else (True, g\<lparr> gr_in_flight := (gr_in_flight g)(login := True), gr_at := (gr_at g)(login \<mapsto> now) \<rparr>))"

definition clear_grant_in_flight :: "string \<Rightarrow> grants \<Rightarrow> grants" where
  "clear_grant_in_flight login g = g\<lparr> gr_in_flight := (gr_in_flight g)(login := False) \<rparr>"

text \<open>What \<^verbatim>\<open>tryGrantChatRead\<close> looks up once it has claimed: the id to subscribe with.\<close>

fun grant_target :: "string \<Rightarrow> bot_user list \<Rightarrow> string option" where
  "grant_target login [] = None"
| "grant_target login (c # cs) =
     (if us_login c = Some login
      then (if bu_privs c then None
            else case us_twitch_id c of None \<Rightarrow> None | Some i \<Rightarrow> if i = [] then None else Some i)
      else grant_target login cs)"

text \<open>
  The whole attempt; \<open>subscribe i\<close> says whether Twitch accepted the subscription or already had it. The
  result also lists the requests made.
\<close>

definition try_grant_chat_read ::
  "int \<Rightarrow> (string \<Rightarrow> bool) \<Rightarrow> string \<Rightarrow> bot_user list \<times> grants \<Rightarrow> string list \<times> bot_user list \<times> grants" where
  "try_grant_chat_read now subscribe login s =
     (case s of (cs, g) \<Rightarrow>
        (case claim_grant_attempt now login g of
           (False, g1) \<Rightarrow> ([], cs, g1)
         | (True, g1) \<Rightarrow>
             (case grant_target login cs of
                None \<Rightarrow> ([], cs, clear_grant_in_flight login g1)
              | Some i \<Rightarrow>
                  ([i], if subscribe i then set_channel_privs_by_login login True cs else cs,
                   clear_grant_in_flight login g1))))"

section \<open>One channel of the running system\<close>

text \<open>What the claims about one live channel fix: its login and id, the bot's list, the users of core-api.\<close>

record stream_world =
  sw_login :: string
  sw_bid :: string
  sw_tracked :: "bot_user list"
  sw_users :: "user table"

end
