(* ===== verification/Dad.thy ===== *)
theory Dad
  imports Bot_Channels
begin

text \<open>
  \<^verbatim>\<open>!dad\<close>: the responses (\<^verbatim>\<open>internal/libraries/dad\<close>, \<^verbatim>\<open>endpoints/bot/dad.go\<close>, \<^verbatim>\<open>endpoints/dad\<close>), the
  allotment per stream and chatter kept by the bot (\<^verbatim>\<open>twitchbot/dad_limit.go\<close>) and its persisted copy
  (\<^verbatim>\<open>internal/libraries/dadusage\<close>, \<^verbatim>\<open>endpoints/bot/dad_usage.go\<close>), and the command
  (\<^verbatim>\<open>twitchbot/cmd_dad.go\<close>).
\<close>

section \<open>The responses\<close>

record dad_response =
  dr_id :: int
  dr_channel :: "string option"
  dr_response :: string
  dr_global :: bool
  dr_use_count :: int

definition dr_with_id :: "dad_response \<Rightarrow> int \<Rightarrow> dad_response" where
  "dr_with_id r n = r\<lparr> dr_id := n \<rparr>"

text \<open>One text per channel; globals are unique on the text alone.\<close>

definition dr_key :: "dad_response \<Rightarrow> bool \<times> string option \<times> string" where
  "dr_key r = (dr_global r, if dr_global r then None else dr_channel r, dr_response r)"

definition eligible :: "string \<Rightarrow> dad_response \<Rightarrow> bool" where
  "eligible channel r \<longleftrightarrow> dr_global r \<or> dr_channel r = Some channel"

text \<open>\<open>Inr None\<close>: nothing to say. The random order of the pool is the parameter \<open>pick\<close>.\<close>

definition pick_random ::
  "faults \<Rightarrow> nat \<Rightarrow> string \<Rightarrow> dad_response table \<Rightarrow> (unit + string option) \<times> dad_response table" where
  "pick_random fl pick channel t =
     (if fl 0 then (Inl (), t)
      else let pool = find_rows (eligible channel) t
           in if pool = [] then (Inr None, t)
              else let r = pool ! (pick mod length pool)
                   in (Inr (Some (dr_response r)),
                       update_where (\<lambda>x. dr_id x = dr_id r) (\<lambda>x. x\<lparr> dr_use_count := dr_use_count x + 1 \<rparr>) t))"

text \<open>\<^verbatim>\<open>ORDER BY is_global DESC, id ASC\<close>\<close>

definition dad_list :: "faults \<Rightarrow> string \<Rightarrow> dad_response table \<Rightarrow> unit + dad_response list" where
  "dad_list fl channel t =
     (if fl 0 then Inl ()
      else let rows = sort_key dr_id (find_rows (eligible channel) t)
           in Inr (filter dr_global rows @ filter (\<lambda>r. \<not> dr_global r) rows))"

definition dad_add ::
  "faults \<Rightarrow> string \<Rightarrow> string \<Rightarrow> dad_response table \<Rightarrow> (unit + dad_response) \<times> dad_response table" where
  "dad_add fl channel text t =
     (if fl 0 then (Inl (), t)
      else case insert_row dr_with_id dr_key
                  \<lparr> dr_id = 0, dr_channel = Some channel, dr_response = text, dr_global = False, dr_use_count = 0 \<rparr> t of
        None \<Rightarrow> (Inl (), t)
      | Some (r, t') \<Rightarrow> (Inr r, t'))"

definition dad_remove :: "faults \<Rightarrow> string \<Rightarrow> int \<Rightarrow> dad_response table \<Rightarrow> unit option \<times> dad_response table" where
  "dad_remove fl channel rid t =
     (if fl 0 then (Some (), t)
      else (None, delete_where (\<lambda>r. dr_id r = rid \<and> dr_channel r = Some channel \<and> \<not> dr_global r) t))"

section \<open>Their endpoints\<close>

definition post_dad_random_endpoint ::
  "faults \<Rightarrow> nat \<Rightarrow> string \<Rightarrow> dad_response table \<Rightarrow> string http \<times> dad_response table" where
  "post_dad_random_endpoint fl pick channel t =
     (if channel = [] then (Http_Bad_Request, t)
      else case pick_random fl pick channel t of
        (Inl _, t') \<Rightarrow> (Http_Server_Error, t')
      | (Inr r, t') \<Rightarrow> (Http_Ok (deref_or_empty r), t'))"

definition post_dad_add_endpoint ::
  "faults \<Rightarrow> string \<Rightarrow> string \<Rightarrow> dad_response table \<Rightarrow> dad_response http \<times> dad_response table" where
  "post_dad_add_endpoint fl channel text t =
     (if channel = [] \<or> text = [] then (Http_Bad_Request, t)
      else case dad_add fl channel text t of
        (Inl _, t') \<Rightarrow> (Http_Server_Error, t')
      | (Inr r, t') \<Rightarrow> (Http_Ok r, t'))"

definition post_dad_remove_endpoint ::
  "faults \<Rightarrow> string \<Rightarrow> int \<Rightarrow> dad_response table \<Rightarrow> unit http \<times> dad_response table" where
  "post_dad_remove_endpoint fl channel rid t =
     (if channel = [] \<or> rid = 0 then (Http_Bad_Request, t)
      else case dad_remove fl channel rid t of
        (Some _, t') \<Rightarrow> (Http_Server_Error, t')
      | (None, t') \<Rightarrow> (Http_Ok (), t'))"

text \<open>The dashboard's endpoints act for the signed-in user (\<open>None\<close>: not signed in).\<close>

datatype 'a dad_page = Dad_Ok 'a | Dad_Unauthorized | Dad_Bad_Request | Dad_Server_Error

definition get_dad_responses_endpoint ::
  "faults \<Rightarrow> user option \<Rightarrow> dad_response table \<Rightarrow> dad_response list dad_page" where
  "get_dad_responses_endpoint fl usr t =
     (case usr of
        None \<Rightarrow> Dad_Unauthorized
      | Some u \<Rightarrow>
          (case us_login u of
             None \<Rightarrow> Dad_Server_Error
           | Some channel \<Rightarrow>
               (case dad_list fl channel t of Inl _ \<Rightarrow> Dad_Server_Error | Inr rs \<Rightarrow> Dad_Ok rs)))"

definition create_dad_response_endpoint ::
  "faults \<Rightarrow> user option \<Rightarrow> string option \<Rightarrow> dad_response table \<Rightarrow> unit dad_page \<times> dad_response table" where
  "create_dad_response_endpoint fl usr payload t =
     (case usr of
        None \<Rightarrow> (Dad_Unauthorized, t)
      | Some u \<Rightarrow>
          (case payload of
             None \<Rightarrow> (Dad_Bad_Request, t)
           | Some text \<Rightarrow>
               if text = [] then (Dad_Bad_Request, t)
               else (case us_login u of
                       None \<Rightarrow> (Dad_Server_Error, t)
                     | Some channel \<Rightarrow>
                         (case dad_add fl channel text t of
                            (Inl _, t') \<Rightarrow> (Dad_Server_Error, t')
                          | (Inr _, t') \<Rightarrow> (Dad_Ok (), t')))))"

definition delete_dad_response_endpoint ::
  "faults \<Rightarrow> user option \<Rightarrow> string \<Rightarrow> dad_response table \<Rightarrow> unit dad_page \<times> dad_response table" where
  "delete_dad_response_endpoint fl usr rid t =
     (case usr of
        None \<Rightarrow> (Dad_Unauthorized, t)
      | Some u \<Rightarrow>
          (case atoi rid of
             None \<Rightarrow> (Dad_Bad_Request, t)
           | Some n \<Rightarrow>
               (case us_login u of
                  None \<Rightarrow> (Dad_Server_Error, t)
                | Some channel \<Rightarrow>
                    (case dad_remove fl channel n t of
                       (Some _, t') \<Rightarrow> (Dad_Server_Error, t')
                     | (None, t') \<Rightarrow> (Dad_Ok (), t')))))"

section \<open>The persisted tally\<close>

record dad_usage_row =
  du_id :: int
  du_twitch_id :: int
  du_chatter :: string
  du_count :: int
  du_key :: "string option"

definition du_with_id :: "dad_usage_row \<Rightarrow> int \<Rightarrow> dad_usage_row" where
  "du_with_id r n = r\<lparr> du_id := n \<rparr>"

definition du_pair :: "dad_usage_row \<Rightarrow> int \<times> string" where
  "du_pair r = (du_twitch_id r, du_chatter r)"

text \<open>The stream key of the users with that Twitch id (at most one).\<close>

definition stream_keys :: "int \<Rightarrow> user table \<Rightarrow> string option list" where
  "stream_keys bid users = map us_key (find_rows (\<lambda>u. us_twitch_id u = Some (itoa bid)) users)"

definition get_current_stream_usage ::
  "faults \<Rightarrow> int \<Rightarrow> user table \<Rightarrow> dad_usage_row table \<Rightarrow> unit + (string \<times> int) list" where
  "get_current_stream_usage fl bid users t =
     (if fl 0 then Inl ()
      else Inr (map (\<lambda>r. (du_chatter r, du_count r))
             (find_rows (\<lambda>r. du_twitch_id r = bid \<and> du_key r \<in> set (stream_keys bid users)) t)))"

definition increment_roll ::
  "faults \<Rightarrow> int \<Rightarrow> string \<Rightarrow> user table \<Rightarrow> dad_usage_row table \<Rightarrow> unit option \<times> dad_usage_row table" where
  "increment_roll fl bid chatter users t =
     (if fl 0 then (Some (), t)
      else case stream_keys bid users of
        [] \<Rightarrow> (None, t)
      | key # _ \<Rightarrow>
          (case insert_row du_with_id du_pair
                  \<lparr> du_id = 0, du_twitch_id = bid, du_chatter = chatter, du_count = 1, du_key = key \<rparr> t of
             Some (_, t') \<Rightarrow> (None, t')
           | None \<Rightarrow>
               (None, update_where (\<lambda>r. du_pair r = (bid, chatter))
                  (\<lambda>r. r\<lparr> du_count := (if du_key r \<noteq> key then 1 else du_count r + 1), du_key := key \<rparr>) t)))"

definition post_dad_usage_endpoint ::
  "faults \<Rightarrow> int \<Rightarrow> user table \<Rightarrow> dad_usage_row table \<Rightarrow> (string \<times> int) list http \<times> dad_usage_row table" where
  "post_dad_usage_endpoint fl bid users t =
     (if bid = 0 then (Http_Bad_Request, t)
      else case get_current_stream_usage fl bid users t of
        Inl _ \<Rightarrow> (Http_Server_Error, t)
      | Inr us \<Rightarrow> (Http_Ok us, t))"

definition post_dad_increment_endpoint ::
  "faults \<Rightarrow> int \<Rightarrow> string \<Rightarrow> user table \<Rightarrow> dad_usage_row table \<Rightarrow> unit http \<times> dad_usage_row table" where
  "post_dad_increment_endpoint fl bid chatter users t =
     (if bid = 0 \<or> chatter = [] then (Http_Bad_Request, t)
      else case increment_roll fl bid chatter users t of
        (Some _, t') \<Rightarrow> (Http_Server_Error, t')
      | (None, t') \<Rightarrow> (Http_Ok (), t'))"

section \<open>The allotment in the bot\<close>

definition dad_per_stream_limit :: int where
  "dad_per_stream_limit = 5"

text \<open>A channel's current stream; a chatter without an entry has count 0.\<close>

record dad_stream =
  ds_key :: string
  ds_counts :: "string \<Rightarrow> int"

type_synonym dad_usage = "string \<Rightarrow> dad_stream option"

definition new_dad_stream :: "string \<Rightarrow> dad_stream" where
  "new_dad_stream key = \<lparr> ds_key = key, ds_counts = (\<lambda>_. 0) \<rparr>"

definition stream_of :: "string \<Rightarrow> dad_usage \<Rightarrow> dad_stream" where
  "stream_of channel us = (case us channel of None \<Rightarrow> new_dad_stream [] | Some u \<Rightarrow> u)"

datatype dad_decision = Dad_Allow | Dad_Reject | Dad_Silent

definition check_dad_limit :: "string \<Rightarrow> string \<Rightarrow> dad_usage \<Rightarrow> dad_decision \<times> dad_usage" where
  "check_dad_limit channel0 chatter0 us =
     (let channel = to_lower channel0; chatter = to_lower chatter0;
          u = stream_of channel us; n = ds_counts u chatter;
          bumped = us(channel \<mapsto> u\<lparr> ds_counts := (ds_counts u)(chatter := n + 1) \<rparr>)
      in if n < dad_per_stream_limit then (Dad_Allow, bumped)
         else if n = dad_per_stream_limit then (Dad_Reject, bumped)
         else (Dad_Silent, us(channel \<mapsto> u)))"

definition start_dad_stream :: "string \<Rightarrow> string \<Rightarrow> dad_usage \<Rightarrow> dad_usage" where
  "start_dad_stream channel key us = us(to_lower channel \<mapsto> new_dad_stream key)"

definition end_dad_stream :: "string \<Rightarrow> dad_usage \<Rightarrow> dad_usage" where
  "end_dad_stream channel us = us(to_lower channel := None)"

text \<open>\<open>call\<close>: the network's way with the request for the persisted tally.\<close>

definition rehydrate_dad_usage ::
  "network \<Rightarrow> faults \<Rightarrow> string \<Rightarrow> string \<Rightarrow> user table \<Rightarrow> dad_usage_row table \<Rightarrow> dad_usage \<Rightarrow> dad_usage" where
  "rehydrate_dad_usage net fl login bid users t us =
     (case atoi bid of
        None \<Rightarrow> us
      | Some n \<Rightarrow>
          (case fst (api_call net (post_dad_usage_endpoint fl n users) t) of
             None \<Rightarrow> us
           | Some [] \<Rightarrow> us
           | Some rows \<Rightarrow>
               let channel = to_lower login; u = stream_of channel us
               in us(channel \<mapsto> u\<lparr> ds_counts :=
                    fold (\<lambda>(c, n) counts. if n > counts c then counts(c := n) else counts) rows (ds_counts u) \<rparr>)))"

definition persist_dad_roll ::
  "network \<Rightarrow> faults \<Rightarrow> string \<Rightarrow> string \<Rightarrow> bot_user list \<Rightarrow> user table \<Rightarrow> dad_usage_row table \<Rightarrow> dad_usage_row table" where
  "persist_dad_roll net fl channel chatter tracked users t =
     (case channel_twitch_id channel tracked of
        None \<Rightarrow> t
      | Some tid \<Rightarrow>
          (case atoi tid of
             None \<Rightarrow> t
           | Some n \<Rightarrow> snd (api_call net (post_dad_increment_endpoint fl n (to_lower chatter) users) t)))"

section \<open>The command\<close>

datatype dad_reply =
    Dad_Says string | Dad_Enough nat
  | Dad_Add_Usage | Dad_Add_Failed | Dad_Added
  | Dad_Remove_Usage | Dad_Remove_Failed int | Dad_Removed int

text \<open>How the world answers the calls of one command: the network, the database, the dice.\<close>

record dad_env =
  de_net :: network
  de_faults :: faults
  de_pick :: nat
  de_reject :: nat

definition say_random_dad ::
  "dad_env \<Rightarrow> string \<Rightarrow> dad_response table \<Rightarrow> dad_reply option \<times> dad_response table" where
  "say_random_dad env channel t =
     (case api_call (de_net env) (post_dad_random_endpoint (de_faults env) (de_pick env) channel) t of
        (None, t') \<Rightarrow> (None, t')
      | (Some r, t') \<Rightarrow> (if r \<noteq> [] then Some (Dad_Says r) else None, t'))"

text \<open>The reply, whether the roll is to be persisted, the responses, and the allotments.\<close>

definition roll_dad ::
  "dad_env \<Rightarrow> string \<Rightarrow> string \<Rightarrow> dad_response table \<Rightarrow> dad_usage
     \<Rightarrow> dad_reply option \<times> bool \<times> dad_response table \<times> dad_usage" where
  "roll_dad env channel chatter t us =
     (case check_dad_limit channel chatter us of
        (Dad_Allow, us') \<Rightarrow> (case say_random_dad env channel t of (r, t') \<Rightarrow> (r, True, t', us'))
      | (Dad_Reject, us') \<Rightarrow> (Some (Dad_Enough (de_reject env mod 3)), True, t, us')
      | (Dad_Silent, us') \<Rightarrow> (None, False, t, us'))"

definition can_manage_dad :: "chat_message \<Rightarrow> bool" where
  "can_manage_dad m = is_mod_or_broadcaster m"

definition handle_dad_command ::
  "dad_env \<Rightarrow> chat_message \<Rightarrow> dad_response table \<Rightarrow> dad_usage
     \<Rightarrow> dad_reply option \<times> bool \<times> dad_response table \<times> dad_usage" where
  "handle_dad_command env m t us =
     (let channel = cm_broadcaster_login m; args = command_args m; words = str_fields args
      in if words = [] then roll_dad env channel (cm_chatter_login m) t us
         else if to_lower (hd words) = ''add'' then
           (if \<not> can_manage_dad m then (None, False, t, us)
            else let text = trim_space (drop (length (hd words)) args)
                 in if text = [] then (Some Dad_Add_Usage, False, t, us)
                    else case api_call (de_net env) (post_dad_add_endpoint (de_faults env) channel text) t of
                      (None, t') \<Rightarrow> (Some Dad_Add_Failed, False, t', us)
                    | (Some _, t') \<Rightarrow> (Some Dad_Added, False, t', us))
         else if to_lower (hd words) = ''remove'' then
           (if \<not> can_manage_dad m then (None, False, t, us)
            else if length words < 2 then (Some Dad_Remove_Usage, False, t, us)
            else case atoi (words ! 1) of
              None \<Rightarrow> (Some Dad_Remove_Usage, False, t, us)
            | Some n \<Rightarrow>
                (case api_call (de_net env) (post_dad_remove_endpoint (de_faults env) channel n) t of
                   (None, t') \<Rightarrow> (Some (Dad_Remove_Failed n), False, t', us)
                 | (Some _, t') \<Rightarrow> (Some (Dad_Removed n), False, t', us)))
         else roll_dad env channel (cm_chatter_login m) t us)"

end
