(* ===== verification/Auto_Shout.thy ===== *)
theory Auto_Shout
  imports Bot_Channels
begin

text \<open>
  Automatic shout-outs: the service (\<^verbatim>\<open>internal/libraries/autoshout\<close>), the dashboard's and the bot's
  endpoints (\<^verbatim>\<open>cmd/core-api/endpoints/autoshout\<close>, \<^verbatim>\<open>endpoints/bot/autoshout.go\<close>), and the bot's list of
  the chatters still to be shouted out in a channel (\<^verbatim>\<open>twitchbot/cmd_autoshout.go\<close>, the end of
  \<^verbatim>\<open>bot_read_message.go\<close>).
\<close>

section \<open>The service\<close>

text \<open>The column \<^verbatim>\<open>stream_key\<close> is not part of the Go struct. The table has no unique column but the id.\<close>

record shout_chatter =
  sc_id :: int
  sc_twitch_id :: int
  sc_chatter :: string
  sc_count :: int
  sc_updated :: int
  sc_key :: "string option"

definition sc_with_id :: "shout_chatter \<Rightarrow> int \<Rightarrow> shout_chatter" where
  "sc_with_id r n = r\<lparr> sc_id := n \<rparr>"

definition get_all_auto_shout_chatters :: "faults \<Rightarrow> shout_chatter table \<Rightarrow> unit + shout_chatter list" where
  "get_all_auto_shout_chatters fl t = (if fl 0 then Inl () else Inr (tb_rows t))"

definition get_auto_shout_chatters :: "faults \<Rightarrow> int \<Rightarrow> shout_chatter table \<Rightarrow> unit + shout_chatter list" where
  "get_auto_shout_chatters fl bid t = (if fl 0 then Inl () else Inr (find_rows (\<lambda>r. sc_twitch_id r = bid) t))"

text \<open>The join with the broadcaster's row of the users: who has not been shouted out in this stream.\<close>

definition get_auto_shout_chatters_for_bot ::
  "faults \<Rightarrow> int \<Rightarrow> user table \<Rightarrow> shout_chatter table \<Rightarrow> unit + string list" where
  "get_auto_shout_chatters_for_bot fl bid users t =
     (if fl 0 then Inl ()
      else Inr (concat (map (\<lambda>r. map (\<lambda>_. sc_chatter r)
             (filter (\<lambda>u. us_twitch_id u = Some (itoa (sc_twitch_id r)) \<and> sc_key r \<noteq> us_key u) (tb_rows users)))
           (find_rows (\<lambda>r. sc_twitch_id r = bid) t))))"

definition get_auto_shout_chatter ::
  "faults \<Rightarrow> int \<Rightarrow> string \<Rightarrow> shout_chatter table \<Rightarrow> unit + shout_chatter" where
  "get_auto_shout_chatter fl bid chatter t =
     (if fl 0 then Inl ()
      else case find_one (\<lambda>r. sc_twitch_id r = bid \<and> sc_chatter r = chatter) t of None \<Rightarrow> Inl () | Some r \<Rightarrow> Inr r)"

definition create_auto_shout_chatter ::
  "faults \<Rightarrow> int \<Rightarrow> int \<Rightarrow> string \<Rightarrow> shout_chatter table \<Rightarrow> (unit + int) \<times> shout_chatter table" where
  "create_auto_shout_chatter fl now bid chatter t =
     (if fl 0 then (Inl (), t)
      else case insert_row sc_with_id sc_id
                  \<lparr> sc_id = 0, sc_twitch_id = bid, sc_chatter = chatter, sc_count = 0, sc_updated = now, sc_key = None \<rparr> t of
        None \<Rightarrow> (Inl (), t)
      | Some (r, t') \<Rightarrow> (Inr (sc_id r), t'))"

definition update_auto_shout_chatter ::
  "faults \<Rightarrow> shout_chatter \<Rightarrow> shout_chatter table \<Rightarrow> unit option \<times> shout_chatter table" where
  "update_auto_shout_chatter fl c t =
     (if fl 0 \<or> sc_id c \<notin> sc_id ` set (tb_rows t) then (Some (), t)
      else (None, update_where (\<lambda>r. sc_id r = sc_id c) (\<lambda>r. c\<lparr> sc_key := sc_key r \<rparr>) t))"

definition delete_auto_shout_chatter ::
  "faults \<Rightarrow> int \<Rightarrow> int \<Rightarrow> shout_chatter table \<Rightarrow> unit option \<times> shout_chatter table" where
  "delete_auto_shout_chatter fl bid rid t =
     (if fl 0 then (Some (), t) else (None, delete_where (\<lambda>r. sc_twitch_id r = bid \<and> sc_id r = rid) t))"

definition increment_shout_count ::
  "faults \<Rightarrow> int \<Rightarrow> int \<Rightarrow> string \<Rightarrow> user table \<Rightarrow> shout_chatter table \<Rightarrow> unit option \<times> shout_chatter table" where
  "increment_shout_count fl now bid chatter users t =
     (if fl 0 then (Some (), t)
      else (None,
        case find_one (\<lambda>u. us_twitch_id u = Some (itoa bid)) users of
          None \<Rightarrow> t
        | Some u \<Rightarrow>
            update_where (\<lambda>r. sc_twitch_id r = bid \<and> sc_chatter r = chatter)
              (\<lambda>r. r\<lparr> sc_count := sc_count r + 1, sc_key := us_key u, sc_updated := now \<rparr>) t))"

section \<open>The endpoints\<close>

definition get_auto_shout_endpoint ::
  "faults \<Rightarrow> string \<Rightarrow> user table \<Rightarrow> shout_chatter table \<Rightarrow> string list http \<times> shout_chatter table" where
  "get_auto_shout_endpoint fl bid users t =
     (case atoi bid of
        None \<Rightarrow> (Http_Bad_Request, t)
      | Some n \<Rightarrow>
          (case get_auto_shout_chatters_for_bot fl n users t of
             Inl _ \<Rightarrow> (Http_Server_Error, t)
           | Inr cs \<Rightarrow> (Http_Ok cs, t)))"

definition post_auto_shout_increment_endpoint ::
  "faults \<Rightarrow> int \<Rightarrow> int \<Rightarrow> string \<Rightarrow> user table \<Rightarrow> shout_chatter table \<Rightarrow> unit http \<times> shout_chatter table" where
  "post_auto_shout_increment_endpoint fl now bid chatter users t =
     (if bid = 0 \<or> chatter = [] then (Http_Bad_Request, t)
      else case increment_shout_count fl now bid chatter users t of
        (Some _, t') \<Rightarrow> (Http_Server_Error, t')
      | (None, t') \<Rightarrow> (Http_Ok (), t'))"

definition broadcaster_id :: "user \<Rightarrow> int option" where
  "broadcaster_id u =
     (case us_twitch_id u of None \<Rightarrow> None | Some i \<Rightarrow> if i = [] then None else atoi i)"

datatype 'a shout_page = Shout_Ok 'a | Shout_Unauthorized | Shout_Bad_Request | Shout_Server_Error

definition get_auto_shout_page ::
  "faults \<Rightarrow> user option \<Rightarrow> shout_chatter table \<Rightarrow> shout_chatter list shout_page" where
  "get_auto_shout_page fl usr t =
     (case usr of
        None \<Rightarrow> Shout_Unauthorized
      | Some u \<Rightarrow>
          (case broadcaster_id u of
             None \<Rightarrow> Shout_Bad_Request
           | Some bid \<Rightarrow>
               (case get_auto_shout_chatters fl bid t of Inl _ \<Rightarrow> Shout_Server_Error | Inr cs \<Rightarrow> Shout_Ok cs)))"

definition create_auto_shout_page ::
  "faults \<Rightarrow> int \<Rightarrow> user option \<Rightarrow> string option \<Rightarrow> shout_chatter table \<Rightarrow> unit shout_page \<times> shout_chatter table" where
  "create_auto_shout_page fl now usr payload t =
     (case usr of
        None \<Rightarrow> (Shout_Unauthorized, t)
      | Some u \<Rightarrow>
          (case payload of
             None \<Rightarrow> (Shout_Bad_Request, t)
           | Some chatter \<Rightarrow>
               (case broadcaster_id u of
                  None \<Rightarrow> (Shout_Bad_Request, t)
                | Some bid \<Rightarrow>
                    (case create_auto_shout_chatter fl now bid chatter t of
                       (Inl _, t') \<Rightarrow> (Shout_Server_Error, t')
                     | (Inr _, t') \<Rightarrow> (Shout_Ok (), t')))))"

text \<open>The update reads the row named in the body and writes back what it has read.\<close>

definition update_auto_shout_page ::
  "faults \<Rightarrow> user option \<Rightarrow> shout_chatter option \<Rightarrow> shout_chatter table \<Rightarrow> unit shout_page \<times> shout_chatter table" where
  "update_auto_shout_page fl usr payload t =
     (case usr of
        None \<Rightarrow> (Shout_Unauthorized, t)
      | Some u \<Rightarrow>
          (case payload of
             None \<Rightarrow> (Shout_Bad_Request, t)
           | Some updated \<Rightarrow>
               (case broadcaster_id u of
                  None \<Rightarrow> (Shout_Bad_Request, t)
                | Some bid \<Rightarrow>
                    (case get_auto_shout_chatter fl bid (sc_chatter updated) t of
                       Inl _ \<Rightarrow> (Shout_Server_Error, t)
                     | Inr chatter \<Rightarrow>
                         (case update_auto_shout_chatter (\<lambda>n. fl (n + 1)) chatter t of
                            (Some _, t') \<Rightarrow> (Shout_Server_Error, t')
                          | (None, t') \<Rightarrow> (Shout_Ok (), t'))))))"

definition delete_auto_shout_page ::
  "faults \<Rightarrow> user option \<Rightarrow> string \<Rightarrow> shout_chatter table \<Rightarrow> unit shout_page \<times> shout_chatter table" where
  "delete_auto_shout_page fl usr rid t =
     (case usr of
        None \<Rightarrow> (Shout_Unauthorized, t)
      | Some u \<Rightarrow>
          (case atoi rid of
             None \<Rightarrow> (Shout_Bad_Request, t)
           | Some n \<Rightarrow>
               (case broadcaster_id u of
                  None \<Rightarrow> (Shout_Bad_Request, t)
                | Some bid \<Rightarrow>
                    (case delete_auto_shout_chatter fl bid n t of
                       (Some _, t') \<Rightarrow> (Shout_Server_Error, t')
                     | (None, t') \<Rightarrow> (Shout_Ok (), t')))))"

section \<open>The bot\<close>

text \<open>Per channel the chatters still to be shouted out; a channel is absent until it was fetched.\<close>

type_synonym shout_lists = "string \<Rightarrow> string list option"

definition fetch_auto_shout_chatters ::
  "network \<Rightarrow> faults \<Rightarrow> string \<Rightarrow> string \<Rightarrow> user table \<Rightarrow> shout_chatter table \<Rightarrow> shout_lists \<Rightarrow> shout_lists" where
  "fetch_auto_shout_chatters net fl bid login users t ls =
     (case fst (api_call net (get_auto_shout_endpoint fl bid users) t) of
        None \<Rightarrow> ls(login \<mapsto> [])
      | Some cs \<Rightarrow> ls(login \<mapsto> cs))"

definition increment_auto_shout ::
  "network \<Rightarrow> faults \<Rightarrow> int \<Rightarrow> string \<Rightarrow> string \<Rightarrow> bot_user list \<Rightarrow> user table \<Rightarrow> shout_chatter table \<Rightarrow> shout_chatter table" where
  "increment_auto_shout net fl now channel chatter tracked users t =
     (case channel_twitch_id channel tracked of
        None \<Rightarrow> t
      | Some tid \<Rightarrow>
          (case atoi tid of
             None \<Rightarrow> t
           | Some n \<Rightarrow> snd (api_call net (post_auto_shout_increment_endpoint fl now n chatter users) t)))"

text \<open>A message of \<open>name\<close> in \<open>channel\<close>: whether a shout-out is due, and the lists.\<close>

definition auto_shout :: "string \<Rightarrow> string \<Rightarrow> shout_lists \<Rightarrow> bool \<times> shout_lists" where
  "auto_shout channel name ls =
     (case ls channel of
        None \<Rightarrow> (False, ls)
      | Some cs \<Rightarrow> if name \<in> set cs then (True, ls(channel \<mapsto> remove1 name cs)) else (False, ls))"

end
