(* ===== verification/Dedupe.thy ===== *)
theory Dedupe
  imports Go_Prelude
begin

text \<open>
  The ring of recent message ids (\<^verbatim>\<open>internal/libraries/twitchbot/eventsub_dedupe.go\<close>) that keeps a
  redelivered chat message from running its commands twice, and its refinement: the ring with its
  lookup set behaves as a sliding window of the last ids. Each call holds the mutex from its first
  read to its last write, so calls are atomic.
\<close>

section \<open>The code\<close>

record id_cache =
  mc_ids :: "string list"
  mc_set :: "string set"
  mc_next :: nat
  mc_full :: bool

definition chat_message_id_cache_size :: nat where
  "chat_message_id_cache_size = 8192"

definition cache_size :: "int \<Rightarrow> nat" where
  "cache_size n = (if n \<le> 0 then chat_message_id_cache_size else nat n)"

definition new_id_cache :: "int \<Rightarrow> id_cache" where
  "new_id_cache n = \<lparr> mc_ids = replicate (cache_size n) [], mc_set = {}, mc_next = 0, mc_full = False \<rparr>"

definition seen :: "string \<Rightarrow> id_cache \<Rightarrow> bool \<times> id_cache" where
  "seen i c =
     (if i = [] then (False, c)
      else if i \<in> mc_set c then (True, c)
      else
        let kept = (if mc_full c then mc_set c - {mc_ids c ! mc_next c} else mc_set c);
            ids = (mc_ids c)[mc_next c := i];
            next = mc_next c + 1;
            wrapped = (next = length ids)
        in (False, \<lparr> mc_ids = ids, mc_set = insert i kept,
                     mc_next = (if wrapped then 0 else next), mc_full = (mc_full c \<or> wrapped) \<rparr>))"

fun seen_all :: "string list \<Rightarrow> id_cache \<Rightarrow> bool list \<times> id_cache" where
  "seen_all [] c = ([], c)"
| "seen_all (i # is) c =
     (case seen i c of (b, c1) \<Rightarrow> (case seen_all is c1 of (bs, c2) \<Rightarrow> (b # bs, c2)))"

section \<open>The specification: a sliding window\<close>

fun window_seen :: "nat \<Rightarrow> string \<Rightarrow> string list \<Rightarrow> bool \<times> string list" where
  "window_seen n i w =
     (if i = [] then (False, w)
      else if i \<in> set w then (True, w)
      else (False, (if length w = n then tl w else w) @ [i]))"

fun window_seen_all :: "nat \<Rightarrow> string list \<Rightarrow> string list \<Rightarrow> bool list \<times> string list" where
  "window_seen_all n [] w = ([], w)"
| "window_seen_all n (i # is) w =
     (case window_seen n i w of (b, w1) \<Rightarrow> (case window_seen_all n is w1 of (bs, w2) \<Rightarrow> (b # bs, w2)))"

text \<open>The abstraction: the ids in the order they were claimed.\<close>

definition window :: "id_cache \<Rightarrow> string list" where
  "window c = (if mc_full c then drop (mc_next c) (mc_ids c) @ take (mc_next c) (mc_ids c)
               else take (mc_next c) (mc_ids c))"

definition cache_inv :: "nat \<Rightarrow> id_cache \<Rightarrow> bool" where
  "cache_inv n c \<longleftrightarrow> length (mc_ids c) = n \<and> mc_next c < n \<and> distinct (window c) \<and> mc_set c = set (window c)"

lemma cache_size_pos [simp]: "0 < cache_size n"
  by (simp add: cache_size_def chat_message_id_cache_size_def)

lemma cache_inv_new: "cache_inv (cache_size n) (new_id_cache n)" "window (new_id_cache n) = []"
  by (simp_all add: cache_inv_def window_def new_id_cache_def)

lemma window_length: "cache_inv n c \<Longrightarrow> length (window c) = (if mc_full c then n else mc_next c)"
  by (auto simp: cache_inv_def window_def)

text \<open>A claim shifts the window: the slot at the cursor holds its oldest id once the ring is full.\<close>

lemma seen_shift:
  assumes "cache_inv n c" and "i \<noteq> []" and "i \<notin> mc_set c"
  shows "window (snd (seen i c)) = (if length (window c) = n then tl (window c) else window c) @ [i]"
    and "mc_set (snd (seen i c)) = set (window (snd (seen i c)))"
proof -
  let ?ids = "mc_ids c" and ?k = "mc_next c"
  have n: "length ?ids = n" "?k < n" "distinct (window c)" "mc_set c = set (window c)"
    using assms(1) by (auto simp: cache_inv_def)
  have cut: "take (Suc ?k) (?ids[?k := i]) = take ?k ?ids @ [i]" "drop (Suc ?k) (?ids[?k := i]) = drop (Suc ?k) ?ids"
    using n by (simp_all add: take_Suc_conv_app_nth)
  have split: "drop ?k ?ids = ?ids ! ?k # drop (Suc ?k) ?ids" using n Cons_nth_drop_Suc [of ?k ?ids] by simp
  have new: "window (snd (seen i c)) =
      (if mc_full c then drop (Suc ?k) ?ids @ take ?k ?ids else take ?k ?ids) @ [i]"
  proof (cases "Suc ?k = n")
    case True
    then have "?ids[?k := i] = take ?k ?ids @ [i]" using cut n by simp
    then show ?thesis using assms(2,3) n True by (simp add: seen_def window_def Let_def)
  next
    case False
    then show ?thesis using assms(2,3) n cut by (simp add: seen_def window_def Let_def)
  qed
  have full: "length (window c) = n \<longleftrightarrow> mc_full c" using window_length [OF assms(1)] n by auto
  show w: "window (snd (seen i c)) = (if length (window c) = n then tl (window c) else window c) @ [i]"
    unfolding new full by (simp add: window_def split)
  show "mc_set (snd (seen i c)) = set (window (snd (seen i c)))"
  proof (cases "mc_full c")
    case True
    then have "window c = ?ids ! ?k # tl (window c)" by (simp add: window_def split)
    then have "set (tl (window c)) = set (window c) - {?ids ! ?k}" using n(3) by (metis Diff_insert_absorb distinct.simps(2) list.simps(15))
    then show ?thesis unfolding w using True full assms(2,3) n by (simp add: seen_def Let_def)
  next
    case False
    then show ?thesis unfolding w using full assms(2,3) n by (simp add: seen_def Let_def)
  qed
qed

lemma seen_refines:
  assumes "cache_inv n c"
  shows "cache_inv n (snd (seen i c)) \<and> fst (seen i c) = fst (window_seen n i (window c)) \<and>
     window (snd (seen i c)) = snd (window_seen n i (window c))"
proof (cases "i = [] \<or> i \<in> mc_set c")
  case True
  then show ?thesis using assms by (auto simp: seen_def cache_inv_def)
next
  case False
  then have i: "i \<noteq> []" "i \<notin> mc_set c" by auto
  have n: "length (mc_ids c) = n" "mc_next c < n" "distinct (window c)" "mc_set c = set (window c)"
    using assms by (auto simp: cache_inv_def)
  note S = seen_shift [OF assms i]
  have "set (tl (window c)) \<subseteq> set (window c)" by (cases "window c") auto
  then have "distinct (window (snd (seen i c)))" unfolding S(1) using n(3,4) i(2) by (auto simp: distinct_tl)
  moreover have "length (mc_ids (snd (seen i c))) = n" "mc_next (snd (seen i c)) < n"
    using i n by (auto simp: seen_def Let_def)
  ultimately have "cache_inv n (snd (seen i c))" using S(2) by (simp add: cache_inv_def)
  moreover have "fst (seen i c) = False" using i by (simp add: seen_def Let_def)
  ultimately show ?thesis using S(1) i n(4) by simp
qed

lemma seen_all_refines:
  "cache_inv n c \<Longrightarrow>
     fst (seen_all is c) = fst (window_seen_all n is (window c)) \<and>
     window (snd (seen_all is c)) = snd (window_seen_all n is (window c)) \<and> cache_inv n (snd (seen_all is c))"
proof (induction "is" arbitrary: c)
  case (Cons i "is")
  then show ?case using seen_refines [OF Cons.prems, of i] Cons.IH [of "snd (seen i c)"]
    by (simp add: split_beta del: window_seen.simps)
qed simp

text \<open>
  C21: The ring answers every sequence of message ids exactly as a sliding window over the last 8192 (or
  the given number of) claimed ids would: an id is reported as seen if and only if it is in the window,
  an empty id never is, and the lookup set holds exactly the ids of the window, so it never grows past
  the size of the ring.
\<close>

theorem ring_refines_window:
  "fst (seen_all is (new_id_cache n)) = fst (window_seen_all (cache_size n) is []) \<and>
   mc_set (snd (seen_all is (new_id_cache n))) = set (snd (window_seen_all (cache_size n) is [])) \<and>
   card (mc_set (snd (seen_all is (new_id_cache n)))) \<le> cache_size n"
proof -
  let ?c = "snd (seen_all is (new_id_cache n))"
  note R = seen_all_refines [OF cache_inv_new(1) [of n], of "is"]
  have "mc_set ?c = set (window ?c)" using R by (simp add: cache_inv_def)
  moreover have "length (window ?c) \<le> cache_size n"
    using R window_length [of "cache_size n" ?c] by (auto simp: cache_inv_def)
  ultimately show ?thesis using R card_length [of "window ?c"] by (simp add: cache_inv_new(2))
qed

end
