(* ===== verification/Bot_Chat.thy ===== *)
theory Bot_Chat
  imports Dad Auto_Shout Stalk Dedupe Overlay_Relay
begin

text \<open>
  From a chat message to the handlers: the command tables (\<^verbatim>\<open>buildCommandMaps\<close> of \<^verbatim>\<open>twitchbot/bot.go\<close>,
  \<^verbatim>\<open>internal/libraries/commands\<close>, \<^verbatim>\<open>endpoints/bot/commands.go\<close>), the channels' own commands and
  capabilities (\<^verbatim>\<open>custom_commands.go\<close>, \<^verbatim>\<open>cmd_overlay.go\<close>) and the dispatch of a message
  (\<^verbatim>\<open>handleWebhookMessage\<close> of \<^verbatim>\<open>bot_read_message.go\<close>). Handlers are named by their key; what each
  does is modelled in its own theory.
\<close>

section \<open>The command table\<close>

record command_row =
  cr_trigger :: string
  cr_kind :: string
  cr_handler :: "string option"
  cr_response :: "string option"
  cr_scope :: string
  cr_channel :: "string option"
  cr_enabled :: bool
  cr_min_role :: string
  cr_requires :: "string option"

definition get_global_enabled_commands :: "faults \<Rightarrow> command_row table \<Rightarrow> unit + command_row list" where
  "get_global_enabled_commands fl t =
     (if fl 0 then Inl () else Inr (find_rows (\<lambda>r. cr_scope r = ''global'' \<and> cr_enabled r) t))"

definition get_channel_enabled_commands :: "faults \<Rightarrow> string \<Rightarrow> command_row table \<Rightarrow> unit + command_row list" where
  "get_channel_enabled_commands fl tid t =
     (if fl 0 then Inl ()
      else Inr (find_rows (\<lambda>r. cr_scope r = ''channel'' \<and> cr_channel r = Some tid \<and> cr_enabled r) t))"

definition capability_overlay :: string where
  "capability_overlay = ''overlay''"

text \<open>\<open>has_device\<close> is the answer of the overlay relay, \<open>Inl\<close> when its query fails.\<close>

definition get_channel_commands_endpoint ::
  "faults \<Rightarrow> 'e + bool \<Rightarrow> string \<Rightarrow> command_row table \<Rightarrow> (command_row list \<times> string list) http \<times> command_row table" where
  "get_channel_commands_endpoint fl has_device bid t =
     (if bid = [] then (Http_Bad_Request, t)
      else case get_channel_enabled_commands fl bid t of
        Inl _ \<Rightarrow> (Http_Server_Error, t)
      | Inr cmds \<Rightarrow>
          (Http_Ok (cmds, case has_device of Inl _ \<Rightarrow> [] | Inr b \<Rightarrow> if b then [capability_overlay] else []), t))"

section \<open>Built-in commands\<close>

definition builtin_registry :: "string list" where
  "builtin_registry =
     [''banish'', ''bread'', ''dad_roll'', ''fish'', ''join_me'', ''lurk'', ''pb_commands'', ''new_promo'', ''stalk'',
      ''overlay_beans'', ''overlay_name'', ''overlay_shake'', ''overlay_laser'', ''overlay_nuke'', ''overlay_zero_g'',
      ''overlay_grenade'', ''overlay_snow'']"

datatype build_error = Null_Handler string | Unknown_Handler string string | Trigger_Not_Lower string

type_synonym command_maps = "(string \<Rightarrow> string option) \<times> (string \<Rightarrow> string option)"

fun build_maps :: "command_row list \<Rightarrow> command_maps \<Rightarrow> build_error + command_maps" where
  "build_maps [] maps = Inr maps"
| "build_maps (row # rows) maps =
     (if cr_kind row \<noteq> ''builtin'' \<or> \<not> cr_enabled row then build_maps rows maps
      else case cr_handler row of
        None \<Rightarrow> Inl (Null_Handler (cr_trigger row))
      | Some key \<Rightarrow>
          if key \<notin> set builtin_registry then Inl (Unknown_Handler (cr_trigger row) key)
          else if cr_trigger row \<noteq> to_lower (cr_trigger row) then Inl (Trigger_Not_Lower (cr_trigger row))
          else build_maps rows
            ((fst maps)(cr_trigger row \<mapsto> key),
             case cr_requires row of
               None \<Rightarrow> snd maps
             | Some c \<Rightarrow> if c \<noteq> [] then (snd maps)(cr_trigger row \<mapsto> c) else snd maps))"

definition build_command_maps :: "command_row list \<Rightarrow> build_error + command_maps" where
  "build_command_maps rows = build_maps rows (\<lambda>_. None, \<lambda>_. None)"

section \<open>The bot\<close>

text \<open>What of the bot's memory its message and webhook handlers read and write.\<close>

record bot =
  bt_name :: string
  bt_id :: string
  bt_channels :: "bot_user list"
  bt_commands :: "string \<Rightarrow> string option"
  bt_requires :: "string \<Rightarrow> string option"
  bt_caps :: "string \<Rightarrow> string set option"
  bt_custom :: "string \<Rightarrow> (string \<Rightarrow> command_row option) option"
  bt_live :: "string \<Rightarrow> bool"
  bt_dad :: dad_usage
  bt_shouts :: shout_lists
  bt_watches :: watches
  bt_seen :: id_cache

text \<open>What a handler sends, starts in the background, or hands over to a command's own handler.\<close>

datatype bot_action =
    Say string string
  | Announce string string
  | Irc_Say string string
  | Irc_Join string
  | Irc_Depart string
  | Run_Builtin string chat_message
  | Run_New_Promo chat_message
  | Run_Stalk chat_message
  | Persist_Stalk persist_job
  | Persist_Shout string string
  | Load_Custom_Commands string string
  | Load_Stalk_Target string
  | Fetch_Auto_Shouts string string
  | Rehydrate_Dad string string
  | Push_State string bool
  | Notify_Discord string string
  | Try_Grant_Chat_Read string
  | Banish string string bool
  | Opt_Out string
  | Unsubscribe string
  | Join_New_User chat_message

section \<open>Capabilities and the channels' own commands\<close>

definition set_capabilities :: "string \<Rightarrow> string list \<Rightarrow> bot \<Rightarrow> bot" where
  "set_capabilities login caps b =
     b\<lparr> bt_caps := (bt_caps b)(to_lower login := (if caps = [] then None else Some (set caps))) \<rparr>"

definition drop_capabilities :: "string \<Rightarrow> bot \<Rightarrow> bot" where
  "drop_capabilities login b = b\<lparr> bt_caps := (bt_caps b)(to_lower login := None) \<rparr>"

definition channel_has :: "string \<Rightarrow> string \<Rightarrow> bot \<Rightarrow> bool" where
  "channel_has login capability b =
     (if capability = capability_overlay \<and> to_lower login = bot_creator_channel then True
      else case bt_caps b (to_lower login) of None \<Rightarrow> False | Some caps \<Rightarrow> capability \<in> caps)"

definition command_allowed_in :: "string \<Rightarrow> string \<Rightarrow> bot \<Rightarrow> bool" where
  "command_allowed_in login trigger b =
     (case bt_requires b trigger of None \<Rightarrow> True | Some required \<Rightarrow> channel_has login required b)"

fun custom_set :: "command_row list \<Rightarrow> (string \<Rightarrow> command_row option) \<Rightarrow> (string \<Rightarrow> command_row option)" where
  "custom_set [] m = m"
| "custom_set (row # rows) m =
     custom_set rows (if cr_response row = None then m else m(to_lower (cr_trigger row) \<mapsto> row))"

text \<open>\<open>answer\<close> is what the call to core-api returns, \<open>None\<close> when it fails.\<close>

definition load_custom_commands ::
  "(command_row list \<times> string list) option \<Rightarrow> string \<Rightarrow> bot \<Rightarrow> bot" where
  "load_custom_commands answer login b =
     (case answer of
        None \<Rightarrow> b
      | Some (rows, caps) \<Rightarrow>
          let b1 = set_capabilities login caps b; s = custom_set rows (\<lambda>_. None); key = to_lower login
          in b1\<lparr> bt_custom := (bt_custom b1)(key := (if filter (\<lambda>r. cr_response r \<noteq> None) rows = [] then None else Some s)) \<rparr>)"

definition drop_custom_commands :: "string \<Rightarrow> bot \<Rightarrow> bot" where
  "drop_custom_commands login b =
     drop_capabilities login (b\<lparr> bt_custom := (bt_custom b)(to_lower login := None) \<rparr>)"

definition custom_command_for :: "string \<Rightarrow> string \<Rightarrow> bot \<Rightarrow> command_row option" where
  "custom_command_for login trigger b =
     (case bt_custom b (to_lower login) of None \<Rightarrow> None | Some s \<Rightarrow> s (to_lower trigger))"

section \<open>Overlay commands\<close>

definition max_overlay_args :: nat where
  "max_overlay_args = 4"

definition max_overlay_arg_len :: nat where
  "max_overlay_arg_len = 32"

fun take_args :: "nat \<Rightarrow> string list \<Rightarrow> string list" where
  "take_args n [] = []"
| "take_args n (f # fs) =
     (if has_prefix ''!'' f then []
      else let a = (if length f > max_overlay_arg_len then take max_overlay_arg_len f else f)
           in if n + 1 = max_overlay_args then [a] else a # take_args (n + 1) fs)"

definition overlay_args :: "string \<Rightarrow> string \<Rightarrow> string list" where
  "overlay_args text trigger =
     (if trigger = [] then []
      else case dropWhile (\<lambda>f. \<not> equal_fold f trigger) (str_fields text) of
        [] \<Rightarrow> []
      | _ # rest \<Rightarrow> take_args 0 rest)"

definition dispatch_overlay_command :: "string \<Rightarrow> chat_message \<Rightarrow> dispatch_request option" where
  "dispatch_overlay_command action m =
     (if cm_message_id m = [] then None
      else Some \<lparr> dr_broadcaster = cm_broadcaster_id m, dr_dedupe_key = cm_message_id m @ '':'' @ action,
                  dr_action = action, dr_args = overlay_args (cm_text m) (cm_trigger m), dr_user_id = cm_chatter_id m,
                  dr_user_login = cm_chatter_login m, dr_user_name = cm_chatter_name m \<rparr>)"

section \<open>A message\<close>

text \<open>What one word of the message does.\<close>

definition dispatch_word :: "bot \<Rightarrow> chat_message \<Rightarrow> string \<Rightarrow> bot_action list" where
  "dispatch_word b m w =
     (let builtin = (case bt_commands b w of
                       None \<Rightarrow> None
                     | Some key \<Rightarrow> if command_allowed_in (cm_broadcaster_login m) w b then Some key else None)
      in case builtin of
           Some key \<Rightarrow> [Run_Builtin key (m\<lparr> cm_trigger := w \<rparr>)]
         | None \<Rightarrow>
             (case custom_command_for (cm_broadcaster_login m) w b of
                None \<Rightarrow> []
              | Some cmd \<Rightarrow>
                  (case cr_response cmd of
                     None \<Rightarrow> []
                   | Some text \<Rightarrow>
                       if meets_min_role m (cr_min_role cmd) then [Say (cm_broadcaster_id m) text] else [])))"

definition shout_actions :: "chat_message \<Rightarrow> bot_action list" where
  "shout_actions m =
     [Say (cm_broadcaster_id m) ([CHR 0xF0, CHR 0x9F, CHR 0x93, CHR 0xA2] @ '' Shoutout! was given to https://twitch.tv/'' @ cm_chatter_login m),
      Announce (cm_broadcaster_id m)
        (''Follow @'' @ cm_chatter_login m @ '' over at twitch.tv/'' @ cm_chatter_login m @ '' !''),
      Persist_Shout (cm_broadcaster_login m) (cm_chatter_name m)]"

definition handle_webhook_message :: "chat_message \<Rightarrow> bot \<Rightarrow> bot_action list \<times> bot" where
  "handle_webhook_message m b =
     (case seen (cm_message_id m) (bt_seen b) of
        (True, cache) \<Rightarrow> ([], b\<lparr> bt_seen := cache \<rparr>)
      | (False, cache) \<Rightarrow>
          let b1 = b\<lparr> bt_seen := cache \<rparr>
          in if cm_chatter_id m = bt_id b \<or> equal_fold (cm_chatter_login m) (bt_name b) then ([], b1)
             else
               (case remember_stalk_message (bt_name b) (cm_broadcaster_login m) (cm_chatter_login m)
                       (cm_chatter_name m) (cm_text m) (bt_watches b1) of
                  (watches, job) \<Rightarrow>
                    let b2 = b1\<lparr> bt_watches := watches \<rparr>;
                        remember = (case job of None \<Rightarrow> [] | Some j \<Rightarrow> [Persist_Stalk j]);
                        msg = to_lower (cm_text m)
                    in if has_prefix ''!newpromo '' msg then (remember @ [Run_New_Promo m], b2)
                       else if is_stalk_command msg then (remember @ [Run_Stalk m], b2)
                       else
                         let acts = remember @ concat (map (dispatch_word b2 m) (split_on CHR '' '' msg))
                         in (case auto_shout (cm_broadcaster_login m) (cm_chatter_name m) (bt_shouts b2) of
                               (due, ls) \<Rightarrow>
                                 (acts @ (if due then shout_actions m else []), b2\<lparr> bt_shouts := ls \<rparr>))))"

end
