(* ===== verification/Bot_Live.thy ===== *)
theory Bot_Live
  imports Bot_Chat
begin

text \<open>
  The life of a channel in the bot: streams that start and end and the EventSub webhook that reports them
  (\<^verbatim>\<open>twitchbot/bot_api.go\<close>), \<^verbatim>\<open>!banish\<close> (\<^verbatim>\<open>cmd_banish.go\<close>), \<^verbatim>\<open>!joinme\<close> (\<^verbatim>\<open>cmd_join.go\<close>), the IRC
  messages of channels that have not granted chat-read (\<^verbatim>\<open>handleMessage\<close> of \<^verbatim>\<open>bot.go\<close>) and the start
  of the bot. The answers of core-api and Twitch to the calls a handler makes are parameters.
\<close>

section \<open>Going live and offline\<close>

record stream_event =
  se_broadcaster :: string
  se_login :: string
  se_name :: string
  se_started :: string

definition set_live :: "string \<Rightarrow> bool \<Rightarrow> bot \<Rightarrow> bot" where
  "set_live login live b = b\<lparr> bt_live := (bt_live b)(to_lower login := live) \<rparr>"

definition is_channel_live :: "string \<Rightarrow> bot \<Rightarrow> bool" where
  "is_channel_live login0 b =
     (let login = to_lower login0
      in if is_permanent_channel (bt_name b) login then True else bt_live b login)"

text \<open>
  \<open>opted\<close> answers whether the channel has opted in, \<open>fetched\<close> who is still to be shouted out; \<open>None\<close> is a
  failed call.
\<close>

definition handle_go_live ::
  "bool option \<Rightarrow> string list option \<Rightarrow> stream_event \<Rightarrow> bot \<Rightarrow> bot_action list \<times> bot" where
  "handle_go_live opted fetched ev b =
     (let login = to_lower (se_login ev)
      in if \<not> is_permanent_channel (bt_name b) login \<and> \<not> is_tracked_channel login (bt_channels b) \<and> opted = Some False
         then ([], b)
         else
           let b1 = set_live (se_login ev) True b;
               b2 = b1\<lparr> bt_shouts := (bt_shouts b1)(se_login ev \<mapsto> (case fetched of None \<Rightarrow> [] | Some cs \<Rightarrow> cs)) \<rparr>;
               b3 = b2\<lparr> bt_dad := start_dad_stream (se_login ev) (se_started ev) (bt_dad b2) \<rparr>
           in ([Push_State (se_login ev) True, Irc_Join (se_login ev),
                Say (se_broadcaster ev) ''p nut budder is here!'',
                Load_Custom_Commands (se_broadcaster ev) (se_login ev), Load_Stalk_Target (se_login ev),
                Notify_Discord (se_name ev) (se_login ev)], b3))"

definition handle_go_offline :: "stream_event \<Rightarrow> bot \<Rightarrow> bot_action list \<times> bot" where
  "handle_go_offline ev b =
     (let b1 = set_live (se_login ev) False b;
          b2 = b1\<lparr> bt_dad := end_dad_stream (se_login ev) (bt_dad b1) \<rparr>;
          b3 = drop_custom_commands (se_login ev) b2;
          b4 = b3\<lparr> bt_watches := drop_stalk_target (se_login ev) (bt_watches b3) \<rparr>
      in (Push_State (se_login ev) False #
            (if is_permanent_channel (bt_name b) (se_login ev) then [] else [Irc_Depart (to_lower (se_login ev))]),
          b4))"

section \<open>The webhook\<close>

text \<open>A delivery after decoding: its subscription and, when it decodes, its event.\<close>

record bot_notification =
  bn_type :: string
  bn_condition_broadcaster :: string
  bn_challenge :: string
  bn_stream :: "stream_event option"
  bn_chat :: "chat_message option"

datatype hook_reply = Hook_Status nat | Hook_Text string

definition bot_eventsub_endpoint ::
  "(string \<Rightarrow> string \<Rightarrow> string) \<Rightarrow> string \<Rightarrow> (string \<Rightarrow> bot_notification option) \<Rightarrow> (string \<Rightarrow> bool option)
     \<Rightarrow> (string \<Rightarrow> string list option) \<Rightarrow> headers \<Rightarrow> string option \<Rightarrow> bot \<Rightarrow> hook_reply \<times> bot_action list \<times> bot" where
  "bot_eventsub_endpoint hmac secret decode opted fetched h body b =
     (case body of
        None \<Rightarrow> (Hook_Status 400, [], b)
      | Some raw \<Rightarrow>
          if \<not> verify_signature hmac h raw secret then (Hook_Status 403, [], b)
          else (case decode raw of
                  None \<Rightarrow> (Hook_Status 400, [], b)
                | Some n \<Rightarrow>
                    if hd_message_type h = ''notification'' then
                      (if bn_type n = ''stream.online'' then
                         (case bn_stream n of
                            None \<Rightarrow> (Hook_Status 204, [], b)
                          | Some ev \<Rightarrow>
                              (Hook_Status 204,
                               handle_go_live (opted (to_lower (se_login ev))) (fetched (se_broadcaster ev)) ev b))
                       else if bn_type n = ''stream.offline'' then
                         (case bn_stream n of
                            None \<Rightarrow> (Hook_Status 204, [], b)
                          | Some ev \<Rightarrow> (Hook_Status 204, handle_go_offline ev b))
                       else if bn_type n = ''channel.chat.message'' then
                         (case bn_chat n of
                            None \<Rightarrow> (Hook_Status 204, [], b)
                          | Some m \<Rightarrow> (Hook_Status 204, handle_webhook_message m b))
                       else (Hook_Status 204, [], b))
                    else if hd_message_type h = ''webhook_callback_verification'' then (Hook_Text (bn_challenge n), [], b)
                    else if hd_message_type h = ''revocation'' then
                      (Hook_Status 204, [],
                       if bn_type n = chat_read_sub_type \<and> bn_condition_broadcaster n \<noteq> []
                       then b\<lparr> bt_channels := set_channel_privs_by_id (bn_condition_broadcaster n) False (bt_channels b) \<rparr>
                       else b)
                    else (Hook_Status 400, [], b)))"

text \<open>core-api's request to join a channel (behind the HMAC middleware); \<open>None\<close> is a body that does not bind.\<close>

definition join_channel_endpoint :: "string option \<Rightarrow> hook_reply \<times> bot_action list" where
  "join_channel_endpoint req =
     (case req of
        None \<Rightarrow> (Hook_Status 400, [])
      | Some login \<Rightarrow> if login = [] then (Hook_Status 400, []) else (Hook_Status 204, [Irc_Join (to_lower login)]))"

section \<open>Leaving\<close>

definition is_banish_command :: "string \<Rightarrow> bool" where
  "is_banish_command msg \<longleftrightarrow> msg = ''!banish'' \<or> has_prefix ''!banish '' msg"

definition not_leaving :: string where
  "not_leaving = ''not leaving this one '' @ [CHR 0xF0, CHR 0x9F, CHR 0x98, CHR 0xA4]"

definition im_out :: string where
  "im_out = ''aight, I'm out '' @ [CHR 0xE2, CHR 0x9C, CHR 0x8C, CHR 0xEF, CHR 0xB8, CHR 0x8F]"

definition handle_banish_command :: "chat_message \<Rightarrow> bot \<Rightarrow> bot_action list" where
  "handle_banish_command m b =
     (if \<not> is_mod_or_broadcaster m then []
      else if is_permanent_channel (bt_name b) (cm_broadcaster_login m)
        then [Say (cm_broadcaster_id m) not_leaving]
      else [Banish (cm_broadcaster_login m) (cm_broadcaster_id m) True])"

text \<open>\<open>listing\<close> is Twitch's list of subscriptions, \<open>None\<close> when it cannot be had.\<close>

definition unsubscribe_channel_webhooks :: "subscription list option \<Rightarrow> string \<Rightarrow> bot_action list" where
  "unsubscribe_channel_webhooks listing channel_id =
     (case listing of
        None \<Rightarrow> []
      | Some subs \<Rightarrow> map (\<lambda>s. Unsubscribe (sub_id s)) (filter (\<lambda>s. sub_broadcaster s = channel_id) subs))"

definition banish_channel ::
  "subscription list option \<Rightarrow> string \<Rightarrow> string \<Rightarrow> bool \<Rightarrow> bot \<Rightarrow> bot_action list \<times> bot" where
  "banish_channel listing channel0 channel_id via_helix b =
     (let channel = to_lower channel0;
          bye = (if via_helix \<and> channel_id \<noteq> [] then Say channel_id im_out else Irc_Say channel im_out);
          b1 = set_live channel False b
      in ([bye, Irc_Depart channel] @ (if channel_id \<noteq> [] then unsubscribe_channel_webhooks listing channel_id else []) @
            [Opt_Out channel],
          b1\<lparr> bt_channels := filter (\<lambda>c. us_login c = None \<or> us_login c \<noteq> Some channel) (bt_channels b1) \<rparr>))"

section \<open>IRC\<close>

record irc_message =
  im_id :: string
  im_channel :: string
  im_room :: string
  im_user_id :: string
  im_user_name :: string
  im_display_name :: string
  im_broadcaster :: bool
  im_mod :: bool
  im_text :: string

definition chat_read_nudge :: "bot \<Rightarrow> string" where
  "chat_read_nudge b = ''psst '' @ [CHR 0xE2, CHR 0x80, CHR 0x94] @ '' mod me with /mod @'' @ bt_name b @
     '' so I can read chat through Twitch's API instead of this legacy connection '' @
     [CHR 0xF0, CHR 0x9F, CHR 0x99, CHR 0x8F]"

definition is_bot_irc_user :: "irc_message \<Rightarrow> bot \<Rightarrow> bool" where
  "is_bot_irc_user m b \<longleftrightarrow>
     (trim_space (bt_id b) \<noteq> [] \<and> im_user_id m = trim_space (bt_id b)) \<or>
     equal_fold (im_user_name m) (bt_name b) \<or> equal_fold (im_display_name m) (bt_name b)"

definition handle_irc_banish :: "irc_message \<Rightarrow> bot \<Rightarrow> bot_action list" where
  "handle_irc_banish m b =
     (if \<not> im_broadcaster m \<and> \<not> im_mod m \<and> im_user_id m \<noteq> im_room m then []
      else if is_permanent_channel (bt_name b) (im_channel m) then [Irc_Say (im_channel m) not_leaving]
      else [Banish (im_channel m) (im_room m) False])"

definition handle_irc_message :: "irc_message \<Rightarrow> id_cache \<Rightarrow> bot \<Rightarrow> bot_action list \<times> id_cache" where
  "handle_irc_message m cache b =
     (if is_bot_irc_user m b \<or> trim_space (im_text m) = chat_read_nudge b then ([], cache)
      else
        (case (if im_id m = [] then (False, cache) else seen (im_id m) cache) of
           (True, cache') \<Rightarrow> ([], cache')
         | (False, cache') \<Rightarrow>
             let msg = trim_space (to_lower (im_text m))
             in if is_banish_command msg then
                  (if channel_has_privs (im_channel m) (bt_channels b) then [] else handle_irc_banish m b, cache')
                else if is_permanent_channel (bt_name b) (im_channel m) \<or> channel_has_privs (im_channel m) (bt_channels b)
                  then ([], cache')
                else if \<exists>w \<in> set (split_on CHR '' '' msg).
                          bt_commands b w \<noteq> None \<or>
                          (case custom_command_for (im_channel m) w b of None \<Rightarrow> False | Some c \<Rightarrow> cr_response c \<noteq> None)
                  then ([Irc_Say (im_channel m) (chat_read_nudge b), Try_Grant_Chat_Read (im_channel m)], cache')
                else ([], cache')))"

section \<open>Joining\<close>

definition mentions_bot :: "string \<Rightarrow> string \<Rightarrow> bool" where
  "mentions_bot text bot_name = contains_str (to_lower text) (''@'' @ to_lower bot_name)"

definition handle_join_command :: "chat_message \<Rightarrow> bot \<Rightarrow> bot_action list" where
  "handle_join_command m b =
     (if is_permanent_channel (bt_name b) (cm_chatter_login m) then []
      else if \<not> is_permanent_channel (bt_name b) (cm_broadcaster_login m) \<and> \<not> mentions_bot (cm_text m) (bt_name b) then []
      else [Join_New_User m])"

text \<open>
  The goroutine of a join in its two critical sections: the claim, and the end, with the new user if
  Twitch's profile and core-api's row were to be had. Claims and ends of different goroutines interleave.
\<close>

record joins =
  jn_channels :: "bot_user list"
  jn_in_flight :: "string \<Rightarrow> bool"

definition claim_join :: "string \<Rightarrow> joins \<Rightarrow> bool \<times> joins" where
  "claim_join chatter s =
     (if \<exists>u \<in> set (jn_channels s). us_twitch_id u = Some chatter then (False, s)
      else if jn_in_flight s chatter then (False, s)
      else (True, s\<lparr> jn_in_flight := (jn_in_flight s)(chatter := True) \<rparr>))"

definition new_joined_user :: "twitch_profile \<Rightarrow> bool \<Rightarrow> bot_user" where
  "new_joined_user p live = bot_user_of (new_twitch_user p)\<lparr> us_live := live \<rparr>"

text \<open>\<open>profile\<close> and \<open>live\<close> are Twitch's answers, \<open>created\<close> whether core-api stored the user.\<close>

definition end_join :: "twitch_profile option \<Rightarrow> bool \<Rightarrow> bool \<Rightarrow> string \<Rightarrow> joins \<Rightarrow> joins" where
  "end_join profile live created chatter s =
     (let s1 = (case profile of
                  None \<Rightarrow> s
                | Some p \<Rightarrow> if created then s\<lparr> jn_channels := jn_channels s @ [new_joined_user p live] \<rparr> else s)
      in s1\<lparr> jn_in_flight := (jn_in_flight s1)(chatter := False) \<rparr>)"

section \<open>Starting\<close>

definition start_channel_actions :: "bot_user \<Rightarrow> bot_action list" where
  "start_channel_actions c =
     (case us_login c of
        None \<Rightarrow> []
      | Some login \<Rightarrow>
          if us_live c
          then [Irc_Join login] @
               (case us_twitch_id c of None \<Rightarrow> [] 
                | Some i \<Rightarrow> [Fetch_Auto_Shouts i login, Rehydrate_Dad login i, Load_Custom_Commands i login]) @ [Load_Stalk_Target login]
          else [])"

text \<open>What the start of the bot does before its loops run: who is live, and where it goes.\<close>

definition start_bot :: "bot \<Rightarrow> bot_action list \<times> bot" where
  "start_bot b =
     (concat (map start_channel_actions (bt_channels b)) @ [Irc_Join bot_creator_channel, Irc_Join (to_lower (bt_name b))],
      fold (\<lambda>c b. case us_login c of None \<Rightarrow> b | Some login \<Rightarrow> set_live login (us_live c) b)
        (bt_channels b) (b\<lparr> bt_shouts := (\<lambda>_. None) \<rparr>))"

end
