(* ===== verification/Bot_Chat_Properties.thy ===== *)
theory Bot_Chat_Properties
  imports Bot_Chat
begin

text \<open>
  Which handlers a message reaches: every command that boot accepted can be typed, a gated one runs only
  where its capability is held, the body of a recurring message is not scanned, and what an overlay gets
  as arguments is bounded.
\<close>

section \<open>The words of a message\<close>

lemma split_acc_first: "c \<notin> set w \<Longrightarrow> split_acc c a (w @ c # rest) = (rev a @ w) # split_acc c [] rest"
  by (induction w arbitrary: a) auto

lemma split_acc_only: "c \<notin> set w \<Longrightarrow> split_acc c a w = [rev a @ w]"
  by (induction w arbitrary: a) auto

lemma split_acc_suffix: "set (split_acc c [] rest) \<subseteq> set (split_acc c a (pre @ c # rest))"
proof (induction pre arbitrary: a)
  case (Cons x pre)
  show ?case
  proof (cases "x = c")
    case True
    then show ?thesis using Cons.IH [of "[]"] by auto
  next
    case False
    then show ?thesis using Cons.IH [of "x # a"] by simp
  qed
qed auto

text \<open>A word between blanks (or the ends of the message) is one of the words.\<close>

definition stands_in :: "string \<Rightarrow> string \<Rightarrow> bool" where
  "stands_in w text \<longleftrightarrow> (\<exists>pre post. text = pre @ w @ post \<and>
     (pre = [] \<or> last pre = CHR '' '') \<and> (post = [] \<or> hd post = CHR '' ''))"

lemma stands_in_split:
  assumes "stands_in w text" and "CHR '' '' \<notin> set w"
  shows "w \<in> set (split_on CHR '' '' text)"
proof -
  obtain pre post where t: "text = pre @ w @ post" "pre = [] \<or> last pre = CHR '' ''" "post = [] \<or> hd post = CHR '' ''"
    using assms(1) unfolding stands_in_def by blast
  have w: "w \<in> set (split_acc CHR '' '' [] (w @ post))"
  proof (cases post)
    case Nil
    then show ?thesis using split_acc_only [OF assms(2), of "[]"] by simp
  next
    case (Cons c rest)
    then show ?thesis using t(3) split_acc_first [OF assms(2), of "[]" rest] by simp
  qed
  show ?thesis
  proof (cases "pre = []")
    case True
    then show ?thesis using w t(1) by (simp add: split_on_def)
  next
    case False
    then obtain p where "pre = p @ [CHR '' '']" using t(2) by (metis append_butlast_last_id)
    then show ?thesis using w t(1) split_acc_suffix [of "CHR '' ''" "w @ post" "[]" p] by (auto simp: split_on_def)
  qed
qed

lemma stands_in_lower: "stands_in w text \<Longrightarrow> stands_in (to_lower w) (to_lower text)"
proof -
  have sp: "lower_char CHR '' '' = CHR '' ''" by (simp add: lower_char_def code_of_def)
  assume "stands_in w text"
  then obtain pre post where t: "text = pre @ w @ post" "pre = [] \<or> last pre = CHR '' ''" "post = [] \<or> hd post = CHR '' ''"
    unfolding stands_in_def by blast
  have "to_lower text = to_lower pre @ to_lower w @ to_lower post" by (simp add: t(1) to_lower_def)
  moreover have "to_lower pre = [] \<or> last (to_lower pre) = CHR '' ''"
    using t(2) sp by (cases "pre = []") (simp_all add: to_lower_def last_map)
  moreover have "to_lower post = [] \<or> hd (to_lower post) = CHR '' ''"
    using t(3) sp by (cases post) (simp_all add: to_lower_def)
  ultimately show ?thesis unfolding stands_in_def by blast
qed

section \<open>The command table\<close>

definition loadable :: "command_row \<Rightarrow> bool" where
  "loadable row \<longleftrightarrow> cr_kind row = ''builtin'' \<and> cr_enabled row"

lemma build_maps_spec:
  assumes "build_maps rows maps = Inr (cmds, req)"
  shows "cmds t = Some key \<Longrightarrow> fst maps t = Some key \<or>
      (\<exists>row \<in> set rows. loadable row \<and> cr_trigger row = t \<and> cr_handler row = Some key \<and> key \<in> set builtin_registry)"
    and "row \<in> set rows \<Longrightarrow> loadable row \<Longrightarrow> cmds (cr_trigger row) \<noteq> None \<and> to_lower (cr_trigger row) = cr_trigger row"
    and "fst maps t \<noteq> None \<Longrightarrow> cmds t \<noteq> None"
proof -
  have "(\<forall>t key. cmds t = Some key \<longrightarrow> fst maps t = Some key \<or>
      (\<exists>row \<in> set rows. loadable row \<and> cr_trigger row = t \<and> cr_handler row = Some key \<and> key \<in> set builtin_registry)) \<and>
    (\<forall>row \<in> set rows. loadable row \<longrightarrow> cmds (cr_trigger row) \<noteq> None \<and> to_lower (cr_trigger row) = cr_trigger row) \<and>
    (\<forall>t. fst maps t \<noteq> None \<longrightarrow> cmds t \<noteq> None)"
    using assms
  proof (induction rows arbitrary: maps)
    case (Cons row rows)
    show ?case
    proof (cases "loadable row")
      case False
      then have "build_maps rows maps = Inr (cmds, req)" using Cons.prems by (simp add: loadable_def split: if_splits)
      from Cons.IH [OF this] show ?thesis using False by auto
    next
      case True
      let ?req = "case cr_requires row of None \<Rightarrow> snd maps
        | Some c \<Rightarrow> if c \<noteq> [] then (snd maps)(cr_trigger row \<mapsto> c) else snd maps"
      obtain key where key: "cr_handler row = Some key" "key \<in> set builtin_registry" "to_lower (cr_trigger row) = cr_trigger row"
        and rest: "build_maps rows ((fst maps)(cr_trigger row \<mapsto> key), ?req) = Inr (cmds, req)"
        using True Cons.prems by (simp add: loadable_def split: option.splits if_splits)
      have IH: "cmds t = Some k \<Longrightarrow> ((fst maps)(cr_trigger row \<mapsto> key)) t = Some k \<or>
          (\<exists>row \<in> set rows. loadable row \<and> cr_trigger row = t \<and> cr_handler row = Some k \<and> k \<in> set builtin_registry)"
        "r \<in> set rows \<Longrightarrow> loadable r \<Longrightarrow> cmds (cr_trigger r) \<noteq> None \<and> to_lower (cr_trigger r) = cr_trigger r"
        "((fst maps)(cr_trigger row \<mapsto> key)) t \<noteq> None \<Longrightarrow> cmds t \<noteq> None" for t k r
        using Cons.IH [OF rest] by (simp_all only: fst_conv) blast+
      have "cmds t = Some k \<Longrightarrow> fst maps t = Some k \<or>
          (\<exists>r \<in> set (row # rows). loadable r \<and> cr_trigger r = t \<and> cr_handler r = Some k \<and> k \<in> set builtin_registry)" for t k
        using IH(1) [of t k] key(1,2) True by (cases "t = cr_trigger row") auto
      moreover have "cmds (cr_trigger r) \<noteq> None \<and> to_lower (cr_trigger r) = cr_trigger r"
        if "r \<in> set (row # rows)" "loadable r" for r
        using that IH(2) [of r] IH(3) [of "cr_trigger row"] key(3) by auto
      moreover have "cmds t \<noteq> None" if "fst maps t \<noteq> None" for t
        using that IH(3) [of t] by (cases "t = cr_trigger row") auto
      ultimately show ?thesis by blast
    qed
  qed auto
  then show "cmds t = Some key \<Longrightarrow> fst maps t = Some key \<or>
      (\<exists>row \<in> set rows. loadable row \<and> cr_trigger row = t \<and> cr_handler row = Some key \<and> key \<in> set builtin_registry)"
    "row \<in> set rows \<Longrightarrow> loadable row \<Longrightarrow> cmds (cr_trigger row) \<noteq> None \<and> to_lower (cr_trigger row) = cr_trigger row"
    "fst maps t \<noteq> None \<Longrightarrow> cmds t \<noteq> None" by blast+
qed

section \<open>Dispatch\<close>

text \<open>The messages whose words are scanned: first deliveries, not the bot's own, with no up-front command.\<close>

definition scanned :: "chat_message \<Rightarrow> bot \<Rightarrow> bool" where
  "scanned m b \<longleftrightarrow> \<not> fst (seen (cm_message_id m) (bt_seen b)) \<and>
     cm_chatter_id m \<noteq> bt_id b \<and> \<not> equal_fold (cm_chatter_login m) (bt_name b) \<and>
     \<not> has_prefix ''!newpromo '' (to_lower (cm_text m)) \<and> \<not> is_stalk_command (to_lower (cm_text m))"

lemma dispatch_word_frame [frame_simps]:
  "dispatch_word (b\<lparr> bt_seen := c, bt_watches := w \<rparr>) m x = dispatch_word b m x"
  by (simp add: dispatch_word_def command_allowed_in_def channel_has_def custom_command_for_def
      cong: option.case_cong if_cong)

lemma run_builtin_iff:
  "Run_Builtin key m' \<in> set (fst (handle_webhook_message m b)) \<longleftrightarrow>
     scanned m b \<and> (\<exists>w \<in> set (split_on CHR '' '' (to_lower (cm_text m))). Run_Builtin key m' \<in> set (dispatch_word b m w))"
proof -
  obtain dup cache where c: "seen (cm_message_id m) (bt_seen b) = (dup, cache)" by (meson surj_pair)
  obtain ws job where r: "remember_stalk_message (bt_name b) (cm_broadcaster_login m) (cm_chatter_login m)
      (cm_chatter_name m) (cm_text m) (bt_watches b) = (ws, job)" by (meson surj_pair)
  let ?job = "case job of None \<Rightarrow> [] | Some j \<Rightarrow> [Persist_Stalk j]"
  obtain due ls where a: "auto_shout (cm_broadcaster_login m) (cm_chatter_name m) (bt_shouts b) = (due, ls)"
    by (meson surj_pair)
  have "Run_Builtin key m' \<notin> set ?job" "Run_Builtin key m' \<notin> set (if due then shout_actions m else [])"
    by (auto simp: shout_actions_def split: option.splits)
  then show ?thesis
    by (cases dup) (auto simp: handle_webhook_message_def scanned_def c r a Let_def frame_simps)
qed

lemma dispatch_word_builtin:
  "Run_Builtin key m' \<in> set (dispatch_word b m w) \<longleftrightarrow>
     bt_commands b w = Some key \<and> command_allowed_in (cm_broadcaster_login m) w b \<and> m' = m\<lparr> cm_trigger := w \<rparr>"
  by (auto simp: dispatch_word_def Let_def split: option.splits if_splits)

text \<open>
  Every command that passes the boot check can be used: typed in any case, anywhere in a message
  that is scanned, between blanks, in a channel that may use it, an enabled built-in's trigger runs a
  compiled handler that a row of the table names for that trigger.
\<close>

theorem loaded_command_fires:
  assumes "build_command_maps rows = Inr (bt_commands b, bt_requires b)"
    and "row \<in> set rows" and "cr_kind row = ''builtin''" and "cr_enabled row"
    and "stands_in w (cm_text m)" and "to_lower w = cr_trigger row" and "CHR '' '' \<notin> set w"
    and "scanned m b" and "command_allowed_in (cm_broadcaster_login m) (cr_trigger row) b"
  shows "\<exists>key \<in> set builtin_registry. \<exists>r \<in> set rows. cr_trigger r = cr_trigger row \<and> cr_handler r = Some key \<and>
    Run_Builtin key (m\<lparr> cm_trigger := cr_trigger row \<rparr>) \<in> set (fst (handle_webhook_message m b))"
proof -
  have bm: "build_maps rows (\<lambda>_. None, \<lambda>_. None) = Inr (bt_commands b, bt_requires b)"
    using assms(1) by (simp add: build_command_maps_def)
  have "loadable row" using assms(3,4) by (simp add: loadable_def)
  then obtain key where key: "bt_commands b (cr_trigger row) = Some key"
    using build_maps_spec(2) [OF bm assms(2)] by auto
  obtain r where r: "r \<in> set rows" "cr_trigger r = cr_trigger row" "cr_handler r = Some key" "key \<in> set builtin_registry"
    using build_maps_spec(1) [OF bm key] by auto
  have sp: "c = CHR '' ''" if a: "lower_char c = CHR '' ''" for c
  proof (rule ccontr)
    assume n: "c \<noteq> CHR '' ''"
    then have c: "char_of (code_of c + 32) = CHR '' ''" "code_of c \<le> 90" "65 \<le> code_of c"
      using a by (auto simp: lower_char_def split: if_splits)
    have "(code_of c + 32) mod 256 = code_of (CHR '' '')"
      unfolding c(1) [symmetric] by (simp add: code_of_def)
    then show False using c(2,3) by (simp add: code_of_def)
  qed
  have "CHR '' '' \<notin> set (to_lower w)" using assms(7) sp by (metis (no_types) imageE list.set_map to_lower_def)
  then have "cr_trigger row \<in> set (split_on CHR '' '' (to_lower (cm_text m)))"
    using stands_in_split [OF stands_in_lower [OF assms(5)]] assms(6) by simp
  then have "Run_Builtin key (m\<lparr> cm_trigger := cr_trigger row \<rparr>) \<in> set (fst (handle_webhook_message m b))"
    unfolding run_builtin_iff using assms(8,9) key dispatch_word_builtin by blast
  then show ?thesis using r by blast
qed

text \<open>
  What the tables a bot was given say a word does in a channel: \<open>rows\<close> are the global commands its boot
  loaded, \<open>own\<close> the commands and \<open>held\<close> the capabilities core-api listed for the channel. Where several
  rows name one trigger the last counts.
\<close>

definition row_of :: "command_row list \<Rightarrow> string \<Rightarrow> command_row option" where
  "row_of rows w = List.find (\<lambda>r. loadable r \<and> cr_trigger r = w) (rev rows)"

definition needed_capability :: "command_row list \<Rightarrow> string \<Rightarrow> string option" where
  "needed_capability rows w =
     (case List.find (\<lambda>r. loadable r \<and> cr_trigger r = w \<and> cr_requires r \<notin> {None, Some []}) (rev rows) of
        None \<Rightarrow> None | Some r \<Rightarrow> cr_requires r)"

definition own_command :: "command_row list \<Rightarrow> string \<Rightarrow> command_row option" where
  "own_command own w = List.find (\<lambda>r. cr_response r \<noteq> None \<and> to_lower (cr_trigger r) = to_lower w) (rev own)"

definition capability_held :: "string list \<Rightarrow> string \<Rightarrow> string \<Rightarrow> bool" where
  "capability_held held login c \<longleftrightarrow> c \<in> set held \<or> (c = capability_overlay \<and> to_lower login = bot_creator_channel)"

definition word_answer ::
  "command_row list \<Rightarrow> command_row list \<Rightarrow> string list \<Rightarrow> chat_message \<Rightarrow> string \<Rightarrow> bot_action list" where
  "word_answer rows own held m w =
     (if row_of rows w \<noteq> None \<and>
         (case needed_capability rows w of None \<Rightarrow> True | Some c \<Rightarrow> capability_held held (cm_broadcaster_login m) c)
      then [Run_Builtin (the (cr_handler (the (row_of rows w)))) (m\<lparr> cm_trigger := w \<rparr>)]
      else case own_command own w of
             None \<Rightarrow> []
           | Some r \<Rightarrow>
               if meets_min_role m (cr_min_role r) then [Say (cm_broadcaster_id m) (the (cr_response r))] else [])"

lemma find_snoc [simp]:
  "List.find P (xs @ [x]) = (case List.find P xs of None \<Rightarrow> if P x then Some x else None | Some y \<Rightarrow> Some y)"
  by (induction xs) auto

lemma custom_set_own:
  "custom_set own s t =
     (case List.find (\<lambda>r. cr_response r \<noteq> None \<and> to_lower (cr_trigger r) = t) (rev own) of
        None \<Rightarrow> s t | Some r \<Rightarrow> Some r)"
  by (induction own arbitrary: s) (auto split: option.splits)

lemma own_command_response: "own_command own w = Some r \<Longrightarrow> cr_response r \<noteq> None"
  by (auto simp: own_command_def find_Some_iff)

lemma build_maps_rows:
  assumes "build_maps rows maps = Inr (cmds, req)"
  shows "cmds t = (case row_of rows t of None \<Rightarrow> fst maps t | Some r \<Rightarrow> cr_handler r) \<and>
    (row_of rows t \<noteq> None \<longrightarrow> cr_handler (the (row_of rows t)) \<noteq> None) \<and>
    req t = (case needed_capability rows t of None \<Rightarrow> snd maps t | Some c \<Rightarrow> Some c)"
  using assms
proof (induction rows arbitrary: maps)
  case Nil
  then show ?case by (auto simp: row_of_def needed_capability_def)
next
  case (Cons row rows)
  show ?case
  proof (cases "loadable row")
    case False
    then have "build_maps rows maps = Inr (cmds, req)" using Cons.prems by (simp add: loadable_def split: if_splits)
    moreover have "row_of (row # rows) t = row_of rows t" "needed_capability (row # rows) t = needed_capability rows t"
      using False by (simp_all add: row_of_def needed_capability_def split: option.splits)
    ultimately show ?thesis using Cons.IH by simp
  next
    case True
    let ?req = "case cr_requires row of None \<Rightarrow> snd maps
      | Some c \<Rightarrow> if c \<noteq> [] then (snd maps)(cr_trigger row \<mapsto> c) else snd maps"
    obtain key where key: "cr_handler row = Some key"
      and rest: "build_maps rows ((fst maps)(cr_trigger row \<mapsto> key), ?req) = Inr (cmds, req)"
      using True Cons.prems by (simp add: loadable_def split: option.splits if_splits)
    have r: "row_of (row # rows) t = (case row_of rows t of None \<Rightarrow> if cr_trigger row = t then Some row else None | Some r \<Rightarrow> Some r)"
      using True by (simp add: row_of_def split: option.splits)
    have n: "needed_capability (row # rows) t =
        (case needed_capability rows t of
           None \<Rightarrow> if cr_trigger row = t \<and> cr_requires row \<noteq> Some [] then cr_requires row else None | Some c \<Rightarrow> Some c)"
    proof -
      define P where "P = (\<lambda>r. loadable r \<and> cr_trigger r = t \<and> cr_requires r \<notin> {None, Some []})"
      have found: "cr_requires r \<noteq> None" if "List.find P xs = Some r" for xs r
        using that by (auto simp: find_Some_iff P_def)
      have def: "needed_capability rs t = (case List.find P (rev rs) of None \<Rightarrow> None | Some r \<Rightarrow> cr_requires r)" for rs
        by (simp add: needed_capability_def P_def)
      have "P row \<longleftrightarrow> cr_trigger row = t \<and> cr_requires row \<notin> {None, Some []}" using True by (simp add: P_def)
      then show ?thesis unfolding def using found [of "rev rows"] by (auto split: option.splits)
    qed
    show ?thesis unfolding r n using Cons.IH [OF rest] key by (auto split: option.splits if_splits)
  qed
qed

text \<open>The bot's memory of a channel after its lists were loaded, and after they were dropped.\<close>

lemma loaded_lookups:
  "bt_commands (load_custom_commands (Some (own, held)) login b) = bt_commands b"
  "bt_requires (load_custom_commands (Some (own, held)) login b) = bt_requires b"
  "channel_has login c (load_custom_commands (Some (own, held)) login b) = capability_held held login c"
  "custom_command_for login w (load_custom_commands (Some (own, held)) login b) = own_command own w"
proof -
  show "custom_command_for login w (load_custom_commands (Some (own, held)) login b) = own_command own w"
  proof (cases "filter (\<lambda>r. cr_response r \<noteq> None) own = []")
    case True
    then have "own_command own w = None" by (auto simp: own_command_def find_None_iff filter_empty_conv)
    then show ?thesis using True by (simp add: load_custom_commands_def Let_def custom_command_for_def)
  next
    case False
    then show ?thesis
      by (simp add: load_custom_commands_def Let_def custom_command_for_def custom_set_own own_command_def split: option.splits)
  qed
qed (auto simp: load_custom_commands_def Let_def set_capabilities_def channel_has_def capability_held_def)

lemma dropped_lookups:
  "bt_commands (drop_custom_commands login b) = bt_commands b"
  "bt_requires (drop_custom_commands login b) = bt_requires b"
  "channel_has login c (drop_custom_commands login b) = capability_held [] login c"
  "custom_command_for login w (drop_custom_commands login b) = own_command [] w"
  by (simp_all add: drop_custom_commands_def drop_capabilities_def channel_has_def capability_held_def
      custom_command_for_def own_command_def)

lemma dispatch_word_answer:
  assumes "build_command_maps rows = Inr (bt_commands b, bt_requires b)"
    and "\<And>c. channel_has (cm_broadcaster_login m) c b = capability_held held (cm_broadcaster_login m) c"
    and "custom_command_for (cm_broadcaster_login m) w b = own_command own w"
  shows "dispatch_word b m w = word_answer rows own held m w"
proof -
  have maps: "bt_commands b w = (case row_of rows w of None \<Rightarrow> None | Some r \<Rightarrow> cr_handler r)"
    "row_of rows w \<noteq> None \<Longrightarrow> cr_handler (the (row_of rows w)) \<noteq> None" "bt_requires b w = needed_capability rows w"
    using build_maps_rows [OF assms(1) [unfolded build_command_maps_def], of w] by (simp_all split: option.splits)
  have resp: "cr_response r \<noteq> None" if "own_command own w = Some r" for r using own_command_response [OF that] .
  have allowed: "command_allowed_in (cm_broadcaster_login m) w b \<longleftrightarrow>
      (case needed_capability rows w of None \<Rightarrow> True | Some c \<Rightarrow> capability_held held (cm_broadcaster_login m) c)"
    by (simp add: command_allowed_in_def maps(3) assms(2) split: option.splits)
  show ?thesis
    unfolding dispatch_word_def word_answer_def allowed maps(1) assms(3) using maps(2) resp
    by (auto simp: Let_def split: option.splits)
qed

lemma message_actions:
  assumes "scanned m b"
  shows "\<exists>first rest. (first = [] \<or> (\<exists>j. first = [Persist_Stalk j])) \<and> rest \<in> {[], shout_actions m} \<and>
    (\<forall>b'. bt_name b' = bt_name b \<and> bt_id b' = bt_id b \<and> bt_seen b' = bt_seen b \<and> bt_watches b' = bt_watches b \<and>
        bt_shouts b' = bt_shouts b \<longrightarrow>
      fst (handle_webhook_message m b') =
        first @ concat (map (dispatch_word b' m) (split_on CHR '' '' (to_lower (cm_text m)))) @ rest)"
proof -
  obtain cache where c: "seen (cm_message_id m) (bt_seen b) = (False, cache)"
    using assms by (cases "seen (cm_message_id m) (bt_seen b)") (simp add: scanned_def)
  obtain ws job where r: "remember_stalk_message (bt_name b) (cm_broadcaster_login m) (cm_chatter_login m)
      (cm_chatter_name m) (cm_text m) (bt_watches b) = (ws, job)" by (meson surj_pair)
  let ?first = "case job of None \<Rightarrow> [] | Some j \<Rightarrow> [Persist_Stalk j]"
  obtain due ls where a: "auto_shout (cm_broadcaster_login m) (cm_chatter_name m) (bt_shouts b) = (due, ls)"
    by (meson surj_pair)
  let ?rest = "if due then shout_actions m else []"
  have frame: "dispatch_word (b'\<lparr> bt_seen := c', bt_watches := w' \<rparr>) m = dispatch_word b' m" for b' c' w'
    by (rule ext) (rule dispatch_word_frame)
  have "fst (handle_webhook_message m b') =
        ?first @ concat (map (dispatch_word b' m) (split_on CHR '' '' (to_lower (cm_text m)))) @ ?rest"
    if "bt_name b' = bt_name b \<and> bt_id b' = bt_id b \<and> bt_seen b' = bt_seen b \<and> bt_watches b' = bt_watches b \<and>
        bt_shouts b' = bt_shouts b" for b'
    using assms that by (auto simp: handle_webhook_message_def scanned_def c r a Let_def frame)
  moreover have "?first = [] \<or> (\<exists>j. ?first = [Persist_Stalk j])" by (cases job) auto
  moreover have "?rest \<in> {[], shout_actions m}" by simp
  ultimately show ?thesis by (intro exI [of _ ?first] exI [of _ ?rest]) simp
qed

text \<open>
  C33: A gated command runs only where its capability is held, and elsewhere the channel's own command
  answers. Start from a bot whose boot loaded the table \<open>rows\<close>, and a message that is scanned. In a live
  channel whose commands \<open>own\<close> and capabilities \<open>held\<close> were loaded, each word of the message, in order,
  does exactly what those tables say: the built-in of its row runs if the capability its row requires is
  held (the overlay capability counts as held in the creator's own channel); otherwise the channel's own
  command for that word, if it has one with a text and the chatter has the role it asks for, is answered
  with that text; otherwise nothing happens. Once the channel has gone offline it holds nothing and has
  no commands of its own. The rest of what a message causes is the record of a watched chatter before the
  words and a shout-out after them. A message that is not scanned runs no built-in.
\<close>

theorem gated_commands:
  assumes "build_command_maps rows = Inr (bt_commands b, bt_requires b)"
  shows "(scanned m b \<longrightarrow>
      (\<exists>first rest. (first = [] \<or> (\<exists>j. first = [Persist_Stalk j])) \<and> rest \<in> {[], shout_actions m} \<and>
         fst (handle_webhook_message m (load_custom_commands (Some (own, held)) (cm_broadcaster_login m) b)) =
           first @ concat (map (word_answer rows own held m) (split_on CHR '' '' (to_lower (cm_text m)))) @ rest \<and>
         fst (handle_webhook_message m (drop_custom_commands (cm_broadcaster_login m) b)) =
           first @ concat (map (word_answer rows [] [] m) (split_on CHR '' '' (to_lower (cm_text m)))) @ rest)) \<and>
    (\<not> scanned m b \<longrightarrow> Run_Builtin key m' \<notin> set (fst (handle_webhook_message m b)))"
proof (intro conjI impI)
  let ?live = "load_custom_commands (Some (own, held)) (cm_broadcaster_login m) b"
  let ?off = "drop_custom_commands (cm_broadcaster_login m) b"
  assume "scanned m b"
  then obtain first rest where fr: "first = [] \<or> (\<exists>j. first = [Persist_Stalk j])" "rest \<in> {[], shout_actions m}"
    and acts: "\<And>b'. bt_name b' = bt_name b \<and> bt_id b' = bt_id b \<and> bt_seen b' = bt_seen b \<and> bt_watches b' = bt_watches b \<and>
        bt_shouts b' = bt_shouts b \<Longrightarrow>
      fst (handle_webhook_message m b') =
        first @ concat (map (dispatch_word b' m) (split_on CHR '' '' (to_lower (cm_text m)))) @ rest"
    using message_actions [of m b] by metis
  have "dispatch_word ?live m = word_answer rows own held m" "dispatch_word ?off m = word_answer rows [] [] m"
    by (rule ext, rule dispatch_word_answer;
        simp add: assms loaded_lookups dropped_lookups)+
  moreover have "bt_name ?live = bt_name b \<and> bt_id ?live = bt_id b \<and> bt_seen ?live = bt_seen b \<and>
      bt_watches ?live = bt_watches b \<and> bt_shouts ?live = bt_shouts b"
    by (simp add: load_custom_commands_def set_capabilities_def Let_def)
  moreover have "bt_name ?off = bt_name b \<and> bt_id ?off = bt_id b \<and> bt_seen ?off = bt_seen b \<and>
      bt_watches ?off = bt_watches b \<and> bt_shouts ?off = bt_shouts b"
    by (simp add: drop_custom_commands_def drop_capabilities_def)
  ultimately show "\<exists>first rest. (first = [] \<or> (\<exists>j. first = [Persist_Stalk j])) \<and> rest \<in> {[], shout_actions m} \<and>
         fst (handle_webhook_message m ?live) =
           first @ concat (map (word_answer rows own held m) (split_on CHR '' '' (to_lower (cm_text m)))) @ rest \<and>
         fst (handle_webhook_message m ?off) =
           first @ concat (map (word_answer rows [] [] m) (split_on CHR '' '' (to_lower (cm_text m)))) @ rest"
    using fr acts [of ?live] acts [of ?off] by (intro exI [of _ first] exI [of _ rest]) simp
next
  assume "\<not> scanned m b"
  then show "Run_Builtin key m' \<notin> set (fst (handle_webhook_message m b))" by (simp add: run_builtin_iff)
qed

definition demo_rows :: "command_row list" where
  "demo_rows =
     [\<lparr> cr_trigger = ''!dad'', cr_kind = ''builtin'', cr_handler = Some ''dad_roll'', cr_response = None, cr_scope = ''global'',
        cr_channel = None, cr_enabled = True, cr_min_role = ''everyone'', cr_requires = None \<rparr>,
      \<lparr> cr_trigger = ''!fish'', cr_kind = ''builtin'', cr_handler = Some ''fish'', cr_response = None, cr_scope = ''global'',
        cr_channel = None, cr_enabled = True, cr_min_role = ''everyone'', cr_requires = None \<rparr>,
      \<lparr> cr_trigger = ''!nuke'', cr_kind = ''builtin'', cr_handler = Some ''overlay_nuke'', cr_response = None,
        cr_scope = ''global'', cr_channel = None, cr_enabled = True, cr_min_role = ''everyone'',
        cr_requires = Some ''overlay'' \<rparr>]"

definition demo_bot :: bot where
  "demo_bot =
     (case build_command_maps demo_rows of
        Inl _ \<Rightarrow> undefined
      | Inr (cmds, req) \<Rightarrow>
          \<lparr> bt_name = ''peanutbudderbot'', bt_id = ''99'', bt_channels = [], bt_commands = cmds, bt_requires = req,
            bt_caps = (\<lambda>_. None), bt_custom = (\<lambda>_. None), bt_live = (\<lambda>_. False), bt_dad = (\<lambda>_. None),
            bt_shouts = (\<lambda>_. None), bt_watches = (\<lambda>_. None), bt_seen = new_id_cache 4 \<rparr>)"

definition demo_chat :: "string \<Rightarrow> chat_message" where
  "demo_chat text = \<lparr> cm_broadcaster_id = ''42'', cm_broadcaster_login = ''nivek'', cm_chatter_id = ''42'',
     cm_chatter_login = ''nivek'', cm_chatter_name = ''Nivek'', cm_message_id = ''m'', cm_text = text, cm_badges = [],
     cm_trigger = [] \<rparr>"

theorem loaded_command_fires_witness:
  "\<exists>key \<in> set builtin_registry. \<exists>r \<in> set demo_rows. cr_trigger r = ''!fish'' \<and> cr_handler r = Some key \<and>
     Run_Builtin key (demo_chat ''gone !Fish ing''\<lparr> cm_trigger := ''!fish'' \<rparr>) \<in>
       set (fst (handle_webhook_message (demo_chat ''gone !Fish ing'') demo_bot))"
proof -
  have l: "cr_kind (demo_rows ! 1) = ''builtin''" "cr_enabled (demo_rows ! 1)" "to_lower ''!Fish'' = cr_trigger (demo_rows ! 1)"
    "CHR '' '' \<notin> set ''!Fish''" "scanned (demo_chat ''gone !Fish ing'') demo_bot"
    "command_allowed_in (cm_broadcaster_login (demo_chat ''gone !Fish ing'')) (cr_trigger (demo_rows ! 1)) demo_bot"
    "cr_trigger (demo_rows ! 1) = ''!fish''"
    by code_simp+
  have mem: "demo_rows ! 1 \<in> set demo_rows" by (rule nth_mem) (simp add: demo_rows_def)
  have st: "stands_in ''!Fish'' (cm_text (demo_chat ''gone !Fish ing''))"
    unfolding stands_in_def by (rule exI [of _ "''gone ''"], rule exI [of _ "'' ing''"]) (simp add: demo_chat_def)
  have bm: "build_command_maps demo_rows = Inr (bt_commands demo_bot, bt_requires demo_bot)"
    by (simp add: demo_bot_def demo_rows_def build_command_maps_def builtin_registry_def to_lower_def lower_char_def code_of_def)
  show ?thesis using loaded_command_fires [OF bm mem l(1,2) st l(3-6)] unfolding l(7) .
qed

text \<open>
  In a channel without the capability \<^verbatim>\<open>!nuke\<close> gets the channel's own answer; in one that holds it the
  built-in runs and the channel's own command does not answer.
\<close>

definition demo_own :: "command_row list" where
  "demo_own = [\<lparr> cr_trigger = ''!Nuke'', cr_kind = ''custom'', cr_handler = None, cr_response = Some ''boom'', cr_scope = ''channel'',
     cr_channel = Some ''42'', cr_enabled = True, cr_min_role = ''everyone'', cr_requires = None \<rparr>]"

theorem gated_commands_witness:
  "Say ''42'' ''boom'' \<in> set (fst (handle_webhook_message (demo_chat ''!nuke !fish'')
     (load_custom_commands (Some (demo_own, [])) ''nivek'' demo_bot))) \<and>
   Run_Builtin ''overlay_nuke'' (demo_chat ''!nuke !fish''\<lparr> cm_trigger := ''!nuke'' \<rparr>) \<in>
     set (fst (handle_webhook_message (demo_chat ''!nuke !fish'')
       (load_custom_commands (Some (demo_own, [''overlay''])) ''nivek'' demo_bot)))"
proof -
  have bm: "build_command_maps demo_rows = Inr (bt_commands demo_bot, bt_requires demo_bot)"
    by (simp add: demo_bot_def demo_rows_def build_command_maps_def builtin_registry_def to_lower_def lower_char_def code_of_def)
  have sc: "scanned (demo_chat ''!nuke !fish'') demo_bot" by code_simp
  have w: "split_on CHR '' '' (to_lower (cm_text (demo_chat ''!nuke !fish''))) = [''!nuke'', ''!fish'']" by code_simp
  have l: "cm_broadcaster_login (demo_chat ''!nuke !fish'') = ''nivek''" by (simp add: demo_chat_def)
  have ans: "word_answer demo_rows demo_own [] (demo_chat ''!nuke !fish'') ''!nuke'' = [Say ''42'' ''boom'']"
    "word_answer demo_rows demo_own [''overlay''] (demo_chat ''!nuke !fish'') ''!nuke'' =
      [Run_Builtin ''overlay_nuke'' (demo_chat ''!nuke !fish''\<lparr> cm_trigger := ''!nuke'' \<rparr>)]"
    by code_simp+
  have "Say ''42'' ''boom'' \<in> set (fst (handle_webhook_message (demo_chat ''!nuke !fish'')
     (load_custom_commands (Some (demo_own, [])) ''nivek'' demo_bot)))"
    using gated_commands [OF bm, of "demo_chat ''!nuke !fish''" demo_own "[]"] sc w ans l by auto
  moreover have "Run_Builtin ''overlay_nuke'' (demo_chat ''!nuke !fish''\<lparr> cm_trigger := ''!nuke'' \<rparr>) \<in>
     set (fst (handle_webhook_message (demo_chat ''!nuke !fish'')
       (load_custom_commands (Some (demo_own, [''overlay''])) ''nivek'' demo_bot)))"
    using gated_commands [OF bm, of "demo_chat ''!nuke !fish''" demo_own "[''overlay'']"] sc w ans l by auto
  ultimately show ?thesis by blast
qed

text \<open>
  C0: The body of a recurring message is never scanned: a message that begins with the word \<^verbatim>\<open>!newpromo\<close>
  and a blank starts that command alone, whatever else it says, while the words of a new dad response are
  scanned, so that adding one that mentions a command runs that command too.
\<close>

theorem promo_body_is_not_scanned:
  assumes "has_prefix ''!newpromo '' (to_lower (cm_text m))"
  shows "Run_Builtin key m' \<notin> set (fst (handle_webhook_message m b)) \<and> Say i text \<notin> set (fst (handle_webhook_message m b)) \<and>
    fst (handle_webhook_message (demo_chat ''!dad add gone to !fish'') demo_bot) =
      [Run_Builtin ''dad_roll'' (demo_chat ''!dad add gone to !fish''\<lparr> cm_trigger := ''!dad'' \<rparr>),
       Run_Builtin ''fish'' (demo_chat ''!dad add gone to !fish''\<lparr> cm_trigger := ''!fish'' \<rparr>)]"
proof (intro conjI)
  show "Run_Builtin key m' \<notin> set (fst (handle_webhook_message m b))"
    unfolding run_builtin_iff using assms by (simp add: scanned_def)
  show "Say i text \<notin> set (fst (handle_webhook_message m b))"
    using assms by (auto simp: handle_webhook_message_def Let_def split: prod.splits bool.splits option.splits)
  show "fst (handle_webhook_message (demo_chat ''!dad add gone to !fish'') demo_bot) =
      [Run_Builtin ''dad_roll'' (demo_chat ''!dad add gone to !fish''\<lparr> cm_trigger := ''!dad'' \<rparr>),
       Run_Builtin ''fish'' (demo_chat ''!dad add gone to !fish''\<lparr> cm_trigger := ''!fish'' \<rparr>)]"
    by code_simp
qed

theorem promo_body_is_not_scanned_witness:
  "Run_Builtin ''fish'' m' \<notin> set (fst (handle_webhook_message (demo_chat ''!NewPromo 30m try !fish'') demo_bot))"
proof -
  have "has_prefix ''!newpromo '' (to_lower (cm_text (demo_chat ''!NewPromo 30m try !fish'')))" by code_simp
  from promo_body_is_not_scanned [OF this] show ?thesis by blast
qed

section \<open>Overlay arguments\<close>

lemma take_args_spec:
  assumes "n < max_overlay_args"
  shows "take_args n fs = map (take max_overlay_arg_len) (take (max_overlay_args - n) (takeWhile (\<lambda>f. \<not> has_prefix ''!'' f) fs))"
  using assms
proof (induction fs arbitrary: n)
  case (Cons f fs)
  have cut: "(if length f > max_overlay_arg_len then take max_overlay_arg_len f else f) = take max_overlay_arg_len f" by simp
  show ?case
  proof (cases "n + 1 = max_overlay_args")
    case True
    then have one: "max_overlay_args - n = Suc 0" by simp
    show ?thesis unfolding one using True cut by (auto simp: Let_def)
  next
    case False
    then have "take_args (n + 1) fs = map (take max_overlay_arg_len)
        (take (max_overlay_args - (n + 1)) (takeWhile (\<lambda>f. \<not> has_prefix ''!'' f) fs))"
      using Cons.prems by (intro Cons.IH) simp
    moreover have "max_overlay_args - n = Suc (max_overlay_args - (n + 1))" using Cons.prems by simp
    ultimately show ?thesis using False cut by (auto simp: Let_def)
  qed
qed simp

text \<open>
  What an overlay is given: the words that follow the first word equal to the trigger (case aside), up
  to the next word that begins with an exclamation mark, at most four of them, each cut to 32 bytes.
\<close>

theorem overlay_args_exact:
  "overlay_args text trigger =
     (if trigger = [] then []
      else map (take 32) (take 4 (takeWhile (\<lambda>f. \<not> has_prefix ''!'' f)
        (tl (dropWhile (\<lambda>f. \<not> equal_fold f trigger) (str_fields text)))))) \<and>
   length (overlay_args text trigger) \<le> 4 \<and> (\<forall>a \<in> set (overlay_args text trigger). length a \<le> 32 \<and> \<not> has_prefix ''!'' a)"
proof -
  define rest where "rest = dropWhile (\<lambda>f. \<not> equal_fold f trigger) (str_fields text)"
  have eq: "overlay_args text trigger =
     (if trigger = [] then []
      else map (take 32) (take 4 (takeWhile (\<lambda>f. \<not> has_prefix ''!'' f) (tl rest))))"
    using take_args_spec [of 0 "tl rest"]
    by (cases rest) (simp_all add: overlay_args_def max_overlay_args_def max_overlay_arg_len_def rest_def [symmetric])
  have arg: "length a \<le> 32 \<and> \<not> has_prefix ''!'' a" if a: "a \<in> set (overlay_args text trigger)" for a
  proof -
    obtain f where f: "a = take 32 f" "f \<in> set (take 4 (takeWhile (\<lambda>f. \<not> has_prefix ''!'' f) (tl rest)))"
      using a unfolding eq by (auto split: if_splits)
    have "\<not> has_prefix ''!'' f" using set_takeWhileD [OF in_set_takeD [OF f(2)]] by blast
    then show ?thesis using f(1) by (cases f) (simp_all add: has_prefix_def)
  qed
  have "length (overlay_args text trigger) \<le> 4" unfolding eq by simp
  then show ?thesis using arg eq unfolding rest_def by blast
qed

theorem overlay_args_exact_witness:
  "overlay_args ''!b Twenty !nuke now'' ''!B'' = [''Twenty''] \<and> length (overlay_args ''!b Twenty !nuke now'' ''!B'') \<le> 4"
proof (rule conjI)
  show "overlay_args ''!b Twenty !nuke now'' ''!B'' = [''Twenty'']" by code_simp
  show "length (overlay_args ''!b Twenty !nuke now'' ''!B'') \<le> 4" using overlay_args_exact by blast
qed

end
