(* ===== verification/Dad_Properties.thy ===== *)
theory Dad_Properties
  imports Dad
begin

text \<open>
  The allotment of \<^verbatim>\<open>!dad\<close>: what each roll of a stream is answered, that a restart of the bot in
  mid-stream does not change it, and the two ways in which the persisted tally and the bot's own part.
\<close>

section \<open>In the bot\<close>

definition decision_for :: "int \<Rightarrow> dad_decision" where
  "decision_for n =
     (if n < dad_per_stream_limit then Dad_Allow else if n = dad_per_stream_limit then Dad_Reject else Dad_Silent)"

text \<open>The count of a chatter in a channel, both as the bot files them.\<close>

definition tally :: "dad_usage \<Rightarrow> string \<Rightarrow> string \<Rightarrow> int" where
  "tally us channel chatter = ds_counts (stream_of channel us) chatter"

definition counted :: "int \<Rightarrow> int" where
  "counted n = (if n \<le> dad_per_stream_limit then n + 1 else n)"

lemma check_dad_limit_spec:
  "fst (check_dad_limit ch c us) = decision_for (tally us (to_lower ch) (to_lower c)) \<and>
   tally (snd (check_dad_limit ch c us)) a b =
     (if a = to_lower ch \<and> b = to_lower c then counted (tally us a b) else tally us a b)"
  by (auto simp: check_dad_limit_def Let_def decision_for_def tally_def stream_of_def counted_def new_dad_stream_def
      split: option.splits)

fun rolls :: "(string \<times> string) list \<Rightarrow> dad_usage \<Rightarrow> dad_decision list \<times> dad_usage" where
  "rolls [] us = ([], us)"
| "rolls ((ch, c) # rs) us =
     (case check_dad_limit ch c us of (d, us1) \<Rightarrow> (case rolls rs us1 of (ds, us2) \<Rightarrow> (d # ds, us2)))"

definition rolled_before :: "(string \<times> string) list \<Rightarrow> nat \<Rightarrow> int" where
  "rolled_before rs i =
     int (length (filter (\<lambda>r. to_lower (fst r) = to_lower (fst (rs ! i)) \<and> to_lower (snd r) = to_lower (snd (rs ! i)))
       (take i rs)))"

lemma counted_min: "0 \<le> n \<Longrightarrow> n \<le> 6 \<Longrightarrow> 0 \<le> k \<Longrightarrow> min 6 (counted n + k) = min 6 (n + 1 + k)"
  by (auto simp: counted_def dad_per_stream_limit_def)

lemma rolls_nth:
  assumes "i < length rs" and "\<And>a b. 0 \<le> tally us a b \<and> tally us a b \<le> 6"
  shows "fst (rolls rs us) ! i =
    decision_for (min 6 (tally us (to_lower (fst (rs ! i))) (to_lower (snd (rs ! i))) + rolled_before rs i))"
  using assms
proof (induction rs arbitrary: us i)
  case (Cons r rs)
  obtain ch c where r: "r = (ch, c)" by (cases r)
  obtain d us1 where k: "check_dad_limit ch c us = (d, us1)" by (meson surj_pair)
  obtain ds us2 where t: "rolls rs us1 = (ds, us2)" by (meson surj_pair)
  have d: "d = decision_for (tally us (to_lower ch) (to_lower c))"
    and tl: "tally us1 a b = (if a = to_lower ch \<and> b = to_lower c then counted (tally us a b) else tally us a b)" for a b
    using check_dad_limit_spec [of ch c us a b] by (simp_all add: k)
  have bounds: "0 \<le> tally us1 a b \<and> tally us1 a b \<le> 6" for a b
    using Cons.prems(2) [of a b] by (auto simp: tl counted_def dad_per_stream_limit_def)
  show ?case
  proof (cases i)
    case 0
    have "min 6 (tally us (to_lower ch) (to_lower c)) = tally us (to_lower ch) (to_lower c)"
      using Cons.prems(2) by simp
    then show ?thesis by (simp add: 0 r k t d rolled_before_def)
  next
    case (Suc j)
    let ?a = "to_lower (fst (rs ! j))" and ?b = "to_lower (snd (rs ! j))"
    have j: "j < length rs" using Cons.prems(1) Suc by simp
    have "fst (rolls rs us1) ! j = decision_for (min 6 (tally us1 ?a ?b + rolled_before rs j))"
      by (rule Cons.IH [OF j bounds])
    moreover have "rolled_before (r # rs) i =
        (if to_lower ch = ?a \<and> to_lower c = ?b then 1 else 0) + rolled_before rs j"
      by (simp add: rolled_before_def Suc r)
    moreover have "min 6 (counted (tally us ?a ?b) + rolled_before rs j) = min 6 (tally us ?a ?b + 1 + rolled_before rs j)"
      using Cons.prems(2) [of ?a ?b] by (intro counted_min) (simp_all add: rolled_before_def)
    ultimately show ?thesis by (auto simp: Suc r k t tl add.assoc)
  qed
qed simp

lemma decision_for_cap: "0 \<le> n \<Longrightarrow> decision_for (min 6 n) = decision_for n"
  by (auto simp: decision_for_def dad_per_stream_limit_def)

text \<open>
  Each chatter's allotment is their own: in any interleaving of rolls by any chatters in any
  channels, a roll is answered by the number of earlier rolls of the same chatter in the same channel
  (case aside): the first five are served, the sixth gets the one reject line, all later ones silence.
\<close>

theorem allotment_per_chatter:
  "i < length rs \<Longrightarrow> fst (rolls rs (\<lambda>_. None)) ! i = decision_for (rolled_before rs i)"
proof -
  assume i: "i < length rs"
  have "tally (\<lambda>_. None) a b = 0" for a b by (simp add: tally_def stream_of_def new_dad_stream_def)
  then show ?thesis
    using rolls_nth [OF i, of "\<lambda>_. None"] decision_for_cap [of "rolled_before rs i"] by (simp add: rolled_before_def)
qed

theorem allotment_per_chatter_witness:
  "fst (rolls (replicate 7 (''Nivek'', ''urist'')) (\<lambda>_. None)) ! 5 = Dad_Reject"
  using allotment_per_chatter [of 5 "replicate 7 (''Nivek'', ''urist'')"]
  by (simp add: rolled_before_def decision_for_def dad_per_stream_limit_def)

section \<open>Across restarts\<close>

interpretation dad_rows: row_type du_id du_pair du_with_id
  by unfold_locales (simp_all add: du_with_id_def du_pair_def)

text \<open>
  One live channel over one stream. A counted roll is persisted by a goroutine of its own, which runs at
  any later time, in any order, over a network that may lose it, or never (a request that is lost); a
  restart loses the bot's memory, not the requests under way; the tally is read back later, over the same
  network, and rolls may be made before it is. \<open>dc_lost\<close> counts the rolls whose request did not reach the
  tally; \<open>dc_missing\<close> those that the bot forgot: at a restart all that were counted, and after the tally
  has been read back those it did not hold then. Neither is read by the bot.
\<close>

datatype dad_event = Dad_Roll string | Persist_Runs nat network faults | Bot_Restart | Read_Back network faults

record dad_course =
  dc_usage :: dad_usage
  dc_rows :: "dad_usage_row table"
  dc_jobs :: "string list"
  dc_lost :: "string \<Rightarrow> int"
  dc_missing :: "string \<Rightarrow> int"
  dc_log :: "(string \<times> dad_decision) list"

text \<open>The rolls of a chatter that were counted: those answered with a response or the reject line.\<close>

definition counted_rolls :: "string \<Rightarrow> (string \<times> dad_decision) list \<Rightarrow> int" where
  "counted_rolls c log = int (length (filter (\<lambda>(x, d). x = c \<and> d \<noteq> Dad_Silent) log))"

definition dad_event_step :: "stream_world \<Rightarrow> dad_event \<Rightarrow> dad_course \<Rightarrow> dad_course" where
  "dad_event_step w e s =
     (case e of
        Dad_Roll c \<Rightarrow>
          (case check_dad_limit (sw_login w) c (dc_usage s) of (d, us) \<Rightarrow>
             s\<lparr> dc_usage := us, dc_jobs := dc_jobs s @ (if d = Dad_Silent then [] else [to_lower c]),
                dc_log := dc_log s @ [(to_lower c, d)] \<rparr>)
      | Persist_Runs i net fl \<Rightarrow>
          if i < length (dc_jobs s) then
            let c = dc_jobs s ! i
            in s\<lparr> dc_rows := persist_dad_roll net fl (sw_login w) c (sw_tracked w) (sw_users w) (dc_rows s),
                  dc_jobs := take i (dc_jobs s) @ drop (Suc i) (dc_jobs s),
                  dc_lost := (if net = Request_Lost \<or> fl 0 then (dc_lost s)(c := dc_lost s c + 1) else dc_lost s) \<rparr>
          else s
      | Bot_Restart \<Rightarrow> s\<lparr> dc_usage := (\<lambda>_. None), dc_missing := (\<lambda>c. counted_rolls c (dc_log s)) \<rparr>
      | Read_Back net fl \<Rightarrow>
          s\<lparr> dc_usage := rehydrate_dad_usage net fl (sw_login w) (sw_bid w) (sw_users w) (dc_rows s) (dc_usage s),
             dc_missing := (if net = Net_Ok \<and> \<not> fl 0 then \<lambda>c. dc_lost s c + int (count_list (dc_jobs s) c)
                            else dc_missing s) \<rparr>)"

definition dad_events :: "stream_world \<Rightarrow> dad_event list \<Rightarrow> dad_course \<Rightarrow> dad_course" where
  "dad_events w es s = fold (dad_event_step w) es s"

text \<open>The bot at a go-live.\<close>

definition dad_go_live :: "stream_world \<Rightarrow> string \<Rightarrow> dad_usage \<Rightarrow> dad_usage_row table \<Rightarrow> dad_course" where
  "dad_go_live w key us t =
     \<lparr> dc_usage = start_dad_stream (sw_login w) key us, dc_rows = t, dc_jobs = [], dc_lost = (\<lambda>_. 0),
       dc_missing = (\<lambda>_. 0), dc_log = [] \<rparr>"

definition persisted :: "int \<Rightarrow> string option \<Rightarrow> dad_usage_row table \<Rightarrow> string \<Rightarrow> int" where
  "persisted n k t c =
     (case find_one (\<lambda>r. du_pair r = (n, c)) t of None \<Rightarrow> 0 | Some r \<Rightarrow> if du_key r = k then du_count r else 0)"

definition live_channel :: "stream_world \<Rightarrow> int \<Rightarrow> string option \<Rightarrow> bool" where
  "live_channel w n k \<longleftrightarrow> n \<noteq> 0 \<and> atoi (sw_bid w) = Some n \<and> stream_keys n (sw_users w) = [k] \<and>
     channel_twitch_id (sw_login w) (sw_tracked w) = Some (sw_bid w)"

text \<open>
  Every counted roll is in the persisted tally, lost, or still to be persisted; the bot's memory holds at
  most the counted rolls, and all but the missing ones.
\<close>

definition course_inv :: "stream_world \<Rightarrow> int \<Rightarrow> string option \<Rightarrow> dad_course \<Rightarrow> bool" where
  "course_inv w n k s \<longleftrightarrow> wf_table du_id du_pair (dc_rows s) \<and> (\<forall>c \<in> set (dc_jobs s). c \<noteq> [] \<and> to_lower c = c) \<and>
     (\<forall>c. 0 \<le> dc_lost s c \<and> 0 \<le> persisted n k (dc_rows s) c \<and> 0 \<le> tally (dc_usage s) (to_lower (sw_login w)) c \<and>
       counted_rolls c (dc_log s) = persisted n k (dc_rows s) c + dc_lost s c + int (count_list (dc_jobs s) c) \<and>
       tally (dc_usage s) (to_lower (sw_login w)) c \<le> counted_rolls c (dc_log s) \<and>
       counted_rolls c (dc_log s) \<le> tally (dc_usage s) (to_lower (sw_login w)) c + dc_missing s c)"

lemma increment_roll_spec:
  assumes "wf_table du_id du_pair t" and "stream_keys n users = [k]"
  shows "wf_table du_id du_pair (snd (increment_roll no_faults n c users t))"
    and "persisted n k (snd (increment_roll no_faults n c users t)) b =
      (if b = c then persisted n k t b + 1 else persisted n k t b)"
proof -
  define f :: "dad_usage_row \<Rightarrow> dad_usage_row" where "f r = r\<lparr> du_count := (if du_key r \<noteq> k then 1 else du_count r + 1), du_key := k \<rparr>" for r
  have f: "du_id (f r) = du_id r" "du_pair (f r) = du_pair r" for r by (simp_all add: f_def du_pair_def)
  let ?new = "\<lparr> du_id = 0, du_twitch_id = n, du_chatter = c, du_count = 1, du_key = k \<rparr>"
  have "wf_table du_id du_pair (snd (increment_roll no_faults n c users t)) \<and>
      persisted n k (snd (increment_roll no_faults n c users t)) b =
      (if b = c then persisted n k t b + 1 else persisted n k t b)"
  proof (cases "find_one (\<lambda>r. du_pair r = (n, c)) t")
    case None
    then have none: "find_one (\<lambda>r. du_pair r = du_pair ?new) t = None" by (simp add: du_pair_def)
    obtain t' where i: "insert_row du_with_id du_pair ?new t = Some (du_with_id ?new (tb_serial t + 1), t')"
      and w: "wf_table du_id du_pair t'"
      and fnd: "\<And>j. find_one (\<lambda>r. du_pair r = j) t' =
          (if j = du_pair ?new then Some (du_with_id ?new (tb_serial t + 1)) else find_one (\<lambda>r. du_pair r = j) t)"
      using dad_rows.insert_spec [OF assms(1) none] by metis
    have run: "increment_roll no_faults n c users t = (None, t')"
      by (simp add: increment_roll_def no_faults_def assms(2) i)
    have "du_pair ?new = (n, c)" by (simp add: du_pair_def)
    then show ?thesis using w None by (simp add: run persisted_def fnd du_with_id_def)
  next
    case (Some r)
    have "(n, c) \<in> set (map du_pair (tb_rows t))" using Some dad_rows.find_key_None [of "(n, c)" t] by auto
    then have run: "increment_roll no_faults n c users t = (None, update_where (\<lambda>r. du_pair r = (n, c)) f t)"
      by (simp add: increment_roll_def no_faults_def assms(2) insert_row_def du_pair_def f_def [abs_def])
    let ?g = "\<lambda>x. if du_pair x = (n, c) then f x else x"
    have maps: "du_id \<circ> ?g = du_id" "du_pair \<circ> ?g = du_pair" by (auto simp: f)
    have w: "wf_table du_id du_pair (update_where (\<lambda>r. du_pair r = (n, c)) f t)"
      using assms(1) by (auto simp: wf_table_def update_where_def maps f)
    have "find (\<lambda>x. du_pair x = j) (map ?g xs) = map_option ?g (find (\<lambda>x. du_pair x = j) xs)" for j xs
      by (induction xs) (auto simp: f)
    then have fnd: "find_one (\<lambda>x. du_pair x = j) (update_where (\<lambda>r. du_pair r = (n, c)) f t) =
        map_option ?g (find_one (\<lambda>x. du_pair x = j) t)" for j
      by (simp add: find_one_def update_where_def)
    have pr: "du_pair x = j" if "find_one (\<lambda>x. du_pair x = j) t = Some x" for x j
      using that by (auto simp: find_one_def dest: find_Some_mem)
    show ?thesis using w pr [OF Some]
      by (auto simp: run persisted_def fnd Some f_def dest: pr split: option.splits)
  qed
  then show "wf_table du_id du_pair (snd (increment_roll no_faults n c users t))"
    "persisted n k (snd (increment_roll no_faults n c users t)) b =
      (if b = c then persisted n k t b + 1 else persisted n k t b)" by simp_all
qed

lemma persist_is_increment:
  assumes "live_channel w n k" and "c \<noteq> []"
  shows "persist_dad_roll net fl (sw_login w) c (sw_tracked w) (sw_users w) t =
    (if net = Request_Lost \<or> fl 0 then t else snd (increment_roll no_faults n (to_lower c) (sw_users w) t))"
proof -
  have "increment_roll fl n (to_lower c) (sw_users w) t =
      (if fl 0 then (Some (), t) else increment_roll no_faults n (to_lower c) (sw_users w) t)"
    by (simp add: increment_roll_def no_faults_def)
  moreover have "to_lower c \<noteq> []" using assms(2) by (simp add: to_lower_def)
  moreover have "channel_twitch_id (sw_login w) (sw_tracked w) = Some (sw_bid w)" "atoi (sw_bid w) = Some n" "n \<noteq> 0"
    using assms(1) by (simp_all add: live_channel_def)
  ultimately show ?thesis
    by (cases net) (auto simp: persist_dad_roll_def api_call_def post_dad_increment_endpoint_def
        split: option.splits prod.splits)
qed

lemma fold_max:
  assumes "distinct (map fst rows)"
  shows "fold (\<lambda>(c, n) counts. if n > counts c then counts(c := n) else counts) rows f b =
    (case map_of rows b of None \<Rightarrow> f b | Some n \<Rightarrow> max n (f b :: int))"
  using assms
proof (induction rows arbitrary: f)
  case (Cons r rows)
  obtain c n where r: "r = (c, n)" by (cases r)
  have "map_of rows c = None" using Cons.prems by (simp add: r map_of_eq_None_iff)
  then show ?case using Cons by (auto simp: r max_def split: option.splits)
qed simp

lemma usage_rows:
  assumes "wf_table du_id du_pair t"
  shows "distinct (map fst (map (\<lambda>r. (du_chatter r, du_count r)) (filter (\<lambda>r. du_twitch_id r = n \<and> du_key r = k) (tb_rows t))))"
    and "map_of (map (\<lambda>r. (du_chatter r, du_count r)) (filter (\<lambda>r. du_twitch_id r = n \<and> du_key r = k) (tb_rows t))) c =
      (case find_one (\<lambda>r. du_pair r = (n, c)) t of None \<Rightarrow> None | Some r \<Rightarrow> if du_key r = k then Some (du_count r) else None)"
proof -
  have "distinct (map fst (map (\<lambda>r. (du_chatter r, du_count r)) (filter (\<lambda>r. du_twitch_id r = n \<and> du_key r = k) xs))) \<and>
    map_of (map (\<lambda>r. (du_chatter r, du_count r)) (filter (\<lambda>r. du_twitch_id r = n \<and> du_key r = k) xs)) c =
      (case find (\<lambda>r. du_pair r = (n, c)) xs of None \<Rightarrow> None | Some r \<Rightarrow> if du_key r = k then Some (du_count r) else None)"
    if "distinct (map du_pair xs)" for xs
    using that
  proof (induction xs)
    case (Cons r xs)
    have IH: "distinct (map fst (map (\<lambda>r. (du_chatter r, du_count r)) (filter (\<lambda>r. du_twitch_id r = n \<and> du_key r = k) xs)))"
      "map_of (map (\<lambda>r. (du_chatter r, du_count r)) (filter (\<lambda>r. du_twitch_id r = n \<and> du_key r = k) xs)) c =
        (case find (\<lambda>r. du_pair r = (n, c)) xs of None \<Rightarrow> None | Some r \<Rightarrow> if du_key r = k then Some (du_count r) else None)"
      using Cons by simp_all
    have fresh: "du_pair r \<notin> du_pair ` set xs" using Cons.prems by simp
    then have "du_pair r \<noteq> (n, c) \<or> find (\<lambda>r. du_pair r = (n, c)) xs = None"
      unfolding find_None_iff by (metis imageI)
    with IH fresh show ?case by (auto simp: du_pair_def image_iff split: if_splits)
  qed simp
  then show "distinct (map fst (map (\<lambda>r. (du_chatter r, du_count r)) (filter (\<lambda>r. du_twitch_id r = n \<and> du_key r = k) (tb_rows t))))"
    "map_of (map (\<lambda>r. (du_chatter r, du_count r)) (filter (\<lambda>r. du_twitch_id r = n \<and> du_key r = k) (tb_rows t))) c =
      (case find_one (\<lambda>r. du_pair r = (n, c)) t of None \<Rightarrow> None | Some r \<Rightarrow> if du_key r = k then Some (du_count r) else None)"
    using assms by (simp_all add: wf_table_def find_one_def)
qed

lemma rehydrated_max:
  assumes "live_channel w n k" and "wf_table du_id du_pair t"
    and "\<And>c. 0 \<le> tally us (to_lower (sw_login w)) c" and "\<not> fl 0"
  shows "tally (rehydrate_dad_usage Net_Ok fl (sw_login w) (sw_bid w) (sw_users w) t us) (to_lower (sw_login w)) c =
     max (persisted n k t c) (tally us (to_lower (sw_login w)) c)"
proof -
  define rows where "rows = map (\<lambda>r. (du_chatter r, du_count r))
      (filter (\<lambda>r. du_twitch_id r = n \<and> du_key r = k) (tb_rows t))"
  have call: "fst (api_call Net_Ok (post_dad_usage_endpoint fl n (sw_users w)) t) = Some rows"
    using assms(1,4) by (simp add: api_call_def post_dad_usage_endpoint_def get_current_stream_usage_def live_channel_def
        find_rows_def rows_def)
  have p: "persisted n k t c = (case map_of rows c of None \<Rightarrow> 0 | Some m \<Rightarrow> m)"
    using usage_rows(2) [OF assms(2), of n k c] by (simp add: persisted_def rows_def split: option.splits)
  have d: "distinct (map fst rows)" using usage_rows(1) [OF assms(2), of n k] by (simp add: rows_def)
  have b: "atoi (sw_bid w) = Some n" using assms(1) by (simp add: live_channel_def)
  show ?thesis
  proof (cases rows)
    case Nil
    then show ?thesis using p assms(3) [of c] by (simp add: rehydrate_dad_usage_def b call)
  next
    case (Cons r rs)
    have "tally (rehydrate_dad_usage Net_Ok fl (sw_login w) (sw_bid w) (sw_users w) t us) (to_lower (sw_login w)) c =
        fold (\<lambda>(c, n) counts. if n > counts c then counts(c := n) else counts) rows
          (ds_counts (stream_of (to_lower (sw_login w)) us)) c"
      using Cons by (simp add: rehydrate_dad_usage_def b call tally_def stream_of_def Let_def)
    then show ?thesis using assms(3) [of c] p by (auto simp: fold_max [OF d] tally_def split: option.splits)
  qed
qed

lemma rehydrate_unread:
  "net \<noteq> Net_Ok \<or> fl 0 \<Longrightarrow> rehydrate_dad_usage net fl login bid users t us = us"
  by (cases net) (auto simp: rehydrate_dad_usage_def api_call_def post_dad_usage_endpoint_def get_current_stream_usage_def
      split: option.splits list.splits)

lemma rehydrated_tally:
  assumes "live_channel w n k" and "wf_table du_id du_pair t" and "\<And>c. 0 \<le> persisted n k t c"
  shows "tally (rehydrate_dad_usage Net_Ok no_faults (sw_login w) (sw_bid w) (sw_users w) t (\<lambda>_. None))
     (to_lower (sw_login w)) c = persisted n k t c"
  using rehydrated_max [OF assms(1,2), of "\<lambda>_. None" no_faults c] assms(3) [of c]
  by (simp add: tally_def stream_of_def new_dad_stream_def no_faults_def)

lemma counted_rolls_snoc:
  "counted_rolls c (log @ [(x, d)]) = counted_rolls c log + (if x = c \<and> d \<noteq> Dad_Silent then 1 else 0)"
  by (simp add: counted_rolls_def)

lemma count_without:
  "i < length xs \<Longrightarrow> count_list (take i xs @ drop (Suc i) xs) c = count_list xs c - (if xs ! i = c then 1 else 0)"
proof -
  assume i: "i < length xs"
  have "count_list xs c = count_list (take i xs @ xs ! i # drop (Suc i) xs) c" using i by (simp add: id_take_nth_drop [symmetric])
  then show ?thesis by simp
qed

text \<open>A roll is answered by what the bot remembers, and remembered if it is counted.\<close>

lemma roll_step:
  "dc_log (dad_event_step w (Dad_Roll c) s) =
     dc_log s @ [(to_lower c, decision_for (tally (dc_usage s) (to_lower (sw_login w)) (to_lower c)))]"
  "tally (dc_usage (dad_event_step w (Dad_Roll c) s)) (to_lower (sw_login w)) b =
     (if b = to_lower c then counted (tally (dc_usage s) (to_lower (sw_login w)) b) else tally (dc_usage s) (to_lower (sw_login w)) b)"
  "dc_jobs (dad_event_step w (Dad_Roll c) s) = dc_jobs s @
     (if decision_for (tally (dc_usage s) (to_lower (sw_login w)) (to_lower c)) = Dad_Silent then [] else [to_lower c])"
  "dc_rows (dad_event_step w (Dad_Roll c) s) = dc_rows s" "dc_lost (dad_event_step w (Dad_Roll c) s) = dc_lost s"
  "dc_missing (dad_event_step w (Dad_Roll c) s) = dc_missing s"
  using check_dad_limit_spec [of "sw_login w" c "dc_usage s"]
  by (auto simp: dad_event_step_def split: prod.splits)

lemma silent_iff: "decision_for n = Dad_Silent \<longleftrightarrow> 5 < n"
  by (auto simp: decision_for_def dad_per_stream_limit_def)

lemma course_inv_step:
  assumes "live_channel w n k" and "course_inv w n k s" and "e \<noteq> Dad_Roll []"
  shows "course_inv w n k (dad_event_step w e s)"
proof -
  let ?l = "to_lower (sw_login w)"
  have old: "wf_table du_id du_pair (dc_rows s)" "\<And>c. c \<in> set (dc_jobs s) \<Longrightarrow> c \<noteq> [] \<and> to_lower c = c"
      "\<And>c. 0 \<le> dc_lost s c" "\<And>c. 0 \<le> persisted n k (dc_rows s) c" "\<And>c. 0 \<le> tally (dc_usage s) ?l c"
      "\<And>c. counted_rolls c (dc_log s) = persisted n k (dc_rows s) c + dc_lost s c + int (count_list (dc_jobs s) c)"
      "\<And>c. tally (dc_usage s) ?l c \<le> counted_rolls c (dc_log s)"
      "\<And>c. counted_rolls c (dc_log s) \<le> tally (dc_usage s) ?l c + dc_missing s c"
    using assms(2) unfolding course_inv_def by blast+
  show ?thesis
  proof (cases e)
    case (Dad_Roll c)
    then have c: "c \<noteq> []" "[] \<noteq> to_lower c" using assms(3) by (auto simp: to_lower_def)
    let ?m = "tally (dc_usage s) ?l (to_lower c)"
    show ?thesis unfolding Dad_Roll course_inv_def roll_step
    proof (intro conjI allI ballI)
      fix b
      note facts = old(3) [of b] old(4) [of b] old(5) [of b] old(6) [of b] old(7) [of b] old(8) [of b]
      show "counted_rolls b (dc_log s @ [(to_lower c, decision_for ?m)]) =
          persisted n k (dc_rows s) b + dc_lost s b + int (count_list (dc_jobs s @
            (if decision_for ?m = Dad_Silent then [] else [to_lower c])) b)"
        using facts by (auto simp: counted_rolls_snoc)
      show "(if b = to_lower c then counted (tally (dc_usage s) ?l b) else tally (dc_usage s) ?l b) \<le>
          counted_rolls b (dc_log s @ [(to_lower c, decision_for ?m)])"
        using facts by (auto simp: counted_rolls_snoc counted_def silent_iff dad_per_stream_limit_def)
      show "counted_rolls b (dc_log s @ [(to_lower c, decision_for ?m)]) \<le>
          (if b = to_lower c then counted (tally (dc_usage s) ?l b) else tally (dc_usage s) ?l b) + dc_missing s b"
        using facts by (auto simp: counted_rolls_snoc counted_def silent_iff dad_per_stream_limit_def)
      show "0 \<le> (if b = to_lower c then counted (tally (dc_usage s) ?l b) else tally (dc_usage s) ?l b)"
        using facts by (auto simp: counted_def)
      show "b \<noteq> []" "to_lower b = b" if "b \<in> set (dc_jobs s @ (if decision_for ?m = Dad_Silent then [] else [to_lower c]))"
        using that old(2) [of b] c(2) by (auto split: if_splits)
    qed (rule old)+
  next
    case (Persist_Runs i net fl)
    show ?thesis
    proof (cases "i < length (dc_jobs s)")
      case False
      then show ?thesis using assms(2) Persist_Runs by (simp add: dad_event_step_def)
    next
      case True
      let ?c = "dc_jobs s ! i" and ?gone = "net = Request_Lost \<or> fl 0"
      have c: "?c \<noteq> []" "to_lower ?c = ?c" using old(2) [of ?c] True by auto
      have key: "stream_keys n (sw_users w) = [k]" using assms(1) by (simp add: live_channel_def)
      let ?t = "if ?gone then dc_rows s else snd (increment_roll no_faults n ?c (sw_users w) (dc_rows s))"
      have st: "dad_event_step w e s = s\<lparr> dc_rows := ?t, dc_jobs := take i (dc_jobs s) @ drop (Suc i) (dc_jobs s),
          dc_lost := (if ?gone then (dc_lost s)(?c := dc_lost s ?c + 1) else dc_lost s) \<rparr>"
        using True persist_is_increment [OF assms(1) c(1), of net fl "dc_rows s"]
        by (simp add: dad_event_step_def Persist_Runs Let_def c(2))
      have wf: "wf_table du_id du_pair ?t" using old(1) increment_roll_spec(1) [OF old(1) key] by simp
      have p: "persisted n k ?t b = persisted n k (dc_rows s) b + (if b = ?c \<and> \<not> ?gone then 1 else 0)" for b
        using increment_roll_spec(2) [OF old(1) key, of ?c b] by (cases "b = ?c") simp_all
      have cnt: "int (count_list (take i (dc_jobs s) @ drop (Suc i) (dc_jobs s)) b) =
          int (count_list (dc_jobs s) b) - (if b = ?c then 1 else 0)" for b
      proof -
        have "count_list (dc_jobs s) ?c \<noteq> 0" using True by (simp add: count_list_0_iff)
        then show ?thesis using count_without [OF True, of b] by auto
      qed
      have sel: "dc_rows (dad_event_step w e s) = ?t" "dc_jobs (dad_event_step w e s) = take i (dc_jobs s) @ drop (Suc i) (dc_jobs s)"
        "dc_lost (dad_event_step w e s) = (if ?gone then (dc_lost s)(?c := dc_lost s ?c + 1) else dc_lost s)"
        "dc_usage (dad_event_step w e s) = dc_usage s" "dc_log (dad_event_step w e s) = dc_log s"
        "dc_missing (dad_event_step w e s) = dc_missing s"
        unfolding st by (simp_all del: if_split)
      show ?thesis unfolding course_inv_def sel
      proof (intro conjI allI ballI)
        fix b
        note facts = old(3) [of b] old(4) [of b] old(5) [of b] old(6) [of b] old(7) [of b] old(8) [of b]
        show "counted_rolls b (dc_log s) = persisted n k ?t b +
            (if ?gone then (dc_lost s)(?c := dc_lost s ?c + 1) else dc_lost s) b +
            int (count_list (take i (dc_jobs s) @ drop (Suc i) (dc_jobs s)) b)"
          using facts unfolding p cnt by auto
        show "0 \<le> persisted n k ?t b" using facts unfolding p by simp
        show "0 \<le> (if ?gone then (dc_lost s)(?c := dc_lost s ?c + 1) else dc_lost s) b" using facts by auto
        show "b \<noteq> []" "to_lower b = b" if "b \<in> set (take i (dc_jobs s) @ drop (Suc i) (dc_jobs s))"
          using that old(2) [of b] by (auto dest: in_set_takeD in_set_dropD)
      qed (rule wf old)+
    qed
  next
    case Bot_Restart
    then show ?thesis using old by (simp add: course_inv_def dad_event_step_def tally_def stream_of_def new_dad_stream_def)
  next
    case (Read_Back net fl)
    show ?thesis
    proof (cases "net = Net_Ok \<and> \<not> fl 0")
      case True
      have t: "tally (rehydrate_dad_usage Net_Ok fl (sw_login w) (sw_bid w) (sw_users w) (dc_rows s) (dc_usage s)) ?l c =
          max (persisted n k (dc_rows s) c) (tally (dc_usage s) ?l c)" for c
        using True by (intro rehydrated_max [OF assms(1) old(1) old(5)]) simp
      show ?thesis using True old t by (auto simp: course_inv_def dad_event_step_def Read_Back max_def)
    next
      case False
      then have "dad_event_step w e s = s"
        using rehydrate_unread [of net fl] by (cases s) (auto simp: dad_event_step_def Read_Back)
      then show ?thesis using assms(2) by simp
    qed
  qed
qed

lemma course_inv_events:
  assumes "live_channel w n k" and "course_inv w n k s" and "Dad_Roll [] \<notin> set es"
  shows "course_inv w n k (dad_events w es s)"
  using assms(2,3)
proof (induction es arbitrary: s)
  case (Cons e es)
  have "course_inv w n k (dad_event_step w e s)" using Cons.prems by (intro course_inv_step [OF assms(1)]) auto
  then show ?case using Cons by (simp add: dad_events_def)
qed (simp add: dad_events_def)

lemma go_live_inv:
  assumes "wf_table du_id du_pair t" and "\<forall>r \<in> set (tb_rows t). du_twitch_id r = n \<longrightarrow> du_key r \<noteq> k"
  shows "course_inv w n k (dad_go_live w key us t)"
proof -
  have z: "persisted n k t c = 0" for c
  proof (cases "find_one (\<lambda>r. du_pair r = (n, c)) t")
    case (Some r)
    then have "r \<in> set (tb_rows t)" "du_twitch_id r = n"
      by (auto simp: find_one_def du_pair_def dest: find_Some_mem)
    then show ?thesis using assms(2) Some by (simp add: persisted_def)
  qed (simp add: persisted_def)
  show ?thesis using assms(1) z
    by (simp add: course_inv_def dad_go_live_def counted_rolls_def tally_def stream_of_def start_dad_stream_def new_dad_stream_def)
qed

text \<open>A bot that forgot nothing at each of its rolls answers like one that never restarted.\<close>

lemma rolls_snoc: "rolls (rs @ [(ch, c)]) us =
    (fst (rolls rs us) @ [fst (check_dad_limit ch c (snd (rolls rs us)))], snd (check_dad_limit ch c (snd (rolls rs us))))"
  by (induction rs us rule: rolls.induct) (auto split: prod.splits)

definition rolls_of :: "dad_event list \<Rightarrow> string list" where
  "rolls_of es = concat (map (\<lambda>e. case e of Dad_Roll c \<Rightarrow> [c] | _ \<Rightarrow> []) es)"

lemma log_only_rolls: "dc_log (dad_event_step w e s) = dc_log s" if "\<And>c. e \<noteq> Dad_Roll c"
  using that by (cases e) (auto simp: dad_event_step_def Let_def)

lemma nothing_forgotten:
  assumes "live_channel w n k" and "course_inv w n k s0" and "Dad_Roll [] \<notin> set es" and "dc_log s0 = []"
    and "\<And>c. tally us (to_lower (sw_login w)) c = 0"
    and "\<And>pre c post. es = pre @ Dad_Roll c # post \<Longrightarrow> dc_missing (dad_events w pre s0) (to_lower c) = 0"
  shows "map snd (dc_log (dad_events w es s0)) = fst (rolls (map (Pair (sw_login w)) (rolls_of es)) us) \<and>
    (\<forall>c. tally (snd (rolls (map (Pair (sw_login w)) (rolls_of es)) us)) (to_lower (sw_login w)) c =
       counted_rolls c (dc_log (dad_events w es s0)))"
  using assms(3,6)
proof (induction es rule: rev_induct)
  case Nil
  then show ?case using assms(4,5) by (simp add: dad_events_def rolls_of_def counted_rolls_def)
next
  case (snoc e es)
  let ?s = "dad_events w es s0" and ?rs = "map (Pair (sw_login w)) (rolls_of es)"
  have IH: "map snd (dc_log ?s) = fst (rolls ?rs us)"
    "\<And>c. tally (snd (rolls ?rs us)) (to_lower (sw_login w)) c = counted_rolls c (dc_log ?s)"
    using snoc.IH snoc.prems by auto
  have run: "dad_events w (es @ [e]) s0 = dad_event_step w e ?s" by (simp add: dad_events_def)
  have quiet: ?case if "\<And>c. e \<noteq> Dad_Roll c"
  proof -
    have "rolls_of (es @ [e]) = rolls_of es" using that by (cases e) (auto simp: rolls_of_def)
    then show ?thesis unfolding run log_only_rolls [of e w ?s, OF that] using IH by simp
  qed
  show ?case
  proof (cases e)
    case (Dad_Roll c)
    let ?l = "to_lower (sw_login w)"
    have inv: "course_inv w n k ?s" using snoc.prems(1) by (intro course_inv_events [OF assms(1,2)]) simp
    have "dc_missing ?s (to_lower c) = 0" using snoc.prems(2) [of es c "[]"] Dad_Roll by simp
    then have m: "tally (dc_usage ?s) ?l (to_lower c) = counted_rolls (to_lower c) (dc_log ?s)"
      using inv unfolding course_inv_def by (metis add.right_neutral order_antisym)
    have rs: "map (Pair (sw_login w)) (rolls_of (es @ [e])) = ?rs @ [(sw_login w, c)]"
      by (simp add: rolls_of_def Dad_Roll)
    note sp = check_dad_limit_spec [of "sw_login w" c "snd (rolls ?rs us)"]
    have "0 \<le> counted_rolls b (dc_log ?s)" for b by (simp add: counted_rolls_def)
    then show ?thesis unfolding run rs rolls_snoc Dad_Roll [symmetric] unfolding Dad_Roll roll_step(1) m
      using IH sp by (auto simp: counted_rolls_snoc counted_def silent_iff dad_per_stream_limit_def)
  next
    case (Persist_Runs i net fl)
    then show ?thesis using quiet by simp
  next
    case Bot_Restart
    then show ?thesis using quiet by simp
  next
    case (Read_Back net fl)
    then show ?thesis using quiet by simp
  qed
qed


definition demo_stream_world :: stream_world where
  "demo_stream_world =
     (let u = \<lparr> us_id = 2, us_twitch_id = Some ''42'', us_login = Some ''nivek'', us_display_name = None,
                us_opt_in = True, us_live = True, us_key = Some ''k2'' \<rparr>
      in \<lparr> sw_login = ''nivek'', sw_bid = ''42'', sw_tracked = [bot_user_of u],
           sw_users = \<lparr> tb_rows = [u], tb_serial = 2 \<rparr> \<rparr>)"

definition demo_dad_rows :: "dad_usage_row table" where
  "demo_dad_rows = \<lparr> tb_rows = [\<lparr> du_id = 3, du_twitch_id = 42, du_chatter = ''urist'', du_count = 6, du_key = Some ''k1'' \<rparr>],
     tb_serial = 3 \<rparr>"

definition demo_dad_events :: "dad_event list" where
  "demo_dad_events = [Dad_Roll ''Urist'', Dad_Roll ''urist'', Persist_Runs 1 Answer_Lost no_faults, Persist_Runs 0 Net_Ok no_faults,
     Bot_Restart, Read_Back Net_Ok no_faults, Dad_Roll ''urist'', Dad_Roll ''urist'', Dad_Roll ''urist'', Dad_Roll ''urist'', Dad_Roll ''urist'']"


section \<open>Where the two tallies part\<close>

text \<open>
  A lost go-offline update leaks one stream's rolls into the next: when core-api still has the
  channel live, going live again mints no new stream key. The bot then serves the chatters afresh, but
  after its next restart a chatter who had used up the previous stream's rolls is met with silence.
\<close>

theorem missed_offline_leaks_rolls:
  assumes "live_channel w n k" and "wf_table du_id du_pair t" and "find_one (\<lambda>r. du_pair r = (n, to_lower c)) t = Some r"
    and "du_key r = k" and "dad_per_stream_limit < du_count r" and "\<forall>r \<in> set (tb_rows t). 0 \<le> du_count r"
    and "find_one (\<lambda>u. us_login u = Some (sw_login w)) (sw_users w) = Some u" and "us_live u"
    and "put_channel_state fl uuid (sw_login w) True (sw_users w) = (e, users')"
    and "distinct (map us_id (tb_rows (sw_users w)))"
  shows "users' = sw_users w \<and>
    fst (check_dad_limit (sw_login w) c (start_dad_stream (sw_login w) key us)) = Dad_Allow \<and>
    fst (check_dad_limit (sw_login w) c
      (rehydrate_dad_usage Net_Ok no_faults (sw_login w) (sw_bid w) users' t (\<lambda>_. None))) = Dad_Silent"
proof -
  have u: "u \<in> set (tb_rows (sw_users w))" using assms(7) by (auto simp: find_one_def dest: find_Some_mem)
  have rows: "map (\<lambda>x. if us_id x = us_id u then u else x) (tb_rows (sw_users w)) = tb_rows (sw_users w)"
    using u assms(10) by (intro map_idI) (auto simp: distinct_map inj_on_def)
  have live: "u\<lparr> us_live := True \<rparr> = u" using assms(8) by (cases u) simp
  have "write_user u (sw_users w) = None \<or> write_user u (sw_users w) = Some (sw_users w)"
    by (simp add: write_user_def update_row_def rows)
  moreover have "put_channel_state fl uuid (sw_login w) True (sw_users w) =
      (if fl 0 then (Some User_Db_Failed, sw_users w) else if fl 1 then (Some User_Db_Failed, sw_users w)
       else case write_user u (sw_users w) of None \<Rightarrow> (Some User_Db_Failed, sw_users w) | Some t' \<Rightarrow> (None, t'))"
    by (simp add: put_channel_state_def assms(7,8) live)
  ultimately have same: "users' = sw_users w" using assms(9) by (auto split: if_splits)
  have nn: "0 \<le> persisted n k t b" for b
    using assms(6) find_Some_mem [of "\<lambda>r. du_pair r = (n, b)" "tb_rows t"]
    by (auto simp: persisted_def find_one_def split: option.splits)
  have "persisted n k t (to_lower c) = du_count r" using assms(3,4) by (simp add: persisted_def)
  then have "tally (rehydrate_dad_usage Net_Ok no_faults (sw_login w) (sw_bid w) users' t (\<lambda>_. None))
      (to_lower (sw_login w)) (to_lower c) = du_count r"
    unfolding same rehydrated_tally [OF assms(1,2) nn] .
  then have "fst (check_dad_limit (sw_login w) c
      (rehydrate_dad_usage Net_Ok no_faults (sw_login w) (sw_bid w) users' t (\<lambda>_. None))) = Dad_Silent"
    using assms(5) check_dad_limit_spec [of "sw_login w" c] by (simp add: decision_for_def)
  moreover have "fst (check_dad_limit (sw_login w) c (start_dad_stream (sw_login w) key us)) = Dad_Allow"
    using check_dad_limit_spec [of "sw_login w" c "start_dad_stream (sw_login w) key us"]
    by (simp add: tally_def stream_of_def start_dad_stream_def new_dad_stream_def decision_for_def dad_per_stream_limit_def)
  ultimately show ?thesis using same by blast
qed

definition worn_dad_rows :: "dad_usage_row table" where
  "worn_dad_rows = \<lparr> tb_rows = [\<lparr> du_id = 3, du_twitch_id = 42, du_chatter = ''urist'', du_count = 6, du_key = Some ''k2'' \<rparr>],
     tb_serial = 3 \<rparr>"

theorem missed_offline_leaks_rolls_witness:
  "fst (check_dad_limit ''nivek'' ''urist'' (rehydrate_dad_usage Net_Ok no_faults ''nivek'' ''42''
      (snd (put_channel_state no_faults ''k3'' ''nivek'' True (sw_users demo_stream_world))) worn_dad_rows (\<lambda>_. None))) = Dad_Silent"
proof -
  have l: "live_channel demo_stream_world 42 (Some ''k2'')" "wf_table du_id du_pair worn_dad_rows"
    "find_one (\<lambda>r. du_pair r = (42, to_lower ''urist'')) worn_dad_rows = Some (tb_rows worn_dad_rows ! 0)"
    "du_key (tb_rows worn_dad_rows ! 0) = Some ''k2''" "dad_per_stream_limit < du_count (tb_rows worn_dad_rows ! 0)"
    "\<forall>r \<in> set (tb_rows worn_dad_rows). 0 \<le> du_count r"
    "find_one (\<lambda>u. us_login u = Some (sw_login demo_stream_world)) (sw_users demo_stream_world) =
       Some (tb_rows (sw_users demo_stream_world) ! 0)" "us_live (tb_rows (sw_users demo_stream_world) ! 0)"
    "distinct (map us_id (tb_rows (sw_users demo_stream_world)))"
    "sw_login demo_stream_world = ''nivek''" "sw_bid demo_stream_world = ''42''"
    by code_simp+
  show ?thesis
    using missed_offline_leaks_rolls [OF l(1-8) prod.collapse [symmetric] l(9), of no_faults "''k3''"]
    unfolding l(10,11) by blast
qed

end
