(* ===== verification/Bot_Live_Properties.thy ===== *)
theory Bot_Live_Properties
  imports Bot_Live Bot_Chat_Properties Dad_Properties
begin

text \<open>
  Redelivered messages, banished channels, concurrent joins, and what the webhook lets in.
\<close>

section \<open>Redelivery\<close>

lemma window_keeps:
  assumes "w = ys @ i # zs" and "length zs + length js < n" and "length w \<le> n"
  shows "i \<in> set (snd (window_seen_all n js w))"
  using assms
proof (induction js arbitrary: w ys zs)
  case (Cons j js)
  obtain b w1 where s: "window_seen n j w = (b, w1)" by (meson surj_pair)
  have run: "snd (window_seen_all n (j # js) w) = snd (window_seen_all n js w1)" by (simp add: s split_beta del: window_seen.simps)
  show ?case
  proof (cases "j = [] \<or> j \<in> set w")
    case True
    then have "w1 = w" using s by (auto split: if_splits)
    then show ?thesis unfolding run using Cons.IH [OF Cons.prems(1)] Cons.prems by simp
  next
    case False
    then have w1: "w1 = (if length w = n then tl w else w) @ [j]" using s by (auto split: if_splits)
    obtain ys' where "w1 = ys' @ i # (zs @ [j])" and "length w1 \<le> n"
    proof (cases "length w = n")
      case True
      then have "ys \<noteq> []" using Cons.prems by auto
      then have "w1 = tl ys @ i # (zs @ [j])" using w1 True Cons.prems(1) by simp
      moreover have "length w1 \<le> n" using w1 True Cons.prems(1) by simp
      ultimately show ?thesis by (rule that)
    next
      case False
      then have "w1 = ys @ i # (zs @ [j])" "length w1 \<le> n" using w1 Cons.prems by auto
      then show ?thesis by (rule that)
    qed
    then show ?thesis unfolding run using Cons.prems(2) by (intro Cons.IH) auto
  qed
qed simp

text \<open>A handler advances the cache by its message id and nothing else.\<close>

lemma handle_seen: "bt_seen (snd (handle_webhook_message m b)) = snd (seen (cm_message_id m) (bt_seen b))"
  by (auto simp: handle_webhook_message_def Let_def split: prod.splits bool.splits option.splits)

definition handle_all :: "chat_message list \<Rightarrow> bot \<Rightarrow> bot" where
  "handle_all ms b = fold (\<lambda>m b. snd (handle_webhook_message m b)) ms b"

lemma handle_all_seen: "bt_seen (handle_all ms b) = snd (seen_all (map cm_message_id ms) (bt_seen b))"
  by (induction ms arbitrary: b) (simp_all add: handle_all_def handle_seen split_beta)

text \<open>
  A redelivered chat message does nothing: handed in again before 8192 other messages have come
  between, it starts no command, says nothing, records nothing and shouts nobody out.
\<close>

theorem redelivered_message_is_dropped:
  assumes "cache_inv n (bt_seen b)" and "cm_message_id m \<noteq> []" and "\<not> fst (seen (cm_message_id m) (bt_seen b))"
    and "length ms < n"
  shows "fst (handle_webhook_message m (handle_all ms (snd (handle_webhook_message m b)))) = []"
proof -
  let ?i = "cm_message_id m"
  let ?c = "snd (seen ?i (bt_seen b))"
  let ?d = "snd (seen_all (map cm_message_id ms) ?c)"
  have R: "cache_inv n ?c" "window ?c = snd (window_seen n ?i (window (bt_seen b)))"
    "fst (window_seen n ?i (window (bt_seen b))) = False"
    using seen_refines [OF assms(1), of ?i] assms(3) by (simp_all del: window_seen.simps)
  have "?i \<notin> set (window (bt_seen b))" using R(3) assms(2) by auto
  then have W: "window ?c = (if length (window (bt_seen b)) = n then tl (window (bt_seen b)) else window (bt_seen b)) @ ?i # []"
    using R(2) assms(2) by simp
  have "length (window ?c) \<le> n" using window_length [OF R(1)] R(1) by (auto simp: cache_inv_def)
  then have "?i \<in> set (snd (window_seen_all n (map cm_message_id ms) (window ?c)))"
    using window_keeps [OF W, of "map cm_message_id ms" n] assms(4) by simp
  then have "?i \<in> mc_set ?d"
    using seen_all_refines [OF R(1), of "map cm_message_id ms"] by (simp add: cache_inv_def)
  then have "seen ?i ?d = (True, ?d)" using assms(2) by (simp add: seen_def)
  moreover have "bt_seen (handle_all ms (snd (handle_webhook_message m b))) = ?d"
    by (simp add: handle_all_seen handle_seen)
  ultimately show ?thesis by (simp add: handle_webhook_message_def)
qed

lemma demo_bot_seen: "bt_seen demo_bot = new_id_cache 4" by code_simp

theorem redelivered_message_is_dropped_witness:
  "fst (handle_webhook_message (demo_chat ''!fish'') (handle_all [demo_chat ''hi''\<lparr> cm_message_id := ''n'' \<rparr>]
     (snd (handle_webhook_message (demo_chat ''!fish'') demo_bot)))) = []"
proof (rule redelivered_message_is_dropped)
  have "cache_size 4 = 4" by (simp add: cache_size_def)
  then show "cache_inv 4 (bt_seen demo_bot)" unfolding demo_bot_seen using cache_inv_new(1) [of 4] by simp
  show "\<not> fst (seen (cm_message_id (demo_chat ''!fish'')) (bt_seen demo_bot))" by code_simp
qed (simp_all add: demo_chat_def)

section \<open>Banishment\<close>

text \<open>
  C37: A banished channel stays left: once the bot was sent away and core-api recorded the opt-out, a
  later go-live of that channel, whose subscription Twitch may still hold, makes the bot do nothing and
  changes nothing, as long as core-api answers the opt-in check; if the check fails, the bot returns.
\<close>

theorem banished_channel_stays_left:
  assumes "banish_channel listing channel channel_id via_helix b = (acts, b')"
    and "post_opt_out_endpoint fl (Some (to_lower channel)) users = (Http_Ok (), users')"
    and "post_opt_in_check_endpoint fl2 (Some (to_lower (se_login ev))) users' = (answer, users'')"
    and "opted = (case answer of Http_Ok x \<Rightarrow> Some x | _ \<Rightarrow> None)"
    and "to_lower (se_login ev) = to_lower channel" and "\<not> is_permanent_channel (bt_name b) channel"
    and "distinct (map us_id (tb_rows users))"
  shows "Irc_Depart (to_lower channel) \<in> set acts \<and> Opt_Out (to_lower channel) \<in> set acts \<and>
    (opted \<noteq> None \<longrightarrow> handle_go_live opted fetched ev b' = ([], b')) \<and>
    (opted = None \<longrightarrow> Irc_Join (se_login ev) \<in> set (fst (handle_go_live opted fetched ev b')))"
proof -
  let ?ch = "to_lower channel"
  have b': "bt_name b' = bt_name b" "bt_channels b' = filter (\<lambda>c. us_login c = None \<or> us_login c \<noteq> Some ?ch) (bt_channels b)"
    and acts: "Irc_Depart ?ch \<in> set acts" "Opt_Out ?ch \<in> set acts"
    using assms(1) by (auto simp: banish_channel_def Let_def set_live_def)
  have "\<not> is_tracked ?ch (filter (\<lambda>c. us_login c = None \<or> us_login c \<noteq> Some ?ch) cs)" for cs
    by (induction cs) auto
  then have tracked: "\<not> is_tracked_channel ?ch (bt_channels b')" by (simp add: is_tracked_channel_def b')
  have perm: "\<not> is_permanent_channel (bt_name b') ?ch"
    using assms(6) by (simp add: is_permanent_channel_def b' Let_def)
  obtain u where u: "find_one (\<lambda>u. us_login u = Some ?ch) users = Some u" and ne: "?ch \<noteq> []"
    and w: "write_user (u\<lparr> us_opt_in := False \<rparr>) users = Some users'"
  proof -
    have ne: "?ch \<noteq> []" and s: "set_bot_opt_in fl ?ch False users = (None, users')"
      using assms(2) by (auto simp: post_opt_out_endpoint_def split: if_splits prod.splits option.splits)
    show ?thesis
    proof (cases "find_one (\<lambda>u. us_login u = Some ?ch) users")
      case (Some u)
      show ?thesis using s by (intro that [OF Some ne]) (simp add: set_bot_opt_in_def Some split: if_splits option.splits)
    qed (use s in \<open>simp add: set_bot_opt_in_def split: if_splits\<close>)
  qed
  have rows: "tb_rows users' = map (\<lambda>x. if us_id x = us_id u then u\<lparr> us_opt_in := False \<rparr> else x) (tb_rows users)"
    using update_row_rows [OF write_user_update [OF w]] by simp
  have "find (\<lambda>u. us_login u = Some ?ch) (map (\<lambda>x. if us_id x = us_id u then u\<lparr> us_opt_in := False \<rparr> else x) xs) =
      Some (u\<lparr> us_opt_in := False \<rparr>)"
    if "find (\<lambda>u. us_login u = Some ?ch) xs = Some u" "distinct (map us_id xs)" for xs
    using that
  proof (induction xs)
    case (Cons x xs)
    show ?case
    proof (cases "us_login x = Some ?ch")
      case True
      then show ?thesis using Cons.prems by simp
    next
      case False
      then have f: "find (\<lambda>u. us_login u = Some ?ch) xs = Some u" using Cons.prems by simp
      then have "us_id x \<noteq> us_id u" using Cons.prems(2) find_Some_mem [OF f] by (auto simp: image_iff)
      then show ?thesis using Cons False f by simp
    qed
  qed simp
  then have found: "find_one (\<lambda>u. us_login u = Some ?ch) users' = Some (u\<lparr> us_opt_in := False \<rparr>)"
    using u assms(7) by (simp add: find_one_def rows)
  have "opted = None \<or> opted = Some False"
    using assms(3,4) found ne unfolding assms(5)
    by (auto simp: post_opt_in_check_endpoint_def is_bot_opt_in_def split: if_splits)
  moreover have "handle_go_live (Some False) fetched ev b' = ([], b')"
    using tracked perm assms(5) by (simp add: handle_go_live_def Let_def)
  moreover have "Irc_Join (se_login ev) \<in> set (fst (handle_go_live None fetched ev b'))"
    by (simp add: handle_go_live_def Let_def)
  ultimately show ?thesis using acts by auto
qed

definition banish_users :: "user table" where
  "banish_users = \<lparr> tb_rows = [\<lparr> us_id = 2, us_twitch_id = Some ''42'', us_login = Some ''nivek'', us_display_name = None,
     us_opt_in = True, us_live = False, us_key = None \<rparr>], tb_serial = 2 \<rparr>"

definition demo_stream :: stream_event where
  "demo_stream = \<lparr> se_broadcaster = ''42'', se_login = ''nivek'', se_name = ''Nivek'', se_started = ''now'' \<rparr>"

theorem banished_channel_stays_left_witness:
  "handle_go_live (Some False) None demo_stream (snd (banish_channel None ''Nivek'' ''42'' True demo_bot)) =
     ([], snd (banish_channel None ''Nivek'' ''42'' True demo_bot))"
proof -
  have l: "post_opt_out_endpoint no_faults (Some (to_lower ''Nivek'')) banish_users =
      (Http_Ok (), snd (post_opt_out_endpoint no_faults (Some ''nivek'') banish_users))"
    "post_opt_in_check_endpoint no_faults (Some (to_lower (se_login demo_stream)))
       (snd (post_opt_out_endpoint no_faults (Some ''nivek'') banish_users)) =
      (Http_Ok False, snd (post_opt_out_endpoint no_faults (Some ''nivek'') banish_users))"
    "to_lower (se_login demo_stream) = to_lower ''Nivek''" "\<not> is_permanent_channel (bt_name demo_bot) ''Nivek''"
    "distinct (map us_id (tb_rows banish_users))"
    by code_simp+
  show ?thesis
    using banished_channel_stays_left [OF prod.collapse [symmetric] l(1,2) refl l(3-5), of None "''42''" True None] by simp
qed

text \<open>Leaving a channel also takes the subscriptions of the broadcaster's overlay with it.\<close>

lemma banish_drops_foreign_subscriptions:
  assumes "s \<in> set subs" and "sub_broadcaster s = channel_id" and "channel_id \<noteq> []"
  shows "Unsubscribe (sub_id s) \<in> set (fst (banish_channel (Some subs) channel channel_id via_helix b))"
  using assms by (auto simp: banish_channel_def Let_def unsubscribe_channel_webhooks_def)

section \<open>Concurrent joins\<close>

text \<open>
  Goroutines of \<^verbatim>\<open>!joinme\<close> and of \<^verbatim>\<open>!banish\<close> interleave: \<open>run\<close> lists the chatters whose join is between
  its two critical sections. A profile looked up by id carries that id.
\<close>

inductive join_step :: "joins \<times> string list \<Rightarrow> joins \<times> string list \<Rightarrow> bool" where
  claimed: "claim_join c s = (True, s') \<Longrightarrow> join_step (s, run) (s', c # run)"
| refused: "claim_join c s = (False, s') \<Longrightarrow> join_step (s, run) (s', run)"
| ended: "c \<in> set run \<Longrightarrow> (\<forall>p. profile = Some p \<longrightarrow> tp_id p = c) \<Longrightarrow>
    join_step (s, run) (end_join profile live created c s, remove1 c run)"
| left: "join_step (s, run) (s\<lparr> jn_channels := filter P (jn_channels s) \<rparr>, run)"

inductive join_runs :: "joins \<times> string list \<Rightarrow> joins \<times> string list \<Rightarrow> bool" for z where
  start: "join_runs z z"
| step: "join_runs z x \<Longrightarrow> join_step x y \<Longrightarrow> join_runs z y"

definition joined_ids :: "joins \<Rightarrow> string list" where
  "joined_ids s = concat (map (\<lambda>u. case us_twitch_id u of None \<Rightarrow> [] | Some i \<Rightarrow> [i]) (jn_channels s))"

definition joins_ok :: "joins \<times> string list \<Rightarrow> bool" where
  "joins_ok x \<longleftrightarrow> distinct (joined_ids (fst x) @ snd x) \<and> (\<forall>c. jn_in_flight (fst x) c \<longleftrightarrow> c \<in> set (snd x))"

lemma joined_ids_mem: "i \<in> set (joined_ids s) \<longleftrightarrow> (\<exists>u \<in> set (jn_channels s). us_twitch_id u = Some i)"
  by (auto simp: joined_ids_def split: option.splits) (force split: option.splits)

lemma joined_ids_filter:
  "distinct (joined_ids s) \<Longrightarrow> distinct (joined_ids (s\<lparr> jn_channels := filter P (jn_channels s) \<rparr>)) \<and>
     set (joined_ids (s\<lparr> jn_channels := filter P (jn_channels s) \<rparr>)) \<subseteq> set (joined_ids s)"
proof -
  have "distinct (concat (map (\<lambda>u. case us_twitch_id u of None \<Rightarrow> [] | Some i \<Rightarrow> [i]) us)) \<Longrightarrow>
      distinct (concat (map (\<lambda>u. case us_twitch_id u of None \<Rightarrow> [] | Some i \<Rightarrow> [i]) (filter P us))) \<and>
      set (concat (map (\<lambda>u. case us_twitch_id u of None \<Rightarrow> [] | Some i \<Rightarrow> [i]) (filter P us))) \<subseteq>
      set (concat (map (\<lambda>u. case us_twitch_id u of None \<Rightarrow> [] | Some i \<Rightarrow> [i]) us))" for us :: "bot_user list"
    by (induction us) (auto split: option.splits)
  then show "distinct (joined_ids s) \<Longrightarrow> ?thesis" by (simp add: joined_ids_def)
qed

lemma join_step_ok: "join_step x y \<Longrightarrow> joins_ok x \<Longrightarrow> joins_ok y"
proof (induction rule: join_step.induct)
  case (claimed c s s' run)
  then have "joined_ids s' = joined_ids s" "c \<notin> set (joined_ids s)" "\<not> jn_in_flight s c"
      "jn_in_flight s' = (jn_in_flight s)(c := True)"
    by (auto simp: claim_join_def joined_ids_mem joined_ids_def split: if_splits)
  then show ?case using claimed.prems by (auto simp: joins_ok_def)
next
  case (refused c s s' run)
  then show ?case by (auto simp: claim_join_def split: if_splits)
next
  case (ended c run profile s live created)
  have old: "distinct (joined_ids s)" "distinct run" "set (joined_ids s) \<inter> set run = {}"
    "\<And>d. jn_in_flight s d \<longleftrightarrow> d \<in> set run"
    using ended.prems by (auto simp: joins_ok_def)
  let ?s = "end_join profile live created c s"
  have ids: "joined_ids ?s = joined_ids s \<or> joined_ids ?s = joined_ids s @ [c]"
    using ended.hyps(2)
    by (auto simp: end_join_def Let_def joined_ids_def new_joined_user_def bot_user_of_def new_twitch_user_def split: option.splits)
  have fl: "jn_in_flight ?s d \<longleftrightarrow> d \<noteq> c \<and> d \<in> set run" for d
    using old(4) by (auto simp: end_join_def Let_def split: option.splits)
  have rest: "set (remove1 c run) = set run - {c}" "distinct (remove1 c run)" using old(2) by simp_all
  have "c \<notin> set (joined_ids s)" using ended.hyps(1) old(3) by blast
  then have "distinct (joined_ids ?s @ remove1 c run)" using ids old rest by auto
  then show ?case using fl rest by (auto simp: joins_ok_def)
next
  case (left s run P)
  then show ?case using joined_ids_filter [of s P] by (auto simp: joins_ok_def)
qed

text \<open>
  C36: However joins and leaves interleave, the bot never tracks a broadcaster twice, and no join is under
  way for a broadcaster it already tracks.
\<close>

theorem joined_once:
  assumes "join_runs (s0, []) (s, run)" and "distinct (joined_ids s0)" and "\<forall>c. \<not> jn_in_flight s0 c"
  shows "distinct (joined_ids s) \<and> distinct run \<and> set (joined_ids s) \<inter> set run = {}"
proof -
  have "joins_ok y" if "join_runs (s0, []) y" for y
    using that
  proof (induction rule: join_runs.induct)
    case start
    show ?case using assms(2,3) by (simp add: joins_ok_def)
  next
    case (step x y)
    then show ?case using join_step_ok by blast
  qed
  from this [OF assms(1)] show ?thesis by (auto simp: joins_ok_def)
qed

theorem joined_once_witness:
  "\<exists>s. join_runs (\<lparr> jn_channels = [], jn_in_flight = (\<lambda>_. False) \<rparr>, []) (s, []) \<and> joined_ids s = [''42''] \<and>
     distinct (joined_ids s)"
proof -
  let ?s0 = "\<lparr> jn_channels = [], jn_in_flight = (\<lambda>_. False) \<rparr> :: joins"
  let ?p = "\<lparr> tp_id = ''42'', tp_login = ''nivek'', tp_display_name = ''Nivek'' \<rparr>"
  let ?s1 = "snd (claim_join ''42'' ?s0)"
  have c1: "claim_join ''42'' ?s0 = (True, ?s1)" by (simp add: claim_join_def)
  have c2: "claim_join ''42'' ?s1 = (False, ?s1)" by (simp add: claim_join_def)
  have r: "join_runs (?s0, []) (end_join (Some ?p) True True ''42'' ?s1, remove1 ''42'' [''42''])"
    by (rule join_runs.step [OF join_runs.step [OF join_runs.step [OF join_runs.start join_step.claimed [OF c1]]
          join_step.refused [OF c2]] join_step.ended]) simp_all
  have i: "joined_ids (end_join (Some ?p) True True ''42'' ?s1) = [''42'']"
    by (simp add: claim_join_def end_join_def joined_ids_def new_joined_user_def bot_user_of_def new_twitch_user_def)
  have "distinct (joined_ids (end_join (Some ?p) True True ''42'' ?s1))"
    using joined_once [of ?s0 "end_join (Some ?p) True True ''42'' ?s1" "[]"] r by (simp add: joined_ids_def)
  then show ?thesis using r i by auto
qed

section \<open>The webhook\<close>

text \<open>
  Only Twitch's own deliveries act on the bot: without a valid signature, or without a configured
  secret, a request is refused and changes nothing. A delivery of a go-live is not checked for freshness
  or repetition, so a signed go-live that is delivered again starts everyone's allotment anew.
\<close>

theorem unsigned_deliveries_are_refused:
  "(\<not> verify_signature hmac h (case body of None \<Rightarrow> [] | Some raw \<Rightarrow> raw) secret \<or> secret = [] \<longrightarrow>
      (\<exists>n. bot_eventsub_endpoint hmac secret decode opted fetched h body b = (Hook_Status n, [], b) \<and> n \<in> {400, 403})) \<and>
   (body = Some raw \<longrightarrow> verify_signature hmac h raw secret \<longrightarrow> decode raw = Some note \<longrightarrow>
      hd_message_type h = ''notification'' \<longrightarrow> bn_type note = ''stream.online'' \<longrightarrow> bn_stream note = Some ev \<longrightarrow>
      opted (to_lower (se_login ev)) \<noteq> Some False \<longrightarrow>
      tally (bt_dad (snd (snd (bot_eventsub_endpoint hmac secret decode opted fetched h body b)))) (to_lower (se_login ev)) c = 0)"
proof (intro conjI impI)
  assume a: "\<not> verify_signature hmac h (case body of None \<Rightarrow> [] | Some raw \<Rightarrow> raw) secret \<or> secret = []"
  show "\<exists>n. bot_eventsub_endpoint hmac secret decode opted fetched h body b = (Hook_Status n, [], b) \<and> n \<in> {400, 403}"
  proof (cases body)
    case (Some raw)
    have "\<not> verify_signature hmac h raw secret" if "secret = []" using that by (simp add: verify_signature_def)
    moreover have "\<not> verify_signature hmac h raw secret" if "secret \<noteq> []" using that a Some by simp
    ultimately have "\<not> verify_signature hmac h raw secret" by blast
    then show ?thesis by (simp add: bot_eventsub_endpoint_def Some)
  qed (simp add: bot_eventsub_endpoint_def)
next
  assume a: "body = Some raw" "verify_signature hmac h raw secret" "decode raw = Some note"
    "hd_message_type h = ''notification''" "bn_type note = ''stream.online''" "bn_stream note = Some ev"
    "opted (to_lower (se_login ev)) \<noteq> Some False"
  show "tally (bt_dad (snd (snd (bot_eventsub_endpoint hmac secret decode opted fetched h body b)))) (to_lower (se_login ev)) c = 0"
    using a by (simp add: bot_eventsub_endpoint_def handle_go_live_def Let_def tally_def stream_of_def
        start_dad_stream_def new_dad_stream_def)
qed

theorem unsigned_deliveries_are_refused_witness:
  "\<exists>n. bot_eventsub_endpoint (\<lambda>k m. k) [] (\<lambda>_. None) (\<lambda>_. None) (\<lambda>_. None)
       \<lparr> hd_message_id = ''i'', hd_timestamp = ''t'', hd_signature = ''sha256='', hd_message_type = ''notification'',
         hd_subscription_type = ''stream.online'' \<rparr> (Some ''{}'') demo_bot = (Hook_Status n, [], demo_bot) \<and> n \<in> {400, 403}"
  by (rule unsigned_deliveries_are_refused [THEN conjunct1, THEN mp]) simp

end
