(* ===== verification/Auto_Shout_Properties.thy ===== *)
theory Auto_Shout_Properties
  imports Auto_Shout
begin

text \<open>
  Automatic shout-outs across the messages of a stream and the restarts of the bot: each chatter of the
  list is shouted out once, unless the list names the chatter twice.
\<close>

section \<open>Who is still to be shouted out\<close>

definition pending :: "int \<Rightarrow> string option \<Rightarrow> shout_chatter table \<Rightarrow> string list" where
  "pending n k t = map sc_chatter (filter (\<lambda>r. sc_twitch_id r = n \<and> sc_key r \<noteq> k) (tb_rows t))"

definition listed_once :: "int \<Rightarrow> shout_chatter table \<Rightarrow> bool" where
  "listed_once n t \<longleftrightarrow> distinct (map sc_chatter (filter (\<lambda>r. sc_twitch_id r = n) (tb_rows t)))"

definition live_broadcaster :: "stream_world \<Rightarrow> int \<Rightarrow> user \<Rightarrow> bool" where
  "live_broadcaster w n u \<longleftrightarrow> n \<noteq> 0 \<and> atoi (sw_bid w) = Some n \<and>
     filter (\<lambda>v. us_twitch_id v = Some (itoa n)) (tb_rows (sw_users w)) = [u] \<and>
     channel_twitch_id (sw_login w) (sw_tracked w) = Some (sw_bid w)"

lemma pending_distinct: "listed_once n t \<Longrightarrow> distinct (pending n k t)"
proof -
  have "filter (\<lambda>r. sc_twitch_id r = n \<and> sc_key r \<noteq> k) (tb_rows t) =
      filter (\<lambda>r. sc_key r \<noteq> k) (filter (\<lambda>r. sc_twitch_id r = n) (tb_rows t))"
    by simp
  then show "listed_once n t \<Longrightarrow> distinct (pending n k t)"
    unfolding listed_once_def pending_def by (metis distinct_map_filter)
qed

lemma fetch_pending:
  assumes "live_broadcaster w n u"
  shows "fetch_auto_shout_chatters Net_Ok no_faults (sw_bid w) (sw_login w) (sw_users w) t ls =
    ls(sw_login w \<mapsto> pending n (us_key u) t)"
proof -
  let ?us = "tb_rows (sw_users w)"
  have one: "filter (\<lambda>v. us_twitch_id v = Some (itoa n) \<and> key \<noteq> us_key v) ?us = (if key \<noteq> us_key u then [u] else [])" for key
  proof -
    have "filter (\<lambda>v. us_twitch_id v = Some (itoa n) \<and> key \<noteq> us_key v) ?us =
        filter (\<lambda>v. key \<noteq> us_key v) (filter (\<lambda>v. us_twitch_id v = Some (itoa n)) ?us)"
      by simp
    moreover have "filter (\<lambda>v. us_twitch_id v = Some (itoa n)) ?us = [u]" using assms by (simp add: live_broadcaster_def)
    ultimately show ?thesis by simp
  qed
  have "concat (map (\<lambda>r. map (\<lambda>_. sc_chatter r)
        (filter (\<lambda>v. us_twitch_id v = Some (itoa (sc_twitch_id r)) \<and> sc_key r \<noteq> us_key v) ?us))
        (filter (\<lambda>r. sc_twitch_id r = n) xs)) =
      map sc_chatter (filter (\<lambda>r. sc_twitch_id r = n \<and> sc_key r \<noteq> us_key u) xs)" for xs
    by (induction xs) (simp_all add: one)
  then have "get_auto_shout_endpoint no_faults (sw_bid w) (sw_users w) t = (Http_Ok (pending n (us_key u) t), t)"
    using assms by (simp add: get_auto_shout_endpoint_def get_auto_shout_chatters_for_bot_def live_broadcaster_def
        no_faults_def find_rows_def pending_def)
  then show ?thesis by (simp add: fetch_auto_shout_chatters_def api_call_def)
qed

lemma increment_pending:
  assumes "live_broadcaster w n u" and "name \<noteq> []"
  shows "pending n (us_key u) (increment_auto_shout Net_Ok no_faults now (sw_login w) name (sw_tracked w) (sw_users w) t) =
      filter (\<lambda>c. c \<noteq> name) (pending n (us_key u) t)"
    and "listed_once n (increment_auto_shout Net_Ok no_faults now (sw_login w) name (sw_tracked w) (sw_users w) t) =
      listed_once n t"
proof -
  have u: "find_one (\<lambda>v. us_twitch_id v = Some (itoa n)) (sw_users w) = Some u"
  proof -
    have "find P xs = (case filter P xs of [] \<Rightarrow> None | x # _ \<Rightarrow> Some x)" for P and xs :: "user list"
      by (induction xs) auto
    then show ?thesis using assms(1) by (simp add: find_one_def live_broadcaster_def)
  qed
  define g where "g r = (if sc_twitch_id r = n \<and> sc_chatter r = name
      then r\<lparr> sc_count := sc_count r + 1, sc_key := us_key u, sc_updated := now \<rparr> else r)" for r :: shout_chatter
  have inc: "tb_rows (increment_auto_shout Net_Ok no_faults now (sw_login w) name (sw_tracked w) (sw_users w) t) =
      map g (tb_rows t)"
    using assms u
    by (simp add: increment_auto_shout_def live_broadcaster_def api_call_def post_auto_shout_increment_endpoint_def
        increment_shout_count_def no_faults_def update_where_def g_def [abs_def])
  have "map sc_chatter (filter (\<lambda>r. sc_twitch_id r = n \<and> sc_key r \<noteq> us_key u) (map g xs)) =
      filter (\<lambda>c. c \<noteq> name) (map sc_chatter (filter (\<lambda>r. sc_twitch_id r = n \<and> sc_key r \<noteq> us_key u) xs))" for xs
    by (induction xs) (auto simp: g_def)
  then show "pending n (us_key u) (increment_auto_shout Net_Ok no_faults now (sw_login w) name (sw_tracked w) (sw_users w) t) =
      filter (\<lambda>c. c \<noteq> name) (pending n (us_key u) t)"
    by (simp add: pending_def inc)
  have "map sc_chatter (filter (\<lambda>r. sc_twitch_id r = n) (map g xs)) =
      map sc_chatter (filter (\<lambda>r. sc_twitch_id r = n) xs)" for xs
    by (induction xs) (auto simp: g_def)
  then show "listed_once n (increment_auto_shout Net_Ok no_faults now (sw_login w) name (sw_tracked w) (sw_users w) t) =
      listed_once n t"
    by (simp add: listed_once_def inc)
qed

section \<open>A stream\<close>

text \<open>Messages of chatters and restarts of the bot; each shout-out is persisted before the next event.\<close>

datatype shout_event = Chat_From string | Shout_Restart

definition shout_step ::
  "stream_world \<Rightarrow> shout_event \<Rightarrow> shout_lists \<times> shout_chatter table \<Rightarrow> string list \<times> shout_lists \<times> shout_chatter table" where
  "shout_step w e s =
     (case s of (ls, t) \<Rightarrow>
        (case e of
           Chat_From name \<Rightarrow>
             (case auto_shout (sw_login w) name ls of (due, ls') \<Rightarrow>
                if due
                then ([name], ls', increment_auto_shout Net_Ok no_faults 0 (sw_login w) name (sw_tracked w) (sw_users w) t)
                else ([], ls', t))
         | Shout_Restart \<Rightarrow>
             ([], fetch_auto_shout_chatters Net_Ok no_faults (sw_bid w) (sw_login w) (sw_users w) t (\<lambda>_. None), t)))"

fun shouts :: "stream_world \<Rightarrow> shout_event list \<Rightarrow> shout_lists \<times> shout_chatter table \<Rightarrow> string list" where
  "shouts w [] s = []"
| "shouts w (e # es) s = (case shout_step w e s of (names, s') \<Rightarrow> names @ shouts w es s')"

definition up_to_date :: "stream_world \<Rightarrow> int \<Rightarrow> string option \<Rightarrow> shout_lists \<times> shout_chatter table \<Rightarrow> bool" where
  "up_to_date w n k s \<longleftrightarrow> listed_once n (snd s) \<and> fst s (sw_login w) = Some (pending n k (snd s))"

lemma shouts_spec:
  assumes "live_broadcaster w n u" and "up_to_date w n (us_key u) s" and "Chat_From [] \<notin> set es"
  shows "distinct (shouts w es s) \<and>
    set (shouts w es s) = {name \<in> set (pending n (us_key u) (snd s)). Chat_From name \<in> set es}"
  using assms(2,3)
proof (induction es arbitrary: s)
  case (Cons e es)
  obtain ls t where s: "s = (ls, t)" by (cases s)
  have old: "listed_once n t" "ls (sw_login w) = Some (pending n (us_key u) t)"
    using Cons.prems(1) by (simp_all add: up_to_date_def s)
  have es: "Chat_From [] \<notin> set es" using Cons.prems(2) by simp
  show ?case
  proof (cases e)
    case Shout_Restart
    have st: "shout_step w e s = ([], ((\<lambda>_. None)(sw_login w \<mapsto> pending n (us_key u) t), t))"
      by (simp add: shout_step_def s Shout_Restart fetch_pending [OF assms(1)])
    have "up_to_date w n (us_key u) ((\<lambda>_. None)(sw_login w \<mapsto> pending n (us_key u) t), t)"
      using old by (simp add: up_to_date_def)
    from Cons.IH [OF this es] show ?thesis by (simp add: st) (simp add: Shout_Restart s)
  next
    case (Chat_From name)
    have ne: "name \<noteq> []" using Cons.prems(2) Chat_From by auto
    show ?thesis
    proof (cases "name \<in> set (pending n (us_key u) t)")
      case False
      have st: "shout_step w e s = ([], s)"
        using False by (simp add: shout_step_def s Chat_From auto_shout_def old)
      have "shouts w (e # es) s = shouts w es s" by (simp add: st)
      moreover have "{x \<in> set (pending n (us_key u) (snd s)). Chat_From x \<in> set (e # es)} =
          {x \<in> set (pending n (us_key u) (snd s)). Chat_From x \<in> set es}"
        using False by (auto simp: s Chat_From)
      ultimately show ?thesis using Cons.IH [OF Cons.prems(1) es] by simp
    next
      case True
      let ?t = "increment_auto_shout Net_Ok no_faults 0 (sw_login w) name (sw_tracked w) (sw_users w) t"
      let ?ls = "ls(sw_login w \<mapsto> remove1 name (pending n (us_key u) t))"
      note inc = increment_pending [OF assms(1) ne, of 0 t]
      have st: "shout_step w e s = ([name], (?ls, ?t))"
        using True by (simp add: shout_step_def s Chat_From auto_shout_def old)
      have "remove1 name (pending n (us_key u) t) = filter (\<lambda>c. c \<noteq> name) (pending n (us_key u) t)"
        using pending_distinct [OF old(1)] by (simp add: distinct_remove1_removeAll removeAll_filter_not_eq eq_commute)
      then have "up_to_date w n (us_key u) (?ls, ?t)" using inc old(1) by (simp add: up_to_date_def)
      from Cons.IH [OF this es] have D: "distinct (shouts w es (?ls, ?t))"
        and S: "set (shouts w es (?ls, ?t)) =
          {x. x \<in> set (pending n (us_key u) t) \<and> x \<noteq> name \<and> Chat_From x \<in> set es}"
        by (simp_all add: inc(1) conj_assoc)
      have run: "shouts w (e # es) s = name # shouts w es (?ls, ?t)" by (simp add: st)
      have "{x \<in> set (pending n (us_key u) (snd s)). Chat_From x \<in> set (e # es)} =
          insert name {x. x \<in> set (pending n (us_key u) t) \<and> x \<noteq> name \<and> Chat_From x \<in> set es}"
        using True by (auto simp: s Chat_From)
      then show ?thesis unfolding run using D S by simp
    qed
  qed
qed simp

text \<open>
  From a go-live on, however the bot restarts in between, exactly those chatters are shouted out
  who write and had not been shouted out in this stream, each exactly once.
\<close>

theorem shouted_out_once:
  assumes "live_broadcaster w n u" and "listed_once n t" and "Chat_From [] \<notin> set es"
  shows "distinct (shouts w (Shout_Restart # es) (ls, t)) \<and>
    set (shouts w (Shout_Restart # es) (ls, t)) = {name \<in> set (pending n (us_key u) t). Chat_From name \<in> set es}"
proof -
  have "up_to_date w n (us_key u) ((\<lambda>_. None)(sw_login w \<mapsto> pending n (us_key u) t), t)"
    using assms(2) by (simp add: up_to_date_def)
  from shouts_spec [OF assms(1) this assms(3)] show ?thesis
    by (simp add: shout_step_def fetch_pending [OF assms(1)])
qed

definition shout_world :: stream_world where
  "shout_world =
     (let u = \<lparr> us_id = 2, us_twitch_id = Some ''42'', us_login = Some ''nivek'', us_display_name = None,
                us_opt_in = True, us_live = True, us_key = Some ''k2'' \<rparr>
      in \<lparr> sw_login = ''nivek'', sw_bid = ''42'', sw_tracked = [bot_user_of u],
           sw_users = \<lparr> tb_rows = [u], tb_serial = 2 \<rparr> \<rparr>)"

definition shout_list :: "shout_chatter table" where
  "shout_list = snd (create_auto_shout_page no_faults 7 (Some (tb_rows (sw_users shout_world) ! 0)) (Some ''Urist'') empty_table)"

theorem shouted_out_once_witness:
  "set (shouts shout_world [Shout_Restart, Chat_From ''Urist'', Shout_Restart, Chat_From ''Bomrek'', Chat_From ''Urist'']
     (\<lambda>_. None, shout_list)) = {''Urist''}"
proof -
  have l: "live_broadcaster shout_world 42 (tb_rows (sw_users shout_world) ! 0)" "listed_once 42 shout_list"
    "Chat_From [] \<notin> set [Chat_From ''Urist'', Shout_Restart, Chat_From ''Bomrek'', Chat_From ''Urist'']"
    "pending 42 (us_key (tb_rows (sw_users shout_world) ! 0)) shout_list = [''Urist'']"
    by code_simp+
  show ?thesis using shouted_out_once [OF l(1-3), of "\<lambda>_. None"] by (auto simp: l(4))
qed

text \<open>
  The table has no uniqueness constraint on the chatters, so the dashboard can list one twice; then the
  chatter is shouted out twice in one stream.
\<close>

lemma listed_twice_shouted_twice:
  "let t2 = snd (create_auto_shout_page no_faults 8 (Some (tb_rows (sw_users shout_world) ! 0)) (Some ''Urist'') shout_list)
   in fst (create_auto_shout_page no_faults 8 (Some (tb_rows (sw_users shout_world) ! 0)) (Some ''Urist'') shout_list) = Shout_Ok () \<and>
      shouts shout_world [Shout_Restart, Chat_From ''Urist'', Chat_From ''Urist''] (\<lambda>_. None, t2) = [''Urist'', ''Urist'']"
  by code_simp

text \<open>The dashboard's update of a chatter changes nothing, whatever it is sent.\<close>

lemma update_auto_shout_changes_nothing:
  assumes "distinct (map sc_id (tb_rows t))"
  shows "snd (update_auto_shout_page fl usr payload t) = t"
proof -
  have "update_where (\<lambda>r. sc_id r = sc_id c) (\<lambda>r. c\<lparr> sc_key := sc_key r \<rparr>) t = t" if "c \<in> set (tb_rows t)" for c
  proof -
    have "map (\<lambda>x. if sc_id x = sc_id c then c\<lparr> sc_key := sc_key x \<rparr> else x) (tb_rows t) = tb_rows t"
      using that assms by (intro map_idI) (auto simp: distinct_map inj_on_def)
    then show ?thesis by (simp add: update_where_def)
  qed
  then show ?thesis
    by (auto simp: update_auto_shout_page_def update_auto_shout_chatter_def get_auto_shout_chatter_def find_one_def
        dest!: find_Some_mem split: option.splits sum.splits prod.splits if_splits)
qed

end
