(* ===== verification/Promo.thy ===== *)
theory Promo
  imports Api_Client Chat_Message
begin

text \<open>
  Recurring messages: the service (\<^verbatim>\<open>internal/libraries/promo\<close>), the bot-side and dashboard endpoints
  (\<^verbatim>\<open>cmd/core-api/endpoints/bot/promo.go\<close>, \<^verbatim>\<open>endpoints/promo\<close>), the \<^verbatim>\<open>!newpromo\<close> command
  (\<^verbatim>\<open>twitchbot/cmd_newpromo.go\<close>) and the scheduler loop (\<^verbatim>\<open>bot.go\<close>). Times are in nanoseconds and
  a parameter of the operations that read the clock.
\<close>

section \<open>The service\<close>

record promo =
  pr_id :: int
  pr_channel :: string
  pr_broadcaster :: string
  pr_message :: string
  pr_interval :: int
  pr_enabled :: bool
  pr_updated :: int

definition pr_with_id :: "promo \<Rightarrow> int \<Rightarrow> promo" where
  "pr_with_id p n = p\<lparr> pr_id := n \<rparr>"

definition min_interval_seconds :: int where
  "min_interval_seconds = 60"

definition max_interval_seconds :: int where
  "max_interval_seconds = 86400"

definition clamp_interval :: "int \<Rightarrow> int" where
  "clamp_interval seconds =
     (if seconds < min_interval_seconds then min_interval_seconds
      else if seconds > max_interval_seconds then max_interval_seconds else seconds)"

datatype promo_error = Broadcaster_Required | Promo_Not_Found | Promo_Db_Failed

definition list_for_channel :: "faults \<Rightarrow> string \<Rightarrow> promo table \<Rightarrow> promo_error + promo list" where
  "list_for_channel fl channel t =
     (if fl 0 then Inl Promo_Db_Failed else Inr (sort_key pr_id (find_rows (\<lambda>p. pr_channel p = channel) t)))"

definition list_active :: "faults \<Rightarrow> promo table \<Rightarrow> promo_error + promo list" where
  "list_active fl t = (if fl 0 then Inl Promo_Db_Failed else Inr (find_rows pr_enabled t))"

text \<open>The table's unique column is the broadcaster id.\<close>

definition promo_create ::
  "faults \<Rightarrow> int \<Rightarrow> string \<Rightarrow> string \<Rightarrow> string \<Rightarrow> int \<Rightarrow> promo table \<Rightarrow> (promo_error + promo) \<times> promo table" where
  "promo_create fl now channel broadcaster message seconds t =
     (if trim_space broadcaster = [] then (Inl Broadcaster_Required, t)
      else if fl 0 then (Inl Promo_Db_Failed, t)
      else case insert_row pr_with_id pr_broadcaster
                  \<lparr> pr_id = 0, pr_channel = channel, pr_broadcaster = broadcaster, pr_message = message,
                    pr_interval = clamp_interval seconds, pr_enabled = True, pr_updated = now \<rparr> t of
        None \<Rightarrow> (Inl Promo_Db_Failed, t)
      | Some (p, t') \<Rightarrow> (Inr p, t'))"

definition promo_update ::
  "faults \<Rightarrow> int \<Rightarrow> string \<Rightarrow> int \<Rightarrow> string \<Rightarrow> int \<Rightarrow> bool \<Rightarrow> promo table \<Rightarrow> promo_error option \<times> promo table" where
  "promo_update fl now channel pid message seconds enabled t =
     (if fl 0 then (Some Promo_Not_Found, t)
      else case find_one (\<lambda>p. pr_id p = pid \<and> pr_channel p = channel) t of
        None \<Rightarrow> (Some Promo_Not_Found, t)
      | Some p \<Rightarrow>
          if fl 1 then (Some Promo_Db_Failed, t)
          else (case update_row pr_id (p\<lparr> pr_message := message, pr_interval := clamp_interval seconds,
                                        pr_enabled := enabled, pr_updated := now \<rparr>) t of
                  None \<Rightarrow> (Some Promo_Db_Failed, t)
                | Some t' \<Rightarrow> (None, t')))"

definition promo_remove :: "faults \<Rightarrow> string \<Rightarrow> int \<Rightarrow> promo table \<Rightarrow> promo_error option \<times> promo table" where
  "promo_remove fl channel pid t =
     (if fl 0 then (Some Promo_Db_Failed, t)
      else (None, delete_where (\<lambda>p. pr_id p = pid \<and> pr_channel p = channel) t))"

text \<open>\<^verbatim>\<open>ORDER BY updated_at DESC, id DESC LIMIT 1\<close>\<close>

definition later :: "promo \<Rightarrow> promo \<Rightarrow> bool" where
  "later a b \<longleftrightarrow> pr_updated a > pr_updated b \<or> pr_updated a = pr_updated b \<and> pr_id a > pr_id b"

fun latest :: "promo list \<Rightarrow> promo option" where
  "latest [] = None"
| "latest (p # ps) =
     (case latest ps of None \<Rightarrow> Some p | Some q \<Rightarrow> if later p q then Some p else Some q)"

definition most_recent :: "faults \<Rightarrow> string \<Rightarrow> promo table \<Rightarrow> promo_error + promo option" where
  "most_recent fl channel t =
     (if fl 0 then Inl Promo_Db_Failed else Inr (latest (find_rows (\<lambda>p. pr_channel p = channel) t)))"

definition update_last ::
  "faults \<Rightarrow> int \<Rightarrow> string \<Rightarrow> string \<Rightarrow> int \<Rightarrow> promo table \<Rightarrow> (promo_error + bool) \<times> promo table" where
  "update_last fl now channel message seconds t =
     (case most_recent fl channel t of
        Inl e \<Rightarrow> (Inl e, t)
      | Inr None \<Rightarrow> (Inr False, t)
      | Inr (Some p) \<Rightarrow>
          if fl 1 then (Inl Promo_Db_Failed, t)
          else (case update_row pr_id (p\<lparr> pr_message := message, pr_interval := clamp_interval seconds,
                                        pr_updated := now \<rparr>) t of
                  None \<Rightarrow> (Inl Promo_Db_Failed, t)
                | Some t' \<Rightarrow> (Inr True, t')))"

definition remove_last :: "faults \<Rightarrow> string \<Rightarrow> promo table \<Rightarrow> (promo_error + bool) \<times> promo table" where
  "remove_last fl channel t =
     (case most_recent fl channel t of
        Inl e \<Rightarrow> (Inl e, t)
      | Inr None \<Rightarrow> (Inr False, t)
      | Inr (Some p) \<Rightarrow>
          if fl 1 then (Inl Promo_Db_Failed, t)
          else (Inr True, delete_where (\<lambda>x. pr_id x = pr_id p) t))"

section \<open>The endpoints\<close>

definition post_promo_create_endpoint ::
  "faults \<Rightarrow> int \<Rightarrow> string \<Rightarrow> string \<Rightarrow> string \<Rightarrow> int \<Rightarrow> promo table \<Rightarrow> promo http \<times> promo table" where
  "post_promo_create_endpoint fl now channel broadcaster message seconds t =
     (if channel = [] \<or> message = [] then (Http_Bad_Request, t)
      else if broadcaster = [] then (Http_Bad_Request, t)
      else if seconds \<le> 0 then (Http_Bad_Request, t)
      else case promo_create fl now channel broadcaster message seconds t of
        (Inl _, t') \<Rightarrow> (Http_Server_Error, t')
      | (Inr p, t') \<Rightarrow> (Http_Ok p, t'))"

definition post_promo_edit_last_endpoint ::
  "faults \<Rightarrow> int \<Rightarrow> string \<Rightarrow> string \<Rightarrow> int \<Rightarrow> promo table \<Rightarrow> bool http \<times> promo table" where
  "post_promo_edit_last_endpoint fl now channel message seconds t =
     (if channel = [] \<or> message = [] then (Http_Bad_Request, t)
      else if seconds \<le> 0 then (Http_Bad_Request, t)
      else case update_last fl now channel message seconds t of
        (Inl _, t') \<Rightarrow> (Http_Server_Error, t')
      | (Inr found, t') \<Rightarrow> (Http_Ok found, t'))"

definition post_promo_delete_last_endpoint :: "faults \<Rightarrow> string \<Rightarrow> promo table \<Rightarrow> bool http \<times> promo table" where
  "post_promo_delete_last_endpoint fl channel t =
     (if channel = [] then (Http_Bad_Request, t)
      else case remove_last fl channel t of
        (Inl _, t') \<Rightarrow> (Http_Server_Error, t')
      | (Inr found, t') \<Rightarrow> (Http_Ok found, t'))"

definition get_promos_for_bot_endpoint :: "faults \<Rightarrow> promo table \<Rightarrow> promo list http \<times> promo table" where
  "get_promos_for_bot_endpoint fl t =
     (case list_active fl t of Inl _ \<Rightarrow> (Http_Server_Error, t) | Inr ps \<Rightarrow> (Http_Ok ps, t))"

text \<open>The dashboard's endpoints; an account is the login and id of the signed-in user, if linked.\<close>

record account =
  ac_login :: "string option"
  ac_twitch_id :: "string option"

definition channel_login :: "account \<Rightarrow> string option" where
  "channel_login a =
     (case ac_login a of
        None \<Rightarrow> None
      | Some login \<Rightarrow> if trim_space login = [] then None else Some (to_lower login))"

datatype 'a page = Page_Ok 'a | Page_Unauthorized | Page_Bad_Request | Page_Server_Error

definition get_promos_endpoint :: "faults \<Rightarrow> account option \<Rightarrow> promo table \<Rightarrow> promo list page" where
  "get_promos_endpoint fl acc t =
     (case acc of
        None \<Rightarrow> Page_Unauthorized
      | Some a \<Rightarrow>
          (case channel_login a of
             None \<Rightarrow> Page_Bad_Request
           | Some channel \<Rightarrow>
               (case list_for_channel fl channel t of Inl _ \<Rightarrow> Page_Server_Error | Inr ps \<Rightarrow> Page_Ok ps)))"

text \<open>\<open>payload\<close> is \<open>None\<close> when the body does not bind.\<close>

definition create_promo_endpoint ::
  "faults \<Rightarrow> int \<Rightarrow> account option \<Rightarrow> (string \<times> int) option \<Rightarrow> promo table \<Rightarrow> promo page \<times> promo table" where
  "create_promo_endpoint fl now acc payload t =
     (case acc of
        None \<Rightarrow> (Page_Unauthorized, t)
      | Some a \<Rightarrow>
          (case channel_login a of
             None \<Rightarrow> (Page_Bad_Request, t)
           | Some channel \<Rightarrow>
               (case payload of
                  None \<Rightarrow> (Page_Bad_Request, t)
                | Some (message0, seconds) \<Rightarrow>
                    let message = trim_space message0
                    in if message = [] then (Page_Bad_Request, t)
                       else if seconds \<le> 0 then (Page_Bad_Request, t)
                       else case ac_twitch_id a of
                         None \<Rightarrow> (Page_Bad_Request, t)
                       | Some broadcaster \<Rightarrow>
                           if broadcaster = [] then (Page_Bad_Request, t)
                           else case promo_create fl now channel broadcaster message seconds t of
                             (Inl _, t') \<Rightarrow> (Page_Server_Error, t')
                           | (Inr p, t') \<Rightarrow> (Page_Ok p, t'))))"

definition update_promo_endpoint ::
  "faults \<Rightarrow> int \<Rightarrow> account option \<Rightarrow> string \<Rightarrow> (string \<times> int \<times> bool) option \<Rightarrow> promo table
     \<Rightarrow> unit page \<times> promo table" where
  "update_promo_endpoint fl now acc pid payload t =
     (case acc of
        None \<Rightarrow> (Page_Unauthorized, t)
      | Some a \<Rightarrow>
          (case channel_login a of
             None \<Rightarrow> (Page_Bad_Request, t)
           | Some channel \<Rightarrow>
               (case atoi pid of
                  None \<Rightarrow> (Page_Bad_Request, t)
                | Some n \<Rightarrow>
                    (case payload of
                       None \<Rightarrow> (Page_Bad_Request, t)
                     | Some (message0, seconds, enabled) \<Rightarrow>
                         let message = trim_space message0
                         in if message = [] then (Page_Bad_Request, t)
                            else if seconds \<le> 0 then (Page_Bad_Request, t)
                            else case promo_update fl now channel n message seconds enabled t of
                              (Some _, t') \<Rightarrow> (Page_Server_Error, t')
                            | (None, t') \<Rightarrow> (Page_Ok (), t')))))"

definition delete_promo_endpoint ::
  "faults \<Rightarrow> account option \<Rightarrow> string \<Rightarrow> promo table \<Rightarrow> unit page \<times> promo table" where
  "delete_promo_endpoint fl acc pid t =
     (case acc of
        None \<Rightarrow> (Page_Unauthorized, t)
      | Some a \<Rightarrow>
          (case channel_login a of
             None \<Rightarrow> (Page_Bad_Request, t)
           | Some channel \<Rightarrow>
               (case atoi pid of
                  None \<Rightarrow> (Page_Bad_Request, t)
                | Some n \<Rightarrow>
                    (case promo_remove fl channel n t of
                       (Some _, t') \<Rightarrow> (Page_Server_Error, t')
                     | (None, t') \<Rightarrow> (Page_Ok (), t')))))"

end
