(* ===== verification/Promo_Command.thy ===== *)
theory Promo_Command
  imports Promo
begin

text \<open>
  Intervals as chatters type them, the \<^verbatim>\<open>!newpromo\<close> command (\<^verbatim>\<open>twitchbot/cmd_newpromo.go\<close>), and the
  scheduler that posts the messages (\<^verbatim>\<open>runPromotionMessageLoop\<close> of \<^verbatim>\<open>twitchbot/bot.go\<close>).
\<close>

section \<open>Durations\<close>

definition ns_second :: int where
  "ns_second = 1000000000"

definition ns_minute :: int where
  "ns_minute = 60 * ns_second"

definition ns_hour :: int where
  "ns_hour = 60 * ns_minute"

text \<open>
  \<^verbatim>\<open>time.ParseDuration\<close>. Its one floating-point product, the value of a decimal fraction of a unit, is
  the parameter \<open>frac\<close> (digits read, their number, the unit); all else is integer arithmetic.
\<close>

definition is_digit :: "char \<Rightarrow> bool" where
  "is_digit c \<longleftrightarrow> 48 \<le> code_of c \<and> code_of c \<le> 57"

definition digit_of :: "char \<Rightarrow> nat" where
  "digit_of c = code_of c - 48"

fun leading_int :: "nat \<Rightarrow> string \<Rightarrow> nat option" where
  "leading_int x [] = Some x"
| "leading_int x (c # cs) =
     (if x > 2 ^ 63 div 10 then None
      else let y = x * 10 + digit_of c in if y > 2 ^ 63 then None else leading_int y cs)"

fun leading_fraction :: "nat \<Rightarrow> nat \<Rightarrow> string \<Rightarrow> nat \<times> nat" where
  "leading_fraction x k [] = (x, k)"
| "leading_fraction x k (c # cs) =
     (if x > (2 ^ 63 - 1) div 10 then (x, k)
      else let y = x * 10 + digit_of c in if y > 2 ^ 63 then (x, k) else leading_fraction y (k + 1) cs)"

definition unit_ns :: "string \<Rightarrow> nat option" where
  "unit_ns u =
     (if u = ''ns'' then Some 1
      else if u = ''us'' \<or> u = [CHR 0xC2, CHR 0xB5, CHR ''s''] \<or> u = [CHR 0xCE, CHR 0xBC, CHR ''s''] then Some 1000
      else if u = ''ms'' then Some 1000000
      else if u = ''s'' then Some 1000000000
      else if u = ''m'' then Some 60000000000
      else if u = ''h'' then Some 3600000000000 else None)"

text \<open>One number with its unit: its nanoseconds and the rest of the text.\<close>

definition duration_item :: "(nat \<Rightarrow> nat \<Rightarrow> nat \<Rightarrow> nat) \<Rightarrow> string \<Rightarrow> (nat \<times> string) option" where
  "duration_item frac s =
     (if s = [] \<or> \<not> (hd s = CHR ''.'' \<or> is_digit (hd s)) then None
      else
        let pre = takeWhile is_digit s; s1 = dropWhile is_digit s
        in case leading_int 0 pre of
             None \<Rightarrow> None
           | Some v \<Rightarrow>
               let dot = (s1 \<noteq> [] \<and> hd s1 = CHR ''.'');
                   post = (if dot then takeWhile is_digit (tl s1) else []);
                   s2 = (if dot then dropWhile is_digit (tl s1) else s1);
                   u = takeWhile (\<lambda>c. \<not> (c = CHR ''.'' \<or> is_digit c)) s2;
                   s3 = dropWhile (\<lambda>c. \<not> (c = CHR ''.'' \<or> is_digit c)) s2
               in if pre = [] \<and> post = [] then None
                  else if u = [] then None
                  else case unit_ns u of
                    None \<Rightarrow> None
                  | Some un \<Rightarrow>
                      if v > 2 ^ 63 div un then None
                      else (case leading_fraction 0 0 post of
                              (f, k) \<Rightarrow>
                                let w = (if f > 0 then v * un + frac f k un else v * un)
                                in if w > 2 ^ 63 then None else Some (w, s3)))"

lemma duration_item_shorter: "duration_item frac s = Some (v, rest) \<Longrightarrow> length rest < length s"
proof -
  assume a: "duration_item frac s = Some (v, rest)"
  define s1 where "s1 = dropWhile is_digit s"
  define s2 where "s2 = (if s1 \<noteq> [] \<and> hd s1 = CHR ''.'' then dropWhile is_digit (tl s1) else s1)"
  have r: "rest = dropWhile (\<lambda>c. \<not> (c = CHR ''.'' \<or> is_digit c)) s2"
      "takeWhile (\<lambda>c. \<not> (c = CHR ''.'' \<or> is_digit c)) s2 \<noteq> []"
    using a by (auto simp: duration_item_def Let_def s1_def s2_def split: if_splits option.splits prod.splits)
  have "length s2 \<le> length s"
    using length_dropWhile_le [of is_digit s] length_dropWhile_le [of is_digit "tl s1"]
    by (auto simp: s1_def s2_def)
  moreover have "length rest < length s2"
    using r by (cases s2) (auto simp: less_Suc_eq_le length_dropWhile_le split: if_splits)
  ultimately show ?thesis by simp
qed

function duration_loop :: "(nat \<Rightarrow> nat \<Rightarrow> nat \<Rightarrow> nat) \<Rightarrow> nat \<Rightarrow> string \<Rightarrow> nat option" where
  "duration_loop frac d s =
     (if s = [] then Some d
      else case duration_item frac s of
        None \<Rightarrow> None
      | Some (v, rest) \<Rightarrow>
          let d' = (d + v) mod 2 ^ 64 in if d' > 2 ^ 63 then None else duration_loop frac d' rest)"
  by pat_completeness auto

termination
  by (relation "measure (\<lambda>(_, _, s). length s)") (auto dest: duration_item_shorter)

declare duration_loop.simps [simp del]

definition parse_duration :: "(nat \<Rightarrow> nat \<Rightarrow> nat \<Rightarrow> nat) \<Rightarrow> string \<Rightarrow> int option" where
  "parse_duration frac text =
     (let neg = (text \<noteq> [] \<and> hd text = CHR ''-'');
          s = (if text \<noteq> [] \<and> (hd text = CHR ''-'' \<or> hd text = CHR ''+'') then tl text else text)
      in if s = ''0'' then Some 0
         else if s = [] then None
         else case duration_loop frac 0 s of
           None \<Rightarrow> None
         | Some d \<Rightarrow> if neg then Some (wrap64 (- int d)) else if d > 2 ^ 63 - 1 then None else Some (int d))"

section \<open>Intervals\<close>

datatype interval_error = Interval_Unreadable string | Interval_Too_Short | Interval_Too_Long

definition validate_promo_duration :: "int \<Rightarrow> interval_error + int" where
  "validate_promo_duration d =
     (if d < min_interval_seconds * ns_second then Inl Interval_Too_Short
      else if d > max_interval_seconds * ns_second then Inl Interval_Too_Long else Inr d)"

definition parse_promo_interval :: "(nat \<Rightarrow> nat \<Rightarrow> nat \<Rightarrow> nat) \<Rightarrow> string \<Rightarrow> interval_error + int" where
  "parse_promo_interval frac s0 =
     (let s = trim_space s0
      in case atoi s of
           Some n \<Rightarrow> validate_promo_duration (wrap64 (n * ns_minute))
         | None \<Rightarrow>
             (case parse_duration frac (to_lower s) of
                None \<Rightarrow> Inl (Interval_Unreadable s)
              | Some d \<Rightarrow> validate_promo_duration d))"

text \<open>\<^verbatim>\<open>d.Round(time.Second)\<close> for the non-negative durations that pass the validation.\<close>

definition round_second :: "int \<Rightarrow> int" where
  "round_second d =
     (let r = d mod ns_second in if r + r < ns_second then d - r else d + ns_second - r)"

definition humanize_interval :: "int \<Rightarrow> string" where
  "humanize_interval d0 =
     (let d = round_second d0
      in if d mod ns_hour = 0 then itoa (d div ns_hour) @ ''h''
         else if d mod ns_minute = 0 then itoa (d div ns_minute) @ ''m''
         else itoa (d div ns_second) @ ''s'')"

text \<open>\<^verbatim>\<open>int(interval.Seconds())\<close>\<close>

definition interval_seconds :: "int \<Rightarrow> int" where
  "interval_seconds d = d div ns_second"

section \<open>The command\<close>

datatype promo_reply =
    Promo_Usage | Promo_Create_Usage | Promo_Edit_Usage | Promo_Interval interval_error
  | Promo_Save_Failed | Promo_Saved string
  | Promo_Edit_Failed | Promo_Nothing_To_Edit | Promo_Edited string
  | Promo_Delete_Failed | Promo_Nothing_To_Delete | Promo_Deleted

definition handle_promo_edit_last ::
  "(nat \<Rightarrow> nat \<Rightarrow> nat \<Rightarrow> nat) \<Rightarrow> network \<Rightarrow> faults \<Rightarrow> int \<Rightarrow> chat_message \<Rightarrow> string \<Rightarrow> string list \<Rightarrow> promo table
     \<Rightarrow> promo_reply \<times> promo table" where
  "handle_promo_edit_last frac net fl now m args words t =
     (if length words < 3 then (Promo_Edit_Usage, t)
      else case parse_promo_interval frac (words ! 1) of
        Inl e \<Rightarrow> (Promo_Interval e, t)
      | Inr interval \<Rightarrow>
          let rest = trim_space (drop (length (words ! 0)) args);
              message = trim_space (drop (length (words ! 1)) rest)
          in if message = [] then (Promo_Edit_Usage, t)
             else case api_call net
                 (post_promo_edit_last_endpoint fl now (cm_broadcaster_login m) message (interval_seconds interval)) t of
               (None, t') \<Rightarrow> (Promo_Edit_Failed, t')
             | (Some False, t') \<Rightarrow> (Promo_Nothing_To_Edit, t')
             | (Some True, t') \<Rightarrow> (Promo_Edited (humanize_interval interval), t'))"

definition handle_promo_delete_last ::
  "network \<Rightarrow> faults \<Rightarrow> chat_message \<Rightarrow> promo table \<Rightarrow> promo_reply \<times> promo table" where
  "handle_promo_delete_last net fl m t =
     (case api_call net (post_promo_delete_last_endpoint fl (cm_broadcaster_login m)) t of
        (None, t') \<Rightarrow> (Promo_Delete_Failed, t')
      | (Some False, t') \<Rightarrow> (Promo_Nothing_To_Delete, t')
      | (Some True, t') \<Rightarrow> (Promo_Deleted, t'))"

text \<open>The reply to the chatter, if any, and the database after the command.\<close>

definition handle_new_promo_command ::
  "(nat \<Rightarrow> nat \<Rightarrow> nat \<Rightarrow> nat) \<Rightarrow> network \<Rightarrow> faults \<Rightarrow> int \<Rightarrow> chat_message \<Rightarrow> promo table
     \<Rightarrow> promo_reply option \<times> promo table" where
  "handle_new_promo_command frac net fl now m t =
     (if \<not> is_mod_or_broadcaster m then (None, t)
      else
        let args = command_args m; words = str_fields args
        in if words = [] then (Some Promo_Usage, t)
           else if to_lower (hd words) = ''edit-last'' then
             (case handle_promo_edit_last frac net fl now m args words t of (r, t') \<Rightarrow> (Some r, t'))
           else if to_lower (hd words) = ''delete-last'' then
             (case handle_promo_delete_last net fl m t of (r, t') \<Rightarrow> (Some r, t'))
           else if length words < 2 then (Some Promo_Create_Usage, t)
           else case parse_promo_interval frac (hd words) of
             Inl e \<Rightarrow> (Some (Promo_Interval e), t)
           | Inr interval \<Rightarrow>
               let message = trim_space (drop (length (hd words)) args)
               in if message = [] then (Some Promo_Create_Usage, t)
                  else case api_call net
                      (post_promo_create_endpoint fl now (cm_broadcaster_login m) (cm_broadcaster_id m) message
                         (interval_seconds interval)) t of
                    (None, t') \<Rightarrow> (Some Promo_Save_Failed, t')
                  | (Some _, t') \<Rightarrow> (Some (Promo_Saved (humanize_interval interval)), t'))"

section \<open>The scheduler\<close>

text \<open>The clock of each message that has been seen, by id.\<close>

type_synonym promo_clock = "int \<Rightarrow> int option"

record tick =
  tk_now :: int
  tk_promos :: "promo list option"
  tk_live :: "string \<Rightarrow> bool"

text \<open>One message of one tick: whether it is posted, and its clock afterwards.\<close>

definition promo_due :: "int \<Rightarrow> promo \<Rightarrow> int \<Rightarrow> bool" where
  "promo_due now p started \<longleftrightarrow>
     (let interval = (if pr_interval p < min_interval_seconds then min_interval_seconds else pr_interval p)
      in \<not> time_sub now started < wrap64 (interval * ns_second))"

fun tick_promos :: "int \<Rightarrow> (string \<Rightarrow> bool) \<Rightarrow> promo list \<Rightarrow> promo_clock \<Rightarrow> promo list \<times> promo_clock" where
  "tick_promos now live [] clock = ([], clock)"
| "tick_promos now live (p # ps) clock =
     (if \<not> live (pr_channel p) then tick_promos now live ps (clock(pr_id p \<mapsto> now))
      else case clock (pr_id p) of
        None \<Rightarrow> tick_promos now live ps (clock(pr_id p \<mapsto> now))
      | Some started \<Rightarrow>
          if promo_due now p started
          then (case tick_promos now live ps (clock(pr_id p \<mapsto> now)) of (posts, clock') \<Rightarrow> (p # posts, clock'))
          else tick_promos now live ps clock)"

text \<open>A tick whose fetch fails does nothing; otherwise clocks of messages no longer listed are forgotten.\<close>

definition promo_tick :: "tick \<Rightarrow> promo_clock \<Rightarrow> promo list \<times> promo_clock" where
  "promo_tick tk clock =
     (case tk_promos tk of
        None \<Rightarrow> ([], clock)
      | Some ps \<Rightarrow>
          (case tick_promos (tk_now tk) (tk_live tk) ps clock of
             (posts, clock') \<Rightarrow> (posts, \<lambda>i. if i \<in> pr_id ` set ps then clock' i else None)))"

fun promo_run :: "tick list \<Rightarrow> promo_clock \<Rightarrow> promo list list \<times> promo_clock" where
  "promo_run [] clock = ([], clock)"
| "promo_run (tk # tks) clock =
     (case promo_tick tk clock of (posts, clock1) \<Rightarrow>
        (case promo_run tks clock1 of (rest, clock2) \<Rightarrow> (posts # rest, clock2)))"

end
