(* ===== verification/Promo_Properties.thy ===== *)
theory Promo_Properties
  imports Promo_Command
begin

text \<open>
  What chatters may rely on with recurring messages: intervals are understood as typed (within the
  bounds where the arithmetic does not wrap), a channel's commands touch its own messages only, and the
  scheduler keeps the interval between two posts.
\<close>

section \<open>Intervals\<close>

lemma leading_int_snoc:
  "leading_int x (cs @ [c]) = (case leading_int x cs of None \<Rightarrow> None | Some y \<Rightarrow> leading_int y [c])"
  by (induction x cs rule: leading_int.induct) (auto simp: Let_def)

lemma digit_of_char [simp]: "d < 10 \<Longrightarrow> digit_of (char_of (48 + d :: nat)) = d"
  by (simp add: digit_of_def code_of_def)

lemma is_digit_char [simp]: "d < 10 \<Longrightarrow> is_digit (char_of (48 + d :: nat))"
  by (simp add: is_digit_def code_of_def)

lemma nat_digits_all: "list_all is_digit (nat_digits n)"
proof (induction n rule: nat_digits.induct)
  case (1 n)
  then show ?case by (subst nat_digits.simps) (auto simp del: nat_digits.simps)
qed

lemma leading_int_digits: "n < 2 ^ 59 \<Longrightarrow> leading_int 0 (nat_digits n) = Some n"
proof (induction n rule: nat_digits.induct)
  case (1 n)
  show ?case
  proof (cases "n < 10")
    case True
    then show ?thesis by (subst nat_digits.simps) simp
  next
    case False
    then have "leading_int 0 (nat_digits (n div 10)) = Some (n div 10)" using 1 by simp
    moreover have "n div 10 * 10 + n mod 10 = n" by simp
    moreover have "n div 10 < 2 ^ 59" using 1(2) by simp
    ultimately have "leading_int 0 (nat_digits (n div 10) @ [char_of (48 + n mod 10)]) = Some n"
      using 1(2) by (simp add: leading_int_snoc Let_def)
    then show ?thesis using False by (subst nat_digits.simps) simp
  qed
qed

text \<open>A number directly followed by a unit is that many units.\<close>

lemma take_digits:
  assumes "\<not> is_digit u"
  shows "takeWhile is_digit (nat_digits n @ u # us) = nat_digits n" "dropWhile is_digit (nat_digits n @ u # us) = u # us"
  using assms nat_digits_all [of n] by (auto simp: takeWhile_append dropWhile_append list_all_iff)

lemma parse_units:
  assumes "unit_ns [u] = Some un" and "n < 2 ^ 59" and "n \<le> 2 ^ 63 div un" and "n * un \<le> 2 ^ 63 - 1"
    and "\<not> is_digit u" and "u \<noteq> CHR ''.''"
  shows "parse_duration frac (nat_digits n @ [u]) = Some (int (n * un))"
proof -
  obtain c cs where c: "nat_digits n = c # cs" "c \<noteq> CHR ''-''" "c \<noteq> CHR ''+''" using nat_digits_Cons by blast
  have d: "is_digit c" using nat_digits_all [of n] c by simp
  have "duration_item frac (nat_digits n @ [u]) = Some (n * un, [])"
    using assms d c take_digits [of u n "[]"] leading_int_digits [of n]
    by (simp add: duration_item_def Let_def)
  then have "duration_loop frac 0 (nat_digits n @ [u]) = Some (n * un)"
    using assms(4) c by (simp add: duration_loop.simps)
  then show ?thesis using assms(4) c by (simp add: parse_duration_def Let_def)
qed

lemma not_atoi: "\<not> is_digit u \<Longrightarrow> atoi (nat_digits n @ [u]) = None"
proof -
  assume u: "\<not> is_digit u"
  obtain c cs where c: "nat_digits n = c # cs" "c \<noteq> CHR ''-''" "c \<noteq> CHR ''+''" using nat_digits_Cons by blast
  have bad: "digits_val a (xs @ [u]) = None" for a xs
    using u by (induction xs arbitrary: a) (auto simp: digit_val_def is_digit_def split: option.splits)
  have "digits_val 0 (nat_digits n @ [u]) = None" by (rule bad)
  then show ?thesis using c by (simp add: atoi_def unsigned_val_def)
qed

lemma lower_digits: "to_lower (nat_digits n @ [u]) = nat_digits n @ [lower_char u]"
proof -
  have "lower_char c = c" if "is_digit c" for c using that by (simp add: lower_char_def is_digit_def code_of_def)
  then have "map lower_char (nat_digits n) = nat_digits n"
    using nat_digits_all [of n] by (simp add: list_all_iff map_idI)
  then show ?thesis by (simp add: to_lower_def)
qed

lemma parse_interval_units:
  assumes "unit_ns [u] = Some un" and "u \<in> {CHR ''h'', CHR ''m'', CHR ''s''}" and "k \<le> 86400" and "k * un \<le> 86400 * 10 ^ 9"
  shows "parse_promo_interval frac (nat_digits k @ [u]) = validate_promo_duration (int (k * un))"
proof -
  have u: "\<not> is_digit u" "u \<noteq> CHR ''.''" "lower_char u = u" "\<not> is_space u"
    using assms(2) by (auto simp: is_digit_def code_of_def lower_char_def is_space_def)
  have un: "un \<in> {3600000000000, 60000000000, 1000000000}"
    using assms(1,2) by (auto simp: unit_ns_def split: if_splits)
  have d: "\<not> is_space c" if "is_digit c" for c
    using that by (auto simp: is_space_def is_digit_def code_of_def)
  have "trim_space ([] @ (nat_digits k @ [u]) @ []) = nat_digits k @ [u]"
    by (rule trim_around) (use d u nat_digits_all [of k] in \<open>auto simp: list_all_iff\<close>)
  moreover have "parse_duration frac (nat_digits k @ [u]) = Some (int (k * un))"
    using assms u un by (intro parse_units) auto
  ultimately show ?thesis
    using u by (simp add: parse_promo_interval_def Let_def not_atoi lower_digits)
qed

lemma accepted_interval_bounds:
  assumes "parse_promo_interval frac typed = Inr d"
  shows "60 * ns_second \<le> d" and "d \<le> 86400 * ns_second"
  using assms
  by (auto simp: parse_promo_interval_def validate_promo_duration_def min_interval_seconds_def max_interval_seconds_def
      Let_def split: option.splits if_splits)

lemma round_second_nearest: "round_second d = (d + 500000000) div 1000000000 * 1000000000"
proof -
  define q r where "q = d div 1000000000" and "r = d mod 1000000000"
  have d: "d = q * 1000000000 + r" "0 \<le> r" "r < 1000000000" unfolding q_def r_def by simp_all
  have "(d + 500000000) div 1000000000 = (if r + r < 1000000000 then q else q + 1)"
  proof (cases "r + r < 1000000000")
    case True
    then show ?thesis using d by (simp add: div_pos_pos_trivial)
  next
    case False
    have e: "d + 500000000 = (r - 500000000) + (q + 1) * 1000000000" using d(1) by simp
    have "(d + 500000000) div 1000000000 = (q + 1) + (r - 500000000) div 1000000000"
      unfolding e by (rule div_mult_self1) simp
    moreover have "(r - 500000000) div 1000000000 = 0"
      using False d(3) by (intro div_pos_pos_trivial) simp_all
    ultimately show ?thesis using False by simp
  qed
  moreover have "round_second d = (if r + r < 1000000000 then q * 1000000000 else (q + 1) * 1000000000)"
    unfolding round_second_def ns_second_def Let_def r_def [symmetric] using d(1) by simp
  ultimately show ?thesis by simp
qed

lemma whole_seconds_read_back:
  assumes "60 \<le> n" and "n \<le> 86400"
  shows "parse_promo_interval frac (humanize_interval (n * ns_second)) = Inr (n * ns_second)"
proof -
  have r: "round_second (n * ns_second) = n * ns_second" by (simp add: round_second_def ns_second_def)
  have v: "validate_promo_duration (n * ns_second) = Inr (n * ns_second)"
    using assms by (simp add: validate_promo_duration_def min_interval_seconds_def max_interval_seconds_def ns_second_def)
  have key: "parse_promo_interval frac (itoa k @ [u]) = Inr (n * ns_second)"
    if "unit_ns [u] = Some un" "u \<in> {CHR ''h'', CHR ''m'', CHR ''s''}" "0 \<le> k" "k * int un = n * ns_second" for u un k
  proof -
    have "int un \<ge> ns_second" using that(1,2) by (auto simp: unit_ns_def ns_second_def split: if_splits)
    then have "k * ns_second \<le> n * ns_second" using that(3,4) by (metis mult_left_mono)
    then have k: "k \<le> n" by (simp add: ns_second_def)
    have "int (nat k * un) = n * ns_second" using that(3,4) by simp
    moreover have "nat k * un \<le> 86400 * 10 ^ 9"
    proof -
      have "int (nat k * un) \<le> int (86400 * 10 ^ 9)"
        unfolding \<open>int (nat k * un) = n * ns_second\<close> using assms(2) by (simp add: ns_second_def)
      then show ?thesis unfolding of_nat_le_iff .
    qed
    moreover have "nat k \<le> 86400" using k assms(2) by simp
    ultimately have "parse_promo_interval frac (nat_digits (nat k) @ [u]) = Inr (n * ns_second)"
      using parse_interval_units [OF that(1,2), of "nat k" frac] v by simp
    then show ?thesis using that(3) by (simp add: itoa_def)
  qed
  have human: "humanize_interval (n * ns_second) =
      (if n * ns_second mod ns_hour = 0 then itoa (n * ns_second div ns_hour) @ [CHR ''h'']
       else if n * ns_second mod ns_minute = 0 then itoa (n * ns_second div ns_minute) @ [CHR ''m'']
       else itoa (n * ns_second div ns_second) @ [CHR ''s''])"
    by (simp only: humanize_interval_def Let_def r)
  have pos: "0 \<le> n * ns_second" using assms by (simp add: ns_second_def)
  have divs: "0 \<le> n * ns_second div ns_hour" "0 \<le> n * ns_second div ns_minute" "0 \<le> n * ns_second div ns_second"
    using pos by (simp_all add: pos_imp_zdiv_nonneg_iff ns_hour_def ns_minute_def ns_second_def)
  have units: "unit_ns ''h'' = Some 3600000000000" "unit_ns ''m'' = Some 60000000000" "unit_ns ''s'' = Some 1000000000"
    by (simp_all add: unit_ns_def)
  have exact: "a div b * int un = a" if "a mod b = 0" "b = int un" for a b :: int and un
    using that by auto
  consider (h) "n * ns_second mod ns_hour = 0" | (m) "n * ns_second mod ns_hour \<noteq> 0" "n * ns_second mod ns_minute = 0"
    | (s) "n * ns_second mod ns_hour \<noteq> 0" "n * ns_second mod ns_minute \<noteq> 0" by blast
  then show ?thesis
  proof cases
    case h
    show ?thesis unfolding human if_P [OF h]
      by (rule key [OF units(1) _ divs(1) exact [OF h]]) (simp_all add: ns_hour_def ns_minute_def ns_second_def)
  next
    case m
    show ?thesis unfolding human if_not_P [OF m(1)] if_P [OF m(2)]
      by (rule key [OF units(2) _ divs(2) exact [OF m(2)]]) (simp_all add: ns_minute_def ns_second_def)
  next
    case s
    show ?thesis unfolding human if_not_P [OF s(1)] if_not_P [OF s(2)]
      by (rule key [OF units(3) _ divs(3) exact]) (simp_all add: ns_second_def)
  qed
qed

text \<open>
  C39: An interval survives its confirmation, to the nearest second: for every interval the bot accepts,
  fractions of a second included, what it prints in its reply, typed back as an interval, is accepted
  and read as that interval rounded to the nearest whole second, a half going up. What is saved with the
  promo is the whole seconds of the interval, which is the number confirmed, or one less where the
  rounding went up.
\<close>

theorem confirmed_interval_reads_back:
  assumes "parse_promo_interval frac typed = Inr d"
  shows "parse_promo_interval frac (humanize_interval d) = Inr ((d + 500000000) div 1000000000 * 1000000000) \<and>
    interval_seconds d = (d + 500000000) div 1000000000 - (if d mod 1000000000 < 500000000 then 0 else 1)"
proof -
  let ?n = "(d + 500000000) div 1000000000"
  have r: "round_second d = ?n * ns_second" using round_second_nearest [of d] by (simp add: ns_second_def)
  have bounds: "60 \<le> ?n" "?n \<le> 86400"
    using accepted_interval_bounds [OF assms] by (simp_all add: ns_second_def)
  have "round_second (?n * ns_second) = ?n * ns_second"
    by (simp only: round_second_def Let_def) (simp add: ns_second_def)
  then have "humanize_interval d = humanize_interval (?n * ns_second)"
    unfolding humanize_interval_def r by simp
  then have "parse_promo_interval frac (humanize_interval d) = Inr (?n * 1000000000)"
    using whole_seconds_read_back [OF bounds, of frac] by (simp add: ns_second_def)
  moreover have "interval_seconds d = ?n - (if d mod 1000000000 < 500000000 then 0 else 1)"
    using round_second_nearest [of d]
    by (simp only: round_second_def interval_seconds_def ns_second_def Let_def) (simp add: div_mult_mod_eq split: if_splits)
  ultimately show ?thesis by blast
qed

text \<open>One minute, one second and seven tenths: confirmed as 62 seconds, saved as 61.\<close>

theorem confirmed_interval_reads_back_witness:
  "humanize_interval 61700000000 = ''62s'' \<and> interval_seconds 61700000000 = 61 \<and>
   parse_promo_interval (\<lambda>f k u. f * u div 10 ^ k) ''62s'' = Inr 62000000000"
proof -
  have item: "duration_item (\<lambda>f k u. f * u div 10 ^ k) ''61700ms'' = Some (61700000000, [])"
    by (simp add: duration_item_def is_digit_def code_of_def digit_of_def unit_ns_def)
  have typed: "trim_space ''61700ms'' = ''61700ms''" "atoi ''61700ms'' = None" "to_lower ''61700ms'' = ''61700ms''"
    by code_simp+
  have t: "parse_promo_interval (\<lambda>f k u. f * u div 10 ^ k) ''61700ms'' = Inr 61700000000"
    by (simp add: parse_promo_interval_def parse_duration_def item duration_loop.simps Let_def typed
        validate_promo_duration_def ns_second_def min_interval_seconds_def max_interval_seconds_def)
  have "nat_digits 62 = ''62''" by code_simp
  then have "humanize_interval 61700000000 = ''62s''"
    by (simp add: humanize_interval_def round_second_def Let_def ns_second_def ns_hour_def ns_minute_def itoa_def)
  then show ?thesis using confirmed_interval_reads_back [OF t] by simp
qed

text \<open>
  A bare number is minutes: it is accepted exactly from 1 to 1440, and then means that many minutes,
  as long as its nanoseconds fit in 64 bits. Beyond that the product wraps, and 307445736 minutes
  (about 585 years) are accepted as 86 seconds.
\<close>

theorem bare_minutes:
  "(\<bar>n\<bar> \<le> 153722867 \<longrightarrow> parse_promo_interval frac (itoa n) =
      (if n < 1 then Inl Interval_Too_Short else if n > 1440 then Inl Interval_Too_Long else Inr (n * ns_minute))) \<and>
   parse_promo_interval frac ''307445736'' = Inr 86290448384"
proof -
  have "parse_promo_interval frac (itoa n) =
      (if n < 1 then Inl Interval_Too_Short else if n > 1440 then Inl Interval_Too_Long else Inr (n * ns_minute))"
    if b: "\<bar>n\<bar> \<le> 153722867"
  proof -
    have d: "\<not> is_space c" if "is_digit c \<or> c = CHR ''-''" for c
      using that by (auto simp: is_space_def is_digit_def code_of_def)
    have "trim_space ([] @ itoa n @ []) = itoa n"
      by (rule trim_around) (use d nat_digits_all in \<open>auto simp: itoa_def list_all_iff\<close>)
    moreover have "atoi (itoa n) = Some n" using b by (intro atoi_itoa) (auto simp: in_int64_def)
    moreover have "wrap64 (n * ns_minute) = n * ns_minute"
      using b by (intro wrap64_id) (auto simp: in_int64_def ns_minute_def ns_second_def)
    ultimately show ?thesis
      by (auto simp: parse_promo_interval_def Let_def validate_promo_duration_def min_interval_seconds_def
          max_interval_seconds_def ns_minute_def ns_second_def)
  qed
  moreover have "parse_promo_interval frac ''307445736'' = Inr 86290448384"
  proof -
    have "trim_space ''307445736'' = ''307445736''" "atoi ''307445736'' = Some 307445736" by code_simp+
    then show ?thesis
      by (simp add: parse_promo_interval_def Let_def wrap64_def ns_minute_def ns_second_def
          validate_promo_duration_def min_interval_seconds_def max_interval_seconds_def)
  qed
  ultimately show ?thesis by blast
qed

theorem bare_minutes_witness:
  "parse_promo_interval (\<lambda>f k u. 0) (itoa 30) = Inr (30 * ns_minute)"
  using bare_minutes [of 30 "\<lambda>f k u. 0"] by simp

section \<open>The scheduler\<close>

text \<open>What a clock entry means after a tick at \<open>now\<close>.\<close>

lemma tick_promos_spec:
  assumes "tick_promos now live ps clock = (posts, clock')" and "distinct (map pr_id ps)"
  shows "p \<in> set posts \<longleftrightarrow> p \<in> set ps \<and> live (pr_channel p) \<and> (\<exists>s. clock (pr_id p) = Some s \<and> promo_due now p s)"
    and "p \<in> set ps \<Longrightarrow> clock' (pr_id p) =
           (if live (pr_channel p) \<and> (\<exists>s. clock (pr_id p) = Some s \<and> \<not> promo_due now p s) then clock (pr_id p) else Some now)"
    and "i \<notin> pr_id ` set ps \<Longrightarrow> clock' i = clock i"
proof -
  have "\<forall>posts clock'. tick_promos now live ps clock = (posts, clock') \<longrightarrow>
      (\<forall>p. p \<in> set posts \<longleftrightarrow> p \<in> set ps \<and> live (pr_channel p) \<and> (\<exists>s. clock (pr_id p) = Some s \<and> promo_due now p s)) \<and>
      (\<forall>p \<in> set ps. clock' (pr_id p) =
           (if live (pr_channel p) \<and> (\<exists>s. clock (pr_id p) = Some s \<and> \<not> promo_due now p s) then clock (pr_id p) else Some now)) \<and>
      (\<forall>i. i \<notin> pr_id ` set ps \<longrightarrow> clock' i = clock i)"
    using assms(2)
  proof (induction ps arbitrary: clock)
    case (Cons q ps)
    have d: "distinct (map pr_id ps)" "\<And>p. p \<in> set ps \<Longrightarrow> pr_id p \<noteq> pr_id q" "pr_id q \<notin> pr_id ` set ps"
      using Cons.prems by (auto simp: image_iff)
    define keep where "keep = (live (pr_channel q) \<and> (\<exists>s. clock (pr_id q) = Some s \<and> \<not> promo_due now q s))"
    define c1 where "c1 = (if keep then clock else clock(pr_id q \<mapsto> now))"
    obtain ps1 c2 where t: "tick_promos now live ps c1 = (ps1, c2)" by (meson surj_pair)
    have IH: "\<And>p. p \<in> set ps1 \<longleftrightarrow> p \<in> set ps \<and> live (pr_channel p) \<and> (\<exists>s. c1 (pr_id p) = Some s \<and> promo_due now p s)"
        "\<And>p. p \<in> set ps \<Longrightarrow> c2 (pr_id p) =
           (if live (pr_channel p) \<and> (\<exists>s. c1 (pr_id p) = Some s \<and> \<not> promo_due now p s) then c1 (pr_id p) else Some now)"
        "\<And>i. i \<notin> pr_id ` set ps \<Longrightarrow> c2 i = c1 i"
      using Cons.IH [OF d(1), of c1] t by blast+
    have c1: "c1 (pr_id p) = clock (pr_id p)" if "p \<in> set ps" for p using d(2) [OF that] by (simp add: c1_def)
    have run: "tick_promos now live (q # ps) clock =
        (if live (pr_channel q) \<and> (\<exists>s. clock (pr_id q) = Some s \<and> promo_due now q s) then q # ps1 else ps1, c2)"
      using t by (auto simp: c1_def keep_def split: option.splits)
    have q: "c2 (pr_id q) = (if keep then clock (pr_id q) else Some now)" using IH(3) [OF d(3)] by (simp add: c1_def)
    show ?case unfolding run using IH c1 d q unfolding keep_def by (auto simp: c1_def image_iff)
  qed simp
  then show "p \<in> set posts \<longleftrightarrow> p \<in> set ps \<and> live (pr_channel p) \<and> (\<exists>s. clock (pr_id p) = Some s \<and> promo_due now p s)"
      "p \<in> set ps \<Longrightarrow> clock' (pr_id p) =
         (if live (pr_channel p) \<and> (\<exists>s. clock (pr_id p) = Some s \<and> \<not> promo_due now p s) then clock (pr_id p) else Some now)"
      "i \<notin> pr_id ` set ps \<Longrightarrow> clock' i = clock i"
    using assms(1) by blast+
qed

text \<open>A run of ticks, tick by tick.\<close>

lemma promo_run_append:
  "promo_run (xs @ ys) c =
     (fst (promo_run xs c) @ fst (promo_run ys (snd (promo_run xs c))), snd (promo_run ys (snd (promo_run xs c))))"
  by (induction xs arbitrary: c) (simp_all add: case_prod_beta)

lemma length_promo_run [simp]: "length (fst (promo_run tks c)) = length tks"
  by (induction tks arbitrary: c) (simp_all add: case_prod_beta)

definition clock_at :: "tick list \<Rightarrow> nat \<Rightarrow> promo_clock" where
  "clock_at tks k = snd (promo_run (take k tks) (\<lambda>_. None))"

lemma clock_at_Suc: "k < length tks \<Longrightarrow> clock_at tks (Suc k) = snd (promo_tick (tks ! k) (clock_at tks k))"
  by (simp add: clock_at_def take_Suc_conv_app_nth promo_run_append case_prod_beta)

lemma posts_at:
  assumes "k < length tks"
  shows "fst (promo_run tks (\<lambda>_. None)) ! k = fst (promo_tick (tks ! k) (clock_at tks k))"
proof -
  have "tks = take k tks @ tks ! k # drop (Suc k) tks" using assms by (simp add: id_take_nth_drop)
  then have "fst (promo_run tks (\<lambda>_. None)) =
      fst (promo_run (take k tks) (\<lambda>_. None)) @ fst (promo_run (tks ! k # drop (Suc k) tks) (clock_at tks k))"
    by (metis clock_at_def fst_conv promo_run_append)
  then show ?thesis using assms by (simp add: nth_append case_prod_beta)
qed

text \<open>What one tick does to one message and its clock.\<close>

definition distinct_ids :: "tick \<Rightarrow> bool" where
  "distinct_ids tk \<longleftrightarrow> (case tk_promos tk of None \<Rightarrow> True | Some ps \<Rightarrow> distinct (map pr_id ps))"

lemma promo_tick_post:
  assumes "distinct_ids tk" and "p \<in> set (fst (promo_tick tk c))"
  shows "tk_live tk (pr_channel p)" and "snd (promo_tick tk c) (pr_id p) = Some (tk_now tk)"
    and "\<exists>ps. tk_promos tk = Some ps \<and> p \<in> set ps" and "\<exists>s. c (pr_id p) = Some s \<and> promo_due (tk_now tk) p s"
proof -
  obtain ps where ps: "tk_promos tk = Some ps" using assms(2) by (cases "tk_promos tk") (auto simp: promo_tick_def)
  have d: "distinct (map pr_id ps)" using assms(1) by (simp add: distinct_ids_def ps)
  obtain posts c' where t: "tick_promos (tk_now tk) (tk_live tk) ps c = (posts, c')" by (meson surj_pair)
  have p: "p \<in> set posts" using assms(2) by (simp add: promo_tick_def ps t)
  from p have q: "p \<in> set ps" "tk_live tk (pr_channel p)" "\<exists>s. c (pr_id p) = Some s \<and> promo_due (tk_now tk) p s"
    unfolding tick_promos_spec(1) [OF t d] by simp_all
  then show "tk_live tk (pr_channel p)" "\<exists>s. c (pr_id p) = Some s \<and> promo_due (tk_now tk) p s"
    "\<exists>ps. tk_promos tk = Some ps \<and> p \<in> set ps" using ps by simp_all
  show "snd (promo_tick tk c) (pr_id p) = Some (tk_now tk)"
    using q tick_promos_spec(2) [OF t d q(1)] by (auto simp: promo_tick_def ps t)
qed

lemma promo_tick_clock:
  assumes "distinct_ids tk" and "snd (promo_tick tk c) i = Some s"
  shows "s = tk_now tk \<or> c i = Some s"
proof (cases "tk_promos tk")
  case (Some ps)
  have d: "distinct (map pr_id ps)" using assms(1) by (simp add: distinct_ids_def Some)
  obtain posts c' where t: "tick_promos (tk_now tk) (tk_live tk) ps c = (posts, c')" by (meson surj_pair)
  from assms(2) obtain p where "p \<in> set ps" "pr_id p = i" "c' i = Some s"
    by (auto simp: promo_tick_def Some t split: if_splits)
  then show ?thesis using tick_promos_spec(2) [OF t d, of p] by (auto split: if_splits)
qed (use assms(2) in \<open>simp add: promo_tick_def\<close>)

lemma promo_tick_listed:
  assumes "tk_promos tk = Some ps" and "distinct (map pr_id ps)" and "p \<in> set ps" and "tk_live tk (pr_channel p)"
  shows "(p \<in> set (fst (promo_tick tk c)) \<longleftrightarrow> (\<exists>s. c (pr_id p) = Some s \<and> promo_due (tk_now tk) p s)) \<and>
     snd (promo_tick tk c) (pr_id p) =
       (if \<exists>s. c (pr_id p) = Some s \<and> \<not> promo_due (tk_now tk) p s then c (pr_id p) else Some (tk_now tk))"
proof -
  obtain posts c' where t: "tick_promos (tk_now tk) (tk_live tk) ps c = (posts, c')" by (meson surj_pair)
  show ?thesis using tick_promos_spec(1,2) [OF t assms(2)] assms by (simp add: promo_tick_def t)
qed

lemma promo_due_iff:
  assumes "pr_interval p \<le> max_interval_seconds"
  shows "promo_due now p s \<longleftrightarrow> max min_interval_seconds (pr_interval p) * ns_second \<le> now - s"
proof -
  define n where "n = max min_interval_seconds (pr_interval p)"
  have n: "60 \<le> n" "n \<le> 86400" using assms by (auto simp: n_def min_interval_seconds_def max_interval_seconds_def)
  have w: "wrap64 (n * ns_second) = n * ns_second"
    using n by (intro wrap64_id) (auto simp: in_int64_def ns_second_def)
  have "(if pr_interval p < min_interval_seconds then min_interval_seconds else pr_interval p) = n"
    by (simp add: n_def)
  then have "promo_due now p s \<longleftrightarrow> \<not> time_sub now s < n * ns_second" by (simp add: promo_due_def w)
  also have "\<dots> \<longleftrightarrow> n * ns_second \<le> now - s"
    using n by (subst time_sub_less) (auto simp: ns_second_def)
  finally show ?thesis by (simp add: n_def)
qed

lemma clock_after_post:
  assumes "\<forall>tk \<in> set tks. distinct_ids tk" and "sorted (map tk_now tks)" and "i < m" and "m \<le> length tks"
    and "clock_at tks (Suc i) j = Some (tk_now (tks ! i))" and "clock_at tks m j = Some s"
  shows "tk_now (tks ! i) \<le> s"
  using assms(3-)
proof (induction m arbitrary: s)
  case (Suc m)
  show ?case
  proof (cases "i = m")
    case True
    then show ?thesis using Suc.prems by simp
  next
    case False
    then have m: "i < m" "m < length tks" using Suc.prems by auto
    have "s = tk_now (tks ! m) \<or> clock_at tks m j = Some s"
      using promo_tick_clock [of "tks ! m"] assms(1) m Suc.prems(4) by (simp add: clock_at_Suc)
    moreover have "tk_now (tks ! i) \<le> tk_now (tks ! m)"
      using assms(2) m by (simp add: sorted_iff_nth_mono)
    ultimately show ?thesis using Suc.IH m Suc.prems(3) by auto
  qed
qed simp

text \<open>
  C31: A recurring message never comes too often: it is posted only while its channel is live, and two
  posts of it (even if it was edited in between) are at least its current interval, and at least a minute,
  apart, whatever the ticks in between did.
\<close>

theorem promo_posts_are_spaced:
  assumes "promo_run tks (\<lambda>_. None) = (posts, clock)" and "sorted (map tk_now tks)"
    and "\<forall>tk \<in> set tks. distinct_ids tk" and "i < k" and "k < length tks"
    and "q \<in> set (posts ! i)" and "p \<in> set (posts ! k)" and "pr_id q = pr_id p"
    and "pr_interval p \<le> max_interval_seconds"
  shows "tk_live (tks ! k) (pr_channel p) \<and>
    max min_interval_seconds (pr_interval p) * ns_second \<le> tk_now (tks ! k) - tk_now (tks ! i)"
proof -
  have at: "posts ! m = fst (promo_tick (tks ! m) (clock_at tks m))" if "m < length tks" for m
    using posts_at [OF that] assms(1) by simp
  have d: "distinct_ids (tks ! i)" "distinct_ids (tks ! k)" using assms(3-5) by auto
  have i: "i < length tks" using assms(4,5) by simp
  have "clock_at tks (Suc i) (pr_id p) = Some (tk_now (tks ! i))"
    using promo_tick_post(2) [OF d(1), of q "clock_at tks i"] assms(6,8) at [OF i] i by (simp add: clock_at_Suc)
  then have s: "tk_now (tks ! i) \<le> s" if "clock_at tks k (pr_id p) = Some s" for s
    using clock_after_post [OF assms(3,2,4)] assms(5) that by simp
  have p: "p \<in> set (fst (promo_tick (tks ! k) (clock_at tks k)))" using assms(7) at [OF assms(5)] by simp
  obtain s where c: "clock_at tks k (pr_id p) = Some s" and "promo_due (tk_now (tks ! k)) p s"
    using promo_tick_post(4) [OF d(2) p] by blast
  then have "max min_interval_seconds (pr_interval p) * ns_second \<le> tk_now (tks ! k) - s"
    by (simp add: promo_due_iff [OF assms(9)])
  then show ?thesis using s [OF c] promo_tick_post(1) [OF d(2) p] by simp
qed

text \<open>
  C32: A recurring message comes: if it stays listed and its channel live at every tick from one tick on,
  it is posted no later than at the first tick its interval after it.
\<close>

theorem promo_gets_posted:
  assumes "promo_run tks (\<lambda>_. None) = (posts, clock)" and "sorted (map tk_now tks)"
    and "\<forall>tk \<in> set tks. distinct_ids tk" and "i < k" and "k < length tks"
    and "\<forall>m \<in> {i..k}. (\<exists>ps. tk_promos (tks ! m) = Some ps \<and> p \<in> set ps) \<and> tk_live (tks ! m) (pr_channel p)"
    and "pr_interval p \<le> max_interval_seconds"
    and "max min_interval_seconds (pr_interval p) * ns_second \<le> tk_now (tks ! k) - tk_now (tks ! i)"
  shows "\<exists>m \<in> {i<..k}. p \<in> set (posts ! m)"
proof (rule ccontr)
  assume no: "\<not> (\<exists>m \<in> {i<..k}. p \<in> set (posts ! m))"
  have tick: "(p \<in> set (posts ! m) \<longleftrightarrow>
        (\<exists>s. clock_at tks m (pr_id p) = Some s \<and> promo_due (tk_now (tks ! m)) p s)) \<and>
      clock_at tks (Suc m) (pr_id p) =
        (if \<exists>s. clock_at tks m (pr_id p) = Some s \<and> \<not> promo_due (tk_now (tks ! m)) p s
         then clock_at tks m (pr_id p) else Some (tk_now (tks ! m)))" if m: "m \<in> {i..k}" for m
  proof -
    have l: "m < length tks" using m assms(5) by simp
    obtain ps where ps: "tk_promos (tks ! m) = Some ps" "p \<in> set ps" "tk_live (tks ! m) (pr_channel p)"
      using assms(6) m by blast
    have "tks ! m \<in> set tks" using l by simp
    then have "distinct (map pr_id ps)" using assms(3) ps(1) by (force simp: distinct_ids_def)
    then show ?thesis
      using promo_tick_listed [OF ps(1) _ ps(2,3)] posts_at [OF l] clock_at_Suc [OF l] assms(1) by simp
  qed
  have old: "s \<le> tk_now (tks ! m)" if "m < length tks" "clock_at tks (Suc m) j = Some s" for m j s
    using that
  proof (induction m)
    case 0
    have "s = tk_now (tks ! 0) \<or> clock_at tks 0 j = Some s"
      using 0 assms(3) by (intro promo_tick_clock) (auto simp: clock_at_Suc)
    then show ?case by (simp add: clock_at_def)
  next
    case (Suc m)
    have "s = tk_now (tks ! Suc m) \<or> clock_at tks (Suc m) j = Some s"
      using Suc.prems assms(3) by (intro promo_tick_clock) (auto simp: clock_at_Suc)
    moreover have "tk_now (tks ! m) \<le> tk_now (tks ! Suc m)"
      using assms(2) Suc.prems(1) by (simp add: sorted_iff_nth_mono)
    ultimately show ?case using Suc by auto
  qed
  obtain s where s: "clock_at tks (Suc i) (pr_id p) = Some s" using tick [of i] assms(4) by (auto split: if_splits)
  have kept: "clock_at tks m (pr_id p) = Some s" if "i < m" "m \<le> k" for m
    using that
  proof (induction m)
    case (Suc m)
    show ?case
    proof (cases "i = m")
      case False
      then have m: "i < m" "m \<le> k" using Suc.prems by auto
      have c: "clock_at tks m (pr_id p) = Some s" by (rule Suc.IH [OF m])
      have "p \<notin> set (posts ! m)" using no m by auto
      then have "\<not> promo_due (tk_now (tks ! m)) p s" using tick [of m] m c by simp
      then show ?thesis using tick [of m] m c by simp
    qed (use s in simp)
  qed simp
  have "s \<le> tk_now (tks ! i)" using old [OF _ s] assms(4,5) by simp
  then have "promo_due (tk_now (tks ! k)) p s" using assms(8) by (simp add: promo_due_iff [OF assms(7)])
  then have "p \<in> set (posts ! k)" using tick [of k] kept [OF assms(4)] assms(4) by simp
  then show False using no assms(4) by auto
qed

definition demo_promo :: promo where
  "demo_promo = \<lparr> pr_id = 7, pr_channel = ''nivek'', pr_broadcaster = ''42'', pr_message = ''hello'',
     pr_interval = 90, pr_enabled = True, pr_updated = 5 \<rparr>"

definition demo_ticks :: "tick list" where
  "demo_ticks = map (\<lambda>n. \<lparr> tk_now = int n * 30000000000, tk_promos = Some [demo_promo], tk_live = (\<lambda>_. True) \<rparr>) [0..<8]"

lemma demo_ticks_run:
  "fst (promo_run demo_ticks (\<lambda>_. None)) = [[], [], [], [demo_promo], [], [], [demo_promo], []]"
  by code_simp

lemma demo_ticks_facts:
  "sorted (map tk_now demo_ticks)" "\<forall>tk \<in> set demo_ticks. distinct_ids tk" "length demo_ticks = 8"
  "pr_interval demo_promo \<le> max_interval_seconds"
  by code_simp+

theorem promo_posts_are_spaced_witness:
  "tk_live (demo_ticks ! 6) ''nivek'' \<and>
   max min_interval_seconds 90 * ns_second \<le> tk_now (demo_ticks ! 6) - tk_now (demo_ticks ! 3)"
  using promo_posts_are_spaced [OF prod.collapse [symmetric] demo_ticks_facts(1,2), of 3 6 demo_promo demo_promo]
    demo_ticks_facts(3,4)
  by (simp add: demo_ticks_run demo_promo_def)

lemma demo_ticks_listed:
  "\<forall>m \<in> {3..6}. (\<exists>ps. tk_promos (demo_ticks ! m) = Some ps \<and> demo_promo \<in> set ps) \<and>
     tk_live (demo_ticks ! m) (pr_channel demo_promo)"
proof
  fix m :: nat
  assume "m \<in> {3..6}"
  then have "m < 8" by simp
  then show "(\<exists>ps. tk_promos (demo_ticks ! m) = Some ps \<and> demo_promo \<in> set ps) \<and>
      tk_live (demo_ticks ! m) (pr_channel demo_promo)"
    by (simp add: demo_ticks_def del: upt_Suc)
qed

theorem promo_gets_posted_witness:
  "\<exists>m \<in> {3<..6}. demo_promo \<in> set (fst (promo_run demo_ticks (\<lambda>_. None)) ! m)"
proof (rule promo_gets_posted [OF prod.collapse [symmetric] demo_ticks_facts(1,2) _ _ demo_ticks_listed demo_ticks_facts(4)])
  show "max min_interval_seconds (pr_interval demo_promo) * ns_second \<le> tk_now (demo_ticks ! 6) - tk_now (demo_ticks ! 3)"
    by code_simp
qed (simp_all add: demo_ticks_facts)

section \<open>The service and the command\<close>

interpretation promo_rows: row_type pr_id pr_broadcaster pr_with_id
  by unfold_locales (simp_all add: pr_with_id_def)

definition promos_ok :: "promo table \<Rightarrow> bool" where
  "promos_ok t \<longleftrightarrow> wf_table pr_id pr_broadcaster t \<and>
     (\<forall>p \<in> set (tb_rows t). min_interval_seconds \<le> pr_interval p \<and> pr_interval p \<le> max_interval_seconds)"

text \<open>What an operation for one channel may do: keep the invariant and every other channel's rows.\<close>

definition only_channel :: "string \<Rightarrow> promo table \<Rightarrow> promo table \<Rightarrow> bool" where
  "only_channel ch t t' \<longleftrightarrow> promos_ok t' \<and>
     filter (\<lambda>p. pr_channel p \<noteq> ch) (tb_rows t') = filter (\<lambda>p. pr_channel p \<noteq> ch) (tb_rows t)"

lemma only_channel_refl: "promos_ok t \<Longrightarrow> only_channel ch t t"
  by (simp add: only_channel_def)

lemma clamp_bounds: "min_interval_seconds \<le> clamp_interval n \<and> clamp_interval n \<le> max_interval_seconds"
  by (simp add: clamp_interval_def min_interval_seconds_def max_interval_seconds_def)

lemma only_channel_insert:
  assumes "promos_ok t" and "insert_row pr_with_id pr_broadcaster r t = Some (p, t')" and "pr_channel r = ch"
    and "pr_interval r = clamp_interval n"
  shows "only_channel ch t t'"
proof -
  have t': "tb_rows t' = tb_rows t @ [p]" and p: "p = pr_with_id r (tb_serial t + 1)"
    using assms(2) by (auto simp: insert_row_def Let_def split: if_splits)
  have "wf_table pr_id pr_broadcaster t'"
    using promo_rows.insert_wf [OF _ assms(2)] assms(1) by (simp add: promos_ok_def)
  then show ?thesis using assms(1,3,4) clamp_bounds [of n] by (auto simp: only_channel_def promos_ok_def t' p pr_with_id_def)
qed

lemma only_channel_update:
  assumes "update_row pr_id r t = Some t'" and "promos_ok t" and "p \<in> set (tb_rows t)" and "pr_channel p = ch" and "pr_id r = pr_id p"
    and "pr_broadcaster r = pr_broadcaster p" and "pr_channel r = ch" and "pr_interval r = clamp_interval n"
  shows "only_channel ch t t'"
proof -
  have wf: "wf_table pr_id pr_broadcaster t" using assms(2) by (simp add: promos_ok_def)
  have t': "tb_rows t' = map (\<lambda>x. if pr_id x = pr_id r then r else x) (tb_rows t)"
    using assms(1) by (auto simp: update_row_def split: if_splits)
  have same: "x = p" if "x \<in> set (tb_rows t)" "pr_id x = pr_id r" for x
    using that assms(3,5) wf by (auto simp: wf_table_def distinct_map inj_on_def)
  have "filter (\<lambda>p. pr_channel p \<noteq> ch) (map (\<lambda>x. if pr_id x = pr_id r then r else x) xs) =
      filter (\<lambda>p. pr_channel p \<noteq> ch) xs" if "set xs \<subseteq> set (tb_rows t)" for xs
    using that same assms(4,7) by (induction xs) auto
  moreover have "wf_table pr_id pr_broadcaster t'"
    by (rule promo_rows.update_wf [OF wf assms(3,5,6,1)])
  ultimately show ?thesis using assms(2,8) clamp_bounds [of n] by (auto simp: only_channel_def promos_ok_def t')
qed

lemma only_channel_delete:
  assumes "promos_ok t" and "\<And>x. x \<in> set (tb_rows t) \<Longrightarrow> P x \<Longrightarrow> pr_channel x = ch"
  shows "only_channel ch t (delete_where P t)"
proof -
  have "filter (\<lambda>p. pr_channel p \<noteq> ch) (filter (\<lambda>x. \<not> P x) xs) = filter (\<lambda>p. pr_channel p \<noteq> ch) xs"
    if "set xs \<subseteq> set (tb_rows t)" for xs
    using that assms(2) by (induction xs) auto
  then show ?thesis using assms(1) promo_rows.delete_wf [of t P]
    by (auto simp: only_channel_def promos_ok_def delete_where_def)
qed

lemma latest_mem: "latest ps = Some p \<Longrightarrow> p \<in> set ps"
  by (induction ps arbitrary: p) (auto split: option.splits if_splits)

lemma most_recent_mem:
  "most_recent fl ch t = Inr (Some p) \<Longrightarrow> p \<in> set (tb_rows t) \<and> pr_channel p = ch"
  by (auto simp: most_recent_def find_rows_def dest: latest_mem split: if_splits)

lemma promo_create_only: "promos_ok t \<Longrightarrow> only_channel ch t (snd (promo_create fl now ch br msg n t))"
  by (auto simp: promo_create_def only_channel_refl intro: only_channel_insert split: option.splits)

lemma promo_update_only: "promos_ok t \<Longrightarrow> only_channel ch t (snd (promo_update fl now ch pid msg n en t))"
proof -
  assume ok: "promos_ok t"
  show ?thesis
  proof (cases "find_one (\<lambda>p. pr_id p = pid \<and> pr_channel p = ch) t")
    case (Some p)
    then have p: "p \<in> set (tb_rows t)" "pr_channel p = ch" by (auto simp: find_one_def dest: find_Some_mem)
    show ?thesis using ok p
      by (auto simp: promo_update_def Some only_channel_refl split: option.splits intro!: only_channel_update)
  qed (simp add: promo_update_def only_channel_refl ok)
qed

lemma promo_remove_only: "promos_ok t \<Longrightarrow> only_channel ch t (snd (promo_remove fl ch pid t))"
  by (auto simp: promo_remove_def only_channel_refl intro: only_channel_delete)

lemma update_last_only: "promos_ok t \<Longrightarrow> only_channel ch t (snd (update_last fl now ch msg n t))"
  by (auto simp: update_last_def only_channel_refl split: sum.splits option.splits
      dest!: most_recent_mem intro!: only_channel_update)

lemma remove_last_only:
  assumes "promos_ok t"
  shows "only_channel ch t (snd (remove_last fl ch t))"
proof (cases "\<exists>p. most_recent fl ch t = Inr (Some p)")
  case True
  then obtain p where p: "most_recent fl ch t = Inr (Some p)" by blast
  have "pr_channel x = ch" if "x \<in> set (tb_rows t)" "pr_id x = pr_id p" for x
    using that most_recent_mem [OF p] assms by (auto simp: promos_ok_def wf_table_def distinct_map inj_on_def)
  then show ?thesis using assms p by (auto simp: remove_last_def only_channel_refl intro: only_channel_delete)
qed (use assms in \<open>auto simp: remove_last_def only_channel_refl split: sum.splits option.splits\<close>)

lemma api_call_only:
  "promos_ok t \<Longrightarrow> only_channel ch t (snd (f t)) \<Longrightarrow> only_channel ch t (snd (api_call net f t))"
  using api_call_state [of net f t] by (auto simp: only_channel_refl)

lemma promo_endpoints_only:
  assumes "promos_ok t"
  shows "only_channel ch t (snd (post_promo_create_endpoint fl now ch br msg n t))"
    and "only_channel ch t (snd (post_promo_edit_last_endpoint fl now ch msg n t))"
    and "only_channel ch t (snd (post_promo_delete_last_endpoint fl ch t))"
  using promo_create_only [OF assms, of ch fl now br msg n] update_last_only [OF assms, of ch fl now msg n]
    remove_last_only [OF assms, of ch fl] assms
  by (auto simp: post_promo_create_endpoint_def post_promo_edit_last_endpoint_def post_promo_delete_last_endpoint_def
      only_channel_refl split: sum.splits prod.splits)

lemma dashboard_endpoints_only:
  assumes "promos_ok t" and "channel_login a = Some ch"
  shows "only_channel ch t (snd (create_promo_endpoint fl now (Some a) new t))"
    and "only_channel ch t (snd (update_promo_endpoint fl now (Some a) pid change t))"
    and "only_channel ch t (snd (delete_promo_endpoint fl (Some a) pid t))"
proof -
  have c: "only_channel ch t (snd (promo_create fl now ch br msg n t))" for br msg n
    by (rule promo_create_only [OF assms(1)])
  have u: "only_channel ch t (snd (promo_update fl now ch i msg n en t))" for i msg n en
    by (rule promo_update_only [OF assms(1)])
  have r: "only_channel ch t (snd (promo_remove fl ch i t))" for i by (rule promo_remove_only [OF assms(1)])
  note refl = only_channel_refl [OF assms(1)]
  show "only_channel ch t (snd (create_promo_endpoint fl now (Some a) new t))"
    using c by (auto simp: create_promo_endpoint_def assms(2) refl Let_def split: option.splits prod.splits sum.splits)
      (metis snd_conv)+
  show "only_channel ch t (snd (update_promo_endpoint fl now (Some a) pid change t))"
    using u by (auto simp: update_promo_endpoint_def assms(2) refl Let_def split: option.splits prod.splits)
      (metis snd_conv)+
  show "only_channel ch t (snd (delete_promo_endpoint fl (Some a) pid t))"
    using r by (auto simp: delete_promo_endpoint_def assms(2) refl split: option.splits prod.splits)
      (metis snd_conv)+
qed

lemma promo_command_cases:
  obtains (same) r where "handle_new_promo_command frac net fl now m t = (r, t)" "\<And>txt. r \<noteq> Some (Promo_Saved txt)"
  | (edit) msg n where "snd (handle_new_promo_command frac net fl now m t) =
        snd (api_call net (post_promo_edit_last_endpoint fl now (cm_broadcaster_login m) msg n) t)"
      "\<And>txt. fst (handle_new_promo_command frac net fl now m t) \<noteq> Some (Promo_Saved txt)" "is_mod_or_broadcaster m"
  | (delete) "snd (handle_new_promo_command frac net fl now m t) =
        snd (api_call net (post_promo_delete_last_endpoint fl (cm_broadcaster_login m)) t)"
      "\<And>txt. fst (handle_new_promo_command frac net fl now m t) \<noteq> Some (Promo_Saved txt)" "is_mod_or_broadcaster m"
  | (create) msg i where "is_mod_or_broadcaster m" "msg \<noteq> []" "handle_new_promo_command frac net fl now m t =
        (case api_call net (post_promo_create_endpoint fl now (cm_broadcaster_login m) (cm_broadcaster_id m) msg
            (interval_seconds i)) t of
           (None, t') \<Rightarrow> (Some Promo_Save_Failed, t')
         | (Some _, t') \<Rightarrow> (Some (Promo_Saved (humanize_interval i)), t'))"
proof -
  define args where "args = command_args m"
  define words where "words = str_fields args"
  note d = handle_new_promo_command_def [of frac net fl now m t, folded args_def, unfolded Let_def, folded words_def]
  show thesis
  proof (cases "is_mod_or_broadcaster m \<and> words \<noteq> []")
    case False
    then show ?thesis using same [of "fst (handle_new_promo_command frac net fl now m t)"] by (auto simp: d)
  next
    case True
    then have mw: "is_mod_or_broadcaster m" "words \<noteq> []" by simp_all
    consider (e) "to_lower (hd words) = ''edit-last''" | (dl) "to_lower (hd words) = ''delete-last''"
      | (c) "to_lower (hd words) \<noteq> ''edit-last''" "to_lower (hd words) \<noteq> ''delete-last''" by blast
    then show ?thesis
    proof cases
      case e
      have h: "handle_new_promo_command frac net fl now m t =
          (case handle_promo_edit_last frac net fl now m args words t of (r, t') \<Rightarrow> (Some r, t'))"
        using mw e by (simp add: d)
      show ?thesis
      proof (cases "\<exists>r. handle_promo_edit_last frac net fl now m args words t = (r, t) \<and> (\<forall>txt. r \<noteq> Promo_Saved txt)")
        case True
        then show ?thesis using same h by auto
      next
        case False
        then show ?thesis using edit h mw
          by (auto simp: handle_promo_edit_last_def Let_def split: sum.splits if_splits prod.splits option.splits bool.splits)
            (metis snd_conv)+
      qed
    next
      case dl
      have h: "handle_new_promo_command frac net fl now m t =
          (case handle_promo_delete_last net fl m t of (r, t') \<Rightarrow> (Some r, t'))"
        using mw dl by (simp add: d)
      show ?thesis
        by (rule delete) (use mw in \<open>auto simp: h handle_promo_delete_last_def split: prod.splits option.splits bool.splits\<close>)
    next
      case c
      show ?thesis
      proof (cases "length words < 2 \<or> (\<exists>e. parse_promo_interval frac (hd words) = Inl e) \<or>
          trim_space (drop (length (hd words)) args) = []")
        case True
        show ?thesis
          by (rule same [of "fst (handle_new_promo_command frac net fl now m t)"])
            (use True mw c in \<open>auto simp: d split: sum.splits\<close>)
      next
        case False
        then obtain i where "parse_promo_interval frac (hd words) = Inr i"
          by (cases "parse_promo_interval frac (hd words)") auto
        then show ?thesis using create [of "trim_space (drop (length (hd words)) args)" i] mw c False
          by (simp add: d)
      qed
    qed
  qed
qed

lemma promo_saved:
  assumes "api_call net (post_promo_create_endpoint fl now ch br msg n) t = (Some p, t')"
  shows "tb_rows t' = tb_rows t @ [p] \<and> br \<notin> pr_broadcaster ` set (tb_rows t) \<and>
     pr_channel p = ch \<and> pr_broadcaster p = br \<and> pr_message p = msg \<and> pr_interval p = clamp_interval n \<and> pr_enabled p"
  using assms unfolding api_call_Some
  by (auto simp: post_promo_create_endpoint_def promo_create_def insert_row_def Let_def pr_with_id_def
      split: if_splits sum.splits prod.splits option.splits)

text \<open>
  C37: \<open>!newpromo\<close> and the dashboard stay in their own channel: whatever is typed or posted and
  whatever fails, ids and broadcasters stay unique, every stored interval lies between a minute and 24
  hours, and the messages of other channels are untouched. Without moderator rights the command neither
  changes nor answers anything; and when it reports a message as saved, exactly that message was added,
  enabled, and its broadcaster had none before.
\<close>

theorem promo_changes_are_scoped:
  assumes "promos_ok t" and "handle_new_promo_command frac net fl now m t = (r, t')"
  shows "only_channel (cm_broadcaster_login m) t t' \<and>
    (\<not> is_mod_or_broadcaster m \<longrightarrow> r = None \<and> t' = t) \<and>
    (\<forall>txt. r = Some (Promo_Saved txt) \<longrightarrow>
       cm_broadcaster_id m \<notin> pr_broadcaster ` set (tb_rows t) \<and>
       (\<exists>p. tb_rows t' = tb_rows t @ [p] \<and> pr_channel p = cm_broadcaster_login m \<and>
            pr_broadcaster p = cm_broadcaster_id m \<and> pr_message p \<noteq> [] \<and> pr_enabled p)) \<and>
    (channel_login a = Some ch \<longrightarrow>
       only_channel ch t (snd (create_promo_endpoint fl now (Some a) new t)) \<and>
       only_channel ch t (snd (update_promo_endpoint fl now (Some a) pid change t)) \<and>
       only_channel ch t (snd (delete_promo_endpoint fl (Some a) pid t)))"
proof -
  let ?ch = "cm_broadcaster_login m"
  have main: "only_channel ?ch t t' \<and> (\<forall>txt. r = Some (Promo_Saved txt) \<longrightarrow>
       cm_broadcaster_id m \<notin> pr_broadcaster ` set (tb_rows t) \<and>
       (\<exists>p. tb_rows t' = tb_rows t @ [p] \<and> pr_channel p = cm_broadcaster_login m \<and>
            pr_broadcaster p = cm_broadcaster_id m \<and> pr_message p \<noteq> [] \<and> pr_enabled p))"
  proof (cases rule: promo_command_cases [of frac net fl now m t])
    case (same r')
    then show ?thesis using assms only_channel_refl by simp
  next
    case (edit msg n)
    have "only_channel ?ch t (snd (api_call net (post_promo_edit_last_endpoint fl now ?ch msg n) t))"
      by (rule api_call_only [OF assms(1)]) (rule promo_endpoints_only(2) [OF assms(1)])
    then show ?thesis using edit assms(2) by simp
  next
    case delete
    have "only_channel ?ch t (snd (api_call net (post_promo_delete_last_endpoint fl ?ch) t))"
      by (rule api_call_only [OF assms(1)]) (rule promo_endpoints_only(3) [OF assms(1)])
    then show ?thesis using delete assms(2) by simp
  next
    case (create msg i)
    let ?f = "post_promo_create_endpoint fl now ?ch (cm_broadcaster_id m) msg (interval_seconds i)"
    obtain ans t1 where call: "api_call net ?f t = (ans, t1)" by (meson surj_pair)
    have "only_channel ?ch t (snd (api_call net ?f t))"
      by (rule api_call_only [OF assms(1)]) (rule promo_endpoints_only(1) [OF assms(1)])
    then have "only_channel ?ch t t1" by (simp add: call)
    moreover have "(r, t') = (case ans of None \<Rightarrow> (Some Promo_Save_Failed, t1)
        | Some _ \<Rightarrow> (Some (Promo_Saved (humanize_interval i)), t1))"
      using create(3) assms(2) by (simp add: call)
    ultimately show ?thesis
      using promo_saved [of net fl now ?ch "cm_broadcaster_id m" msg "interval_seconds i" t _ t1] call create(2)
      by (cases ans) auto
  qed
  moreover have "\<not> is_mod_or_broadcaster m \<longrightarrow> r = None \<and> t' = t"
    using assms(2) by (auto simp: handle_new_promo_command_def)
  ultimately show ?thesis using dashboard_endpoints_only [OF assms(1)] by blast
qed

definition demo_promo_message :: chat_message where
  "demo_promo_message = \<lparr> cm_broadcaster_id = ''42'', cm_broadcaster_login = ''nivek'', cm_chatter_id = ''42'',
     cm_chatter_login = ''nivek'', cm_chatter_name = ''Nivek'', cm_message_id = ''m'',
     cm_text = ''!newpromo 90s follow the dwarves'', cm_badges = [], cm_trigger = ''newpromo'' \<rparr>"

theorem promo_changes_are_scoped_witness:
  "only_channel ''nivek'' empty_table
     (snd (handle_new_promo_command (\<lambda>f k u. 0) Net_Ok no_faults 5 demo_promo_message empty_table)) \<and>
   fst (handle_new_promo_command (\<lambda>f k u. 0) Net_Ok no_faults 5 demo_promo_message empty_table) =
     Some (Promo_Saved ''90s'')"
proof -
  have ok: "promos_ok empty_table" by (simp add: promos_ok_def promo_rows.wf_empty) (simp add: empty_table_def)
  have scoped: "only_channel (cm_broadcaster_login demo_promo_message) empty_table
      (snd (handle_new_promo_command (\<lambda>f k u. 0) Net_Ok no_faults 5 demo_promo_message empty_table))"
    using promo_changes_are_scoped [OF ok prod.collapse [symmetric]] by blast
  have i: "parse_promo_interval (\<lambda>f k u. 0) ''90s'' = Inr 90000000000"
  proof -
    have "nat_digits 90 = ''90''" by code_simp
    then show ?thesis
      using parse_interval_units [of "CHR ''s''" 1000000000 90 "\<lambda>f k u. 0"]
      by (simp add: unit_ns_def validate_promo_duration_def ns_second_def min_interval_seconds_def max_interval_seconds_def)
  qed
  have words: "command_args demo_promo_message = ''90s follow the dwarves''"
    "str_fields ''90s follow the dwarves'' = [''90s'', ''follow'', ''the'', ''dwarves'']"
    "trim_space '' follow the dwarves'' = ''follow the dwarves''" "to_lower ''90s'' = ''90s''"
    "humanize_interval 90000000000 = ''90s''" "interval_seconds 90000000000 = 90" "trim_space ''42'' = ''42''"
    by code_simp+
  have "fst (handle_new_promo_command (\<lambda>f k u. 0) Net_Ok no_faults 5 demo_promo_message empty_table) =
      Some (Promo_Saved ''90s'')"
    by (simp add: handle_new_promo_command_def is_mod_or_broadcaster_def Let_def api_call_def i words
        post_promo_create_endpoint_def promo_create_def insert_row_def empty_table_def no_faults_def)
      (simp add: demo_promo_message_def words)
  then show ?thesis using scoped by (simp add: demo_promo_message_def)
qed

end
