(* ===== verification/Hmac_Auth.thy ===== *)
theory Hmac_Auth
  imports Go_Prelude
begin

text \<open>
  Signed requests between the bot and core-api: the signing halves (\<^verbatim>\<open>do\<close> of
  \<^verbatim>\<open>internal/libraries/api/core_api_client.go\<close> and of \<^verbatim>\<open>internal/libraries/botclient\<close>) and the
  middleware that verifies (\<^verbatim>\<open>nivekmiddleware/HMACMiddleware.go\<close>). HMAC-SHA256 is the parameter
  \<open>mac key message\<close>, and \<open>url_path\<close> is the decoding of a path by the HTTP server.
\<close>

section \<open>Hexadecimal\<close>

definition hex_digit :: "nat \<Rightarrow> char" where
  "hex_digit n = (if n < 10 then char_of (48 + n) else char_of (87 + n))"

definition hex_val :: "char \<Rightarrow> nat option" where
  "hex_val c =
     (let n = code_of c
      in if 48 \<le> n \<and> n \<le> 57 then Some (n - 48)
         else if 97 \<le> n \<and> n \<le> 102 then Some (n - 87)
         else if 65 \<le> n \<and> n \<le> 70 then Some (n - 55) else None)"

fun hex_encode :: "string \<Rightarrow> string" where
  "hex_encode [] = []"
| "hex_encode (c # cs) = hex_digit (code_of c div 16) # hex_digit (code_of c mod 16) # hex_encode cs"

fun hex_decode :: "string \<Rightarrow> string option" where
  "hex_decode [] = Some []"
| "hex_decode [_] = None"
| "hex_decode (a # b # cs) =
     (case hex_val a of
        None \<Rightarrow> None
      | Some x \<Rightarrow>
          (case hex_val b of
             None \<Rightarrow> None
           | Some y \<Rightarrow> (case hex_decode cs of None \<Rightarrow> None | Some r \<Rightarrow> Some (char_of (16 * x + y) # r))))"

section \<open>Requests\<close>

text \<open>An absent header reads as the empty string; \<open>None\<close> is a body that cannot be read.\<close>

record signed_request =
  rq_method :: string
  rq_path :: string
  rq_query :: string
  rq_timestamp :: string
  rq_hmac :: string
  rq_body :: "string option"

definition newline :: char where
  "newline = CHR 0x0A"

definition canonical :: "string \<Rightarrow> string \<Rightarrow> string \<Rightarrow> string \<Rightarrow> string \<Rightarrow> string" where
  "canonical method path query ts body =
     method @ [newline] @ path @ [newline] @ query @ [newline] @ ts @ [newline] @ body"

text \<open>The bot's client signs the path under \<^verbatim>\<open>/api\<close>; core-api's client signs the route itself.\<close>

definition core_api_do ::
  "(string \<Rightarrow> string \<Rightarrow> string) \<Rightarrow> (string \<Rightarrow> string) \<Rightarrow> string \<Rightarrow> int \<Rightarrow> string \<Rightarrow> string \<Rightarrow> string \<Rightarrow> string \<Rightarrow> signed_request" where
  "core_api_do mac url_path key now method path query body =
     (let ts = itoa now; path' = ''/api'' @ path
      in \<lparr> rq_method = method, rq_path = url_path path', rq_query = query, rq_timestamp = ts,
           rq_hmac = hex_encode (mac key (canonical method path' query ts body)), rq_body = Some body \<rparr>)"

definition bot_client_do ::
  "(string \<Rightarrow> string \<Rightarrow> string) \<Rightarrow> (string \<Rightarrow> string) \<Rightarrow> string \<Rightarrow> int \<Rightarrow> string \<Rightarrow> string \<Rightarrow> string \<Rightarrow> signed_request" where
  "bot_client_do mac url_path key now method path body =
     (let ts = itoa now
      in \<lparr> rq_method = method, rq_path = url_path path, rq_query = [], rq_timestamp = ts,
           rq_hmac = hex_encode (mac key (canonical method path [] ts body)), rq_body = Some body \<rparr>)"

text \<open>The key of a client: at least 16 bytes, given in hexadecimal.\<close>

definition client_key :: "string \<Rightarrow> string \<Rightarrow> string option" where
  "client_key base_url key_hex =
     (if base_url = [] then None
      else case hex_decode key_hex of
        None \<Rightarrow> None
      | Some key \<Rightarrow> if length key < 16 then None else Some key)"

section \<open>The middleware\<close>

datatype auth_result = Auth_Next | Auth_Unavailable | Auth_Bad_Request | Auth_Unauthorized

definition max_clock_skew :: int where
  "max_clock_skew = 60"

definition clock_skew :: "int \<Rightarrow> int \<Rightarrow> int" where
  "clock_skew now ts = (let skew = wrap64 (now - ts) in if skew < 0 then wrap64 (- skew) else skew)"

definition hmac_middleware ::
  "(string \<Rightarrow> string \<Rightarrow> string) \<Rightarrow> string \<Rightarrow> int \<Rightarrow> signed_request \<Rightarrow> auth_result" where
  "hmac_middleware mac key_hex now r =
     (if key_hex = [] then Auth_Unavailable
      else case hex_decode key_hex of
        None \<Rightarrow> Auth_Unavailable
      | Some key \<Rightarrow>
          if rq_timestamp r = [] then Auth_Bad_Request
          else (case atoi (rq_timestamp r) of
                  None \<Rightarrow> Auth_Bad_Request
                | Some ts \<Rightarrow>
                    if clock_skew now ts > max_clock_skew then Auth_Unauthorized
                    else if rq_hmac r = [] then Auth_Unauthorized
                    else (case hex_decode (rq_hmac r) of
                            None \<Rightarrow> Auth_Bad_Request
                          | Some claimed \<Rightarrow>
                              (case rq_body r of
                                 None \<Rightarrow> Auth_Bad_Request
                               | Some body \<Rightarrow>
                                   if claimed = mac key (canonical (rq_method r) (rq_path r) (rq_query r) (itoa ts) body)
                                   then Auth_Next else Auth_Unauthorized))))"

section \<open>Facts\<close>

lemma hex_val_digit [simp]: "n < 16 \<Longrightarrow> hex_val (hex_digit n) = Some n"
  by (auto simp: hex_val_def hex_digit_def code_of_def Let_def)

lemma code_of_char_of [simp]: "char_of (code_of c) = c"
  by (simp add: code_of_def)

lemma hex_round_trip [simp]: "hex_decode (hex_encode s) = Some s"
proof (induction s)
  case (Cons c s)
  have "code_of c < 256"
    using of_char_mod_256 [of c, where 'a = nat] mod_less_divisor [of 256 "of_char c :: nat"] by (simp add: code_of_def)
  then have "code_of c div 16 < 16" by (simp add: less_mult_imp_div_less)
  then show ?case using Cons by simp
qed simp

lemma hex_encode_Nil [simp]: "hex_encode s = [] \<longleftrightarrow> s = []"
  by (cases s) simp_all

lemma skew_exact:
  assumes "0 \<le> now" and "now < 2 ^ 62" and "0 \<le> ts" and "ts < 2 ^ 62"
  shows "clock_skew now ts = \<bar>now - ts\<bar>"
  using assms by (simp add: clock_skew_def Let_def wrap64_small)

lemma split_first_newline:
  assumes "a @ newline # x = b @ newline # y" and "newline \<notin> set a" and "newline \<notin> set b"
  shows "a = b \<and> x = y"
  using assms by (induction a arbitrary: b) (case_tac b; auto)+

lemma canonical_inj:
  assumes "canonical m p q t b = canonical m' p' q' t' b'"
    and "newline \<notin> set m" and "newline \<notin> set p" and "newline \<notin> set q" and "newline \<notin> set t"
    and "newline \<notin> set m'" and "newline \<notin> set p'" and "newline \<notin> set q'" and "newline \<notin> set t'"
  shows "m = m' \<and> p = p' \<and> q = q' \<and> t = t' \<and> b = b'"
proof -
  have "m @ newline # (p @ newline # (q @ newline # (t @ newline # b))) =
      m' @ newline # (p' @ newline # (q' @ newline # (t' @ newline # b')))"
    using assms(1) by (simp add: canonical_def)
  then show ?thesis using assms(2-) by (metis split_first_newline)
qed

lemma itoa_no_newline: "newline \<notin> set (itoa n)"
proof -
  have "digit_val newline = None" by (simp add: digit_val_def newline_def code_of_def)
  then have "newline \<notin> set (nat_digits k)" for k using nat_digits_digit by blast
  then show ?thesis by (auto simp: itoa_def newline_def)
qed

lemma signed_passes:
  assumes "hex_decode key_hex = Some key" and "key_hex \<noteq> []" and "mac key (canonical m p q (itoa sent) b) \<noteq> []"
    and "0 \<le> sent" and "sent < 2 ^ 62" and "0 \<le> now" and "now < 2 ^ 62" and "\<bar>now - sent\<bar> \<le> 60"
  shows "hmac_middleware mac key_hex now
     \<lparr> rq_method = m, rq_path = p, rq_query = q, rq_timestamp = itoa sent,
       rq_hmac = hex_encode (mac key (canonical m p q (itoa sent) b)), rq_body = Some b \<rparr> = Auth_Next"
proof -
  have "in_int64 sent" using assms(4,5) by (simp add: in_int64_def)
  then have "atoi (itoa sent) = Some sent" by (rule atoi_itoa)
  moreover have "itoa sent \<noteq> []" by (simp add: itoa_def)
  moreover have "\<not> clock_skew now sent > max_clock_skew"
    using assms(4-8) by (simp add: skew_exact max_clock_skew_def)
  ultimately show ?thesis using assms(1-3) by (simp add: hmac_middleware_def)
qed

text \<open>
  What the two services send each other is accepted: a request signed with the shared key passes the
  other side's middleware as long as the clocks, with the time on the wire, are at most a minute apart.
\<close>

theorem signed_requests_pass:
  assumes "client_key url key_hex = Some key" and "\<And>m. mac key m \<noteq> []"
    and "url_path (''/api'' @ path) = ''/api'' @ path" and "url_path route = route"
    and "0 \<le> sent" and "sent < 2 ^ 62" and "0 \<le> now" and "now < 2 ^ 62" and "\<bar>now - sent\<bar> \<le> 60"
  shows "hmac_middleware mac key_hex now (core_api_do mac url_path key sent method path query body) = Auth_Next \<and>
    hmac_middleware mac key_hex now (bot_client_do mac url_path key sent method route body) = Auth_Next"
proof -
  have k: "hex_decode key_hex = Some key" "key_hex \<noteq> []"
    using assms(1) by (auto simp: client_key_def split: if_splits option.splits)
  show ?thesis
    unfolding core_api_do_def bot_client_do_def Let_def assms(3,4)
    by (intro conjI; rule signed_passes) (use k assms in simp_all)
qed

theorem signed_requests_pass_witness:
  "hmac_middleware (\<lambda>k m. k) (hex_encode (replicate 16 CHR ''k'')) 1700000030
     (core_api_do (\<lambda>k m. k) (\<lambda>p. p) (replicate 16 CHR ''k'') 1700000000 ''GET'' ''/bot/promos'' [] []) = Auth_Next"
  using signed_requests_pass [of "''http''" "hex_encode (replicate 16 CHR ''k'')" "replicate 16 CHR ''k''" "\<lambda>k m. k" "\<lambda>p. p"
      "''/bot/promos''" "''/''" 1700000000 1700000030 "''GET''" "[]" "[]"]
  by (simp add: client_key_def)

text \<open>
  C20: A signature is good for one request only: if a request with the signature of a genuine one passes,
  it has the genuine one's method, path, query, time and body, and that time is at most a minute away,
  provided the MAC does not collide on the two texts and methods, paths and queries hold no line feed.
\<close>

theorem captured_signature_fits_one_request:
  assumes "hmac_middleware mac key_hex now r = Auth_Next" and "hex_decode key_hex = Some key"
    and "rq_hmac r = hex_encode (mac key (canonical method path query (itoa ts) body))"
    and "\<And>b t. mac key (canonical (rq_method r) (rq_path r) (rq_query r) (itoa t) b) =
           mac key (canonical method path query (itoa ts) body) \<Longrightarrow>
         canonical (rq_method r) (rq_path r) (rq_query r) (itoa t) b = canonical method path query (itoa ts) body"
    and "newline \<notin> set method" and "newline \<notin> set path" and "newline \<notin> set query"
    and "newline \<notin> set (rq_method r)" and "newline \<notin> set (rq_path r)" and "newline \<notin> set (rq_query r)"
    and "0 \<le> ts" and "ts < 2 ^ 62" and "0 \<le> now" and "now < 2 ^ 62"
  shows "rq_method r = method \<and> rq_path r = path \<and> rq_query r = query \<and> rq_body r = Some body \<and>
    atoi (rq_timestamp r) = Some ts \<and> \<bar>now - ts\<bar> \<le> 60"
proof -
  obtain t b where t: "atoi (rq_timestamp r) = Some t" and b: "rq_body r = Some b"
    and skew: "\<not> clock_skew now t > max_clock_skew"
    and m: "mac key (canonical method path query (itoa ts) body) =
      mac key (canonical (rq_method r) (rq_path r) (rq_query r) (itoa t) b)"
    using assms(1-3) by (auto simp: hmac_middleware_def split: if_splits option.splits)
  have "rq_method r = method \<and> rq_path r = path \<and> rq_query r = query \<and> itoa t = itoa ts \<and> b = body"
    by (rule canonical_inj [OF assms(4) [OF m [symmetric]]]) (use assms(5-10) itoa_no_newline in auto)
  moreover have "t = ts" if "itoa t = itoa ts"
  proof -
    have "in_int64 t" using t atoi_range by blast
    moreover have "in_int64 ts" using assms(11,12) by (simp add: in_int64_def)
    ultimately show ?thesis using that atoi_itoa by (metis option.inject)
  qed
  ultimately show ?thesis using t b skew assms(11-14) by (auto simp: skew_exact max_clock_skew_def)
qed

definition plain_mac :: "string \<Rightarrow> string \<Rightarrow> string" where
  "plain_mac key message = key @ message"

definition demo_request :: signed_request where
  "demo_request = core_api_do plain_mac (\<lambda>p. p) (replicate 16 CHR ''k'') 1700000000 ''GET'' ''/bot/promos'' [] []"

theorem captured_signature_fits_one_request_witness:
  "hmac_middleware plain_mac (hex_encode (replicate 16 CHR ''k'')) 1700000030 demo_request = Auth_Next \<and>
   rq_path demo_request = ''/api/bot/promos'' \<and> atoi (rq_timestamp demo_request) = Some 1700000000 \<and>
   \<bar>1700000030 - 1700000000 :: int\<bar> \<le> 60"
proof -
  let ?k = "replicate 16 CHR ''k''"
  have pass: "hmac_middleware plain_mac (hex_encode ?k) 1700000030 demo_request = Auth_Next"
    unfolding core_api_do_def demo_request_def Let_def by (rule signed_passes) (simp_all add: plain_mac_def)
  then show ?thesis
    using captured_signature_fits_one_request [of plain_mac "hex_encode ?k" 1700000030 demo_request ?k "''GET''"
        "''/api/bot/promos''" "[]" 1700000000 "[]"]
    by (simp add: core_api_do_def demo_request_def plain_mac_def Let_def newline_def)
qed

text \<open>
  The negation of the smallest 64-bit number is itself, so the test of the time also admits the one time
  stamp that lies 2 to the 63 seconds back.
\<close>

lemma skew_overflow: "clock_skew now (now - 2 ^ 63) \<le> max_clock_skew"
  by (simp add: clock_skew_def Let_def wrap64_def max_clock_skew_def)

end
