(* ===== verification/Bot_Send.thy ===== *)
theory Bot_Send
  imports Go_Prelude
begin

text \<open>
  Sending chat (\<^verbatim>\<open>twitchbot/bot_send_message.go\<close>): one message with its two possible tokens, an
  announcement, and the loop that empties the queue. The token sources and Twitch's answers are parameters.
\<close>

section \<open>One request to Twitch\<close>

text \<open>
  What comes back from Twitch's send endpoint: nothing, or a status with a body. A body may not decode,
  and lists for the messages of the request whether each was sent.
\<close>

datatype helix_answer = Helix_Lost | Helix_Answer int "bool list option"

text \<open>The status (0 when the request was lost) and whether the call failed.\<close>

definition post_chat_message :: "helix_answer \<Rightarrow> int \<times> bool" where
  "post_chat_message a =
     (case a of
        Helix_Lost \<Rightarrow> (0, True)
      | Helix_Answer status body \<Rightarrow>
          if status div 100 \<noteq> 2 then (status, True)
          else (case body of
                  None \<Rightarrow> (status, True)
                | Some [] \<Rightarrow> (status, True)
                | Some (sent # _) \<Rightarrow> (status, \<not> sent)))"

section \<open>One message\<close>

record send_config =
  cf_client_id :: string
  cf_oauth :: string
  cf_user_provider :: "string option option"
  cf_app_provider :: "string option option"

text \<open>
  The providers are \<open>None\<close> when not configured and \<open>Some None\<close> when they fail.
\<close>

definition helix_user_token :: "send_config \<Rightarrow> string option" where
  "helix_user_token c =
     (case cf_user_provider c of
        Some answer \<Rightarrow>
          (case answer of None \<Rightarrow> None | Some tok \<Rightarrow> if tok = [] then None else Some tok)
      | None \<Rightarrow> let tok = trim_prefix ''oauth:'' (cf_oauth c) in if tok = [] then None else Some tok)"

text \<open>
  \<open>twitch n tok\<close> answers the n-th request, made with the token \<open>tok\<close>. The result: whether the call
  succeeded, and the tokens of the requests made.
\<close>

definition send_with_user_token ::
  "send_config \<Rightarrow> (nat \<Rightarrow> string \<Rightarrow> helix_answer) \<Rightarrow> string list \<Rightarrow> bool \<times> string list" where
  "send_with_user_token c twitch made =
     (case helix_user_token c of
        None \<Rightarrow> (False, made)
      | Some tok \<Rightarrow> (\<not> snd (post_chat_message (twitch (length made) tok)), made @ [tok]))"

definition say_chat_message ::
  "send_config \<Rightarrow> (nat \<Rightarrow> string \<Rightarrow> helix_answer) \<Rightarrow> string \<Rightarrow> bool \<times> string list" where
  "say_chat_message c twitch broadcaster =
     (if cf_client_id c = [] then (False, [])
      else if broadcaster = [] then (False, [])
      else case cf_app_provider c of
        Some (Some app) \<Rightarrow>
          (case post_chat_message (twitch 0 app) of
             (status, failed) \<Rightarrow>
               if \<not> failed then (True, [app])
               else if status \<noteq> 401 \<and> status \<noteq> 403 then (False, [app])
               else send_with_user_token c twitch [app])
      | _ \<Rightarrow> send_with_user_token c twitch [])"

section \<open>Announcements and the queue\<close>

definition send_chat_announcement ::
  "send_config \<Rightarrow> (string \<Rightarrow> int option) \<Rightarrow> string \<Rightarrow> bool \<times> string list" where
  "send_chat_announcement c twitch broadcaster =
     (if cf_client_id c = [] then (False, [])
      else if broadcaster = [] then (False, [])
      else case helix_user_token c of
        None \<Rightarrow> (False, [])
      | Some tok \<Rightarrow>
          (case twitch tok of None \<Rightarrow> (False, [tok]) | Some status \<Rightarrow> (status div 100 = 2, [tok])))"

record say_request =
  sq_broadcaster :: string
  sq_message :: string
  sq_announce :: bool

text \<open>The loop takes the requests in order and goes on after a failure; its trace is the requests made.\<close>

fun sender_loop ::
  "send_config \<Rightarrow> (say_request \<Rightarrow> nat \<Rightarrow> string \<Rightarrow> helix_answer) \<Rightarrow> (say_request \<Rightarrow> string \<Rightarrow> int option)
     \<Rightarrow> say_request list \<Rightarrow> (say_request \<times> string) list" where
  "sender_loop c chat announce [] = []"
| "sender_loop c chat announce (q # qs) =
     map (\<lambda>tok. (q, tok))
       (if sq_announce q then snd (send_chat_announcement c (announce q) (sq_broadcaster q))
        else snd (say_chat_message c (chat q) (sq_broadcaster q))) @
     sender_loop c chat announce qs"

section \<open>No message twice\<close>

text \<open>
  An answer after which the message may be in the chat: every one but a refusal for missing rights.
\<close>

definition maybe_posted :: "helix_answer \<Rightarrow> bool" where
  "maybe_posted a = (case a of Helix_Lost \<Rightarrow> True | Helix_Answer status _ \<Rightarrow> status \<noteq> 401 \<and> status \<noteq> 403)"

lemma post_refused: "\<not> maybe_posted a \<longleftrightarrow> snd (post_chat_message a) \<and> fst (post_chat_message a) \<in> {401, 403}"
  by (auto simp: maybe_posted_def post_chat_message_def split: helix_answer.splits option.splits list.splits)

text \<open>
  A chat message is never posted twice: at most two requests are made, and at most one of them got
  an answer after which the message may be in the chat (a lost request counts as one); the second, with
  the bot's own token, follows only a refusal of the app's token; and the call reports success only if
  Twitch confirmed the last request.
\<close>

theorem message_posted_at_most_once:
  assumes "say_chat_message c twitch broadcaster = (ok, made)"
  shows "length made \<le> 2 \<and>
    length (filter (\<lambda>n. maybe_posted (twitch n (made ! n))) [0..<length made]) \<le> 1 \<and>
    (length made = 2 \<longrightarrow> \<not> maybe_posted (twitch 0 (made ! 0)) \<and> Some (made ! 1) = helix_user_token c) \<and>
    (ok \<longrightarrow> made \<noteq> [] \<and> \<not> snd (post_chat_message (twitch (length made - 1) (last made))))"
proof (cases "cf_client_id c = [] \<or> broadcaster = []")
  case True
  then have "made = [] \<and> \<not> ok" using assms by (auto simp: say_chat_message_def split: if_splits)
  then show ?thesis by simp
next
  case False
  have user: "send_with_user_token c twitch xs = (ok, made) \<Longrightarrow>
      made = xs \<and> \<not> ok \<or> (\<exists>tok. helix_user_token c = Some tok \<and> made = xs @ [tok] \<and>
        ok = (\<not> snd (post_chat_message (twitch (length xs) tok))))" for xs
    by (auto simp: send_with_user_token_def split: option.splits)
  show ?thesis
  proof (cases "\<exists>app. cf_app_provider c = Some (Some app)")
    case no: False
    then have "send_with_user_token c twitch [] = (ok, made)"
      using assms False by (auto simp: say_chat_message_def split: option.splits)
    from user [OF this] show ?thesis by auto
  next
    case True
    then obtain app where app: "cf_app_provider c = Some (Some app)" by blast
    obtain status failed where p: "post_chat_message (twitch 0 app) = (status, failed)" by (meson surj_pair)
    note run = assms [unfolded say_chat_message_def app option.case p prod.case]
    show ?thesis
    proof (cases "failed \<and> (status = 401 \<or> status = 403)")
      case no: False
      have "made = [app] \<and> ok = (\<not> failed)"
        using run no False by (cases failed) (simp_all split: if_splits)
      then show ?thesis by (simp add: p)
    next
      case yes: True
      then have refused: "\<not> maybe_posted (twitch 0 app)" using p by (simp add: post_refused)
      have "send_with_user_token c twitch [app] = (ok, made)" using run yes False by (simp split: if_splits)
      then consider "made = [app]" "\<not> ok"
        | tok where "helix_user_token c = Some tok" "made = [app, tok]" "ok = (\<not> snd (post_chat_message (twitch 1 tok)))"
        using user by fastforce
      then show ?thesis by cases (simp_all add: refused upt_rec numeral_2_eq_2)
    qed
  qed
qed

theorem message_posted_at_most_once_witness:
  "length (filter (\<lambda>n. maybe_posted ((if n = 0 then Helix_Answer 403 None else Helix_Lost))) [0..<2]) \<le> 1"
proof -
  let ?c = "\<lparr> cf_client_id = ''c'', cf_oauth = ''oauth:u'', cf_user_provider = None, cf_app_provider = Some (Some ''app'') \<rparr>"
  let ?t = "\<lambda>n tok. if n = 0 then Helix_Answer 403 None else Helix_Lost"
  have "say_chat_message ?c ?t ''42'' = (False, [''app'', ''u''])"
    by (simp add: say_chat_message_def post_chat_message_def send_with_user_token_def helix_user_token_def trim_prefix_def
        has_prefix_def)
  from message_posted_at_most_once [OF this] show ?thesis by (simp add: numeral_2_eq_2)
qed

end
