(* ===== verification/Event_Sub_Properties.thy ===== *)
theory Event_Sub_Properties
  imports Event_Sub
begin

text \<open>
  The retry with a fresh token heals a revoked or forgotten one, and the listing returns every page once
  and in order, exactly when the cursors come to an end.
\<close>

section \<open>A Twitch that works\<close>

text \<open>
  Stated for the states that satisfy \<open>I\<close>: the token endpoint issues a token that \<open>good\<close> accepts; a
  request is refused with 401 exactly for a token that \<open>good\<close> does not accept, and answered within \<open>Q\<close>
  otherwise. Refusals and token requests stay within \<open>I\<close>.
\<close>

definition issues_good :: "'w twitch \<Rightarrow> event_sub_config \<Rightarrow> (string \<Rightarrow> bool) \<Rightarrow> ('w \<Rightarrow> bool) \<Rightarrow> bool" where
  "issues_good tw cfg good I \<longleftrightarrow>
     (\<forall>w. I w \<longrightarrow> (\<exists>tok expires w'.
        tw_token tw (ec_client_id cfg) (ec_client_secret cfg) w = (Some (200, Some (tok, expires)), w') \<and>
        tok \<noteq> [] \<and> good tok \<and> I w'))"

definition checks_tokens ::
  "(string \<Rightarrow> bool) \<Rightarrow> ('w \<Rightarrow> bool) \<Rightarrow> (int \<times> 'b \<Rightarrow> 'w \<Rightarrow> bool) \<Rightarrow> (string \<Rightarrow> 'w \<Rightarrow> (int \<times> 'b) option \<times> 'w) \<Rightarrow> bool" where
  "checks_tokens good I Q send \<longleftrightarrow>
     (\<forall>tok w. I w \<longrightarrow> (\<exists>status b w'. send tok w = (Some (status, b), w') \<and>
        (if good tok then status \<noteq> 401 \<and> Q (status, b) w' else status = 401 \<and> I w')))"

section \<open>The retry\<close>

lemma config_invalidate [simp]: "ev_config (invalidate_app_access_token c) = ev_config c"
  by (simp add: invalidate_app_access_token_def)

lemma app_access_token_works:
  assumes "issues_good tw (ev_config c) good I" and "I w"
  obtains tok c1 w1 where "app_access_token tw (c, w) = (Inr tok, c1, w1)" and "ev_token c1 = tok"
    and "ev_config c1 = ev_config c" and "I w1" and "ev_token c = [] \<longrightarrow> good tok"
proof -
  obtain tok expires w' where t: "tw_token tw (ec_client_id (ev_config c)) (ec_client_secret (ev_config c)) w =
      (Some (200, Some (tok, expires)), w')" "tok \<noteq> []" "good tok" "I w'"
    using assms unfolding issues_good_def by blast
  show thesis
  proof (cases "ev_token c \<noteq> [] \<and> tw_now tw w < ev_expiry c - app_token_expiry_skew")
    case True
    then show thesis by (intro that [of "ev_token c" c w]) (auto simp: app_access_token_def assms(2))
  next
    case False
    let ?c = "c\<lparr> ev_token := tok, ev_expiry := tw_now tw w' + wrap64 ((if expires \<le> 0 then 86400 else expires) * 1000000000) \<rparr>"
    have "app_access_token tw (c, w) = (Inr tok, ?c, w')"
      using False t by (auto simp: app_access_token_def fetch_app_access_token_def)
    then show thesis by (rule that) (simp_all add: t)
  qed
qed

lemma authorized_good:
  assumes "app_access_token tw (c, w) = (Inr tok, c1, w1)" and "good tok" and "I w1" and "checks_tokens good I Q send"
  shows "\<exists>a w2. authorized n tw send (c, w) = (Inr a, c1, w2) \<and> fst a \<noteq> 401 \<and> Q a w2"
proof -
  obtain status b w' where "send tok w1 = (Some (status, b), w')" "status \<noteq> 401" "Q (status, b) w'"
    using assms(2-4) unfolding checks_tokens_def by metis
  then show ?thesis using assms(1) by (cases n) auto
qed

lemma authorized_recovers:
  assumes "issues_good tw (ev_config c) good I" and "checks_tokens good I Q send" and "I w"
  shows "\<exists>a c' w2. authorized (Suc n) tw send (c, w) = (Inr a, c', w2) \<and> fst a \<noteq> 401 \<and> Q a w2 \<and> good (ev_token c') \<and>
    ev_config c' = ev_config c"
proof -
  obtain tok c1 w1 where t: "app_access_token tw (c, w) = (Inr tok, c1, w1)" "ev_token c1 = tok" "ev_config c1 = ev_config c"
    "I w1" by (rule app_access_token_works [OF assms(1,3)])
  show ?thesis
  proof (cases "good tok")
    case True
    then show ?thesis using authorized_good [where I = I, OF t(1) True t(4) assms(2), of "Suc n"] t(2,3) by blast
  next
    case False
    obtain b w2 where refused: "send tok w1 = (Some (401, b), w2)" "I w2"
      using assms(2) t(4) False unfolding checks_tokens_def by metis
    let ?c = "invalidate_app_access_token c1"
    have "issues_good tw (ev_config ?c) good I" using assms(1) t(3) by simp
    then obtain tok2 c2 w3 where u: "app_access_token tw (?c, w2) = (Inr tok2, c2, w3)" "ev_token c2 = tok2"
      "ev_config c2 = ev_config ?c" "I w3" "ev_token ?c = [] \<longrightarrow> good tok2"
      using refused(2) by (rule app_access_token_works [of tw ?c good I w2])
    have "good tok2" using u(5) by (simp add: invalidate_app_access_token_def)
    from authorized_good [where I = I, OF u(1) this u(4) assms(2), of n] obtain a w4
      where "authorized n tw send (?c, w2) = (Inr a, c2, w4)" "fst a \<noteq> 401" "Q a w4" by blast
    then show ?thesis using t refused u \<open>good tok2\<close> by auto
  qed
qed

lemma request_recovers:
  assumes "issues_good tw (ev_config c) good I" and "checks_tokens good I Q send" and "I w"
  obtains a c' w2 where "authorized 1 tw send (c, w) = (Inr a, c', w2)" and "fst a \<noteq> 401" and "Q a w2"
    and "good (ev_token c')" and "ev_config c' = ev_config c"
  using authorized_recovers [OF assms, of 0] unfolding One_nat_def by blast

text \<open>
  a forgotten or revoked token does not break the client: whatever token it has cached and whatever its
  expiry says, as long as Twitch issues tokens it accepts, a request for a new subscription is answered
  as Twitch answers an accepted token, never with 401, and the client keeps a token that is accepted. So is
  the query for the live state, which then never fails with 401.
\<close>

theorem fresh_token_is_retried:
  assumes "issues_good tw (ev_config c) good I" and "checks_tokens good I Q (tw_create tw p)"
    and "checks_tokens good I R (tw_streams tw bid)" and "I w"
  shows "(\<exists>a c' w'. attempt_new_subscription tw p (c, w) = (Inr a, c', w') \<and> fst a \<noteq> 401 \<and> Q a w' \<and> good (ev_token c')) \<and>
    fst (is_stream_live tw bid (c, w)) \<noteq> Inl (Bad_Status 401)"
proof
  show "\<exists>a c' w'. attempt_new_subscription tw p (c, w) = (Inr a, c', w') \<and> fst a \<noteq> 401 \<and> Q a w' \<and> good (ev_token c')"
    unfolding attempt_new_subscription_def by (rule request_recovers [OF assms(1,2,4)]) blast
  show "fst (is_stream_live tw bid (c, w)) \<noteq> Inl (Bad_Status 401)"
    by (rule request_recovers [OF assms(1,3,4)]) (auto simp: is_stream_live_def split: prod.splits option.splits)
qed

text \<open>A Twitch that issues one token and lists three subscriptions on two pages.\<close>

definition demo_page :: "string \<Rightarrow> subscription list \<times> string" where
  "demo_page cursor =
     (let sub = (\<lambda>i. \<lparr> sub_id = i, sub_type = ''stream.online'', sub_status = ''enabled'', sub_broadcaster = ''42'',
                       sub_method = ''webhook'', sub_callback = ''cb'' \<rparr>)
      in if cursor = [] then ([sub ''a'', sub ''b''], ''p2'') else ([sub ''c''], []))"

definition demo_twitch :: "(string \<Rightarrow> subscription list \<times> string) \<Rightarrow> unit twitch" where
  "demo_twitch page =
     \<lparr> tw_now = (\<lambda>_. 0), tw_token = (\<lambda>_ _ w. (Some (200, Some (''good'', 3600)), w)),
       tw_create = (\<lambda>_ tok w. (Some (if tok = ''good'' then (202, []) else (401, [])), w)),
       tw_list = (\<lambda>cursor tok w. (Some (if tok = ''good'' then (200, Some (page cursor)) else (401, None)), w)),
       tw_delete = (\<lambda>_ tok w. (Some (if tok = ''good'' then 204 else 401, ()), w)),
       tw_streams = (\<lambda>_ tok w. (Some (if tok = ''good'' then (200, Some []) else (401, None)), w)),
       tw_users = (\<lambda>_ tok w. (Some (if tok = ''good'' then (200, Some []) else (401, None)), w)) \<rparr>"

definition demo_client :: event_sub_client where
  "demo_client =
     \<lparr> ev_config = \<lparr> ec_client_id = ''id'', ec_client_secret = ''se'', ec_secret = ''es'', ec_callback = ''cb'' \<rparr>,
       ev_token = ''revoked'', ev_expiry = 1000000000000 \<rparr>"

lemma demo_twitch_works:
  "issues_good (demo_twitch page) cfg (\<lambda>tok. tok = ''good'') (\<lambda>_. True)"
  "checks_tokens (\<lambda>tok. tok = ''good'') (\<lambda>_. True) (\<lambda>a _. fst a = 202) (tw_create (demo_twitch page) p)"
  "checks_tokens (\<lambda>tok. tok = ''good'') (\<lambda>_. True) (\<lambda>a _. fst a = 200) (tw_streams (demo_twitch page) bid)"
  by (simp_all add: issues_good_def checks_tokens_def demo_twitch_def)

theorem fresh_token_is_retried_witness:
  "\<exists>a c' w2. attempt_new_subscription (demo_twitch demo_page) (webhook_payload ''stream.online'' None (ev_config demo_client) ''42'')
      (demo_client, ()) = (Inr a, c', w2) \<and> fst a = 202 \<and> ev_token c' = ''good''"
  using fresh_token_is_retried [OF demo_twitch_works(1) demo_twitch_works(2) demo_twitch_works(3) TrueI] by blast

section \<open>The listing\<close>

text \<open>What following the cursors of \<open>page\<close> for at most so many pages gives.\<close>

fun follow :: "nat \<Rightarrow> (string \<Rightarrow> subscription list \<times> string) \<Rightarrow> string \<Rightarrow> subscription list option" where
  "follow 0 page cursor = None"
| "follow (Suc n) page cursor =
     (case page cursor of (subs, next) \<Rightarrow> if next = [] then Some subs else map_option ((@) subs) (follow n page next))"

definition lists_pages ::
  "'w twitch \<Rightarrow> (string \<Rightarrow> bool) \<Rightarrow> ('w \<Rightarrow> bool) \<Rightarrow> (string \<Rightarrow> subscription list \<times> string) \<Rightarrow> bool" where
  "lists_pages tw good I page \<longleftrightarrow>
     (\<forall>cursor. checks_tokens good I (\<lambda>a w. a = (200, Some (page cursor)) \<and> I w) (tw_list tw cursor))"

lemma page_get:
  assumes "issues_good tw (ev_config c) good I" and "lists_pages tw good I page" and "I w"
  obtains c' w' where "do_app_get tw (tw_list tw cursor) (c, w) = (Inr (200, Some (page cursor)), c', w')"
    and "ev_config c' = ev_config c" and "I w'"
proof -
  have "checks_tokens good I (\<lambda>a w. a = (200, Some (page cursor)) \<and> I w) (tw_list tw cursor)"
    using assms(2) by (simp add: lists_pages_def)
  from request_recovers [OF assms(1) this assms(3)] that show thesis by (auto simp: do_app_get_def)
qed

lemma list_pages_follow:
  assumes "issues_good tw (ev_config c) good I" and "lists_pages tw good I page" and "I w" and "follow n page cursor = Some subs"
  shows "\<exists>c' w'. list_pages tw cursor out (c, w) = Some (Inr (out @ subs), c', w') \<and> ev_config c' = ev_config c \<and> I w'"
  using assms
proof (induction n arbitrary: cursor subs out c w)
  case (Suc n)
  obtain c' w' where get: "do_app_get tw (tw_list tw cursor) (c, w) = (Inr (200, Some (page cursor)), c', w')"
    and cfg: "ev_config c' = ev_config c" and inv: "I w'"
    by (rule page_get [OF Suc.prems(1-3)])
  obtain here nxt where p: "page cursor = (here, nxt)" by fastforce
  show ?case
  proof (cases "nxt = []")
    case True
    then show ?thesis using get p cfg inv Suc.prems(4) by (subst list_pages.simps) simp
  next
    case False
    then obtain rest where rest: "follow n page nxt = Some rest" "subs = here @ rest"
      using p Suc.prems(4) by (auto split: option.splits)
    have "issues_good tw (ev_config c') good I" using Suc.prems(1) cfg by simp
    from Suc.IH [OF this Suc.prems(2) inv rest(1), of "out @ here"] obtain c2 w2
      where "list_pages tw nxt (out @ here) (c', w') = Some (Inr ((out @ here) @ rest), c2, w2)"
        "ev_config c2 = ev_config c'" "I w2" by blast
    then show ?thesis using get p False rest(2) cfg by (subst list_pages.simps) simp
  qed
qed simp

definition pages_followed ::
  "(string \<Rightarrow> bool) \<Rightarrow> ('w \<Rightarrow> bool) \<Rightarrow> (string \<Rightarrow> subscription list \<times> string) \<Rightarrow> 'w twitch \<Rightarrow> string \<Rightarrow>
     subscription list \<Rightarrow> event_sub_client \<times> 'w \<Rightarrow> (event_sub_error + subscription list) \<times> event_sub_client \<times> 'w \<Rightarrow> bool" where
  "pages_followed good I page tw cursor out s y \<longleftrightarrow>
     issues_good tw (ev_config (fst s)) good I \<longrightarrow> lists_pages tw good I page \<longrightarrow> I (snd s) \<longrightarrow>
     (\<exists>n subs s'. y = (Inr (out @ subs), s') \<and> follow n page cursor = Some subs)"

lemma list_pages_ends:
  assumes "list_pages tw cursor out s = Some y"
  shows "pages_followed good I page tw cursor out s y"
proof (rule list_pages.raw_induct [OF _ assms, where P = "pages_followed good I page"])
  fix rec tw cursor out s y
  assume IH: "\<And>tw cursor out s y. rec tw cursor out s = Some y \<Longrightarrow> pages_followed good I page tw cursor out s y"
    and run: "(case do_app_get tw (tw_list tw cursor) s of
          (Inl e, s1) \<Rightarrow> Some (Inl e, s1)
        | (Inr (status, body), s1) \<Rightarrow>
            if status \<noteq> 200 then Some (Inl (Bad_Status status), s1)
            else case body of None \<Rightarrow> Some (Inl Undecodable, s1)
              | Some (subs, next) \<Rightarrow>
                  if next = [] then Some (Inr (out @ subs), s1) else rec tw next (out @ subs) s1) = Some y"
  show "pages_followed good I page tw cursor out s y"
    unfolding pages_followed_def
  proof (intro impI)
    assume ok: "issues_good tw (ev_config (fst s)) good I" "lists_pages tw good I page" "I (snd s)"
    obtain c w where s: "s = (c, w)" by fastforce
    obtain c' w' where get: "do_app_get tw (tw_list tw cursor) (c, w) = (Inr (200, Some (page cursor)), c', w')"
      and cfg: "ev_config c' = ev_config c" and inv: "I w'"
      using page_get [of tw c good I page w cursor] ok s by auto
    obtain here nxt where p: "page cursor = (here, nxt)" by fastforce
    show "\<exists>n subs s'. y = (Inr (out @ subs), s') \<and> follow n page cursor = Some subs"
    proof (cases "nxt = []")
      case True
      then have "follow 1 page cursor = Some here" and "y = (Inr (out @ here), c', w')" using p get run s by auto
      then show ?thesis by blast
    next
      case False
      then have "rec tw nxt (out @ here) (c', w') = Some y" using p get run s by auto
      from IH [OF this] ok cfg inv s obtain n subs s' where "y = (Inr ((out @ here) @ subs), s')" "follow n page nxt = Some subs"
        unfolding pages_followed_def by auto
      then have "follow (Suc n) page cursor = Some (here @ subs)" and "y = (Inr (out @ (here @ subs)), s')"
        using p False by auto
      then show ?thesis by blast
    qed
  qed
qed

text \<open>
  C34: with a Twitch that works, listing the subscriptions gives every page once and in the order of the
  cursors, through a token that was revoked before or between the pages; it returns exactly when the
  cursors come to an end, and never with an error. A chain of cursors that comes back to one it had keeps
  the loop running for ever.
\<close>

theorem listing_returns_iff_cursors_end:
  assumes "issues_good tw (ev_config c) good I" and "lists_pages tw good I page" and "I w"
  shows "((\<exists>s'. list_event_sub_subscriptions tw (c, w) = Some (Inr subs, s')) \<longleftrightarrow> (\<exists>n. follow n page [] = Some subs)) \<and>
    (list_event_sub_subscriptions tw (c, w) = None \<longleftrightarrow> (\<forall>n. follow n page [] = None))"
proof -
  have ends: "\<exists>n subs s'. y = (Inr subs, s') \<and> follow n page [] = Some subs"
    if "list_event_sub_subscriptions tw (c, w) = Some y" for y
    using list_pages_ends [of tw "[]" "[]" "(c, w)" y good I page] assms that
    by (auto simp: list_event_sub_subscriptions_def pages_followed_def)
  have runs: "\<exists>s'. list_event_sub_subscriptions tw (c, w) = Some (Inr r, s')" if "follow n page [] = Some r" for n r
    using list_pages_follow [OF assms that, of "[]"] by (auto simp add: list_event_sub_subscriptions_def)
  have "(\<exists>s'. list_event_sub_subscriptions tw (c, w) = Some (Inr subs, s')) \<longleftrightarrow> (\<exists>n. follow n page [] = Some subs)"
    using ends runs by blast
  moreover have "list_event_sub_subscriptions tw (c, w) = None \<longleftrightarrow> (\<forall>n. follow n page [] = None)"
    using ends runs by (metis not_Some_eq)
  ultimately show ?thesis by blast
qed

definition demo_cycle :: "string \<Rightarrow> subscription list \<times> string" where
  "demo_cycle cursor = ([], ''again'')"

lemma demo_lists: "lists_pages (demo_twitch page) (\<lambda>tok. tok = ''good'') (\<lambda>_. True) page"
  by (simp add: lists_pages_def checks_tokens_def demo_twitch_def)

lemma demo_cycle_follow: "follow n demo_cycle cursor = None"
  by (induction n arbitrary: cursor) (simp_all add: demo_cycle_def)

theorem listing_returns_iff_cursors_end_witness:
  "(\<exists>s'. list_event_sub_subscriptions (demo_twitch demo_page) (demo_client, ()) =
      Some (Inr (fst (demo_page []) @ fst (demo_page ''p2'')), s')) \<and>
   list_event_sub_subscriptions (demo_twitch demo_cycle) (demo_client, ()) = None"
proof
  have "follow 2 demo_page [] = Some (fst (demo_page []) @ fst (demo_page ''p2''))" by code_simp
  then show "\<exists>s'. list_event_sub_subscriptions (demo_twitch demo_page) (demo_client, ()) =
      Some (Inr (fst (demo_page []) @ fst (demo_page ''p2'')), s')"
    using listing_returns_iff_cursors_end [OF demo_twitch_works(1) demo_lists TrueI] by blast
  show "list_event_sub_subscriptions (demo_twitch demo_cycle) (demo_client, ()) = None"
    using listing_returns_iff_cursors_end [OF demo_twitch_works(1) demo_lists TrueI, of demo_cycle demo_client] demo_cycle_follow by blast
qed

end
