(* ===== verification/Overlay_Manage.thy ===== *)
theory Overlay_Manage
  imports Overlay_Relay Event_Sub
begin

text \<open>
  Managing overlays (\<^verbatim>\<open>endpoints/overlay/device.go\<close>, \<^verbatim>\<open>eventsub_subs.go\<close> and the handshake of
  \<^verbatim>\<open>connect.go\<close>): minting, listing and revoking devices with the effect on the live connection, and
  the EventSub subscriptions that follow the devices.
\<close>

section \<open>Subscriptions of the overlay\<close>

definition overlay_sub_types :: "string list" where
  "overlay_sub_types = [sub_type_cheer, sub_type_redemption, sub_type_power_up]"

record overlay_config =
  oc_client_id :: string
  oc_client_secret :: string
  oc_secret :: string
  oc_callback :: string

definition overlay_configured :: "overlay_config \<Rightarrow> bool" where
  "overlay_configured cfg \<longleftrightarrow> oc_secret cfg \<noteq> [] \<and> oc_callback cfg \<noteq> []"

definition new_overlay_client :: "overlay_config \<Rightarrow> event_sub_error + event_sub_client" where
  "new_overlay_client cfg =
     (if \<not> overlay_configured cfg then Inl Missing_Secret
      else new_client \<lparr> ec_client_id = oc_client_id cfg, ec_client_secret = oc_client_secret cfg,
                        ec_secret = oc_secret cfg, ec_callback = oc_callback cfg \<rparr>)"

text \<open>What the log line of an attempt says.\<close>

datatype sub_outcome = Sub_Skipped | Sub_Failed | Sub_Not_Authorized | Sub_Exists | Sub_Created

definition sub_outcome_of :: "event_sub_error + int \<times> string \<Rightarrow> sub_outcome" where
  "sub_outcome_of r =
     (case r of
        Inl _ \<Rightarrow> Sub_Failed
      | Inr a \<Rightarrow> if fst a = 403 then Sub_Not_Authorized
                 else if already_exists a then Sub_Exists
                 else if result_ok a then Sub_Created
                 else Sub_Failed)"

definition create_overlay_sub ::
  "'w twitch \<Rightarrow> string \<Rightarrow> string \<Rightarrow> event_sub_client \<times> 'w \<Rightarrow> sub_outcome \<times> event_sub_client \<times> 'w" where
  "create_overlay_sub tw typ bid s =
     (if typ = sub_type_cheer then apfst sub_outcome_of (subscribe_channel_cheer tw bid s)
      else if typ = sub_type_redemption then apfst sub_outcome_of (subscribe_channel_points_redemption_add tw bid s)
      else if typ = sub_type_power_up then apfst sub_outcome_of (subscribe_custom_power_up_redemption_add tw bid s)
      else (Sub_Skipped, s))"

definition create_overlay_subs :: "'w twitch \<Rightarrow> (string \<times> string) list \<Rightarrow> event_sub_client \<times> 'w \<Rightarrow> event_sub_client \<times> 'w" where
  "create_overlay_subs tw jobs s = fold (\<lambda>(bid, typ) s. snd (create_overlay_sub tw typ bid s)) jobs s"

definition subscribe_overlay_webhooks :: "'w twitch \<Rightarrow> overlay_config \<Rightarrow> string \<Rightarrow> 'w \<Rightarrow> 'w" where
  "subscribe_overlay_webhooks tw cfg bid w =
     (if \<not> overlay_configured cfg then w
      else case new_overlay_client cfg of
        Inl _ \<Rightarrow> w
      | Inr c \<Rightarrow> snd (create_overlay_subs tw (map (\<lambda>typ. (bid, typ)) overlay_sub_types) (c, w)))"

definition is_overlay_sub :: "subscription \<Rightarrow> string \<Rightarrow> bool" where
  "is_overlay_sub sub callback \<longleftrightarrow>
     sub_method sub = ''webhook'' \<and> sub_callback sub = callback \<and> sub_type sub \<in> set overlay_sub_types"

definition delete_subs :: "'w twitch \<Rightarrow> string list \<Rightarrow> event_sub_client \<times> 'w \<Rightarrow> event_sub_client \<times> 'w" where
  "delete_subs tw ids s = fold (\<lambda>i s. snd (delete_event_sub_subscription tw i s)) ids s"

text \<open>\<open>None\<close> is a listing that does not come to an end.\<close>

definition unsubscribe_overlay_webhooks :: "'w twitch \<Rightarrow> overlay_config \<Rightarrow> string \<Rightarrow> 'w \<Rightarrow> 'w option" where
  "unsubscribe_overlay_webhooks tw cfg bid w =
     (if \<not> overlay_configured cfg then Some w
      else case new_overlay_client cfg of
        Inl _ \<Rightarrow> Some w
      | Inr c \<Rightarrow>
          (case list_event_sub_subscriptions tw (c, w) of
             None \<Rightarrow> None
           | Some (Inl _, s1) \<Rightarrow> Some (snd s1)
           | Some (Inr subs, s1) \<Rightarrow>
               Some (snd (delete_subs tw
                 (map sub_id (filter (\<lambda>s. is_overlay_sub s (oc_callback cfg) \<and> sub_broadcaster s = bid) subs)) s1))))"

section \<open>Reconciliation\<close>

definition sub_key :: "string \<Rightarrow> string \<Rightarrow> string" where
  "sub_key bid typ = bid @ ''|'' @ typ"

definition missing_subs :: "string \<Rightarrow> string list \<Rightarrow> subscription list \<Rightarrow> (string \<times> string) list" where
  "missing_subs callback active existing =
     (let enabled = map (\<lambda>s. sub_key (sub_broadcaster s) (sub_type s))
                        (filter (\<lambda>s. is_overlay_sub s callback \<and> sub_status s = ''enabled'') existing)
      in concat (map (\<lambda>bid. map (\<lambda>typ. (bid, typ)) (filter (\<lambda>typ. sub_key bid typ \<notin> set enabled) overlay_sub_types)) active))"

definition orphan_subs :: "string \<Rightarrow> string list \<Rightarrow> subscription list \<Rightarrow> string list" where
  "orphan_subs callback active existing =
     map sub_id (filter (\<lambda>s. is_overlay_sub s callback \<and> sub_broadcaster s \<notin> set active) existing)"

definition reconcile_subscriptions ::
  "'w twitch \<Rightarrow> string \<Rightarrow> string list \<Rightarrow> event_sub_client \<times> 'w \<Rightarrow> (event_sub_client \<times> 'w) option" where
  "reconcile_subscriptions tw callback active s =
     (case list_event_sub_subscriptions tw s of
        None \<Rightarrow> None
      | Some (Inl _, s1) \<Rightarrow> Some s1
      | Some (Inr existing, s1) \<Rightarrow>
          Some (delete_subs tw (orphan_subs callback active existing)
                 (create_overlay_subs tw (missing_subs callback active existing) s1)))"

text \<open>\<open>active\<close> is what the relay answers for the broadcasters with an active device.\<close>

definition reconcile_overlay_subscriptions ::
  "'w twitch \<Rightarrow> overlay_config \<Rightarrow> device_error + string list \<Rightarrow> 'w \<Rightarrow> 'w option" where
  "reconcile_overlay_subscriptions tw cfg active w =
     (if \<not> overlay_configured cfg then Some w
      else case active of
        Inl _ \<Rightarrow> Some w
      | Inr ids \<Rightarrow>
          (case new_overlay_client cfg of
             Inl _ \<Rightarrow> Some w
           | Inr c \<Rightarrow> map_option snd (reconcile_subscriptions tw (oc_callback cfg) ids (c, w))))"

section \<open>Devices\<close>

record overlay_account =
  oa_id :: int
  oa_twitch :: "string option"

datatype 'a device_reply = Dev_Ok 'a | Dev_Unauthorized | Dev_Bad_Request | Dev_Not_Found | Dev_Server_Error

text \<open>What a handler starts in the background once it has answered.\<close>

datatype overlay_background = Subscribe_Overlay string | Unsubscribe_Overlay string

text \<open>The number of characters of a UTF-8 text: the bytes that do not continue one.\<close>

definition rune_count :: "string \<Rightarrow> nat" where
  "rune_count s = length (filter (\<lambda>c. code_of c < 128 \<or> 192 \<le> code_of c) s)"

definition twitch_of :: "overlay_account \<Rightarrow> overlay_config option \<Rightarrow> string option" where
  "twitch_of a cfg =
     (case oa_twitch a of
        None \<Rightarrow> None
      | Some i \<Rightarrow> if i \<noteq> [] \<and> (case cfg of None \<Rightarrow> False | Some c \<Rightarrow> overlay_configured c) then Some i else None)"

text \<open>\<open>label\<close> is \<open>None\<close> for a body that does not bind, \<open>cfg\<close> for a configuration of another kind.\<close>

definition create_device_endpoint ::
  "(string \<Rightarrow> string) \<Rightarrow> nat list option \<Rightarrow> faults \<Rightarrow> overlay_config option \<Rightarrow> overlay_account option \<Rightarrow> string option
     \<Rightarrow> event_log \<Rightarrow> device table \<times> registry
     \<Rightarrow> (device \<times> string) device_reply \<times> overlay_background list \<times> device table \<times> registry" where
  "create_device_endpoint hash random fl cfg account label log s =
     (case s of (t, r) \<Rightarrow>
        (case account of
           None \<Rightarrow> (Dev_Unauthorized, [], s)
         | Some a \<Rightarrow>
             (case label of
                None \<Rightarrow> (Dev_Bad_Request, [], s)
              | Some l \<Rightarrow>
                  if 100 < rune_count l then (Dev_Bad_Request, [], s)
                  else (case create_device hash random fl (oa_id a) l log t of
                          (Inl _, t') \<Rightarrow> (Dev_Server_Error, [], t', r)
                        | (Inr (token, d), t') \<Rightarrow>
                            (Dev_Ok (d, token),
                             (case twitch_of a cfg of None \<Rightarrow> [] | Some i \<Rightarrow> [Subscribe_Overlay i]),
                             t',
                             (case connected_device_id (oa_id a) r of
                                None \<Rightarrow> r
                              | Some old \<Rightarrow> disconnect_device (oa_id a) old r))))))"

definition list_devices_endpoint ::
  "faults \<Rightarrow> overlay_account option \<Rightarrow> device table \<times> registry \<Rightarrow> (device \<times> bool) list device_reply" where
  "list_devices_endpoint fl account s =
     (case account of
        None \<Rightarrow> Dev_Unauthorized
      | Some a \<Rightarrow>
          (case list_devices fl (oa_id a) (fst s) of
             Inl _ \<Rightarrow> Dev_Server_Error
           | Inr ds \<Rightarrow> Dev_Ok (map (\<lambda>d. (d, connected_device_id (oa_id a) (snd s) = Some (dv_id d))) ds)))"

text \<open>Positions 0 and 1 are the revocation, 2 the query for the remaining devices.\<close>

definition revoke_device_endpoint ::
  "faults \<Rightarrow> overlay_config option \<Rightarrow> overlay_account option \<Rightarrow> string \<Rightarrow> device table \<times> registry
     \<Rightarrow> unit device_reply \<times> overlay_background list \<times> device table \<times> registry" where
  "revoke_device_endpoint fl cfg account param s =
     (case s of (t, r) \<Rightarrow>
        (case account of
           None \<Rightarrow> (Dev_Unauthorized, [], s)
         | Some a \<Rightarrow>
             (case atoi param of
                None \<Rightarrow> (Dev_Bad_Request, [], s)
              | Some i \<Rightarrow>
                  (case revoke_device fl (oa_id a) i t of
                     (Some e, t') \<Rightarrow> (if e = Device_Not_Found then Dev_Not_Found else Dev_Server_Error, [], t', r)
                   | (None, t') \<Rightarrow>
                       (Dev_Ok (),
                        (case twitch_of a cfg of
                           None \<Rightarrow> []
                         | Some tid \<Rightarrow> if list_devices (\<lambda>n. fl (n + 2)) (oa_id a) t' = Inr [] then [Unsubscribe_Overlay tid] else []),
                        t', disconnect_device (oa_id a) i r)))))"

section \<open>The handshake\<close>

record hello =
  hl_type :: string
  hl_token :: string
  hl_since :: int

datatype hello_error = Hello_Unreadable | Hello_Undecodable | Hello_Wrong_Type | Hello_Refused device_error

definition read_hello ::
  "(string \<Rightarrow> string) \<Rightarrow> faults \<Rightarrow> hello option option \<Rightarrow> device table \<Rightarrow> hello_error + device \<times> hello" where
  "read_hello hash fl frame t =
     (case frame of
        None \<Rightarrow> Inl Hello_Unreadable
      | Some None \<Rightarrow> Inl Hello_Undecodable
      | Some (Some h) \<Rightarrow>
          if hl_type h \<noteq> ''hello'' then Inl Hello_Wrong_Type
          else let h' = (if hl_since h < 0 then h\<lparr> hl_since := 0 \<rparr> else h)
               in (case authenticate_device hash fl (hl_token h') t of
                     Inl e \<Rightarrow> Inl (Hello_Refused e)
                   | Inr d \<Rightarrow> Inr (d, h')))"

text \<open>The handshake and the registration are two steps; other requests can come in between.\<close>

definition register_hello :: "hello_error + device \<times> hello \<Rightarrow> registry \<Rightarrow> nat option \<times> registry" where
  "register_hello res r =
     (case res of
        Inl _ \<Rightarrow> (None, r)
      | Inr (d, _) \<Rightarrow> (case registry_add (dv_user d) (dv_id d) r of (c, r') \<Rightarrow> (Some c, r')))"

end
