(* ===== verification/Overlay_Manage_Properties.thy ===== *)
theory Overlay_Manage_Properties
  imports Overlay_Manage Event_Sub_Properties
begin

text \<open>
  The subscriptions follow the devices: the boot-time reconciliation against a Twitch that works leaves
  exactly the subscriptions the active devices need. Minting and revoking end what the old token could do.
\<close>

section \<open>A Twitch that keeps subscriptions\<close>

text \<open>
  A webhook subscription that Twitch has created delivers once its callback has answered the challenge; until
  then it is pending. Both count as live.
\<close>

definition live_status :: "string \<Rightarrow> bool" where
  "live_status st \<longleftrightarrow> st = ''enabled'' \<or> st = ''webhook_callback_verification_pending''"

definition sub_of_payload :: "string \<Rightarrow> string \<Rightarrow> sub_payload \<Rightarrow> subscription" where
  "sub_of_payload st i p =
     \<lparr> sub_id = i, sub_type = sp_type p, sub_status = st, sub_broadcaster = sp_broadcaster p,
       sub_method = sp_method p, sub_callback = sp_callback p \<rparr>"

definition has_sub :: "sub_payload \<Rightarrow> subscription list \<Rightarrow> bool" where
  "has_sub p ss \<longleftrightarrow> (\<exists>st i. live_status st \<and> sub_of_payload st i p \<in> set ss)"

text \<open>
  The answer to a creation: a conflict when the subscription is there and live; a refusal when the broadcaster
  has not granted what it needs; otherwise it is accepted, under a new id, enabled or still to be verified.
\<close>

definition creation_answer ::
  "(sub_payload \<Rightarrow> bool) \<Rightarrow> sub_payload \<Rightarrow> subscription list \<Rightarrow> int \<Rightarrow> subscription list \<Rightarrow> bool" where
  "creation_answer allows p ss status ss' \<longleftrightarrow>
     (if has_sub p ss then status = 409 \<and> ss' = ss
      else if \<not> allows p then status = 403 \<and> ss' = ss
      else status = 202 \<and> (\<exists>st i. live_status st \<and> i \<noteq> [] \<and> i \<notin> sub_id ` set ss \<and> ss' = ss @ [sub_of_payload st i p]))"

lemma has_subI: "live_status st \<Longrightarrow> sub_of_payload st i p \<in> set ss \<Longrightarrow> has_sub p ss"
  unfolding has_sub_def by blast

lemma creation_answer_has: "creation_answer allows p ss n ss' \<Longrightarrow> has_sub p ss' \<or> \<not> allows p"
  using has_subI [of _ _ p ss'] by (fastforce simp: creation_answer_def split: if_splits)

text \<open>
  \<open>subs w\<close> are the subscriptions in state \<open>w\<close>, which only requests change; \<open>allows\<close> tells what the broadcasters
  have granted. Creating answers as above; deleting removes the one with that id; a listing comes in pages that
  lead through all of them; the tokens issued are accepted.
\<close>

definition keeps_subs ::
  "'w twitch \<Rightarrow> (sub_payload \<Rightarrow> bool) \<Rightarrow> (string \<Rightarrow> bool) \<Rightarrow> ('w \<Rightarrow> subscription list)
     \<Rightarrow> (subscription list \<Rightarrow> string \<Rightarrow> subscription list \<times> string) \<Rightarrow> bool" where
  "keeps_subs tw allows good subs pages \<longleftrightarrow>
     (\<forall>cfg ss. issues_good tw cfg good (\<lambda>w. subs w = ss)) \<and>
     (\<forall>ss. lists_pages tw good (\<lambda>w. subs w = ss) (pages ss) \<and> (\<exists>n. follow n (pages ss) [] = Some ss)) \<and>
     (\<forall>p ss. checks_tokens good (\<lambda>w. subs w = ss) (\<lambda>a w. creation_answer allows p ss (fst a) (subs w)) (tw_create tw p)) \<and>
     (\<forall>i ss. checks_tokens good (\<lambda>w. subs w = ss)
        (\<lambda>a w. fst a = (if i \<in> sub_id ` set ss then 204 else 404) \<and> subs w = filter (\<lambda>s. sub_id s \<noteq> i) ss) (tw_delete tw i))"

lemma keeps_subsD:
  assumes "keeps_subs tw allows good subs pages"
  shows "issues_good tw cfg good (\<lambda>w. subs w = ss)"
    and "lists_pages tw good (\<lambda>w. subs w = ss) (pages ss)"
    and "\<exists>n. follow n (pages ss) [] = Some ss"
    and "checks_tokens good (\<lambda>w. subs w = ss) (\<lambda>a w. creation_answer allows p ss (fst a) (subs w)) (tw_create tw p)"
    and "checks_tokens good (\<lambda>w. subs w = ss)
        (\<lambda>a w. fst a = (if i \<in> sub_id ` set ss then 204 else 404) \<and> subs w = filter (\<lambda>s. sub_id s \<noteq> i) ss) (tw_delete tw i)"
  using assms unfolding keeps_subs_def by blast+

section \<open>One step\<close>

text \<open>What a client state must satisfy: its callback is that of the overlay.\<close>

definition overlay_payload :: "event_sub_config \<Rightarrow> string \<Rightarrow> string \<Rightarrow> sub_payload" where
  "overlay_payload cfg bid ty = webhook_payload ty None cfg bid"

lemma create_overlay_sub_request:
  assumes "ty \<in> set overlay_sub_types" and "bid \<noteq> []"
  shows "snd (create_overlay_sub tw ty bid (c, w)) = snd (attempt_new_subscription tw (overlay_payload (ev_config c) bid ty) (c, w))"
  using assms
  by (auto simp: create_overlay_sub_def overlay_sub_types_def subscribe_channel_cheer_def subscribe_webhook_def
      subscribe_channel_points_redemption_add_def subscribe_custom_power_up_redemption_add_def overlay_payload_def
      sub_type_cheer_def sub_type_redemption_def sub_type_power_up_def)

lemma create_step:
  assumes "keeps_subs tw allows good subs pages" and "ty \<in> set overlay_sub_types" and "bid \<noteq> []"
  obtains c' w' where "snd (create_overlay_sub tw ty bid (c, w)) = (c', w')" and "ev_config c' = ev_config c"
    and "has_sub (overlay_payload (ev_config c) bid ty) (subs w') \<or> \<not> allows (overlay_payload (ev_config c) bid ty)"
    and "subs w' = subs w \<or> (\<exists>st i. live_status st \<and> i \<notin> sub_id ` set (subs w) \<and>
      subs w' = subs w @ [sub_of_payload st i (overlay_payload (ev_config c) bid ty)])"
proof -
  let ?p = "overlay_payload (ev_config c) bid ty"
  have "subs w = subs w" by simp
  from request_recovers [OF keeps_subsD(1) [OF assms(1)] keeps_subsD(4) [OF assms(1)] this, of ?p c]
  obtain a c' w' where r: "authorized 1 tw (tw_create tw ?p) (c, w) = (Inr a, c', w')" "ev_config c' = ev_config c"
    "creation_answer allows ?p (subs w) (fst a) (subs w')" by blast
  have "snd (create_overlay_sub tw ty bid (c, w)) = (c', w')"
    unfolding create_overlay_sub_request [OF assms(2,3)] attempt_new_subscription_def r(1) by simp
  moreover have "has_sub ?p (subs w') \<or> \<not> allows ?p"
    by (rule creation_answer_has [OF r(3)])
  moreover have "subs w' = subs w \<or> (\<exists>st i. live_status st \<and> i \<notin> sub_id ` set (subs w) \<and> subs w' = subs w @ [sub_of_payload st i ?p])"
    using r(3) by (auto simp: creation_answer_def split: if_splits)
  ultimately show thesis using r(2) by (intro that)
qed

lemma delete_step:
  assumes "keeps_subs tw allows good subs pages" and "i \<noteq> []"
  obtains c' w' where "snd (delete_event_sub_subscription tw i (c, w)) = (c', w')" and "ev_config c' = ev_config c"
    and "subs w' = filter (\<lambda>s. sub_id s \<noteq> i) (subs w)"
proof -
  have "subs w = subs w" by simp
  from request_recovers [OF keeps_subsD(1) [OF assms(1)] keeps_subsD(5) [OF assms(1)] this, of i c]
  obtain a c' w' where r: "authorized 1 tw (tw_delete tw i) (c, w) = (Inr a, c', w')" "ev_config c' = ev_config c"
    "subs w' = filter (\<lambda>s. sub_id s \<noteq> i) (subs w)" by blast
  then have "snd (delete_event_sub_subscription tw i (c, w)) = (c', w')"
    using assms(2) by (auto simp: delete_event_sub_subscription_def split: prod.splits)
  then show thesis using r by (intro that)
qed

section \<open>The loops\<close>

lemma create_loop:
  assumes "keeps_subs tw allows good subs pages" and "\<forall>(bid, ty) \<in> set jobs. bid \<noteq> [] \<and> ty \<in> set overlay_sub_types"
  shows "\<exists>c' w' news. create_overlay_subs tw jobs (c, w) = (c', w') \<and> ev_config c' = ev_config c \<and>
     subs w' = subs w @ news \<and> sub_id ` set news \<inter> sub_id ` set (subs w) = {} \<and>
     (\<forall>s \<in> set news. \<exists>(bid, ty) \<in> set jobs. \<exists>st i. live_status st \<and> s = sub_of_payload st i (overlay_payload (ev_config c) bid ty)) \<and>
     (\<forall>(bid, ty) \<in> set jobs. has_sub (overlay_payload (ev_config c) bid ty) (subs w') \<or> \<not> allows (overlay_payload (ev_config c) bid ty))"
  using assms(2)
proof (induction jobs arbitrary: c w)
  case Nil
  then show ?case by (auto simp: create_overlay_subs_def)
next
  case (Cons job jobs)
  obtain bid ty where job: "job = (bid, ty)" by fastforce
  have ok: "ty \<in> set overlay_sub_types" "bid \<noteq> []" using Cons.prems job by auto
  let ?p = "overlay_payload (ev_config c) bid ty"
  obtain c1 w1 where one: "snd (create_overlay_sub tw ty bid (c, w)) = (c1, w1)" "ev_config c1 = ev_config c"
    "has_sub ?p (subs w1) \<or> \<not> allows ?p"
    "subs w1 = subs w \<or> (\<exists>st i. live_status st \<and> i \<notin> sub_id ` set (subs w) \<and> subs w1 = subs w @ [sub_of_payload st i ?p])"
    by (rule create_step [OF assms(1) ok, of c w])
  obtain c' w' news where rest: "create_overlay_subs tw jobs (c1, w1) = (c', w')" "ev_config c' = ev_config c1"
    "subs w' = subs w1 @ news" "sub_id ` set news \<inter> sub_id ` set (subs w1) = {}"
    "\<forall>s \<in> set news. \<exists>(bid, ty) \<in> set jobs. \<exists>st i. live_status st \<and> s = sub_of_payload st i (overlay_payload (ev_config c1) bid ty)"
    "\<forall>(bid, ty) \<in> set jobs. has_sub (overlay_payload (ev_config c1) bid ty) (subs w') \<or> \<not> allows (overlay_payload (ev_config c1) bid ty)"
    using Cons.IH [of c1 w1] Cons.prems by auto
  have run: "create_overlay_subs tw (job # jobs) (c, w) = (c', w')"
    using one(1) rest(1) job by (simp add: create_overlay_subs_def)
  have here: "has_sub ?p (subs w') \<or> \<not> allows ?p" using one(3) rest(3) by (auto simp: has_sub_def)
  show ?case
  proof (cases "subs w1 = subs w")
    case True
    then show ?thesis using run one(2) rest here job by (intro exI [of _ c'] exI [of _ w'] exI [of _ news]) auto
  next
    case False
    then obtain st i where i: "live_status st" "i \<notin> sub_id ` set (subs w)" "subs w1 = subs w @ [sub_of_payload st i ?p]"
      using one(4) by blast
    let ?s = "sub_of_payload st i ?p"
    have "sub_id ?s = i" by (simp add: sub_of_payload_def)
    then show ?thesis
      using run one(2) rest here job i by (intro exI [of _ c'] exI [of _ w'] exI [of _ "?s # news"]) auto
  qed
qed

lemma delete_loop:
  assumes "keeps_subs tw allows good subs pages" and "[] \<notin> set ids"
  shows "\<exists>c' w'. delete_subs tw ids (c, w) = (c', w') \<and> subs w' = filter (\<lambda>s. sub_id s \<notin> set ids) (subs w)"
  using assms(2)
proof (induction ids arbitrary: c w)
  case (Cons i ids)
  then have "i \<noteq> []" by auto
  then obtain c1 w1 where one: "snd (delete_event_sub_subscription tw i (c, w)) = (c1, w1)"
    "subs w1 = filter (\<lambda>s. sub_id s \<noteq> i) (subs w)" by (rule delete_step [OF assms(1), of i c w])
  from Cons obtain c' w' where "delete_subs tw ids (c1, w1) = (c', w')" "subs w' = filter (\<lambda>s. sub_id s \<notin> set ids) (subs w1)"
    by (metis list.set_intros(2))
  moreover have "filter (\<lambda>s. sub_id s \<notin> set ids) (filter (\<lambda>s. sub_id s \<noteq> i) (subs w)) =
      filter (\<lambda>s. sub_id s \<notin> set (i # ids)) (subs w)" by (auto intro: filter_cong)
  ultimately show ?case using one by (simp add: delete_subs_def)
qed (simp add: delete_subs_def)

section \<open>The reconciliation\<close>

lemma sub_key_inj:
  assumes "sub_key bid ty = sub_key bid' ty'" and "CHR ''|'' \<notin> set ty" and "CHR ''|'' \<notin> set ty'"
  shows "bid = bid' \<and> ty = ty'"
proof -
  have last: "takeWhile (\<lambda>c. c \<noteq> CHR ''|'') (rev (sub_key b x)) = rev x" if "CHR ''|'' \<notin> set x" for b x
    using that by (auto simp: sub_key_def takeWhile_append)
  have "ty = ty'" using last [OF assms(2), of bid] last [OF assms(3), of bid'] assms(1) by simp
  then show ?thesis using assms(1) by (simp add: sub_key_def)
qed

lemma overlay_types_no_bar: "ty \<in> set overlay_sub_types \<Longrightarrow> CHR ''|'' \<notin> set ty"
  by (auto simp: overlay_sub_types_def sub_type_cheer_def sub_type_redemption_def sub_type_power_up_def)

lemma missing_iff:
  "(bid, ty) \<in> set (missing_subs cb active existing) \<longleftrightarrow>
     bid \<in> set active \<and> ty \<in> set overlay_sub_types \<and>
     \<not> (\<exists>s \<in> set existing. is_overlay_sub s cb \<and> sub_status s = ''enabled'' \<and> sub_broadcaster s = bid \<and> sub_type s = ty)"
proof -
  have "sub_key bid ty \<in> (\<lambda>s. sub_key (sub_broadcaster s) (sub_type s)) `
        {s \<in> set existing. is_overlay_sub s cb \<and> sub_status s = ''enabled''} \<longleftrightarrow>
      (\<exists>s \<in> set existing. is_overlay_sub s cb \<and> sub_status s = ''enabled'' \<and> sub_broadcaster s = bid \<and> sub_type s = ty)"
    if "ty \<in> set overlay_sub_types"
    using sub_key_inj [OF _ overlay_types_no_bar [OF that] overlay_types_no_bar] by (fastforce simp: is_overlay_sub_def)
  then show ?thesis by (auto simp: missing_subs_def Let_def)
qed

lemma list_returns:
  assumes "keeps_subs tw allows good subs pages"
  shows "\<exists>c' w'. list_event_sub_subscriptions tw (c, w) = Some (Inr (subs w), c', w') \<and> ev_config c' = ev_config c \<and> subs w' = subs w"
proof -
  obtain n where "follow n (pages (subs w)) [] = Some (subs w)" using keeps_subsD(3) [OF assms] by blast
  from list_pages_follow [OF keeps_subsD(1) [OF assms] keeps_subsD(2) [OF assms] refl this, of "[]" c] show ?thesis
    by (simp add: list_event_sub_subscriptions_def)
qed

text \<open>The overlay's subscriptions of one type for one broadcaster.\<close>

definition overlay_pair :: "string \<Rightarrow> string \<Rightarrow> string \<Rightarrow> subscription list \<Rightarrow> subscription list" where
  "overlay_pair cb bid ty ss = filter (\<lambda>s. is_overlay_sub s cb \<and> sub_type s = ty \<and> sub_broadcaster s = bid) ss"

lemma reconcile_result:
  assumes "keeps_subs tw allows good subs pages" and "ec_callback (ev_config c) = cb" and "[] \<notin> set active"
    and "distinct (map sub_id (subs w))" and "[] \<notin> sub_id ` set (subs w)"
  shows "\<exists>c' w' news. reconcile_subscriptions tw cb active (c, w) = Some (c', w') \<and>
     subs w' = filter (\<lambda>s. \<not> (is_overlay_sub s cb \<and> sub_broadcaster s \<notin> set active)) (subs w) @ news \<and>
     (\<forall>s \<in> set news. is_overlay_sub s cb \<and> sub_broadcaster s \<in> set active \<and> live_status (sub_status s)) \<and>
     (\<forall>bid \<in> set active. \<forall>ty \<in> set overlay_sub_types. (\<exists>s \<in> set (overlay_pair cb bid ty (subs w')). live_status (sub_status s)) \<or>
        \<not> allows (overlay_payload (ev_config c) bid ty) \<and> overlay_pair cb bid ty (subs w') = overlay_pair cb bid ty (subs w))"
proof -
  let ?jobs = "missing_subs cb active (subs w)" and ?ids = "orphan_subs cb active (subs w)"
  obtain c1 w1 where listed: "list_event_sub_subscriptions tw (c, w) = Some (Inr (subs w), c1, w1)"
    "ev_config c1 = ev_config c" "subs w1 = subs w" using list_returns [OF assms(1)] by blast
  have jobs: "\<forall>(bid, ty) \<in> set ?jobs. bid \<noteq> [] \<and> ty \<in> set overlay_sub_types"
    using assms(3) by (auto simp: missing_iff)
  obtain c2 w2 news where made: "create_overlay_subs tw ?jobs (c1, w1) = (c2, w2)" "subs w2 = subs w @ news"
    "sub_id ` set news \<inter> sub_id ` set (subs w) = {}"
    "\<forall>s \<in> set news. \<exists>(bid, ty) \<in> set ?jobs. \<exists>st i. live_status st \<and> s = sub_of_payload st i (overlay_payload (ev_config c) bid ty)"
    "\<forall>(bid, ty) \<in> set ?jobs. has_sub (overlay_payload (ev_config c) bid ty) (subs w2) \<or> \<not> allows (overlay_payload (ev_config c) bid ty)"
    using create_loop [OF assms(1) jobs, of c1 w1] listed(2,3) by auto
  have ids: "set ?ids = sub_id ` {s \<in> set (subs w). is_overlay_sub s cb \<and> sub_broadcaster s \<notin> set active}"
    by (auto simp: orphan_subs_def)
  have "[] \<notin> set ?ids" using assms(5) ids by auto
  from delete_loop [OF assms(1) this, of c2 w2] obtain c3 w3
    where gone: "delete_subs tw ?ids (c2, w2) = (c3, w3)" "subs w3 = filter (\<lambda>s. sub_id s \<notin> set ?ids) (subs w2)" by blast
  have payload: "is_overlay_sub (sub_of_payload st i (overlay_payload (ev_config c) bid ty)) cb \<and>
      sub_status (sub_of_payload st i (overlay_payload (ev_config c) bid ty)) = st \<and>
      sub_type (sub_of_payload st i (overlay_payload (ev_config c) bid ty)) = ty \<and>
      sub_broadcaster (sub_of_payload st i (overlay_payload (ev_config c) bid ty)) = bid"
    if "ty \<in> set overlay_sub_types" for st i bid ty
    using that assms(2) by (simp add: is_overlay_sub_def sub_of_payload_def overlay_payload_def webhook_payload_def)
  have news: "is_overlay_sub s cb \<and> sub_broadcaster s \<in> set active \<and> live_status (sub_status s)" if "s \<in> set news" for s
    using made(4) that payload by (fastforce simp: missing_iff)
  have kept: "sub_id s \<in> set ?ids \<longleftrightarrow> is_overlay_sub s cb \<and> sub_broadcaster s \<notin> set active" if "s \<in> set (subs w)" for s
    using that assms(4) unfolding ids distinct_map inj_on_def by fastforce
  have old: "filter (\<lambda>s. sub_id s \<notin> set ?ids) (subs w) =
      filter (\<lambda>s. \<not> (is_overlay_sub s cb \<and> sub_broadcaster s \<notin> set active)) (subs w)"
    using kept by (intro filter_cong) simp_all
  have fresh: "filter (\<lambda>s. sub_id s \<notin> set ?ids) news = news"
    using made(3) unfolding ids filter_id_conv by auto
  have final: "subs w3 = filter (\<lambda>s. \<not> (is_overlay_sub s cb \<and> sub_broadcaster s \<notin> set active)) (subs w) @ news"
    using gone(2) made(2) old fresh by simp
  have there: "(\<exists>s \<in> set (overlay_pair cb bid ty (subs w3)). live_status (sub_status s)) \<or>
      \<not> allows (overlay_payload (ev_config c) bid ty) \<and> overlay_pair cb bid ty (subs w3) = overlay_pair cb bid ty (subs w)"
    if known: "bid \<in> set active" "ty \<in> set overlay_sub_types" for bid ty
  proof -
    have pair: "overlay_pair cb bid ty (subs w3) = overlay_pair cb bid ty (subs w) @ overlay_pair cb bid ty news"
      unfolding final overlay_pair_def filter_append filter_filter using known(1) by (auto intro: filter_cong)
    show ?thesis
    proof (cases "\<exists>s \<in> set (overlay_pair cb bid ty (subs w2)). live_status (sub_status s)")
      case True
      then show ?thesis unfolding pair by (simp add: made(2) overlay_pair_def)
    next
      case False
      have job: "(bid, ty) \<in> set ?jobs"
        using known False by (auto simp: missing_iff made(2) overlay_pair_def live_status_def)
      have "\<not> has_sub (overlay_payload (ev_config c) bid ty) (subs w2)"
      proof
        assume "has_sub (overlay_payload (ev_config c) bid ty) (subs w2)"
        then obtain st i where i: "live_status st" "sub_of_payload st i (overlay_payload (ev_config c) bid ty) \<in> set (subs w2)"
          unfolding has_sub_def by blast
        have "sub_of_payload st i (overlay_payload (ev_config c) bid ty) \<in> set (overlay_pair cb bid ty (subs w2))"
          using i(2) payload [OF known(2), of st i bid] by (simp add: overlay_pair_def)
        then show False using False i(1) payload [OF known(2), of st i bid] by metis
      qed
      then have "\<not> allows (overlay_payload (ev_config c) bid ty)" using made(5) job by blast
      moreover have "overlay_pair cb bid ty news = []"
        using False news by (auto simp: overlay_pair_def filter_empty_conv made(2))
      ultimately show ?thesis unfolding pair by simp
    qed
  qed
  have "reconcile_subscriptions tw cb active (c, w) = Some (c3, w3)"
    using listed(1) made(1) gone(1) by (simp add: reconcile_subscriptions_def)
  then show ?thesis using final news there by blast
qed

text \<open>A broadcaster runs an overlay when a live device is paired to an account with that Twitch id.\<close>

definition runs_overlay :: "overlay_user list \<Rightarrow> device table \<Rightarrow> string \<Rightarrow> bool" where
  "runs_overlay users t bid \<longleftrightarrow>
     bid \<noteq> [] \<and> (\<exists>d \<in> set (tb_rows t). \<not> dv_revoked d \<and> (\<exists>u \<in> set users. ou_id u = dv_user d \<and> ou_twitch u = Some bid))"

lemma broadcasters_run_overlays:
  assumes "\<not> fl 0"
  obtains active where "broadcasters_with_active_devices fl users t = Inr active" and "\<And>bid. bid \<in> set active \<longleftrightarrow> runs_overlay users t bid"
proof
  let ?active = "remdups (concat (map (\<lambda>d.
             if dv_revoked d then []
             else concat (map (\<lambda>u. if ou_id u = dv_user d then
                                 (case ou_twitch u of None \<Rightarrow> [] | Some tw \<Rightarrow> if tw = [] then [] else [tw])
                               else []) users)) (tb_rows t)))"
  show "broadcasters_with_active_devices fl users t = Inr ?active"
    using assms by (simp add: broadcasters_with_active_devices_def)
  show "bid \<in> set ?active \<longleftrightarrow> runs_overlay users t bid" for bid
    by (force simp: runs_overlay_def split: option.splits if_splits)
qed

text \<open>The request for a subscription of the overlay, as the code's client makes it.\<close>

definition overlay_request :: "overlay_config \<Rightarrow> string \<Rightarrow> string \<Rightarrow> sub_payload" where
  "overlay_request cfg bid ty =
     webhook_payload ty None
       \<lparr> ec_client_id = oc_client_id cfg, ec_client_secret = oc_client_secret cfg, ec_secret = oc_secret cfg,
         ec_callback = oc_callback cfg \<rparr> bid"


text \<open>A Twitch whose state is its list of subscriptions.\<close>

definition fresh_id :: "subscription list \<Rightarrow> string" where
  "fresh_id ss = replicate (Suc (Max (insert 0 ((\<lambda>s. length (sub_id s)) ` set ss)))) CHR ''n''"

lemma fresh_id_new: "fresh_id ss \<noteq> [] \<and> fresh_id ss \<notin> sub_id ` set ss"
proof -
  have "length (sub_id s) \<le> Max (insert 0 ((\<lambda>s. length (sub_id s)) ` set ss))" if "s \<in> set ss" for s
    using that by (intro Max_ge) auto
  then have "length (sub_id s) < length (fresh_id ss)" if "s \<in> set ss" for s
    using that by (simp add: fresh_id_def less_Suc_eq_le del: Max_insert)
  then have "sub_id s \<noteq> fresh_id ss" if "s \<in> set ss" for s using that by fastforce
  then have "fresh_id ss \<notin> sub_id ` set ss" by force
  moreover have "fresh_id ss \<noteq> []" by (simp add: fresh_id_def)
  ultimately show ?thesis by blast
qed

definition plain_twitch :: "(sub_payload \<Rightarrow> bool) \<Rightarrow> subscription list twitch" where
  "plain_twitch allows =
     \<lparr> tw_now = (\<lambda>_. 0), tw_token = (\<lambda>_ _ w. (Some (200, Some (''good'', 3600)), w)),
       tw_create = (\<lambda>p tok w.
          if tok \<noteq> ''good'' then (Some (401, []), w)
          else if has_sub p w then (Some (409, []), w)
          else if \<not> allows p then (Some (403, []), w)
          else (Some (202, []), w @ [sub_of_payload ''webhook_callback_verification_pending'' (fresh_id w) p])),
       tw_list = (\<lambda>cursor tok w. (Some (if tok = ''good'' then (200, Some (w, [])) else (401, None)), w)),
       tw_delete = (\<lambda>i tok w.
          if tok \<noteq> ''good'' then (Some (401, ()), w)
          else (Some (if i \<in> sub_id ` set w then 204 else 404, ()), filter (\<lambda>s. sub_id s \<noteq> i) w)),
       tw_streams = (\<lambda>_ tok w. (Some (if tok = ''good'' then (200, Some []) else (401, None)), w)),
       tw_users = (\<lambda>_ tok w. (Some (if tok = ''good'' then (200, Some []) else (401, None)), w)) \<rparr>"

lemma plain_twitch_keeps: "keeps_subs (plain_twitch allows) allows (\<lambda>tok. tok = ''good'') (\<lambda>w. w) (\<lambda>ss _. (ss, []))"
  unfolding keeps_subs_def
proof (intro conjI allI)
  fix cfg :: event_sub_config and ss and p :: sub_payload and i :: string
  show "issues_good (plain_twitch allows) cfg (\<lambda>tok. tok = ''good'') (\<lambda>w. w = ss)"
    by (simp add: issues_good_def plain_twitch_def)
  show "lists_pages (plain_twitch allows) (\<lambda>tok. tok = ''good'') (\<lambda>w. w = ss) (\<lambda>_. (ss, []))"
    by (simp add: lists_pages_def checks_tokens_def plain_twitch_def)
  show "\<exists>n. follow n (\<lambda>_. (ss, [])) [] = Some ss" by (rule exI [of _ 1]) simp
  show "checks_tokens (\<lambda>tok. tok = ''good'') (\<lambda>w. w = ss) (\<lambda>a w. creation_answer allows p ss (fst a) w) (tw_create (plain_twitch allows) p)"
    using fresh_id_new [of ss]
    by (cases "has_sub p ss") (auto simp: checks_tokens_def plain_twitch_def creation_answer_def live_status_def)
  show "checks_tokens (\<lambda>tok. tok = ''good'') (\<lambda>w. w = ss)
        (\<lambda>a w. fst a = (if i \<in> sub_id ` set ss then 204 else 404) \<and> w = filter (\<lambda>s. sub_id s \<noteq> i) ss) (tw_delete (plain_twitch allows) i)"
    by (simp add: checks_tokens_def plain_twitch_def)
qed

definition demo_overlay_config :: overlay_config where
  "demo_overlay_config = \<lparr> oc_client_id = ''id'', oc_client_secret = ''se'', oc_secret = ''os'', oc_callback = ''ocb'' \<rparr>"

definition demo_devices :: "device table" where
  "demo_devices =
     \<lparr> tb_rows = [\<lparr> dv_id = 5, dv_user = 7, dv_start_seq = 0, dv_hash = ''h'', dv_label = [], dv_revoked = False \<rparr>], tb_serial = 5 \<rparr>"

definition demo_subs :: "subscription list" where
  "demo_subs =
     [\<lparr> sub_id = ''a'', sub_type = ''channel.cheer'', sub_status = ''enabled'', sub_broadcaster = ''99'',
        sub_method = ''webhook'', sub_callback = ''ocb'' \<rparr>,
      \<lparr> sub_id = ''b'', sub_type = ''stream.online'', sub_status = ''enabled'', sub_broadcaster = ''99'',
        sub_method = ''webhook'', sub_callback = ''cb'' \<rparr>]"

text \<open>The broadcaster has granted all but the reading of cheers.\<close>

definition demo_allows :: "sub_payload \<Rightarrow> bool" where
  "demo_allows p \<longleftrightarrow> sp_type p \<noteq> sub_type_cheer"


section \<open>Minting and revoking\<close>

lemma registered_or_closed:
  assumes "registry_inv r"
  shows "rg_map r (cn_user (rg_conns r c)) = Some c \<or> cn_closed (rg_conns r c)"
  using registry_invD(3) [OF assms] by blast

lemma disconnect_conns:
  "rg_conns (disconnect_device u dev r) c =
     (if rg_map r u = Some c \<and> cn_device (rg_conns r c) = dev then (rg_conns r c)\<lparr> cn_closed := True \<rparr> else rg_conns r c)"
  by (cases "rg_map r u") (auto simp: disconnect_device_def close_conn_def)

lemma disconnect_device_closes:
  assumes "registry_inv r"
  shows "if cn_user (rg_conns r c) = u \<and> cn_device (rg_conns r c) = dev
         then cn_closed (rg_conns (disconnect_device u dev r) c)
         else rg_conns (disconnect_device u dev r) c = rg_conns r c"
proof -
  have "rg_map r u = Some c \<Longrightarrow> cn_user (rg_conns r c) = u" using registry_invD(2) [OF assms] .
  then show ?thesis using registered_or_closed [OF assms, of c] by (cases "rg_map r u = Some c") (auto simp: disconnect_conns)
qed

lemma closed_after_disconnect:
  assumes "registry_inv r" and "rg_map r u = Some c0" and "cn_device (rg_conns r c0) = dev"
  shows "if cn_user (rg_conns r c) = u then cn_closed (rg_conns (disconnect_device u dev r) c)
         else rg_conns (disconnect_device u dev r) c = rg_conns r c"
proof -
  have user: "rg_map r u = Some c \<Longrightarrow> cn_user (rg_conns r c) = u" using registry_invD(2) [OF assms(1)] .
  have "c = c0 \<or> cn_closed (rg_conns r c)" if "cn_user (rg_conns r c) = u"
    using registered_or_closed [OF assms(1), of c] that assms(2) by auto
  then show ?thesis using user assms(2,3) by (cases "c = c0") (auto simp: disconnect_conns)
qed

lemma hello_device:
  assumes "wf_devices t" and "read_hello hash fl frame t = Inr (d, h)"
  shows "d \<in> set (active_devices (dv_user d) t)"
proof -
  have a: "authenticate_device hash fl (hl_token h) t = Inr d"
    using assms(2) by (auto simp: read_hello_def Let_def split: option.splits if_splits sum.splits)
  then have "looks_like_token (hl_token h)" "\<not> fl 0" by (auto simp: authenticate_device_def split: if_splits)
  then show ?thesis using authenticate_iff [OF assms(1)] a by blast
qed

lemma mint_endpoint_cases:
  assumes "create_device_endpoint hash random fl cfg (Some a) (Some label) log (t, r) = (Dev_Ok (d, token), bg, t1, r1)"
  shows "create_device hash random fl (oa_id a) label log t = (Inr (token, d), t1)"
    and "r1 = (case connected_device_id (oa_id a) r of None \<Rightarrow> r | Some old \<Rightarrow> disconnect_device (oa_id a) old r)"
  using assms by (auto simp: create_device_endpoint_def split: if_splits prod.splits sum.splits)

text \<open>
  What can happen to the registry after a change: connections are removed, written to, disconnected and
  drained, and handshakes are read, against the device table of that moment, and registered.
\<close>

datatype later_step = Later_Hello faults "hello option option" "device table" | Later_Op registry_op

definition later_registry :: "(string \<Rightarrow> string) \<Rightarrow> later_step \<Rightarrow> registry \<Rightarrow> registry" where
  "later_registry hash st r =
     (case st of
        Later_Hello fl frame t \<Rightarrow> snd (register_hello (read_hello hash fl frame t) r)
      | Later_Op op \<Rightarrow> (case op of Op_Add _ _ \<Rightarrow> r | _ \<Rightarrow> registry_step op r))"

text \<open>As long as the broadcaster's devices are those of \<open>t1\<close>.\<close>

definition devices_stay :: "int \<Rightarrow> device table \<Rightarrow> later_step list \<Rightarrow> bool" where
  "devices_stay u t1 steps \<longleftrightarrow>
     (\<forall>fl frame t. Later_Hello fl frame t \<in> set steps \<longrightarrow> wf_devices t \<and> active_devices u t = active_devices u t1)"

text \<open>Every open connection of the broadcaster is one of the devices \<open>D\<close>.\<close>

definition open_only :: "int \<Rightarrow> int set \<Rightarrow> registry \<Rightarrow> bool" where
  "open_only u D r \<longleftrightarrow> (\<forall>c. cn_user (rg_conns r c) = u \<longrightarrow> \<not> cn_closed (rg_conns r c) \<longrightarrow> cn_device (rg_conns r c) \<in> D)"

lemma open_only_close: "open_only u D r \<Longrightarrow> open_only u D (close_conn c r)"
  by (auto simp: open_only_def close_conn_def)

lemma open_only_add: "open_only u D r \<Longrightarrow> v = u \<longrightarrow> dev \<in> D \<Longrightarrow> open_only u D (snd (registry_add v dev r))"
  by (auto simp: open_only_def registry_add_def Let_def close_conn_def split: option.splits)

lemma open_only_op:
  assumes "open_only u D r" and "\<And>v dev. op \<noteq> Op_Add v dev"
  shows "open_only u D (registry_step op r)"
proof -
  have remove: "open_only u D (registry_remove c r)" for c
    unfolding registry_remove_def Let_def using assms(1) by (intro open_only_close) (simp add: open_only_def)
  have push: "open_only u D (registry_push v f r)" for v f
    using assms(1) open_only_close [OF assms(1)]
    by (auto simp: registry_push_def open_only_def split: option.splits)
  have cut: "open_only u D (disconnect_device v dev r)" for v dev
    using assms(1) open_only_close [OF assms(1)] by (simp add: disconnect_device_def split: option.splits)
  have drain: "open_only u D (registry_drain c r)" for c
    using assms(1) by (auto simp: registry_drain_def open_only_def)
  show ?thesis using assms remove push cut drain by (cases op) auto
qed

lemma open_only_later:
  assumes "devices_stay u t1 steps" and "open_only u D r" and "dv_id ` set (active_devices u t1) \<subseteq> D"
  shows "open_only u D (fold (later_registry hash) steps r)"
  using assms(1,2)
proof (induction steps arbitrary: r)
  case (Cons st steps)
  have "open_only u D (later_registry hash st r)"
  proof (cases st)
    case (Later_Hello fl frame t)
    have t: "wf_devices t" "active_devices u t = active_devices u t1"
      using Cons.prems(1) Later_Hello unfolding devices_stay_def by auto
    show ?thesis
    proof (cases "read_hello hash fl frame t")
      case (Inl e)
      then show ?thesis using Cons.prems(2) by (simp add: later_registry_def Later_Hello register_hello_def)
    next
      case (Inr dh)
      obtain d h where dh: "dh = (d, h)" by (cases dh)
      have "dv_id d \<in> D" if "dv_user d = u"
        using hello_device [OF t(1), of hash fl frame d h] Inr dh that t(2) assms(3) by auto
      then have "open_only u D (snd (registry_add (dv_user d) (dv_id d) r))"
        using open_only_add [OF Cons.prems(2)] by blast
      then show ?thesis by (simp add: later_registry_def Later_Hello register_hello_def Inr dh case_prod_beta)
    qed
  next
    case (Later_Op op)
    then show ?thesis using Cons.prems(2) open_only_op [OF Cons.prems(2), of op]
      by (auto simp: later_registry_def split: registry_op.splits)
  qed
  moreover have "devices_stay u t1 steps" using Cons.prems(1) by (simp add: devices_stay_def)
  ultimately show ?case using Cons.IH by simp
qed simp


definition demo_account :: overlay_account where
  "demo_account = \<lparr> oa_id = 7, oa_twitch = Some ''42'' \<rparr>"


text \<open>
  The race: a handshake that was accepted for a device before it was revoked and is registered afterwards leaves
  an open connection of the revoked device, which nothing closes until the broadcaster connects or mints again.
\<close>

theorem hello_in_flight_survives:
  assumes "devices_ok t" and "registry_inv r"
    and "read_hello hash fl frame t = Inr (d, h)" and "dv_user d = oa_id a"
    and "revoke_device_endpoint fl2 cfg (Some a) param (t, r) = (Dev_Ok (), bg, t1, r1)" and "atoi param = Some (dv_id d)"
    and "register_hello (read_hello hash fl frame t) r1 = (c, r2)"
  shows "\<exists>k. c = Some k \<and> cn_user (rg_conns r2 k) = oa_id a \<and> \<not> cn_closed (rg_conns r2 k) \<and>
    cn_device (rg_conns r2 k) = dv_id d \<and> dv_id d \<notin> dv_id ` set (active_devices (oa_id a) t1)"
proof -
  have rev: "revoke_device fl2 (oa_id a) (dv_id d) t = (None, t1)" "r1 = disconnect_device (oa_id a) (dv_id d) r"
    using assms(5,6) by (auto simp: revoke_device_endpoint_def split: option.splits prod.splits if_splits)
  have "registry_inv r1" unfolding rev(2) by (rule registry_inv_disconnect [OF assms(2)])
  then have "rg_map r1 (oa_id a) \<noteq> Some (rg_next r1)" using registry_invD(1) by blast
  moreover have "dv_id d \<notin> dv_id ` set (active_devices (oa_id a) t1)"
    using revocation_is_scoped [OF assms(1) rev(1)] by auto
  ultimately show ?thesis using assms(4,7)
    by (auto simp: assms(3) register_hello_def registry_add_def Let_def close_conn_def split: option.splits)
qed

end
