(* ===== verification/Session.thy ===== *)
theory Session
  imports Users Overlay_Log Event_Sub
begin

text \<open>
  Signing in: the session tokens and cookies (\<^verbatim>\<open>internal/libraries/jwt\<close>), the middleware that
  resolves a session to a user (\<^verbatim>\<open>nivekmiddleware/JWTMiddleware.go\<close>), the OAuth flow with Twitch
  (\<^verbatim>\<open>endpoints/user/auth\<close>) and the two pages that look at the signed-in user (\<^verbatim>\<open>get_by_token.go\<close>,
  \<^verbatim>\<open>overlay/download.go\<close>). Times are Unix seconds; the JWT library, the random source and Twitch are
  parameters.
\<close>

section \<open>Tokens\<close>

definition min_jwt_secret_bytes :: nat where
  "min_jwt_secret_bytes = 32"

definition token_issuer :: string where
  "token_issuer = ''nivek-core-api''"

definition token_audience :: string where
  "token_audience = ''nivek-web''"

record claims =
  jc_user_id :: int
  jc_issuer :: string
  jc_subject :: string
  jc_audience :: "string list"
  jc_expires :: int
  jc_not_before :: int
  jc_issued :: int
  jc_id :: string

record token_service =
  ts_secret :: string
  ts_ttl :: int

definition new_token_service :: "string \<Rightarrow> int \<Rightarrow> token_service" where
  "new_token_service secret ttl = \<lparr> ts_secret = secret, ts_ttl = (if ttl \<le> 0 then 8 * 3600 else ttl) \<rparr>"

definition validate_jwt_secret :: "string \<Rightarrow> bool" where
  "validate_jwt_secret secret \<longleftrightarrow> \<not> length secret < min_jwt_secret_bytes"

text \<open>
  \<open>sign\<close> and \<open>parse\<close> are the JWT library; \<open>parse key now token\<close> is the claims of a token that it accepts
  as signed with HS256 and the key, for issuer and audience above, within its times and 30 seconds.
\<close>

type_synonym jwt_sign = "string \<Rightarrow> claims \<Rightarrow> string option"
type_synonym jwt_parse = "string \<Rightarrow> int \<Rightarrow> string \<Rightarrow> claims option"

definition get_claims :: "jwt_parse \<Rightarrow> token_service \<Rightarrow> int \<Rightarrow> string \<Rightarrow> claims option" where
  "get_claims parse ts now token =
     (if token = [] then None
      else case parse (ts_secret ts) now token of
        None \<Rightarrow> None
      | Some c \<Rightarrow>
          if jc_user_id c \<le> 0 \<or> jc_subject c \<noteq> itoa (jc_user_id c) \<or> jc_id c = [] then None else Some c)"

definition session_claims :: "string \<Rightarrow> token_service \<Rightarrow> int \<Rightarrow> int \<Rightarrow> claims" where
  "session_claims uuid ts now user_id =
     \<lparr> jc_user_id = user_id, jc_issuer = token_issuer, jc_subject = itoa user_id, jc_audience = [token_audience],
       jc_expires = now + ts_ttl ts, jc_not_before = now - 30, jc_issued = now, jc_id = uuid \<rparr>"

definition build_token :: "jwt_sign \<Rightarrow> string \<Rightarrow> token_service \<Rightarrow> int \<Rightarrow> int \<Rightarrow> string option" where
  "build_token sign uuid ts now user_id =
     (if user_id \<le> 0 then None
      else if length (ts_secret ts) < min_jwt_secret_bytes then None
      else sign (ts_secret ts) (session_claims uuid ts now user_id))"

section \<open>Cookies\<close>

definition session_cookie_name :: string where
  "session_cookie_name = ''nivek_session''"

definition csrf_cookie_name :: string where
  "csrf_cookie_name = ''nivek_csrf''"

record cookie =
  ck_name :: string
  ck_value :: string
  ck_path :: string
  ck_domain :: string
  ck_max_age :: int
  ck_secure :: bool
  ck_http_only :: bool

record cookie_options =
  co_secure :: bool
  co_domain :: string
  co_ttl :: int

text \<open>The options of a configuration; \<open>None\<close> is one of another kind.\<close>

definition new_cookie_options :: "cookie_options option \<Rightarrow> cookie_options" where
  "new_cookie_options cfg =
     (case cfg of
        None \<Rightarrow> \<lparr> co_secure = True, co_domain = [], co_ttl = 8 * 3600 \<rparr>
      | Some o' \<Rightarrow> o'\<lparr> co_ttl := (if co_ttl o' > 0 then co_ttl o' else 8 * 3600) \<rparr>)"

text \<open>\<open>random\<close> are the bytes of the system's random source, \<open>None\<close> when it fails.\<close>

definition set_session_cookies :: "cookie_options \<Rightarrow> nat list option \<Rightarrow> string \<Rightarrow> cookie list option" where
  "set_session_cookies opts random token =
     (case random of
        None \<Rightarrow> None
      | Some buf \<Rightarrow>
          Some [\<lparr> ck_name = session_cookie_name, ck_value = token, ck_path = ''/api'', ck_domain = co_domain opts,
                  ck_max_age = co_ttl opts, ck_secure = co_secure opts, ck_http_only = True \<rparr>,
                \<lparr> ck_name = csrf_cookie_name, ck_value = b64_encode buf, ck_path = ''/'', ck_domain = co_domain opts,
                  ck_max_age = co_ttl opts, ck_secure = co_secure opts, ck_http_only = False \<rparr>])"

definition clear_session_cookies :: "cookie_options \<Rightarrow> cookie list" where
  "clear_session_cookies opts =
     [\<lparr> ck_name = session_cookie_name, ck_value = [], ck_path = ''/api'', ck_domain = co_domain opts,
        ck_max_age = -1, ck_secure = co_secure opts, ck_http_only = True \<rparr>,
      \<lparr> ck_name = csrf_cookie_name, ck_value = [], ck_path = ''/'', ck_domain = co_domain opts,
        ck_max_age = -1, ck_secure = co_secure opts, ck_http_only = False \<rparr>]"

text \<open>What the session adds to the response, and whether there is one.\<close>

definition new_session ::
  "jwt_sign \<Rightarrow> string \<Rightarrow> nat list option \<Rightarrow> token_service \<Rightarrow> cookie_options \<Rightarrow> int \<Rightarrow> user \<Rightarrow> bool \<times> cookie list" where
  "new_session sign uuid random ts opts now u =
     (if us_id u \<le> 0 then (False, [])
      else case build_token sign uuid ts now (us_id u) of
        None \<Rightarrow> (False, [])
      | Some token \<Rightarrow>
          (case set_session_cookies opts random token of
             None \<Rightarrow> (False, clear_session_cookies opts)
           | Some cs \<Rightarrow> (True, cs)))"

definition get_user_data :: "jwt_parse \<Rightarrow> faults \<Rightarrow> token_service \<Rightarrow> int \<Rightarrow> string \<Rightarrow> user table \<Rightarrow> user option" where
  "get_user_data parse fl ts now token t =
     (case get_claims parse ts now token of
        None \<Rightarrow> None
      | Some c \<Rightarrow> (case get_user_by_id fl (jc_user_id c) t of Inl _ \<Rightarrow> None | Inr u \<Rightarrow> Some u))"

section \<open>The middleware\<close>

record web_request =
  wr_method :: string
  wr_authorization :: string
  wr_cookies :: "string \<Rightarrow> string option"
  wr_csrf :: string

datatype credential = Bearer string | Session_Cookie string

definition extract_credential :: "web_request \<Rightarrow> credential option" where
  "extract_credential r =
     (let authorization = trim_space (wr_authorization r)
      in if authorization \<noteq> []
         then (case str_fields authorization of
                 [scheme, token] \<Rightarrow> if equal_fold scheme ''Bearer'' \<and> token \<noteq> [] then Some (Bearer token) else None
               | _ \<Rightarrow> None)
         else (case wr_cookies r session_cookie_name of
                 None \<Rightarrow> None
               | Some v \<Rightarrow> if trim_space v = [] then None else Some (Session_Cookie v)))"

definition to_upper_char :: "char \<Rightarrow> char" where
  "to_upper_char c = (if 97 \<le> code_of c \<and> code_of c \<le> 122 then char_of (code_of c - 32) else c)"

definition request_needs_csrf :: "string \<Rightarrow> bool" where
  "request_needs_csrf method \<longleftrightarrow> map to_upper_char method \<notin> {''GET'', ''HEAD'', ''OPTIONS'', ''TRACE''}"

definition validate_csrf :: "web_request \<Rightarrow> bool" where
  "validate_csrf r =
     (case wr_cookies r csrf_cookie_name of
        None \<Rightarrow> False
      | Some v \<Rightarrow> v \<noteq> [] \<and> wr_csrf r \<noteq> [] \<and> length (wr_csrf r) = length v \<and> wr_csrf r = v)"

datatype session_result = Session_User user | Session_Unauthorized | Session_Forbidden

definition jwt_middleware ::
  "jwt_parse \<Rightarrow> faults \<Rightarrow> token_service \<Rightarrow> int \<Rightarrow> web_request \<Rightarrow> user table \<Rightarrow> session_result" where
  "jwt_middleware parse fl ts now r t =
     (let resolve = (\<lambda>token. case get_user_data parse fl ts now token t of
                               None \<Rightarrow> Session_Unauthorized | Some u \<Rightarrow> Session_User u)
      in case extract_credential r of
           None \<Rightarrow> Session_Unauthorized
         | Some (Bearer token) \<Rightarrow> resolve token
         | Some (Session_Cookie token) \<Rightarrow>
             if request_needs_csrf (wr_method r) \<and> \<not> validate_csrf r then Session_Forbidden else resolve token)"

section \<open>Signing in with Twitch\<close>

definition state_cookie_name :: string where
  "state_cookie_name = ''twitch_oauth_state''"

definition state_cookie :: "bool \<Rightarrow> string \<Rightarrow> int \<Rightarrow> cookie" where
  "state_cookie secure v age =
     \<lparr> ck_name = state_cookie_name, ck_value = v, ck_path = ''/api/auth/twitch/callback'', ck_domain = [],
       ck_max_age = age, ck_secure = secure, ck_http_only = True \<rparr>"

definition random_url_safe :: "nat list option \<Rightarrow> string option" where
  "random_url_safe random = map_option b64_encode random"

text \<open>The cookie and the state sent to Twitch; \<open>None\<close> is an internal error.\<close>

definition twitch_start_endpoint :: "bool \<Rightarrow> nat list option \<Rightarrow> (cookie \<times> string) option" where
  "twitch_start_endpoint secure random =
     (case random_url_safe random of
        None \<Rightarrow> None
      | Some state \<Rightarrow> Some (state_cookie secure state 600, state))"

text \<open>Twitch's answer to the code: status, then access token and token type when it decodes.\<close>

definition exchange_code_for_token :: "(int \<times> (string \<times> string) option) option \<Rightarrow> string option" where
  "exchange_code_for_token answer =
     (case answer of
        None \<Rightarrow> None
      | Some (status, body) \<Rightarrow>
          if status \<noteq> 200 then None
          else case body of
            None \<Rightarrow> None
          | Some (tok, kind) \<Rightarrow>
              if tok = [] then None
              else if kind \<noteq> [] \<and> \<not> equal_fold kind ''bearer'' then None
              else Some tok)"

definition fetch_profile :: "(int \<times> twitch_profile list option) option \<Rightarrow> twitch_profile option" where
  "fetch_profile answer =
     (case answer of
        None \<Rightarrow> None
      | Some (status, body) \<Rightarrow>
          if status \<noteq> 200 then None
          else case body of Some [p] \<Rightarrow> Some p | _ \<Rightarrow> None)"

record callback_request =
  cb_error :: string
  cb_code :: string
  cb_state :: string
  cb_state_cookie :: "string option"

text \<open>The reply: a redirect to the landing page with a reason, empty for success, and the cookies it sets.\<close>

record landing =
  la_reason :: string
  la_cookies :: "cookie list"
  la_subscribe :: "string option"

definition twitch_callback_endpoint ::
  "jwt_sign \<Rightarrow> string \<Rightarrow> nat list option \<Rightarrow> faults \<Rightarrow> token_service \<Rightarrow> cookie_options \<Rightarrow> int
     \<Rightarrow> (string \<Rightarrow> (int \<times> (string \<times> string) option) option) \<Rightarrow> (string \<Rightarrow> (int \<times> twitch_profile list option) option)
     \<Rightarrow> callback_request \<Rightarrow> user table \<Rightarrow> landing \<times> user table" where
  "twitch_callback_endpoint sign uuid random fl ts opts now twitch_token twitch_users r t =
     (let cleared = state_cookie (co_secure opts) [] (-1);
          fail = (\<lambda>earlier reason t'. (\<lparr> la_reason = reason, la_cookies = earlier @ [cleared] @ clear_session_cookies opts,
                                         la_subscribe = None \<rparr>, t'));
          code = trim_space (cb_code r);
          got = trim_space (cb_state r)
      in if cb_error r \<noteq> [] then
           fail [] (if cb_error r = ''access_denied'' then ''access_denied'' else ''provider_error'') t
         else if code = [] \<or> got = [] then fail [] ''missing_code_or_state'' t
         else case cb_state_cookie r of
           None \<Rightarrow> fail [] ''missing_state_cookie'' t
         | Some expected \<Rightarrow>
             if expected = [] then fail [] ''missing_state_cookie'' t
             else if length expected \<noteq> length got \<or> expected \<noteq> got then fail [cleared] ''state_mismatch'' t
             else case exchange_code_for_token (twitch_token code) of
               None \<Rightarrow> fail [cleared] ''token_exchange_failed'' t
             | Some tok \<Rightarrow>
                 (case fetch_profile (twitch_users tok) of
                    None \<Rightarrow> fail [cleared] ''profile_fetch_failed'' t
                  | Some p \<Rightarrow>
                      if tp_id p = [] \<or> tp_login p = [] then fail [cleared] ''invalid_profile'' t
                      else (case find_or_create fl p t of
                              (Inl _, t') \<Rightarrow> fail [cleared] ''user_upsert_failed'' t'
                            | (Inr (u, is_new), t') \<Rightarrow>
                                (case new_session sign uuid random ts opts now u of
                                   (False, cs) \<Rightarrow> fail (cleared # cs) ''session_failed'' t'
                                 | (True, cs) \<Rightarrow>
                                     (\<lparr> la_reason = [], la_cookies = cleared # cs,
                                        la_subscribe = (if is_new then Some (tp_id p) else None) \<rparr>, t')))))"

definition logout_endpoint :: "cookie_options \<Rightarrow> cookie list" where
  "logout_endpoint opts = clear_session_cookies opts"

text \<open>The background subscription of a new user; \<open>order\<close> is \<open>bot_webhooks\<close> in the order of the map.\<close>

definition subscribe_to_user_webhooks ::
  "(string \<Rightarrow> event_sub_client \<times> 'w \<Rightarrow> (event_sub_error + int \<times> string) \<times> event_sub_client \<times> 'w) list
     \<Rightarrow> event_sub_config \<Rightarrow> string \<Rightarrow> 'w \<Rightarrow> 'w" where
  "subscribe_to_user_webhooks order cfg bid w =
     (if ec_callback cfg = [] then w
      else case new_client cfg of
        Inl _ \<Rightarrow> w
      | Inr c \<Rightarrow> snd (snd (subscribe_to_all_webhooks order bid (c, w))))"

section \<open>Who may have the overlay\<close>

definition overlay_download_logins :: "string \<Rightarrow> string set" where
  "overlay_download_logins allowlist =
     set (filter (\<lambda>l. l \<noteq> []) (map (\<lambda>raw. to_lower (trim_space raw)) (split_on (CHR '','') allowlist)))"

definition overlay_download_enabled :: "string \<Rightarrow> string \<Rightarrow> bool" where
  "overlay_download_enabled path allowlist \<longleftrightarrow> trim_space path \<noteq> [] \<and> overlay_download_logins allowlist \<noteq> {}"

definition overlay_access :: "string \<Rightarrow> user \<Rightarrow> bool" where
  "overlay_access allowlist u =
     (case us_login u of
        None \<Rightarrow> False
      | Some l \<Rightarrow> let login = to_lower (trim_space l) in login \<noteq> [] \<and> login \<in> overlay_download_logins allowlist)"

text \<open>The profile page; \<open>None\<close> is unauthorized.\<close>

definition get_profile_endpoint :: "string \<Rightarrow> user option \<Rightarrow> (user \<times> bool) option" where
  "get_profile_endpoint allowlist account =
     (case account of None \<Rightarrow> None | Some u \<Rightarrow> Some (u, overlay_access allowlist u))"

datatype download_reply = Download_File string | Download_Not_Found | Download_Unauthorized | Download_Forbidden | Download_Server_Error

text \<open>\<open>readable\<close> says whether the path is a file.\<close>

definition download_endpoint :: "(string \<times> string) option \<Rightarrow> (string \<Rightarrow> bool) \<Rightarrow> user option \<Rightarrow> download_reply" where
  "download_endpoint cfg readable account =
     (case cfg of
        None \<Rightarrow> Download_Not_Found
      | Some (path, allowlist) \<Rightarrow>
          if \<not> overlay_download_enabled path allowlist then Download_Not_Found
          else case account of
            None \<Rightarrow> Download_Unauthorized
          | Some u \<Rightarrow>
              let login = (case us_login u of None \<Rightarrow> [] | Some l \<Rightarrow> to_lower (trim_space l))
              in if login = [] \<or> login \<notin> overlay_download_logins allowlist then Download_Forbidden
                 else if \<not> readable path then Download_Server_Error
                 else Download_File path)"

end
