(* ===== verification/Session_Properties.thy ===== *)
theory Session_Properties
  imports Session
begin

text \<open>
  A sign-in leads to a session of the account of the Twitch profile, and nothing but a token of the
  library and, for what changes state, the CSRF token leads past the middleware.
\<close>

section \<open>The account of a sign-in\<close>

lemma find_one_unique:
  assumes "x \<in> set (tb_rows t)" and "P x" and "\<And>y. y \<in> set (tb_rows t) \<Longrightarrow> P y \<Longrightarrow> y = x"
  shows "find_one P t = Some x"
proof -
  obtain y where "find_one P t = Some y" using assms(1,2) by (cases "find_one P t") (auto simp: find_one_def find_None_iff)
  then show ?thesis using assms(3) by (auto simp: find_one_def dest: find_Some_mem)
qed

lemma user_by_id:
  assumes "users_ok t" and "u \<in> set (tb_rows t)"
  shows "find_one (\<lambda>x. us_id x = us_id u) t = Some u"
  using assms by (intro find_one_unique) (auto simp: users_ok_def distinct_map inj_on_def)

lemma updated_user_by_id:
  assumes "v \<in> set (tb_rows t)" and "us_id u = us_id v"
  shows "find_one (\<lambda>x. us_id x = us_id u) (update_where (\<lambda>x. us_id x = us_id v) (\<lambda>_. u) t) = Some u"
  using assms by (intro find_one_unique) (auto simp: update_where_def image_iff)

lemma find_one_mem: "find_one P t = Some x \<Longrightarrow> x \<in> set (tb_rows t) \<and> P x"
  by (auto simp: find_one_def dest: find_Some_mem)

lemma find_or_create_row:
  assumes "users_ok t" and "find_or_create fl p t = (Inr (u, is_new), t')"
  shows "find_one (\<lambda>x. us_id x = us_id u) t' = Some u \<and> us_twitch_id u = Some (tp_id p)"
proof (cases "find_one (\<lambda>u. us_twitch_id u = Some (tp_id p)) t")
  case (Some v)
  have v: "v \<in> set (tb_rows t)" "us_twitch_id v = Some (tp_id p)" using find_one_mem [OF Some] by auto
  have "(u = v \<and> t' = t) \<or> (us_id u = us_id v \<and> us_twitch_id u = us_twitch_id v \<and> t' = update_where (\<lambda>x. us_id x = us_id v) (\<lambda>_. u) t)"
    using assms(2) Some by (auto simp: find_or_create_def Let_def split: if_splits)
  then show ?thesis using updated_user_by_id [OF v(1)] user_by_id [OF assms(1) v(1)] v(2) by presburger
next
  case None
  show ?thesis
  proof (cases "find_one (\<lambda>u. us_login u = Some (tp_login p)) t")
    case (Some v)
    have v: "v \<in> set (tb_rows t)" using find_one_mem [OF Some] by auto
    have "us_id u = us_id v \<and> us_twitch_id u = Some (tp_id p) \<and> t' = update_where (\<lambda>x. us_id x = us_id v) (\<lambda>_. u) t"
      using assms(2) None Some by (auto simp: find_or_create_def Let_def split: if_splits)
    then show ?thesis using updated_user_by_id [OF v] by presburger
  next
    case none: None
    from assms(2) None none obtain u0 where "insert_user (new_twitch_user p) t = Some (u, t')"
      by (auto simp: find_or_create_def split: if_splits option.splits prod.splits)
    then have u: "us_id u = tb_serial t + 1" "us_twitch_id u = Some (tp_id p)" "tb_rows t' = tb_rows t @ [u]"
      by (auto simp: insert_user_def new_twitch_user_def Let_def split: if_splits)
    have "us_id x \<noteq> us_id u" if "x \<in> set (tb_rows t)" for x using assms(1) that u(1) by (auto simp: users_ok_def)
    then have "find_one (\<lambda>x. us_id x = us_id u) t' = Some u" using u(3) by (intro find_one_unique) auto
    then show ?thesis using u(2) by simp
  qed
qed

section \<open>The session\<close>

text \<open>What the library promises of a token it signed: it accepts it while it is valid, with the claims.\<close>

definition jwt_signs :: "jwt_sign \<Rightarrow> jwt_parse \<Rightarrow> bool" where
  "jwt_signs sign parse \<longleftrightarrow>
     (\<forall>key c token now. sign key c = Some token \<longrightarrow>
        trim_space token \<noteq> [] \<and>
        (jc_issuer c = token_issuer \<longrightarrow> token_audience \<in> set (jc_audience c) \<longrightarrow> jc_not_before c - 30 \<le> now \<longrightarrow>
         jc_issued c - 30 \<le> now \<longrightarrow> now < jc_expires c + 30 \<longrightarrow> parse key now token = Some c))"

text \<open>The cookies a browser keeps of a response: the last value of each name that is not a removal.\<close>

definition jar :: "cookie list \<Rightarrow> string \<Rightarrow> string option" where
  "jar cs name =
     (case filter (\<lambda>c. ck_name c = name) (rev cs) of
        [] \<Rightarrow> None
      | c # _ \<Rightarrow> if ck_max_age c \<le> 0 then None else Some (ck_value c))"

lemma jar_session:
  assumes "set_session_cookies opts (Some buf) token = Some cs" and "co_ttl opts > 0"
  shows "jar (state_cookie secure v age # cs) session_cookie_name = Some token"
    and "jar (state_cookie secure v age # cs) csrf_cookie_name = Some (b64_encode buf)"
  using assms by (auto simp: set_session_cookies_def jar_def session_cookie_name_def csrf_cookie_name_def state_cookie_def state_cookie_name_def)

text \<open>The successful path of the callback, spelled out.\<close>

lemma callback_success:
  assumes "twitch_callback_endpoint sign uuid random fl ts opts now twitch_token twitch_users r t = (l, t')" and "la_reason l = []"
  obtains expected tok p u is_new cs where "cb_error r = []" and "cb_state_cookie r = Some expected"
    and "expected \<noteq> []" and "trim_space (cb_state r) = expected"
    and "exchange_code_for_token (twitch_token (trim_space (cb_code r))) = Some tok" and "fetch_profile (twitch_users tok) = Some p"
    and "find_or_create fl p t = (Inr (u, is_new), t')" and "new_session sign uuid random ts opts now u = (True, cs)"
    and "la_cookies l = state_cookie (co_secure opts) [] (-1) # cs"
  using assms by (auto simp: twitch_callback_endpoint_def Let_def split: if_splits option.splits prod.splits sum.splits bool.splits)

text \<open>
  C22: signing in gives a session. When the callback ends well, the state Twitch sent back was the one in
  the browser's cookie, and Twitch vouched for the profile; the cookies of the response, sent back with the
  CSRF token in its header, pass the middleware for any method until the session's lifetime is over, and
  resolve to the account with that profile's Twitch id.
\<close>

theorem sign_in_gives_session:
  assumes "users_ok t" and "jwt_signs sign parse" and "uuid \<noteq> []" and "co_ttl opts > 0" and "b64_encode buf \<noteq> []"
    and "twitch_callback_endpoint sign uuid (Some buf) fl ts opts now twitch_token twitch_users r t = (l, t')" and "la_reason l = []"
    and "trim_space (wr_authorization q) = []" and "wr_cookies q = jar (la_cookies l)"
    and "Some (wr_csrf q) = jar (la_cookies l) csrf_cookie_name" and "now \<le> later" and "later \<le> now + ts_ttl ts"
  shows "cb_state_cookie r = Some (trim_space (cb_state r)) \<and>
    (\<exists>tok p u. exchange_code_for_token (twitch_token (trim_space (cb_code r))) = Some tok \<and>
       fetch_profile (twitch_users tok) = Some p \<and> us_twitch_id u = Some (tp_id p) \<and>
       jwt_middleware parse no_faults ts later q t' = Session_User u)"
proof -
  obtain expected tok p u is_new cs where ok: "cb_state_cookie r = Some expected" "trim_space (cb_state r) = expected"
    "exchange_code_for_token (twitch_token (trim_space (cb_code r))) = Some tok" "fetch_profile (twitch_users tok) = Some p"
    "find_or_create fl p t = (Inr (u, is_new), t')" "new_session sign uuid (Some buf) ts opts now u = (True, cs)"
    "la_cookies l = state_cookie (co_secure opts) [] (-1) # cs"
    by (rule callback_success [OF assms(6,7)]) blast
  note row = find_or_create_row [OF assms(1) ok(5)]
  obtain token where token: "build_token sign uuid ts now (us_id u) = Some token" "set_session_cookies opts (Some buf) token = Some cs"
    and pos: "us_id u > 0"
    using ok(6) by (auto simp: new_session_def split: if_splits option.splits)
  have signed: "sign (ts_secret ts) (session_claims uuid ts now (us_id u)) = Some token"
    using token(1) by (auto simp: build_token_def split: if_splits)
  have "parse (ts_secret ts) later token = Some (session_claims uuid ts now (us_id u))" and nonempty: "trim_space token \<noteq> []"
    using assms(2,11,12) signed unfolding jwt_signs_def by (auto simp: session_claims_def)
  moreover have "token \<noteq> []" using nonempty by (auto simp: trim_space_def trim_left_def trim_right_def)
  ultimately have claims: "get_claims parse ts later token = Some (session_claims uuid ts now (us_id u))"
    using pos assms(3) by (simp add: get_claims_def session_claims_def)
  have jar: "wr_cookies q session_cookie_name = Some token" "wr_cookies q csrf_cookie_name = Some (b64_encode buf)"
    using jar_session [OF token(2) assms(4)] assms(9) ok(7) by auto
  have "extract_credential q = Some (Session_Cookie token)"
    using assms(8) jar(1) nonempty by (simp add: extract_credential_def)
  moreover have "validate_csrf q" using jar(2) assms(5,9,10) by (simp add: validate_csrf_def)
  moreover have "get_user_data parse no_faults ts later token t' = Some u"
    using claims row by (simp add: get_user_data_def get_user_by_id_def no_faults_def session_claims_def)
  ultimately have "jwt_middleware parse no_faults ts later q t' = Session_User u" by (simp add: jwt_middleware_def)
  then show ?thesis using ok row by blast
qed

text \<open>A library with one key, one token and one set of claims, and a first sign-in with it.\<close>

definition demo_ts :: token_service where
  "demo_ts = \<lparr> ts_secret = replicate 32 (CHR ''k''), ts_ttl = 60 \<rparr>"

definition demo_claims :: claims where
  "demo_claims = session_claims ''id'' demo_ts 100 1"

definition demo_sign :: jwt_sign where
  "demo_sign key c = (if c = demo_claims then Some ''signed'' else None)"

definition demo_parse :: jwt_parse where
  "demo_parse key now token =
     (if token = ''signed'' \<and> jc_not_before demo_claims - 30 \<le> now \<and> now < jc_expires demo_claims + 30
      then Some demo_claims else None)"

lemma demo_signs: "jwt_signs demo_sign demo_parse"
  by (auto simp: jwt_signs_def demo_sign_def demo_parse_def trim_space_def trim_left_def trim_right_def is_space_def)

definition demo_callback :: "landing \<times> user table" where
  "demo_callback =
     twitch_callback_endpoint demo_sign ''id'' (Some [2, 3, 4]) no_faults demo_ts
       \<lparr> co_secure = True, co_domain = [], co_ttl = 60 \<rparr> 100 (\<lambda>_. Some (200, Some (''tok'', ''bearer'')))
       (\<lambda>_. Some (200, Some [\<lparr> tp_id = ''77'', tp_login = ''ann'', tp_display_name = ''Ann'' \<rparr>]))
       \<lparr> cb_error = [], cb_code = ''code'', cb_state = ''state'', cb_state_cookie = Some ''state'' \<rparr> empty_table"

definition demo_browser :: web_request where
  "demo_browser =
     \<lparr> wr_method = ''POST'', wr_authorization = [], wr_cookies = jar (la_cookies (fst demo_callback)), wr_csrf = b64_encode [2, 3, 4] \<rparr>"

lemma sign_in_gives_session_witness:
  "\<exists>u. us_twitch_id u = Some ''77'' \<and>
     jwt_middleware demo_parse no_faults demo_ts 130 demo_browser (snd demo_callback)
       = Session_User u"
proof -
  have "la_reason (fst demo_callback) = []" and "jar (la_cookies (fst demo_callback)) csrf_cookie_name = Some (b64_encode [2, 3, 4])"
    and "b64_encode [2, 3, 4] \<noteq> []" and "trim_space [] = []"
    by code_simp+
  moreover have "users_ok (empty_table :: user table)" by (simp add: users_ok_def empty_table_def)
  ultimately show ?thesis
    using sign_in_gives_session [OF _ demo_signs, of empty_table "''id''" "\<lparr> co_secure = True, co_domain = [], co_ttl = 60 \<rparr>" "[2, 3, 4]"
        no_faults demo_ts 100 "\<lambda>_. Some (200, Some (''tok'', ''bearer''))"
        "\<lambda>_. Some (200, Some [\<lparr> tp_id = ''77'', tp_login = ''ann'', tp_display_name = ''Ann'' \<rparr>])"
        "\<lparr> cb_error = [], cb_code = ''code'', cb_state = ''state'', cb_state_cookie = Some ''state'' \<rparr>"
        "fst demo_callback" "snd demo_callback" demo_browser 130]
    unfolding demo_callback_def [symmetric] by (auto simp: demo_browser_def demo_ts_def fetch_profile_def)
qed

section \<open>Nothing else opens a session\<close>

lemma get_claims_accepted:
  "get_claims parse ts now token = Some c \<Longrightarrow>
     parse (ts_secret ts) now token = Some c \<and> jc_user_id c > 0 \<and> jc_subject c = itoa (jc_user_id c)"
  by (auto simp: get_claims_def split: if_splits option.splits)

lemma get_user_data_row:
  assumes "get_user_data parse fl ts now token t = Some u"
  obtains c where "get_claims parse ts now token = Some c" and "us_id u = jc_user_id c" and "u \<in> set (tb_rows t)"
  using assms by (auto simp: get_user_data_def get_user_by_id_def dest: find_one_mem split: option.splits if_splits sum.splits)

text \<open>
  C23: what a session needs. Whatever the request, the middleware lets it through only with a token that
  the library accepts at that moment under the server's secret, as the user its claims name, who has a
  row; and a token that came as a cookie changes state only with the value of the CSRF cookie in the header.
\<close>

theorem sessions_need_credentials:
  assumes "jwt_middleware parse fl ts now q t = Session_User u"
  shows "\<exists>token c. parse (ts_secret ts) now token = Some c \<and> jc_user_id c = us_id u \<and> jc_subject c = itoa (us_id u) \<and>
    us_id u > 0 \<and> u \<in> set (tb_rows t) \<and>
    (extract_credential q = Some (Bearer token) \<or>
     wr_cookies q session_cookie_name = Some token \<and>
     (map to_upper_char (wr_method q) \<in> {''GET'', ''HEAD'', ''OPTIONS'', ''TRACE''} \<or>
      wr_csrf q \<noteq> [] \<and> wr_cookies q csrf_cookie_name = Some (wr_csrf q)))"
proof -
  obtain token where tok: "get_user_data parse fl ts now token t = Some u"
    and cred: "extract_credential q = Some (Bearer token) \<or>
      extract_credential q = Some (Session_Cookie token) \<and> \<not> (request_needs_csrf (wr_method q) \<and> \<not> validate_csrf q)"
    using assms by (auto simp: jwt_middleware_def Let_def split: option.splits credential.splits if_splits)
  obtain c where c: "get_claims parse ts now token = Some c" "us_id u = jc_user_id c" "u \<in> set (tb_rows t)"
    by (rule get_user_data_row [OF tok])
  have "wr_cookies q session_cookie_name = Some token" if "extract_credential q = Some (Session_Cookie token)"
    using that by (auto simp: extract_credential_def Let_def split: if_splits option.splits list.splits)
  moreover have "wr_csrf q \<noteq> [] \<and> wr_cookies q csrf_cookie_name = Some (wr_csrf q)" if "validate_csrf q"
    using that by (auto simp: validate_csrf_def split: option.splits)
  moreover have "map to_upper_char (wr_method q) \<in> {''GET'', ''HEAD'', ''OPTIONS'', ''TRACE''}"
    if "\<not> request_needs_csrf (wr_method q)"
    using that unfolding request_needs_csrf_def by blast
  ultimately show ?thesis using cred get_claims_accepted [OF c(1)] c(2,3) by metis
qed

lemma sessions_need_credentials_witness:
  "\<exists>u token c. jwt_middleware demo_parse no_faults demo_ts 130 demo_browser (snd demo_callback)
       = Session_User u \<and> demo_parse (ts_secret demo_ts) 130 token = Some c \<and> jc_user_id c = us_id u"
proof -
  have "(case jwt_middleware demo_parse no_faults demo_ts 130 demo_browser (snd demo_callback) of Session_User u \<Rightarrow> True | _ \<Rightarrow> False)"
    by code_simp
  then obtain u where u: "jwt_middleware demo_parse no_faults demo_ts 130 demo_browser (snd demo_callback) = Session_User u"
    by (auto split: session_result.splits)
  show ?thesis using sessions_need_credentials [OF u] u by auto
qed

text \<open>
  A login that Twitch handed to somebody else (after a rename, or the end of an account) takes over the row
  of the account that had it, as long as that row was not refreshed: \<^verbatim>\<open>FindOrCreateByTwitchIDAndTwitchLogin\<close>
  looks for manually added rows by login alone and does not ask that they have no Twitch id yet.
\<close>

lemma recycled_login_takes_over:
  assumes "u \<in> set (tb_rows t)" and "us_login u = Some (tp_login p)" and "us_twitch_id u = Some other"
    and "\<And>v. v \<in> set (tb_rows t) \<Longrightarrow> us_login v = us_login u \<Longrightarrow> v = u"
    and "Some (tp_id p) \<notin> us_twitch_id ` set (tb_rows t)"
  shows "fst (find_or_create no_faults p t) =
    Inr (u\<lparr> us_twitch_id := Some (tp_id p), us_login := Some (tp_login p), us_display_name := Some (tp_display_name p) \<rparr>, False)"
proof -
  have "find_one (\<lambda>u. us_twitch_id u = Some (tp_id p)) t = None" 
    unfolding find_one_def find_None_iff using assms(5) by (metis imageI)
  moreover have "find_one (\<lambda>u. us_login u = Some (tp_login p)) t = Some u"
    by (rule find_one_unique [where P = "\<lambda>u. us_login u = Some (tp_login p)", OF assms(1,2)]) (use assms(2,4) in metis)
  ultimately show ?thesis by (simp add: find_or_create_def no_faults_def Let_def)
qed

end
