(* ===== verification/Game_Commands.thy ===== *)
theory Game_Commands
  imports Counters Fishing Bot_Chat
begin

text \<open>
  The small games of the chat, from the command to the table: the endpoints of core-api
  (\<^verbatim>\<open>endpoints/bot/bread.go\<close>, \<^verbatim>\<open>lurk.go\<close>, \<^verbatim>\<open>fish.go\<close>), the bot's commands that call them
  (\<^verbatim>\<open>cmd_bread.go\<close>, \<^verbatim>\<open>cmd_lurk.go\<close>, \<^verbatim>\<open>cmd_fish.go\<close>, \<^verbatim>\<open>cmd_pbcommands.go\<close>), the fishing page
  (\<^verbatim>\<open>endpoints/fishing/get_score.go\<close>), the go-live notice (\<^verbatim>\<open>discord.go\<close>) and the bot's daily reset
  (\<^verbatim>\<open>counters.go\<close>, \<^verbatim>\<open>storage.go\<close>).
\<close>

section \<open>The endpoints\<close>

definition post_bread_increment_endpoint ::
  "faults \<Rightarrow> string \<Rightarrow> string \<Rightarrow> bread table \<Rightarrow> int http \<times> bread table" where
  "post_bread_increment_endpoint fl channel chatter t =
     (if channel = [] \<or> chatter = [] then (Http_Bad_Request, t)
      else case increment_count fl channel chatter t of
        (Inl _, t') \<Rightarrow> (Http_Server_Error, t')
      | (Inr n, t') \<Rightarrow> (Http_Ok n, t'))"

definition get_bread_total_endpoint :: "faults \<Rightarrow> string \<Rightarrow> bread table \<Rightarrow> int http \<times> bread table" where
  "get_bread_total_endpoint fl channel t =
     (if channel = [] then (Http_Bad_Request, t)
      else case get_total_bread_for_channel fl channel t of
        Inl _ \<Rightarrow> (Http_Server_Error, t)
      | Inr n \<Rightarrow> (Http_Ok n, t))"

definition post_lurk_message_endpoint ::
  "faults \<Rightarrow> string \<Rightarrow> string \<Rightarrow> lurker table \<Rightarrow> int http \<times> lurker table" where
  "post_lurk_message_endpoint fl channel chatter t =
     (if channel = [] \<or> chatter = [] then (Http_Bad_Request, t)
      else case on_message fl channel chatter t of (n, t') \<Rightarrow> (Http_Ok n, t'))"

definition post_fish_go_endpoint ::
  "ordering \<Rightarrow> faults \<Rightarrow> int \<Rightarrow> string \<Rightarrow> string \<Rightarrow> fish_score table \<Rightarrow> fishing_reply http \<times> fish_score table" where
  "post_fish_go_endpoint ord fl roll channel chatter t =
     (if channel = [] \<or> chatter = [] then (Http_Bad_Request, t)
      else case go_fishing ord fl roll channel chatter t of (r, t') \<Rightarrow> (Http_Ok r, t'))"

text \<open>The page of the scores: as a chatter, and of the own channel.\<close>

datatype 'a score_page = Score_Ok 'a | Score_Unauthorized | Score_Server_Error

definition get_fishing_score_endpoint ::
  "ordering \<Rightarrow> faults \<Rightarrow> faults \<Rightarrow> user option \<Rightarrow> fish_score table
     \<Rightarrow> (fish_score list \<times> fish_score list) score_page" where
  "get_fishing_score_endpoint ord fl1 fl2 account t =
     (case account of
        None \<Rightarrow> Score_Unauthorized
      | Some u \<Rightarrow>
          (case us_login u of
             None \<Rightarrow> Score_Server_Error
           | Some login \<Rightarrow>
               (case get_user_fish_score fl1 login t of
                  Inl _ \<Rightarrow> Score_Server_Error
                | Inr as_chatter \<Rightarrow>
                    (case get_channel_fish_score ord fl2 login t of
                       Inl _ \<Rightarrow> Score_Server_Error
                     | Inr as_channel \<Rightarrow> Score_Ok (as_chatter, as_channel)))))"

section \<open>The commands\<close>

definition pluralize :: "int \<Rightarrow> string" where
  "pluralize n = (if n = 1 then '''' else ''s'')"

definition bread_emoji :: string where
  "bread_emoji = [CHR 0xF0, CHR 0x9F, CHR 0x8D, CHR 0x9E]"

definition bread_text :: "string \<Rightarrow> int \<Rightarrow> int \<Rightarrow> string" where
  "bread_text chatter n overall =
     ''@'' @ chatter @ '' has baked '' @ itoa n @ '' loaf'' @ pluralize n @ '' of bread today! '' @ bread_emoji @
     '' This chat has baked '' @ itoa overall @ '' loaf'' @ pluralize overall @ '' total in the last 24 hours.''"

text \<open>Each command makes its calls in order and stays silent when one fails.\<close>

definition handle_bread_command ::
  "network \<times> faults \<Rightarrow> network \<times> faults \<Rightarrow> chat_message \<Rightarrow> bread table \<Rightarrow> bot_action list \<times> bread table" where
  "handle_bread_command call1 call2 m t =
     (case api_call (fst call1) (post_bread_increment_endpoint (snd call1) (cm_broadcaster_login m) (cm_chatter_login m)) t of
        (None, t1) \<Rightarrow> ([], t1)
      | (Some n, t1) \<Rightarrow>
          (case api_call (fst call2) (get_bread_total_endpoint (snd call2) (cm_broadcaster_login m)) t1 of
             (None, t2) \<Rightarrow> ([], t2)
           | (Some overall, t2) \<Rightarrow> ([Say (cm_broadcaster_id m) (bread_text (cm_chatter_login m) n overall)], t2)))"

definition lurk_on_message ::
  "network \<Rightarrow> faults \<Rightarrow> string \<Rightarrow> string \<Rightarrow> lurker table \<Rightarrow> int \<times> lurker table" where
  "lurk_on_message net fl channel chatter t =
     (case api_call net (post_lurk_message_endpoint fl channel chatter) t of
        (None, t') \<Rightarrow> (0, t') | (Some n, t') \<Rightarrow> (n, t'))"

definition handle_lurk_command ::
  "network \<Rightarrow> faults \<Rightarrow> chat_message \<Rightarrow> lurker table \<Rightarrow> bot_action list \<times> lurker table" where
  "handle_lurk_command net fl m t =
     (case lurk_on_message net fl (cm_broadcaster_login m) (cm_chatter_login m) t of
        (n, t') \<Rightarrow>
          (if n > 0
           then [Say (cm_broadcaster_id m)
                   (''thank you for the lurk! @'' @ cm_chatter_login m @ '' You have lurked '' @ itoa n @ '' times'')]
           else [], t'))"

text \<open>\<open>print\<close> is the text of a fishing report, which \<^verbatim>\<open>GoFishing\<close> formats.\<close>

definition handle_fish_command ::
  "(fishing_reply \<Rightarrow> string) \<Rightarrow> ordering \<Rightarrow> network \<Rightarrow> faults \<Rightarrow> int \<Rightarrow> chat_message \<Rightarrow> fish_score table
     \<Rightarrow> bot_action list \<times> fish_score table" where
  "handle_fish_command print ord net fl roll m t =
     (case api_call net (post_fish_go_endpoint ord fl roll (cm_broadcaster_login m) (cm_chatter_login m)) t of
        (None, t') \<Rightarrow> ([], t')
      | (Some r, t') \<Rightarrow> ([Say (cm_broadcaster_id m) (print r)], t'))"

definition commands_page_url :: string where
  "commands_page_url = ''https://peanutbudderbot.com/commands''"

definition handle_pb_commands_command :: "chat_message \<Rightarrow> bot_action list" where
  "handle_pb_commands_command m =
     [Say (cm_broadcaster_id m)
        ([CHR 0xF0, CHR 0x9F, CHR 0x93, CHR 0x9C] @ '' All my commands and actions are listed here: '' @ commands_page_url)]"

section \<open>The go-live notice\<close>

record discord_embed =
  de_title :: string
  de_url :: string
  de_description :: string
  de_color :: nat

text \<open>The post to Discord; \<open>None\<close> when no webhook is configured.\<close>

definition notify_discord_go_live :: "string \<Rightarrow> string \<Rightarrow> string \<Rightarrow> (string \<times> discord_embed) option" where
  "notify_discord_go_live webhook display login =
     (if webhook = [] then None
      else let name = (if trim_space display = [] then login else display); url = ''https://twitch.tv/'' @ login
           in Some (webhook,
                \<lparr> de_title = name @ '' is now live! '' @ [CHR 0xF0, CHR 0x9F, CHR 0x94, CHR 0xB4], de_url = url,
                  de_description = ''Come hang out '' @ [CHR 0xE2, CHR 0x86, CHR 0x92] @ '' '' @ url, de_color = 0x9146FF \<rparr>))"

section \<open>The daily reset\<close>

text \<open>
  The counter manager keeps the time of the last reset, in nanoseconds since the epoch, and a file with it.
  \<^verbatim>\<open>Truncate\<close> rounds the absolute time down, whatever the location of the value.
\<close>

record counter_manager =
  ct_last_reset :: int
  ct_file :: "int option"

definition day_ns :: int where
  "day_ns = 24 * 3600 * 1000000000"

definition truncate_day :: "int \<Rightarrow> int" where
  "truncate_day t = t - t mod day_ns"

definition should_reset :: "int \<Rightarrow> counter_manager \<Rightarrow> bool" where
  "should_reset now c \<longleftrightarrow> truncate_day now > truncate_day (ct_last_reset c)"

definition reset_counters :: "int \<Rightarrow> counter_manager \<Rightarrow> counter_manager" where
  "reset_counters now c = c\<lparr> ct_last_reset := now \<rparr>"

text \<open>Saving writes a temporary file and renames it: the file changes as a whole or not at all.\<close>

definition save_counters :: "bool \<Rightarrow> counter_manager \<Rightarrow> counter_manager" where
  "save_counters failing c = (if failing then c else c\<lparr> ct_file := Some (ct_last_reset c) \<rparr>)"

definition load_counters :: "counter_manager \<Rightarrow> counter_manager option" where
  "load_counters c = (case ct_file c of None \<Rightarrow> None | Some t \<Rightarrow> Some (c\<lparr> ct_last_reset := t \<rparr>))"

definition new_counter_manager :: "int \<Rightarrow> int option \<Rightarrow> counter_manager" where
  "new_counter_manager now file =
     (let c0 = \<lparr> ct_last_reset = now, ct_file = file \<rparr>;
          c = (case load_counters c0 of None \<Rightarrow> c0 | Some c \<Rightarrow> c)
      in if should_reset now c then reset_counters now c else c)"

definition reset_timer_tick :: "int \<Rightarrow> bool \<Rightarrow> counter_manager \<Rightarrow> counter_manager" where
  "reset_timer_tick now failing c =
     (if should_reset now c then save_counters failing (reset_counters now c) else c)"

text \<open>A tick resets at most once a day, and the days are those of UTC: the location has no part in it.\<close>

lemma reset_once_a_day:
  assumes "truncate_day now = truncate_day later"
  shows "reset_timer_tick later f' (reset_timer_tick now f c) = reset_timer_tick now f c"
  using assms by (auto simp: reset_timer_tick_def should_reset_def reset_counters_def save_counters_def)

section \<open>What a reply tells\<close>

text \<open>
  A reply of \<^verbatim>\<open>!bread\<close> is true: whatever failed before, a reply names the stored count of the chatter,
  one more than before the command, and the sum over the channel's chatters after it.
\<close>

lemma bread_reply_true:
  assumes "wf_bread t" and "handle_bread_command call1 call2 m t = ([Say b text], t')"
  shows "text = bread_text (cm_chatter_login m) (bread_count (cm_broadcaster_login m, cm_chatter_login m) t + 1)
      (sum_list (map br_count (find_rows (\<lambda>r. br_channel r = cm_broadcaster_login m) t')))
    \<and> t' = snd (upsert_bread (cm_broadcaster_login m) (cm_chatter_login m) t)"
  using assms(2)
  by (auto simp: handle_bread_command_def api_call_Some post_bread_increment_endpoint_def get_bread_total_endpoint_def
      increment_count_def get_total_bread_for_channel_def bread_count_def upsert_bread_def Let_def
      split: option.splits prod.splits sum.splits if_splits)

end
