(* ===== verification/Json.thy ===== *)
theory Json
  imports Hmac_Auth
begin

text \<open>
  JSON between the services: the values of \<^verbatim>\<open>encoding/json\<close> and how it fills a struct from them, and
  the escaping of \<^verbatim>\<open>net/url\<close> that carries a parameter in a path or a query. Numbers are integers, strings
  valid UTF-8; a field that is absent, or \<^verbatim>\<open>null\<close>, leaves the zero value.
\<close>

section \<open>Values\<close>

datatype json = J_Null | J_Bool bool | J_Int int | J_Str string | J_Arr "json list" | J_Obj "(string \<times> json) list"

named_theorems json_defs "encoders and decoders"

text \<open>Names match without regard to case, and a later value of a name replaces an earlier one.\<close>

fun json_scan :: "string \<Rightarrow> json \<Rightarrow> (string \<times> json) list \<Rightarrow> json" where
  "json_scan name acc [] = acc"
| "json_scan name acc ((k, v) # kvs) =
     json_scan name (if equal_fold k name then if v = J_Null then acc else v else acc) kvs"

definition json_field :: "string \<Rightarrow> json \<Rightarrow> json" where
  [json_defs]: "json_field name j = (case j of J_Obj kvs \<Rightarrow> json_scan name J_Null kvs | _ \<Rightarrow> J_Null)"

text \<open>What a struct accepts: an object, or \<^verbatim>\<open>null\<close>.\<close>

definition json_struct :: "json \<Rightarrow> bool" where
  [json_defs]: "json_struct j = (case j of J_Obj _ \<Rightarrow> True | J_Null \<Rightarrow> True | _ \<Rightarrow> False)"

definition json_string :: "json \<Rightarrow> string option" where
  [json_defs]: "json_string j = (case j of J_Null \<Rightarrow> Some [] | J_Str s \<Rightarrow> Some s | _ \<Rightarrow> None)"

definition json_str_ptr :: "json \<Rightarrow> string option option" where
  [json_defs]: "json_str_ptr j = (case j of J_Null \<Rightarrow> Some None | J_Str s \<Rightarrow> Some (Some s) | _ \<Rightarrow> None)"

definition json_int :: "json \<Rightarrow> int option" where
  [json_defs]: "json_int j = (case j of J_Null \<Rightarrow> Some 0 | J_Int n \<Rightarrow> if in_int64 n then Some n else None | _ \<Rightarrow> None)"

definition json_bool :: "json \<Rightarrow> bool option" where
  [json_defs]: "json_bool j = (case j of J_Null \<Rightarrow> Some False | J_Bool b \<Rightarrow> Some b | _ \<Rightarrow> None)"

fun json_all :: "(json \<Rightarrow> 'a option) \<Rightarrow> json list \<Rightarrow> 'a list option" where
  "json_all f [] = Some []"
| "json_all f (j # js) =
     (case f j of None \<Rightarrow> None | Some x \<Rightarrow> (case json_all f js of None \<Rightarrow> None | Some xs \<Rightarrow> Some (x # xs)))"

definition json_list :: "(json \<Rightarrow> 'a option) \<Rightarrow> json \<Rightarrow> 'a list option" where
  [json_defs]: "json_list f j = (case j of J_Null \<Rightarrow> Some [] | J_Arr js \<Rightarrow> json_all f js | _ \<Rightarrow> None)"

definition opt_str :: "string option \<Rightarrow> json" where
  "opt_str s = (case s of None \<Rightarrow> J_Null | Some x \<Rightarrow> J_Str x)"

lemma json_all_map: "(\<And>x. x \<in> set xs \<Longrightarrow> f (g x) = Some x) \<Longrightarrow> json_all f (map g xs) = Some xs"
  by (induction xs) auto

lemma json_list_map: "(\<And>x. x \<in> set xs \<Longrightarrow> f (g x) = Some x) \<Longrightarrow> json_list f (J_Arr (map g xs)) = Some xs"
  by (simp add: json_list_def json_all_map)

lemma json_str_ptr_opt [simp]: "json_str_ptr (opt_str s) = Some s"
  by (cases s) (simp_all add: opt_str_def json_str_ptr_def)

lemma json_str_ptr_str [simp]: "json_str_ptr (J_Str s) = Some (Some s)"
  by (simp add: json_str_ptr_def)

lemma json_field_scan [simp]: "json_field name (J_Obj kvs) = json_scan name J_Null kvs"
  by (simp add: json_field_def)

lemma if_null [simp]: "(if x \<noteq> J_Null then x else J_Null) = x" "(if x = J_Null then J_Null else x) = x"
  by auto

section \<open>Escaping\<close>

definition upper_hex :: "nat \<Rightarrow> char" where
  "upper_hex n = (if n < 10 then char_of (48 + n) else char_of (55 + n))"

definition unreserved :: "char \<Rightarrow> bool" where
  "unreserved c \<longleftrightarrow>
     (let n = code_of c
      in (65 \<le> n \<and> n \<le> 90) \<or> (97 \<le> n \<and> n \<le> 122) \<or> (48 \<le> n \<and> n \<le> 57) \<or> c \<in> {CHR ''-'', CHR ''_'', CHR ''.'', CHR ''~''})"

definition percent :: "char \<Rightarrow> string" where
  "percent c = [CHR ''%'', upper_hex (code_of c div 16), upper_hex (code_of c mod 16)]"

definition query_escape_char :: "char \<Rightarrow> string" where
  "query_escape_char c = (if unreserved c then [c] else if c = CHR '' '' then ''+'' else percent c)"

definition query_escape :: "string \<Rightarrow> string" where
  "query_escape s = concat (map query_escape_char s)"

fun query_unescape :: "string \<Rightarrow> string option" where
  "query_unescape [] = Some []"
| "query_unescape (c # cs) =
     (if c = CHR ''%'' then
        (case cs of
           a # b # rest \<Rightarrow>
             (case (hex_val a, hex_val b) of
                (Some x, Some y) \<Rightarrow> map_option ((#) (char_of (16 * x + y))) (query_unescape rest)
              | _ \<Rightarrow> None)
         | _ \<Rightarrow> None)
      else map_option ((#) (if c = CHR ''+'' then CHR '' '' else c)) (query_unescape cs))"

definition path_escape_char :: "char \<Rightarrow> string" where
  "path_escape_char c =
     (if unreserved c \<or> c \<in> {CHR ''$'', CHR ''&'', CHR ''+'', CHR ''='', CHR '':'', CHR ''@''} then [c] else percent c)"

definition path_escape :: "string \<Rightarrow> string" where
  "path_escape s = concat (map path_escape_char s)"

text \<open>\<^verbatim>\<open>url.Values.Encode\<close> of one parameter, and \<^verbatim>\<open>QueryParam\<close> of a raw query: empty when it has no such name.\<close>

definition encode_param :: "string \<Rightarrow> string \<Rightarrow> string" where
  "encode_param name v = query_escape name @ ''='' @ query_escape v"

definition param_of :: "string \<Rightarrow> string \<Rightarrow> string option" where
  "param_of name piece =
     (if piece = [] \<or> CHR '';'' \<in> set piece then None
      else case query_unescape (takeWhile (\<lambda>c. c \<noteq> CHR ''='') piece) of
        None \<Rightarrow> None
      | Some k \<Rightarrow> if k = name then query_unescape (drop 1 (dropWhile (\<lambda>c. c \<noteq> CHR ''='') piece)) else None)"

definition query_param :: "string \<Rightarrow> string \<Rightarrow> string" where
  "query_param name raw =
     (case find (\<lambda>p. param_of name p \<noteq> None) (split_on (CHR ''&'') raw) of
        None \<Rightarrow> [] | Some p \<Rightarrow> the (param_of name p))"

section \<open>Facts\<close>

lemma code_of_less: "code_of c < 256"
  by (simp add: code_of_def)

lemma upper_hex_val: "n < 16 \<Longrightarrow> hex_val (upper_hex n) = Some n"
  by (auto simp: upper_hex_def hex_val_def code_of_def Let_def)

lemma percent_unescape: "query_unescape (percent c @ s) = map_option ((#) c) (query_unescape s)"
proof -
  have "hex_val (upper_hex (code_of c div 16)) = Some (code_of c div 16)"
    and "hex_val (upper_hex (code_of c mod 16)) = Some (code_of c mod 16)"
    using code_of_less [of c] by (simp_all add: upper_hex_val)
  moreover have "16 * (code_of c div 16) + code_of c mod 16 = code_of c" by simp
  ultimately show ?thesis by (simp add: percent_def code_of_def)
qed

lemma query_unescape_escape: "query_unescape (query_escape s @ t) = map_option ((@) s) (query_unescape t)"
proof (induction s)
  case Nil
  then show ?case by (cases "query_unescape t") (simp_all add: query_escape_def)
next
  case (Cons c s)
  have step: "query_unescape (query_escape_char c @ u) = map_option ((#) c) (query_unescape u)" for u
    by (auto simp: query_escape_char_def percent_unescape unreserved_def code_of_def)
  show ?case using step [of "query_escape s @ t"] Cons
    by (cases "query_unescape t") (simp_all add: query_escape_def)
qed

lemma query_roundtrip [simp]: "query_unescape (query_escape s) = Some s"
  using query_unescape_escape [of s "[]"] by simp

lemma upper_hex_plain: "n < 16 \<Longrightarrow> upper_hex n \<noteq> CHR ''='' \<and> upper_hex n \<noteq> CHR ''&'' \<and> upper_hex n \<noteq> CHR '';''"
proof -
  assume n: "n < 16"
  have "\<forall>k \<in> set [0..<16]. upper_hex k \<noteq> CHR ''='' \<and> upper_hex k \<noteq> CHR ''&'' \<and> upper_hex k \<noteq> CHR '';''" by code_simp
  then show ?thesis using n by simp
qed

lemma query_escape_plain: "c \<in> set (query_escape s) \<Longrightarrow> c \<noteq> CHR ''='' \<and> c \<noteq> CHR ''&'' \<and> c \<noteq> CHR '';''"
proof -
  have "c \<in> set (query_escape_char d) \<Longrightarrow> c \<noteq> CHR ''='' \<and> c \<noteq> CHR ''&'' \<and> c \<noteq> CHR '';''" for d
  proof -
    have "code_of d div 16 < 16" using code_of_less [of d] by simp
    then have "c \<in> set (percent d) \<Longrightarrow> c \<noteq> CHR ''='' \<and> c \<noteq> CHR ''&'' \<and> c \<noteq> CHR '';''"
      using upper_hex_plain [of "code_of d div 16"] upper_hex_plain [of "code_of d mod 16"] by (auto simp: percent_def)
    then show "c \<in> set (query_escape_char d) \<Longrightarrow> c \<noteq> CHR ''='' \<and> c \<noteq> CHR ''&'' \<and> c \<noteq> CHR '';''"
      by (auto simp: query_escape_char_def unreserved_def code_of_def Let_def split: if_splits)
  qed
  then show "c \<in> set (query_escape s) \<Longrightarrow> ?thesis" by (auto simp: query_escape_def)
qed

lemma split_acc_none: "d \<notin> set s \<Longrightarrow> split_acc d w s = [rev w @ s]"
  by (induction s arbitrary: w) auto

text \<open>A parameter that was encoded is the one that is read.\<close>

lemma query_param_encode: "query_param name (encode_param name v) = v"
proof -
  have "CHR ''&'' \<notin> set (encode_param name v)" and plain: "CHR '';'' \<notin> set (encode_param name v)"
    and "encode_param name v \<noteq> []"
    using query_escape_plain by (auto simp: encode_param_def)
  then have s: "split_on (CHR ''&'') (encode_param name v) = [encode_param name v]"
    by (simp add: split_on_def split_acc_none)
  have e: "\<forall>c \<in> set (query_escape name). c \<noteq> CHR ''=''" using query_escape_plain by blast
  have "takeWhile (\<lambda>c. c \<noteq> CHR ''='') (encode_param name v) = query_escape name"
    and "dropWhile (\<lambda>c. c \<noteq> CHR ''='') (encode_param name v) = ''='' @ query_escape v"
    using e by (simp_all add: encode_param_def takeWhile_append dropWhile_append)
  then have "param_of name (encode_param name v) = Some v" by (simp add: param_of_def plain \<open>encode_param name v \<noteq> []\<close>)
  then show ?thesis by (simp add: query_param_def s)
qed

definition is_id :: "string \<Rightarrow> bool" where
  "is_id s \<longleftrightarrow> s \<noteq> [] \<and> (\<forall>c \<in> set s. 48 \<le> code_of c \<and> code_of c \<le> 57)"

lemma path_escape_id: "is_id s \<Longrightarrow> path_escape s = s"
proof -
  have "\<forall>c \<in> set s. 48 \<le> code_of c \<and> code_of c \<le> 57 \<Longrightarrow> concat (map path_escape_char s) = s"
    by (induction s) (auto simp: path_escape_char_def unreserved_def Let_def)
  then show "is_id s \<Longrightarrow> path_escape s = s" by (simp add: is_id_def path_escape_def)
qed

end
