(* ===== verification/Routes.thy ===== *)
theory Routes
  imports Json
begin

text \<open>
  The routes of core-api: the paths the services share (\<^verbatim>\<open>internal/libraries/api/constants.go\<close>) and
  their registration with the guard in front of each (\<^verbatim>\<open>cmd/core-api/routes/register.go\<close>). The router is
  Echo's; what the code relies on of it is \<open>echo_router\<close>.
\<close>

section \<open>Paths\<close>

named_theorems route_defs "paths and tables of routes"

definition path_hello_world :: string where
  [route_defs]: "path_hello_world = ''/''"

definition path_get_twitch_start :: string where
  [route_defs]: "path_get_twitch_start = ''/auth/twitch/start''"

definition path_get_twitch_callback :: string where
  [route_defs]: "path_get_twitch_callback = ''/auth/twitch/callback''"

definition path_twitch_webhook_subscription_request :: string where
  [route_defs]: "path_twitch_webhook_subscription_request = ''/eventsub''"

definition path_get_global_enabled_commands :: string where
  [route_defs]: "path_get_global_enabled_commands = ''/commands''"

definition path_post_logout :: string where
  [route_defs]: "path_post_logout = ''/logout''"

definition path_get_user_profile :: string where
  [route_defs]: "path_get_user_profile = ''/profile''"

definition path_get_user_tasks :: string where
  [route_defs]: "path_get_user_tasks = ''/user/:id/task''"

definition path_post_create_user_task :: string where
  [route_defs]: "path_post_create_user_task = ''/user/:id/task''"

definition path_get_fishing_score :: string where
  [route_defs]: "path_get_fishing_score = ''/fishing''"

definition path_post_weather :: string where
  [route_defs]: "path_post_weather = ''/weather''"

definition path_get_auto_shout_chatters :: string where
  [route_defs]: "path_get_auto_shout_chatters = ''/auto-shout''"

definition path_post_create_auto_shout_chatter :: string where
  [route_defs]: "path_post_create_auto_shout_chatter = ''/auto-shout''"

definition path_post_update_auto_shout_chatter :: string where
  [route_defs]: "path_post_update_auto_shout_chatter = ''/auto-shout/:id''"

definition path_delete_auto_shout_chatter :: string where
  [route_defs]: "path_delete_auto_shout_chatter = ''/auto-shout/:id''"

definition path_get_dad_responses :: string where
  [route_defs]: "path_get_dad_responses = ''/dad''"

definition path_post_create_dad_response :: string where
  [route_defs]: "path_post_create_dad_response = ''/dad''"

definition path_delete_dad_response :: string where
  [route_defs]: "path_delete_dad_response = ''/dad/:id''"

definition path_get_promos :: string where
  [route_defs]: "path_get_promos = ''/promo''"

definition path_post_create_promo :: string where
  [route_defs]: "path_post_create_promo = ''/promo''"

definition path_post_update_promo :: string where
  [route_defs]: "path_post_update_promo = ''/promo/:id''"

definition path_delete_promo :: string where
  [route_defs]: "path_delete_promo = ''/promo/:id''"

definition path_get_stalk :: string where
  [route_defs]: "path_get_stalk = ''/stalk''"

definition path_post_stalk :: string where
  [route_defs]: "path_post_stalk = ''/stalk''"

definition path_delete_stalk :: string where
  [route_defs]: "path_delete_stalk = ''/stalk''"

definition path_get_df_snapshot :: string where
  [route_defs]: "path_get_df_snapshot = ''/df/snapshot''"

definition path_post_df_snapshot :: string where
  [route_defs]: "path_post_df_snapshot = ''/df/snapshot''"

definition path_post_overlay_event_sub :: string where
  [route_defs]: "path_post_overlay_event_sub = ''/overlay/eventsub''"

definition path_post_overlay_extension :: string where
  [route_defs]: "path_post_overlay_extension = ''/overlay/extension''"

definition path_get_overlay_connect :: string where
  [route_defs]: "path_get_overlay_connect = ''/overlay/connect''"

definition path_get_overlay_devices :: string where
  [route_defs]: "path_get_overlay_devices = ''/overlay/device''"

definition path_post_create_overlay_device :: string where
  [route_defs]: "path_post_create_overlay_device = ''/overlay/device''"

definition path_delete_overlay_device :: string where
  [route_defs]: "path_delete_overlay_device = ''/overlay/device/:id''"

definition path_get_overlay_download :: string where
  [route_defs]: "path_get_overlay_download = ''/overlay/download''"

definition path_put_create_new_user :: string where
  [route_defs]: "path_put_create_new_user = ''/bot/channels/create''"

definition path_get_active_channels :: string where
  [route_defs]: "path_get_active_channels = ''/bot/channels/active''"

definition path_post_heal_legacy_user :: string where
  [route_defs]: "path_post_heal_legacy_user = ''/bot/channels/heal''"

definition path_post_bot_bread_increment :: string where
  [route_defs]: "path_post_bot_bread_increment = ''/bot/bread/increment''"

definition path_get_bot_bread_total :: string where
  [route_defs]: "path_get_bot_bread_total = ''/bot/bread/total''"

definition path_post_bot_lurk_message :: string where
  [route_defs]: "path_post_bot_lurk_message = ''/bot/lurk/message''"

definition path_post_bot_fish_go :: string where
  [route_defs]: "path_post_bot_fish_go = ''/bot/fish/go''"

definition path_put_broadcaster_state :: string where
  [route_defs]: "path_put_broadcaster_state = ''/bot/channels/putstate''"

definition path_post_bot_opt_out :: string where
  [route_defs]: "path_post_bot_opt_out = ''/bot/channels/optout''"

definition path_post_bot_opt_in_check :: string where
  [route_defs]: "path_post_bot_opt_in_check = ''/bot/channels/optin''"

definition path_post_bot_dad_random :: string where
  [route_defs]: "path_post_bot_dad_random = ''/bot/dad''"

definition path_post_bot_dad_add :: string where
  [route_defs]: "path_post_bot_dad_add = ''/bot/dad/add''"

definition path_post_bot_dad_remove :: string where
  [route_defs]: "path_post_bot_dad_remove = ''/bot/dad/remove''"

definition path_post_bot_dad_usage :: string where
  [route_defs]: "path_post_bot_dad_usage = ''/bot/dad/usage''"

definition path_post_bot_dad_increment :: string where
  [route_defs]: "path_post_bot_dad_increment = ''/bot/dad/increment''"

definition path_get_bot_channel_commands :: string where
  [route_defs]: "path_get_bot_channel_commands = ''/bot/commands/:bid''"

definition path_get_bot_auto_shouters :: string where
  [route_defs]: "path_get_bot_auto_shouters = ''/bot/autoshout/:bid''"

definition path_post_bot_auto_shout_increment :: string where
  [route_defs]: "path_post_bot_auto_shout_increment = ''/bot/autoshout/increment''"

definition path_post_bot_promo_create :: string where
  [route_defs]: "path_post_bot_promo_create = ''/bot/promo''"

definition path_get_bot_promos :: string where
  [route_defs]: "path_get_bot_promos = ''/bot/promos''"

definition path_post_bot_promo_edit_last :: string where
  [route_defs]: "path_post_bot_promo_edit_last = ''/bot/promo/edit-last''"

definition path_post_bot_promo_delete_last :: string where
  [route_defs]: "path_post_bot_promo_delete_last = ''/bot/promo/delete-last''"

definition path_get_bot_stalk_target :: string where
  [route_defs]: "path_get_bot_stalk_target = ''/bot/stalk''"

definition path_post_bot_stalk_set :: string where
  [route_defs]: "path_post_bot_stalk_set = ''/bot/stalk''"

definition path_post_bot_stalk_clear :: string where
  [route_defs]: "path_post_bot_stalk_clear = ''/bot/stalk/clear''"

definition path_post_bot_stalk_last_message :: string where
  [route_defs]: "path_post_bot_stalk_last_message = ''/bot/stalk/last''"

definition path_post_bot_overlay_dispatch :: string where
  [route_defs]: "path_post_bot_overlay_dispatch = ''/bot/overlay/dispatch''"

definition path_post_bot_join_channel :: string where
  [route_defs]: "path_post_bot_join_channel = ''/internal/join''"

section \<open>The registration\<close>

datatype guard = Open_Route | Session_Guard | Hmac_Guard

datatype entry_endpoint =
    Ep_Index | Ep_Twitch_Start | Ep_Twitch_Callback | Ep_Logout
  | Ep_Get_Commands

datatype page_endpoint =
    Ep_Get_Profile | Ep_Get_User_Tasks | Ep_Post_Create_User_Task | Ep_Get_Weather
  | Ep_Get_Fishing_Score | Ep_Page_Get_Auto_Shout_Chatters | Ep_Page_Create_Auto_Shout_Chatter | Ep_Page_Update_Auto_Shout_Chatter
  | Ep_Page_Delete_Auto_Shout_Chatter | Ep_Page_Get_Dad_Responses | Ep_Page_Create_Dad_Response | Ep_Page_Delete_Dad_Response
  | Ep_Page_Get_Promos | Ep_Page_Create_Promo | Ep_Page_Update_Promo | Ep_Page_Delete_Promo
  | Ep_Overlay_List_Devices | Ep_Overlay_Create_Device | Ep_Overlay_Revoke_Device | Ep_Overlay_Download
  | Ep_Page_Get_Stalk | Ep_Page_Set_Stalk | Ep_Page_Clear_Stalk

datatype feed_endpoint =
    Ep_Df_Get_Snapshot | Ep_Df_Post_Snapshot | Ep_Overlay_Event_Sub | Ep_Overlay_Extension
  | Ep_Overlay_Connect

datatype bot_endpoint =
    Ep_Bot_Get_Active_Channels | Ep_Bot_Post_Heal_Legacy_User | Ep_Bot_Post_Bread_Increment | Ep_Bot_Get_Bread_Total
  | Ep_Bot_Post_Lurk_Message | Ep_Bot_Post_Fish_Go | Ep_Bot_Put_Channel_State | Ep_Bot_Post_Opt_Out
  | Ep_Bot_Post_Opt_In_Check | Ep_Bot_Put_New_User | Ep_Bot_Post_Dad_Random | Ep_Bot_Post_Dad_Add
  | Ep_Bot_Post_Dad_Remove | Ep_Bot_Post_Dad_Usage | Ep_Bot_Post_Dad_Increment | Ep_Bot_Get_Channel_Commands
  | Ep_Bot_Get_Auto_Shout_Chatters | Ep_Bot_Post_Auto_Shout_Increment | Ep_Bot_Post_Promo_Create | Ep_Bot_Get_Promos_For_Bot
  | Ep_Bot_Post_Promo_Edit_Last | Ep_Bot_Post_Promo_Delete_Last | Ep_Bot_Get_Stalk_Target | Ep_Bot_Post_Stalk_Set
  | Ep_Bot_Post_Stalk_Clear | Ep_Bot_Post_Stalk_Last_Message | Ep_Overlay_Dispatch

datatype endpoint = Entry entry_endpoint | Page page_endpoint | Feed feed_endpoint | Bot bot_endpoint

record route =
  rt_method :: string
  rt_path :: string
  rt_endpoint :: endpoint
  rt_guard :: guard

definition entry_routes :: "route list" where
  [route_defs]: "entry_routes =
     [\<lparr> rt_method = ''GET'', rt_path = path_hello_world, rt_endpoint = Entry Ep_Index, rt_guard = Open_Route \<rparr>,
      \<lparr> rt_method = ''GET'', rt_path = path_get_twitch_start, rt_endpoint = Entry Ep_Twitch_Start, rt_guard = Open_Route \<rparr>,
      \<lparr> rt_method = ''GET'', rt_path = path_get_twitch_callback, rt_endpoint = Entry Ep_Twitch_Callback, rt_guard = Open_Route \<rparr>,
      \<lparr> rt_method = ''POST'', rt_path = path_post_logout, rt_endpoint = Entry Ep_Logout, rt_guard = Open_Route \<rparr>,
      \<lparr> rt_method = ''GET'', rt_path = path_get_global_enabled_commands, rt_endpoint = Entry Ep_Get_Commands, rt_guard = Open_Route \<rparr>]"

definition session_routes :: "route list" where
  [route_defs]: "session_routes =
     [\<lparr> rt_method = ''GET'', rt_path = path_get_user_profile, rt_endpoint = Page Ep_Get_Profile, rt_guard = Session_Guard \<rparr>,
      \<lparr> rt_method = ''GET'', rt_path = path_get_user_tasks, rt_endpoint = Page Ep_Get_User_Tasks, rt_guard = Session_Guard \<rparr>,
      \<lparr> rt_method = ''POST'', rt_path = path_post_create_user_task, rt_endpoint = Page Ep_Post_Create_User_Task, rt_guard = Session_Guard \<rparr>,
      \<lparr> rt_method = ''POST'', rt_path = path_post_weather, rt_endpoint = Page Ep_Get_Weather, rt_guard = Session_Guard \<rparr>,
      \<lparr> rt_method = ''GET'', rt_path = path_get_fishing_score, rt_endpoint = Page Ep_Get_Fishing_Score, rt_guard = Session_Guard \<rparr>,
      \<lparr> rt_method = ''GET'', rt_path = path_get_auto_shout_chatters, rt_endpoint = Page Ep_Page_Get_Auto_Shout_Chatters, rt_guard = Session_Guard \<rparr>,
      \<lparr> rt_method = ''POST'', rt_path = path_post_create_auto_shout_chatter, rt_endpoint = Page Ep_Page_Create_Auto_Shout_Chatter, rt_guard = Session_Guard \<rparr>,
      \<lparr> rt_method = ''POST'', rt_path = path_post_update_auto_shout_chatter, rt_endpoint = Page Ep_Page_Update_Auto_Shout_Chatter, rt_guard = Session_Guard \<rparr>,
      \<lparr> rt_method = ''DELETE'', rt_path = path_delete_auto_shout_chatter, rt_endpoint = Page Ep_Page_Delete_Auto_Shout_Chatter, rt_guard = Session_Guard \<rparr>,
      \<lparr> rt_method = ''GET'', rt_path = path_get_dad_responses, rt_endpoint = Page Ep_Page_Get_Dad_Responses, rt_guard = Session_Guard \<rparr>,
      \<lparr> rt_method = ''POST'', rt_path = path_post_create_dad_response, rt_endpoint = Page Ep_Page_Create_Dad_Response, rt_guard = Session_Guard \<rparr>,
      \<lparr> rt_method = ''DELETE'', rt_path = path_delete_dad_response, rt_endpoint = Page Ep_Page_Delete_Dad_Response, rt_guard = Session_Guard \<rparr>,
      \<lparr> rt_method = ''GET'', rt_path = path_get_promos, rt_endpoint = Page Ep_Page_Get_Promos, rt_guard = Session_Guard \<rparr>,
      \<lparr> rt_method = ''POST'', rt_path = path_post_create_promo, rt_endpoint = Page Ep_Page_Create_Promo, rt_guard = Session_Guard \<rparr>,
      \<lparr> rt_method = ''POST'', rt_path = path_post_update_promo, rt_endpoint = Page Ep_Page_Update_Promo, rt_guard = Session_Guard \<rparr>,
      \<lparr> rt_method = ''DELETE'', rt_path = path_delete_promo, rt_endpoint = Page Ep_Page_Delete_Promo, rt_guard = Session_Guard \<rparr>,
      \<lparr> rt_method = ''GET'', rt_path = path_get_overlay_devices, rt_endpoint = Page Ep_Overlay_List_Devices, rt_guard = Session_Guard \<rparr>,
      \<lparr> rt_method = ''POST'', rt_path = path_post_create_overlay_device, rt_endpoint = Page Ep_Overlay_Create_Device, rt_guard = Session_Guard \<rparr>,
      \<lparr> rt_method = ''DELETE'', rt_path = path_delete_overlay_device, rt_endpoint = Page Ep_Overlay_Revoke_Device, rt_guard = Session_Guard \<rparr>,
      \<lparr> rt_method = ''GET'', rt_path = path_get_overlay_download, rt_endpoint = Page Ep_Overlay_Download, rt_guard = Session_Guard \<rparr>,
      \<lparr> rt_method = ''GET'', rt_path = path_get_stalk, rt_endpoint = Page Ep_Page_Get_Stalk, rt_guard = Session_Guard \<rparr>,
      \<lparr> rt_method = ''POST'', rt_path = path_post_stalk, rt_endpoint = Page Ep_Page_Set_Stalk, rt_guard = Session_Guard \<rparr>,
      \<lparr> rt_method = ''DELETE'', rt_path = path_delete_stalk, rt_endpoint = Page Ep_Page_Clear_Stalk, rt_guard = Session_Guard \<rparr>]"

definition feed_routes :: "route list" where
  [route_defs]: "feed_routes =
     [\<lparr> rt_method = ''GET'', rt_path = path_get_df_snapshot, rt_endpoint = Feed Ep_Df_Get_Snapshot, rt_guard = Open_Route \<rparr>,
      \<lparr> rt_method = ''POST'', rt_path = path_post_df_snapshot, rt_endpoint = Feed Ep_Df_Post_Snapshot, rt_guard = Open_Route \<rparr>,
      \<lparr> rt_method = ''POST'', rt_path = path_post_overlay_event_sub, rt_endpoint = Feed Ep_Overlay_Event_Sub, rt_guard = Open_Route \<rparr>,
      \<lparr> rt_method = ''POST'', rt_path = path_post_overlay_extension, rt_endpoint = Feed Ep_Overlay_Extension, rt_guard = Open_Route \<rparr>,
      \<lparr> rt_method = ''GET'', rt_path = path_get_overlay_connect, rt_endpoint = Feed Ep_Overlay_Connect, rt_guard = Open_Route \<rparr>]"

definition bot_routes :: "route list" where
  [route_defs]: "bot_routes =
     [\<lparr> rt_method = ''GET'', rt_path = path_get_active_channels, rt_endpoint = Bot Ep_Bot_Get_Active_Channels, rt_guard = Hmac_Guard \<rparr>,
      \<lparr> rt_method = ''POST'', rt_path = path_post_heal_legacy_user, rt_endpoint = Bot Ep_Bot_Post_Heal_Legacy_User, rt_guard = Hmac_Guard \<rparr>,
      \<lparr> rt_method = ''POST'', rt_path = path_post_bot_bread_increment, rt_endpoint = Bot Ep_Bot_Post_Bread_Increment, rt_guard = Hmac_Guard \<rparr>,
      \<lparr> rt_method = ''GET'', rt_path = path_get_bot_bread_total, rt_endpoint = Bot Ep_Bot_Get_Bread_Total, rt_guard = Hmac_Guard \<rparr>,
      \<lparr> rt_method = ''POST'', rt_path = path_post_bot_lurk_message, rt_endpoint = Bot Ep_Bot_Post_Lurk_Message, rt_guard = Hmac_Guard \<rparr>,
      \<lparr> rt_method = ''POST'', rt_path = path_post_bot_fish_go, rt_endpoint = Bot Ep_Bot_Post_Fish_Go, rt_guard = Hmac_Guard \<rparr>,
      \<lparr> rt_method = ''PUT'', rt_path = path_put_broadcaster_state, rt_endpoint = Bot Ep_Bot_Put_Channel_State, rt_guard = Hmac_Guard \<rparr>,
      \<lparr> rt_method = ''POST'', rt_path = path_post_bot_opt_out, rt_endpoint = Bot Ep_Bot_Post_Opt_Out, rt_guard = Hmac_Guard \<rparr>,
      \<lparr> rt_method = ''POST'', rt_path = path_post_bot_opt_in_check, rt_endpoint = Bot Ep_Bot_Post_Opt_In_Check, rt_guard = Hmac_Guard \<rparr>,
      \<lparr> rt_method = ''PUT'', rt_path = path_put_create_new_user, rt_endpoint = Bot Ep_Bot_Put_New_User, rt_guard = Hmac_Guard \<rparr>,
      \<lparr> rt_method = ''POST'', rt_path = path_post_bot_dad_random, rt_endpoint = Bot Ep_Bot_Post_Dad_Random, rt_guard = Hmac_Guard \<rparr>,
      \<lparr> rt_method = ''POST'', rt_path = path_post_bot_dad_add, rt_endpoint = Bot Ep_Bot_Post_Dad_Add, rt_guard = Hmac_Guard \<rparr>,
      \<lparr> rt_method = ''POST'', rt_path = path_post_bot_dad_remove, rt_endpoint = Bot Ep_Bot_Post_Dad_Remove, rt_guard = Hmac_Guard \<rparr>,
      \<lparr> rt_method = ''POST'', rt_path = path_post_bot_dad_usage, rt_endpoint = Bot Ep_Bot_Post_Dad_Usage, rt_guard = Hmac_Guard \<rparr>,
      \<lparr> rt_method = ''POST'', rt_path = path_post_bot_dad_increment, rt_endpoint = Bot Ep_Bot_Post_Dad_Increment, rt_guard = Hmac_Guard \<rparr>,
      \<lparr> rt_method = ''GET'', rt_path = path_get_bot_channel_commands, rt_endpoint = Bot Ep_Bot_Get_Channel_Commands, rt_guard = Hmac_Guard \<rparr>,
      \<lparr> rt_method = ''GET'', rt_path = path_get_bot_auto_shouters, rt_endpoint = Bot Ep_Bot_Get_Auto_Shout_Chatters, rt_guard = Hmac_Guard \<rparr>,
      \<lparr> rt_method = ''POST'', rt_path = path_post_bot_auto_shout_increment, rt_endpoint = Bot Ep_Bot_Post_Auto_Shout_Increment, rt_guard = Hmac_Guard \<rparr>,
      \<lparr> rt_method = ''POST'', rt_path = path_post_bot_promo_create, rt_endpoint = Bot Ep_Bot_Post_Promo_Create, rt_guard = Hmac_Guard \<rparr>,
      \<lparr> rt_method = ''GET'', rt_path = path_get_bot_promos, rt_endpoint = Bot Ep_Bot_Get_Promos_For_Bot, rt_guard = Hmac_Guard \<rparr>,
      \<lparr> rt_method = ''POST'', rt_path = path_post_bot_promo_edit_last, rt_endpoint = Bot Ep_Bot_Post_Promo_Edit_Last, rt_guard = Hmac_Guard \<rparr>,
      \<lparr> rt_method = ''POST'', rt_path = path_post_bot_promo_delete_last, rt_endpoint = Bot Ep_Bot_Post_Promo_Delete_Last, rt_guard = Hmac_Guard \<rparr>,
      \<lparr> rt_method = ''GET'', rt_path = path_get_bot_stalk_target, rt_endpoint = Bot Ep_Bot_Get_Stalk_Target, rt_guard = Hmac_Guard \<rparr>,
      \<lparr> rt_method = ''POST'', rt_path = path_post_bot_stalk_set, rt_endpoint = Bot Ep_Bot_Post_Stalk_Set, rt_guard = Hmac_Guard \<rparr>,
      \<lparr> rt_method = ''POST'', rt_path = path_post_bot_stalk_clear, rt_endpoint = Bot Ep_Bot_Post_Stalk_Clear, rt_guard = Hmac_Guard \<rparr>,
      \<lparr> rt_method = ''POST'', rt_path = path_post_bot_stalk_last_message, rt_endpoint = Bot Ep_Bot_Post_Stalk_Last_Message, rt_guard = Hmac_Guard \<rparr>,
      \<lparr> rt_method = ''POST'', rt_path = path_post_bot_overlay_dispatch, rt_endpoint = Bot Ep_Overlay_Dispatch, rt_guard = Hmac_Guard \<rparr>]"

definition register_routes :: "route list" where
  [route_defs]: "register_routes = entry_routes @ session_routes @ feed_routes @ bot_routes"

end
