(* ===== verification/Client_Calls.thy ===== *)
theory Client_Calls
  imports Routes Game_Commands Promo "HOL-Library.Monad_Syntax"
begin

text \<open>
  The bot's client, method by method (\<^verbatim>\<open>internal/libraries/api/core_api_client.go\<close>): the request each
  method sends and what it makes of the answer. The wire is the parameter \<open>send\<close>, which may lose the
  request or the answer; signing is the subject of \<^verbatim>\<open>Hmac_Auth\<close>.
\<close>

section \<open>The wire\<close>

record http_request =
  hq_method :: string
  hq_path :: string
  hq_query :: string
  hq_body :: "json option"

type_synonym 's wire = "http_request \<Rightarrow> 's \<Rightarrow> (int \<times> json option) option \<times> 's"

text \<open>\<open>None\<close> is an error; the JSON of a good answer is \<open>None\<close> when it does not decode.\<close>

definition client_do :: "'s wire \<Rightarrow> http_request \<Rightarrow> 's \<Rightarrow> json option option \<times> 's" where
  "client_do send rq s =
     (case send rq s of
        (None, s') \<Rightarrow> (None, s')
      | (Some (status, body), s') \<Rightarrow> (if status div 100 \<noteq> 2 then None else Some body, s'))"

definition call_unit :: "'s wire \<Rightarrow> http_request \<Rightarrow> 's \<Rightarrow> unit option \<times> 's" where
  "call_unit send rq s = (case client_do send rq s of (r, s') \<Rightarrow> (map_option (\<lambda>_. ()) r, s'))"

definition call_json :: "(json \<Rightarrow> 'a option) \<Rightarrow> 's wire \<Rightarrow> http_request \<Rightarrow> 's \<Rightarrow> 'a option \<times> 's" where
  "call_json dec send rq s =
     (case client_do send rq s of
        (Some (Some j), s') \<Rightarrow> (dec j, s')
      | (_, s') \<Rightarrow> (None, s'))"

definition post_json :: "string \<Rightarrow> (string \<times> json) list \<Rightarrow> http_request" where
  "post_json path kvs = \<lparr> hq_method = ''POST'', hq_path = path, hq_query = [], hq_body = Some (J_Obj kvs) \<rparr>"

definition get_path :: "string \<Rightarrow> string \<Rightarrow> http_request" where
  "get_path path query = \<lparr> hq_method = ''GET'', hq_path = path, hq_query = query, hq_body = None \<rparr>"

text \<open>Reading one field of an answer.\<close>

definition out_field :: "string \<Rightarrow> (json \<Rightarrow> 'a option) \<Rightarrow> json \<Rightarrow> 'a option" where
  "out_field name dec j = (if json_struct j then dec (json_field name j) else None)"

section \<open>Records in JSON\<close>

text \<open>\<open>created\<close> is the creation time, which no table of the model carries.\<close>

definition user_json :: "string \<Rightarrow> user \<Rightarrow> json" where
  "user_json created u =
     J_Obj [(''id'', J_Int (us_id u)), (''created_at'', J_Str created), (''twitch_id'', opt_str (us_twitch_id u)),
       (''twitch_login'', opt_str (us_login u)), (''twitch_display_name'', opt_str (us_display_name u)),
       (''bot_opt_in'', J_Bool (us_opt_in u)), (''is_live'', J_Bool (us_live u)), (''stream_key'', opt_str (us_key u))]"

definition user_of_json :: "json \<Rightarrow> user option" where
  "user_of_json j =
     (if \<not> json_struct j then None
      else do {
        i \<leftarrow> json_int (json_field ''id'' j);
        _ \<leftarrow> json_string (json_field ''created_at'' j);
        t \<leftarrow> json_str_ptr (json_field ''twitch_id'' j);
        l \<leftarrow> json_str_ptr (json_field ''twitch_login'' j);
        d \<leftarrow> json_str_ptr (json_field ''twitch_display_name'' j);
        b \<leftarrow> json_bool (json_field ''bot_opt_in'' j);
        v \<leftarrow> json_bool (json_field ''is_live'' j);
        k \<leftarrow> json_str_ptr (json_field ''stream_key'' j);
        Some \<lparr> us_id = i, us_twitch_id = t, us_login = l, us_display_name = d, us_opt_in = b, us_live = v, us_key = k \<rparr>
      })"

definition command_json :: "command_row \<Rightarrow> json" where
  "command_json r =
     J_Obj [(''trigger'', J_Str (cr_trigger r)), (''kind'', J_Str (cr_kind r)), (''handler_key'', opt_str (cr_handler r)),
       (''response_tmpl'', opt_str (cr_response r)), (''scope'', J_Str (cr_scope r)),
       (''channel_twitch_id'', opt_str (cr_channel r)), (''enabled'', J_Bool (cr_enabled r)),
       (''min_role'', J_Str (cr_min_role r)), (''requires'', opt_str (cr_requires r))]"

definition command_of_json :: "json \<Rightarrow> command_row option" where
  "command_of_json j =
     (if \<not> json_struct j then None
      else do {
        t \<leftarrow> json_string (json_field ''trigger'' j);
        k \<leftarrow> json_string (json_field ''kind'' j);
        h \<leftarrow> json_str_ptr (json_field ''handler_key'' j);
        r \<leftarrow> json_str_ptr (json_field ''response_tmpl'' j);
        s \<leftarrow> json_string (json_field ''scope'' j);
        c \<leftarrow> json_str_ptr (json_field ''channel_twitch_id'' j);
        e \<leftarrow> json_bool (json_field ''enabled'' j);
        m \<leftarrow> json_string (json_field ''min_role'' j);
        q \<leftarrow> json_str_ptr (json_field ''requires'' j);
        Some \<lparr> cr_trigger = t, cr_kind = k, cr_handler = h, cr_response = r, cr_scope = s, cr_channel = c,
               cr_enabled = e, cr_min_role = m, cr_requires = q \<rparr>
      })"

text \<open>A promo; \<open>text_of\<close> and \<open>time_of\<close> are the printing and the parsing of its time.\<close>

definition promo_json :: "(int \<Rightarrow> string) \<Rightarrow> promo \<Rightarrow> json" where
  "promo_json text_of p =
     J_Obj [(''id'', J_Int (pr_id p)), (''channelname'', J_Str (pr_channel p)), (''broadcaster_id'', J_Str (pr_broadcaster p)),
       (''message'', J_Str (pr_message p)), (''interval_seconds'', J_Int (pr_interval p)), (''enabled'', J_Bool (pr_enabled p)),
       (''updated_at'', J_Str (text_of (pr_updated p)))]"

definition promo_of_json :: "(string \<Rightarrow> int option) \<Rightarrow> json \<Rightarrow> promo option" where
  "promo_of_json time_of j =
     (if \<not> json_struct j then None
      else do {
        i \<leftarrow> json_int (json_field ''id'' j);
        c \<leftarrow> json_string (json_field ''channelname'' j);
        b \<leftarrow> json_string (json_field ''broadcaster_id'' j);
        m \<leftarrow> json_string (json_field ''message'' j);
        n \<leftarrow> json_int (json_field ''interval_seconds'' j);
        e \<leftarrow> json_bool (json_field ''enabled'' j);
        w \<leftarrow> json_string (json_field ''updated_at'' j);
        u \<leftarrow> time_of w;
        Some \<lparr> pr_id = i, pr_channel = c, pr_broadcaster = b, pr_message = m, pr_interval = n, pr_enabled = e, pr_updated = u \<rparr>
      })"

text \<open>Empty arguments and an empty user id are left out of a dispatch.\<close>

definition dispatch_json :: "dispatch_request \<Rightarrow> json" where
  "dispatch_json r =
     J_Obj ([(''broadcaster_user_id'', J_Str (dr_broadcaster r)), (''dedupe_key'', J_Str (dr_dedupe_key r)),
       (''action'', J_Str (dr_action r))] @
       (if dr_args r = [] then [] else [(''args'', J_Arr (map J_Str (dr_args r)))]) @
       (if dr_user_id r = [] then [] else [(''user_id'', J_Str (dr_user_id r))]) @
       [(''user_login'', J_Str (dr_user_login r)), (''user_name'', J_Str (dr_user_name r))])"

section \<open>The methods\<close>

definition client_create_new_user :: "'s wire \<Rightarrow> string \<Rightarrow> user \<Rightarrow> 's \<Rightarrow> unit option \<times> 's" where
  "client_create_new_user send created u =
     call_unit send \<lparr> hq_method = ''PUT'', hq_path = path_put_create_new_user, hq_query = [], hq_body = Some (user_json created u) \<rparr>"

definition client_heal_legacy_user :: "'s wire \<Rightarrow> string \<Rightarrow> user \<Rightarrow> 's \<Rightarrow> unit option \<times> 's" where
  "client_heal_legacy_user send created u =
     call_unit send \<lparr> hq_method = ''POST'', hq_path = path_post_heal_legacy_user, hq_query = [], hq_body = Some (user_json created u) \<rparr>"

definition client_push_state :: "'s wire \<Rightarrow> string option \<Rightarrow> bool \<Rightarrow> 's \<Rightarrow> unit option \<times> 's" where
  "client_push_state send login live =
     call_unit send \<lparr> hq_method = ''PUT'', hq_path = path_put_broadcaster_state, hq_query = [],
       hq_body = Some (J_Obj [(''twitch_login'', opt_str login), (''is_live'', J_Bool live)]) \<rparr>"

definition client_opt_out_user :: "'s wire \<Rightarrow> string \<Rightarrow> 's \<Rightarrow> unit option \<times> 's" where
  "client_opt_out_user send login = call_unit send (post_json path_post_bot_opt_out [(''twitch_login'', J_Str login)])"

definition client_is_channel_opted_in :: "'s wire \<Rightarrow> string \<Rightarrow> 's \<Rightarrow> bool option \<times> 's" where
  "client_is_channel_opted_in send login =
     call_json (out_field ''opted_in'' json_bool) send (post_json path_post_bot_opt_in_check [(''twitch_login'', J_Str login)])"

definition client_get_active_channels :: "'s wire \<Rightarrow> 's \<Rightarrow> user list option \<times> 's" where
  "client_get_active_channels send =
     call_json (out_field ''channels'' (json_list user_of_json)) send (get_path path_get_active_channels [])"

definition client_get_global_enabled_commands :: "'s wire \<Rightarrow> 's \<Rightarrow> command_row list option \<times> 's" where
  "client_get_global_enabled_commands send =
     call_json (out_field ''commands'' (json_list command_of_json)) send (get_path path_get_global_enabled_commands [])"

text \<open>\<^verbatim>\<open>strings.Replace\<close> of the parameter in a path, once.\<close>

fun replace_once :: "string \<Rightarrow> string \<Rightarrow> string \<Rightarrow> string" where
  "replace_once old new [] = (if old = [] then new else [])"
| "replace_once old new (c # cs) =
     (if has_prefix old (c # cs) then new @ drop (length old) (c # cs) else c # replace_once old new cs)"

definition client_get_channel_commands ::
  "'s wire \<Rightarrow> string \<Rightarrow> 's \<Rightarrow> (command_row list \<times> string list) option \<times> 's" where
  "client_get_channel_commands send bid =
     call_json
       (\<lambda>j. do {
          cmds \<leftarrow> out_field ''commands'' (json_list command_of_json) j;
          caps \<leftarrow> out_field ''capabilities'' (json_list json_string) j;
          Some (cmds, caps)
        }) send (get_path (replace_once '':bid'' (path_escape bid) path_get_bot_channel_commands) [])"

definition client_dispatch_overlay_command :: "'s wire \<Rightarrow> dispatch_request \<Rightarrow> 's \<Rightarrow> bool option \<times> 's" where
  "client_dispatch_overlay_command send r =
     call_json (out_field ''delivered'' json_bool) send
       \<lparr> hq_method = ''POST'', hq_path = path_post_bot_overlay_dispatch, hq_query = [], hq_body = Some (dispatch_json r) \<rparr>"

text \<open>The keys of a map are sent in alphabetical order.\<close>

definition client_create_promo :: "'s wire \<Rightarrow> string \<Rightarrow> string \<Rightarrow> string \<Rightarrow> int \<Rightarrow> 's \<Rightarrow> unit option \<times> 's" where
  "client_create_promo send channel broadcaster message seconds =
     call_unit send (post_json path_post_bot_promo_create
       [(''broadcaster_id'', J_Str broadcaster), (''channel'', J_Str channel), (''interval_seconds'', J_Int seconds),
        (''message'', J_Str message)])"

definition client_get_active_promos :: "'s wire \<Rightarrow> (string \<Rightarrow> int option) \<Rightarrow> 's \<Rightarrow> promo list option \<times> 's" where
  "client_get_active_promos send time_of =
     call_json (out_field ''promos'' (json_list (promo_of_json time_of))) send (get_path path_get_bot_promos [])"

definition client_edit_last_promo :: "'s wire \<Rightarrow> string \<Rightarrow> string \<Rightarrow> int \<Rightarrow> 's \<Rightarrow> bool option \<times> 's" where
  "client_edit_last_promo send channel message seconds =
     call_json (out_field ''found'' json_bool) send (post_json path_post_bot_promo_edit_last
       [(''channel'', J_Str channel), (''interval_seconds'', J_Int seconds), (''message'', J_Str message)])"

definition client_delete_last_promo :: "'s wire \<Rightarrow> string \<Rightarrow> 's \<Rightarrow> bool option \<times> 's" where
  "client_delete_last_promo send channel =
     call_json (out_field ''found'' json_bool) send (post_json path_post_bot_promo_delete_last [(''channel'', J_Str channel)])"

definition client_get_stalk_target :: "'s wire \<Rightarrow> string \<Rightarrow> 's \<Rightarrow> (string \<times> string \<times> bool) option \<times> 's" where
  "client_get_stalk_target send channel =
     call_json
       (\<lambda>j. do {
          found \<leftarrow> out_field ''found'' json_bool j;
          target \<leftarrow> out_field ''target'' json_string j;
          last_message \<leftarrow> out_field ''last_message'' json_string j;
          Some (target, last_message, found)
        }) send (get_path path_get_bot_stalk_target (encode_param ''channel'' channel))"

definition client_set_stalk_target :: "'s wire \<Rightarrow> string \<Rightarrow> string \<Rightarrow> string \<Rightarrow> 's \<Rightarrow> unit option \<times> 's" where
  "client_set_stalk_target send channel target set_by =
     call_unit send (post_json path_post_bot_stalk_set
       [(''channel'', J_Str channel), (''set_by'', J_Str set_by), (''target'', J_Str target)])"

definition client_clear_stalk_target :: "'s wire \<Rightarrow> string \<Rightarrow> 's \<Rightarrow> bool option \<times> 's" where
  "client_clear_stalk_target send channel =
     call_json (out_field ''found'' json_bool) send (post_json path_post_bot_stalk_clear [(''channel'', J_Str channel)])"

definition client_set_stalk_last_message :: "'s wire \<Rightarrow> string \<Rightarrow> string \<Rightarrow> string \<Rightarrow> 's \<Rightarrow> unit option \<times> 's" where
  "client_set_stalk_last_message send channel target message =
     call_unit send (post_json path_post_bot_stalk_last_message
       [(''channel'', J_Str channel), (''message'', J_Str message), (''target'', J_Str target)])"

definition client_increment_bread :: "'s wire \<Rightarrow> string \<Rightarrow> string \<Rightarrow> 's \<Rightarrow> int option \<times> 's" where
  "client_increment_bread send channel chatter =
     call_json (out_field ''count'' json_int) send
       (post_json path_post_bot_bread_increment [(''channel'', J_Str channel), (''chatter'', J_Str chatter)])"

definition client_get_bread_total :: "'s wire \<Rightarrow> string \<Rightarrow> 's \<Rightarrow> int option \<times> 's" where
  "client_get_bread_total send channel =
     call_json (out_field ''total'' json_int) send (get_path path_get_bot_bread_total (encode_param ''channel'' channel))"

definition client_increment_auto_shout_count :: "'s wire \<Rightarrow> int \<Rightarrow> string \<Rightarrow> 's \<Rightarrow> unit option \<times> 's" where
  "client_increment_auto_shout_count send bid chatter =
     call_unit send (post_json path_post_bot_auto_shout_increment [(''chattername'', J_Str chatter), (''twitch_id'', J_Int bid)])"

definition client_get_auto_shout_chatters :: "'s wire \<Rightarrow> string \<Rightarrow> 's \<Rightarrow> string list option \<times> 's" where
  "client_get_auto_shout_chatters send bid =
     call_json (json_list json_string) send (get_path (replace_once '':bid'' (path_escape bid) path_get_bot_auto_shouters) [])"

text \<open>The one method that turns an error into a value.\<close>

definition client_lurk_on_message :: "'s wire \<Rightarrow> string \<Rightarrow> string \<Rightarrow> 's \<Rightarrow> int \<times> 's" where
  "client_lurk_on_message send channel chatter s =
     (case call_json (out_field ''count'' json_int) send
             (post_json path_post_bot_lurk_message [(''channel'', J_Str channel), (''chatter'', J_Str chatter)]) s of
        (None, s') \<Rightarrow> (0, s') | (Some n, s') \<Rightarrow> (n, s'))"

definition client_go_fishing :: "'s wire \<Rightarrow> string \<Rightarrow> string \<Rightarrow> 's \<Rightarrow> string option \<times> 's" where
  "client_go_fishing send channel chatter =
     call_json (out_field ''message'' json_string) send
       (post_json path_post_bot_fish_go [(''channel'', J_Str channel), (''chatter'', J_Str chatter)])"

definition client_dad_random :: "'s wire \<Rightarrow> string \<Rightarrow> 's \<Rightarrow> string option \<times> 's" where
  "client_dad_random send channel =
     call_json (out_field ''response'' json_string) send (post_json path_post_bot_dad_random [(''channel'', J_Str channel)])"

definition client_dad_add :: "'s wire \<Rightarrow> string \<Rightarrow> string \<Rightarrow> 's \<Rightarrow> unit option \<times> 's" where
  "client_dad_add send channel response =
     call_unit send (post_json path_post_bot_dad_add [(''channel'', J_Str channel), (''response'', J_Str response)])"

definition client_dad_remove :: "'s wire \<Rightarrow> string \<Rightarrow> int \<Rightarrow> 's \<Rightarrow> unit option \<times> 's" where
  "client_dad_remove send channel rid =
     call_unit send (post_json path_post_bot_dad_remove [(''channel'', J_Str channel), (''id'', J_Int rid)])"

text \<open>A JSON object as a map from names to numbers.\<close>

definition json_usage :: "json \<Rightarrow> (string \<times> int) list option" where
  "json_usage j =
     (case j of
        J_Null \<Rightarrow> Some []
      | J_Obj kvs \<Rightarrow>
          (case json_all json_int (map snd kvs) of None \<Rightarrow> None | Some ns \<Rightarrow> Some (zip (map fst kvs) ns))
      | _ \<Rightarrow> None)"

definition client_get_dad_usage :: "'s wire \<Rightarrow> int \<Rightarrow> 's \<Rightarrow> (string \<times> int) list option \<times> 's" where
  "client_get_dad_usage send bid = call_json json_usage send (post_json path_post_bot_dad_usage [(''twitch_id'', J_Int bid)])"

definition client_increment_dad_roll :: "'s wire \<Rightarrow> int \<Rightarrow> string \<Rightarrow> 's \<Rightarrow> unit option \<times> 's" where
  "client_increment_dad_roll send bid chatter =
     call_unit send (post_json path_post_bot_dad_increment [(''chattername'', J_Str chatter), (''twitch_id'', J_Int bid)])"

end
