(* ===== verification/Core_Api.thy ===== *)
theory Core_Api
  imports Client_Calls
begin

text \<open>
  core-api as the bot sees it: one server over one database. A request is routed, passes the guard of its
  route, is bound to the endpoint's own request type (the structs of \<^verbatim>\<open>cmd/core-api/endpoints/bot\<close> and
  \<^verbatim>\<open>overlay/dispatch.go\<close>) and is answered in JSON; the endpoints are those of the services.
\<close>

section \<open>Requests, bound\<close>

datatype bot_request =
    Rq_Active_Channels | Rq_Heal_Legacy_User user | Rq_New_User user
  | Rq_Channel_State "string option" bool | Rq_Opt_Out "string option" | Rq_Opt_In_Check "string option"
  | Rq_Bread_Increment string string | Rq_Bread_Total string | Rq_Lurk_Message string string | Rq_Fish_Go string string
  | Rq_Dad_Random string | Rq_Dad_Add string string | Rq_Dad_Remove string int | Rq_Dad_Usage int | Rq_Dad_Increment int string
  | Rq_Channel_Commands string | Rq_Auto_Shouters string | Rq_Auto_Shout_Increment int string
  | Rq_Promo_Create string string string int | Rq_Promos | Rq_Promo_Edit_Last string string int | Rq_Promo_Delete_Last string
  | Rq_Stalk_Target string | Rq_Stalk_Set string string string | Rq_Stalk_Clear string | Rq_Stalk_Last_Message string string string
  | Rq_Dispatch dispatch_request | Rq_Global_Commands

definition bind_field :: "string \<Rightarrow> (json \<Rightarrow> 'a option) \<Rightarrow> json option \<Rightarrow> 'a option" where
  "bind_field name dec body = out_field name dec (case body of None \<Rightarrow> J_Null | Some j \<Rightarrow> j)"

definition bread_increment_request :: "json option \<Rightarrow> (string \<times> string) option" where
  "bread_increment_request b = do {
     channel \<leftarrow> bind_field ''channel'' json_string b;
     chatter \<leftarrow> bind_field ''chatter'' json_string b;
     Some (channel, chatter)
   }"

definition lurk_message_request :: "json option \<Rightarrow> (string \<times> string) option" where
  "lurk_message_request b = do {
     channel \<leftarrow> bind_field ''channel'' json_string b;
     chatter \<leftarrow> bind_field ''chatter'' json_string b;
     Some (channel, chatter)
   }"

definition fish_go_request :: "json option \<Rightarrow> (string \<times> string) option" where
  "fish_go_request b = do {
     channel \<leftarrow> bind_field ''channel'' json_string b;
     chatter \<leftarrow> bind_field ''chatter'' json_string b;
     Some (channel, chatter)
   }"

definition dad_add_request :: "json option \<Rightarrow> (string \<times> string) option" where
  "dad_add_request b = do {
     channel \<leftarrow> bind_field ''channel'' json_string b;
     response \<leftarrow> bind_field ''response'' json_string b;
     Some (channel, response)
   }"

definition dad_remove_request :: "json option \<Rightarrow> (string \<times> int) option" where
  "dad_remove_request b = do {
     channel \<leftarrow> bind_field ''channel'' json_string b;
     rid \<leftarrow> bind_field ''id'' json_int b;
     Some (channel, rid)
   }"

definition dad_increment_request :: "json option \<Rightarrow> (int \<times> string) option" where
  "dad_increment_request b = do {
     bid \<leftarrow> bind_field ''twitch_id'' json_int b;
     chatter \<leftarrow> bind_field ''chattername'' json_string b;
     Some (bid, chatter)
   }"

definition auto_shout_increment_request :: "json option \<Rightarrow> (int \<times> string) option" where
  "auto_shout_increment_request b = do {
     bid \<leftarrow> bind_field ''twitch_id'' json_int b;
     chatter \<leftarrow> bind_field ''chattername'' json_string b;
     Some (bid, chatter)
   }"

definition channel_state_request :: "json option \<Rightarrow> (string option \<times> bool) option" where
  "channel_state_request b = do {
     login \<leftarrow> bind_field ''twitch_login'' json_str_ptr b;
     live \<leftarrow> bind_field ''is_live'' json_bool b;
     Some (login, live)
   }"

definition promo_create_request :: "json option \<Rightarrow> (string \<times> string \<times> string \<times> int) option" where
  "promo_create_request b = do {
     channel \<leftarrow> bind_field ''channel'' json_string b;
     broadcaster \<leftarrow> bind_field ''broadcaster_id'' json_string b;
     message \<leftarrow> bind_field ''message'' json_string b;
     seconds \<leftarrow> bind_field ''interval_seconds'' json_int b;
     Some (channel, broadcaster, message, seconds)
   }"

definition promo_edit_last_request :: "json option \<Rightarrow> (string \<times> string \<times> int) option" where
  "promo_edit_last_request b = do {
     channel \<leftarrow> bind_field ''channel'' json_string b;
     message \<leftarrow> bind_field ''message'' json_string b;
     seconds \<leftarrow> bind_field ''interval_seconds'' json_int b;
     Some (channel, message, seconds)
   }"

definition stalk_set_request :: "json option \<Rightarrow> (string \<times> string \<times> string) option" where
  "stalk_set_request b = do {
     channel \<leftarrow> bind_field ''channel'' json_string b;
     target \<leftarrow> bind_field ''target'' json_string b;
     set_by \<leftarrow> bind_field ''set_by'' json_string b;
     Some (channel, target, set_by)
   }"

definition stalk_last_message_request :: "json option \<Rightarrow> (string \<times> string \<times> string) option" where
  "stalk_last_message_request b = do {
     channel \<leftarrow> bind_field ''channel'' json_string b;
     target \<leftarrow> bind_field ''target'' json_string b;
     message \<leftarrow> bind_field ''message'' json_string b;
     Some (channel, target, message)
   }"

definition dispatch_of_json :: "json option \<Rightarrow> dispatch_request option" where
  "dispatch_of_json b = do {
     broadcaster \<leftarrow> bind_field ''broadcaster_user_id'' json_string b;
     key \<leftarrow> bind_field ''dedupe_key'' json_string b;
     action \<leftarrow> bind_field ''action'' json_string b;
     args \<leftarrow> bind_field ''args'' (json_list json_string) b;
     uid \<leftarrow> bind_field ''user_id'' json_string b;
     login \<leftarrow> bind_field ''user_login'' json_string b;
     name \<leftarrow> bind_field ''user_name'' json_string b;
     Some \<lparr> dr_broadcaster = broadcaster, dr_dedupe_key = key, dr_action = action, dr_args = args, dr_user_id = uid,
            dr_user_login = login, dr_user_name = name \<rparr>
   }"

definition bound_user :: "json option \<Rightarrow> user option" where
  "bound_user b = user_of_json (case b of None \<Rightarrow> J_Null | Some j \<Rightarrow> j)"

fun bind_request :: "bot_endpoint \<Rightarrow> string \<Rightarrow> http_request \<Rightarrow> bot_request option" where
  "bind_request Ep_Bot_Get_Active_Channels p q = Some Rq_Active_Channels"
| "bind_request Ep_Bot_Post_Heal_Legacy_User p q = map_option Rq_Heal_Legacy_User (bound_user (hq_body q))"
| "bind_request Ep_Bot_Post_Bread_Increment p q = map_option (case_prod Rq_Bread_Increment) (bread_increment_request (hq_body q))"
| "bind_request Ep_Bot_Get_Bread_Total p q = Some (Rq_Bread_Total (query_param ''channel'' (hq_query q)))"
| "bind_request Ep_Bot_Post_Lurk_Message p q = map_option (case_prod Rq_Lurk_Message) (lurk_message_request (hq_body q))"
| "bind_request Ep_Bot_Post_Fish_Go p q = map_option (case_prod Rq_Fish_Go) (fish_go_request (hq_body q))"
| "bind_request Ep_Bot_Put_Channel_State p q = map_option (case_prod Rq_Channel_State) (channel_state_request (hq_body q))"
| "bind_request Ep_Bot_Post_Opt_Out p q = map_option Rq_Opt_Out (bind_field ''twitch_login'' json_str_ptr (hq_body q))"
| "bind_request Ep_Bot_Post_Opt_In_Check p q = map_option Rq_Opt_In_Check (bind_field ''twitch_login'' json_str_ptr (hq_body q))"
| "bind_request Ep_Bot_Put_New_User p q = map_option Rq_New_User (bound_user (hq_body q))"
| "bind_request Ep_Bot_Post_Dad_Random p q = map_option Rq_Dad_Random (bind_field ''channel'' json_string (hq_body q))"
| "bind_request Ep_Bot_Post_Dad_Add p q = map_option (case_prod Rq_Dad_Add) (dad_add_request (hq_body q))"
| "bind_request Ep_Bot_Post_Dad_Remove p q = map_option (case_prod Rq_Dad_Remove) (dad_remove_request (hq_body q))"
| "bind_request Ep_Bot_Post_Dad_Usage p q = map_option Rq_Dad_Usage (bind_field ''twitch_id'' json_int (hq_body q))"
| "bind_request Ep_Bot_Post_Dad_Increment p q = map_option (case_prod Rq_Dad_Increment) (dad_increment_request (hq_body q))"
| "bind_request Ep_Bot_Get_Channel_Commands p q = Some (Rq_Channel_Commands p)"
| "bind_request Ep_Bot_Get_Auto_Shout_Chatters p q = Some (Rq_Auto_Shouters p)"
| "bind_request Ep_Bot_Post_Auto_Shout_Increment p q = map_option (case_prod Rq_Auto_Shout_Increment) (auto_shout_increment_request (hq_body q))"
| "bind_request Ep_Bot_Post_Promo_Create p q =
     map_option (\<lambda>(c, b, m, n). Rq_Promo_Create c b m n) (promo_create_request (hq_body q))"
| "bind_request Ep_Bot_Get_Promos_For_Bot p q = Some Rq_Promos"
| "bind_request Ep_Bot_Post_Promo_Edit_Last p q = map_option (\<lambda>(c, m, n). Rq_Promo_Edit_Last c m n) (promo_edit_last_request (hq_body q))"
| "bind_request Ep_Bot_Post_Promo_Delete_Last p q = map_option Rq_Promo_Delete_Last (bind_field ''channel'' json_string (hq_body q))"
| "bind_request Ep_Bot_Get_Stalk_Target p q = Some (Rq_Stalk_Target (query_param ''channel'' (hq_query q)))"
| "bind_request Ep_Bot_Post_Stalk_Set p q = map_option (\<lambda>(c, t, b). Rq_Stalk_Set c t b) (stalk_set_request (hq_body q))"
| "bind_request Ep_Bot_Post_Stalk_Clear p q = map_option Rq_Stalk_Clear (bind_field ''channel'' json_string (hq_body q))"
| "bind_request Ep_Bot_Post_Stalk_Last_Message p q = map_option (\<lambda>(c, t, m). Rq_Stalk_Last_Message c t m) (stalk_last_message_request (hq_body q))"
| "bind_request Ep_Overlay_Dispatch p q = map_option Rq_Dispatch (dispatch_of_json (hq_body q))"

section \<open>The server\<close>

text \<open>The database, and what a request meets: failures, the clock, random choices, and the other users of the log.\<close>

record core_db =
  db_users :: "user table"
  db_lurkers :: "lurker table"
  db_breads :: "bread table"
  db_fish :: "fish_score table"
  db_dad :: "dad_response table"
  db_usage :: "dad_usage_row table"
  db_shouts :: "shout_chatter table"
  db_promos :: "promo table"
  db_stalks :: "stalk_row table"
  db_commands :: "command_row table"
  db_devices :: "device table"
  db_log :: event_log
  db_registry :: registry

record core_env =
  ev_faults :: faults
  ev_relay_faults :: faults
  ev_now :: int
  ev_uuid :: string
  ev_roll :: int
  ev_pick :: nat
  ev_order :: ordering
  ev_print :: "fishing_reply \<Rightarrow> string"
  ev_overlay_users :: "overlay_user list"
  ev_codec :: codec
  ev_store :: store

datatype bot_reply =
    Re_Done | Re_User user | Re_Users "user list" | Re_Opted_In bool | Re_Count int | Re_Total int | Re_Message string
  | Re_Response string | Re_Usage "(string \<times> int) list" | Re_Commands "command_row list"
  | Re_Channel_Commands "command_row list" "string list" | Re_Chatters "string list" | Re_Promos "promo list" | Re_Found bool
  | Re_Stalk string string bool | Re_Delivered bool | Re_Dad dad_response | Re_Promo promo

definition lift_http :: "('a \<Rightarrow> bot_reply) \<Rightarrow> ('t \<Rightarrow> core_db) \<Rightarrow> 'a http \<times> 't \<Rightarrow> bot_reply http \<times> core_db" where
  "lift_http f put r =
     (case r of
        (Http_Ok x, t) \<Rightarrow> (Http_Ok (f x), put t)
      | (Http_Bad_Request, t) \<Rightarrow> (Http_Bad_Request, put t)
      | (Http_Server_Error, t) \<Rightarrow> (Http_Server_Error, put t))"

definition core_dispatch :: "core_env \<Rightarrow> dispatch_request \<Rightarrow> core_db \<Rightarrow> bot_reply http \<times> core_db" where
  "core_dispatch ev r db =
     (case dispatch_endpoint ((ev_codec ev)\<lparr> cd_dispatch := (\<lambda>_. Some r) \<rparr>) (ev_store ev) [] (db_log db) (db_registry db) of
        (rep, log, reg) \<Rightarrow>
          ((case rep of
              Delivered b \<Rightarrow> Http_Ok (Re_Delivered b)
            | Status n \<Rightarrow> if n = 400 then Http_Bad_Request else Http_Server_Error
            | Text _ \<Rightarrow> Http_Server_Error), db\<lparr> db_log := log, db_registry := reg \<rparr>))"

definition get_commands_endpoint :: "faults \<Rightarrow> command_row table \<Rightarrow> command_row list http \<times> command_row table" where
  "get_commands_endpoint fl t =
     (case get_global_enabled_commands fl t of Inl _ \<Rightarrow> (Http_Server_Error, t) | Inr cmds \<Rightarrow> (Http_Ok cmds, t))"

fun core_api :: "core_env \<Rightarrow> bot_request \<Rightarrow> core_db \<Rightarrow> bot_reply http \<times> core_db" where
  "core_api ev Rq_Active_Channels db =
     lift_http Re_Users (\<lambda>t. db\<lparr> db_users := t \<rparr>) (get_active_channels_endpoint (ev_faults ev) (db_users db))"
| "core_api ev (Rq_Heal_Legacy_User u) db =
     lift_http Re_User (\<lambda>t. db\<lparr> db_users := t \<rparr>) (post_heal_legacy_user_endpoint (ev_faults ev) (Some u) (db_users db))"
| "core_api ev (Rq_New_User u) db =
     lift_http (\<lambda>_. Re_Done) (\<lambda>t. db\<lparr> db_users := t \<rparr>) (put_new_user_endpoint (ev_faults ev) (Some u) (db_users db))"
| "core_api ev (Rq_Channel_State login live) db =
     lift_http (\<lambda>_. Re_Done) (\<lambda>t. db\<lparr> db_users := t \<rparr>) (put_channel_state_endpoint (ev_faults ev) (ev_uuid ev) login live (db_users db))"
| "core_api ev (Rq_Opt_Out login) db =
     lift_http (\<lambda>_. Re_Done) (\<lambda>t. db\<lparr> db_users := t \<rparr>) (post_opt_out_endpoint (ev_faults ev) login (db_users db))"
| "core_api ev (Rq_Opt_In_Check login) db =
     lift_http Re_Opted_In (\<lambda>t. db\<lparr> db_users := t \<rparr>) (post_opt_in_check_endpoint (ev_faults ev) login (db_users db))"
| "core_api ev (Rq_Bread_Increment c u) db =
     lift_http Re_Count (\<lambda>t. db\<lparr> db_breads := t \<rparr>) (post_bread_increment_endpoint (ev_faults ev) c u (db_breads db))"
| "core_api ev (Rq_Bread_Total c) db =
     lift_http Re_Total (\<lambda>t. db\<lparr> db_breads := t \<rparr>) (get_bread_total_endpoint (ev_faults ev) c (db_breads db))"
| "core_api ev (Rq_Lurk_Message c u) db =
     lift_http Re_Count (\<lambda>t. db\<lparr> db_lurkers := t \<rparr>) (post_lurk_message_endpoint (ev_faults ev) c u (db_lurkers db))"
| "core_api ev (Rq_Fish_Go c u) db =
     lift_http (\<lambda>r. Re_Message (ev_print ev r)) (\<lambda>t. db\<lparr> db_fish := t \<rparr>)
       (post_fish_go_endpoint (ev_order ev) (ev_faults ev) (ev_roll ev) c u (db_fish db))"
| "core_api ev (Rq_Dad_Random c) db =
     lift_http Re_Response (\<lambda>t. db\<lparr> db_dad := t \<rparr>) (post_dad_random_endpoint (ev_faults ev) (ev_pick ev) c (db_dad db))"
| "core_api ev (Rq_Dad_Add c x) db =
     lift_http Re_Dad (\<lambda>t. db\<lparr> db_dad := t \<rparr>) (post_dad_add_endpoint (ev_faults ev) c x (db_dad db))"
| "core_api ev (Rq_Dad_Remove c i) db =
     lift_http (\<lambda>_. Re_Done) (\<lambda>t. db\<lparr> db_dad := t \<rparr>) (post_dad_remove_endpoint (ev_faults ev) c i (db_dad db))"
| "core_api ev (Rq_Dad_Usage b) db =
     lift_http Re_Usage (\<lambda>t. db\<lparr> db_usage := t \<rparr>) (post_dad_usage_endpoint (ev_faults ev) b (db_users db) (db_usage db))"
| "core_api ev (Rq_Dad_Increment b u) db =
     lift_http (\<lambda>_. Re_Done) (\<lambda>t. db\<lparr> db_usage := t \<rparr>) (post_dad_increment_endpoint (ev_faults ev) b u (db_users db) (db_usage db))"
| "core_api ev (Rq_Channel_Commands b) db =
     lift_http (\<lambda>(cs, caps). Re_Channel_Commands cs caps) (\<lambda>t. db\<lparr> db_commands := t \<rparr>)
       (get_channel_commands_endpoint (ev_faults ev)
          (has_active_device (ev_relay_faults ev) (ev_overlay_users ev) b (db_devices db)) b (db_commands db))"
| "core_api ev (Rq_Auto_Shouters b) db =
     lift_http Re_Chatters (\<lambda>t. db\<lparr> db_shouts := t \<rparr>) (get_auto_shout_endpoint (ev_faults ev) b (db_users db) (db_shouts db))"
| "core_api ev (Rq_Auto_Shout_Increment b u) db =
     lift_http (\<lambda>_. Re_Done) (\<lambda>t. db\<lparr> db_shouts := t \<rparr>)
       (post_auto_shout_increment_endpoint (ev_faults ev) (ev_now ev) b u (db_users db) (db_shouts db))"
| "core_api ev (Rq_Promo_Create c b m n) db =
     lift_http Re_Promo (\<lambda>t. db\<lparr> db_promos := t \<rparr>) (post_promo_create_endpoint (ev_faults ev) (ev_now ev) c b m n (db_promos db))"
| "core_api ev Rq_Promos db =
     lift_http Re_Promos (\<lambda>t. db\<lparr> db_promos := t \<rparr>) (get_promos_for_bot_endpoint (ev_faults ev) (db_promos db))"
| "core_api ev (Rq_Promo_Edit_Last c m n) db =
     lift_http Re_Found (\<lambda>t. db\<lparr> db_promos := t \<rparr>) (post_promo_edit_last_endpoint (ev_faults ev) (ev_now ev) c m n (db_promos db))"
| "core_api ev (Rq_Promo_Delete_Last c) db =
     lift_http Re_Found (\<lambda>t. db\<lparr> db_promos := t \<rparr>) (post_promo_delete_last_endpoint (ev_faults ev) c (db_promos db))"
| "core_api ev (Rq_Stalk_Target c) db =
     lift_http (\<lambda>(t, l, f). Re_Stalk t l f) (\<lambda>t. db\<lparr> db_stalks := t \<rparr>) (get_stalk_endpoint (ev_faults ev) c (db_stalks db))"
| "core_api ev (Rq_Stalk_Set c t b) db =
     lift_http (\<lambda>_. Re_Done) (\<lambda>t. db\<lparr> db_stalks := t \<rparr>) (post_stalk_set_endpoint (ev_faults ev) c t b (db_stalks db))"
| "core_api ev (Rq_Stalk_Clear c) db =
     lift_http Re_Found (\<lambda>t. db\<lparr> db_stalks := t \<rparr>) (post_stalk_clear_endpoint (ev_faults ev) c (db_stalks db))"
| "core_api ev (Rq_Stalk_Last_Message c t m) db =
     lift_http Re_Found (\<lambda>t. db\<lparr> db_stalks := t \<rparr>) (post_stalk_last_message_endpoint (ev_faults ev) c t m (db_stalks db))"
| "core_api ev (Rq_Dispatch r) db = core_dispatch ev r db"
| "core_api ev Rq_Global_Commands db =
     lift_http Re_Commands (\<lambda>t. db\<lparr> db_commands := t \<rparr>) (get_commands_endpoint (ev_faults ev) (db_commands db))"

text \<open>The answer in JSON; \<open>created\<close> and \<open>text_of\<close> print the times. The bodies that the
  client does not read are left out.\<close>

fun reply_json :: "string \<Rightarrow> (int \<Rightarrow> string) \<Rightarrow> bot_reply \<Rightarrow> json option" where
  "reply_json created text_of Re_Done = None"
| "reply_json created text_of (Re_User _) = None"
| "reply_json created text_of (Re_Dad _) = None"
| "reply_json created text_of (Re_Promo _) = None"
| "reply_json created text_of (Re_Users us) = Some (J_Obj [(''channels'', J_Arr (map (user_json created) us))])"
| "reply_json created text_of (Re_Opted_In b) = Some (J_Obj [(''opted_in'', J_Bool b)])"
| "reply_json created text_of (Re_Count n) = Some (J_Obj [(''count'', J_Int n)])"
| "reply_json created text_of (Re_Total n) = Some (J_Obj [(''total'', J_Int n)])"
| "reply_json created text_of (Re_Message s) = Some (J_Obj [(''message'', J_Str s)])"
| "reply_json created text_of (Re_Response s) = Some (J_Obj [(''response'', J_Str s)])"
| "reply_json created text_of (Re_Usage us) = Some (J_Obj (map (\<lambda>(k, n). (k, J_Int n)) us))"
| "reply_json created text_of (Re_Commands cs) = Some (J_Obj [(''commands'', J_Arr (map command_json cs))])"
| "reply_json created text_of (Re_Channel_Commands cs caps) =
     Some (J_Obj [(''capabilities'', J_Arr (map J_Str caps)), (''commands'', J_Arr (map command_json cs))])"
| "reply_json created text_of (Re_Chatters cs) = Some (J_Arr (map J_Str cs))"
| "reply_json created text_of (Re_Promos ps) = Some (J_Obj [(''promos'', J_Arr (map (promo_json text_of) ps))])"
| "reply_json created text_of (Re_Found b) = Some (J_Obj [(''found'', J_Bool b)])"
| "reply_json created text_of (Re_Stalk t l f) =
     Some (J_Obj [(''found'', J_Bool f), (''last_message'', J_Str l), (''target'', J_Str t)])"
| "reply_json created text_of (Re_Delivered b) = Some (J_Obj [(''delivered'', J_Bool b)])"

definition status_of :: "string \<Rightarrow> (int \<Rightarrow> string) \<Rightarrow> bot_reply http \<Rightarrow> int \<times> json option" where
  "status_of created text_of r =
     (case r of
        Http_Ok x \<Rightarrow> (if reply_json created text_of x = None then 204 else 200, reply_json created text_of x)
      | Http_Bad_Request \<Rightarrow> (400, None)
      | Http_Server_Error \<Rightarrow> (500, None))"

section \<open>Routing\<close>

text \<open>
  What the code relies on of Echo's router: a route without a parameter answers its own path, and a path that
  only fits one route with a trailing parameter goes to that route with the parameter's value.
\<close>

type_synonym router = "route list \<Rightarrow> string \<Rightarrow> string \<Rightarrow> (route \<times> string) option"

definition param_prefix :: "string \<Rightarrow> string option" where
  "param_prefix pat =
     (if CHR '':'' \<in> set pat \<and> CHR ''/'' \<notin> set (dropWhile (\<lambda>c. c \<noteq> CHR '':'') pat)
      then Some (takeWhile (\<lambda>c. c \<noteq> CHR '':'') pat) else None)"

definition fixed_route :: "route list \<Rightarrow> string \<Rightarrow> string \<Rightarrow> route option" where
  "fixed_route rs m p = find (\<lambda>r. rt_method r = m \<and> CHR '':'' \<notin> set (rt_path r) \<and> rt_path r = p) rs"

definition param_routes :: "route list \<Rightarrow> string \<Rightarrow> string \<Rightarrow> (route \<times> string) list" where
  "param_routes rs m p =
     concat (map (\<lambda>r. case param_prefix (rt_path r) of
         None \<Rightarrow> []
       | Some pre \<Rightarrow>
           if rt_method r = m \<and> has_prefix pre p \<and> drop (length pre) p \<noteq> [] \<and> CHR ''/'' \<notin> set (drop (length pre) p)
           then [(r, drop (length pre) p)] else []) rs)"

definition echo_router :: "router \<Rightarrow> bool" where
  "echo_router router \<longleftrightarrow>
     (\<forall>rs m p r. fixed_route rs m p = Some r \<longrightarrow> router rs m p = Some (r, [])) \<and>
     (\<forall>rs m p x. fixed_route rs m p = None \<longrightarrow> param_routes rs m p = [x] \<longrightarrow> router rs m p = Some x)"

text \<open>
  \<open>admitted\<close> is the verdict of the guards, \<open>others\<close> stands for the endpoints that the bot does not call.
  A path that nobody registered is not found.
\<close>

definition serve_bot ::
  "router \<Rightarrow> (endpoint \<Rightarrow> string \<Rightarrow> http_request \<Rightarrow> core_db \<Rightarrow> (int \<times> json option) \<times> core_db) \<Rightarrow> (guard \<Rightarrow> http_request \<Rightarrow> bool) \<Rightarrow> string \<Rightarrow> (int \<Rightarrow> string) \<Rightarrow> core_env \<Rightarrow> http_request \<Rightarrow> core_db
     \<Rightarrow> (int \<times> json option) \<times> core_db" where
  "serve_bot router others admitted created text_of ev q db =
     (let answer = (\<lambda>rq. case core_api ev rq db of (r, db') \<Rightarrow> (status_of created text_of r, db'))
      in case router register_routes (hq_method q) (hq_path q) of
           None \<Rightarrow> ((404, None), db)
         | Some (r, p) \<Rightarrow>
             if \<not> admitted (rt_guard r) q then ((401, None), db)
             else case rt_endpoint r of
               Bot e \<Rightarrow> (case bind_request e p q of None \<Rightarrow> ((400, None), db) | Some rq \<Rightarrow> answer rq)
             | Entry Ep_Get_Commands \<Rightarrow> answer Rq_Global_Commands
             | e \<Rightarrow> others e p q db)"

text \<open>The network between the bot and the server.\<close>

definition over :: "network \<Rightarrow> (http_request \<Rightarrow> 's \<Rightarrow> (int \<times> json option) \<times> 's) \<Rightarrow> 's wire" where
  "over net f q s =
     (case net of
        Request_Lost \<Rightarrow> (None, s)
      | Answer_Lost \<Rightarrow> (None, snd (f q s))
      | Net_Ok \<Rightarrow> (case f q s of (a, s') \<Rightarrow> (Some a, s')))"

end
