(* ===== verification/Client_Properties.thy ===== *)
theory Client_Properties
  imports Core_Api
begin

text \<open>
  The bot and core-api agree: the request of every method of the client reaches the endpoint it is meant
  for, under the guard the client can pass, is bound to the arguments the bot gave, and the answer is read
  as the endpoint gave it. A call is then the endpoint over the network, which is how the other theories
  use it.
\<close>

section \<open>Calls\<close>

datatype client_call =
    C_Create_New_User user | C_Heal_Legacy_User user | C_Push_State "string option" bool | C_Opt_Out_User string
  | C_Is_Channel_Opted_In string | C_Get_Active_Channels | C_Get_Global_Enabled_Commands | C_Get_Channel_Commands string
  | C_Dispatch_Overlay_Command dispatch_request | C_Create_Promo string string string int | C_Get_Active_Promos
  | C_Edit_Last_Promo string string int | C_Delete_Last_Promo string | C_Get_Stalk_Target string
  | C_Set_Stalk_Target string string string | C_Clear_Stalk_Target string | C_Set_Stalk_Last_Message string string string
  | C_Increment_Bread string string | C_Get_Bread_Total string | C_Increment_Auto_Shout_Count int string
  | C_Get_Auto_Shout_Chatters string | C_Lurk_On_Message string string | C_Go_Fishing string string | C_Dad_Random string
  | C_Dad_Add string string | C_Dad_Remove string int | C_Get_Dad_Usage int | C_Increment_Dad_Roll int string

text \<open>A call of the client, its result as a reply.\<close>

definition via :: "('a \<Rightarrow> bot_reply) \<Rightarrow> 'a option \<times> 's \<Rightarrow> bot_reply option \<times> 's" where
  "via f r = (map_option f (fst r), snd r)"

fun perform :: "'s wire \<Rightarrow> string \<Rightarrow> (string \<Rightarrow> int option) \<Rightarrow> client_call \<Rightarrow> 's \<Rightarrow> bot_reply option \<times> 's" where
  "perform send created time_of (C_Create_New_User u) s = via (\<lambda>_. Re_Done) (client_create_new_user send created u s)"
| "perform send created time_of (C_Heal_Legacy_User u) s = via (\<lambda>_. Re_Done) (client_heal_legacy_user send created u s)"
| "perform send created time_of (C_Push_State l b) s = via (\<lambda>_. Re_Done) (client_push_state send l b s)"
| "perform send created time_of (C_Opt_Out_User l) s = via (\<lambda>_. Re_Done) (client_opt_out_user send l s)"
| "perform send created time_of (C_Is_Channel_Opted_In l) s = via Re_Opted_In (client_is_channel_opted_in send l s)"
| "perform send created time_of C_Get_Active_Channels s = via Re_Users (client_get_active_channels send s)"
| "perform send created time_of C_Get_Global_Enabled_Commands s = via Re_Commands (client_get_global_enabled_commands send s)"
| "perform send created time_of (C_Get_Channel_Commands b) s =
     via (\<lambda>(cs, caps). Re_Channel_Commands cs caps) (client_get_channel_commands send b s)"
| "perform send created time_of (C_Dispatch_Overlay_Command r) s = via Re_Delivered (client_dispatch_overlay_command send r s)"
| "perform send created time_of (C_Create_Promo c b m n) s = via (\<lambda>_. Re_Done) (client_create_promo send c b m n s)"
| "perform send created time_of C_Get_Active_Promos s = via Re_Promos (client_get_active_promos send time_of s)"
| "perform send created time_of (C_Edit_Last_Promo c m n) s = via Re_Found (client_edit_last_promo send c m n s)"
| "perform send created time_of (C_Delete_Last_Promo c) s = via Re_Found (client_delete_last_promo send c s)"
| "perform send created time_of (C_Get_Stalk_Target c) s = via (\<lambda>(t, l, f). Re_Stalk t l f) (client_get_stalk_target send c s)"
| "perform send created time_of (C_Set_Stalk_Target c t b) s = via (\<lambda>_. Re_Done) (client_set_stalk_target send c t b s)"
| "perform send created time_of (C_Clear_Stalk_Target c) s = via Re_Found (client_clear_stalk_target send c s)"
| "perform send created time_of (C_Set_Stalk_Last_Message c t m) s = via (\<lambda>_. Re_Done) (client_set_stalk_last_message send c t m s)"
| "perform send created time_of (C_Increment_Bread c u) s = via Re_Count (client_increment_bread send c u s)"
| "perform send created time_of (C_Get_Bread_Total c) s = via Re_Total (client_get_bread_total send c s)"
| "perform send created time_of (C_Increment_Auto_Shout_Count b u) s = via (\<lambda>_. Re_Done) (client_increment_auto_shout_count send b u s)"
| "perform send created time_of (C_Get_Auto_Shout_Chatters b) s = via Re_Chatters (client_get_auto_shout_chatters send b s)"
| "perform send created time_of (C_Lurk_On_Message c u) s = (case client_lurk_on_message send c u s of (n, s') \<Rightarrow> (Some (Re_Count n), s'))"
| "perform send created time_of (C_Go_Fishing c u) s = via Re_Message (client_go_fishing send c u s)"
| "perform send created time_of (C_Dad_Random c) s = via Re_Response (client_dad_random send c s)"
| "perform send created time_of (C_Dad_Add c x) s = via (\<lambda>_. Re_Done) (client_dad_add send c x s)"
| "perform send created time_of (C_Dad_Remove c i) s = via (\<lambda>_. Re_Done) (client_dad_remove send c i s)"
| "perform send created time_of (C_Get_Dad_Usage b) s = via Re_Usage (client_get_dad_usage send b s)"
| "perform send created time_of (C_Increment_Dad_Roll b u) s = via (\<lambda>_. Re_Done) (client_increment_dad_roll send b u s)"

text \<open>What each call asks for, and what it makes of the result: calls without a result only tell success.\<close>

fun request_of :: "client_call \<Rightarrow> bot_request" where
  "request_of (C_Create_New_User u) = Rq_New_User u"
| "request_of (C_Heal_Legacy_User u) = Rq_Heal_Legacy_User u"
| "request_of (C_Push_State l b) = Rq_Channel_State l b"
| "request_of (C_Opt_Out_User l) = Rq_Opt_Out (Some l)"
| "request_of (C_Is_Channel_Opted_In l) = Rq_Opt_In_Check (Some l)"
| "request_of C_Get_Active_Channels = Rq_Active_Channels"
| "request_of C_Get_Global_Enabled_Commands = Rq_Global_Commands"
| "request_of (C_Get_Channel_Commands b) = Rq_Channel_Commands b"
| "request_of (C_Dispatch_Overlay_Command r) = Rq_Dispatch r"
| "request_of (C_Create_Promo c b m n) = Rq_Promo_Create c b m n"
| "request_of C_Get_Active_Promos = Rq_Promos"
| "request_of (C_Edit_Last_Promo c m n) = Rq_Promo_Edit_Last c m n"
| "request_of (C_Delete_Last_Promo c) = Rq_Promo_Delete_Last c"
| "request_of (C_Get_Stalk_Target c) = Rq_Stalk_Target c"
| "request_of (C_Set_Stalk_Target c t b) = Rq_Stalk_Set c t b"
| "request_of (C_Clear_Stalk_Target c) = Rq_Stalk_Clear c"
| "request_of (C_Set_Stalk_Last_Message c t m) = Rq_Stalk_Last_Message c t m"
| "request_of (C_Increment_Bread c u) = Rq_Bread_Increment c u"
| "request_of (C_Get_Bread_Total c) = Rq_Bread_Total c"
| "request_of (C_Increment_Auto_Shout_Count b u) = Rq_Auto_Shout_Increment b u"
| "request_of (C_Get_Auto_Shout_Chatters b) = Rq_Auto_Shouters b"
| "request_of (C_Lurk_On_Message c u) = Rq_Lurk_Message c u"
| "request_of (C_Go_Fishing c u) = Rq_Fish_Go c u"
| "request_of (C_Dad_Random c) = Rq_Dad_Random c"
| "request_of (C_Dad_Add c x) = Rq_Dad_Add c x"
| "request_of (C_Dad_Remove c i) = Rq_Dad_Remove c i"
| "request_of (C_Get_Dad_Usage b) = Rq_Dad_Usage b"
| "request_of (C_Increment_Dad_Roll b u) = Rq_Dad_Increment b u"

fun outcome :: "client_call \<Rightarrow> bot_reply option \<Rightarrow> bot_reply option" where
  "outcome (C_Lurk_On_Message _ _) r = (case r of None \<Rightarrow> Some (Re_Count 0) | Some x \<Rightarrow> Some x)"
| "outcome (C_Heal_Legacy_User _) r = map_option (\<lambda>_. Re_Done) r"
| "outcome (C_Create_Promo _ _ _ _) r = map_option (\<lambda>_. Re_Done) r"
| "outcome (C_Set_Stalk_Last_Message _ _ _) r = map_option (\<lambda>_. Re_Done) r"
| "outcome (C_Dad_Add _ _) r = map_option (\<lambda>_. Re_Done) r"
| "outcome _ r = r"

text \<open>Numbers within the range of Go's \<^verbatim>\<open>int\<close>, and Twitch ids in digits where they are part of a path.\<close>

fun call_ok :: "client_call \<Rightarrow> bool" where
  "call_ok (C_Create_New_User u) = in_int64 (us_id u)"
| "call_ok (C_Heal_Legacy_User u) = in_int64 (us_id u)"
| "call_ok (C_Get_Channel_Commands b) = is_id b"
| "call_ok (C_Get_Auto_Shout_Chatters b) = is_id b"
| "call_ok (C_Create_Promo _ _ _ n) = in_int64 n"
| "call_ok (C_Edit_Last_Promo _ _ n) = in_int64 n"
| "call_ok (C_Increment_Auto_Shout_Count b _) = in_int64 b"
| "call_ok (C_Dad_Remove _ i) = in_int64 i"
| "call_ok (C_Get_Dad_Usage b) = in_int64 b"
| "call_ok (C_Increment_Dad_Roll b _) = in_int64 b"
| "call_ok _ = True"

fun fits :: "bot_reply \<Rightarrow> bool" where
  "fits (Re_Users us) = (\<forall>u \<in> set us. in_int64 (us_id u))"
| "fits (Re_Count n) = in_int64 n"
| "fits (Re_Total n) = in_int64 n"
| "fits (Re_Usage us) = (\<forall>(k, n) \<in> set us. in_int64 n)"
| "fits (Re_Promos ps) = (\<forall>p \<in> set ps. in_int64 (pr_id p) \<and> in_int64 (pr_interval p))"
| "fits _ = True"

definition answer_fits :: "core_env \<Rightarrow> bot_request \<Rightarrow> core_db \<Rightarrow> bool" where
  "answer_fits ev rq db \<longleftrightarrow> (\<forall>x db'. core_api ev rq db = (Http_Ok x, db') \<longrightarrow> fits x)"

lemma answer_fits_D: "core_api ev rq db = (Http_Ok x, db') \<Longrightarrow> answer_fits ev rq db \<Longrightarrow> fits x"
  by (simp add: answer_fits_def)

section \<open>Records survive the wire\<close>

lemmas fold_defs = equal_fold_def to_lower_def lower_char_def code_of_def
lemmas field_defs = json_struct_def json_string_def json_int_def json_bool_def

lemma user_roundtrip: "in_int64 (us_id u) \<Longrightarrow> user_of_json (user_json created u) = Some u"
  by (cases u) (simp add: user_of_json_def user_json_def fold_defs field_defs)

lemma command_roundtrip: "command_of_json (command_json r) = Some r"
  by (cases r) (simp add: command_of_json_def command_json_def fold_defs field_defs)

lemma promo_roundtrip:
  "in_int64 (pr_id p) \<Longrightarrow> in_int64 (pr_interval p) \<Longrightarrow> time_of (text_of (pr_updated p)) = Some (pr_updated p) \<Longrightarrow>
     promo_of_json time_of (promo_json text_of p) = Some p"
  by (cases p) (simp add: promo_of_json_def promo_json_def fold_defs field_defs)

lemma strings_roundtrip: "json_list json_string (J_Arr (map J_Str xs)) = Some xs"
  by (rule json_list_map) (simp add: json_string_def)

lemma dispatch_roundtrip: "dispatch_of_json (Some (dispatch_json r)) = Some r"
proof -
  have "json_list json_string J_Null = Some []" by (simp add: json_list_def)
  then show ?thesis
    by (cases r; cases "dr_args r = []"; cases "dr_user_id r = []")
      (simp_all add: dispatch_of_json_def dispatch_json_def bind_field_def out_field_def strings_roundtrip [simplified] fold_defs field_defs)
qed

lemma usage_roundtrip: "\<forall>(k, n) \<in> set us. in_int64 n \<Longrightarrow> json_usage (J_Obj (map (\<lambda>(k, n). (k, J_Int n)) us)) = Some us"
proof -
  assume ok: "\<forall>(k, n) \<in> set us. in_int64 n"
  have "map snd (map (\<lambda>(k, n). (k, J_Int n)) us) = map J_Int (map snd us)" by (induction us) auto
  moreover have "json_all json_int (map J_Int (map snd us)) = Some (map snd us)"
    using ok by (intro json_all_map) (auto simp: json_int_def)
  moreover have "map fst (map (\<lambda>(k, n). (k, J_Int n)) us) = map fst us" by (induction us) auto
  ultimately show ?thesis by (simp only: json_usage_def json.case option.case zip_map_fst_snd)
qed

section \<open>Every request finds its endpoint\<close>

definition reaches :: "router \<Rightarrow> (guard \<Rightarrow> http_request \<Rightarrow> bool) \<Rightarrow> http_request \<Rightarrow> bot_request \<Rightarrow> bool" where
  "reaches router admitted q rq \<longleftrightarrow>
     (\<exists>r p. router register_routes (hq_method q) (hq_path q) = Some (r, p) \<and> admitted (rt_guard r) q \<and>
        ((\<exists>e. rt_endpoint r = Bot e \<and> bind_request e p q = Some rq) \<or>
         rt_endpoint r = Entry Ep_Get_Commands \<and> rq = Rq_Global_Commands))"

lemma routed:
  "fixed_route register_routes ''GET'' path_get_global_enabled_commands = Some \<lparr> rt_method = ''GET'', rt_path = path_get_global_enabled_commands, rt_endpoint = Entry Ep_Get_Commands, rt_guard = Open_Route \<rparr>"
  "fixed_route register_routes ''GET'' path_get_active_channels = Some \<lparr> rt_method = ''GET'', rt_path = path_get_active_channels, rt_endpoint = Bot Ep_Bot_Get_Active_Channels, rt_guard = Hmac_Guard \<rparr>"
  "fixed_route register_routes ''POST'' path_post_heal_legacy_user = Some \<lparr> rt_method = ''POST'', rt_path = path_post_heal_legacy_user, rt_endpoint = Bot Ep_Bot_Post_Heal_Legacy_User, rt_guard = Hmac_Guard \<rparr>"
  "fixed_route register_routes ''POST'' path_post_bot_bread_increment = Some \<lparr> rt_method = ''POST'', rt_path = path_post_bot_bread_increment, rt_endpoint = Bot Ep_Bot_Post_Bread_Increment, rt_guard = Hmac_Guard \<rparr>"
  "fixed_route register_routes ''GET'' path_get_bot_bread_total = Some \<lparr> rt_method = ''GET'', rt_path = path_get_bot_bread_total, rt_endpoint = Bot Ep_Bot_Get_Bread_Total, rt_guard = Hmac_Guard \<rparr>"
  "fixed_route register_routes ''POST'' path_post_bot_lurk_message = Some \<lparr> rt_method = ''POST'', rt_path = path_post_bot_lurk_message, rt_endpoint = Bot Ep_Bot_Post_Lurk_Message, rt_guard = Hmac_Guard \<rparr>"
  "fixed_route register_routes ''POST'' path_post_bot_fish_go = Some \<lparr> rt_method = ''POST'', rt_path = path_post_bot_fish_go, rt_endpoint = Bot Ep_Bot_Post_Fish_Go, rt_guard = Hmac_Guard \<rparr>"
  "fixed_route register_routes ''PUT'' path_put_broadcaster_state = Some \<lparr> rt_method = ''PUT'', rt_path = path_put_broadcaster_state, rt_endpoint = Bot Ep_Bot_Put_Channel_State, rt_guard = Hmac_Guard \<rparr>"
  "fixed_route register_routes ''POST'' path_post_bot_opt_out = Some \<lparr> rt_method = ''POST'', rt_path = path_post_bot_opt_out, rt_endpoint = Bot Ep_Bot_Post_Opt_Out, rt_guard = Hmac_Guard \<rparr>"
  "fixed_route register_routes ''POST'' path_post_bot_opt_in_check = Some \<lparr> rt_method = ''POST'', rt_path = path_post_bot_opt_in_check, rt_endpoint = Bot Ep_Bot_Post_Opt_In_Check, rt_guard = Hmac_Guard \<rparr>"
  "fixed_route register_routes ''PUT'' path_put_create_new_user = Some \<lparr> rt_method = ''PUT'', rt_path = path_put_create_new_user, rt_endpoint = Bot Ep_Bot_Put_New_User, rt_guard = Hmac_Guard \<rparr>"
  "fixed_route register_routes ''POST'' path_post_bot_dad_random = Some \<lparr> rt_method = ''POST'', rt_path = path_post_bot_dad_random, rt_endpoint = Bot Ep_Bot_Post_Dad_Random, rt_guard = Hmac_Guard \<rparr>"
  "fixed_route register_routes ''POST'' path_post_bot_dad_add = Some \<lparr> rt_method = ''POST'', rt_path = path_post_bot_dad_add, rt_endpoint = Bot Ep_Bot_Post_Dad_Add, rt_guard = Hmac_Guard \<rparr>"
  "fixed_route register_routes ''POST'' path_post_bot_dad_remove = Some \<lparr> rt_method = ''POST'', rt_path = path_post_bot_dad_remove, rt_endpoint = Bot Ep_Bot_Post_Dad_Remove, rt_guard = Hmac_Guard \<rparr>"
  "fixed_route register_routes ''POST'' path_post_bot_dad_usage = Some \<lparr> rt_method = ''POST'', rt_path = path_post_bot_dad_usage, rt_endpoint = Bot Ep_Bot_Post_Dad_Usage, rt_guard = Hmac_Guard \<rparr>"
  "fixed_route register_routes ''POST'' path_post_bot_dad_increment = Some \<lparr> rt_method = ''POST'', rt_path = path_post_bot_dad_increment, rt_endpoint = Bot Ep_Bot_Post_Dad_Increment, rt_guard = Hmac_Guard \<rparr>"
  "fixed_route register_routes ''POST'' path_post_bot_auto_shout_increment = Some \<lparr> rt_method = ''POST'', rt_path = path_post_bot_auto_shout_increment, rt_endpoint = Bot Ep_Bot_Post_Auto_Shout_Increment, rt_guard = Hmac_Guard \<rparr>"
  "fixed_route register_routes ''POST'' path_post_bot_promo_create = Some \<lparr> rt_method = ''POST'', rt_path = path_post_bot_promo_create, rt_endpoint = Bot Ep_Bot_Post_Promo_Create, rt_guard = Hmac_Guard \<rparr>"
  "fixed_route register_routes ''GET'' path_get_bot_promos = Some \<lparr> rt_method = ''GET'', rt_path = path_get_bot_promos, rt_endpoint = Bot Ep_Bot_Get_Promos_For_Bot, rt_guard = Hmac_Guard \<rparr>"
  "fixed_route register_routes ''POST'' path_post_bot_promo_edit_last = Some \<lparr> rt_method = ''POST'', rt_path = path_post_bot_promo_edit_last, rt_endpoint = Bot Ep_Bot_Post_Promo_Edit_Last, rt_guard = Hmac_Guard \<rparr>"
  "fixed_route register_routes ''POST'' path_post_bot_promo_delete_last = Some \<lparr> rt_method = ''POST'', rt_path = path_post_bot_promo_delete_last, rt_endpoint = Bot Ep_Bot_Post_Promo_Delete_Last, rt_guard = Hmac_Guard \<rparr>"
  "fixed_route register_routes ''GET'' path_get_bot_stalk_target = Some \<lparr> rt_method = ''GET'', rt_path = path_get_bot_stalk_target, rt_endpoint = Bot Ep_Bot_Get_Stalk_Target, rt_guard = Hmac_Guard \<rparr>"
  "fixed_route register_routes ''POST'' path_post_bot_stalk_set = Some \<lparr> rt_method = ''POST'', rt_path = path_post_bot_stalk_set, rt_endpoint = Bot Ep_Bot_Post_Stalk_Set, rt_guard = Hmac_Guard \<rparr>"
  "fixed_route register_routes ''POST'' path_post_bot_stalk_clear = Some \<lparr> rt_method = ''POST'', rt_path = path_post_bot_stalk_clear, rt_endpoint = Bot Ep_Bot_Post_Stalk_Clear, rt_guard = Hmac_Guard \<rparr>"
  "fixed_route register_routes ''POST'' path_post_bot_stalk_last_message = Some \<lparr> rt_method = ''POST'', rt_path = path_post_bot_stalk_last_message, rt_endpoint = Bot Ep_Bot_Post_Stalk_Last_Message, rt_guard = Hmac_Guard \<rparr>"
  "fixed_route register_routes ''POST'' path_post_bot_overlay_dispatch = Some \<lparr> rt_method = ''POST'', rt_path = path_post_bot_overlay_dispatch, rt_endpoint = Bot Ep_Overlay_Dispatch, rt_guard = Hmac_Guard \<rparr>"
  by code_simp+

lemma no_fixed:
  assumes "is_id b"
  shows "fixed_route register_routes ''GET'' (''/bot/commands/'' @ b) = None"
    and "fixed_route register_routes ''GET'' (''/bot/autoshout/'' @ b) = None"
  by (simp_all add: fixed_route_def route_defs)

lemma id_no_slash: "is_id b \<Longrightarrow> CHR ''/'' \<notin> set b"
  by (auto simp: is_id_def code_of_def)

lemma param_routed:
  assumes "is_id b"
  shows "param_routes register_routes ''GET'' (''/bot/commands/'' @ b) =
      [(\<lparr> rt_method = ''GET'', rt_path = path_get_bot_channel_commands, rt_endpoint = Bot Ep_Bot_Get_Channel_Commands, rt_guard = Hmac_Guard \<rparr>, b)]"
    and "param_routes register_routes ''GET'' (''/bot/autoshout/'' @ b) =
      [(\<lparr> rt_method = ''GET'', rt_path = path_get_bot_auto_shouters, rt_endpoint = Bot Ep_Bot_Get_Auto_Shout_Chatters, rt_guard = Hmac_Guard \<rparr>, b)]"
proof -
  have "b \<noteq> []" and "CHR ''/'' \<notin> set b" using assms id_no_slash by (auto simp: is_id_def)
  then show "param_routes register_routes ''GET'' (''/bot/commands/'' @ b) =
      [(\<lparr> rt_method = ''GET'', rt_path = path_get_bot_channel_commands, rt_endpoint = Bot Ep_Bot_Get_Channel_Commands, rt_guard = Hmac_Guard \<rparr>, b)]"
    and "param_routes register_routes ''GET'' (''/bot/autoshout/'' @ b) =
      [(\<lparr> rt_method = ''GET'', rt_path = path_get_bot_auto_shouters, rt_endpoint = Bot Ep_Bot_Get_Auto_Shout_Chatters, rt_guard = Hmac_Guard \<rparr>, b)]"
    by (simp_all add: param_routes_def route_defs param_prefix_def has_prefix_def)
qed

lemma replaced:
  "replace_once '':bid'' x path_get_bot_channel_commands = ''/bot/commands/'' @ x"
  "replace_once '':bid'' x path_get_bot_auto_shouters = ''/bot/autoshout/'' @ x"
  by (simp_all add: route_defs has_prefix_def)

lemma reaches_fixed:
  assumes "echo_router router" and "\<And>g q. g \<noteq> Session_Guard \<Longrightarrow> admitted g q"
    and "fixed_route register_routes (hq_method q) (hq_path q) = Some r" and "rt_guard r \<noteq> Session_Guard"
    and "(\<exists>e. rt_endpoint r = Bot e \<and> bind_request e [] q = Some rq) \<or> rt_endpoint r = Entry Ep_Get_Commands \<and> rq = Rq_Global_Commands"
  shows "reaches router admitted q rq"
  using assms unfolding reaches_def echo_router_def by blast

lemma reaches_param:
  assumes "echo_router router" and "\<And>g q. g \<noteq> Session_Guard \<Longrightarrow> admitted g q"
    and "fixed_route register_routes (hq_method q) (hq_path q) = None"
    and "param_routes register_routes (hq_method q) (hq_path q) = [(r, p)]" and "rt_guard r \<noteq> Session_Guard"
    and "rt_endpoint r = Bot e" and "bind_request e p q = Some rq"
  shows "reaches router admitted q rq"
  using assms unfolding reaches_def echo_router_def by blast

section \<open>One call\<close>

lemma over_serve:
  assumes "reaches router admitted q rq"
  shows "client_do (over net (serve_bot router others admitted created text_of ev)) q db =
    (case api_call net (core_api ev rq) db of (r, db') \<Rightarrow> (map_option (reply_json created text_of) r, db'))"
proof -
  have "serve_bot router others admitted created text_of ev q db =
      (case core_api ev rq db of (r, db') \<Rightarrow> (status_of created text_of r, db'))"
    using assms by (auto simp: reaches_def serve_bot_def split: prod.splits)
  then show ?thesis
    by (cases net; cases "core_api ev rq db"; cases "fst (core_api ev rq db)")
      (auto simp: client_do_def over_def api_call_def status_of_def)
qed

lemma unit_call:
  assumes "reaches router admitted q rq"
  shows "via (\<lambda>_. Re_Done) (call_unit (over net (serve_bot router others admitted created text_of ev)) q db) =
    (case api_call net (core_api ev rq) db of (r, db') \<Rightarrow> (map_option (\<lambda>_. Re_Done) r, db'))"
  unfolding call_unit_def over_serve [OF assms] by (auto simp: via_def option.map_comp comp_def split: prod.splits)

lemma json_call:
  assumes "reaches router admitted q rq"
    and "\<And>x db'. core_api ev rq db = (Http_Ok x, db') \<Longrightarrow> \<exists>j y. reply_json created text_of x = Some j \<and> dec j = Some y \<and> f y = x"
  shows "via f (call_json dec (over net (serve_bot router others admitted created text_of ev)) q db) = api_call net (core_api ev rq) db"
proof (cases "api_call net (core_api ev rq) db")
  case (Pair r db')
  show ?thesis
  proof (cases r)
    case None
    then show ?thesis unfolding call_json_def over_serve [OF assms(1)] using Pair by (simp add: via_def)
  next
    case (Some x)
    then have "core_api ev rq db = (Http_Ok x, db')" using Pair api_call_Some by metis
    then obtain j y where "reply_json created text_of x = Some j" "dec j = Some y" "f y = x" using assms(2) by blast
    then show ?thesis unfolding call_json_def over_serve [OF assms(1)] using Pair Some by (simp add: via_def)
  qed
qed

lemma lift_http_Ok: "lift_http f put r = (Http_Ok x, db') \<longleftrightarrow> (\<exists>y t. r = (Http_Ok y, t) \<and> x = f y \<and> db' = put t)"
  by (auto simp: lift_http_def split: prod.splits http.splits)

lemma unit_call_done:
  assumes "reaches router admitted q rq" and "\<And>x db'. core_api ev rq db = (Http_Ok x, db') \<Longrightarrow> x = Re_Done"
  shows "via (\<lambda>_. Re_Done) (call_unit (over net (serve_bot router others admitted created text_of ev)) q db) = api_call net (core_api ev rq) db"
proof (cases "api_call net (core_api ev rq) db")
  case (Pair r db')
  have "x = Re_Done" if "r = Some x" for x using Pair that assms(2) api_call_Some by metis
  then show ?thesis unfolding unit_call [OF assms(1)] using Pair by (cases r) auto
qed

text \<open>The router and the guards as the bot meets them.\<close>

definition bot_wire :: "router \<Rightarrow> (guard \<Rightarrow> http_request \<Rightarrow> bool) \<Rightarrow> bool" where
  "bot_wire router admitted \<longleftrightarrow> echo_router router \<and> (\<forall>g q. g \<noteq> Session_Guard \<longrightarrow> admitted g q)"

lemma reaches_by_table:
  assumes "bot_wire router admitted"
    and "case fixed_route register_routes (hq_method q) (hq_path q) of
           None \<Rightarrow> False
         | Some r \<Rightarrow> rt_guard r \<noteq> Session_Guard \<and>
             (case rt_endpoint r of
                Bot e \<Rightarrow> bind_request e [] q = Some rq
              | Entry e \<Rightarrow> e = Ep_Get_Commands \<and> rq = Rq_Global_Commands
              | _ \<Rightarrow> False)"
  shows "reaches router admitted q rq"
  using assms by (auto simp: bot_wire_def intro: reaches_fixed split: option.splits endpoint.splits)

lemma reaches_by_param:
  assumes "bot_wire router admitted" and "is_id b"
  shows "reaches router admitted (get_path (''/bot/commands/'' @ b) []) (Rq_Channel_Commands b)"
    and "reaches router admitted (get_path (''/bot/autoshout/'' @ b) []) (Rq_Auto_Shouters b)"
  using assms no_fixed [OF assms(2)] param_routed [OF assms(2)]
  by (auto simp: bot_wire_def get_path_def intro!: reaches_param)

lemmas bind_defs = bind_field_def out_field_def bound_user_def bread_increment_request_def lurk_message_request_def
  fish_go_request_def dad_add_request_def dad_remove_request_def dad_increment_request_def auto_shout_increment_request_def
  channel_state_request_def promo_create_request_def promo_edit_last_request_def stalk_set_request_def
  stalk_last_message_request_def

lemmas call_defs = post_json_def get_path_def routed bind_defs fold_defs field_defs lift_http_Ok

abbreviation served where
  "served router others admitted created text_of ev net \<equiv> over net (serve_bot router others admitted created text_of ev)"

lemma over_create_new_user:
  assumes "bot_wire router admitted" and "in_int64 (us_id u)"
  shows "via (\<lambda>_. Re_Done) (client_create_new_user (served router others admitted created text_of ev net) created' u db) = api_call net (core_api ev (Rq_New_User u)) db"
  unfolding client_create_new_user_def
  by (rule unit_call_done [OF reaches_by_table [OF assms(1)]]) (simp add: call_defs user_roundtrip [OF assms(2)], auto simp: lift_http_Ok)

lemma over_push_state:
  assumes "bot_wire router admitted"
  shows "via (\<lambda>_. Re_Done) (client_push_state (served router others admitted created text_of ev net) login live db) = api_call net (core_api ev (Rq_Channel_State login live)) db"
  unfolding client_push_state_def
  by (rule unit_call_done [OF reaches_by_table [OF assms(1)]]) (simp add: call_defs , auto simp: lift_http_Ok)

lemma over_opt_out_user:
  assumes "bot_wire router admitted"
  shows "via (\<lambda>_. Re_Done) (client_opt_out_user (served router others admitted created text_of ev net) login db) = api_call net (core_api ev (Rq_Opt_Out (Some login))) db"
  unfolding client_opt_out_user_def
  by (rule unit_call_done [OF reaches_by_table [OF assms(1)]]) (simp add: call_defs , auto simp: lift_http_Ok)

lemma over_set_stalk_target:
  assumes "bot_wire router admitted"
  shows "via (\<lambda>_. Re_Done) (client_set_stalk_target (served router others admitted created text_of ev net) c t b db) = api_call net (core_api ev (Rq_Stalk_Set c t b)) db"
  unfolding client_set_stalk_target_def
  by (rule unit_call_done [OF reaches_by_table [OF assms(1)]]) (simp add: call_defs , auto simp: lift_http_Ok)

lemma over_increment_auto_shout_count:
  assumes "bot_wire router admitted" and "in_int64 b"
  shows "via (\<lambda>_. Re_Done) (client_increment_auto_shout_count (served router others admitted created text_of ev net) b u db) = api_call net (core_api ev (Rq_Auto_Shout_Increment b u)) db"
  unfolding client_increment_auto_shout_count_def
  by (rule unit_call_done [OF reaches_by_table [OF assms(1)]]) (simp add: call_defs assms(2), auto simp: lift_http_Ok)

lemma over_dad_remove:
  assumes "bot_wire router admitted" and "in_int64 i"
  shows "via (\<lambda>_. Re_Done) (client_dad_remove (served router others admitted created text_of ev net) c i db) = api_call net (core_api ev (Rq_Dad_Remove c i)) db"
  unfolding client_dad_remove_def
  by (rule unit_call_done [OF reaches_by_table [OF assms(1)]]) (simp add: call_defs assms(2), auto simp: lift_http_Ok)

lemma over_increment_dad_roll:
  assumes "bot_wire router admitted" and "in_int64 b"
  shows "via (\<lambda>_. Re_Done) (client_increment_dad_roll (served router others admitted created text_of ev net) b u db) = api_call net (core_api ev (Rq_Dad_Increment b u)) db"
  unfolding client_increment_dad_roll_def
  by (rule unit_call_done [OF reaches_by_table [OF assms(1)]]) (simp add: call_defs assms(2), auto simp: lift_http_Ok)

lemma over_heal_legacy_user:
  assumes "bot_wire router admitted" and "in_int64 (us_id u)"
  shows "via (\<lambda>_. Re_Done) (client_heal_legacy_user (served router others admitted created text_of ev net) created' u db) =
    (case api_call net (core_api ev (Rq_Heal_Legacy_User u)) db of (r, db') \<Rightarrow> (map_option (\<lambda>_. Re_Done) r, db'))"
  unfolding client_heal_legacy_user_def
  by (rule unit_call [OF reaches_by_table [OF assms(1)]]) (simp add: call_defs user_roundtrip [OF assms(2)])

lemma over_create_promo:
  assumes "bot_wire router admitted" and "in_int64 n"
  shows "via (\<lambda>_. Re_Done) (client_create_promo (served router others admitted created text_of ev net) c b m n db) =
    (case api_call net (core_api ev (Rq_Promo_Create c b m n)) db of (r, db') \<Rightarrow> (map_option (\<lambda>_. Re_Done) r, db'))"
  unfolding client_create_promo_def
  by (rule unit_call [OF reaches_by_table [OF assms(1)]]) (simp add: call_defs assms(2))

lemma over_set_stalk_last_message:
  assumes "bot_wire router admitted"
  shows "via (\<lambda>_. Re_Done) (client_set_stalk_last_message (served router others admitted created text_of ev net) c t m db) =
    (case api_call net (core_api ev (Rq_Stalk_Last_Message c t m)) db of (r, db') \<Rightarrow> (map_option (\<lambda>_. Re_Done) r, db'))"
  unfolding client_set_stalk_last_message_def
  by (rule unit_call [OF reaches_by_table [OF assms(1)]]) (simp add: call_defs )

lemma over_dad_add:
  assumes "bot_wire router admitted"
  shows "via (\<lambda>_. Re_Done) (client_dad_add (served router others admitted created text_of ev net) c x db) =
    (case api_call net (core_api ev (Rq_Dad_Add c x)) db of (r, db') \<Rightarrow> (map_option (\<lambda>_. Re_Done) r, db'))"
  unfolding client_dad_add_def
  by (rule unit_call [OF reaches_by_table [OF assms(1)]]) (simp add: call_defs )

lemma users_roundtrip:
  "\<forall>u \<in> set us. in_int64 (us_id u) \<Longrightarrow> json_list user_of_json (J_Arr (map (user_json created) us)) = Some us"
  by (rule json_list_map) (simp add: user_roundtrip)

lemma promos_roundtrip:
  "\<forall>p \<in> set ps. in_int64 (pr_id p) \<and> in_int64 (pr_interval p) \<Longrightarrow> (\<And>t. time_of (text_of t) = Some t) \<Longrightarrow>
     json_list (promo_of_json time_of) (J_Arr (map (promo_json text_of) ps)) = Some ps"
  by (rule json_list_map) (simp add: promo_roundtrip)

lemma over_is_channel_opted_in:
  assumes "bot_wire router admitted"
  shows "via Re_Opted_In (client_is_channel_opted_in (served router others admitted created text_of ev net) login db) = api_call net (core_api ev (Rq_Opt_In_Check (Some login))) db"
  unfolding client_is_channel_opted_in_def
  by (rule json_call [OF reaches_by_table [OF assms(1)]]) (simp add: call_defs , auto simp: call_defs)

lemma over_get_active_channels:
  assumes "bot_wire router admitted"
    and fit: "answer_fits ev (Rq_Active_Channels) db"
  shows "via Re_Users (client_get_active_channels (served router others admitted created text_of ev net) db) = api_call net (core_api ev (Rq_Active_Channels)) db"
  unfolding client_get_active_channels_def
  by (rule json_call [OF reaches_by_table [OF assms(1)]]) (simp add: call_defs , frule answer_fits_D [OF _ fit], auto simp: call_defs users_roundtrip)

lemma over_get_global_enabled_commands:
  assumes "bot_wire router admitted"
  shows "via Re_Commands (client_get_global_enabled_commands (served router others admitted created text_of ev net) db) = api_call net (core_api ev (Rq_Global_Commands)) db"
  unfolding client_get_global_enabled_commands_def
  by (rule json_call [OF reaches_by_table [OF assms(1)]]) (simp add: call_defs , auto simp: call_defs intro!: json_list_map command_roundtrip)

lemma over_dispatch_overlay_command:
  assumes "bot_wire router admitted"
  shows "via Re_Delivered (client_dispatch_overlay_command (served router others admitted created text_of ev net) r db) = api_call net (core_api ev (Rq_Dispatch r)) db"
  unfolding client_dispatch_overlay_command_def
  by (rule json_call [OF reaches_by_table [OF assms(1)]]) (simp add: call_defs dispatch_roundtrip, auto simp: core_dispatch_def call_defs split: prod.splits reply.splits if_splits)

lemma over_get_active_promos:
  assumes "bot_wire router admitted"
    and fit: "answer_fits ev (Rq_Promos) db"
    and times: "\<And>t. time_of (text_of t) = Some t"
  shows "via Re_Promos (client_get_active_promos (served router others admitted created text_of ev net) time_of db) = api_call net (core_api ev (Rq_Promos)) db"
  unfolding client_get_active_promos_def
  by (rule json_call [OF reaches_by_table [OF assms(1)]]) (simp add: call_defs , frule answer_fits_D [OF _ fit], auto simp: call_defs promos_roundtrip times)

lemma over_edit_last_promo:
  assumes "bot_wire router admitted" and "in_int64 n"
  shows "via Re_Found (client_edit_last_promo (served router others admitted created text_of ev net) c m n db) = api_call net (core_api ev (Rq_Promo_Edit_Last c m n)) db"
  unfolding client_edit_last_promo_def
  by (rule json_call [OF reaches_by_table [OF assms(1)]]) (simp add: call_defs assms(2), auto simp: call_defs)

lemma over_delete_last_promo:
  assumes "bot_wire router admitted"
  shows "via Re_Found (client_delete_last_promo (served router others admitted created text_of ev net) c db) = api_call net (core_api ev (Rq_Promo_Delete_Last c)) db"
  unfolding client_delete_last_promo_def
  by (rule json_call [OF reaches_by_table [OF assms(1)]]) (simp add: call_defs , auto simp: call_defs)

lemma over_get_stalk_target:
  assumes "bot_wire router admitted"
  shows "via (\<lambda>(t, l, f). Re_Stalk t l f) (client_get_stalk_target (served router others admitted created text_of ev net) c db) = api_call net (core_api ev (Rq_Stalk_Target c)) db"
  unfolding client_get_stalk_target_def
  by (rule json_call [OF reaches_by_table [OF assms(1)]]) (simp add: call_defs query_param_encode, auto simp: call_defs split: prod.splits)

lemma over_clear_stalk_target:
  assumes "bot_wire router admitted"
  shows "via Re_Found (client_clear_stalk_target (served router others admitted created text_of ev net) c db) = api_call net (core_api ev (Rq_Stalk_Clear c)) db"
  unfolding client_clear_stalk_target_def
  by (rule json_call [OF reaches_by_table [OF assms(1)]]) (simp add: call_defs , auto simp: call_defs)

lemma over_increment_bread:
  assumes "bot_wire router admitted"
    and fit: "answer_fits ev (Rq_Bread_Increment c u) db"
  shows "via Re_Count (client_increment_bread (served router others admitted created text_of ev net) c u db) = api_call net (core_api ev (Rq_Bread_Increment c u)) db"
  unfolding client_increment_bread_def
  by (rule json_call [OF reaches_by_table [OF assms(1)]]) (simp add: call_defs , frule answer_fits_D [OF _ fit], auto simp: call_defs)

lemma over_get_bread_total:
  assumes "bot_wire router admitted"
    and fit: "answer_fits ev (Rq_Bread_Total c) db"
  shows "via Re_Total (client_get_bread_total (served router others admitted created text_of ev net) c db) = api_call net (core_api ev (Rq_Bread_Total c)) db"
  unfolding client_get_bread_total_def
  by (rule json_call [OF reaches_by_table [OF assms(1)]]) (simp add: call_defs query_param_encode, frule answer_fits_D [OF _ fit], auto simp: call_defs)

lemma over_go_fishing:
  assumes "bot_wire router admitted"
  shows "via Re_Message (client_go_fishing (served router others admitted created text_of ev net) c u db) = api_call net (core_api ev (Rq_Fish_Go c u)) db"
  unfolding client_go_fishing_def
  by (rule json_call [OF reaches_by_table [OF assms(1)]]) (simp add: call_defs , auto simp: call_defs)

lemma over_dad_random:
  assumes "bot_wire router admitted"
  shows "via Re_Response (client_dad_random (served router others admitted created text_of ev net) c db) = api_call net (core_api ev (Rq_Dad_Random c)) db"
  unfolding client_dad_random_def
  by (rule json_call [OF reaches_by_table [OF assms(1)]]) (simp add: call_defs , auto simp: call_defs)

lemma over_get_dad_usage:
  assumes "bot_wire router admitted" and "in_int64 b"
    and fit: "answer_fits ev (Rq_Dad_Usage b) db"
  shows "via Re_Usage (client_get_dad_usage (served router others admitted created text_of ev net) b db) = api_call net (core_api ev (Rq_Dad_Usage b)) db"
  unfolding client_get_dad_usage_def
  by (rule json_call [OF reaches_by_table [OF assms(1)]]) (simp add: call_defs assms(2), frule answer_fits_D [OF _ fit], auto simp: call_defs usage_roundtrip)

lemma over_lurk_on_message:
  assumes "bot_wire router admitted" and fit: "answer_fits ev (Rq_Lurk_Message c u) db"
  shows "(case client_lurk_on_message (served router others admitted created text_of ev net) c u db of (n, db') \<Rightarrow> (Some (Re_Count n), db')) =
    (case api_call net (core_api ev (Rq_Lurk_Message c u)) db of
       (r, db') \<Rightarrow> (case r of None \<Rightarrow> Some (Re_Count 0) | Some x \<Rightarrow> Some x, db'))"
proof -
  have "via Re_Count (call_json (out_field ''count'' json_int) (served router others admitted created text_of ev net)
      (post_json path_post_bot_lurk_message [(''channel'', J_Str c), (''chatter'', J_Str u)]) db) =
    api_call net (core_api ev (Rq_Lurk_Message c u)) db"
    by (rule json_call [OF reaches_by_table [OF assms(1)]]) (simp add: call_defs, frule answer_fits_D [OF _ fit], auto simp: call_defs)
  then show ?thesis by (auto simp: client_lurk_on_message_def via_def split: option.splits prod.splits)
qed

lemma over_get_channel_commands:
  assumes "bot_wire router admitted" and "is_id b"
  shows "via (\<lambda>(cs, caps). Re_Channel_Commands cs caps) (client_get_channel_commands (served router others admitted created text_of ev net) b db) =
    api_call net (core_api ev (Rq_Channel_Commands b)) db"
  unfolding client_get_channel_commands_def path_escape_id [OF assms(2)] replaced
  by (rule json_call [OF reaches_by_param(1) [OF assms]])
    (auto simp: call_defs json_list_map command_roundtrip strings_roundtrip [simplified])

lemma over_get_auto_shout_chatters:
  assumes "bot_wire router admitted" and "is_id b"
  shows "via Re_Chatters (client_get_auto_shout_chatters (served router others admitted created text_of ev net) b db) =
    api_call net (core_api ev (Rq_Auto_Shouters b)) db"
  unfolding client_get_auto_shout_chatters_def path_escape_id [OF assms(2)] replaced
  by (rule json_call [OF reaches_by_param(2) [OF assms]]) (auto simp: lift_http_Ok strings_roundtrip [simplified])

section \<open>Every call\<close>

lemmas over_calls = over_create_new_user over_heal_legacy_user over_push_state over_opt_out_user over_is_channel_opted_in
  over_get_active_channels over_get_global_enabled_commands over_get_channel_commands over_dispatch_overlay_command
  over_create_promo over_get_active_promos over_edit_last_promo over_delete_last_promo over_get_stalk_target
  over_set_stalk_target over_clear_stalk_target over_set_stalk_last_message over_increment_bread over_get_bread_total
  over_increment_auto_shout_count over_get_auto_shout_chatters over_lurk_on_message over_go_fishing over_dad_random
  over_dad_add over_dad_remove over_get_dad_usage over_increment_dad_roll

lemma case_pair_id: "(case p of (r, s) \<Rightarrow> (r, s)) = p"
  by (cases p) simp

text \<open>
  C7: the bot and core-api understand each other. Every call of the bot's client, over any network, is
  the endpoint it is meant for applied to the arguments the bot gave: the path and method lead there, the
  body or query binds to those arguments, and the answer is read back as the endpoint gave it; only a lurk
  turns an error into the count 0. It holds for any router with Echo's rules and guards that admit the
  signed request, for numbers in range, Twitch ids in digits and times that read back as printed.
\<close>

theorem calls_are_their_endpoints:
  assumes "bot_wire router admitted" and "call_ok c" and "\<And>t. time_of (text_of t) = Some t"
    and "answer_fits ev (request_of c) db"
  shows "perform (over net (serve_bot router others admitted created text_of ev)) created' time_of c db =
    (case api_call net (core_api ev (request_of c)) db of (r, db') \<Rightarrow> (outcome c r, db'))"
  using assms(2-) by (cases c) (simp_all add: over_calls [OF assms(1)] case_pair_id del: core_api.simps)

text \<open>A router with those rules, and an empty database.\<close>

definition first_router :: router where
  "first_router rs m p =
     (case fixed_route rs m p of
        Some r \<Rightarrow> Some (r, [])
      | None \<Rightarrow> (case param_routes rs m p of [] \<Rightarrow> None | x # _ \<Rightarrow> Some x))"

lemma first_router: "echo_router first_router"
  by (simp add: echo_router_def first_router_def)

definition no_others :: "endpoint \<Rightarrow> string \<Rightarrow> http_request \<Rightarrow> core_db \<Rightarrow> (int \<times> json option) \<times> core_db" where
  "no_others e p q db = ((404, None), db)"

definition empty_db :: core_db where
  "empty_db =
     \<lparr> db_users = empty_table, db_lurkers = empty_table, db_breads = empty_table, db_fish = empty_table, db_dad = empty_table,
       db_usage = empty_table, db_shouts = empty_table, db_promos = empty_table, db_stalks = empty_table,
       db_commands = empty_table, db_devices = empty_table, db_log = [],
       db_registry = new_registry \<rparr>"

definition quiet_env :: core_env where
  "quiet_env =
     \<lparr> ev_faults = no_faults, ev_relay_faults = no_faults, ev_now = 0, ev_uuid = ''key'', ev_roll = 0, ev_pick = 0,
       ev_order = (\<lambda>xs. xs), ev_print = (\<lambda>_. ''fish''), ev_overlay_users = [],
       ev_codec = \<lparr> cd_notification = (\<lambda>_. None), cd_cheer = (\<lambda>_. None), cd_redemption = (\<lambda>_. None), cd_power_up = (\<lambda>_. None),
         cd_dispatch = (\<lambda>_. None), cd_receipt = (\<lambda>_. None), cd_payload = (\<lambda>_. []) \<rparr>,
       ev_store = \<lparr> so_users = [], so_lookup_fails = False, so_faults = no_faults, so_race = (\<lambda>_ log. log) \<rparr> \<rparr>"

definition unary_time :: "int \<Rightarrow> string" where
  "unary_time t = (if t < 0 then CHR ''-'' # replicate (nat (- t)) (CHR ''0'') else replicate (nat t) (CHR ''0''))"

definition read_unary :: "string \<Rightarrow> int option" where
  "read_unary s = (if s \<noteq> [] \<and> hd s = CHR ''-'' then Some (- int (length s - 1)) else Some (int (length s)))"

lemma unary_time: "read_unary (unary_time t) = Some t"
  by (cases "nat t") (auto simp: read_unary_def unary_time_def)

lemma calls_are_their_endpoints_witness:
  "fst (perform (over Net_Ok (serve_bot first_router no_others (\<lambda>_ _. True) [] unary_time quiet_env)) [] read_unary
     (C_Increment_Bread ''ann'' ''bob'') empty_db) = Some (Re_Count 1)"
proof -
  have one: "fst (core_api quiet_env (Rq_Bread_Increment ''ann'' ''bob'') empty_db) = Http_Ok (Re_Count 1)" by code_simp
  then have "answer_fits quiet_env (request_of (C_Increment_Bread ''ann'' ''bob'')) empty_db"
    by (auto simp: answer_fits_def in_int64_def simp del: core_api.simps)
  moreover have "bot_wire first_router (\<lambda>_ _. True)" using first_router by (simp add: bot_wire_def)
  moreover have "fst (api_call Net_Ok (core_api quiet_env (Rq_Bread_Increment ''ann'' ''bob'')) empty_db) = Some (Re_Count 1)"
    using one by (cases "core_api quiet_env (Rq_Bread_Increment ''ann'' ''bob'') empty_db") (simp add: api_call_def del: core_api.simps)
  ultimately show ?thesis
    using calls_are_their_endpoints [of first_router "\<lambda>_ _. True" "C_Increment_Bread ''ann'' ''bob''" read_unary unary_time
        quiet_env empty_db Net_Ok no_others "[]" "[]"]
    by (simp add: unary_time split: prod.splits del: core_api.simps perform.simps)
qed

section \<open>Without the key\<close>

definition behind_key :: "router \<Rightarrow> http_request \<Rightarrow> bool" where
  "behind_key router q \<longleftrightarrow> (\<exists>r p. router register_routes (hq_method q) (hq_path q) = Some (r, p) \<and> rt_guard r = Hmac_Guard)"

lemma behind_by_table:
  assumes "echo_router router"
    and "case fixed_route register_routes (hq_method q) (hq_path q) of None \<Rightarrow> False | Some r \<Rightarrow> rt_guard r = Hmac_Guard"
  shows "behind_key router q"
  using assms by (auto simp: echo_router_def behind_key_def split: option.splits)

lemma behind_by_param:
  assumes "echo_router router" and "is_id b"
  shows "behind_key router (get_path (''/bot/commands/'' @ b) [])" and "behind_key router (get_path (''/bot/autoshout/'' @ b) [])"
  using assms no_fixed [OF assms(2)] param_routed [OF assms(2)] by (auto simp: echo_router_def behind_key_def get_path_def)

definition no_key :: "(guard \<Rightarrow> http_request \<Rightarrow> bool) \<Rightarrow> bool" where
  "no_key admitted \<longleftrightarrow> (\<forall>q. \<not> admitted Hmac_Guard q)"

lemma refused_do:
  assumes "behind_key router q" and "no_key admitted"
  shows "client_do (over net (serve_bot router others admitted created text_of ev)) q db = (None, db)"
  using assms by (cases net) (auto simp: no_key_def behind_key_def serve_bot_def client_do_def over_def split: prod.splits)

lemma refused_calls:
  assumes "behind_key router q" and "no_key admitted"
  shows "call_unit (served router others admitted created text_of ev net) q db = (None, db)"
    and "call_json dec (served router others admitted created text_of ev net) q db = (None, db)"
  by (simp_all add: call_unit_def call_json_def refused_do [OF assms])

lemmas client_defs = client_create_new_user_def client_heal_legacy_user_def client_push_state_def client_opt_out_user_def
  client_is_channel_opted_in_def client_get_active_channels_def client_get_channel_commands_def
  client_dispatch_overlay_command_def client_create_promo_def client_get_active_promos_def client_edit_last_promo_def
  client_delete_last_promo_def client_get_stalk_target_def client_set_stalk_target_def client_clear_stalk_target_def
  client_set_stalk_last_message_def client_increment_bread_def client_get_bread_total_def client_increment_auto_shout_count_def
  client_get_auto_shout_chatters_def client_lurk_on_message_def client_go_fishing_def client_dad_random_def
  client_dad_add_def client_dad_remove_def client_get_dad_usage_def client_increment_dad_roll_def

text \<open>
  the key guards the bot's whole surface. While the HMAC guard admits nothing, no call of the client
  changes anything or learns anything; only the public list of commands is served.
\<close>

theorem calls_need_the_key:
  assumes "echo_router router" and "no_key admitted" and "call_ok c" and "c \<noteq> C_Get_Global_Enabled_Commands"
  shows "perform (over net (serve_bot router others admitted created text_of ev)) created' time_of c db = (outcome c None, db)"
  using assms(3,4)
  by (cases c)
    (simp_all add: client_defs via_def path_escape_id replaced refused_calls [OF behind_by_param(1) [OF assms(1)] assms(2), simplified get_path_def append.simps]
      refused_calls [OF behind_by_param(2) [OF assms(1)] assms(2), simplified get_path_def append.simps] refused_calls [OF behind_by_table [OF assms(1)] assms(2)]
      post_json_def get_path_def routed)

lemma calls_need_the_key_witness:
  "perform (over Net_Ok (serve_bot first_router no_others (\<lambda>g _. g = Open_Route) [] (\<lambda>_. []) quiet_env)) [] (\<lambda>_. None)
     (C_Lurk_On_Message ''ann'' ''bob'') empty_db = (Some (Re_Count 0), empty_db)"
  using calls_need_the_key [OF first_router, of "\<lambda>g _. g = Open_Route" "C_Lurk_On_Message ''ann'' ''bob''"]
  by (simp add: no_key_def)

end
