(* ===== verification/Df_Dashboard.thy ===== *)
theory Df_Dashboard
  imports Wire Json Api_Client "HOL-Library.Monad_Syntax"
begin

text \<open>
  The public view of the fortress: the snapshot types (\<^verbatim>\<open>overseer/wire/types.go\<close>), the daemon that pushes
  the file the game writes (\<^verbatim>\<open>cmd/df-snapshot-pusher\<close>), and the endpoints that keep and serve the last one
  (\<^verbatim>\<open>endpoints/df\<close>). HMAC-SHA256, gzip and the text form of JSON and of times are parameters.
\<close>

section \<open>Snapshots\<close>

datatype tile_type = Tile_Unknown | Tile_Wall | Tile_Floor | Tile_Ramp | Tile_Stair | Tile_Water | Tile_Magma | Tile_Tree | Tile_Other int

definition tile_code :: "tile_type \<Rightarrow> int" where
  "tile_code t =
     (case t of Tile_Unknown \<Rightarrow> 0 | Tile_Wall \<Rightarrow> 1 | Tile_Floor \<Rightarrow> 2 | Tile_Ramp \<Rightarrow> 3 | Tile_Stair \<Rightarrow> 4 | Tile_Water \<Rightarrow> 5
      | Tile_Magma \<Rightarrow> 6 | Tile_Tree \<Rightarrow> 7 | Tile_Other n \<Rightarrow> n)"

definition tile_of_code :: "int \<Rightarrow> tile_type" where
  "tile_of_code n =
     (if n = 0 then Tile_Unknown else if n = 1 then Tile_Wall else if n = 2 then Tile_Floor else if n = 3 then Tile_Ramp
      else if n = 4 then Tile_Stair else if n = 5 then Tile_Water else if n = 6 then Tile_Magma else if n = 7 then Tile_Tree
      else Tile_Other n)"

record furniture_place =
  fp_type :: string
  fp_material :: string
  fp_x :: int
  fp_y :: int

record footprint =
  ft_id :: int
  ft_kind :: string
  ft_subtype :: string
  ft_x1 :: int
  ft_y1 :: int
  ft_x2 :: int
  ft_y2 :: int

record z_level =
  zl_z :: int
  zl_tiles :: "tile_type list"
  zl_furniture :: "furniture_place list"
  zl_footprints :: "footprint list"

record citizen =
  cz_id :: int
  cz_name :: string
  cz_profession :: string
  cz_age :: int
  cz_job :: string
  cz_stress :: int
  cz_position :: position

record map_snapshot =
  ms_captured_at :: int
  ms_origin :: position
  ms_width :: int
  ms_height :: int
  ms_levels :: "z_level list"
  ms_z_offset :: int
  ms_citizens :: "citizen list"
  ms_focus :: "position option"

section \<open>Their JSON\<close>

definition position_json :: "position \<Rightarrow> json" where
  "position_json p = J_Obj [(''x'', J_Int (pos_x p)), (''y'', J_Int (pos_y p)), (''z'', J_Int (pos_z p))]"

definition position_of_json :: "json \<Rightarrow> position option" where
  "position_of_json j =
     (if \<not> json_struct j then None
      else do {
        x \<leftarrow> json_int (json_field ''x'' j);
        y \<leftarrow> json_int (json_field ''y'' j);
        z \<leftarrow> json_int (json_field ''z'' j);
        Some \<lparr> pos_x = x, pos_y = y, pos_z = z \<rparr>
      })"

definition furniture_json :: "furniture_place \<Rightarrow> json" where
  "furniture_json f =
     J_Obj [(''type'', J_Str (fp_type f)), (''material'', J_Str (fp_material f)), (''x'', J_Int (fp_x f)), (''y'', J_Int (fp_y f))]"

definition furniture_of_json :: "json \<Rightarrow> furniture_place option" where
  "furniture_of_json j =
     (if \<not> json_struct j then None
      else do {
        t \<leftarrow> json_string (json_field ''type'' j);
        m \<leftarrow> json_string (json_field ''material'' j);
        x \<leftarrow> json_int (json_field ''x'' j);
        y \<leftarrow> json_int (json_field ''y'' j);
        Some \<lparr> fp_type = t, fp_material = m, fp_x = x, fp_y = y \<rparr>
      })"

definition footprint_json :: "footprint \<Rightarrow> json" where
  "footprint_json f =
     J_Obj [(''id'', J_Int (ft_id f)), (''kind'', J_Str (ft_kind f)), (''subtype'', J_Str (ft_subtype f)), (''x1'', J_Int (ft_x1 f)),
       (''y1'', J_Int (ft_y1 f)), (''x2'', J_Int (ft_x2 f)), (''y2'', J_Int (ft_y2 f))]"

definition footprint_of_json :: "json \<Rightarrow> footprint option" where
  "footprint_of_json j =
     (if \<not> json_struct j then None
      else do {
        i \<leftarrow> json_int (json_field ''id'' j);
        k \<leftarrow> json_string (json_field ''kind'' j);
        s \<leftarrow> json_string (json_field ''subtype'' j);
        x1 \<leftarrow> json_int (json_field ''x1'' j);
        y1 \<leftarrow> json_int (json_field ''y1'' j);
        x2 \<leftarrow> json_int (json_field ''x2'' j);
        y2 \<leftarrow> json_int (json_field ''y2'' j);
        Some \<lparr> ft_id = i, ft_kind = k, ft_subtype = s, ft_x1 = x1, ft_y1 = y1, ft_x2 = x2, ft_y2 = y2 \<rparr>
      })"

text \<open>\<^verbatim>\<open>omitempty\<close> leaves an empty list out.\<close>

definition omit_empty :: "string \<Rightarrow> json list \<Rightarrow> (string \<times> json) list" where
  "omit_empty name js = (if js = [] then [] else [(name, J_Arr js)])"

definition z_level_json :: "z_level \<Rightarrow> json" where
  "z_level_json l =
     J_Obj ([(''z'', J_Int (zl_z l)), (''tiles'', J_Arr (map (\<lambda>t. J_Int (tile_code t)) (zl_tiles l))),
       (''furniture'', J_Arr (map furniture_json (zl_furniture l)))] @ omit_empty ''footprints'' (map footprint_json (zl_footprints l)))"

definition z_level_of_json :: "json \<Rightarrow> z_level option" where
  "z_level_of_json j =
     (if \<not> json_struct j then None
      else do {
        z \<leftarrow> json_int (json_field ''z'' j);
        ts \<leftarrow> json_list (\<lambda>t. map_option tile_of_code (json_int t)) (json_field ''tiles'' j);
        fs \<leftarrow> json_list furniture_of_json (json_field ''furniture'' j);
        ps \<leftarrow> json_list footprint_of_json (json_field ''footprints'' j);
        Some \<lparr> zl_z = z, zl_tiles = ts, zl_furniture = fs, zl_footprints = ps \<rparr>
      })"

definition citizen_json :: "citizen \<Rightarrow> json" where
  "citizen_json c =
     J_Obj ([(''id'', J_Int (cz_id c)), (''name'', J_Str (cz_name c)), (''profession'', J_Str (cz_profession c)),
       (''age'', J_Int (cz_age c))] @ (if cz_job c = [] then [] else [(''job'', J_Str (cz_job c))]) @
       [(''stress'', J_Int (cz_stress c)), (''position'', position_json (cz_position c))])"

definition citizen_of_json :: "json \<Rightarrow> citizen option" where
  "citizen_of_json j =
     (if \<not> json_struct j then None
      else do {
        i \<leftarrow> json_int (json_field ''id'' j);
        n \<leftarrow> json_string (json_field ''name'' j);
        p \<leftarrow> json_string (json_field ''profession'' j);
        a \<leftarrow> json_int (json_field ''age'' j);
        b \<leftarrow> json_string (json_field ''job'' j);
        s \<leftarrow> json_int (json_field ''stress'' j);
        q \<leftarrow> position_of_json (json_field ''position'' j);
        Some \<lparr> cz_id = i, cz_name = n, cz_profession = p, cz_age = a, cz_job = b, cz_stress = s, cz_position = q \<rparr>
      })"

text \<open>The zero time of a snapshot that does not say when it was captured.\<close>

definition zero_capture :: int where
  "zero_capture = - 62135596800000000000"

definition map_snapshot_json :: "(int \<Rightarrow> string) \<Rightarrow> map_snapshot \<Rightarrow> json" where
  "map_snapshot_json text_of s =
     J_Obj ([(''captured_at'', J_Str (text_of (ms_captured_at s))), (''origin'', position_json (ms_origin s)),
       (''width'', J_Int (ms_width s)), (''height'', J_Int (ms_height s)), (''levels'', J_Arr (map z_level_json (ms_levels s))),
       (''z_offset'', J_Int (ms_z_offset s))] @ omit_empty ''citizens'' (map citizen_json (ms_citizens s)) @
       (case ms_focus s of None \<Rightarrow> [] | Some p \<Rightarrow> [(''focus'', position_json p)]))"

definition map_snapshot_of_json :: "(string \<Rightarrow> int option) \<Rightarrow> json \<Rightarrow> map_snapshot option" where
  "map_snapshot_of_json time_of j =
     (if \<not> json_struct j then None
      else do {
        t \<leftarrow> (case json_field ''captured_at'' j of J_Null \<Rightarrow> Some zero_capture | J_Str s \<Rightarrow> time_of s | _ \<Rightarrow> None);
        or \<leftarrow> position_of_json (json_field ''origin'' j);
        w \<leftarrow> json_int (json_field ''width'' j);
        h \<leftarrow> json_int (json_field ''height'' j);
        ls \<leftarrow> json_list z_level_of_json (json_field ''levels'' j);
        zo \<leftarrow> json_int (json_field ''z_offset'' j);
        cs \<leftarrow> json_list citizen_of_json (json_field ''citizens'' j);
        f \<leftarrow> (case json_field ''focus'' j of J_Null \<Rightarrow> Some None | p \<Rightarrow> map_option Some (position_of_json p));
        Some \<lparr> ms_captured_at = t, ms_origin = or, ms_width = w, ms_height = h, ms_levels = ls, ms_z_offset = zo,
               ms_citizens = cs, ms_focus = f \<rparr>
      })"

section \<open>The pusher\<close>

fun all_unknown :: "tile_type list \<Rightarrow> bool" where
  "all_unknown [] = True"
| "all_unknown (t # ts) = (if t \<noteq> Tile_Unknown then False else all_unknown ts)"

fun levels_empty :: "z_level list \<Rightarrow> bool" where
  "levels_empty [] = True"
| "levels_empty (l # ls) =
     (if zl_furniture l \<noteq> [] then False else if \<not> all_unknown (zl_tiles l) then False else levels_empty ls)"

definition is_empty_snapshot :: "map_snapshot \<Rightarrow> bool" where
  "is_empty_snapshot s = (if ms_citizens s \<noteq> [] then False else levels_empty (ms_levels s))"

record pusher_config =
  pc_file :: string
  pc_url :: string
  pc_key :: string
  pc_interval :: int

definition default_interval_sec :: int where
  "default_interval_sec = 15"

definition min_interval_sec :: int where
  "min_interval_sec = 10"

text \<open>\<open>None\<close>: the daemon exits at once.\<close>

definition load_pusher_config :: "string \<Rightarrow> string \<Rightarrow> string \<Rightarrow> string \<Rightarrow> pusher_config option" where
  "load_pusher_config snapshot_file url key_hex interval =
     (if snapshot_file = [] \<or> url = [] \<or> key_hex = [] then None
      else case hex_decode key_hex of
        None \<Rightarrow> None
      | Some key \<Rightarrow>
          (let config = (\<lambda>n. Some \<lparr> pc_file = snapshot_file, pc_url = url, pc_key = key, pc_interval = wrap64 (n * 1000000000) \<rparr>)
           in if interval = [] then config default_interval_sec
              else case atoi interval of
                None \<Rightarrow> None
              | Some n \<Rightarrow> if n < min_interval_sec then None else config n))"

text \<open>A request: its body (\<open>None\<close> when it cannot be read), and its two headers, empty when absent.\<close>

record df_push =
  dp_body :: "string option"
  dp_encoding :: string
  dp_hmac :: string

datatype push_step = Push_Unreadable | Push_Blank | Push_No_Fort | Push_Gzip_Failed | Push_Post df_push

text \<open>\<open>parse\<close> reads JSON text; \<open>gzip\<close> may fail. \<open>raw\<close>: \<open>None\<close> when the file cannot be read.\<close>

definition push_once ::
  "(string \<Rightarrow> string \<Rightarrow> string) \<Rightarrow> (string \<Rightarrow> string option) \<Rightarrow> (string \<Rightarrow> json option) \<Rightarrow> (string \<Rightarrow> int option)
     \<Rightarrow> string \<Rightarrow> string option \<Rightarrow> push_step" where
  "push_once mac gzip parse time_of key raw =
     (case raw of
        None \<Rightarrow> Push_Unreadable
      | Some bytes \<Rightarrow>
          let body = trim_space bytes
          in if body = [] then Push_Blank
             else if (case Option.bind (parse body) (map_snapshot_of_json time_of) of None \<Rightarrow> False | Some s \<Rightarrow> is_empty_snapshot s)
             then Push_No_Fort
             else case gzip body of
               None \<Rightarrow> Push_Gzip_Failed
             | Some z \<Rightarrow> Push_Post \<lparr> dp_body = Some z, dp_encoding = ''gzip'', dp_hmac = hex_encode (mac key body) \<rparr>)"

section \<open>The endpoints\<close>

text \<open>The store holds the last snapshot. \<open>key_hex\<close> is read from the environment at each request.\<close>

definition post_snapshot_endpoint ::
  "(string \<Rightarrow> string \<Rightarrow> string) \<Rightarrow> (string \<Rightarrow> string option) \<Rightarrow> (string \<Rightarrow> json option) \<Rightarrow> (string \<Rightarrow> int option)
     \<Rightarrow> string \<Rightarrow> df_push \<Rightarrow> map_snapshot option \<Rightarrow> nat \<times> map_snapshot option" where
  "post_snapshot_endpoint mac gunzip parse time_of key_hex q st =
     (if key_hex = [] then (503, st)
      else case hex_decode key_hex of
        None \<Rightarrow> (500, st)
      | Some key \<Rightarrow>
          (case Option.bind (dp_body q) (if dp_encoding q = ''gzip'' then gunzip else Some) of
             None \<Rightarrow> (400, st)
           | Some body \<Rightarrow>
               if dp_hmac q = [] then (401, st)
               else case hex_decode (dp_hmac q) of
                 None \<Rightarrow> (400, st)
               | Some claimed \<Rightarrow>
                   if claimed \<noteq> mac key body then (401, st)
                   else case Option.bind (parse body) (map_snapshot_of_json time_of) of
                     None \<Rightarrow> (400, st)
                   | Some s \<Rightarrow> (200, Some s)))"

text \<open>\<open>None\<close> is not found.\<close>

definition get_snapshot_endpoint :: "(int \<Rightarrow> string) \<Rightarrow> map_snapshot option \<Rightarrow> json option" where
  "get_snapshot_endpoint text_of st = map_option (map_snapshot_json text_of) st"

end
