(* ===== verification/Df_Dashboard_Properties.thy ===== *)
theory Df_Dashboard_Properties
  imports Df_Dashboard
begin

text \<open>The dashboard shows the last capture that was pushed and arrived, and nothing without its signature.\<close>

section \<open>Snapshots survive the wire\<close>

definition position_fits :: "position \<Rightarrow> bool" where
  "position_fits p \<longleftrightarrow> in_int64 (pos_x p) \<and> in_int64 (pos_y p) \<and> in_int64 (pos_z p)"

definition level_fits :: "z_level \<Rightarrow> bool" where
  "level_fits l \<longleftrightarrow> in_int64 (zl_z l) \<and>
     (\<forall>t \<in> set (zl_tiles l). in_int64 (tile_code t) \<and> tile_of_code (tile_code t) = t) \<and>
     (\<forall>f \<in> set (zl_furniture l). in_int64 (fp_x f) \<and> in_int64 (fp_y f)) \<and>
     (\<forall>f \<in> set (zl_footprints l). in_int64 (ft_id f) \<and> in_int64 (ft_x1 f) \<and> in_int64 (ft_y1 f) \<and> in_int64 (ft_x2 f) \<and> in_int64 (ft_y2 f))"

definition citizen_fits :: "citizen \<Rightarrow> bool" where
  "citizen_fits c \<longleftrightarrow> in_int64 (cz_id c) \<and> in_int64 (cz_age c) \<and> in_int64 (cz_stress c) \<and> position_fits (cz_position c)"

definition snapshot_fits :: "map_snapshot \<Rightarrow> bool" where
  "snapshot_fits s \<longleftrightarrow> position_fits (ms_origin s) \<and> in_int64 (ms_width s) \<and> in_int64 (ms_height s) \<and> in_int64 (ms_z_offset s) \<and>
     (\<forall>l \<in> set (ms_levels s). level_fits l) \<and> (\<forall>c \<in> set (ms_citizens s). citizen_fits c) \<and>
     (\<forall>p. ms_focus s = Some p \<longrightarrow> position_fits p)"

lemmas fold_defs = equal_fold_def to_lower_def lower_char_def code_of_def
lemmas field_defs = json_struct_def json_string_def json_int_def

lemma position_roundtrip: "position_fits p \<Longrightarrow> position_of_json (position_json p) = Some p"
  by (cases p) (simp add: position_of_json_def position_json_def position_fits_def fold_defs field_defs)

lemma focus_roundtrip:
  "position_fits p \<Longrightarrow>
     (case position_json p of J_Null \<Rightarrow> Some None | q \<Rightarrow> map_option Some (position_of_json q)) = Some (Some p)"
  using position_roundtrip [of p] by (simp add: position_json_def)

lemma furniture_roundtrip: "in_int64 (fp_x f) \<Longrightarrow> in_int64 (fp_y f) \<Longrightarrow> furniture_of_json (furniture_json f) = Some f"
  by (cases f) (simp add: furniture_of_json_def furniture_json_def fold_defs field_defs)

lemma footprint_roundtrip:
  "in_int64 (ft_id f) \<Longrightarrow> in_int64 (ft_x1 f) \<Longrightarrow> in_int64 (ft_y1 f) \<Longrightarrow> in_int64 (ft_x2 f) \<Longrightarrow> in_int64 (ft_y2 f) \<Longrightarrow>
     footprint_of_json (footprint_json f) = Some f"
  by (cases f) (simp add: footprint_of_json_def footprint_json_def fold_defs field_defs)

lemma json_list_Null [simp]: "json_list f J_Null = Some []"
  by (simp add: json_list_def)

lemma citizen_roundtrip: "citizen_fits c \<Longrightarrow> citizen_of_json (citizen_json c) = Some c"
  by (cases c; cases "cz_job c = []")
    (simp_all add: citizen_of_json_def citizen_json_def citizen_fits_def position_roundtrip fold_defs field_defs)

lemma level_roundtrip:
  assumes "level_fits l"
  shows "z_level_of_json (z_level_json l) = Some l"
proof -
  have "json_list (\<lambda>t. map_option tile_of_code (json_int t)) (J_Arr (map (\<lambda>t. J_Int (tile_code t)) (zl_tiles l))) = Some (zl_tiles l)"
    using assms by (intro json_list_map) (auto simp: level_fits_def json_int_def)
  moreover have "json_list furniture_of_json (J_Arr (map furniture_json (zl_furniture l))) = Some (zl_furniture l)"
    using assms by (intro json_list_map) (auto simp: level_fits_def furniture_roundtrip)
  moreover have "json_list footprint_of_json (J_Arr (map footprint_json (zl_footprints l))) = Some (zl_footprints l)"
    using assms by (intro json_list_map) (auto simp: level_fits_def footprint_roundtrip)
  moreover have "in_int64 (zl_z l)" using assms by (simp add: level_fits_def)
  ultimately show ?thesis
    by (cases l; cases "zl_footprints l = []")
      (simp_all add: z_level_of_json_def z_level_json_def omit_empty_def fold_defs json_struct_def json_int_def)
qed

text \<open>What a viewer decodes is the snapshot in the store.\<close>

lemma snapshot_roundtrip:
  assumes "snapshot_fits s" and "time_of (text_of (ms_captured_at s)) = Some (ms_captured_at s)"
  shows "map_snapshot_of_json time_of (map_snapshot_json text_of s) = Some s"
proof -
  have "json_list z_level_of_json (J_Arr (map z_level_json (ms_levels s))) = Some (ms_levels s)"
    using assms by (intro json_list_map) (auto simp: snapshot_fits_def level_roundtrip)
  moreover have "json_list citizen_of_json (J_Arr (map citizen_json (ms_citizens s))) = Some (ms_citizens s)"
    using assms by (intro json_list_map) (auto simp: snapshot_fits_def citizen_roundtrip)
  moreover have "position_of_json (position_json (ms_origin s)) = Some (ms_origin s)"
    using assms by (auto simp: snapshot_fits_def position_roundtrip)
  moreover have "position_json p \<noteq> J_Null" for p by (simp add: position_json_def)
  ultimately show ?thesis using assms
    by (cases s; cases "ms_citizens s = []"; cases "ms_focus s")
      (simp_all add: focus_roundtrip map_snapshot_of_json_def map_snapshot_json_def snapshot_fits_def omit_empty_def fold_defs json_struct_def json_int_def)
qed

text \<open>The emptiness check does not look at footprints: a level with only a workshop counts as empty.\<close>

lemma footprint_alone_is_empty:
  "is_empty_snapshot s = is_empty_snapshot (s\<lparr> ms_levels := map (\<lambda>l. l\<lparr> zl_footprints := w # zl_footprints l \<rparr>) (ms_levels s) \<rparr>)"
proof -
  have "levels_empty (map (\<lambda>l. l\<lparr> zl_footprints := w # zl_footprints l \<rparr>) ls) = levels_empty ls" for ls
    by (induction ls) simp_all
  then show ?thesis by (simp add: is_empty_snapshot_def)
qed

section \<open>What the dashboard shows\<close>

text \<open>A run of the store: ticks of the pusher with the fate of their request, and requests of others.\<close>

datatype df_event = Tick "string option" network | Foreign df_push

record df_env =
  dv_mac :: "string \<Rightarrow> string \<Rightarrow> string"
  dv_gzip :: "string \<Rightarrow> string option"
  dv_gunzip :: "string \<Rightarrow> string option"
  dv_parse :: "string \<Rightarrow> json option"
  dv_time :: "string \<Rightarrow> int option"

definition post_to :: "df_env \<Rightarrow> string \<Rightarrow> df_push \<Rightarrow> map_snapshot option \<Rightarrow> map_snapshot option" where
  "post_to e key_hex q st = snd (post_snapshot_endpoint (dv_mac e) (dv_gunzip e) (dv_parse e) (dv_time e) key_hex q st)"

fun df_step :: "df_env \<Rightarrow> string \<Rightarrow> string \<Rightarrow> df_event \<Rightarrow> map_snapshot option \<Rightarrow> map_snapshot option" where
  "df_step e key_hex key (Tick raw net) st =
     (case push_once (dv_mac e) (dv_gzip e) (dv_parse e) (dv_time e) key raw of
        Push_Post q \<Rightarrow> if net = Request_Lost then st else post_to e key_hex q st
      | _ \<Rightarrow> st)"
| "df_step e key_hex key (Foreign q) st = post_to e key_hex q st"

definition df_run :: "df_env \<Rightarrow> string \<Rightarrow> string \<Rightarrow> df_event list \<Rightarrow> map_snapshot option \<Rightarrow> map_snapshot option" where
  "df_run e key_hex key evs st = fold (df_step e key_hex key) evs st"

text \<open>The capture of a tick that arrives: a file that decodes and is not empty of a fortress.\<close>

fun capture :: "df_env \<Rightarrow> df_event \<Rightarrow> map_snapshot list" where
  "capture e (Tick (Some raw) net) =
     (if net = Request_Lost \<or> trim_space raw = [] \<or> dv_gzip e (trim_space raw) = None then []
      else case Option.bind (dv_parse e (trim_space raw)) (map_snapshot_of_json (dv_time e)) of
        None \<Rightarrow> []
      | Some s \<Rightarrow> if is_empty_snapshot s then [] else [s])"
| "capture e _ = []"

definition carries_signature :: "df_env \<Rightarrow> string \<Rightarrow> df_push \<Rightarrow> bool" where
  "carries_signature e key q \<longleftrightarrow>
     (\<exists>body. Option.bind (dp_body q) (if dp_encoding q = ''gzip'' then dv_gunzip e else Some) = Some body \<and>
        hex_decode (dp_hmac q) = Some (dv_mac e key body))"

lemma foreign_step:
  "hex_decode key_hex = Some key \<Longrightarrow> \<not> carries_signature e key q \<Longrightarrow> post_to e key_hex q st = st"
  by (auto simp: post_to_def post_snapshot_endpoint_def carries_signature_def split: option.splits)

lemma tick_step:
  assumes "hex_decode key_hex = Some key" and "key_hex \<noteq> []" and "\<forall>b z. dv_gzip e b = Some z \<longrightarrow> dv_gunzip e z = Some b"
    and "\<forall>b. dv_mac e key b \<noteq> []"
  shows "df_step e key_hex key (Tick raw net) st = (case capture e (Tick raw net) of [] \<Rightarrow> st | s # _ \<Rightarrow> Some s)"
proof (cases raw)
  case None
  then show ?thesis by (simp add: push_once_def)
next
  case (Some bytes)
  define body where "body = trim_space bytes"
  show ?thesis
  proof (cases "dv_gzip e body")
    case None
    then show ?thesis using Some
      by (cases "Option.bind (dv_parse e body) (map_snapshot_of_json (dv_time e))")
        (auto simp: push_once_def body_def [symmetric] Let_def)
  next
    case z: (Some z)
    have "dv_gunzip e z = Some body" using assms(3) z by blast
    then show ?thesis using Some z assms(1,2,4)
      by (cases "Option.bind (dv_parse e body) (map_snapshot_of_json (dv_time e))")
        (auto simp: push_once_def post_to_def post_snapshot_endpoint_def body_def [symmetric] Let_def)
  qed
qed

text \<open>
  C15: the dashboard shows the last capture. However pushes, losses and requests of others mix, the store
  holds the newest capture that arrived: a file without a fortress never replaces it, a request that does not
  carry the signature of its content has no effect, and a lost answer still counts. A viewer who decodes
  what is served has that capture.
\<close>

theorem dashboard_shows_last_capture:
  assumes "hex_decode key_hex = Some key" and "key_hex \<noteq> []" and "\<forall>b z. dv_gzip e b = Some z \<longrightarrow> dv_gunzip e z = Some b"
    and "\<forall>b. dv_mac e key b \<noteq> []" and "\<forall>q. Foreign q \<in> set evs \<longrightarrow> \<not> carries_signature e key q"
  shows "df_run e key_hex key evs st = (let cs = concat (map (capture e) evs) in if cs = [] then st else Some (List.last cs))
    \<and> (\<forall>s text_of. df_run e key_hex key evs st = Some s \<longrightarrow> snapshot_fits s \<longrightarrow>
         dv_time e (text_of (ms_captured_at s)) = Some (ms_captured_at s) \<longrightarrow>
         Option.bind (get_snapshot_endpoint text_of (df_run e key_hex key evs st)) (map_snapshot_of_json (dv_time e)) = Some s)"
proof -
  have "df_run e key_hex key evs st = (let cs = concat (map (capture e) evs) in if cs = [] then st else Some (List.last cs))"
    using assms(5)
  proof (induction evs arbitrary: st)
    case Nil
    then show ?case by (simp add: df_run_def)
  next
    case (Cons ev evs)
    then have rest: "df_run e key_hex key evs st' = (let cs = concat (map (capture e) evs) in if cs = [] then st' else Some (List.last cs))"
      for st' by simp
    show ?case
    proof (cases ev)
      case (Tick raw net)
      have "length (capture e ev) \<le> 1" unfolding Tick
        by (cases raw) (auto split: option.splits)
      then have "capture e ev = [] \<or> (\<exists>s. capture e ev = [s])" by (cases "capture e ev") auto
      then show ?thesis using rest tick_step [OF assms(1-4), of raw net st] Tick by (auto simp: df_run_def Let_def simp del: df_step.simps capture.simps)
    next
      case (Foreign q)
      then have "df_step e key_hex key ev st = st" using Cons.prems foreign_step [OF assms(1)] by auto
      then show ?thesis using rest Foreign by (simp add: df_run_def Let_def)
    qed
  qed
  then show ?thesis by (auto simp: get_snapshot_endpoint_def snapshot_roundtrip)
qed

definition demo_df :: df_env where
  "demo_df =
     \<lparr> dv_mac = (\<lambda>k b. CHR ''m'' # k @ b), dv_gzip = (\<lambda>b. Some (CHR ''z'' # b)), dv_gunzip = (\<lambda>z. case z of [] \<Rightarrow> None | _ # b \<Rightarrow> Some b),
       dv_parse = (\<lambda>b. if b = ''{fort}'' then Some (J_Obj [(''citizens'', J_Arr [J_Obj []])]) else if b = ''{}'' then Some (J_Obj []) else None),
       dv_time = (\<lambda>_. Some 0) \<rparr>"

lemma dashboard_shows_last_capture_witness:
  "map_option (\<lambda>s. length (ms_citizens s))
     (df_run demo_df ''6b'' ''k''
        [Tick (Some '' {fort} '') Net_Ok, Tick (Some ''{}'') Net_Ok, Tick None Net_Ok,
         Foreign \<lparr> dp_body = Some ''{}'', dp_encoding = [], dp_hmac = ''00'' \<rparr>] None) = Some 1"
proof -
  have "\<not> carries_signature demo_df ''k'' \<lparr> dp_body = Some ''{}'', dp_encoding = [], dp_hmac = ''00'' \<rparr>"
  proof -
    have "hex_decode ''00'' \<noteq> Some (dv_mac demo_df ''k'' ''{}'')" by code_simp
    then show ?thesis by (simp add: carries_signature_def)
  qed
  moreover have "hex_decode ''6b'' = Some ''k''" by code_simp
  ultimately have run: "df_run demo_df ''6b'' ''k''
        [Tick (Some '' {fort} '') Net_Ok, Tick (Some ''{}'') Net_Ok, Tick None Net_Ok,
         Foreign \<lparr> dp_body = Some ''{}'', dp_encoding = [], dp_hmac = ''00'' \<rparr>] None =
      (let cs = concat (map (capture demo_df) [Tick (Some '' {fort} '') Net_Ok, Tick (Some ''{}'') Net_Ok, Tick None Net_Ok,
         Foreign \<lparr> dp_body = Some ''{}'', dp_encoding = [], dp_hmac = ''00'' \<rparr>])
       in if cs = [] then None else Some (List.last cs))"
    using dashboard_shows_last_capture [of "''6b''" "''k''" demo_df
        "[Tick (Some '' {fort} '') Net_Ok, Tick (Some ''{}'') Net_Ok, Tick None Net_Ok,
          Foreign \<lparr> dp_body = Some ''{}'', dp_encoding = [], dp_hmac = ''00'' \<rparr>]" None]
    by (auto simp: demo_df_def)
  show ?thesis unfolding run by code_simp
qed

end
