(* ===== verification/Faulty_Link.thy ===== *)
theory Faulty_Link
  imports Link_Properties
begin

text \<open>
  The link between the bot and the executor as networks are: dialling may fail, a frame may be lost, executed
  without an answer, or held back and executed long after the client gave the connection up, a write or a read
  may be reported as failed whatever became of it. What each operation meets is given by a plan; the calm plans
  are the lossless link. The frames, the executor's side and the client are those of \<open>Overseer_Link\<close>.
\<close>

section \<open>The transport\<close>

datatype fate = Answered | Unanswered | Lost | Held_Back

text \<open>
  What an operation meets: whether the client is told that it worked, what becomes of a frame written, how many
  of the frames held back the executor gets to before it, and the executor's clock.
\<close>

record weather =
  we_ok :: bool
  we_fate :: fate
  we_late :: nat
  we_now :: int

text \<open>
  The network: the executor's end of the client's connection, how many of its acknowledgements were read, the
  frames held back with the connections they were written on, and the number of operations so far.
\<close>

record 'w network_state =
  ne_server :: "'w server"
  ne_read :: nat
  ne_late :: "(frame \<times> 'w server) list"
  ne_step :: nat

definition turn_on :: "'k mac \<Rightarrow> 'k \<Rightarrow> 'w submit_fn \<Rightarrow> frame \<Rightarrow> int \<Rightarrow> bool \<Rightarrow> 'w server \<Rightarrow> 'w server" where
  "turn_on mac key submit f now answered =
     server_turn mac key submit \<lparr> tn_read = Some f, tn_now = now, tn_write_ok = answered \<rparr>"

text \<open>A connection that was given up still executes what was written on it, and answers to no one.\<close>

fun run_late :: "'k mac \<Rightarrow> 'k \<Rightarrow> 'w submit_fn \<Rightarrow> int \<Rightarrow> (frame \<times> 'w server) list \<Rightarrow> 'w \<Rightarrow> 'w" where
  "run_late mac key submit now [] w = w"
| "run_late mac key submit now ((f, s) # late) w =
     run_late mac key submit now late (sv_world (turn_on mac key submit f now False (s\<lparr> sv_world := w \<rparr>)))"

definition catch_up :: "'k mac \<Rightarrow> 'k \<Rightarrow> 'w submit_fn \<Rightarrow> weather \<Rightarrow> 'w network_state \<Rightarrow> 'w network_state" where
  "catch_up mac key submit we n =
     n\<lparr> ne_server := (ne_server n)\<lparr> sv_world :=
           run_late mac key submit (we_now we) (take (we_late we) (ne_late n)) (sv_world (ne_server n)) \<rparr>,
        ne_late := drop (we_late we) (ne_late n), ne_step := Suc (ne_step n) \<rparr>"

definition written :: "'k mac \<Rightarrow> 'k \<Rightarrow> 'w submit_fn \<Rightarrow> weather \<Rightarrow> frame \<Rightarrow> 'w network_state \<Rightarrow> 'w network_state" where
  "written mac key submit we f n =
     (case we_fate we of
        Answered \<Rightarrow> n\<lparr> ne_server := turn_on mac key submit f (we_now we) True (ne_server n) \<rparr>
      | Unanswered \<Rightarrow> n\<lparr> ne_server := turn_on mac key submit f (we_now we) False (ne_server n) \<rparr>
      | Lost \<Rightarrow> n
      | Held_Back \<Rightarrow> n\<lparr> ne_late := ne_late n @ [(f, ne_server n)] \<rparr>)"

definition faulty_transport ::
  "'k mac \<Rightarrow> 'k \<Rightarrow> 'w submit_fn \<Rightarrow> (nat \<Rightarrow> weather) \<Rightarrow> (unit, 'w network_state) transport" where
  "faulty_transport mac key submit plan =
     \<lparr> tp_dial = (\<lambda>n. let we = plan (ne_step n); n1 = catch_up mac key submit we n
         in if we_ok we then (Some (), n1\<lparr> ne_server := server_init (sv_world (ne_server n1)), ne_read := 0 \<rparr>)
            else (None, n1)),
       tp_write = (\<lambda>h f n. let we = plan (ne_step n); n1 = catch_up mac key submit we n
         in (we_ok we, written mac key submit we f n1)),
       tp_read = (\<lambda>h n. let we = plan (ne_step n); n1 = catch_up mac key submit we n
         in if we_ok we \<and> ne_read n1 < length (sv_acks (ne_server n1))
            then (Some (sv_acks (ne_server n1) ! ne_read n1), n1\<lparr> ne_read := Suc (ne_read n1) \<rparr>)
            else (None, n1)),
       tp_close = (\<lambda>h n. n) \<rparr>"

definition calm_plan :: "(nat \<Rightarrow> int) \<Rightarrow> nat \<Rightarrow> weather" where
  "calm_plan clock i = \<lparr> we_ok = True, we_fate = Answered, we_late = 0, we_now = clock i \<rparr>"

lemma catch_up_calm [simp]: "catch_up mac key submit (calm_plan clock i) n = n\<lparr> ne_step := Suc (ne_step n) \<rparr>"
  by (cases n; cases "ne_server n") (simp add: catch_up_def calm_plan_def)

interpretation calm: lossless_link mac key submit "faulty_transport mac key submit (calm_plan clock)" ne_server ne_read
  for mac :: "'k mac" and key :: 'k and submit :: "'w submit_fn" and clock :: "nat \<Rightarrow> int"
proof unfold_locales
  fix n :: "'w network_state" and h :: unit and f :: frame
  show "\<exists>h n'. tp_dial (faulty_transport mac key submit (calm_plan clock)) n = (Some h, n') \<and>
      ne_server n' = server_init (sv_world (ne_server n)) \<and> ne_read n' = 0"
    by (simp add: faulty_transport_def Let_def) (simp add: calm_plan_def)
  show "\<exists>n' now. tp_write (faulty_transport mac key submit (calm_plan clock)) h f n = (True, n') \<and> ne_read n' = ne_read n \<and>
      ne_server n' = server_turn mac key submit \<lparr> tn_read = Some f, tn_now = now, tn_write_ok = True \<rparr> (ne_server n)"
    by (simp add: faulty_transport_def Let_def) (auto simp: calm_plan_def written_def turn_on_def)
  show "\<exists>n'. tp_read (faulty_transport mac key submit (calm_plan clock)) h n = (Some (sv_acks (ne_server n) ! ne_read n), n') \<and>
      ne_server n' = ne_server n \<and> ne_read n' = Suc (ne_read n)"
    if "ne_read n < length (sv_acks (ne_server n))"
    using that by (simp add: faulty_transport_def Let_def) (simp add: calm_plan_def)
qed

section \<open>One command on a faulty link\<close>

definition command_frame :: "'k mac \<Rightarrow> 'k \<Rightarrow> command \<Rightarrow> frame \<Rightarrow> bool" where
  "command_frame mac key cmd f \<longleftrightarrow> (\<exists>sq now. f = marshal_envelope mac EnvCommand sq (PCommand cmd) key now)"

definition answer_frame :: "'k mac \<Rightarrow> 'k \<Rightarrow> command \<Rightarrow> string option \<Rightarrow> frame \<Rightarrow> bool" where
  "answer_frame mac key cmd err f \<longleftrightarrow>
     (\<exists>sq t now. f = marshal_envelope mac EnvExecutedCmd sq (PExecuted (executed_of cmd err t)) key now)"

text \<open>A turn on a frame of the command executes it or does nothing, and answers what the executor said.\<close>

lemma turn_on_command:
  assumes "command_frame mac key cmd f"
  shows "sv_world (turn_on mac key submit f now ok s) = sv_world s \<and> sv_acks (turn_on mac key submit f now ok s) = sv_acks s \<or>
    sv_world (turn_on mac key submit f now ok s) = snd (submit (cmd_action cmd) (sv_world s)) \<and>
    (sv_acks (turn_on mac key submit f now ok s) = sv_acks s \<or>
     (\<exists>ack. sv_acks (turn_on mac key submit f now ok s) = sv_acks s @ [ack] \<and>
        answer_frame mac key cmd (fst (submit (cmd_action cmd) (sv_world s))) ack))"
proof -
  obtain sq t where f: "f = marshal_envelope mac EnvCommand sq (PCommand cmd) key t"
    using assms unfolding command_frame_def by blast
  obtain err w where sub: "submit (cmd_action cmd) (sv_world s) = (err, w)" by force
  show ?thesis
    by (auto simp: turn_on_def server_turn_def f marshal_envelope_def compute_hmac_def server_execute_def sub Let_def
        answer_frame_def)
qed

text \<open>The world after the command was executed a number of times.\<close>

definition executed_times :: "'w submit_fn \<Rightarrow> command \<Rightarrow> nat \<Rightarrow> 'w \<Rightarrow> 'w" where
  "executed_times submit cmd k = ((\<lambda>w. snd (submit (cmd_action cmd) w)) ^^ k)"

lemma executed_times_Suc: "executed_times submit cmd (Suc k) w = snd (submit (cmd_action cmd) (executed_times submit cmd k w))"
  by (simp add: executed_times_def)

lemma executed_times_shift: "executed_times submit cmd k (snd (submit (cmd_action cmd) w)) = executed_times submit cmd (Suc k) w"
  by (induction k) (simp_all add: executed_times_Suc, simp add: executed_times_def)

lemma run_late_executes:
  assumes "\<forall>(f, s) \<in> set late. command_frame mac key cmd f"
  shows "\<exists>i \<le> length late. run_late mac key submit now late w = executed_times submit cmd i w"
  using assms
proof (induction late arbitrary: w)
  case (Cons fs late)
  obtain f s where fs: "fs = (f, s)" by (cases fs)
  define w1 where "w1 = sv_world (turn_on mac key submit f now False (s\<lparr> sv_world := w \<rparr>))"
  obtain i where i: "i \<le> length late" "run_late mac key submit now late w1 = executed_times submit cmd i w1"
    using Cons.IH [of w1] Cons.prems by auto
  have "command_frame mac key cmd f" using Cons.prems fs by simp
  from turn_on_command [OF this, of submit now False "s\<lparr> sv_world := w \<rparr>"]
  have w1: "w1 = w \<or> w1 = snd (submit (cmd_action cmd) w)" by (auto simp: w1_def)
  have "run_late mac key submit now (fs # late) w = executed_times submit cmd i w1" using i(2) by (simp add: fs w1_def)
  moreover have "executed_times submit cmd i (snd (submit (cmd_action cmd) w)) = executed_times submit cmd (Suc i) w"
    by (simp add: executed_times_shift)
  ultimately show ?case using w1 i(1) by (metis Suc_le_mono le_Suc_eq length_Cons)
qed (simp add: executed_times_def)

text \<open>
  What holds of a command under way since the world was \<open>w0\<close>: it was executed some number of times, that number
  and the frames held back together are bounded by the frames written, and what is still to be read on an open
  connection answers one of those executions.
\<close>

definition answers_one ::
  "'k mac \<Rightarrow> 'k \<Rightarrow> 'w submit_fn \<Rightarrow> command \<Rightarrow> 'w \<Rightarrow> nat \<Rightarrow> frame \<Rightarrow> bool" where
  "answers_one mac key submit cmd w0 i ack \<longleftrightarrow>
     (\<exists>j < i. answer_frame mac key cmd (fst (submit (cmd_action cmd) (executed_times submit cmd j w0))) ack)"

lemma answers_one_mono: "answers_one mac key submit cmd w0 i ack \<Longrightarrow> i \<le> i' \<Longrightarrow> answers_one mac key submit cmd w0 i' ack"
  unfolding answers_one_def using less_le_trans by blast

definition under_way ::
  "'k mac \<Rightarrow> 'k \<Rightarrow> 'w submit_fn \<Rightarrow> command \<Rightarrow> 'w \<Rightarrow> nat \<Rightarrow> bool \<Rightarrow> nat \<Rightarrow> 'w network_state \<Rightarrow> bool" where
  "under_way mac key submit cmd w0 sent alive i n \<longleftrightarrow>
     sv_world (ne_server n) = executed_times submit cmd i w0 \<and> i + length (ne_late n) \<le> sent \<and>
     (\<forall>(f, s) \<in> set (ne_late n). command_frame mac key cmd f) \<and>
     (alive \<longrightarrow> (\<forall>ack \<in> set (drop (ne_read n) (sv_acks (ne_server n))). answers_one mac key submit cmd w0 i ack))"

lemma catch_up_under_way:
  assumes "under_way mac key submit cmd w0 sent alive i n"
  shows "\<exists>i'. i \<le> i' \<and> under_way mac key submit cmd w0 sent alive i' (catch_up mac key submit we n)"
proof -
  let ?k = "we_late we"
  have "\<forall>(f, s) \<in> set (take ?k (ne_late n)). command_frame mac key cmd f"
    using assms by (auto simp: under_way_def dest: in_set_takeD)
  then obtain k where k: "k \<le> length (take ?k (ne_late n))"
      "run_late mac key submit (we_now we) (take ?k (ne_late n)) (sv_world (ne_server n)) =
        executed_times submit cmd k (sv_world (ne_server n))"
    using run_late_executes by metis
  have w: "executed_times submit cmd k (sv_world (ne_server n)) = executed_times submit cmd (k + i) w0"
    using assms by (simp add: under_way_def executed_times_def funpow_add)
  have "k + i + length (drop ?k (ne_late n)) \<le> sent"
  proof -
    have "length (take ?k (ne_late n)) + length (drop ?k (ne_late n)) = length (ne_late n)" by simp
    then show ?thesis using k(1) assms unfolding under_way_def by linarith
  qed
  moreover have "\<forall>ack \<in> set (drop (ne_read n) (sv_acks (ne_server n))). answers_one mac key submit cmd w0 (k + i) ack"
    if alive
    using assms that answers_one_mono [of mac key submit cmd w0 i _ "k + i"] by (simp add: under_way_def)
  moreover have "\<forall>(f, s) \<in> set (drop ?k (ne_late n)). command_frame mac key cmd f"
    using assms by (auto simp: under_way_def dest: in_set_dropD)
  ultimately have "under_way mac key submit cmd w0 sent alive (k + i) (catch_up mac key submit we n)"
    using k w by (simp add: under_way_def catch_up_def)
  then show ?thesis using le_add2 by blast
qed

lemma written_under_way:
  assumes "under_way mac key submit cmd w0 sent True i n" and "command_frame mac key cmd f"
  shows "\<exists>i'. i \<le> i' \<and> under_way mac key submit cmd w0 (Suc sent) True i' (written mac key submit we f n)"
proof -
  have step: "\<exists>i'. i \<le> i' \<and> under_way mac key submit cmd w0 (Suc sent) True i'
      (n\<lparr> ne_server := turn_on mac key submit f now ok (ne_server n) \<rparr>)" for now ok
  proof -
    let ?s = "turn_on mac key submit f now ok (ne_server n)"
    have w: "sv_world (ne_server n) = executed_times submit cmd i w0"
      and late: "i + length (ne_late n) \<le> sent" "\<forall>(f, s) \<in> set (ne_late n). command_frame mac key cmd f"
      using assms(1) by (simp_all add: under_way_def)
    have old: "\<forall>a \<in> set (drop (ne_read n) (sv_acks (ne_server n))). answers_one mac key submit cmd w0 (Suc i) a"
      using assms(1) answers_one_mono [of mac key submit cmd w0 i _ "Suc i"] by (simp add: under_way_def)
    from turn_on_command [OF assms(2), of submit now ok "ne_server n"]
    consider (same) "sv_world ?s = sv_world (ne_server n)" "sv_acks ?s = sv_acks (ne_server n)"
      | (mute) "sv_world ?s = snd (submit (cmd_action cmd) (sv_world (ne_server n)))" "sv_acks ?s = sv_acks (ne_server n)"
      | (answered) ack where "sv_world ?s = snd (submit (cmd_action cmd) (sv_world (ne_server n)))"
          "sv_acks ?s = sv_acks (ne_server n) @ [ack]"
          "answer_frame mac key cmd (fst (submit (cmd_action cmd) (sv_world (ne_server n)))) ack"
      by blast
    then show ?thesis
    proof cases
      case same
      then have "under_way mac key submit cmd w0 (Suc sent) True i (n\<lparr> ne_server := ?s \<rparr>)"
        using assms(1) by (simp add: under_way_def)
      then show ?thesis by blast
    next
      case mute
      then have "under_way mac key submit cmd w0 (Suc sent) True (Suc i) (n\<lparr> ne_server := ?s \<rparr>)"
        using old late by (simp add: under_way_def executed_times_Suc w)
      then show ?thesis using le_SucI by blast
    next
      case answered
      have "answers_one mac key submit cmd w0 (Suc i) ack" using answered(3) w by (auto simp: answers_one_def)
      then have "\<forall>a \<in> set (drop (ne_read n) (sv_acks ?s)). answers_one mac key submit cmd w0 (Suc i) a"
        using old in_set_dropD [of _ "ne_read n - length (sv_acks (ne_server n))" "[ack]"] by (auto simp: answered(2))
      then have "under_way mac key submit cmd w0 (Suc sent) True (Suc i) (n\<lparr> ne_server := ?s \<rparr>)"
        using answered(1) late by (simp add: under_way_def executed_times_Suc w)
      then show ?thesis using le_SucI by blast
    qed
  qed
  show ?thesis
  proof (cases "we_fate we")
    case Lost
    then have "under_way mac key submit cmd w0 (Suc sent) True i (written mac key submit we f n)"
      using assms(1) by (simp add: written_def under_way_def)
    then show ?thesis by blast
  next
    case Held_Back
    then have "under_way mac key submit cmd w0 (Suc sent) True i (written mac key submit we f n)"
      using assms by (auto simp: written_def under_way_def)
    then show ?thesis by blast
  qed (simp_all add: written_def step)
qed


text \<open>What one attempt leaves, whatever happens to it.\<close>

lemma check_ack_answer:
  assumes "check_ack mac key ack c = (Inr e, c1)" and "answers_one mac key submit cmd w0 i ack"
  shows "\<exists>j < i. \<exists>t. e = executed_of cmd (fst (submit (cmd_action cmd) (executed_times submit cmd j w0))) t"
proof -
  obtain j sq t u where j: "j < i" and ack: "ack = marshal_envelope mac EnvExecutedCmd sq
      (PExecuted (executed_of cmd (fst (submit (cmd_action cmd) (executed_times submit cmd j w0))) t)) key u"
    using assms(2) unfolding answers_one_def answer_frame_def by blast
  have "e = executed_of cmd (fst (submit (cmd_action cmd) (executed_times submit cmd j w0))) t"
    using assms(1) by (auto simp: ack check_ack_def marshal_envelope_def compute_hmac_def Let_def split: if_splits)
  then show ?thesis using j by blast
qed

definition honest_result ::
  "'w submit_fn \<Rightarrow> command \<Rightarrow> 'w \<Rightarrow> nat \<Rightarrow> 'a + executed_cmd \<Rightarrow> bool" where
  "honest_result submit cmd w0 i r \<longleftrightarrow>
     (\<forall>e. r = Inr e \<longrightarrow> (\<exists>j < i. \<exists>t. e = executed_of cmd (fst (submit (cmd_action cmd) (executed_times submit cmd j w0))) t))"

lemma read_under_way:
  assumes "under_way mac key submit cmd w0 sent True i n"
  shows "\<exists>i' got n'. i \<le> i' \<and> tp_read (faulty_transport mac key submit plan) h n = (got, n') \<and>
    under_way mac key submit cmd w0 sent True i' n' \<and> (\<forall>ack. got = Some ack \<longrightarrow> answers_one mac key submit cmd w0 i' ack)"
proof -
  let ?n = "catch_up mac key submit (plan (ne_step n)) n"
  obtain i' where i': "i \<le> i'" "under_way mac key submit cmd w0 sent True i' ?n"
    using catch_up_under_way [OF assms] by blast
  show ?thesis
  proof (cases "we_ok (plan (ne_step n)) \<and> ne_read ?n < length (sv_acks (ne_server ?n))")
    case True
    let ?acks = "sv_acks (ne_server ?n)" and ?k = "ne_read ?n"
    have d: "drop ?k ?acks = ?acks ! ?k # drop (Suc ?k) ?acks" using True by (simp add: Cons_nth_drop_Suc)
    have "answers_one mac key submit cmd w0 i' (?acks ! ?k)" using i'(2) d by (simp add: under_way_def)
    moreover have "under_way mac key submit cmd w0 sent True i' (?n\<lparr> ne_read := Suc ?k \<rparr>)"
      using i'(2) d by (simp add: under_way_def)
    ultimately show ?thesis using True i'(1) by (auto simp: faulty_transport_def Let_def)
  next
    case False
    then show ?thesis using i' by (auto simp: faulty_transport_def Let_def)
  qed
qed

lemma drop_conn_faulty: "\<exists>c'. drop_conn (faulty_transport mac key submit plan) c n = (c', n) \<and> cl_conn c' = None"
  by (cases "cl_conn c") (simp_all add: drop_conn_def faulty_transport_def)

lemma connect_under_way:
  assumes "under_way mac key submit cmd w0 sent (cl_conn c \<noteq> None) i n"
  shows "\<exists>h i' c1 n1. i \<le> i' \<and> ensure_connected (faulty_transport mac key submit plan) c n = (h, c1, n1) \<and>
    under_way mac key submit cmd w0 sent (h \<noteq> None) i' n1 \<and> (h = None \<longrightarrow> c1 = c \<and> cl_conn c = None) \<and> cl_conn c1 = h"
proof (cases "cl_conn c")
  case None
  let ?n = "catch_up mac key submit (plan (ne_step n)) n"
  obtain i' where i': "i \<le> i'" "under_way mac key submit cmd w0 sent False i' ?n"
    using catch_up_under_way [OF assms] None by auto
  show ?thesis
  proof (cases "we_ok (plan (ne_step n))")
    case True
    have "under_way mac key submit cmd w0 sent True i' (?n\<lparr> ne_server := server_init (sv_world (ne_server ?n)), ne_read := 0 \<rparr>)"
      using i'(2) by (simp add: under_way_def server_init_def)
    then show ?thesis using True None i'(1) by (auto simp: ensure_connected_def faulty_transport_def Let_def)
  next
    case False
    then show ?thesis using None i' by (auto simp: ensure_connected_def faulty_transport_def Let_def)
  qed
next
  case (Some h)
  then show ?thesis using assms by (auto simp: ensure_connected_def)
qed

lemma send_once_under_way:
  assumes "under_way mac key submit cmd w0 sent (cl_conn c \<noteq> None) i n"
  shows "\<exists>r c' n' i'. send_once mac key (faulty_transport mac key submit plan) now cmd (c, n) = (r, c', n') \<and>
    under_way mac key submit cmd w0 (Suc sent) (cl_conn c' \<noteq> None) i' n' \<and> honest_result submit cmd w0 i' r"
proof -
  let ?tp = "faulty_transport mac key submit plan"
  obtain h i1 c1 n1 where ec: "ensure_connected ?tp c n = (h, c1, n1)" and i1: "i \<le> i1"
    and u1: "under_way mac key submit cmd w0 sent (h \<noteq> None) i1 n1"
    and h: "h = None \<longrightarrow> c1 = c \<and> cl_conn c = None" "cl_conn c1 = h"
    using connect_under_way [OF assms, of plan] by blast
  have more: "under_way mac key submit cmd w0 (Suc sent) up j m" if "under_way mac key submit cmd w0 sent up j m" for up j m
    using that by (simp add: under_way_def)
  have down: "under_way mac key submit cmd w0 b False j m" if "under_way mac key submit cmd w0 b up j m" for up b j m
    using that by (simp add: under_way_def)
  show ?thesis
  proof (cases h)
    case None
    then show ?thesis using ec more [OF u1] h by (auto simp: send_once_def honest_result_def)
  next
    case (Some hd)
    let ?sq = "Suc (cl_sent_seq c1)"
    let ?c = "c1\<lparr> cl_sent_seq := ?sq \<rparr>"
    let ?f = "marshal_envelope mac EnvCommand ?sq (PCommand cmd) key now"
    let ?we = "plan (ne_step n1)"
    let ?n = "catch_up mac key submit ?we n1"
    have cf: "command_frame mac key cmd ?f" unfolding command_frame_def by blast
    obtain i2 where u2: "under_way mac key submit cmd w0 sent True i2 ?n"
      using catch_up_under_way [OF u1] Some by auto
    obtain i3 where u3: "under_way mac key submit cmd w0 (Suc sent) True i3 (written mac key submit ?we ?f ?n)"
      using written_under_way [OF u2 cf] by blast
    have wr: "tp_write ?tp hd ?f n1 = (we_ok ?we, written mac key submit ?we ?f ?n)"
      by (simp add: faulty_transport_def Let_def)
    show ?thesis
    proof (cases "we_ok ?we")
      case False
      obtain c' where "drop_conn ?tp ?c (written mac key submit ?we ?f ?n) = (c', written mac key submit ?we ?f ?n)" "cl_conn c' = None"
        using drop_conn_faulty [of mac key submit plan ?c "written mac key submit ?we ?f ?n"] by blast
      then have "send_once mac key ?tp now cmd (c, n) = (Inl (True, WriteError), c', written mac key submit ?we ?f ?n)"
        using False wr ec Some by (simp add: send_once_def Let_def)
      then show ?thesis using down [OF u3] \<open>cl_conn c' = None\<close> by (auto simp: honest_result_def)
    next
      case True
      obtain i4 got n4 where rd: "tp_read ?tp hd (written mac key submit ?we ?f ?n) = (got, n4)"
        and u4: "under_way mac key submit cmd w0 (Suc sent) True i4 n4"
        and got: "\<forall>ack. got = Some ack \<longrightarrow> answers_one mac key submit cmd w0 i4 ack"
        using read_under_way [OF u3] by blast
      have so: "send_once mac key ?tp now cmd (c, n) =
          (case got of None \<Rightarrow> (Inl (True, ReadError), drop_conn ?tp ?c n4)
           | Some buf \<Rightarrow> (case check_ack mac key buf ?c of
               (Inl (dropped, e), c2) \<Rightarrow> (Inl (False, e), if dropped then drop_conn ?tp c2 n4 else (c2, n4))
             | (Inr e, c2) \<Rightarrow> (Inr e, c2, n4)))"
        using True wr rd ec Some by (simp add: send_once_def Let_def)
      show ?thesis
      proof (cases got)
        case None
        obtain c' where "drop_conn ?tp ?c n4 = (c', n4)" "cl_conn c' = None"
          using drop_conn_faulty [of mac key submit plan ?c n4] by blast
        then show ?thesis using so None down [OF u4] by (auto simp: honest_result_def)
      next
        case (Some ack)
        have keep: "under_way mac key submit cmd w0 (Suc sent) up i4 n4" for up using u4 by (simp add: under_way_def)
        obtain r c2 where ca: "check_ack mac key ack ?c = (r, c2)" by fastforce
        show ?thesis
        proof (cases r)
          case (Inr e)
          then have "honest_result submit cmd w0 i4 (Inr e :: (bool \<times> link_error) + executed_cmd)"
            using check_ack_answer [of mac key ack ?c e c2 submit cmd w0 i4] ca got Some by (auto simp: honest_result_def)
          then show ?thesis using so Some ca Inr keep by auto
        next
          case (Inl de)
          obtain d e where de: "de = (d, e)" by (cases de)
          obtain c' where "drop_conn ?tp c2 n4 = (c', n4)"
            using drop_conn_faulty [of mac key submit plan c2 n4] by blast
          then obtain c3 where "send_once mac key ?tp now cmd (c, n) = (Inl (False, e), c3, n4)"
            using so Some ca Inl de by (cases d) auto
          moreover have "honest_result submit cmd w0 i4 (Inl (False, e) :: (bool \<times> link_error) + executed_cmd)"
            by (simp add: honest_result_def)
          ultimately show ?thesis using keep [of "cl_conn c3 \<noteq> None"] by blast
        qed
      qed
    qed
  qed
qed

lemma client_send_under_way:
  assumes "under_way mac key submit cmd w0 0 (cl_conn c \<noteq> None) 0 n"
  shows "\<exists>r c' n' i. client_send mac key (faulty_transport mac key submit plan) now1 now2 cmd (c, n) = (r, c', n') \<and>
    under_way mac key submit cmd w0 2 (cl_conn c' \<noteq> None) i n' \<and> honest_result submit cmd w0 i r"
proof -
  let ?tp = "faulty_transport mac key submit plan"
  obtain r1 c1 n1 i1 where s1: "send_once mac key ?tp now1 cmd (c, n) = (r1, c1, n1)"
    and u1: "under_way mac key submit cmd w0 (Suc 0) (cl_conn c1 \<noteq> None) i1 n1" and r1: "honest_result submit cmd w0 i1 r1"
    using send_once_under_way [OF assms, of plan now1] by blast
  have more: "under_way mac key submit cmd w0 2 up i1 n1" if "under_way mac key submit cmd w0 (Suc 0) up i1 n1" for up
    using that by (simp add: under_way_def)
  obtain r2 c2 n2 i2 where s2: "send_once mac key ?tp now2 cmd (c1, n1) = (r2, c2, n2)"
    and u2: "under_way mac key submit cmd w0 2 (cl_conn c2 \<noteq> None) i2 n2" and r2: "honest_result submit cmd w0 i2 r2"
    using send_once_under_way [OF u1, of plan now2] by (auto simp: numeral_2_eq_2)
  show ?thesis
  proof (cases r1)
    case (Inr e)
    then show ?thesis using s1 more [OF u1] r1 by (auto simp: client_send_def honest_result_def)
  next
    case (Inl fe)
    obtain retry e where fe: "fe = (retry, e)" by (cases fe)
    show ?thesis
    proof (cases retry)
      case False
      then show ?thesis using s1 more [OF u1] Inl fe by (auto simp: client_send_def honest_result_def)
    next
      case True
      then show ?thesis using s1 s2 u2 r2 Inl fe by (cases r2) (auto simp: client_send_def honest_result_def)
    qed
  qed
qed

text \<open>The link at rest: nothing is held back, and an open connection is in step.\<close>

definition at_rest :: "unit client \<Rightarrow> 'w network_state \<Rightarrow> bool" where
  "at_rest c n \<longleftrightarrow> ne_late n = [] \<and> calm.synced c n"

lemma at_rest_under_way: "at_rest c n \<Longrightarrow> under_way mac key submit cmd (sv_world (ne_server n)) 0 (cl_conn c \<noteq> None) 0 n"
  by (simp add: at_rest_def calm.synced_def under_way_def executed_times_def)

end
