(* ===== verification/Df_Command.thy ===== *)
theory Df_Command
  imports Game_Commands Verb_Parse Faulty_Link
begin

text \<open>
  \<^verbatim>\<open>twitchbot/cmd_df.go\<close>: the chat command that drives the fortress, from the words of the chatter to the
  reply, over the link of theory \<open>Overseer_Link\<close>. The id of the command, the times and the texts of the link's
  errors are parameters. (The dispatch of \<^verbatim>\<open>!df\<close> is commented out in \<^verbatim>\<open>bot_read_message.go\<close>; the handler is kept.)
\<close>

section \<open>The reply\<close>

definition em_dash :: string where
  "em_dash = [CHR 0xE2, CHR 0x80, CHR 0x94]"

definition point3 :: "position \<Rightarrow> string" where
  "point3 p = ''('' @ itoa (pos_x p) @ '', '' @ itoa (pos_y p) @ '', '' @ itoa (pos_z p) @ '')''"

definition point2 :: "position \<Rightarrow> string" where
  "point2 p = ''('' @ itoa (pos_x p) @ '', '' @ itoa (pos_y p) @ '')''"

definition region_size :: "region \<Rightarrow> string" where
  "region_size r =
     itoa (wrap64 (abs64 (wrap64 (pos_x (rmax r) - pos_x (rmin r))) + 1)) @ ''x'' @
     itoa (wrap64 (abs64 (wrap64 (pos_y (rmax r) - pos_y (rmin r))) + 1))"

definition dig_noun :: "action_kind \<Rightarrow> string" where
  "dig_noun k =
     (case k of KindChannel \<Rightarrow> ''channel'' | KindDigRamp \<Rightarrow> ''ramp'' | KindCutTree \<Rightarrow> ''tree-chop'' | _ \<Rightarrow> ''dig'')"

definition material_prefix :: "action \<Rightarrow> string" where
  "material_prefix a = (case act_material a of None \<Rightarrow> [] | Some m \<Rightarrow> m @ '' '')"

definition reply_dig :: "action \<Rightarrow> string" where
  "reply_dig a =
     (case act_region a of
        Some r \<Rightarrow> '' designated '' @ region_size r @ '' '' @ dig_noun (act_kind a) @ '' area from '' @ point3 (rmin r) @ '' to '' @
          point2 (rmax r)
      | None \<Rightarrow> '' designated '' @ dig_noun (act_kind a) @ '' area'')"

definition reply_area :: "string \<Rightarrow> string \<Rightarrow> action \<Rightarrow> string" where
  "reply_area verb noun a =
     (case act_region a of
        Some r \<Rightarrow> verb @ region_size r @ '' '' @ act_item a @ noun @ '' at '' @ point3 (rmin r)
      | None \<Rightarrow> verb @ act_item a @ noun)"

definition df_success_reply :: "string \<Rightarrow> action \<Rightarrow> string" where
  "df_success_reply username a = ''@'' @ username @
     (case act_kind a of
        KindManufacture \<Rightarrow> '' queued '' @ itoa (act_quantity a) @ '' '' @ material_prefix a @ act_item a @ pluralize (act_quantity a)
      | KindPause \<Rightarrow> '' paused DF''
      | KindUnpause \<Rightarrow> '' unpaused DF''
      | KindCamera \<Rightarrow> (case act_position a of Some p \<Rightarrow> '' moved camera to '' @ point3 p | None \<Rightarrow> '' moved camera'')
      | KindPlace \<Rightarrow> '' placed '' @ act_item a @ (case act_position a of Some p \<Rightarrow> '' at '' @ point3 p | None \<Rightarrow> [])
      | KindBrew \<Rightarrow> '' queued '' @ itoa (act_quantity a) @ '' brew'' @ pluralize (act_quantity a) @ '' from '' @ act_item a
      | KindMine \<Rightarrow> reply_dig a
      | KindChannel \<Rightarrow> reply_dig a
      | KindDigRamp \<Rightarrow> reply_dig a
      | KindCutTree \<Rightarrow> reply_dig a
      | KindStockpile \<Rightarrow> reply_area '' built '' '' stockpile'' a
      | KindZone \<Rightarrow> reply_area '' designated '' '' zone'' a
      | KindAppoint \<Rightarrow> '' appointed unit #'' @ itoa (act_unit a) @ '' as '' @ act_office a
      | KindTaskat \<Rightarrow> '' queued '' @ itoa (act_quantity a) @ '' '' @ material_prefix a @ act_item a @ pluralize (act_quantity a) @
          '' at workshop #'' @ itoa (act_workshop a)
      | k \<Rightarrow> '' executed '' @ kind_string k)"

section \<open>The handler\<close>

definition df_help_text :: "string \<Rightarrow> string" where
  "df_help_text username = ''@'' @ username @
     '' !DF: make [N] <material> <item> | place <item> <x> <y> <z> | brew [N] <fruit|plant> | mine <x,y,z> <x,y> | camera <x> <y> <z> | appoint <position> <id> | pause | unpause | help''"

definition df_command :: "string \<Rightarrow> int \<Rightarrow> string \<Rightarrow> string \<Rightarrow> string \<Rightarrow> action \<Rightarrow> command" where
  "df_command cid now raw username channel a =
     \<lparr> cmd_id = cid, cmd_received_at = now, cmd_raw_text = raw,
       cmd_from = \<lparr> src_username = username, src_platform = ''twitch'', src_channel = channel \<rparr>, cmd_action = a \<rparr>"

text \<open>What is said of the executor's answer.\<close>

definition df_answer :: "(link_error \<Rightarrow> string) \<Rightarrow> string \<Rightarrow> action \<Rightarrow> link_error + executed_cmd \<Rightarrow> string" where
  "df_answer err_text username a r =
     (case r of
        Inl e \<Rightarrow> ''@'' @ username @ '' '' @ em_dash @ '' couldn't reach DF: '' @ err_text e
      | Inr x \<Rightarrow>
          if ex_result x = ExecError then ''@'' @ username @ '' '' @ em_dash @ '' couldn't queue: '' @ ex_error_message x
          else df_success_reply username a)"

definition handle_df_command ::
  "(link_error \<Rightarrow> string) \<Rightarrow> 'k mac \<Rightarrow> 'k \<Rightarrow> ('c, 'n) transport \<Rightarrow> string \<Rightarrow> int \<Rightarrow> int \<Rightarrow> int \<Rightarrow> string \<Rightarrow> string \<Rightarrow> string
     \<Rightarrow> string \<Rightarrow> string \<Rightarrow> 'c client \<times> 'n \<Rightarrow> bot_action list \<times> 'c client \<times> 'n" where
  "handle_df_command err_text mac key tp cid now now1 now2 raw args username channel channel_id cn =
     (case parse_command args of
        Inl (Reject msg) \<Rightarrow> ([Say channel_id (''@'' @ username @ '' '' @ em_dash @ '' '' @ msg)], cn)
      | Inl _ \<Rightarrow> ([], cn)
      | Inr a \<Rightarrow>
          if act_kind a = KindHelp then ([Say channel_id (df_help_text username)], cn)
          else (case client_send mac key tp now1 now2 (df_command cid now raw username channel a) cn of
                  (r, cn') \<Rightarrow> ([Say channel_id (df_answer err_text username a r)], cn')))"

section \<open>Facts\<close>

lemma df_parse_error_keeps: "parse_command args = Inl e \<Longrightarrow>
    snd (handle_df_command err_text mac key tp cid now now1 now2 raw args username channel channel_id cn) = cn"
  by (cases e) (simp_all add: handle_df_command_def)

text \<open>A chatter is never left guessing, save by a parse error that is not a rejection.\<close>

lemma df_one_reply:
  "length (fst (handle_df_command err_text mac key tp cid now now1 now2 raw args username channel channel_id cn)) \<le> 1"
  by (simp add: handle_df_command_def split: sum.split parse_error.split prod.split)

lemma demo_pause: "parse_command ''pause'' = Inr (action_of_kind KindPause)"
  by code_simp

text \<open>What a chatter is told of an execution that the executor accepted or refused.\<close>

definition truth_of :: "string \<Rightarrow> action \<Rightarrow> string option \<Rightarrow> string" where
  "truth_of username a answer =
     (case answer of
        None \<Rightarrow> df_success_reply username a
      | Some e \<Rightarrow> ''@'' @ username @ '' '' @ em_dash @ '' couldn't queue: '' @ e)"

definition unreached :: "(link_error \<Rightarrow> string) \<Rightarrow> string \<Rightarrow> string \<Rightarrow> bool" where
  "unreached err_text username said \<longleftrightarrow> (\<exists>e. said = ''@'' @ username @ '' '' @ em_dash @ '' couldn't reach DF: '' @ err_text e)"

lemma df_answer_executed: "df_answer err_text username (cmd_action cmd) (Inr (executed_of cmd err t)) = truth_of username (cmd_action cmd) err"
  by (simp add: df_answer_def executed_of_def truth_of_def split: option.split)

lemma df_command_on_faulty_link:
  fixes mac :: "'k mac" and n :: "'w network_state"
  assumes "parse_command args = Inr a" and "act_kind a \<noteq> KindHelp" and "at_rest c n"
  shows "\<exists>said c' n' i. handle_df_command err_text mac key (faulty_transport mac key submit plan) cid now now1 now2 raw args username
        channel channel_id (c, n) = ([Say channel_id said], c', n') \<and>
      sv_world (ne_server n') = ((\<lambda>w. snd (submit a w)) ^^ i) (sv_world (ne_server n)) \<and>
      i + length (ne_late n') \<le> 2 \<and>
      (\<forall>now w. \<exists>j \<le> length (ne_late n'). run_late mac key submit now (ne_late n') w = ((\<lambda>w. snd (submit a w)) ^^ j) w) \<and>
      ((\<exists>j < i. said = truth_of username a (fst (submit a (((\<lambda>w. snd (submit a w)) ^^ j) (sv_world (ne_server n)))))) \<or>
       unreached err_text username said)"
proof -
  let ?cmd = "df_command cid now raw username channel a"
  have act: "cmd_action ?cmd = a" by (simp add: df_command_def)
  obtain r c' n' i where snd: "client_send mac key (faulty_transport mac key submit plan) now1 now2 ?cmd (c, n) = (r, c', n')"
    and u: "under_way mac key submit ?cmd (sv_world (ne_server n)) 2 (cl_conn c' \<noteq> None) i n'"
    and r: "honest_result submit ?cmd (sv_world (ne_server n)) i r"
    using client_send_under_way [OF at_rest_under_way [OF assms(3)], where mac = mac and key = key and submit = submit
        and cmd = ?cmd and plan = plan and ?now1.0 = now1 and ?now2.0 = now2] by blast
  have h: "handle_df_command err_text mac key (faulty_transport mac key submit plan) cid now now1 now2 raw args username
        channel channel_id (c, n) = ([Say channel_id (df_answer err_text username a r)], c', n')"
    using assms(1,2) snd by (simp add: handle_df_command_def)
  have late: "\<forall>now w. \<exists>j \<le> length (ne_late n'). run_late mac key submit now (ne_late n') w = ((\<lambda>w. snd (submit a w)) ^^ j) w"
    using u run_late_executes [of "ne_late n'" mac key ?cmd submit]
    unfolding under_way_def executed_times_def act by blast
  have "(\<exists>j < i. df_answer err_text username a r =
        truth_of username a (fst (submit a (((\<lambda>w. snd (submit a w)) ^^ j) (sv_world (ne_server n)))))) \<or>
      unreached err_text username (df_answer err_text username a r)"
  proof (cases r)
    case (Inl e)
    then show ?thesis by (auto simp: df_answer_def unreached_def)
  next
    case (Inr e)
    then obtain j t where "j < i" "e = executed_of ?cmd (fst (submit a (((\<lambda>w. snd (submit a w)) ^^ j) (sv_world (ne_server n))))) t"
      using r unfolding honest_result_def executed_times_def act by blast
    then show ?thesis using df_answer_executed [of err_text username ?cmd] Inr unfolding act by auto
  qed
  then show ?thesis using h u late
    unfolding under_way_def executed_times_def act by blast
qed

lemma df_command_on_calm_link:
  fixes mac :: "'k mac" and n :: "'w network_state"
  assumes "parse_command args = Inr a" and "act_kind a \<noteq> KindHelp" and "at_rest c n"
  shows "\<exists>c' n'. handle_df_command err_text mac key (faulty_transport mac key submit (calm_plan clock)) cid now now1 now2 raw args
        username channel channel_id (c, n) = ([Say channel_id (truth_of username a (fst (submit a (sv_world (ne_server n)))))], c', n') \<and>
      sv_world (ne_server n') = snd (submit a (sv_world (ne_server n))) \<and> calm.synced c' n'"
proof -
  let ?cmd = "df_command cid now raw username channel a"
  have act: "cmd_action ?cmd = a" by (simp add: df_command_def)
  have "calm.synced c n" using assms(3) by (simp add: at_rest_def)
  from calm.send_synced [OF this, of mac key submit clock now1 now2 ?cmd]
  obtain t c' n' where "client_send mac key (faulty_transport mac key submit (calm_plan clock)) now1 now2 ?cmd (c, n) =
      (Inr (executed_of ?cmd (fst (submit a (sv_world (ne_server n)))) t), c', n')"
    "sv_world (ne_server n') = snd (submit a (sv_world (ne_server n)))" "calm.synced c' n'"
    unfolding act by blast
  then show ?thesis using assms(1,2) df_answer_executed [of err_text username ?cmd]
    unfolding act by (auto simp: handle_df_command_def)
qed


text \<open>
  A chatter pauses a game that counts its commands. On a calm link it counts one. When the executor's answers are
  lost, the command is executed twice and the chatter is told that the fortress could not be reached.
\<close>

definition demo_network :: "nat network_state" where
  "demo_network = \<lparr> ne_server = server_init 3, ne_read = 0, ne_late = [], ne_step = 0 \<rparr>"

definition demo_unanswered :: "nat \<Rightarrow> weather" where
  "demo_unanswered i = \<lparr> we_ok = True, we_fate = Unanswered, we_late = 0, we_now = 0 \<rparr>"


end
