(* ===== verification/Net_Url.thy ===== *)
theory Net_Url
  imports Json
begin

text \<open>
  What the services use of Go's \<^verbatim>\<open>net/url\<close> and \<^verbatim>\<open>net\<close>: parsing a URL, its host name, and the test whether a
  host is a loopback address. The rules are those of Go 1.26 (one colon in a host that is not bracketed, only
  IPv6 addresses in brackets).
\<close>

section \<open>Cutting strings\<close>

definition cut_at :: "char \<Rightarrow> string \<Rightarrow> string \<times> string" where
  "cut_at c s = (takeWhile (\<lambda>d. d \<noteq> c) s, drop 1 (dropWhile (\<lambda>d. d \<noteq> c) s))"

text \<open>Before and after the last \<open>c\<close>.\<close>

definition cut_last :: "char \<Rightarrow> string \<Rightarrow> string \<times> string" where
  "cut_last c s = (rev (drop 1 (dropWhile (\<lambda>d. d \<noteq> c) (rev s))), rev (takeWhile (\<lambda>d. d \<noteq> c) (rev s)))"

fun cut_str :: "string \<Rightarrow> string \<Rightarrow> string \<Rightarrow> (string \<times> string) option" where
  "cut_str p before [] = None"
| "cut_str p before (c # cs) =
     (if has_prefix p (c # cs) then Some (rev before, drop (length p) (c # cs)) else cut_str p (c # before) cs)"

definition is_letter :: "char \<Rightarrow> bool" where
  "is_letter c \<longleftrightarrow> (let n = code_of c in (65 \<le> n \<and> n \<le> 90) \<or> (97 \<le> n \<and> n \<le> 122))"

definition dec_digit :: "char \<Rightarrow> bool" where
  "dec_digit c \<longleftrightarrow> (let n = code_of c in 48 \<le> n \<and> n \<le> 57)"

section \<open>IP addresses\<close>

definition ipv4_field :: "string \<Rightarrow> int option" where
  "ipv4_field s =
     (if s = [] \<or> length s > 3 \<or> \<not> list_all dec_digit s \<or> (length s > 1 \<and> hd s = CHR ''0'') then None
      else case digits_val 0 s of Some n \<Rightarrow> (if n \<le> 255 then Some n else None) | None \<Rightarrow> None)"

definition parse_ipv4 :: "string \<Rightarrow> int list option" where
  "parse_ipv4 s =
     (case map ipv4_field (split_on (CHR ''.'') s) of
        [Some a, Some b, Some c, Some d] \<Rightarrow> Some [a, b, c, d]
      | _ \<Rightarrow> None)"

definition hex_group :: "string \<Rightarrow> int option" where
  "hex_group s =
     (if s = [] \<or> length s > 4 then None
      else fold (\<lambda>c acc. case (acc, hex_val c) of (Some n, Some v) \<Rightarrow> Some (16 * n + int v) | _ \<Rightarrow> None) s (Some 0))"

text \<open>The groups of a part of an IPv6 address; the last may be a dotted IPv4 address.\<close>

fun ipv6_groups :: "string list \<Rightarrow> int list option" where
  "ipv6_groups [] = Some []"
| "ipv6_groups [g] =
     (if CHR ''.'' \<in> set g
      then (case parse_ipv4 g of Some [a, b, c, d] \<Rightarrow> Some [256 * a + b, 256 * c + d] | _ \<Rightarrow> None)
      else map_option (\<lambda>n. [n]) (hex_group g))"
| "ipv6_groups (g # gs) =
     (case (hex_group g, ipv6_groups gs) of (Some n, Some ns) \<Rightarrow> Some (n # ns) | _ \<Rightarrow> None)"

definition parse_ipv6 :: "string \<Rightarrow> int list option" where
  "parse_ipv6 s =
     (case cut_str ''::'' [] s of
        None \<Rightarrow> (case ipv6_groups (split_on (CHR '':'') s) of
                   Some gs \<Rightarrow> if length gs = 8 then Some gs else None
                 | None \<Rightarrow> None)
      | Some (a, b) \<Rightarrow>
          if CHR ''.'' \<in> set a then None
          else case (if a = [] then Some [] else ipv6_groups (split_on (CHR '':'') a),
                     if b = [] then Some [] else ipv6_groups (split_on (CHR '':'') b)) of
            (Some l, Some r) \<Rightarrow> if length l + length r < 8 then Some (l @ replicate (8 - length l - length r) 0 @ r) else None
          | _ \<Rightarrow> None)"

datatype ip_addr = IPv4 "int list" | IPv6 "int list"

text \<open>The first dot or colon decides which of the two is parsed.\<close>

definition parse_ip :: "string \<Rightarrow> ip_addr option" where
  "parse_ip s =
     (case dropWhile (\<lambda>c. c \<noteq> CHR ''.'' \<and> c \<noteq> CHR '':'') s of
        [] \<Rightarrow> None
      | c # _ \<Rightarrow> if c = CHR ''.'' then map_option IPv4 (parse_ipv4 s) else map_option IPv6 (parse_ipv6 s))"

definition ip_is_loopback :: "ip_addr \<Rightarrow> bool" where
  "ip_is_loopback ip =
     (case ip of
        IPv4 bs \<Rightarrow> bs \<noteq> [] \<and> hd bs = 127
      | IPv6 gs \<Rightarrow>
          if take 6 gs = [0, 0, 0, 0, 0, 65535] then gs ! 6 div 256 = 127 else gs = [0, 0, 0, 0, 0, 0, 0, 1])"

section \<open>URLs\<close>

record url =
  u_scheme :: string
  u_opaque :: string
  u_has_user :: bool
  u_host :: string
  u_path :: string
  u_raw_query :: string
  u_fragment :: string

fun get_scheme :: "string \<Rightarrow> string \<Rightarrow> string \<Rightarrow> (string \<times> string) option" where
  "get_scheme whole before [] = Some ([], whole)"
| "get_scheme whole before (c # cs) =
     (if is_letter c then get_scheme whole (before @ [c]) cs
      else if dec_digit c \<or> c \<in> {CHR ''+'', CHR ''-'', CHR ''.''}
      then (if before = [] then Some ([], whole) else get_scheme whole (before @ [c]) cs)
      else if c = CHR '':'' then (if before = [] then None else Some (before, cs))
      else Some ([], whole))"

text \<open>Decoding with a test of the bytes that stand for themselves and of those that are escaped.\<close>

fun url_unescape :: "(char \<Rightarrow> bool) \<Rightarrow> (char \<Rightarrow> bool) \<Rightarrow> string \<Rightarrow> string option" where
  "url_unescape plain escaped [] = Some []"
| "url_unescape plain escaped (c # cs) =
     (if c = CHR ''%'' then
        (case cs of
           a # b # rest \<Rightarrow>
             (case (hex_val a, hex_val b) of
                (Some x, Some y) \<Rightarrow>
                  let d = char_of (16 * x + y)
                  in if escaped d then map_option ((#) d) (url_unescape plain escaped rest) else None
              | _ \<Rightarrow> None)
         | _ \<Rightarrow> None)
      else if plain c then map_option ((#) c) (url_unescape plain escaped cs) else None)"

definition host_char :: "char \<Rightarrow> bool" where
  "host_char c \<longleftrightarrow> unreserved c \<or> 128 \<le> code_of c \<or> c \<in> set ''!$&()*+,;=:[]<>'' \<or> c = CHR 0x27 \<or> c = CHR 0x22"

text \<open>In a host only bytes outside ASCII and the percent sign may be escaped.\<close>

definition unescape_host :: "string \<Rightarrow> string option" where
  "unescape_host s = url_unescape host_char (\<lambda>d. 128 \<le> code_of d \<or> d = CHR ''%'') s"

definition unescape_zone :: "string \<Rightarrow> string option" where
  "unescape_zone s = url_unescape host_char (\<lambda>d. d = CHR ''%'' \<or> d = CHR '' '' \<or> host_char d) s"

definition unescape_path :: "string \<Rightarrow> string option" where
  "unescape_path s = url_unescape (\<lambda>_. True) (\<lambda>_. True) s"

definition valid_optional_port :: "string \<Rightarrow> bool" where
  "valid_optional_port s \<longleftrightarrow> s = [] \<or> (hd s = CHR '':'' \<and> list_all dec_digit (tl s))"

text \<open>The inside of the brackets: an IPv6 address with an optional zone.\<close>

definition ip_literal :: "string \<Rightarrow> string option" where
  "ip_literal s =
     (case cut_str ''%25'' [] s of
        None \<Rightarrow> (case unescape_host s of Some h \<Rightarrow> if parse_ipv6 h \<noteq> None then Some h else None | None \<Rightarrow> None)
      | Some (h, z) \<Rightarrow>
          (case (unescape_host h, unescape_zone (''%25'' @ z)) of
             (Some h', Some z') \<Rightarrow> if parse_ipv6 h' \<noteq> None \<and> length z' > 1 then Some (h' @ z') else None
           | _ \<Rightarrow> None))"

definition parse_host :: "string \<Rightarrow> string option" where
  "parse_host host =
     (if CHR ''['' \<in> set (tl host) then None
      else if host \<noteq> [] \<and> hd host = CHR ''['' then
        (if CHR '']'' \<notin> set host then None
         else case cut_last (CHR '']'') (tl host) of
           (inside, port) \<Rightarrow>
             if \<not> valid_optional_port port then None
             else map_option (\<lambda>h. ''['' @ h @ '']'' @ port) (ip_literal inside))
      else if \<not> valid_optional_port (dropWhile (\<lambda>c. c \<noteq> CHR '':'') host) then None
      else unescape_host host)"

definition user_char :: "char \<Rightarrow> bool" where
  "user_char c \<longleftrightarrow> unreserved c \<or> c \<in> set '':!$&()*+,;=%@'' \<or> c = CHR 0x27"

text \<open>Whether there is user information, and the host.\<close>

definition parse_authority :: "string \<Rightarrow> (bool \<times> string) option" where
  "parse_authority authority =
     (if CHR ''@'' \<notin> set authority then map_option (\<lambda>h. (False, h)) (parse_host authority)
      else case cut_last (CHR ''@'') authority of
        (user, host) \<Rightarrow>
          (case parse_host host of
             None \<Rightarrow> None
           | Some h \<Rightarrow>
               if list_all user_char user \<and> unescape_path (fst (cut_at (CHR '':'') user)) \<noteq> None
                  \<and> unescape_path (snd (cut_at (CHR '':'') user)) \<noteq> None
               then Some (True, h) else None))"

definition is_control :: "char \<Rightarrow> bool" where
  "is_control c \<longleftrightarrow> code_of c < 32 \<or> code_of c = 127"

definition parse_hierarchy :: "string \<Rightarrow> string \<Rightarrow> string \<Rightarrow> url option" where
  "parse_hierarchy scheme query rest =
     (let with_host = (has_prefix ''//'' rest \<and> (scheme \<noteq> [] \<or> \<not> has_prefix ''///'' rest));
          authority = (if with_host then takeWhile (\<lambda>c. c \<noteq> CHR ''/'') (drop 2 rest) else []);
          path = (if with_host then drop (2 + length authority) rest else rest)
      in case (parse_authority authority, unescape_path path) of
           (Some (user, host), Some p) \<Rightarrow>
             Some \<lparr> u_scheme = scheme, u_opaque = [], u_has_user = user, u_host = host, u_path = p, u_raw_query = query,
                    u_fragment = [] \<rparr>
         | _ \<Rightarrow> None)"

definition parse_no_fragment :: "string \<Rightarrow> url option" where
  "parse_no_fragment s =
     (if list_ex is_control s then None
      else case get_scheme s [] s of
        None \<Rightarrow> None
      | Some (sch, rest0) \<Rightarrow>
          (let scheme = to_lower sch; rest = fst (cut_at (CHR ''?'') rest0); query = snd (cut_at (CHR ''?'') rest0)
           in if rest = [] \<or> hd rest \<noteq> CHR ''/''
              then (if scheme \<noteq> []
                    then Some \<lparr> u_scheme = scheme, u_opaque = rest, u_has_user = False, u_host = [], u_path = [],
                                u_raw_query = query, u_fragment = [] \<rparr>
                    else if CHR '':'' \<in> set (fst (cut_at (CHR ''/'') rest)) then None
                    else parse_hierarchy scheme query rest)
              else parse_hierarchy scheme query rest))"

definition url_parse :: "string \<Rightarrow> url option" where
  "url_parse raw =
     (case parse_no_fragment (fst (cut_at (CHR ''#'') raw)) of
        None \<Rightarrow> None
      | Some u \<Rightarrow>
          (case unescape_path (snd (cut_at (CHR ''#'') raw)) of None \<Rightarrow> None | Some f \<Rightarrow> Some (u\<lparr> u_fragment := f \<rparr>)))"

definition url_is_abs :: "url \<Rightarrow> bool" where
  "url_is_abs u \<longleftrightarrow> u_scheme u \<noteq> []"

definition url_hostname :: "url \<Rightarrow> string" where
  "url_hostname u =
     (let host = u_host u;
          h = (if CHR '':'' \<in> set host \<and> valid_optional_port ('':'' @ snd (cut_last (CHR '':'') host))
               then fst (cut_last (CHR '':'') host) else host)
      in if has_prefix ''['' h \<and> has_suffix '']'' h then butlast (tl h) else h)"

section \<open>Examples\<close>

lemma url_examples:
  "map_option (\<lambda>u. (u_scheme u, url_hostname u, u_path u)) (url_parse ''HTTPS://Example.com:8080/api/x?y=1#z'') =
     Some (''https'', ''Example.com'', ''/api/x'')"
  "map_option (\<lambda>u. (u_host u, url_hostname u)) (url_parse ''http://[::1]:3000'') = Some (''[::1]:3000'', ''::1'')"
  "map_option (\<lambda>u. (u_has_user u, url_hostname u, u_path u)) (url_parse ''http://a:b@h/%20'') = Some (True, ''h'', ''/ '')"
  "url_parse ''http://::1/'' = None" "url_parse ''http://[1.2.3.4]/'' = None" "url_parse ''http://h/%zz'' = None"
  "url_parse '':x'' = None" "map_option u_opaque (url_parse ''mailto:me'') = Some ''me''"
  by code_simp+

lemma loopback_examples:
  "map_option ip_is_loopback (parse_ip ''127.0.0.1'') = Some True" "map_option ip_is_loopback (parse_ip ''::1'') = Some True"
  "map_option ip_is_loopback (parse_ip ''::ffff:127.9.9.9'') = Some True" "map_option ip_is_loopback (parse_ip ''10.0.0.1'') = Some False"
  "parse_ip ''127.0.0.01'' = None" "parse_ip ''1::2::3'' = None" "parse_ip ''localhost'' = None"
  by code_simp+

end
