(* ===== verification/Core_Config.thy ===== *)
theory Core_Config
  imports Net_Url Overlay_Extension Overlay_Manage Session Routes
begin

text \<open>
  The configuration of core-api (\<^verbatim>\<open>cmd/core-api/coreconfig\<close>): the checks made before the server starts, what the
  rest of the server derives from a configuration, and what an accepted configuration promises to the sign-in,
  the overlay relay and the extension. The environment is the record's fields.
\<close>

section \<open>The configuration\<close>

record core_config =
  cf_twitch_client_id :: string
  cf_twitch_client_secret :: string
  cf_twitch_redirect_uri :: string
  cf_event_sub_secret :: string
  cf_event_sub_callback :: string
  cf_frontend_base_url :: string
  cf_cookie_secure :: bool
  cf_cookie_domain :: string
  cf_session_ttl_minutes :: int
  cf_overlay_secret :: string
  cf_overlay_callback :: string
  cf_extension_client_id :: string
  cf_extension_secret :: string
  cf_extension_origin :: string
  cf_download_path :: string
  cf_download_allowlist :: string

definition trim_right_slash :: "string \<Rightarrow> string" where
  "trim_right_slash s = rev (dropWhile (\<lambda>c. c = CHR ''/'') (rev s))"

text \<open>\<open>env\<close> is what the environment says, with its defaults.\<close>

definition parse_config :: "core_config \<Rightarrow> core_config" where
  "parse_config env = env\<lparr> cf_frontend_base_url := trim_right_slash (cf_frontend_base_url env) \<rparr>"

section \<open>The checks\<close>

definition validate_absolute_url :: "string \<Rightarrow> string \<Rightarrow> string + url" where
  "validate_absolute_url name raw =
     (if trim_space raw = [] then Inl (name @ '' is required'')
      else case url_parse raw of
        None \<Rightarrow> Inl (name @ '' must be an absolute URL'')
      | Some u \<Rightarrow>
          if \<not> url_is_abs u \<or> url_hostname u = [] then Inl (name @ '' must be an absolute URL'')
          else if u_scheme u \<noteq> ''https'' \<and> u_scheme u \<noteq> ''http'' then Inl (name @ '' must use http or https'')
          else Inr u)"

definition is_loopback_host :: "string \<Rightarrow> bool" where
  "is_loopback_host host \<longleftrightarrow>
     equal_fold host ''localhost'' \<or> (case parse_ip host of None \<Rightarrow> False | Some ip \<Rightarrow> ip_is_loopback ip)"

text \<open>A check that adds its message when it fails.\<close>

definition problem_if :: "bool \<Rightarrow> string \<Rightarrow> string list" where
  "problem_if b message = (if b then [message] else [])"

definition app_problems :: "core_config \<Rightarrow> string list" where
  "app_problems c =
     problem_if (trim_space (cf_twitch_client_id c) = []) ''TWITCH_CLIENT_ID is required'' @
     problem_if (trim_space (cf_twitch_client_secret c) = []) ''TWITCH_CLIENT_SECRET is required'' @
     problem_if (cf_session_ttl_minutes c < 15 \<or> cf_session_ttl_minutes c > 1440) ''SESSION_TTL_MINUTES must be between 15 and 1440''"

definition redirect_url :: "core_config \<Rightarrow> string + url" where
  "redirect_url c = validate_absolute_url ''TWITCH_REDIRECT_URI'' (cf_twitch_redirect_uri c)"

definition frontend_url :: "core_config \<Rightarrow> string + url" where
  "frontend_url c = validate_absolute_url ''FRONTEND_BASE_URL'' (cf_frontend_base_url c)"

definition redirect_problems :: "core_config \<Rightarrow> string list" where
  "redirect_problems c =
     (case redirect_url c of
        Inl e \<Rightarrow> [e]
      | Inr u \<Rightarrow> problem_if (u_path u \<noteq> ''/api/auth/twitch/callback'') ''TWITCH_REDIRECT_URI path must be /api/auth/twitch/callback'')"

definition frontend_problems :: "core_config \<Rightarrow> string list" where
  "frontend_problems c =
     (case frontend_url c of
        Inl e \<Rightarrow> [e]
      | Inr u \<Rightarrow> problem_if (u_raw_query u \<noteq> [] \<or> u_fragment u \<noteq> [] \<or> u_has_user u)
                  ''FRONTEND_BASE_URL must not contain credentials, a query, or a fragment'')"

definition cookie_problems :: "core_config \<Rightarrow> string list" where
  "cookie_problems c =
     (case (redirect_url c, frontend_url c) of
        (Inr r, Inr f) \<Rightarrow>
          problem_if (\<not> equal_fold (url_hostname r) (url_hostname f))
            ''TWITCH_REDIRECT_URI and FRONTEND_BASE_URL must use the same hostname so the session cookie reaches the frontend API'' @
          (let loopback = is_loopback_host (url_hostname r)
           in problem_if (cf_cookie_secure c \<and> u_scheme r \<noteq> ''https'' \<and> \<not> loopback)
                ''SESSION_COOKIE_SECURE=true requires an HTTPS Twitch redirect URI outside local development'' @
              problem_if (\<not> cf_cookie_secure c \<and> \<not> loopback)
                ''SESSION_COOKIE_SECURE=false is permitted only for localhost or loopback development'')
      | _ \<Rightarrow> [])"

definition cookie_domain_of :: "core_config \<Rightarrow> string" where
  "cookie_domain_of c = trim_prefix ''.'' (to_lower (trim_space (cf_cookie_domain c)))"

definition domain_problems :: "core_config \<Rightarrow> string list" where
  "domain_problems c =
     (case frontend_url c of
        Inr f \<Rightarrow>
          (if cf_cookie_domain c = [] then []
           else let domain = cookie_domain_of c; host = to_lower (url_hostname f)
                in problem_if (CHR ''/'' \<in> set domain \<or> CHR '':'' \<in> set domain \<or> (host \<noteq> domain \<and> \<not> has_suffix (''.'' @ domain) host))
                     ''SESSION_COOKIE_DOMAIN must be the frontend hostname or its parent domain'')
      | Inl _ \<Rightarrow> [])"

definition event_sub_problems :: "core_config \<Rightarrow> string list" where
  "event_sub_problems c =
     (if cf_event_sub_callback c = [] then []
      else case validate_absolute_url ''TWITCH_EVENTSUB_CALLBACK_URL'' (cf_event_sub_callback c) of
        Inl e \<Rightarrow> [e]
      | Inr u \<Rightarrow> problem_if (u_scheme u \<noteq> ''https'' \<and> \<not> is_loopback_host (url_hostname u))
                  ''TWITCH_EVENTSUB_CALLBACK_URL must use HTTPS outside local development'')"

definition relay_problems :: "core_config \<Rightarrow> string list" where
  "relay_problems c =
     (if cf_overlay_secret c = [] \<and> cf_overlay_callback c = [] then []
      else problem_if (trim_space (cf_overlay_secret c) = []) ''OVERLAY_EVENTSUB_SECRET is required when the overlay relay is enabled'' @
        (case validate_absolute_url ''OVERLAY_EVENTSUB_CALLBACK_URL'' (cf_overlay_callback c) of
           Inl e \<Rightarrow> [e]
         | Inr u \<Rightarrow>
             problem_if (u_scheme u \<noteq> ''https'' \<and> \<not> is_loopback_host (url_hostname u))
               ''OVERLAY_EVENTSUB_CALLBACK_URL must use HTTPS outside local development'' @
             problem_if (u_path u \<noteq> ''/api/overlay/eventsub'') ''OVERLAY_EVENTSUB_CALLBACK_URL path must be /api/overlay/eventsub''))"

definition extension_problems :: "core_config \<Rightarrow> string list" where
  "extension_problems c =
     (if cf_extension_client_id c = [] \<and> cf_extension_secret c = [] then []
      else problem_if (trim_space (cf_extension_client_id c) = []) ''OVERLAY_EXTENSION_CLIENT_ID is required when the Twitch extension is enabled'' @
        (if trim_space (cf_extension_secret c) = [] then [''OVERLAY_EXTENSION_SECRET is required when the Twitch extension is enabled'']
         else problem_if (decode_secret (cf_extension_secret c) = None)
                ''OVERLAY_EXTENSION_SECRET must be base64 (as shown in the Twitch developer console)'') @
        (if cf_extension_origin c = [] then []
         else case validate_absolute_url ''OVERLAY_EXTENSION_ORIGIN'' (cf_extension_origin c) of Inl e \<Rightarrow> [e] | Inr _ \<Rightarrow> []))"

definition config_problems :: "core_config \<Rightarrow> string list" where
  "config_problems c =
     app_problems c @ redirect_problems c @ frontend_problems c @ cookie_problems c @ domain_problems c @
     event_sub_problems c @ relay_problems c @ extension_problems c"

text \<open>\<open>None\<close>: the server starts.\<close>

definition validate_config :: "core_config \<Rightarrow> string option" where
  "validate_config c =
     (if config_problems c = [] then None
      else Some (''invalid core-api configuration: '' @ join_with ''; '' (config_problems c)))"

section \<open>What is derived\<close>

definition extension_of :: "core_config \<Rightarrow> extension_config" where
  "extension_of c = \<lparr> extension_config.ec_client_id = cf_extension_client_id c, extension_config.ec_secret = cf_extension_secret c \<rparr>"

definition overlay_of :: "core_config \<Rightarrow> overlay_config" where
  "overlay_of c = \<lparr> oc_client_id = cf_twitch_client_id c, oc_client_secret = cf_twitch_client_secret c,
                    oc_secret = cf_overlay_secret c, oc_callback = cf_overlay_callback c \<rparr>"

definition extension_allowed_origin :: "core_config \<Rightarrow> string" where
  "extension_allowed_origin c =
     (if \<not> extension_enabled (extension_of c) then []
      else let or = trim_space (cf_extension_origin c)
           in if or \<noteq> [] then trim_right_slash or
              else ''https://'' @ trim_space (cf_extension_client_id c) @ ''.ext-twitch.tv'')"

definition frontend_origin :: "core_config \<Rightarrow> string" where
  "frontend_origin c =
     (case url_parse (cf_frontend_base_url c) of None \<Rightarrow> [] | Some u \<Rightarrow> u_scheme u @ ''://'' @ u_host u)"

text \<open>The origins that may send the session cookie (\<^verbatim>\<open>cmd/core-api/main.go\<close>).\<close>

definition allowed_origins :: "core_config \<Rightarrow> string list" where
  "allowed_origins c =
     frontend_origin c # (if extension_allowed_origin c \<noteq> [] then [extension_allowed_origin c] else [])"

definition hsts_max_age :: "bool \<Rightarrow> int" where
  "hsts_max_age secure_cookies = (if secure_cookies then 31536000 else 0)"

text \<open>In nanoseconds; cookies and tokens count seconds.\<close>

definition auth_session_ttl :: "core_config \<Rightarrow> int" where
  "auth_session_ttl c = wrap64 (wrap64 (cf_session_ttl_minutes c) * 60000000000)"

definition auth_cookie_options :: "core_config \<Rightarrow> cookie_options" where
  "auth_cookie_options c =
     \<lparr> co_secure = cf_cookie_secure c, co_domain = cf_cookie_domain c, co_ttl = auth_session_ttl c div 1000000000 \<rparr>"

section \<open>What an accepted configuration promises\<close>

lemma problem_if_Nil [simp]: "problem_if b m = [] \<longleftrightarrow> \<not> b"
  by (simp add: problem_if_def)

lemma trim_space_empty: "trim_space [] = []"
  by (simp add: trim_space_def trim_left_def)

lemma absolute_url_Inr:
  "validate_absolute_url name raw = Inr u \<longleftrightarrow>
     trim_space raw \<noteq> [] \<and> url_parse raw = Some u \<and> url_is_abs u \<and> url_hostname u \<noteq> [] \<and>
     (u_scheme u = ''https'' \<or> u_scheme u = ''http'')"
  by (auto simp: validate_absolute_url_def split: option.splits)

lemma valid_parts:
  "validate_config c = None \<longleftrightarrow>
     app_problems c = [] \<and> redirect_problems c = [] \<and> frontend_problems c = [] \<and> cookie_problems c = [] \<and>
     domain_problems c = [] \<and> event_sub_problems c = [] \<and> relay_problems c = [] \<and> extension_problems c = []"
  by (auto simp: validate_config_def config_problems_def)

lemma valid_ttl:
  "app_problems c = [] \<Longrightarrow> co_ttl (auth_cookie_options c) = 60 * cf_session_ttl_minutes c"
  by (simp add: app_problems_def auth_cookie_options_def auth_session_ttl_def wrap64_small)

lemma valid_urls:
  assumes "redirect_problems c = []" and "frontend_problems c = []" and "cookie_problems c = []"
  obtains r f where "redirect_url c = Inr r" and "frontend_url c = Inr f"
    and "u_path r = ''/api/auth/twitch/callback''" and "u_raw_query f = []" and "u_fragment f = []" and "\<not> u_has_user f"
    and "equal_fold (url_hostname r) (url_hostname f)"
    and "cf_cookie_secure c \<longrightarrow> u_scheme r = ''https'' \<or> is_loopback_host (url_hostname r)"
    and "\<not> cf_cookie_secure c \<longrightarrow> is_loopback_host (url_hostname r)"
  using assms
  by (auto simp: redirect_problems_def frontend_problems_def cookie_problems_def Let_def split: sum.splits)

lemma valid_relay:
  assumes "relay_problems c = []"
  shows "overlay_configured (overlay_of c) = (cf_overlay_secret c \<noteq> [] \<or> cf_overlay_callback c \<noteq> [])"
    and "overlay_configured (overlay_of c) \<Longrightarrow>
      \<exists>u. url_parse (cf_overlay_callback c) = Some u \<and> u_path u = ''/api'' @ path_post_overlay_event_sub \<and>
        (u_scheme u = ''https'' \<or> is_loopback_host (url_hostname u))"
  using assms
  by (auto simp: trim_space_empty relay_problems_def overlay_configured_def overlay_of_def route_defs absolute_url_Inr
      validate_absolute_url_def split: if_splits sum.splits option.splits)

lemma valid_extension:
  assumes "extension_problems c = []"
  shows "extension_enabled (extension_of c) = (cf_extension_client_id c \<noteq> [] \<or> cf_extension_secret c \<noteq> [])"
    and "extension_enabled (extension_of c) \<Longrightarrow> decode_secret (extension_config.ec_secret (extension_of c)) \<noteq> None"
  using assms
  by (auto simp: trim_space_empty extension_problems_def extension_enabled_def extension_of_def split: if_splits)

definition session_safe :: "core_config \<Rightarrow> url \<Rightarrow> cookie \<Rightarrow> bool" where
  "session_safe c r ck \<longleftrightarrow> (ck_secure ck \<or> is_loopback_host (url_hostname r)) \<and> 900 \<le> ck_max_age ck \<and> ck_max_age ck \<le> 86400"

text \<open>A cookie's domain reaches a host: it is absent, the host itself or a parent of it.\<close>

definition domain_reaches :: "string \<Rightarrow> string \<Rightarrow> bool" where
  "domain_reaches domain host \<longleftrightarrow> domain = [] \<or> host = domain \<or> has_suffix (''.'' @ domain) host"

lemma valid_domain:
  assumes "domain_problems c = []" and "frontend_url c = Inr f"
  shows "domain_reaches (cookie_domain_of c) (to_lower (url_hostname f))"
  using assms by (cases "cf_cookie_domain c = []")
    (auto simp: domain_problems_def domain_reaches_def cookie_domain_of_def trim_space_empty trim_prefix_def has_prefix_def Let_def)

text \<open>
  Whether a browser returns a cookie with a request below the cookie's path (RFC 6265): to the hosts of its domain,
  blanks and a leading dot aside, and a secure one only over HTTPS.
\<close>

definition browser_returns :: "cookie \<Rightarrow> url \<Rightarrow> bool" where
  "browser_returns ck u \<longleftrightarrow>
     domain_reaches (trim_prefix ''.'' (to_lower (trim_space (ck_domain ck)))) (to_lower (url_hostname u)) \<and>
     (ck_secure ck \<longrightarrow> u_scheme u = ''https'')"


definition demo_config :: core_config where
  "demo_config =
     \<lparr> cf_twitch_client_id = ''id'', cf_twitch_client_secret = ''secret'',
       cf_twitch_redirect_uri = ''https://b.ex/api/auth/twitch/callback'', cf_event_sub_secret = [],
       cf_event_sub_callback = [], cf_frontend_base_url = ''https://B.ex'', cf_cookie_secure = True,
       cf_cookie_domain = ''.b.ex'', cf_session_ttl_minutes = 480, cf_overlay_secret = ''s'',
       cf_overlay_callback = ''https://b.ex/api/overlay/eventsub'', cf_extension_client_id = ''ext'',
       cf_extension_secret = ''AAAA'', cf_extension_origin = [], cf_download_path = [], cf_download_allowlist = [] \<rparr>"

lemma demo_config_valid: "validate_config demo_config = None"
  by code_simp


text \<open>
  The scheme of the frontend is not checked: with secure cookies and a frontend on plain HTTP the configuration is
  accepted, although a browser there sends no secure cookie.
\<close>

lemma plain_frontend_is_accepted:
  "validate_config (demo_config\<lparr> cf_frontend_base_url := ''http://b.ex'' \<rparr>) = None"
  by code_simp

text \<open>The origin of the panel, with and without an override.\<close>

lemma origins:
  "allowed_origins demo_config = [''https://B.ex'', ''https://ext.ext-twitch.tv'']"
  "allowed_origins (demo_config\<lparr> cf_extension_origin := '' http://localhost:8080/ '' \<rparr>) = [''https://B.ex'', ''http://localhost:8080'']"
  by code_simp+

end
