(* ===== verification/Sub_Repair.thy ===== *)
theory Sub_Repair
  imports Event_Sub Users
begin

text \<open>
  The two maintenance programs for the bot's subscriptions: \<^verbatim>\<open>cmd/eventsub-healthcheck\<close>, which audits every
  opted-in user and repairs, prunes or lists, and \<^verbatim>\<open>cmd/eventsub-backfill\<close>, which creates what is missing.
  The users come from core-api (\<open>None\<close> when the call fails); the pauses between calls and the log are left out.
\<close>

section \<open>The users\<close>

text \<open>\<open>None\<close> ends the program.\<close>

definition load_opted_in_users :: "string \<Rightarrow> string \<Rightarrow> user list option \<Rightarrow> user list option" where
  "load_opted_in_users core_api_url hmac_key channels =
     (if core_api_url = [] \<or> hmac_key = [] then None
      else case channels of
        None \<Rightarrow> None
      | Some us \<Rightarrow>
          let out = filter (\<lambda>u. us_twitch_id u \<noteq> None \<and> us_twitch_id u \<noteq> Some []) us
          in if out = [] then None else Some out)"

definition load_users_with_twitch_id :: "string \<Rightarrow> string \<Rightarrow> user list option \<Rightarrow> user list option" where
  "load_users_with_twitch_id core_api_url hmac_key channels =
     (if core_api_url = [] \<or> hmac_key = [] then None
      else case channels of
        None \<Rightarrow> None
      | Some us \<Rightarrow> if us = [] then None else Some (filter (\<lambda>u. us_twitch_id u \<noteq> None \<and> us_twitch_id u \<noteq> Some []) us))"

section \<open>Classifying and repairing\<close>

definition required_types :: "string list" where
  "required_types = [''stream.online'', ''stream.offline'', ''channel.chat.message'']"

definition keep_sub :: "string \<Rightarrow> bool \<Rightarrow> bool \<Rightarrow> subscription \<Rightarrow> bool" where
  "keep_sub callback fix_callback force s \<longleftrightarrow>
     \<not> force \<and> sub_status s = ''enabled'' \<and> \<not> (fix_callback \<and> sub_callback s \<noteq> callback)"

text \<open>Those to keep and those to delete.\<close>

definition classify ::
  "subscription list \<Rightarrow> string \<Rightarrow> string \<Rightarrow> bool \<Rightarrow> bool \<Rightarrow> subscription list \<times> subscription list" where
  "classify subs typ callback fix_callback force =
     (let typed = filter (\<lambda>s. sub_type s = typ) subs
      in (filter (keep_sub callback fix_callback force) typed, filter (\<lambda>s. \<not> keep_sub callback fix_callback force s) typed))"

datatype repair_error = Delete_Failed event_sub_error | Create_Failed event_sub_error | Create_Refused int | Unknown_Type | Chat_Auth_Missing

definition subscribe_type ::
  "'w twitch \<Rightarrow> string \<Rightarrow> string \<Rightarrow> event_sub_client \<times> 'w \<Rightarrow> (repair_error + int \<times> string) \<times> event_sub_client \<times> 'w" where
  "subscribe_type tw typ bid s =
     (let made = (\<lambda>(r, s'). (case r of Inl e \<Rightarrow> Inl (Create_Failed e) | Inr a \<Rightarrow> Inr a, s'))
      in if typ = ''stream.online'' then made (subscribe_stream_online tw bid s)
         else if typ = ''stream.offline'' then made (subscribe_stream_offline tw bid s)
         else if typ = ''channel.chat.message'' then made (subscribe_channel_chat_messages tw bid s)
         else (Inl Unknown_Type, s))"

text \<open>The first deletion that fails ends the repair.\<close>

fun delete_each ::
  "'w twitch \<Rightarrow> subscription list \<Rightarrow> event_sub_client \<times> 'w \<Rightarrow> repair_error option \<times> event_sub_client \<times> 'w" where
  "delete_each tw [] s = (None, s)"
| "delete_each tw (x # xs) s =
     (case delete_event_sub_subscription tw (sub_id x) s of
        (Inl e, s1) \<Rightarrow> (Some (Delete_Failed e), s1)
      | (Inr _, s1) \<Rightarrow> delete_each tw xs s1)"

definition repair ::
  "'w twitch \<Rightarrow> string \<Rightarrow> string \<Rightarrow> subscription list \<Rightarrow> subscription list \<Rightarrow> event_sub_client \<times> 'w
     \<Rightarrow> repair_error option \<times> event_sub_client \<times> 'w" where
  "repair tw typ bid good bad s =
     (case delete_each tw bad s of
        (Some e, s1) \<Rightarrow> (Some e, s1)
      | (None, s1) \<Rightarrow>
          (case delete_each tw (drop (min (length good) 1) good) s1 of
             (Some e, s2) \<Rightarrow> (Some e, s2)
           | (None, s2) \<Rightarrow>
               if length good \<ge> 1 then (None, s2)
               else case subscribe_type tw typ bid s2 of
                 (Inl e, s3) \<Rightarrow> (Some e, s3)
               | (Inr a, s3) \<Rightarrow>
                   if typ = ''channel.chat.message'' \<and> fst a = 403 then (Some Chat_Auth_Missing, s3)
                   else if \<not> result_ok a \<and> \<not> already_exists a then (Some (Create_Refused (fst a)), s3)
                   else (None, s3)))"

section \<open>The audit\<close>

record check_options =
  co_dry_run :: bool
  co_fix_callback :: bool
  co_force :: bool
  co_list :: bool
  co_prune :: bool

record audit_counts =
  ac_healthy :: nat
  ac_repaired :: nat
  ac_failed :: nat
  ac_would :: nat
  ac_unauthorized :: nat

definition no_counts :: audit_counts where
  "no_counts = \<lparr> ac_healthy = 0, ac_repaired = 0, ac_failed = 0, ac_would = 0, ac_unauthorized = 0 \<rparr>"

definition audit_type ::
  "check_options \<Rightarrow> 'w twitch \<Rightarrow> string \<Rightarrow> subscription list \<Rightarrow> string \<Rightarrow> string \<Rightarrow> audit_counts \<times> event_sub_client \<times> 'w
     \<Rightarrow> audit_counts \<times> event_sub_client \<times> 'w" where
  "audit_type opts tw callback subs bid typ a =
     (case a of (n, s) \<Rightarrow>
        (case classify subs typ callback (co_fix_callback opts) (co_force opts) of
           (good, bad) \<Rightarrow>
             if \<not> co_force opts \<and> length good = 1 \<and> bad = [] then (n\<lparr> ac_healthy := Suc (ac_healthy n) \<rparr>, s)
             else if co_dry_run opts then (n\<lparr> ac_would := Suc (ac_would n) \<rparr>, s)
             else case repair tw typ bid good bad s of
               (Some Chat_Auth_Missing, s1) \<Rightarrow> (n\<lparr> ac_unauthorized := Suc (ac_unauthorized n) \<rparr>, s1)
             | (Some _, s1) \<Rightarrow> (n\<lparr> ac_failed := Suc (ac_failed n) \<rparr>, s1)
             | (None, s1) \<Rightarrow> (n\<lparr> ac_repaired := Suc (ac_repaired n) \<rparr>, s1)))"

text \<open>The index of the listing by broadcaster.\<close>

definition by_broadcaster :: "subscription list \<Rightarrow> string \<Rightarrow> subscription list" where
  "by_broadcaster everything bid = filter (\<lambda>s. sub_broadcaster s = bid) everything"

definition audit_user ::
  "check_options \<Rightarrow> 'w twitch \<Rightarrow> string \<Rightarrow> subscription list \<Rightarrow> user \<Rightarrow> audit_counts \<times> event_sub_client \<times> 'w
     \<Rightarrow> audit_counts \<times> event_sub_client \<times> 'w" where
  "audit_user opts tw callback everything u a =
     (case (us_twitch_id u, us_login u) of
        (Some bid, Some _) \<Rightarrow> fold (audit_type opts tw callback (by_broadcaster everything bid) bid) required_types a
      | _ \<Rightarrow> a)"

definition run_audit ::
  "check_options \<Rightarrow> 'w twitch \<Rightarrow> string \<Rightarrow> subscription list \<Rightarrow> user list \<Rightarrow> event_sub_client \<times> 'w
     \<Rightarrow> audit_counts \<times> event_sub_client \<times> 'w" where
  "run_audit opts tw callback everything users s = fold (audit_user opts tw callback everything) users (no_counts, s)"

section \<open>Listing and pruning\<close>

text \<open>Twitch ids of the users, and the subscriptions of nobody among them.\<close>

definition opted_in :: "user list \<Rightarrow> string set" where
  "opted_in users = set (List.map_filter us_twitch_id users)"

definition orphan_subscriptions :: "string set \<Rightarrow> subscription list \<Rightarrow> subscription list" where
  "orphan_subscriptions ids everything = filter (\<lambda>s. sub_broadcaster s \<notin> ids) everything"

text \<open>Per user, per required type: status and callback of each subscription, none for a missing one.\<close>

record user_listing =
  ul_login :: string
  ul_twitch_id :: string
  ul_types :: "(string \<times> (string \<times> string) list) list"

definition list_subscriptions :: "user list \<Rightarrow> subscription list \<Rightarrow> user_listing list \<times> subscription list" where
  "list_subscriptions users everything =
     (let known = filter (\<lambda>u. us_twitch_id u \<noteq> None \<and> us_login u \<noteq> None) users
      in (map (\<lambda>u. let bid = the (us_twitch_id u)
                   in \<lparr> ul_login = the (us_login u), ul_twitch_id = bid,
                        ul_types = map (\<lambda>typ. (typ, map (\<lambda>s. (sub_status s, sub_callback s))
                          (filter (\<lambda>s. sub_type s = typ) (by_broadcaster everything bid)))) required_types \<rparr>) known,
          orphan_subscriptions (opted_in known) everything))"

text \<open>How many are deleted and how many deletions fail.\<close>

fun prune_each ::
  "'w twitch \<Rightarrow> bool \<Rightarrow> subscription list \<Rightarrow> (nat \<times> nat) \<times> event_sub_client \<times> 'w \<Rightarrow> (nat \<times> nat) \<times> event_sub_client \<times> 'w" where
  "prune_each tw dry [] a = a"
| "prune_each tw dry (x # xs) ((deleted, failed), s) =
     (if dry then prune_each tw dry xs ((deleted, failed), s)
      else case delete_event_sub_subscription tw (sub_id x) s of
        (Inl _, s1) \<Rightarrow> prune_each tw dry xs ((deleted, Suc failed), s1)
      | (Inr _, s1) \<Rightarrow> prune_each tw dry xs ((Suc deleted, failed), s1))"

definition prune_orphan_subscriptions ::
  "'w twitch \<Rightarrow> user list \<Rightarrow> subscription list \<Rightarrow> bool \<Rightarrow> event_sub_client \<times> 'w \<Rightarrow> (nat \<times> nat) \<times> event_sub_client \<times> 'w" where
  "prune_orphan_subscriptions tw users everything dry s =
     prune_each tw dry (orphan_subscriptions (opted_in users) everything) ((0, 0), s)"

section \<open>The programs\<close>

datatype check_outcome =
    Check_Fatal
  | Check_Listed "user_listing list" "subscription list"
  | Check_Pruned bool nat nat
  | Check_Audited bool audit_counts

text \<open>\<open>None\<close> is a listing that does not come to an end.\<close>

definition healthcheck ::
  "check_options \<Rightarrow> 'w twitch \<Rightarrow> event_sub_config \<Rightarrow> string \<Rightarrow> string \<Rightarrow> user list option \<Rightarrow> 'w \<Rightarrow> (check_outcome \<times> 'w) option" where
  "healthcheck opts tw cfg core_api_url hmac_key channels w =
     (case new_client cfg of
        Inl _ \<Rightarrow> Some (Check_Fatal, w)
      | Inr c \<Rightarrow>
          (case load_opted_in_users core_api_url hmac_key channels of
             None \<Rightarrow> Some (Check_Fatal, w)
           | Some users \<Rightarrow>
               (case list_event_sub_subscriptions tw (c, w) of
                  None \<Rightarrow> None
                | Some (Inl _, s) \<Rightarrow> Some (Check_Fatal, snd s)
                | Some (Inr everything, s) \<Rightarrow>
                    if co_list opts
                    then Some (case list_subscriptions users everything of (ls, orphans) \<Rightarrow> (Check_Listed ls orphans, snd s))
                    else if co_prune opts
                    then Some (case prune_orphan_subscriptions tw users everything (co_dry_run opts) s of
                      ((d, f), s1) \<Rightarrow> (Check_Pruned (co_dry_run opts) d f, snd s1))
                    else Some (case run_audit opts tw (ec_callback (ev_config c)) everything users s of
                      (n, s1) \<Rightarrow> (Check_Audited (co_dry_run opts) n, snd s1)))))"

definition exit_code :: "check_outcome \<Rightarrow> nat" where
  "exit_code r =
     (case r of
        Check_Fatal \<Rightarrow> 1
      | Check_Listed _ _ \<Rightarrow> 0
      | Check_Pruned dry _ failed \<Rightarrow> if \<not> dry \<and> failed > 0 then 1 else 0
      | Check_Audited dry n \<Rightarrow> if \<not> dry \<and> ac_failed n > 0 then 1 else 0)"

text \<open>The backfill: every webhook of every user, in the order the map of webhooks gives.\<close>

definition backfill_user ::
  "(string \<Rightarrow> event_sub_client \<times> 'w \<Rightarrow> (event_sub_error + int \<times> string) \<times> event_sub_client \<times> 'w) list \<Rightarrow> user
     \<Rightarrow> (nat \<times> nat \<times> nat) \<times> event_sub_client \<times> 'w \<Rightarrow> (nat \<times> nat \<times> nat) \<times> event_sub_client \<times> 'w" where
  "backfill_user order u a =
     (case (us_twitch_id u, us_login u) of
        (Some bid, Some _) \<Rightarrow>
          (case a of ((ok, exists, failed), s) \<Rightarrow>
             (case subscribe_to_all_webhooks order bid s of ((o', x', f'), s1) \<Rightarrow> ((ok + o', exists + x', failed + f'), s1)))
      | _ \<Rightarrow> a)"

definition backfill ::
  "bool \<Rightarrow> (string \<Rightarrow> event_sub_client \<times> 'w \<Rightarrow> (event_sub_error + int \<times> string) \<times> event_sub_client \<times> 'w) list
     \<Rightarrow> event_sub_config \<Rightarrow> string \<Rightarrow> string \<Rightarrow> user list option \<Rightarrow> 'w \<Rightarrow> (nat \<times> nat \<times> nat) option \<times> 'w" where
  "backfill dry order cfg core_api_url hmac_key channels w =
     (case load_users_with_twitch_id core_api_url hmac_key channels of
        None \<Rightarrow> (None, w)
      | Some users \<Rightarrow>
          if dry then (Some (0, 0, 0), w)
          else case new_client cfg of
            Inl _ \<Rightarrow> (None, w)
          | Inr c \<Rightarrow> (case fold (backfill_user order) users ((0, 0, 0), c, w) of (n, s) \<Rightarrow> (Some n, snd s)))"

end
