(* ===== verification/Sub_Repair_Properties.thy ===== *)
theory Sub_Repair_Properties
  imports Sub_Repair Overlay_Manage_Properties
begin

text \<open>
  What the maintenance programs achieve against a Twitch that answers as documented: the audit leaves every audited
  user with exactly one subscription of each required type, chat that is not authorised excepted, and touches no other.
\<close>

section \<open>The subscriptions of one broadcaster and type\<close>

definition pair_subs :: "string \<Rightarrow> string \<Rightarrow> subscription list \<Rightarrow> subscription list" where
  "pair_subs bid typ ss = filter (\<lambda>s. sub_broadcaster s = bid \<and> sub_type s = typ) ss"

definition other_subs :: "string \<Rightarrow> string \<Rightarrow> subscription list \<Rightarrow> subscription list" where
  "other_subs bid typ ss = filter (\<lambda>s. \<not> (sub_broadcaster s = bid \<and> sub_type s = typ)) ss"

definition ids_ok :: "subscription list \<Rightarrow> bool" where
  "ids_ok ss \<longleftrightarrow> distinct (map sub_id ss) \<and> [] \<notin> sub_id ` set ss"

lemma pair_of_broadcaster: "filter (\<lambda>s. sub_type s = typ) (by_broadcaster ss bid) = pair_subs bid typ ss"
  by (simp add: by_broadcaster_def pair_subs_def conj_commute)

lemma pair_in_others:
  "(bid', typ') \<noteq> (bid, typ) \<Longrightarrow> pair_subs bid' typ' (other_subs bid typ ss) = pair_subs bid' typ' ss"
  by (auto simp: pair_subs_def other_subs_def intro: filter_cong)

section \<open>Deleting\<close>

lemma delete_works:
  assumes "keeps_subs tw allows good subs pages" and "i \<noteq> []"
  obtains c' w' where "delete_event_sub_subscription tw i (c, w) = (Inr (), c', w')" and "ev_config c' = ev_config c"
    and "subs w' = filter (\<lambda>s. sub_id s \<noteq> i) (subs w)"
proof -
  from request_recovers [OF keeps_subsD(1) [OF assms(1)] keeps_subsD(5) [OF assms(1)] refl, of i c w]
  obtain a c' w' where r: "authorized 1 tw (tw_delete tw i) (c, w) = (Inr a, c', w')" "ev_config c' = ev_config c"
    "fst a = (if i \<in> sub_id ` set (subs w) then 204 else 404)" "subs w' = filter (\<lambda>s. sub_id s \<noteq> i) (subs w)" by blast
  then have "delete_event_sub_subscription tw i (c, w) = (Inr (), c', w')"
    using assms(2) by (auto simp: delete_event_sub_subscription_def split: prod.splits if_splits)
  then show thesis using r by (intro that)
qed

lemma delete_each_works:
  assumes "keeps_subs tw allows good subs pages" and "[] \<notin> sub_id ` set xs"
  shows "\<exists>c' w'. delete_each tw xs (c, w) = (None, c', w') \<and> ev_config c' = ev_config c \<and>
    subs w' = filter (\<lambda>s. sub_id s \<notin> sub_id ` set xs) (subs w)"
  using assms(2)
proof (induction xs arbitrary: c w)
  case (Cons x xs)
  then have "sub_id x \<noteq> []" by auto
  then obtain c1 w1 where one: "delete_event_sub_subscription tw (sub_id x) (c, w) = (Inr (), c1, w1)"
    "ev_config c1 = ev_config c" "subs w1 = filter (\<lambda>s. sub_id s \<noteq> sub_id x) (subs w)"
    by (rule delete_works [OF assms(1)])
  from Cons obtain c' w' where "delete_each tw xs (c1, w1) = (None, c', w')" "ev_config c' = ev_config c1"
    "subs w' = filter (\<lambda>s. sub_id s \<notin> sub_id ` set xs) (subs w1)" by fastforce
  then show ?case using one by (auto intro: filter_cong)
qed simp

text \<open>Ids tell subscriptions apart, so deleting some of them removes just these.\<close>

lemma remove_members:
  assumes "ids_ok ss" and "set xs \<subseteq> set ss"
  shows "filter (\<lambda>s. sub_id s \<notin> sub_id ` set xs) ss = filter (\<lambda>s. s \<notin> set xs) ss"
  using assms by (intro filter_cong) (auto simp: ids_ok_def distinct_map inj_on_def)

section \<open>Creating\<close>

definition type_payload :: "event_sub_config \<Rightarrow> string \<Rightarrow> string \<Rightarrow> sub_payload" where
  "type_payload cfg bid typ =
     webhook_payload typ (if typ = ''channel.chat.message'' then Some ''1322716097'' else None) cfg bid"

lemma subscribe_type_request:
  assumes "typ \<in> set required_types" and "bid \<noteq> []"
  shows "subscribe_type tw typ bid (c, w) =
    (case attempt_new_subscription tw (type_payload (ev_config c) bid typ) (c, w) of
       (r, s') \<Rightarrow> (case r of Inl e \<Rightarrow> Inl (Create_Failed e) | Inr a \<Rightarrow> Inr a, s'))"
  using assms
  by (auto simp: subscribe_type_def required_types_def type_payload_def subscribe_stream_online_def
      subscribe_stream_offline_def subscribe_channel_chat_messages_def subscribe_webhook_def)

definition new_sub :: "event_sub_config \<Rightarrow> string \<Rightarrow> string \<Rightarrow> subscription \<Rightarrow> bool" where
  "new_sub cfg bid typ s \<longleftrightarrow> (\<exists>st i. live_status st \<and> s = sub_of_payload st i (type_payload cfg bid typ))"

lemma create_works:
  assumes "keeps_subs tw allows good subs pages" and "typ \<in> set required_types" and "bid \<noteq> []"
    and "pair_subs bid typ (subs w) = []"
  shows "\<exists>a c' w'. subscribe_type tw typ bid (c, w) = (Inr a, c', w') \<and> ev_config c' = ev_config c \<and>
    (if allows (type_payload (ev_config c) bid typ)
     then fst a = 202 \<and> (\<exists>s. subs w' = subs w @ [s] \<and> new_sub (ev_config c) bid typ s \<and> sub_id s \<noteq> [] \<and> sub_id s \<notin> sub_id ` set (subs w))
     else fst a = 403 \<and> subs w' = subs w)"
proof -
  let ?p = "type_payload (ev_config c) bid typ"
  have no: "\<not> has_sub ?p (subs w)"
    using assms(4) by (auto simp: has_sub_def pair_subs_def filter_empty_conv sub_of_payload_def type_payload_def webhook_payload_def)
  from request_recovers [OF keeps_subsD(1) [OF assms(1)] keeps_subsD(4) [OF assms(1)] refl, of ?p c w]
  obtain a c' w' where r: "authorized 1 tw (tw_create tw ?p) (c, w) = (Inr a, c', w')" "ev_config c' = ev_config c"
    "creation_answer allows ?p (subs w) (fst a) (subs w')" by blast
  have run: "subscribe_type tw typ bid (c, w) = (Inr a, c', w')"
    unfolding subscribe_type_request [OF assms(2,3)] attempt_new_subscription_def r(1) by simp
  show ?thesis
  proof (cases "allows ?p")
    case True
    then obtain st i where "fst a = 202" "live_status st" "i \<noteq> []" "i \<notin> sub_id ` set (subs w)" "subs w' = subs w @ [sub_of_payload st i ?p]"
      using r(3) no by (auto simp: creation_answer_def)
    moreover from this(2) have "new_sub (ev_config c) bid typ (sub_of_payload st i ?p)" unfolding new_sub_def by blast
    moreover have "sub_id (sub_of_payload st i ?p) = i" by (simp add: sub_of_payload_def)
    ultimately show ?thesis using True run r(2) by auto
  next
    case False
    then show ?thesis using run r no by (auto simp: creation_answer_def)
  qed
qed

section \<open>Repairing\<close>

text \<open>The one subscription left: the first of those to keep, otherwise a new one.\<close>

definition settled_sub :: "event_sub_config \<Rightarrow> string \<Rightarrow> string \<Rightarrow> subscription list \<Rightarrow> subscription \<Rightarrow> bool" where
  "settled_sub cfg bid typ good s \<longleftrightarrow> (if good = [] then new_sub cfg bid typ s else s = hd good)"

lemma ids_ok_filter: "ids_ok ss \<Longrightarrow> ids_ok (filter P ss)"
  by (auto simp: ids_ok_def distinct_map inj_on_def)

lemma ids_ok_pair: "ids_ok ss \<Longrightarrow> ids_ok (pair_subs bid typ ss)"
  by (simp add: pair_subs_def ids_ok_filter)

lemma drop_pair: "filter (\<lambda>s. s \<notin> set (pair_subs bid typ ss)) ss = other_subs bid typ ss"
  by (auto simp: pair_subs_def other_subs_def intro: filter_cong)

lemma keep_one:
  assumes "distinct P" and "filter k P = g # gs"
  shows "filter (\<lambda>s. s \<notin> set gs) (filter (\<lambda>s. s \<notin> set (filter (\<lambda>s. \<not> k s) P)) P) = [g]"
proof -
  have a: "filter (\<lambda>s. s \<notin> set (filter (\<lambda>s. \<not> k s) P)) P = g # gs"
    unfolding assms(2) [symmetric] by (intro filter_cong) auto
  have "distinct (g # gs)" using assms by (metis distinct_filter)
  then show ?thesis unfolding a by (auto simp: filter_empty_conv)
qed

text \<open>
  What is left of a pair: one subscription, or none when it is chat, there was none worth keeping and the
  broadcaster has not granted it.
\<close>

definition settled_pair ::
  "(sub_payload \<Rightarrow> bool) \<Rightarrow> event_sub_config \<Rightarrow> string \<Rightarrow> string \<Rightarrow> subscription list \<Rightarrow> subscription list \<Rightarrow> bool" where
  "settled_pair allows cfg bid typ good left \<longleftrightarrow>
     (\<exists>s. left = [s] \<and> settled_sub cfg bid typ good s) \<or>
     left = [] \<and> good = [] \<and> typ = ''channel.chat.message'' \<and> \<not> allows (type_payload cfg bid typ)"

text \<open>The live state of a stream needs no one's permission.\<close>

definition allows_live :: "(sub_payload \<Rightarrow> bool) \<Rightarrow> bool" where
  "allows_live allows \<longleftrightarrow> (\<forall>p. sp_type p = ''stream.online'' \<or> sp_type p = ''stream.offline'' \<longrightarrow> allows p)"

lemma repair_works:
  assumes "keeps_subs tw allows good_token subs pages" and "typ \<in> set required_types" and "bid \<noteq> []" and "ids_ok (subs w)"
    and "good = filter k (pair_subs bid typ (subs w))" and "bad = filter (\<lambda>s. \<not> k s) (pair_subs bid typ (subs w))"
    and "allows_live allows"
  shows "\<exists>c' w'. repair tw typ bid good bad (c, w) =
      (if pair_subs bid typ (subs w') = [] then Some Chat_Auth_Missing else None, c', w') \<and> ev_config c' = ev_config c \<and>
    settled_pair allows (ev_config c) bid typ good (pair_subs bid typ (subs w')) \<and>
    other_subs bid typ (subs w') = other_subs bid typ (subs w) \<and> ids_ok (subs w')"
proof -
  let ?P = "pair_subs bid typ (subs w)" and ?rest = "drop (min (length good) 1) good"
  have P: "ids_ok ?P" "set ?P \<subseteq> set (subs w)"
    by (rule ids_ok_pair [OF assms(4)]) (auto simp: pair_subs_def)
  have sub: "set good \<subseteq> set ?P" "set bad \<subseteq> set ?P" using assms(5,6) by auto
  have "[] \<notin> sub_id ` set bad" using P(1) sub(2) by (auto simp: ids_ok_def)
  then obtain c1 w1 where d1: "delete_each tw bad (c, w) = (None, c1, w1)" "ev_config c1 = ev_config c"
    "subs w1 = filter (\<lambda>s. sub_id s \<notin> sub_id ` set bad) (subs w)" using delete_each_works [OF assms(1)] by meson
  have s1: "subs w1 = filter (\<lambda>s. s \<notin> set bad) (subs w)"
    unfolding d1(3) by (rule remove_members [OF assms(4)]) (use sub(2) P(2) in blast)
  have ok1: "ids_ok (subs w1)" unfolding s1 by (rule ids_ok_filter [OF assms(4)])
  have gin: "set ?rest \<subseteq> set (subs w1)"
    unfolding s1 using set_drop_subset [of "min (length good) 1" good] sub(1) P(2) assms(5,6) by auto
  then have "[] \<notin> sub_id ` set ?rest" using ok1 by (auto simp: ids_ok_def)
  then obtain c2 w2 where d2: "delete_each tw ?rest (c1, w1) = (None, c2, w2)" "ev_config c2 = ev_config c1"
    "subs w2 = filter (\<lambda>s. sub_id s \<notin> sub_id ` set ?rest) (subs w1)" using delete_each_works [OF assms(1)] by meson
  have s2: "subs w2 = filter (\<lambda>s. s \<notin> set ?rest) (subs w1)"
    unfolding d2(3) by (rule remove_members [OF ok1 gin])
  have ok2: "ids_ok (subs w2)" unfolding s2 by (rule ids_ok_filter [OF ok1])
  have "set ?rest \<subseteq> set ?P" using set_drop_subset [of "min (length good) 1" good] sub(1) by blast
  then have others: "other_subs bid typ (subs w2) = other_subs bid typ (subs w)"
    unfolding s2 s1 using sub(2) by (auto simp: other_subs_def pair_subs_def intro!: filter_cong)
  show ?thesis
  proof (cases good)
    case Nil
    then have "bad = ?P" using assms(5,6) by (metis (mono_tags, lifting) filter_True filter_empty_conv)
    then have none: "pair_subs bid typ (subs w2) = []"
      unfolding s2 s1 Nil using drop_pair [of bid "typ" "subs w"] by (simp add: pair_subs_def other_subs_def)
    let ?p = "type_payload (ev_config c) bid typ"
    have cfg: "ev_config c2 = ev_config c" using d1(2) d2(2) by simp
    from create_works [OF assms(1-3) none, of c2] obtain a c3 w3 where cr:
      "subscribe_type tw typ bid (c2, w2) = (Inr a, c3, w3)" "ev_config c3 = ev_config c"
      and made: "if allows ?p
        then fst a = 202 \<and> (\<exists>s. subs w3 = subs w2 @ [s] \<and> new_sub (ev_config c) bid typ s \<and> sub_id s \<noteq> [] \<and> sub_id s \<notin> sub_id ` set (subs w2))
        else fst a = 403 \<and> subs w3 = subs w2"
      unfolding cfg by blast
    have run: "repair tw typ bid good bad (c, w) =
        (if typ = ''channel.chat.message'' \<and> fst a = 403 then Some Chat_Auth_Missing
         else if \<not> result_ok a \<and> \<not> already_exists a then Some (Create_Refused (fst a)) else None, c3, w3)"
      using d1(1) d2(1) cr(1) Nil by (simp add: repair_def)
    show ?thesis
    proof (cases "allows ?p")
      case True
      then obtain s where s: "fst a = 202" "subs w3 = subs w2 @ [s]" "new_sub (ev_config c) bid typ s" "sub_id s \<noteq> []" "sub_id s \<notin> sub_id ` set (subs w2)"
        using made by auto
      have this_pair: "sub_broadcaster s = bid" "sub_type s = typ"
        using s(3) by (auto simp: new_sub_def sub_of_payload_def type_payload_def webhook_payload_def)
      have "pair_subs bid typ (subs w3) = [s]" "other_subs bid typ (subs w3) = other_subs bid typ (subs w)"
        using none others this_pair s(2) by (simp_all add: pair_subs_def other_subs_def)
      moreover have "ids_ok (subs w3)" using ok2 s(2,4,5) by (auto simp: ids_ok_def)
      moreover have "settled_pair allows (ev_config c) bid typ good [s]" using s(3) Nil by (simp add: settled_pair_def settled_sub_def)
      ultimately show ?thesis using run cr(2) s(1)
        by (intro exI [of _ c3] exI [of _ w3]) (simp add: result_ok_def)
    next
      case False
      have chat: "typ = ''channel.chat.message''"
        using False assms(2,7) by (auto simp: allows_live_def required_types_def type_payload_def webhook_payload_def)
      have same: "fst a = 403" "subs w3 = subs w2" using made False by auto
      have "settled_pair allows (ev_config c) bid typ good []" using False Nil chat by (simp add: settled_pair_def)
      then show ?thesis using run cr(2) same none others ok2 chat
        by (intro exI [of _ c3] exI [of _ w3]) simp
    qed
  next
    case (Cons g gs)
    have "distinct ?P" using P(1) by (simp add: ids_ok_def distinct_map)
    from keep_one [OF this, of k g gs] Cons assms(5,6)
    have "filter (\<lambda>s. s \<notin> set gs) (filter (\<lambda>s. s \<notin> set bad) ?P) = [g]" by simp
    moreover have "pair_subs bid typ (subs w2) = filter (\<lambda>s. s \<notin> set gs) (filter (\<lambda>s. s \<notin> set bad) ?P)"
      unfolding s2 s1 Cons by (auto simp: pair_subs_def intro: filter_cong)
    ultimately show ?thesis using d1 d2 others ok2 Cons
      by (intro exI [of _ c2] exI [of _ w2]) (auto simp: repair_def settled_pair_def settled_sub_def)
  qed
qed

section \<open>The audit\<close>

text \<open>What the audit keeps of the subscriptions of a pair it found.\<close>

definition kept_subs :: "check_options \<Rightarrow> string \<Rightarrow> subscription list \<Rightarrow> string \<Rightarrow> string \<Rightarrow> subscription list" where
  "kept_subs opts callback everything bid typ =
     filter (keep_sub callback (co_fix_callback opts) (co_force opts)) (pair_subs bid typ everything)"

definition settled ::
  "(sub_payload \<Rightarrow> bool) \<Rightarrow> check_options \<Rightarrow> event_sub_config \<Rightarrow> string \<Rightarrow> subscription list \<Rightarrow> string \<times> string \<Rightarrow> subscription list \<Rightarrow> bool" where
  "settled allows opts cfg callback everything p ss \<longleftrightarrow>
     settled_pair allows cfg (fst p) (snd p) (kept_subs opts callback everything (fst p) (snd p)) (pair_subs (fst p) (snd p) ss)"

lemma audit_type_works:
  assumes "keeps_subs tw allows good subs pages" and "typ \<in> set required_types" and "bid \<noteq> []" and "ids_ok (subs w)"
    and "pair_subs bid typ everything = pair_subs bid typ (subs w)" and "\<not> co_dry_run opts" and "allows_live allows"
  shows "\<exists>n' c' w'. audit_type opts tw callback (by_broadcaster everything bid) bid typ (n, c, w) = (n', c', w') \<and>
    ac_failed n' = ac_failed n \<and>
    ac_unauthorized n' = ac_unauthorized n + (if pair_subs bid typ (subs w') = [] then 1 else 0) \<and> ev_config c' = ev_config c \<and>
    settled allows opts (ev_config c) callback everything (bid, typ) (subs w') \<and>
    other_subs bid typ (subs w') = other_subs bid typ (subs w) \<and> ids_ok (subs w')"
proof -
  let ?k = "keep_sub callback (co_fix_callback opts) (co_force opts)"
  define kept bad where "kept = filter ?k (pair_subs bid typ (subs w))" and "bad = filter (\<lambda>s. \<not> ?k s) (pair_subs bid typ (subs w))"
  have kept: "kept_subs opts callback everything bid typ = kept" by (simp add: kept_subs_def kept_def assms(5))
  have cl: "classify (by_broadcaster everything bid) typ callback (co_fix_callback opts) (co_force opts) = (kept, bad)"
    by (simp add: classify_def pair_of_broadcaster kept_def bad_def assms(5) Let_def)
  show ?thesis
  proof (cases "\<not> co_force opts \<and> length kept = 1 \<and> bad = []")
    case True
    then obtain s where s: "kept = [s]" by (auto simp: length_Suc_conv)
    have "pair_subs bid typ (subs w) = kept" using True by (auto simp: kept_def bad_def filter_empty_conv)
    then show ?thesis using True cl s assms(4)
      by (auto simp: audit_type_def settled_def settled_pair_def settled_sub_def kept)
  next
    case False
    from repair_works [OF assms(1-4) kept_def bad_def assms(7), of c] obtain c' w' where
      r: "repair tw typ bid kept bad (c, w) = (if pair_subs bid typ (subs w') = [] then Some Chat_Auth_Missing else None, c', w')"
      "ev_config c' = ev_config c" "settled_pair allows (ev_config c) bid typ kept (pair_subs bid typ (subs w'))"
      "other_subs bid typ (subs w') = other_subs bid typ (subs w)" "ids_ok (subs w')"
      by blast
    show ?thesis
    proof (cases "pair_subs bid typ (subs w') = []")
      case True
      then show ?thesis using False cl assms(6) r
        by (intro exI [of _ "n\<lparr> ac_unauthorized := Suc (ac_unauthorized n) \<rparr>"] exI [of _ c'] exI [of _ w'])
          (auto simp: audit_type_def settled_def kept)
    next
      case pair: False
      then show ?thesis using False cl assms(6) r
        by (intro exI [of _ "n\<lparr> ac_repaired := Suc (ac_repaired n) \<rparr>"] exI [of _ c'] exI [of _ w'])
          (auto simp: audit_type_def settled_def kept)
    qed
  qed
qed

definition audit_pair ::
  "check_options \<Rightarrow> 'w twitch \<Rightarrow> string \<Rightarrow> subscription list \<Rightarrow> string \<times> string \<Rightarrow> audit_counts \<times> event_sub_client \<times> 'w
     \<Rightarrow> audit_counts \<times> event_sub_client \<times> 'w" where
  "audit_pair opts tw callback everything p =
     audit_type opts tw callback (by_broadcaster everything (fst p)) (fst p) (snd p)"

text \<open>The pairs the audit goes through, in order.\<close>

definition user_pairs :: "user \<Rightarrow> (string \<times> string) list" where
  "user_pairs u = (case (us_twitch_id u, us_login u) of (Some bid, Some _) \<Rightarrow> map (Pair bid) required_types | _ \<Rightarrow> [])"

definition audited_pairs :: "user list \<Rightarrow> (string \<times> string) list" where
  "audited_pairs users = concat (map user_pairs users)"

lemma audit_user_pairs:
  "audit_user opts tw callback everything u a = fold (audit_pair opts tw callback everything) (user_pairs u) a"
  by (auto simp: audit_user_def user_pairs_def audit_pair_def fold_map comp_def split: option.splits)

lemma run_audit_pairs:
  "run_audit opts tw callback everything users s = fold (audit_pair opts tw callback everything) (audited_pairs users) (no_counts, s)"
proof -
  have "fold (audit_user opts tw callback everything) us a = fold (audit_pair opts tw callback everything) (audited_pairs us) a" for us a
    by (induction us arbitrary: a) (simp_all add: audited_pairs_def audit_user_pairs)
  then show ?thesis by (simp add: run_audit_def)
qed

text \<open>Subscriptions of another pair.\<close>

lemma other_pair:
  assumes "other_subs bid typ ss' = other_subs bid typ ss" and "p \<noteq> (bid, typ)"
  shows "pair_subs (fst p) (snd p) ss' = pair_subs (fst p) (snd p) ss"
  using assms pair_in_others [of "fst p" "snd p" bid "typ"] by (cases p) (metis prod.sel)

lemma audit_pairs_work:
  assumes "keeps_subs tw allows good subs pages" and "\<not> co_dry_run opts" and "allows_live allows" and "distinct ps"
    and "\<forall>p \<in> set ps. snd p \<in> set required_types \<and> fst p \<noteq> [] \<and>
      pair_subs (fst p) (snd p) everything = pair_subs (fst p) (snd p) (subs w)" and "ids_ok (subs w)"
  shows "\<exists>n' c' w'. fold (audit_pair opts tw callback everything) ps (n, c, w) = (n', c', w') \<and>
    ac_failed n' = ac_failed n \<and>
    ac_unauthorized n' = ac_unauthorized n + length (filter (\<lambda>p. pair_subs (fst p) (snd p) (subs w') = []) ps) \<and> ids_ok (subs w') \<and>
    (\<forall>p \<in> set ps. settled allows opts (ev_config c) callback everything p (subs w')) \<and>
    (\<forall>p. p \<notin> set ps \<longrightarrow> pair_subs (fst p) (snd p) (subs w') = pair_subs (fst p) (snd p) (subs w))"
  using assms(4-6)
proof (induction ps arbitrary: n c w)
  case (Cons p ps)
  obtain bid ty where p: "p = (bid, ty)" by fastforce
  from Cons.prems p have "ty \<in> set required_types" "bid \<noteq> []" "pair_subs bid ty everything = pair_subs bid ty (subs w)" by auto
  from audit_type_works [OF assms(1) this(1,2) Cons.prems(3) this(3) assms(2,3), of callback n c]
  obtain n1 c1 w1 where one: "audit_pair opts tw callback everything p (n, c, w) = (n1, c1, w1)"
    "ac_failed n1 = ac_failed n"
    "ac_unauthorized n1 = ac_unauthorized n + (if pair_subs bid ty (subs w1) = [] then 1 else 0)" "ev_config c1 = ev_config c"
    "settled allows opts (ev_config c) callback everything p (subs w1)" "other_subs bid ty (subs w1) = other_subs bid ty (subs w)"
    "ids_ok (subs w1)" unfolding audit_pair_def p fst_conv snd_conv by blast
  have same: "pair_subs (fst q) (snd q) (subs w1) = pair_subs (fst q) (snd q) (subs w)" if "q \<noteq> p" for q
    using other_pair [OF one(6)] that p by simp
  have notin: "p \<notin> set ps" "distinct ps" using Cons.prems(1) by auto
  have "\<forall>q \<in> set ps. snd q \<in> set required_types \<and> fst q \<noteq> [] \<and>
      pair_subs (fst q) (snd q) everything = pair_subs (fst q) (snd q) (subs w1)"
    using Cons.prems(2) same notin(1) by (metis list.set_intros(2))
  from Cons.IH [OF notin(2) this one(7), of n1 c1] obtain n' c' w' where rest:
    "fold (audit_pair opts tw callback everything) ps (n1, c1, w1) = (n', c', w')"
    "ac_failed n' = ac_failed n1"
    "ac_unauthorized n' = ac_unauthorized n1 + length (filter (\<lambda>p. pair_subs (fst p) (snd p) (subs w') = []) ps)" "ids_ok (subs w')"
    "\<forall>q \<in> set ps. settled allows opts (ev_config c) callback everything q (subs w')"
    "\<forall>q. q \<notin> set ps \<longrightarrow> pair_subs (fst q) (snd q) (subs w') = pair_subs (fst q) (snd q) (subs w1)"
    unfolding one(4) by blast
  have kept: "pair_subs (fst p) (snd p) (subs w') = pair_subs (fst p) (snd p) (subs w1)" using rest(6) notin(1) by blast
  have "settled allows opts (ev_config c) callback everything p (subs w')"
    using one(5) kept by (simp add: settled_def)
  then show ?case using one rest same kept by (auto simp: p)
qed simp

lemma user_pairs_fst: "p \<in> set (user_pairs u) \<Longrightarrow> us_twitch_id u = Some (fst p) \<and> snd p \<in> set required_types"
  by (auto simp: user_pairs_def split: option.splits)

lemma audited_pairs_of: "p \<in> set (audited_pairs users) \<Longrightarrow> \<exists>u \<in> set users. us_twitch_id u = Some (fst p) \<and> snd p \<in> set required_types"
  using user_pairs_fst by (fastforce simp: audited_pairs_def)

lemma distinct_user_pairs: "distinct (user_pairs u)"
  by (auto simp: user_pairs_def required_types_def distinct_map split: option.splits)

lemma distinct_audited:
  "distinct (map us_twitch_id users) \<Longrightarrow> distinct (audited_pairs users)"
proof (induction users)
  case (Cons u users)
  have "set (user_pairs u) \<inter> set (audited_pairs users) = {}"
    using Cons.prems user_pairs_fst [of _ u] audited_pairs_of [of _ users] by (fastforce simp: image_iff)
  then show ?case using Cons distinct_user_pairs [of u] by (simp add: audited_pairs_def)
qed (simp add: audited_pairs_def)

lemma loaded_users:
  assumes "load_opted_in_users url key channels = Some users" and "p \<in> set (audited_pairs users)"
  shows "fst p \<noteq> []"
  using assms audited_pairs_of [OF assms(2)]
  by (auto simp: load_opted_in_users_def Let_def split: if_splits option.splits)

lemma new_sub_fields: "new_sub cfg bid ty s \<Longrightarrow> live_status (sub_status s) \<and> sub_callback s = ec_callback cfg"
  by (auto simp: new_sub_def sub_of_payload_def type_payload_def webhook_payload_def)

text \<open>
  One subscription: the first that was worth keeping, which is enabled, otherwise a new one on the bot's callback,
  enabled or still to be verified.
\<close>

definition one_left :: "string \<Rightarrow> subscription list \<Rightarrow> subscription list \<Rightarrow> bool" where
  "one_left callback kept left \<longleftrightarrow>
     (\<exists>s. left = [s] \<and>
        (if kept = [] then live_status (sub_status s) \<and> sub_callback s = callback
         else s = hd kept \<and> sub_status s = ''enabled''))"

lemma settled_one_left:
  assumes "settled allows opts cfg (ec_callback cfg) everything p ss"
  shows "one_left (ec_callback cfg) (kept_subs opts (ec_callback cfg) everything (fst p) (snd p)) (pair_subs (fst p) (snd p) ss) \<or>
    snd p = ''channel.chat.message'' \<and> \<not> allows (type_payload cfg (fst p) (snd p)) \<and>
      kept_subs opts (ec_callback cfg) everything (fst p) (snd p) = [] \<and> pair_subs (fst p) (snd p) ss = []"
proof -
  let ?kept = "kept_subs opts (ec_callback cfg) everything (fst p) (snd p)"
  consider (one) s where "pair_subs (fst p) (snd p) ss = [s]" "settled_sub cfg (fst p) (snd p) ?kept s"
    | (none) "pair_subs (fst p) (snd p) ss = []" "?kept = []" "snd p = ''channel.chat.message''" "\<not> allows (type_payload cfg (fst p) (snd p))"
    using assms unfolding settled_def settled_pair_def by blast
  then show ?thesis
  proof cases
    case one
    show ?thesis
    proof (cases "?kept")
      case Nil
      then show ?thesis using one new_sub_fields by (auto simp: one_left_def settled_sub_def)
    next
      case (Cons x xs)
      then have "x \<in> set ?kept" by simp
      then have "sub_status x = ''enabled''" by (simp add: kept_subs_def keep_sub_def)
      then show ?thesis using one Cons by (auto simp: one_left_def settled_sub_def)
    qed
  next
    case none
    then show ?thesis by blast
  qed
qed


text \<open>Two users, one with two subscriptions of which one failed, against a Twitch that is its list of subscriptions; the second has not let the bot read his chat.\<close>

definition repair_users :: "user list" where
  "repair_users = map (\<lambda>(i, bid). \<lparr> us_id = i, us_twitch_id = Some bid, us_login = Some bid, us_display_name = None, us_opt_in = True,
     us_live = False, us_key = None \<rparr>) [(1, ''99''), (2, ''42'')]"

definition demo_options :: check_options where
  "demo_options = \<lparr> co_dry_run = False, co_fix_callback = False, co_force = False, co_list = False, co_prune = False \<rparr>"

definition demo_failed :: "subscription list" where
  "demo_failed = demo_subs @ [(demo_subs ! 1)\<lparr> sub_id := ''c'', sub_status := ''notification_failures_exceeded'' \<rparr>]"

definition demo_chat_allows :: "sub_payload \<Rightarrow> bool" where
  "demo_chat_allows p \<longleftrightarrow> sp_broadcaster p = ''99'' \<or> sp_type p \<noteq> ''channel.chat.message''"


section \<open>Pruning\<close>

lemma prune_each_works:
  assumes "keeps_subs tw allows good subs pages" and "[] \<notin> sub_id ` set xs"
  shows "\<exists>c' w'. prune_each tw False xs ((d, f), c, w) = ((d + length xs, f), c', w') \<and>
    subs w' = filter (\<lambda>s. sub_id s \<notin> sub_id ` set xs) (subs w)"
  using assms(2)
proof (induction xs arbitrary: c w d)
  case (Cons x xs)
  then have "sub_id x \<noteq> []" by auto
  then obtain c1 w1 where one: "delete_event_sub_subscription tw (sub_id x) (c, w) = (Inr (), c1, w1)"
    "ev_config c1 = ev_config c" "subs w1 = filter (\<lambda>s. sub_id s \<noteq> sub_id x) (subs w)"
    by (rule delete_works [OF assms(1)])
  from Cons obtain c' w' where "prune_each tw False xs ((Suc d, f), c1, w1) = ((Suc d + length xs, f), c', w')"
    "subs w' = filter (\<lambda>s. sub_id s \<notin> sub_id ` set xs) (subs w1)" by fastforce
  then show ?case using one by (auto intro: filter_cong)
qed simp

text \<open>Pruning leaves only what belongs to opted-in users: the overlay's subscriptions of others go as well.\<close>

lemma prune_keeps_opted_in:
  assumes "keeps_subs tw allows good subs pages" and "ids_ok (subs w)"
  shows "\<exists>d c' w'. prune_orphan_subscriptions tw users (subs w) False (c, w) = ((d, 0), c', w') \<and>
    subs w' = filter (\<lambda>s. sub_broadcaster s \<in> opted_in users) (subs w)"
proof -
  let ?xs = "orphan_subscriptions (opted_in users) (subs w)"
  have xs: "set ?xs \<subseteq> set (subs w)" by (auto simp: orphan_subscriptions_def)
  then have "[] \<notin> sub_id ` set ?xs" using assms(2) by (auto simp: ids_ok_def)
  from prune_each_works [OF assms(1) this, of 0 0 c w] obtain c' w' where
    "prune_each tw False ?xs ((0, 0), c, w) = ((length ?xs, 0), c', w')" "subs w' = filter (\<lambda>s. sub_id s \<notin> sub_id ` set ?xs) (subs w)" by auto
  moreover have "filter (\<lambda>s. s \<notin> set ?xs) (subs w) = filter (\<lambda>s. sub_broadcaster s \<in> opted_in users) (subs w)"
    by (auto simp: orphan_subscriptions_def intro: filter_cong)
  ultimately show ?thesis using remove_members [OF assms(2) xs] by (auto simp: prune_orphan_subscriptions_def)
qed

end
