(* ===== verification/Twitch_Auth.thy ===== *)
theory Twitch_Auth
  imports Go_Prelude
begin

text \<open>
  The two token sources of the bot (\<^verbatim>\<open>internal/libraries/twitchauth\<close>) and their use when the bot connects to IRC
  (\<^verbatim>\<open>connectWithPanicRecovery\<close> of \<^verbatim>\<open>twitchbot/bot.go\<close>). Twitch's token endpoint and the clock are
  parameters. Each call of a source runs under its mutex, so a run is a sequence of calls.
\<close>

section \<open>The token endpoint\<close>

record token_response =
  tr_access :: string
  tr_refresh :: string
  tr_expires_in :: int

type_synonym form = "(string \<times> string) list"

text \<open>An answer is \<open>None\<close> when the request fails or cannot be read; its body is \<open>None\<close> when it does not decode.\<close>

record 'w token_world =
  tk_now :: "'w \<Rightarrow> int"
  tk_post :: "form \<Rightarrow> 'w \<Rightarrow> (int \<times> token_response option) option \<times> 'w"

datatype token_error = Token_Request_Failed | Token_Bad_Status int | Token_Not_Decoded | Token_Empty

definition second :: int where
  "second = 1000000000"

text \<open>The checks both sources make on an answer.\<close>

definition token_answer :: "(int \<times> token_response option) option \<Rightarrow> token_error + token_response" where
  "token_answer a =
     (case a of
        None \<Rightarrow> Inl Token_Request_Failed
      | Some (status, body) \<Rightarrow>
          if status \<noteq> 200 then Inl (Token_Bad_Status status)
          else case body of
            None \<Rightarrow> Inl Token_Not_Decoded
          | Some r \<Rightarrow> if tr_access r = [] then Inl Token_Empty else Inr r)"

definition token_ttl :: "int \<Rightarrow> int" where
  "token_ttl expires_in = (let ttl = wrap64 (expires_in * second) in if ttl \<le> 0 then 3600 * second else ttl)"

definition still_good :: "string \<Rightarrow> int \<Rightarrow> int \<Rightarrow> bool" where
  "still_good tok expires now \<longleftrightarrow> tok \<noteq> [] \<and> now < expires - 60 * second"

section \<open>The application's token\<close>

record app_token_source =
  as_client_id :: string
  as_client_secret :: string
  as_token :: string
  as_expires :: int

text \<open>The zero time of a source that has no token; it is never compared.\<close>

definition new_app_token_source :: "string \<Rightarrow> string \<Rightarrow> app_token_source" where
  "new_app_token_source client_id client_secret =
     \<lparr> as_client_id = client_id, as_client_secret = client_secret, as_token = [], as_expires = 0 \<rparr>"

definition app_form :: "app_token_source \<Rightarrow> form" where
  "app_form s =
     [(''grant_type'', ''client_credentials''), (''client_id'', as_client_id s), (''client_secret'', as_client_secret s)]"

definition app_token :: "'w token_world \<Rightarrow> app_token_source \<times> 'w \<Rightarrow> (token_error + string) \<times> app_token_source \<times> 'w" where
  "app_token tw sw =
     (case sw of (s, w) \<Rightarrow>
        if still_good (as_token s) (as_expires s) (tk_now tw w) then (Inr (as_token s), s, w)
        else case tk_post tw (app_form s) w of (a, w1) \<Rightarrow>
          (case token_answer a of
             Inl e \<Rightarrow> (Inl e, s, w1)
           | Inr r \<Rightarrow>
               (Inr (tr_access r),
                s\<lparr> as_token := tr_access r, as_expires := tk_now tw w1 + token_ttl (tr_expires_in r) \<rparr>, w1)))"

section \<open>The bot's own token\<close>

record refresher =
  rf_client_id :: string
  rf_client_secret :: string
  rf_refresh :: string
  rf_token :: string
  rf_expires :: int

definition new_refresher :: "string \<Rightarrow> string \<Rightarrow> string \<Rightarrow> refresher" where
  "new_refresher client_id client_secret refresh =
     \<lparr> rf_client_id = client_id, rf_client_secret = client_secret, rf_refresh = refresh, rf_token = [], rf_expires = 0 \<rparr>"

definition refresh_form :: "string \<Rightarrow> string \<Rightarrow> string \<Rightarrow> form" where
  "refresh_form client_id client_secret refresh =
     [(''grant_type'', ''refresh_token''), (''refresh_token'', refresh), (''client_id'', client_id),
      (''client_secret'', client_secret)]"

definition refresher_token :: "'w token_world \<Rightarrow> refresher \<times> 'w \<Rightarrow> (token_error + string) \<times> refresher \<times> 'w" where
  "refresher_token tw rw =
     (case rw of (r, w) \<Rightarrow>
        if still_good (rf_token r) (rf_expires r) (tk_now tw w) then (Inr (rf_token r), r, w)
        else case tk_post tw (refresh_form (rf_client_id r) (rf_client_secret r) (rf_refresh r)) w of (a, w1) \<Rightarrow>
          (case token_answer a of
             Inl e \<Rightarrow> (Inl e, r, w1)
           | Inr p \<Rightarrow>
               (Inr (tr_access p),
                r\<lparr> rf_token := tr_access p, rf_refresh := (if tr_refresh p \<noteq> [] then tr_refresh p else rf_refresh r),
                   rf_expires := tk_now tw w1 + token_ttl (tr_expires_in p) \<rparr>, w1)))"

section \<open>Connecting\<close>

text \<open>
  One turn of the reconnect loop: the token the client logs in with, given the one it holds. Without a
  provider it keeps its own.
\<close>

definition connect_turn ::
  "'w token_world \<Rightarrow> string \<times> refresher option \<times> 'w \<Rightarrow> string \<times> string \<times> refresher option \<times> 'w" where
  "connect_turn tw s =
     (case s of (held, provider, w) \<Rightarrow>
        (case provider of
           None \<Rightarrow> (held, held, None, w)
         | Some r \<Rightarrow>
             (case refresher_token tw (r, w) of
                (Inl _, r1, w1) \<Rightarrow> (held, held, Some r1, w1)
              | (Inr tok, r1, w1) \<Rightarrow> (''oauth:'' @ tok, ''oauth:'' @ tok, Some r1, w1))))"

text \<open>The turns of the loop, between which the world moves on as \<open>pass\<close> says; the result is the tokens used.\<close>

fun connect_turns ::
  "'w token_world \<Rightarrow> ('w \<Rightarrow> 'w) list \<Rightarrow> string \<times> refresher option \<times> 'w \<Rightarrow> string list" where
  "connect_turns tw [] s = []"
| "connect_turns tw (pass # passes) s =
     (case s of (held, provider, w) \<Rightarrow>
        (case connect_turn tw (held, provider, pass w) of (used, s1) \<Rightarrow> used # connect_turns tw passes s1))"

section \<open>Tokens stay valid\<close>

text \<open>
  What Twitch documents of a refresh: a request with the current refresh token is either granted or it fails, with any
  status or with no answer at all. When it is granted, the new access token lives for the seconds the answer says,
  more than a minute of them, and a new refresh token when one is given replaces the old one. When it fails, no token has
  changed: the one thing this rules out is a rotation whose answer is lost on the way, which
  \<open>lost_rotation_strands\<close> below is about. \<open>current\<close> is the refresh token that counts, \<open>valid_until\<close> the end of an
  access token's life; a granting answer arrives within the client's timeout of fifteen seconds.
\<close>

definition grants :: "'w token_world \<Rightarrow> string \<Rightarrow> string \<Rightarrow> ('w \<Rightarrow> string) \<Rightarrow> 'w \<Rightarrow> bool" where
  "grants tw cid sec current w \<longleftrightarrow> (case token_answer (fst (tk_post tw (refresh_form cid sec (current w)) w)) of Inl _ \<Rightarrow> False | Inr _ \<Rightarrow> True)"

definition refreshes :: "'w token_world \<Rightarrow> string \<Rightarrow> string \<Rightarrow> ('w \<Rightarrow> string) \<Rightarrow> ('w \<Rightarrow> string \<Rightarrow> int) \<Rightarrow> bool" where
  "refreshes tw cid sec current valid_until \<longleftrightarrow>
     (\<forall>w. case tk_post tw (refresh_form cid sec (current w)) w of (a, w1) \<Rightarrow>
        (case token_answer a of
           Inl _ \<Rightarrow> current w1 = current w \<and> valid_until w1 = valid_until w
         | Inr p \<Rightarrow>
             60 < tr_expires_in p \<and> tr_expires_in p < 4000000000 \<and>
             current w1 = (if tr_refresh p \<noteq> [] then tr_refresh p else current w) \<and>
             tk_now tw w1 + tr_expires_in p * second \<le> valid_until w1 (tr_access p) + 15 * second))"

text \<open>What may happen between two calls: time passes, no token is touched.\<close>

definition only_time :: "('w \<Rightarrow> string) \<Rightarrow> ('w \<Rightarrow> string \<Rightarrow> int) \<Rightarrow> ('w \<Rightarrow> 'w) \<Rightarrow> bool" where
  "only_time current valid_until pass \<longleftrightarrow> (\<forall>w. current (pass w) = current w \<and> valid_until (pass w) = valid_until w)"

definition tokens_in_step :: "string \<Rightarrow> string \<Rightarrow> ('w \<Rightarrow> string) \<Rightarrow> ('w \<Rightarrow> string \<Rightarrow> int) \<Rightarrow> refresher \<Rightarrow> 'w \<Rightarrow> bool" where
  "tokens_in_step cid sec current valid_until r w \<longleftrightarrow>
     rf_client_id r = cid \<and> rf_client_secret r = sec \<and> rf_refresh r = current w \<and>
     (rf_token r \<noteq> [] \<longrightarrow> rf_expires r \<le> valid_until w (rf_token r) + 15 * second)"

lemma token_ttl_small: "60 < n \<Longrightarrow> n < 4000000000 \<Longrightarrow> token_ttl n = n * second"
  by (simp add: token_ttl_def second_def wrap64_small Let_def)

text \<open>One call of the source: a valid token, or a failure that leaves the source as it was.\<close>

lemma refresher_step:
  assumes "refreshes tw cid sec current valid_until" and "tokens_in_step cid sec current valid_until r w"
    and "refresher_token tw (r, w) = (res, r1, w1)"
  shows "tokens_in_step cid sec current valid_until r1 w1 \<and>
    (case res of Inl _ \<Rightarrow> \<not> grants tw cid sec current w | Inr tok \<Rightarrow> tk_now tw w1 < valid_until w1 tok)"
proof (cases "still_good (rf_token r) (rf_expires r) (tk_now tw w)")
  case True
  then have "tk_now tw w < valid_until w (rf_token r)"
    using assms(2) by (auto simp: still_good_def tokens_in_step_def second_def)
  then show ?thesis using True assms(2,3) by (auto simp: refresher_token_def)
next
  case False
  obtain a w2 where post: "tk_post tw (refresh_form cid sec (current w)) w = (a, w2)" by fastforce
  have r: "rf_client_id r = cid" "rf_client_secret r = sec" "rf_refresh r = current w"
    using assms(2) by (simp_all add: tokens_in_step_def)
  note law = assms(1) [unfolded refreshes_def, rule_format, of w, unfolded post prod.case]
  show ?thesis
  proof (cases "token_answer a")
    case (Inl e)
    then show ?thesis using False assms(2,3) post r law by (auto simp: refresher_token_def grants_def tokens_in_step_def)
  next
    case (Inr p)
    then have p: "60 < tr_expires_in p" "tr_expires_in p < 4000000000"
      "current w2 = (if tr_refresh p \<noteq> [] then tr_refresh p else current w)"
      "tk_now tw w2 + tr_expires_in p * second \<le> valid_until w2 (tr_access p) + 15 * second"
      using law by simp_all
    have "15 * second < tr_expires_in p * second" using p(1) by (simp add: second_def)
    then have "tk_now tw w2 < valid_until w2 (tr_access p)" using p(4) by linarith
    then show ?thesis using False assms(3) post r Inr p(3,4) token_ttl_small [OF p(1,2)]
      by (auto simp: refresher_token_def tokens_in_step_def)
  qed
qed

text \<open>
  Every login of a run of the loop: with a token that Twitch accepts at that moment, or with the one held before, and the
  latter only when Twitch does not grant a request made then with the refresh token that counts.
\<close>

fun logins_sound ::
  "'w token_world \<Rightarrow> string \<Rightarrow> string \<Rightarrow> ('w \<Rightarrow> string) \<Rightarrow> ('w \<Rightarrow> string \<Rightarrow> int) \<Rightarrow> ('w \<Rightarrow> 'w) list \<Rightarrow>
     string \<times> refresher option \<times> 'w \<Rightarrow> bool" where
  "logins_sound tw cid sec current valid_until [] s = True"
| "logins_sound tw cid sec current valid_until (pass # passes) s =
     (case s of (held, provider, w) \<Rightarrow>
        (case connect_turn tw (held, provider, pass w) of
           (used, held1, provider1, w1) \<Rightarrow>
             ((\<exists>tok. used = ''oauth:'' @ tok \<and> tk_now tw w1 < valid_until w1 tok) \<or>
              used = held \<and> \<not> grants tw cid sec current (pass w)) \<and>
             held1 = used \<and> logins_sound tw cid sec current valid_until passes (held1, provider1, w1)))"

lemma logins_are_sound:
  assumes "refreshes tw cid sec current valid_until" and "tokens_in_step cid sec current valid_until r w"
    and "\<forall>pass \<in> set passes. only_time current valid_until pass"
  shows "logins_sound tw cid sec current valid_until passes (held, Some r, w)"
  using assms(2,3)
proof (induction passes arbitrary: held r w)
  case (Cons pass passes)
  have "tokens_in_step cid sec current valid_until r (pass w)"
    using Cons.prems by (simp add: tokens_in_step_def only_time_def)
  moreover obtain res r1 w1 where "refresher_token tw (r, pass w) = (res, r1, w1)" by (metis prod_cases3)
  ultimately show ?case using refresher_step [OF assms(1), of r "pass w" res r1 w1] Cons
    by (cases res) (auto simp: connect_turn_def)
qed simp


text \<open>
  A Twitch that rotates at every refresh and has outages: its state is whether it is up, the time and the ends of the lives
  it gave.
\<close>

definition nth_token :: "nat \<Rightarrow> string" where
  "nth_token n = replicate n CHR ''t''"

definition rotating_twitch :: "(bool \<times> int \<times> int list) token_world" where
  "rotating_twitch =
     \<lparr> tk_now = (\<lambda>(up, t, es). t),
       tk_post = (\<lambda>f (up, t, es).
         if \<not> up then (None, (up, t, es))
         else if map_of f ''refresh_token'' = Some (nth_token (length es))
         then (Some (200, Some \<lparr> tr_access = nth_token (Suc (length es)), tr_refresh = nth_token (Suc (length es)),
                                 tr_expires_in = 3600 \<rparr>),
               (up, t + second, es @ [t + 3600 * second]))
         else (Some (400, None), (up, t, es))) \<rparr>"

definition rotating_current :: "bool \<times> int \<times> int list \<Rightarrow> string" where
  "rotating_current w = nth_token (length (snd (snd w)))"

definition rotating_until :: "bool \<times> int \<times> int list \<Rightarrow> string \<Rightarrow> int" where
  "rotating_until w tok = snd (snd w) ! (length tok - 1)"

lemma rotating_refreshes: "refreshes rotating_twitch ''id'' ''se'' rotating_current rotating_until"
  by (auto simp: refreshes_def rotating_twitch_def refresh_form_def nth_token_def rotating_current_def rotating_until_def second_def
      nth_append token_answer_def)

text \<open>Four turns: the second and the third fall into an outage, after the first token has run out.\<close>

definition demo_passes :: "(bool \<times> int \<times> int list \<Rightarrow> bool \<times> int \<times> int list) list" where
  "demo_passes = [\<lambda>w. w, \<lambda>(up, t, es). (False, t + 7200 * second, es), \<lambda>w. w, \<lambda>(up, t, es). (True, t + second, es)]"


text \<open>When the answer to a rotation is lost, the source keeps the old refresh token and cannot renew any more.\<close>

definition refuses_old :: "'w token_world \<Rightarrow> string \<Rightarrow> string \<Rightarrow> string \<Rightarrow> ('w \<Rightarrow> bool) \<Rightarrow> bool" where
  "refuses_old tw cid sec old I \<longleftrightarrow> (\<forall>w. I w \<longrightarrow> (\<exists>w1. tk_post tw (refresh_form cid sec old) w = (Some (400, None), w1) \<and> I w1))"

lemma lost_rotation_strands:
  assumes "refuses_old tw cid sec (rf_refresh r) I" and "rf_client_id r = cid" and "rf_client_secret r = sec" and "I w"
    and "\<not> still_good (rf_token r) (rf_expires r) (tk_now tw w)"
  shows "\<exists>w1. refresher_token tw (r, w) = (Inl (Token_Bad_Status 400), r, w1) \<and> I w1"
proof -
  obtain w1 where "tk_post tw (refresh_form cid sec (rf_refresh r)) w = (Some (400, None), w1)" "I w1"
    using assms(1,4) unfolding refuses_old_def by blast
  then show ?thesis using assms(2,3,5) by (auto simp: refresher_token_def token_answer_def)
qed

text \<open>A failure of either source leaves what it has cached as it was.\<close>

lemma failed_token_keeps:
  "fst (refresher_token tw (r, w)) = Inl e \<Longrightarrow> fst (snd (refresher_token tw (r, w))) = r"
  "fst (app_token tw (s, w)) = Inl e \<Longrightarrow> fst (snd (app_token tw (s, w))) = s"
  by (auto simp: refresher_token_def app_token_def split: if_splits prod.splits sum.splits)

section \<open>Minting the first pair of tokens\<close>

text \<open>
  The helper \<^verbatim>\<open>cmd/twitch-bot-auth\<close>: it waits for the browser's redirect, exchanges the code and prints the two
  settings. The redirects are the requests its local server gets before its five minutes are over.
\<close>

record redirect =
  rd_error :: string
  rd_description :: string
  rd_code :: string

datatype mint_error =
    Mint_Not_Configured | Mint_Denied string | Mint_Timed_Out | Mint_Request_Failed | Mint_Bad_Status int | Mint_Not_Decoded

fun await_code :: "redirect list \<Rightarrow> mint_error + string" where
  "await_code [] = Inl Mint_Timed_Out"
| "await_code (q # qs) =
     (if rd_error q \<noteq> [] then Inl (Mint_Denied (rd_error q @ '': '' @ rd_description q))
      else if rd_code q = [] then await_code qs
      else Inr (rd_code q))"

definition mint_scopes :: string where
  "mint_scopes = ''chat:read chat:edit user:read:chat user:bot user:write:chat moderator:manage:announcements moderator:read:followers channel:read:subscriptions''"

definition authorize_form :: "string \<Rightarrow> string \<Rightarrow> form" where
  "authorize_form client_id redirect_uri =
     [(''client_id'', client_id), (''redirect_uri'', redirect_uri), (''response_type'', ''code''), (''scope'', mint_scopes),
      (''force_verify'', ''true'')]"

definition code_form :: "string \<Rightarrow> string \<Rightarrow> string \<Rightarrow> string \<Rightarrow> form" where
  "code_form client_id client_secret code redirect_uri =
     [(''client_id'', client_id), (''client_secret'', client_secret), (''code'', code), (''grant_type'', ''authorization_code''),
      (''redirect_uri'', redirect_uri)]"

definition mint_tokens ::
  "'w token_world \<Rightarrow> string \<Rightarrow> string \<Rightarrow> string \<Rightarrow> redirect list \<Rightarrow> 'w \<Rightarrow> (mint_error + string list) \<times> 'w" where
  "mint_tokens tw client_id client_secret port redirects w =
     (if client_id = [] \<or> client_secret = [] then (Inl Mint_Not_Configured, w)
      else case await_code redirects of
        Inl e \<Rightarrow> (Inl e, w)
      | Inr code \<Rightarrow>
          (case tk_post tw (code_form client_id client_secret code (''http://localhost:'' @ port)) w of
             (None, w1) \<Rightarrow> (Inl Mint_Request_Failed, w1)
           | (Some (status, body), w1) \<Rightarrow>
               if status \<noteq> 200 then (Inl (Mint_Bad_Status status), w1)
               else (case body of
                       None \<Rightarrow> (Inl Mint_Not_Decoded, w1)
                     | Some r \<Rightarrow>
                         (Inr [''TWITCH_BOT_OAUTH=oauth:'' @ tr_access r, ''TWITCH_BOT_REFRESH='' @ tr_refresh r], w1))))"

text \<open>The code that is exchanged is that of the first redirect with one, if none before it reports an error.\<close>

lemma await_first_code:
  "\<forall>p \<in> set pre. rd_error p = [] \<and> rd_code p = [] \<Longrightarrow> rd_error q = [] \<Longrightarrow> rd_code q \<noteq> [] \<Longrightarrow>
     await_code (pre @ q # post) = Inr (rd_code q)"
  by (induction pre) simp_all

end
