(* ===== verification/Alerting.thy ===== *)
theory Alerting
  imports Go_Prelude
begin

text \<open>
  The alerts of core-api: the level at which a request is logged (\<^verbatim>\<open>cmd/core-api/main.go\<close>) and the hook that
  posts errors to Discord at a bounded rate (\<^verbatim>\<open>internal/libraries/alerting\<close>). The post itself is I/O. Times are in
  nanoseconds.
\<close>

section \<open>Levels\<close>

datatype log_level = Log_Panic | Log_Fatal | Log_Error | Log_Warn | Log_Info | Log_Debug

text \<open>The levels of logrus are numbered from the most severe on.\<close>

primrec level_rank :: "log_level \<Rightarrow> nat" where
  "level_rank Log_Panic = 0"
| "level_rank Log_Fatal = 1"
| "level_rank Log_Error = 2"
| "level_rank Log_Warn = 3"
| "level_rank Log_Info = 4"
| "level_rank Log_Debug = 5"

lemma level_rank_inj [simp]: "level_rank a = level_rank b \<longleftrightarrow> a = b"
  by (cases a; cases b) simp_all

instantiation log_level :: linorder
begin

definition less_eq_log_level :: "log_level \<Rightarrow> log_level \<Rightarrow> bool" where
  "less_eq_log_level a b \<longleftrightarrow> level_rank a \<le> level_rank b"

definition less_log_level :: "log_level \<Rightarrow> log_level \<Rightarrow> bool" where
  "less_log_level a b \<longleftrightarrow> level_rank a < level_rank b"

instance
  by standard (auto simp: less_eq_log_level_def less_log_level_def)

end

definition hook_levels :: "log_level list" where
  "hook_levels = [Log_Panic, Log_Fatal, Log_Error]"

text \<open>The hook is called for errors and what is more severe.\<close>

lemma hook_levels_iff: "l \<in> set hook_levels \<longleftrightarrow> l \<le> Log_Error"
  by (cases l) (simp_all add: hook_levels_def less_eq_log_level_def)

definition access_log_level :: "int \<Rightarrow> log_level" where
  "access_log_level status = (if status \<ge> 500 then Log_Error else if status \<ge> 400 then Log_Warn else Log_Info)"

section \<open>The hook\<close>

definition dedupe_window :: int where
  "dedupe_window = 300 * 1000000000"

definition min_interval :: int where
  "min_interval = 2 * 1000000000"

definition discord_content_limit :: nat where
  "discord_content_limit = 2000"

record alert_hook =
  ah_url :: string
  ah_last_sent :: "(string \<times> int) list"
  ah_last_post :: "int option"

definition new_alert_hook :: "string \<Rightarrow> alert_hook" where
  "new_alert_hook env = \<lparr> ah_url = trim_space env, ah_last_sent = [], ah_last_post = None \<rparr>"

definition hook_enabled :: "alert_hook \<Rightarrow> bool" where
  "hook_enabled h \<longleftrightarrow> ah_url h \<noteq> []"

text \<open>The map of the source is an association list without duplicate keys.\<close>

definition put_sent :: "string \<Rightarrow> int \<Rightarrow> (string \<times> int) list \<Rightarrow> (string \<times> int) list" where
  "put_sent msg t m = (msg, t) # filter (\<lambda>(k, _). k \<noteq> msg) m"

definition allow :: "int \<Rightarrow> string \<Rightarrow> alert_hook \<Rightarrow> bool \<times> alert_hook" where
  "allow now msg h =
     (if (case map_of (ah_last_sent h) msg of Some before \<Rightarrow> time_sub now before < dedupe_window | None \<Rightarrow> False) then (False, h)
      else if (case ah_last_post h of Some before \<Rightarrow> time_sub now before < min_interval | None \<Rightarrow> False) then (False, h)
      else
        let sent = put_sent msg now (ah_last_sent h);
            kept = (if length sent > 256 then filter (\<lambda>(_, t). \<not> time_sub now t > dedupe_window) sent else sent)
        in (True, h\<lparr> ah_last_sent := kept, ah_last_post := Some now \<rparr>))"

record log_entry =
  le_level :: log_level
  le_message :: string
  le_data :: "(string \<times> string) list"

definition level_name :: "log_level \<Rightarrow> string" where
  "level_name l =
     (case l of Log_Panic \<Rightarrow> ''PANIC'' | Log_Fatal \<Rightarrow> ''FATAL'' | Log_Error \<Rightarrow> ''ERROR'' | Log_Warn \<Rightarrow> ''WARNING''
      | Log_Info \<Rightarrow> ''INFO'' | Log_Debug \<Rightarrow> ''DEBUG'')"

definition nl_char :: char where
  "nl_char = CHR 0x0A"

text \<open>The fields of an entry are a map, here in the order the iteration gives. The cut is by bytes.\<close>

definition entry_text :: "log_entry \<Rightarrow> string" where
  "entry_text e =
     [CHR 0xF0, CHR 0x9F, CHR 0x9A, CHR 0xA8] @ '' **core-api '' @ level_name (le_level e) @ ''**'' @ [nl_char] @
     ''```'' @ [nl_char] @ le_message e @
     (if le_data e = [] then [] else nl_char # concat (map (\<lambda>(k, v). k @ ''='' @ v @ '' '') (le_data e))) @
     [nl_char] @ ''```''"

definition format_entry :: "log_entry \<Rightarrow> string" where
  "format_entry e =
     (let s = entry_text e
      in if length s > discord_content_limit
         then take (discord_content_limit - 1) s @ [CHR 0xE2, CHR 0x80, CHR 0xA6] else s)"

text \<open>The post of an entry, if any.\<close>

definition fire :: "int \<Rightarrow> log_entry \<Rightarrow> alert_hook \<Rightarrow> string option \<times> alert_hook" where
  "fire now e h =
     (if ah_url h = [] then (None, h)
      else case allow now (le_message e) h of
        (False, h1) \<Rightarrow> (None, h1)
      | (True, h1) \<Rightarrow> (Some (format_entry e), h1))"

text \<open>The logger calls the hook for the levels it asks for.\<close>

definition log_event :: "int \<Rightarrow> log_entry \<Rightarrow> alert_hook \<Rightarrow> string option \<times> alert_hook" where
  "log_event now e h = (if hook_enabled h \<and> le_level e \<in> set hook_levels then fire now e h else (None, h))"

text \<open>A run: the entries with their times; the result is the entries that are posted, with theirs.\<close>

fun log_run :: "(int \<times> log_entry) list \<Rightarrow> alert_hook \<Rightarrow> (int \<times> log_entry) list \<times> alert_hook" where
  "log_run [] h = ([], h)"
| "log_run ((now, e) # es) h =
     (case log_event now e h of
        (None, h1) \<Rightarrow> log_run es h1
      | (Some _, h1) \<Rightarrow> (case log_run es h1 of (posts, h2) \<Rightarrow> ((now, e) # posts, h2)))"

section \<open>The invariant\<close>

text \<open>\<open>ps\<close> are the posts so far, the newest first; \<open>T\<close> is the present.\<close>

definition spaced :: "(int \<times> string) list \<Rightarrow> bool" where
  "spaced ps \<longleftrightarrow> sorted_wrt (\<lambda>p q. fst p - fst q \<ge> min_interval \<and> (snd p = snd q \<longrightarrow> fst p - fst q \<ge> dedupe_window)) ps"

definition hook_inv :: "int \<Rightarrow> (int \<times> string) list \<Rightarrow> alert_hook \<Rightarrow> bool" where
  "hook_inv T ps h \<longleftrightarrow>
     spaced ps \<and> (\<forall>p \<in> set ps. fst p \<le> T) \<and> ah_last_post h = (case ps of [] \<Rightarrow> None | p # _ \<Rightarrow> Some (fst p)) \<and>
     distinct (map fst (ah_last_sent h)) \<and> length (ah_last_sent h) \<le> 256 \<and>
     (\<forall>(m, t) \<in> set (ah_last_sent h). (t, m) \<in> set ps) \<and>
     (\<forall>(t, m) \<in> set ps. T - t < dedupe_window \<longrightarrow> (m, t) \<in> set (ah_last_sent h))"

lemma hook_inv_later: "hook_inv T ps h \<Longrightarrow> T \<le> T' \<Longrightarrow> hook_inv T' ps h"
  by (fastforce simp: hook_inv_def)

lemma hook_inv_new: "hook_inv T [] (new_alert_hook env)"
  by (simp add: hook_inv_def new_alert_hook_def spaced_def)

lemma time_sub_more: "0 < d \<Longrightarrow> d < 2 ^ 63 - 1 \<Longrightarrow> time_sub a b > d \<longleftrightarrow> a - b > d"
  by (auto simp: time_sub_def)

lemma windows [simp]: "time_sub a b < dedupe_window \<longleftrightarrow> a - b < dedupe_window"
  "time_sub a b < min_interval \<longleftrightarrow> a - b < min_interval" "time_sub a b > dedupe_window \<longleftrightarrow> a - b > dedupe_window"
  by (simp_all add: time_sub_less time_sub_more dedupe_window_def min_interval_def)

lemma same_slot: "(a::int) div min_interval = b div min_interval \<Longrightarrow> a - b < min_interval"
proof -
  assume eq: "a div min_interval = b div min_interval"
  have pos: "0 < min_interval" by (simp add: min_interval_def)
  have "a < min_interval * (a div min_interval) + min_interval" "min_interval * (b div min_interval) \<le> b"
    using pos_mod_bound [OF pos, of a] pos_mod_sign [OF pos, of b] mult_div_mod_eq [of min_interval a] mult_div_mod_eq [of min_interval b]
    by linarith+
  then show ?thesis unfolding eq by linarith
qed

text \<open>Posts are at least two seconds apart, so few of them fit into the window.\<close>

lemma few_in_window:
  assumes "spaced ps" and "S \<subseteq> set ps" and "\<forall>p \<in> S. now - dedupe_window \<le> fst p \<and> fst p \<le> now"
  shows "card S \<le> 151"
proof -
  let ?slot = "\<lambda>p :: int \<times> string. (now - fst p) div min_interval"
  have apart: "fst q - fst p \<ge> min_interval \<or> fst p - fst q \<ge> min_interval" if "p \<in> set ps" "q \<in> set ps" "p \<noteq> q" for p q
    using assms(1) that by (induction ps) (auto simp: spaced_def)
  have "inj_on ?slot S"
  proof (rule inj_onI, rule ccontr)
    fix p q assume "p \<in> S" "q \<in> S" "?slot p = ?slot q" "p \<noteq> q"
    then have "fst q - fst p \<ge> min_interval \<or> fst p - fst q \<ge> min_interval" using apart assms(2) by blast
    then show False using \<open>?slot p = ?slot q\<close> same_slot [of "now - fst p" "now - fst q"] same_slot [of "now - fst q" "now - fst p"] by auto
  qed
  moreover have "?slot ` S \<subseteq> {0..150}"
  proof
    fix k assume "k \<in> ?slot ` S"
    then obtain p where "p \<in> S" "k = ?slot p" by blast
    then have "0 \<le> now - fst p" "now - fst p \<le> dedupe_window" "k = ?slot p" using assms(3) by auto
    moreover have "dedupe_window div min_interval = 150" "0 < min_interval" by (simp_all add: dedupe_window_def min_interval_def)
    ultimately show "k \<in> {0..150}"
      using zdiv_mono1 [of "now - fst p" dedupe_window min_interval] by (simp add: pos_imp_zdiv_nonneg_iff)
  qed
  ultimately have "card S \<le> card {0..150::int}" by (metis card_image card_mono finite_atLeastAtMost_int)
  then show ?thesis by simp
qed

lemma min_interval_pos: "0 < min_interval"
  by (simp add: min_interval_def)

lemma put_sent_set: "set (put_sent msg t m) = insert (msg, t) {p \<in> set m. fst p \<noteq> msg}"
  by (auto simp: put_sent_def)

lemma put_sent_distinct: "distinct (map fst m) \<Longrightarrow> distinct (map fst (put_sent msg t m))"
  by (auto simp: put_sent_def distinct_map inj_on_def)

text \<open>Why an entry is not posted.\<close>

definition suppressed_by :: "int \<Rightarrow> string \<Rightarrow> int \<times> string \<Rightarrow> bool" where
  "suppressed_by now msg p \<longleftrightarrow> (snd p = msg \<and> now - fst p < dedupe_window) \<or> now - fst p < min_interval"

lemma allow_refused:
  assumes "hook_inv T ps h" and "T \<le> now" and "\<not> fst (allow now msg h)"
  shows "snd (allow now msg h) = h \<and> hook_inv now ps h \<and> (\<exists>p \<in> set ps. suppressed_by now msg p)"
proof (cases "case map_of (ah_last_sent h) msg of Some before \<Rightarrow> time_sub now before < dedupe_window | None \<Rightarrow> False")
  case True
  then obtain t where t: "map_of (ah_last_sent h) msg = Some t" "now - t < dedupe_window" by (auto split: option.splits)
  then have "(t, msg) \<in> set ps" using assms(1) map_of_SomeD [OF t(1)] by (auto simp: hook_inv_def)
  then show ?thesis using True t hook_inv_later [OF assms(1,2)] by (force simp: allow_def suppressed_by_def)
next
  case False
  then have "case ah_last_post h of Some before \<Rightarrow> time_sub now before < min_interval | None \<Rightarrow> False"
    using assms(3) by (auto simp: allow_def Let_def split: if_splits)
  then have "\<exists>p \<in> set ps. now - fst p < min_interval" using assms(1) by (cases ps) (auto simp: hook_inv_def)
  moreover have "snd (allow now msg h) = h" using assms(3) by (auto simp: allow_def Let_def)
  ultimately show ?thesis using hook_inv_later [OF assms(1,2)] by (auto simp: suppressed_by_def)
qed

lemma allow_posted:
  assumes "hook_inv T ps h" and "T \<le> now" and "fst (allow now msg h)"
  shows "hook_inv now ((now, msg) # ps) (snd (allow now msg h))"
proof -
  let ?sent = "put_sent msg now (ah_last_sent h)"
  define kept where "kept = (if length ?sent > 256 then filter (\<lambda>(_, t). \<not> time_sub now t > dedupe_window) ?sent else ?sent)"
  note inv = assms(1) [unfolded hook_inv_def]
  have h1: "snd (allow now msg h) = h\<lparr> ah_last_sent := kept, ah_last_post := Some now \<rparr>"
    and no_dup: "\<not> (case map_of (ah_last_sent h) msg of Some before \<Rightarrow> time_sub now before < dedupe_window | None \<Rightarrow> False)"
    and no_burst: "\<not> (case ah_last_post h of Some before \<Rightarrow> time_sub now before < min_interval | None \<Rightarrow> False)"
    using assms(3) by (auto simp: allow_def kept_def Let_def split: if_splits)
  have floor: "now - fst p \<ge> min_interval" if "p \<in> set ps" for p
    using that inv no_burst min_interval_pos by (cases ps) (auto simp: spaced_def)
  have fresh: "now - t \<ge> dedupe_window" if "(t, msg) \<in> set ps" for t
  proof (rule ccontr)
    assume "\<not> now - t \<ge> dedupe_window"
    then have "T - t < dedupe_window" using assms(2) by linarith
    then have "(msg, t) \<in> set (ah_last_sent h)" using that inv by fastforce
    then have "map_of (ah_last_sent h) msg = Some t" using inv by (simp add: map_of_is_SomeI)
    then show False using no_dup \<open>\<not> now - t \<ge> dedupe_window\<close> by simp
  qed
  have sp: "spaced ((now, msg) # ps)" using inv floor fresh by (auto simp: spaced_def)
  have sub: "set kept \<subseteq> set ?sent" by (auto simp: kept_def)
  have members: "\<forall>(m, t) \<in> set kept. (t, m) \<in> set ((now, msg) # ps)"
    using sub inv by (fastforce simp: put_sent_set)
  have dist: "distinct (map fst kept)"
    using put_sent_distinct [of "ah_last_sent h" msg now] inv by (auto simp: kept_def distinct_map intro: inj_on_subset)
  have recent: "\<forall>(t, m) \<in> set ((now, msg) # ps). now - t < dedupe_window \<longrightarrow> (m, t) \<in> set kept"
    using inv fresh assms(2) by (fastforce simp: kept_def put_sent_set)
  have few: "length kept \<le> 256"
  proof (cases "length ?sent > 256")
    case True
    let ?S = "(\<lambda>(m, t). (t, m)) ` set kept"
    have "?S \<subseteq> set ((now, msg) # ps)" using members by auto
    moreover have "\<forall>p \<in> ?S. now - dedupe_window \<le> fst p \<and> fst p \<le> now"
      using True members inv assms(2) by (fastforce simp: kept_def)
    ultimately have "card ?S \<le> 151" by (rule few_in_window [OF sp])
    moreover have "card ?S = card (set kept)" by (rule card_image) (auto simp: inj_on_def)
    moreover have "card (set kept) = length kept" using dist by (simp add: distinct_card distinct_map)
    ultimately show ?thesis by linarith
  qed (simp add: kept_def)
  have "\<forall>p \<in> set ((now, msg) # ps). fst p \<le> now" using inv assms(2) by auto
  then show ?thesis using sp members dist recent few by (simp add: hook_inv_def h1)
qed

section \<open>What is posted\<close>

lemma log_event_cases:
  "log_event now e h =
     (if hook_enabled h \<and> le_level e \<in> set hook_levels
      then (if fst (allow now (le_message e) h) then (Some (format_entry e), snd (allow now (le_message e) h))
            else (None, snd (allow now (le_message e) h)))
      else (None, h))"
  by (auto simp: log_event_def fire_def hook_enabled_def split: prod.split bool.split)

definition pages :: "log_entry \<Rightarrow> bool" where
  "pages e \<longleftrightarrow> le_level e \<in> {Log_Panic, Log_Fatal, Log_Error}"

definition post_of :: "int \<times> log_entry \<Rightarrow> int \<times> string" where
  "post_of te = (fst te, le_message (snd te))"

lemma enabled_allow [simp]: "hook_enabled (snd (allow now msg h)) = hook_enabled h"
  by (simp add: allow_def hook_enabled_def Let_def)

lemma log_run_inv:
  assumes "hook_inv T ps h" and "hook_enabled h" and "sorted (T # map fst es)" and "log_run es h = (posts, h')"
  shows "spaced (rev (map post_of posts) @ ps) \<and> length (ah_last_sent h') \<le> 256 \<and> set posts \<subseteq> set es \<and> (\<forall>te \<in> set posts. pages (snd te)) \<and>
    (\<forall>te \<in> set es. pages (snd te) \<longrightarrow>
       te \<in> set posts \<or> (\<exists>p \<in> set (map post_of posts @ ps). fst p \<le> fst te \<and> suppressed_by (fst te) (le_message (snd te)) p))"
  using assms
proof (induction es arbitrary: T ps h posts)
  case Nil
  then show ?case by (auto simp: hook_inv_def)
next
  case (Cons te es)
  obtain now e where te: "te = (now, e)" by fastforce
  let ?r = "allow now (le_message e) h"
  have T: "T \<le> now" "sorted (now # map fst es)" using Cons.prems(3) te by auto
  have lv: "le_level e \<in> set hook_levels \<longleftrightarrow> pages e" by (simp add: hook_levels_def pages_def)
  consider (quiet) "\<not> pages e" | (refused) "pages e" "\<not> fst ?r" | (posted) "pages e" "fst ?r" by blast
  then show ?case
  proof cases
    case quiet
    then have "log_run es h = (posts, h')" using Cons.prems(2,4) te lv by (simp add: log_event_cases)
    from Cons.IH [OF hook_inv_later [OF Cons.prems(1) T(1)] Cons.prems(2) T(2) this] quiet te show ?thesis by auto
  next
    case refused
    note no = allow_refused [OF Cons.prems(1) T(1) refused(2)]
    then have "log_run es h = (posts, h')" using Cons.prems(2,4) te lv refused by (simp add: log_event_cases)
    moreover have "\<exists>p \<in> set ps. fst p \<le> now \<and> suppressed_by now (le_message e) p"
      using no Cons.prems(1) T(1) by (fastforce simp: hook_inv_def)
    ultimately show ?thesis using Cons.IH [OF conjunct1 [OF conjunct2 [OF no]] Cons.prems(2) T(2)] te by auto
  next
    case posted
    obtain posts' where p: "log_run es (snd ?r) = (posts', h')" "posts = te # posts'"
      using Cons.prems(2,4) te lv posted by (auto simp: log_event_cases split: prod.splits)
    from Cons.IH [OF allow_posted [OF Cons.prems(1) T(1) posted(2)] _ T(2) p(1)] Cons.prems(2)
    show ?thesis using p(2) te posted(1) by (auto simp: post_of_def)
  qed
qed

text \<open>
  C26: alerts are complete and bounded. Whatever is logged over time by an enabled hook, posts are at least two
  seconds apart, posts of one message at least five minutes, only errors are posted, an error that is not posted
  had a post within two seconds before it or one of the same message within five minutes, and the memory of the
  hook never exceeds 256 messages.
\<close>

theorem alerts_are_spaced_and_complete:
  assumes "hook_enabled (new_alert_hook env)" and "sorted (map fst es)" and "log_run es (new_alert_hook env) = (posts, h)"
  shows "spaced (rev (map post_of posts)) \<and> set posts \<subseteq> set es \<and> (\<forall>te \<in> set posts. pages (snd te)) \<and> length (ah_last_sent h) \<le> 256 \<and>
    (\<forall>te \<in> set es. pages (snd te) \<longrightarrow>
       te \<in> set posts \<or> (\<exists>p \<in> set (map post_of posts). fst p \<le> fst te \<and> suppressed_by (fst te) (le_message (snd te)) p))"
proof -
  define T where "T = (case es of [] \<Rightarrow> 0 | te # _ \<Rightarrow> fst te)"
  have "sorted (T # map fst es)" using assms(2) by (cases es) (auto simp: T_def)
  from log_run_inv [OF hook_inv_new assms(1) this assms(3)] show ?thesis by simp
qed

definition demo_entry :: "int \<Rightarrow> int \<Rightarrow> string \<Rightarrow> int \<times> log_entry" where
  "demo_entry t status msg = (t * 1000000000, \<lparr> le_level = access_log_level status, le_message = msg, le_data = [] \<rparr>)"

theorem alerts_are_spaced_and_complete_witness:
  "let es = [demo_entry 0 500 ''a'', demo_entry 1 500 ''b'', demo_entry 3 500 ''a'', demo_entry 4 503 ''b'', demo_entry 5 404 ''c'',
       demo_entry 400 500 ''a'']
   in fst (log_run es (new_alert_hook ''https://hook'')) = [es ! 0, es ! 3, es ! 5] \<and>
      spaced (rev (map post_of [es ! 0, es ! 3, es ! 5]))"
proof -
  let ?es = "[demo_entry 0 500 ''a'', demo_entry 1 500 ''b'', demo_entry 3 500 ''a'', demo_entry 4 503 ''b'', demo_entry 5 404 ''c'',
       demo_entry 400 500 ''a'']"
  have r: "fst (log_run ?es (new_alert_hook ''https://hook'')) = [?es ! 0, ?es ! 3, ?es ! 5]" by code_simp
  obtain h where "log_run ?es (new_alert_hook ''https://hook'') = ([?es ! 0, ?es ! 3, ?es ! 5], h)"
    using r by (metis prod.collapse)
  moreover have "hook_enabled (new_alert_hook ''https://hook'')" by code_simp
  moreover have "sorted (map fst ?es)" by (simp add: demo_entry_def)
  ultimately show ?thesis
    using alerts_are_spaced_and_complete [of "''https://hook''" ?es "[?es ! 0, ?es ! 3, ?es ! 5]" h] r unfolding Let_def by blast
qed

text \<open>An answer below 500 never pages anyone.\<close>

lemma client_errors_never_page: "status < 500 \<Longrightarrow> fst (log_event now (e\<lparr> le_level := access_log_level status \<rparr>) h) = None"
  by (simp add: log_event_def access_log_level_def hook_levels_def)

text \<open>What is posted fits Discord's limit, up to the mark of the cut.\<close>

lemma format_fits: "length (format_entry e) \<le> discord_content_limit + 2"
  by (simp add: format_entry_def discord_content_limit_def Let_def)

section \<open>Sign-ins\<close>

text \<open>The notice of a sign-in goes to the same webhook, without limits.\<close>

definition notify_login :: "string \<Rightarrow> string \<Rightarrow> bool \<Rightarrow> string option" where
  "notify_login url login is_new =
     (if url = [] then None
      else let (emoji, kind) =
             (if is_new then ([CHR 0xF0, CHR 0x9F, CHR 0x8E, CHR 0x89], ''NEW'')
              else ([CHR 0xF0, CHR 0x9F, CHR 0x91, CHR 0x8B], ''returning''))
           in Some (emoji @ '' **'' @ login @ ''** signed in ('' @ kind @ '' user)''))"

end
