(* ===== verification/Service_Run.thy ===== *)
theory Service_Run
  imports Go_Prelude
begin

text \<open>
  The life of a service: its logic and its shutdown handlers, each a group of goroutines under a context
  (\<^verbatim>\<open>internal/libraries/abstractservice\<close>), and the connections it opens at the start and closes at the end
  (\<^verbatim>\<open>internal/libraries/conman/postgres.go\<close>, \<^verbatim>\<open>nivek/service.go\<close>). The scheduler is the order of the
  steps; what a function returns, the signals and the database are events.
\<close>

section \<open>A group of goroutines\<close>

text \<open>The cause of a cancelled context: \<^verbatim>\<open>context.Canceled\<close> or another error.\<close>

datatype 'e cause = Canceled | Because 'e

record 'e group =
  gr_running :: "nat set"
  gr_cause :: "'e cause option"

definition start_group :: "nat \<Rightarrow> 'e group" where
  "start_group n = \<lparr> gr_running = {..<n}, gr_cause = None \<rparr>"

text \<open>Only the first cancellation counts.\<close>

definition cancel_group :: "'e cause \<Rightarrow> 'e group \<Rightarrow> 'e group" where
  "cancel_group c g = (case gr_cause g of None \<Rightarrow> g\<lparr> gr_cause := Some c \<rparr> | Some _ \<Rightarrow> g)"

text \<open>A function ends, with or without an error; all have ended; the context above is cancelled.\<close>

datatype 'e group_event = Fn_Ends nat "'e option" | All_Ended | Parent_Cancels "'e cause"

inductive group_step :: "'e group \<Rightarrow> 'e group_event \<Rightarrow> 'e group \<Rightarrow> bool" where
  fn_ok: "i \<in> gr_running g \<Longrightarrow> group_step g (Fn_Ends i None) (g\<lparr> gr_running := gr_running g - {i} \<rparr>)"
| fn_error: "i \<in> gr_running g \<Longrightarrow>
    group_step g (Fn_Ends i (Some e)) (cancel_group (Because e) (g\<lparr> gr_running := gr_running g - {i} \<rparr>))"
| all_ended: "gr_running g = {} \<Longrightarrow> group_step g All_Ended (cancel_group Canceled g)"
| parent: "group_step g (Parent_Cancels c) (cancel_group c g)"

text \<open>What an event cancels the group with, if the group is not cancelled yet.\<close>

definition cancels :: "'e group_event \<Rightarrow> 'e cause option" where
  "cancels ev =
     (case ev of Fn_Ends i r \<Rightarrow> map_option Because r | All_Ended \<Rightarrow> Some Canceled | Parent_Cancels c \<Rightarrow> Some c)"

inductive_cases group_step_cases: "group_step g ev g'"

text \<open>
  \<^verbatim>\<open>processLogic\<close> returns as soon as the context is done, with its cause unless that is a cancellation: the plain
  one, or an error that wraps it, which \<open>is_canceled\<close> tells (\<^verbatim>\<open>errors.Is(err, context.Canceled)\<close>).
\<close>

definition reported :: "('e \<Rightarrow> bool) \<Rightarrow> 'e cause \<Rightarrow> 'e option" where
  "reported is_canceled c = (case c of Canceled \<Rightarrow> None | Because e \<Rightarrow> if is_canceled e then None else Some e)"

definition group_result :: "('e \<Rightarrow> bool) \<Rightarrow> 'e group \<Rightarrow> 'e option" where
  "group_result is_canceled g = (case gr_cause g of Some c \<Rightarrow> reported is_canceled c | None \<Rightarrow> None)"

section \<open>The service\<close>

text \<open>
  \<open>sr_handlers\<close> counts the registered handlers, \<open>sr_shutdown\<close> is their group once it is started, with the flag
  whether \<^verbatim>\<open>RunContext\<close> itself started it: the error of the handlers goes to the caller that did.
\<close>

record 'e service_run =
  sr_logic :: "'e group"
  sr_logic_result :: "'e option option"
  sr_handlers :: nat
  sr_shutdown :: "(bool \<times> 'e group) option"
  sr_shutdown_result :: "'e option option"
  sr_result :: "'e list option"

definition start_service :: "nat \<Rightarrow> nat \<Rightarrow> 'e service_run" where
  "start_service logic handlers =
     \<lparr> sr_logic = start_group logic, sr_logic_result = None, sr_handlers = handlers, sr_shutdown = None,
       sr_shutdown_result = None, sr_result = None \<rparr>"

definition begin_shutdown :: "bool \<Rightarrow> 'e service_run \<Rightarrow> 'e service_run" where
  "begin_shutdown by_run s =
     s\<lparr> sr_logic := cancel_group Canceled (sr_logic s), sr_shutdown := Some (by_run, start_group (sr_handlers s)) \<rparr>"

text \<open>The join of the two errors, those that are there.\<close>

definition join_errors :: "'e option \<Rightarrow> 'e option \<Rightarrow> 'e list" where
  "join_errors a b = (case a of None \<Rightarrow> [] | Some e \<Rightarrow> [e]) @ (case b of None \<Rightarrow> [] | Some e \<Rightarrow> [e])"

text \<open>\<open>is_deadline\<close> tells the errors with which the deadline of the shutdown cancels its context.\<close>

inductive service_step :: "('e \<Rightarrow> bool) \<Rightarrow> ('e \<Rightarrow> bool) \<Rightarrow> 'e service_run \<Rightarrow> 'e service_run \<Rightarrow> bool" for is_canceled is_deadline where
  register: "sr_shutdown s = None \<Longrightarrow> service_step is_canceled is_deadline s (s\<lparr> sr_handlers := Suc (sr_handlers s) \<rparr>)"
| logic: "group_step (sr_logic s) ev g \<Longrightarrow> service_step is_canceled is_deadline s (s\<lparr> sr_logic := g \<rparr>)"
| logic_returns: "gr_cause (sr_logic s) \<noteq> None \<Longrightarrow> sr_logic_result s = None \<Longrightarrow>
    service_step is_canceled is_deadline s (s\<lparr> sr_logic_result := Some (group_result is_canceled (sr_logic s)) \<rparr>)"
| run_shuts_down: "sr_logic_result s \<noteq> None \<Longrightarrow> sr_shutdown s = None \<Longrightarrow> service_step is_canceled is_deadline s (begin_shutdown True s)"
| other_shuts_down: "sr_shutdown s = None \<Longrightarrow> service_step is_canceled is_deadline s (begin_shutdown False s)"
| handler: "sr_shutdown s = Some (by_run, g) \<Longrightarrow> group_step g (Fn_Ends i r) g' \<Longrightarrow>
    service_step is_canceled is_deadline s (s\<lparr> sr_shutdown := Some (by_run, g') \<rparr>)"
| handlers_ended: "sr_shutdown s = Some (by_run, g) \<Longrightarrow> group_step g All_Ended g' \<Longrightarrow>
    service_step is_canceled is_deadline s (s\<lparr> sr_shutdown := Some (by_run, g') \<rparr>)"
| deadline: "sr_shutdown s = Some (by_run, g) \<Longrightarrow> is_deadline e \<Longrightarrow>
    service_step is_canceled is_deadline s (s\<lparr> sr_shutdown := Some (by_run, cancel_group (Because e) g) \<rparr>)"
| shutdown_returns: "sr_shutdown s = Some (by_run, g) \<Longrightarrow> gr_cause g \<noteq> None \<Longrightarrow> sr_shutdown_result s = None \<Longrightarrow>
    service_step is_canceled is_deadline s (s\<lparr> sr_shutdown_result := Some (group_result is_canceled g) \<rparr>)"
| run_returns: "sr_logic_result s = Some a \<Longrightarrow> sr_shutdown s = Some (by_run, g) \<Longrightarrow> sr_shutdown_result s = Some b \<Longrightarrow>
    sr_result s = None \<Longrightarrow>
    service_step is_canceled is_deadline s (s\<lparr> sr_result := Some (join_errors a (if by_run then b else None)) \<rparr>)"

inductive_cases service_step_cases: "service_step is_canceled is_deadline s s'"

inductive_simps no_group_left: "group_step \<lparr> gr_running = {}, gr_cause = c \<rparr> All_Ended g"

definition service_reach :: "('e \<Rightarrow> bool) \<Rightarrow> ('e \<Rightarrow> bool) \<Rightarrow> 'e service_run \<Rightarrow> 'e service_run \<Rightarrow> bool" where
  "service_reach is_canceled is_deadline = (service_step is_canceled is_deadline)\<^sup>*\<^sup>*"

section \<open>Invariants\<close>

lemma cancel_group_cause [simp]: "gr_cause (cancel_group c g) \<noteq> None"
  by (simp add: cancel_group_def split: option.splits)

lemma cancel_group_done: "gr_cause g \<noteq> None \<Longrightarrow> cancel_group c g = g"
  by (auto simp: cancel_group_def)

lemma cancel_group_running [simp]: "gr_running (cancel_group c g) = gr_running g"
  by (simp add: cancel_group_def split: option.splits)

text \<open>A cause, once there, stays: the result of a group is decided by its first cancellation.\<close>

lemma group_step_cause: "group_step g ev g' \<Longrightarrow> gr_cause g = Some c \<Longrightarrow> gr_cause g' = Some c"
  by (auto elim!: group_step_cases simp: cancel_group_def)

lemma group_step_result: "group_step g ev g' \<Longrightarrow> gr_cause g \<noteq> None \<Longrightarrow> group_result is_canceled g' = group_result is_canceled g"
  using group_step_cause by (fastforce simp: group_result_def)

lemma first_cancels: "group_step g ev g' \<Longrightarrow> gr_cause g = None \<Longrightarrow> cancels ev = Some c \<Longrightarrow> gr_cause g' = Some c"
  by (auto elim!: group_step_cases simp: cancels_def cancel_group_def)

definition service_inv :: "('e \<Rightarrow> bool) \<Rightarrow> 'e service_run \<Rightarrow> bool" where
  "service_inv is_canceled s \<longleftrightarrow>
     (\<forall>a. sr_logic_result s = Some a \<longrightarrow> gr_cause (sr_logic s) \<noteq> None \<and> a = group_result is_canceled (sr_logic s)) \<and>
     (\<forall>by_run g. sr_shutdown s = Some (by_run, g) \<longrightarrow> gr_cause (sr_logic s) \<noteq> None \<and> (by_run \<longrightarrow> sr_logic_result s \<noteq> None)) \<and>
     (\<forall>b. sr_shutdown_result s = Some b \<longrightarrow>
        (\<exists>by_run g. sr_shutdown s = Some (by_run, g) \<and> gr_cause g \<noteq> None \<and> b = group_result is_canceled g)) \<and>
     (\<forall>es. sr_result s = Some es \<longrightarrow>
        (\<exists>a by_run g b. sr_logic_result s = Some a \<and> sr_shutdown s = Some (by_run, g) \<and> sr_shutdown_result s = Some b \<and>
           es = join_errors a (if by_run then b else None)))"

lemma logic_step_inv: "group_step (sr_logic s) ev g \<Longrightarrow> service_inv is_canceled s \<Longrightarrow> service_inv is_canceled (s\<lparr> sr_logic := g \<rparr>)"
  using group_step_cause [of "sr_logic s" ev g] group_step_result [of "sr_logic s" ev g is_canceled]
  by (fastforce simp: service_inv_def)

lemma handler_step_inv: "group_step g ev g' \<Longrightarrow> sr_shutdown s = Some (by_run, g) \<Longrightarrow> service_inv is_canceled s \<Longrightarrow>
    service_inv is_canceled (s\<lparr> sr_shutdown := Some (by_run, g') \<rparr>)"
  using group_step_cause [of g ev g'] group_step_result [of g ev g' is_canceled] by (fastforce simp: service_inv_def)

lemma begin_shutdown_inv: "sr_shutdown s = None \<Longrightarrow> by_run \<longrightarrow> sr_logic_result s \<noteq> None \<Longrightarrow> service_inv is_canceled s \<Longrightarrow>
    service_inv is_canceled (begin_shutdown by_run s)"
  by (auto simp: service_inv_def begin_shutdown_def group_result_def cancel_group_def split: option.splits)

lemma service_step_inv:
  assumes "service_step is_canceled is_deadline s s'" and "service_inv is_canceled s"
  shows "service_inv is_canceled s'"
  using assms
proof (induction rule: service_step.induct)
  case (deadline s by_run g e)
  then show ?case using handler_step_inv [OF group_step.parent] by blast
qed (simp_all add: logic_step_inv handler_step_inv begin_shutdown_inv, auto simp: service_inv_def)

text \<open>The first cancellation of the logic, and of the handlers, stays for the rest of the run.\<close>

lemma reach_logic_cause: "service_reach is_canceled is_deadline s s' \<Longrightarrow> gr_cause (sr_logic s) = Some c \<Longrightarrow> gr_cause (sr_logic s') = Some c"
  unfolding service_reach_def
proof (induction rule: rtranclp_induct)
  case (step y z)
  then show ?case by (auto elim!: service_step_cases simp: begin_shutdown_def cancel_group_def intro: group_step_cause)
qed

lemma reach_handlers_cause: "service_reach is_canceled is_deadline s s' \<Longrightarrow> sr_shutdown s = Some (by_run, h) \<Longrightarrow>
    \<exists>h'. sr_shutdown s' = Some (by_run, h') \<and> (\<forall>c. gr_cause h = Some c \<longrightarrow> gr_cause h' = Some c)"
  unfolding service_reach_def
proof (induction rule: rtranclp_induct)
  case (step y z)
  then show ?case by (auto elim!: service_step_cases simp: cancel_group_def) (blast dest: group_step_cause)+
qed simp

lemma service_reach_inv: "service_reach is_canceled is_deadline s s' \<Longrightarrow> service_inv is_canceled s \<Longrightarrow> service_inv is_canceled s'"
  unfolding service_reach_def by (induction rule: rtranclp_induct) (auto intro: service_step_inv)

lemma start_service_inv: "service_inv is_canceled (start_service n k)"
  by (simp add: service_inv_def start_service_def)

section \<open>The run ends\<close>

lemma reach_step: "service_step is_canceled is_deadline s s' \<Longrightarrow> service_reach is_canceled is_deadline s' s'' \<Longrightarrow> service_reach is_canceled is_deadline s s''"
  unfolding service_reach_def by (rule converse_rtranclp_into_rtranclp)

lemma reach_refl: "service_reach is_canceled is_deadline s s"
  by (simp add: service_reach_def)

text \<open>How far the run has come, counted from its end; a step that needs no function to end makes progress.\<close>

definition to_go :: "'e service_run \<Rightarrow> nat" where
  "to_go s =
     (if sr_result s \<noteq> None then 0
      else 1 + (if sr_logic_result s = None then 1 else 0) +
        (if sr_shutdown_result s \<noteq> None then 0
         else 1 + (case sr_shutdown s of None \<Rightarrow> 2 | Some (_, g) \<Rightarrow> if gr_cause g = None then 1 else 0)))"

lemma progress:
  assumes "service_inv is_canceled s" and "gr_cause (sr_logic s) \<noteq> None" and "sr_result s = None" and "is_deadline e"
  shows "\<exists>s'. service_step is_canceled is_deadline s s' \<and> to_go s' < to_go s \<and> gr_cause (sr_logic s') \<noteq> None \<and>
    gr_running (sr_logic s') = gr_running (sr_logic s)"
proof -
  consider (logic) "sr_logic_result s = None" | (starts) "sr_logic_result s \<noteq> None" "sr_shutdown s = None"
    | (wait) by_run g where "sr_logic_result s \<noteq> None" "sr_shutdown s = Some (by_run, g)" "gr_cause g = None"
    | (decided) by_run g where "sr_logic_result s \<noteq> None" "sr_shutdown s = Some (by_run, g)" "gr_cause g \<noteq> None" "sr_shutdown_result s = None"
    | (all) a by_run g b where "sr_logic_result s = Some a" "sr_shutdown s = Some (by_run, g)" "sr_shutdown_result s = Some b"
    by (cases "sr_logic_result s"; cases "sr_shutdown s"; cases "sr_shutdown_result s"; cases "gr_cause (snd (the (sr_shutdown s)))")
      auto
  then show ?thesis
  proof cases
    case logic
    have "service_step is_canceled is_deadline s (s\<lparr> sr_logic_result := Some (group_result is_canceled (sr_logic s)) \<rparr>)"
      by (rule service_step.logic_returns [OF assms(2) logic])
    then show ?thesis using assms(2,3) logic by (intro exI [of _ "s\<lparr> sr_logic_result := Some (group_result is_canceled (sr_logic s)) \<rparr>"]) (auto simp: to_go_def)
  next
    case starts
    have "service_step is_canceled is_deadline s (begin_shutdown True s)" by (rule service_step.run_shuts_down [OF starts])
    moreover have "sr_shutdown_result s = None" using assms(1) starts by (auto simp: service_inv_def)
    ultimately show ?thesis using assms(3) starts
      by (intro exI [of _ "begin_shutdown True s"]) (auto simp: to_go_def begin_shutdown_def start_group_def)
  next
    case wait
    have "service_step is_canceled is_deadline s (s\<lparr> sr_shutdown := Some (by_run, cancel_group (Because e) g) \<rparr>)"
      by (rule service_step.deadline [where is_canceled = is_canceled and is_deadline = is_deadline and e = e and s = s and by_run = by_run and g = g, OF wait(2) assms(4)])
    moreover have "sr_shutdown_result s = None" using assms(1) wait by (auto simp: service_inv_def)
    ultimately show ?thesis using assms(2,3) wait by (intro exI [of _ "s\<lparr> sr_shutdown := Some (by_run, cancel_group (Because e) g) \<rparr>"]) (auto simp: to_go_def)
  next
    case decided
    have "service_step is_canceled is_deadline s (s\<lparr> sr_shutdown_result := Some (group_result is_canceled g) \<rparr>)"
      by (rule service_step.shutdown_returns [OF decided(2-4)])
    then show ?thesis using assms(2,3) decided by (intro exI [of _ "s\<lparr> sr_shutdown_result := Some (group_result is_canceled g) \<rparr>"]) (auto simp: to_go_def)
  next
    case all
    have "service_step is_canceled is_deadline s (s\<lparr> sr_result := Some (join_errors a (if by_run then b else None)) \<rparr>)"
      by (rule service_step.run_returns [OF all assms(3)])
    then show ?thesis using assms(2,3) all by (intro exI [of _ "s\<lparr> sr_result := Some (join_errors a (if by_run then b else None)) \<rparr>"]) (auto simp: to_go_def)
  qed
qed

lemma run_can_end:
  assumes "service_inv is_canceled s" and "gr_cause (sr_logic s) \<noteq> None" and "is_deadline e"
  shows "\<exists>s'. service_reach is_canceled is_deadline s s' \<and> sr_result s' \<noteq> None \<and> gr_running (sr_logic s') = gr_running (sr_logic s)"
  using assms(1,2)
proof (induction "to_go s" arbitrary: s rule: less_induct)
  case less
  show ?case
  proof (cases "sr_result s = None")
    case True
    from progress [where is_canceled = is_canceled and is_deadline = is_deadline and e = e, OF less.prems True assms(3)] obtain s1 where s1:
      "service_step is_canceled is_deadline s s1" "to_go s1 < to_go s" "gr_cause (sr_logic s1) \<noteq> None"
      "gr_running (sr_logic s1) = gr_running (sr_logic s)" by blast
    from less.hyps [OF s1(2) service_step_inv [OF s1(1) less.prems(1)] s1(3)] s1(1,4) show ?thesis
      by (auto intro: reach_step)
  qed (use reach_refl in blast)
qed

lemma ended_result:
  assumes "service_inv is_canceled s" and "sr_result s = Some es"
  shows "\<exists>by_run g. sr_shutdown s = Some (by_run, g) \<and> gr_cause g \<noteq> None \<and>
    es = join_errors (group_result is_canceled (sr_logic s)) (if by_run then group_result is_canceled g else None)"
  using assms by (fastforce simp: service_inv_def)

text \<open>What cancels the logic first decides what the run reports of it.\<close>

lemma logic_reports:
  assumes "service_inv is_canceled s" and "gr_cause (sr_logic s) = Some c" and "service_reach is_canceled is_deadline s s'"
    and "sr_result s' = Some es"
  shows "\<exists>by_run h. sr_shutdown s' = Some (by_run, h) \<and>
    es = join_errors (reported is_canceled c) (if by_run then group_result is_canceled h else None)"
proof -
  have "group_result is_canceled (sr_logic s') = reported is_canceled c"
    using reach_logic_cause [OF assms(3,2)] by (simp add: group_result_def)
  then show ?thesis using ended_result [OF service_reach_inv [OF assms(3,1)] assms(4)] by metis
qed

lemma handlers_report:
  assumes "service_inv is_canceled s" and "sr_shutdown s = Some (by_run, h)" and "gr_cause h = Some c"
    and "service_reach is_canceled is_deadline s s'" and "sr_result s' = Some es"
  shows "es = join_errors (group_result is_canceled (sr_logic s')) (if by_run then reported is_canceled c else None)"
proof -
  obtain h' where h': "sr_shutdown s' = Some (by_run, h')" "gr_cause h' = Some c"
    using reach_handlers_cause [OF assms(4,2)] assms(3) by blast
  have "group_result is_canceled h' = reported is_canceled c" using h'(2) by (simp add: group_result_def)
  then show ?thesis using ended_result [OF service_reach_inv [OF assms(4,1)] assms(5)] h'(1) by auto
qed

lemma shutdown_reports_nothing:
  assumes "service_inv is_canceled s" and "gr_cause (sr_logic s) = None" and "sr_shutdown s = None"
    and "service_reach is_canceled is_deadline (begin_shutdown False s) s'" and "sr_result s' = Some es"
  shows "es = []"
proof -
  have c: "gr_cause (sr_logic (begin_shutdown False s)) = Some Canceled"
    using assms(2) by (simp add: begin_shutdown_def cancel_group_def)
  have "sr_shutdown (begin_shutdown False s) = Some (False, start_group (sr_handlers s))" by (simp add: begin_shutdown_def)
  from reach_handlers_cause [OF assms(4) this] obtain h where h: "sr_shutdown s' = Some (False, h)" by blast
  have "service_inv is_canceled (begin_shutdown False s)" using begin_shutdown_inv [OF assms(3) _ assms(1)] by simp
  from logic_reports [OF this c assms(4,5)] h show ?thesis by (auto simp: join_errors_def reported_def)
qed



text \<open>A request to shut down does not wait for the logic: the run can end while every function still runs.\<close>

lemma request_does_not_wait:
  fixes is_deadline :: "'e \<Rightarrow> bool"
  assumes "is_deadline e"
  shows "\<exists>s. service_reach is_canceled is_deadline (start_service n k) s \<and> sr_result s \<noteq> None \<and> gr_running (sr_logic s) = {..<n}"
proof -
  let ?s = "start_service n k :: 'e service_run"
  let ?s1 = "?s\<lparr> sr_logic := cancel_group Canceled (sr_logic ?s) \<rparr>"
  have st: "service_step is_canceled is_deadline ?s ?s1" by (rule service_step.logic [OF group_step.parent])
  have "gr_cause (sr_logic ?s1) \<noteq> None" by simp
  from run_can_end [where is_canceled = is_canceled and is_deadline = is_deadline and e = e, OF service_step_inv [OF st start_service_inv] this assms]
  obtain s' where "service_reach is_canceled is_deadline ?s1 s'" "sr_result s' \<noteq> None" "gr_running (sr_logic s') = gr_running (sr_logic ?s1)"
    by blast
  moreover have "gr_running (sr_logic ?s1) = {..<n}" by (simp add: start_service_def start_group_def)
  ultimately show ?thesis using reach_step [OF st] by metis
qed

section \<open>The connections\<close>

record 'c connection =
  co_session :: 'c
  co_max_open :: "int option"
  co_max_idle :: "int option"
  co_max_retries :: "int option"

record connection_options =
  po_max_connections :: int
  po_max_idle :: int
  po_max_retries :: int

type_synonym 'c connections = "string \<Rightarrow> 'c connection option"

text \<open>Three attempts, \<open>attempt i\<close> the outcome of the \<open>i\<close>-th; the last error is the one reported.\<close>

fun try_open :: "nat \<Rightarrow> nat \<Rightarrow> (nat \<Rightarrow> 'e + 'c) \<Rightarrow> 'e + 'c" where
  "try_open i 0 attempt = attempt i"
| "try_open i (Suc n) attempt = (case attempt i of Inr c \<Rightarrow> Inr c | Inl _ \<Rightarrow> try_open (Suc i) n attempt)"

definition new_direct_connection :: "(nat \<Rightarrow> 'e + 'c) \<Rightarrow> 'e + 'c" where
  "new_direct_connection attempt = try_open 0 2 attempt"

definition positive :: "int \<Rightarrow> int option" where
  "positive n = (if n > 0 then Some n else None)"

definition new_connection ::
  "string \<Rightarrow> connection_options \<Rightarrow> (nat \<Rightarrow> 'e + 'c) \<Rightarrow> 'c connections \<Rightarrow> ('e + 'c) \<times> 'c connections" where
  "new_connection name opts attempt m =
     (case new_direct_connection attempt of
        Inl e \<Rightarrow> (Inl e, m)
      | Inr c \<Rightarrow>
          (Inr c, m(name \<mapsto> \<lparr> co_session = c, co_max_open = positive (po_max_connections opts),
             co_max_idle = positive (po_max_idle opts), co_max_retries = positive (po_max_retries opts) \<rparr>)))"

text \<open>\<open>None\<close> ends the process.\<close>

definition get_connection :: "string \<Rightarrow> 'c connections \<Rightarrow> 'c option" where
  "get_connection name m = map_option co_session (m name)"

text \<open>\<open>close c\<close> is the error with which closing \<open>c\<close> fails, if it does.\<close>

definition close_connection :: "('c \<Rightarrow> 'e option) \<Rightarrow> string \<Rightarrow> 'c connections \<Rightarrow> 'e option \<times> 'c connections" where
  "close_connection close name m =
     (case m name of
        None \<Rightarrow> (None, m)
      | Some c \<Rightarrow> (case close (co_session c) of None \<Rightarrow> (None, m(name := None)) | Some e \<Rightarrow> (Some e, m)))"

text \<open>Over the names in the order the map gives; the first error ends it. The sessions closed are listed.\<close>

fun close_each :: "('c \<Rightarrow> 'e option) \<Rightarrow> string list \<Rightarrow> 'c connections \<Rightarrow> 'c list \<Rightarrow> 'e option \<times> 'c list" where
  "close_each close [] m closed = (None, closed)"
| "close_each close (name # names) m closed =
     (case m name of
        None \<Rightarrow> close_each close names m closed
      | Some c \<Rightarrow>
          (case close (co_session c) of
             None \<Rightarrow> close_each close names m (closed @ [co_session c])
           | Some e \<Rightarrow> (Some e, closed)))"

definition close_all :: "('c \<Rightarrow> 'e option) \<Rightarrow> string list \<Rightarrow> 'c connections \<Rightarrow> 'e option \<times> 'c list \<times> 'c connections" where
  "close_all close names m =
     (case close_each close names m [] of
        (None, closed) \<Rightarrow> (None, closed, \<lambda>_. None)
      | (Some e, closed) \<Rightarrow> (Some e, closed, m))"

text \<open>The connections of a service, opened one after the other before its run; the first failure ends it.\<close>

fun startup_connections ::
  "(string \<times> connection_options option) list \<Rightarrow> (string \<Rightarrow> nat \<Rightarrow> 'e + 'c) \<Rightarrow> 'c connections \<Rightarrow> 'e option \<times> 'c connections" where
  "startup_connections [] attempt m = (None, m)"
| "startup_connections ((name, None) # rest) attempt m = startup_connections rest attempt m"
| "startup_connections ((name, Some opts) # rest) attempt m =
     (case new_connection name opts (attempt name) m of
        (Inl e, m1) \<Rightarrow> (Some e, m1)
      | (Inr _, m1) \<Rightarrow> startup_connections rest attempt m1)"

text \<open>Opening succeeds when one of three attempts does, and then with the first that does.\<close>

lemma open_first_success:
  "new_direct_connection attempt = Inr c \<longleftrightarrow>
     (\<exists>i \<le> 2. attempt i = Inr c \<and> (\<forall>j < i. \<exists>e. attempt j = Inl e))"
proof -
  have two: "i \<le> 2 \<longleftrightarrow> i = 0 \<or> i = 1 \<or> i = (2::nat)" for i by auto
  have three: "(\<exists>i \<le> 2. P i) \<longleftrightarrow> P 0 \<or> P 1 \<or> P (2::nat)" for P unfolding two by blast
  have upto: "(\<forall>j < 2. Q j) \<longleftrightarrow> Q 0 \<and> Q (1::nat)" "(\<forall>j < 1. Q j) \<longleftrightarrow> Q (0::nat)" for Q
    by (auto simp: less_2_cases_iff)
  have run: "new_direct_connection attempt =
      (case attempt 0 of Inr c \<Rightarrow> Inr c | Inl _ \<Rightarrow> (case attempt 1 of Inr c \<Rightarrow> Inr c | Inl _ \<Rightarrow> attempt 2))"
    by (simp add: new_direct_connection_def numeral_2_eq_2 split: sum.splits)
  show ?thesis unfolding run three upto
    by (cases "attempt 0"; cases "attempt 1"; cases "attempt 2") simp_all
qed

lemma startup_opens:
  "startup_connections os attempt m = (None, m') \<Longrightarrow> (name, Some opts) \<in> set os \<Longrightarrow> get_connection name m' \<noteq> None"
proof (induction os attempt m rule: startup_connections.induct)
  case (3 nm o2 rest attempt m)
  obtain c m1 where c: "new_connection nm o2 (attempt nm) m = (Inr c, m1)" "startup_connections rest attempt m1 = (None, m')"
    using "3.prems"(1) by (auto split: prod.splits sum.splits)
  have keep: "startup_connections r attempt x = (None, m') \<Longrightarrow> x name \<noteq> None \<Longrightarrow> m' name \<noteq> None" for r x
    by (induction r attempt x rule: startup_connections.induct)
      (auto simp: new_connection_def split: prod.splits sum.splits if_splits)
  have "m1 nm \<noteq> None" using c(1) by (auto simp: new_connection_def split: sum.splits)
  then show ?case using "3.IH" [OF c(1) [symmetric] refl c(2)] c(2) keep "3.prems"(2) by (auto simp: get_connection_def)
qed (auto split: prod.splits)

lemma close_each_ok: "\<forall>c. close c = None \<Longrightarrow> distinct names \<Longrightarrow>
    close_each close names m closed = (None, closed @ map co_session (List.map_filter m names))"
  by (induction names arbitrary: closed) (auto simp: map_filter_simps split: option.splits)

text \<open>After an orderly close nothing is left and each session was closed once.\<close>

lemma close_all_ok:
  "\<forall>c. close c = None \<Longrightarrow> distinct names \<Longrightarrow> close_all close names m = (None, map co_session (List.map_filter m names), \<lambda>_. None)"
  by (simp add: close_all_def close_each_ok)

text \<open>A close that fails leaves the sessions after it open, and those before it in the map although they are closed.\<close>

lemma close_failure_keeps_all:
  assumes "m a = Some c" and "m b = Some d" and "close (co_session c) = None" and "close (co_session d) = Some e"
  shows "close_all close (a # b # names) m = (Some e, [co_session c], m)"
  using assms by (simp add: close_all_def)

section \<open>The default connection\<close>

text \<open>What \<^verbatim>\<open>Run\<close> of \<^verbatim>\<open>nivek/service.go\<close> opens when the program names no default connection of its own.\<close>

record postgres_config =
  pg_host :: string
  pg_port :: int
  pg_user :: string
  pg_password :: string
  pg_database :: string
  pg_ssl :: "(string \<times> string) list"
  pg_max_connections :: int
  pg_max_idle :: int
  pg_max_retries :: int

record connection_url =
  cu_user :: string
  cu_password :: string
  cu_database :: string
  cu_host :: string
  cu_options :: "(string \<times> string) list"

definition default_options :: "string \<Rightarrow> postgres_config \<Rightarrow> connection_url \<times> connection_options" where
  "default_options app cfg =
     (\<lparr> cu_user = pg_user cfg, cu_password = pg_password cfg, cu_database = pg_database cfg,
        cu_host = (if contains_str (pg_host cfg) '':'' then pg_host cfg else pg_host cfg @ '':'' @ itoa (pg_port cfg)),
        cu_options = pg_ssl cfg @ (if app \<noteq> [] then [(''application_name'', app)] else []) \<rparr>,
      \<lparr> po_max_connections = pg_max_connections cfg, po_max_idle = (if pg_max_idle cfg > 0 then pg_max_idle cfg else 0),
        po_max_retries = pg_max_retries cfg \<rparr>)"

definition with_default ::
  "bool \<Rightarrow> string \<Rightarrow> postgres_config \<Rightarrow> (string \<Rightarrow> (connection_url \<times> connection_options) option) \<Rightarrow>
     string \<Rightarrow> (connection_url \<times> connection_options) option" where
  "with_default required app cfg m =
     (if \<not> required \<and> pg_database cfg \<noteq> [] \<and> m ''default'' = None then m(''default'' \<mapsto> default_options app cfg) else m)"

text \<open>A connection the program configured itself is never replaced.\<close>

lemma with_default_keeps: "m name = Some o' \<Longrightarrow> with_default required app cfg m name = Some o'"
  by (auto simp: with_default_def)

end
