(* ===== verification/Account_Pages.thy ===== *)
theory Account_Pages
  imports Stalk_Properties Users Promo
begin

text \<open>
  Pages of a signed-in account: the channel's watch (\<^verbatim>\<open>endpoints/stalk\<close>), its tasks (\<^verbatim>\<open>endpoints/task\<close>
  and \<^verbatim>\<open>libraries/task\<close>) and the address a weather report is made for (\<^verbatim>\<open>endpoints/weather\<close>). The
  account is what the session middleware left in the request, \<open>None\<close> when it left none.
\<close>

section \<open>The watch of a channel\<close>

definition stalk_channel_login :: "user \<Rightarrow> string option" where
  "stalk_channel_login u =
     (case us_login u of
        None \<Rightarrow> None
      | Some login \<Rightarrow> if trim_space login = [] then None else Some (to_lower login))"

definition set_by_login :: "user \<Rightarrow> string" where
  "set_by_login u = (case us_login u of None \<Rightarrow> [] | Some login \<Rightarrow> norm_name login)"

record stalk_page =
  sg_found :: bool
  sg_target :: string
  sg_last_message :: string
  sg_set_by :: string

definition get_stalk_page :: "faults \<Rightarrow> user option \<Rightarrow> stalk_row table \<Rightarrow> stalk_page page" where
  "get_stalk_page fl acc t =
     (case acc of
        None \<Rightarrow> Page_Unauthorized
      | Some u \<Rightarrow>
          (case stalk_channel_login u of
             None \<Rightarrow> Page_Bad_Request
           | Some channel \<Rightarrow>
               (case stalk_get fl channel t of
                  Inl _ \<Rightarrow> Page_Server_Error
                | Inr None \<Rightarrow> Page_Ok \<lparr> sg_found = False, sg_target = [], sg_last_message = [], sg_set_by = [] \<rparr>
                | Inr (Some r) \<Rightarrow>
                    Page_Ok \<lparr> sg_found = True, sg_target = st_target r, sg_last_message = st_last r, sg_set_by = st_set_by r \<rparr>)))"

text \<open>\<open>payload\<close> is \<open>None\<close> when the body does not bind.\<close>

definition set_stalk_page :: "faults \<Rightarrow> user option \<Rightarrow> string option \<Rightarrow> stalk_row table \<Rightarrow> string page \<times> stalk_row table" where
  "set_stalk_page fl acc payload t =
     (case acc of
        None \<Rightarrow> (Page_Unauthorized, t)
      | Some u \<Rightarrow>
          (case stalk_channel_login u of
             None \<Rightarrow> (Page_Bad_Request, t)
           | Some channel \<Rightarrow>
               (case payload of
                  None \<Rightarrow> (Page_Bad_Request, t)
                | Some raw \<Rightarrow>
                    (case normalize_target raw of
                       None \<Rightarrow> (Page_Bad_Request, t)
                     | Some target \<Rightarrow>
                         (case stalk_set fl channel target (set_by_login u) t of
                            (Some _, t') \<Rightarrow> (Page_Server_Error, t')
                          | (None, t') \<Rightarrow> (Page_Ok target, t'))))))"

definition clear_stalk_page :: "faults \<Rightarrow> user option \<Rightarrow> stalk_row table \<Rightarrow> bool page \<times> stalk_row table" where
  "clear_stalk_page fl acc t =
     (case acc of
        None \<Rightarrow> (Page_Unauthorized, t)
      | Some u \<Rightarrow>
          (case stalk_channel_login u of
             None \<Rightarrow> (Page_Bad_Request, t)
           | Some channel \<Rightarrow>
               (case stalk_clear fl channel t of
                  (Inl _, t') \<Rightarrow> (Page_Server_Error, t')
                | (Inr found, t') \<Rightarrow> (Page_Ok found, t'))))"

text \<open>What the bot is told about a channel when it asks.\<close>

definition bot_sees :: "stalk_row table \<Rightarrow> string \<Rightarrow> (string \<times> string) option" where
  "bot_sees t channel =
     (case fst (get_stalk_endpoint no_faults channel t) of
        Http_Ok (target, said, found) \<Rightarrow> if found then Some (target, said) else None
      | _ \<Rightarrow> None)"

lemma bot_sees_view: "norm_name channel \<noteq> [] \<Longrightarrow> bot_sees t channel = stalk_view t (norm_name channel)"
  by (auto simp: bot_sees_def get_stalk_endpoint_def stalk_get_def no_faults_def stalk_view_def norm_name_def trim_space_def
      trim_left_def Let_def split: option.splits if_splits)

lemma lower_norm [simp]: "norm_name (to_lower login) = norm_name login"
  by (simp add: norm_name_def trim_space_lower)

lemma page_channel:
  "us_login u = Some login \<Longrightarrow> norm_name login \<noteq> [] \<Longrightarrow> stalk_channel_login u = Some (to_lower login)"
  by (auto simp: stalk_channel_login_def norm_name_def)

text \<open>
  C40: the dashboard and the chat share one watch per channel. Whatever fails in the database, setting and clearing on the page
  changes what the bot is told about the account's own channel only; a successful setting makes the bot see the
  normalised target, keeping the recorded line just when the target is the same; a successful clearing leaves nothing.
\<close>

theorem stalk_page_is_the_chat_watch:
  assumes "wf_stalk t" and "us_login u = Some login" and "norm_name login \<noteq> []"
    and "set_stalk_page fl (Some u) payload t = (r1, t1)" and "clear_stalk_page fl (Some u) t = (r2, t2)"
  shows "(\<forall>ch. norm_name ch \<noteq> [] \<and> norm_name ch \<noteq> norm_name login \<longrightarrow>
       bot_sees t1 ch = bot_sees t ch \<and> bot_sees t2 ch = bot_sees t ch) \<and>
    (\<forall>target. r1 = Page_Ok target \<longrightarrow> payload \<noteq> None \<and> normalize_target (the payload) = Some target \<and>
       bot_sees t1 login = Some (retarget (norm_name target) (bot_sees t login))) \<and>
    ((\<nexists>x. r1 = Page_Ok x) \<longrightarrow> bot_sees t1 login = bot_sees t login) \<and>
    ((\<exists>found. r2 = Page_Ok found) \<longrightarrow> bot_sees t2 login = None)"
proof -
  note ch = page_channel [OF assms(2,3)]
  have set1: "stalk_view t1 = (case r1 of
      Page_Ok target \<Rightarrow> (stalk_view t)(norm_name login \<mapsto> retarget (norm_name target) (stalk_view t (norm_name login)))
    | _ \<Rightarrow> stalk_view t) \<and>
    (\<forall>target. r1 = Page_Ok target \<longrightarrow> payload \<noteq> None \<and> normalize_target (the payload) = Some target)"
  proof (cases "Option.bind payload normalize_target")
    case None
    then show ?thesis using assms(4) ch by (auto simp: set_stalk_page_def split: option.splits)
  next
    case (Some target)
    then obtain raw where raw: "payload = Some raw" "normalize_target raw = Some target" by (cases payload) auto
    obtain e x where s: "stalk_set fl (to_lower login) target (set_by_login u) t = (e, x)" by (meson surj_pair)
    then show ?thesis using assms(4) ch raw stalk_set_spec(2) [OF assms(1) s]
      by (cases e) (auto simp: set_stalk_page_def)
  qed
  have clear2: "stalk_view t2 = (stalk_view t)(norm_name login := None) \<and> (\<exists>f. r2 = Page_Ok f) \<or> stalk_view t2 = stalk_view t \<and> (\<nexists>f. r2 = Page_Ok f)"
  proof -
    obtain res x where c: "stalk_clear fl (to_lower login) t = (res, x)" by (meson surj_pair)
    then show ?thesis using assms(5) ch stalk_clear_spec(2,3) [OF assms(1) c]
      by (cases res; cases "res = Inr True") (auto simp: clear_stalk_page_def)
  qed
  show ?thesis using set1 clear2 assms(3) by (auto simp: bot_sees_view split: page.splits)
qed

definition demo_streamer :: user where
  "demo_streamer = \<lparr> us_id = 1, us_twitch_id = Some ''42'', us_login = Some ''Chan'', us_display_name = None, us_opt_in = True,
     us_live = False, us_key = None \<rparr>"

theorem stalk_page_is_the_chat_watch_witness:
  "\<exists>t1. set_stalk_page no_faults (Some demo_streamer) (Some '' @Stan '') empty_table = (Page_Ok ''stan'', t1) \<and>
     bot_sees t1 ''chan'' = Some (''stan'', [])"
proof -
  let ?t1 = "snd (set_stalk_page no_faults (Some demo_streamer) (Some '' @Stan '') empty_table)"
  have ok: "fst (set_stalk_page no_faults (Some demo_streamer) (Some '' @Stan '') empty_table) = Page_Ok ''stan''" by code_simp
  have n: "norm_name ''Chan'' = ''chan''" "norm_name ''chan'' = ''chan''" "norm_name ''stan'' = ''stan''" by code_simp+
  have e: "bot_sees empty_table ''Chan'' = None" by code_simp
  have "us_login demo_streamer = Some ''Chan''" by (simp add: demo_streamer_def)
  then have "bot_sees ?t1 ''Chan'' = Some (''stan'', [])"
    using stalk_page_is_the_chat_watch [OF stalk_rows.wf_empty, of demo_streamer "''Chan''" no_faults "Some '' @Stan ''"
        "Page_Ok ''stan''" ?t1] n e ok by (auto simp: retarget_def prod_eq_iff)
  then have "bot_sees ?t1 ''chan'' = Some (''stan'', [])" using n by (simp add: bot_sees_view)
  then show ?thesis using ok by (metis prod.collapse)
qed

section \<open>Tasks\<close>

record task_row =
  ta_id :: int
  ta_user :: int
  ta_title :: string
  ta_description :: "string option"
  ta_priority :: string
  ta_status :: string
  ta_expires :: "int option"
  ta_important :: bool
  ta_estimated :: "int option"

record task_request =
  tq_user :: int
  tq_title :: string
  tq_description :: "string option"
  tq_priority :: string
  tq_status :: string
  tq_expires :: "int option"
  tq_important :: bool
  tq_estimated :: "int option"

text \<open>What the schema (\<^verbatim>\<open>task/queries.psql\<close>) admits: a user that exists, a title that fits, the two enums, and no completed task without a time.\<close>

definition task_admitted :: "int list \<Rightarrow> task_row \<Rightarrow> bool" where
  "task_admitted users r \<longleftrightarrow>
     ta_user r \<in> set users \<and> length (ta_title r) \<le> 255 \<and>
     ta_priority r \<in> set [''low'', ''medium'', ''high'', ''urgent''] \<and>
     ta_status r \<in> set [''pending'', ''in_progress'', ''cancelled'']"

definition get_tasks :: "faults \<Rightarrow> user \<Rightarrow> task_row table \<Rightarrow> task_row list option" where
  "get_tasks fl u t = (if fl 0 then None else Some (find_rows (\<lambda>r. ta_user r = us_id u) t))"

definition get_task :: "faults \<Rightarrow> user \<Rightarrow> int \<Rightarrow> task_row table \<Rightarrow> task_row option" where
  "get_task fl u i t = (if fl 0 then None else find_one (\<lambda>r. ta_id r = i \<and> ta_user r = us_id u) t)"

text \<open>The id of the new task, \<open>None\<close> when the insert fails.\<close>

definition create_task ::
  "faults \<Rightarrow> int list \<Rightarrow> user \<Rightarrow> task_request \<Rightarrow> task_row table \<Rightarrow> int option \<times> task_row table" where
  "create_task fl users u q t =
     (let r = \<lparr> ta_id = tb_serial t + 1, ta_user = (if tq_user q = 0 then us_id u else tq_user q), ta_title = tq_title q,
                ta_description = tq_description q, ta_priority = tq_priority q,
                ta_status = (if tq_status q = [] then ''pending'' else tq_status q), ta_expires = tq_expires q,
                ta_important = tq_important q, ta_estimated = tq_estimated q \<rparr>
      in if fl 0 \<or> \<not> task_admitted users r then (None, t)
         else (Some (ta_id r), \<lparr> tb_rows = tb_rows t @ [r], tb_serial = tb_serial t + 1 \<rparr>))"

text \<open>Both answer 200 when the service fails, with nothing in the body.\<close>

definition get_user_tasks_endpoint :: "faults \<Rightarrow> user option \<Rightarrow> task_row table \<Rightarrow> task_row list option page" where
  "get_user_tasks_endpoint fl acc t = (case acc of None \<Rightarrow> Page_Unauthorized | Some u \<Rightarrow> Page_Ok (get_tasks fl u t))"

definition create_user_task_endpoint ::
  "faults \<Rightarrow> int list \<Rightarrow> user option \<Rightarrow> task_request option \<Rightarrow> task_row table \<Rightarrow> int option page \<times> task_row table" where
  "create_user_task_endpoint fl users acc payload t =
     (case acc of
        None \<Rightarrow> (Page_Unauthorized, t)
      | Some u \<Rightarrow>
          (case payload of
             None \<Rightarrow> (Page_Bad_Request, t)
           | Some q \<Rightarrow> (case create_task fl users u q t of (r, t') \<Rightarrow> (Page_Ok r, t'))))"

text \<open>The account of a new task is the one the request names, which is not compared with the session's.\<close>

lemma task_for_another_account:
  assumes "create_user_task_endpoint fl users (Some u) (Some q) t = (Page_Ok (Some i), t')" and "tq_user q \<noteq> 0"
  shows "\<exists>r. tb_rows t' = tb_rows t @ [r] \<and> ta_user r = tq_user q"
  using assms by (auto simp: create_user_task_endpoint_def create_task_def Let_def split: if_splits)

lemma task_for_another_account_example:
  "create_user_task_endpoint no_faults [1, 2] (Some demo_streamer)
     (Some \<lparr> tq_user = 2, tq_title = ''x'', tq_description = None, tq_priority = ''low'', tq_status = [], tq_expires = None,
            tq_important = False, tq_estimated = None \<rparr>) empty_table =
   (Page_Ok (Some 1), \<lparr> tb_rows = [\<lparr> ta_id = 1, ta_user = 2, ta_title = ''x'', ta_description = None, ta_priority = ''low'',
      ta_status = ''pending'', ta_expires = None, ta_important = False, ta_estimated = None \<rparr>], tb_serial = 1 \<rparr>)"
  by code_simp

text \<open>A request without a priority is refused by the schema and answered with 200 and no id.\<close>

lemma task_without_priority:
  "tq_priority q = [] \<Longrightarrow> create_user_task_endpoint fl users (Some u) (Some q) t = (Page_Ok None, t)"
  by (simp add: create_user_task_endpoint_def create_task_def task_admitted_def Let_def)

lemma tasks_are_the_accounts:
  "get_user_tasks_endpoint fl (Some u) t = Page_Ok (Some rs) \<Longrightarrow> \<forall>r \<in> set rs. ta_user r = us_id u"
  by (auto simp: get_user_tasks_endpoint_def get_tasks_def find_rows_def split: if_splits)

section \<open>The address of a weather report\<close>

text \<open>\<open>bound\<close> is the address in the body, empty when the body has none, \<open>None\<close> when binding fails.\<close>

definition get_ip :: "string \<Rightarrow> string option \<Rightarrow> string" where
  "get_ip real_ip bound = (case bound of None \<Rightarrow> real_ip | Some ip \<Rightarrow> ip)"

text \<open>\<open>parse\<close> reads a floating point number.\<close>

definition get_lat_and_lon :: "(string \<Rightarrow> 'f option) \<Rightarrow> 'f \<Rightarrow> string \<Rightarrow> 'f \<times> 'f" where
  "get_lat_and_lon parse zero location =
     (case split_on (CHR '','') location of
        [a, b] \<Rightarrow>
          (case (parse (trim_space a), parse (trim_space b)) of (Some lat, Some lon) \<Rightarrow> (lat, lon) | _ \<Rightarrow> (zero, zero))
      | _ \<Rightarrow> (zero, zero))"

text \<open>An empty body binds, so the address of the caller is dropped although the body names none.\<close>

lemma caller_address_is_dropped: "get_ip real_ip (Some []) = []"
  by (simp add: get_ip_def)

text \<open>
  Windy's answer: its body's list of temperatures when it decodes (\<open>decode\<close>); the status is not looked at.
  \<open>mean\<close> is the rounded mean in Fahrenheit, which is floating point arithmetic.
\<close>

definition degrees :: string where
  "degrees = [CHR 0xC2, CHR 0xB0] @ ''F''"

definition format_temp :: "('f list \<Rightarrow> int) \<Rightarrow> 'f list \<Rightarrow> string" where
  "format_temp mean values = (if values = [] then ''0'' @ degrees else itoa (mean values) @ degrees)"

definition get_temp :: "('f list \<Rightarrow> int) \<Rightarrow> (string \<Rightarrow> 'f list option) \<Rightarrow> (int \<times> string) option \<Rightarrow> string option" where
  "get_temp mean decode answer =
     (case answer of
        None \<Rightarrow> None
      | Some (status, body) \<Rightarrow> map_option (format_temp mean) (decode body))"

record weather_report =
  wr_city :: string
  wr_temp :: string

text \<open>\<open>info\<close> is ipinfo's location and city of an address, \<open>windy\<close> the answer for a place.\<close>

definition get_report ::
  "(string \<Rightarrow> 'f option) \<Rightarrow> 'f \<Rightarrow> ('f list \<Rightarrow> int) \<Rightarrow> (string \<Rightarrow> 'f list option) \<Rightarrow> (string \<Rightarrow> (string \<times> string) option) \<Rightarrow>
     ('f \<times> 'f \<Rightarrow> (int \<times> string) option) \<Rightarrow> string \<Rightarrow> weather_report option" where
  "get_report parse zero mean decode info windy ip =
     (case info ip of
        None \<Rightarrow> None
      | Some (location, city) \<Rightarrow>
          map_option (\<lambda>t. \<lparr> wr_city = city, wr_temp = t \<rparr>) (get_temp mean decode (windy (get_lat_and_lon parse zero location))))"

definition get_weather_endpoint ::
  "(string \<Rightarrow> weather_report option) \<Rightarrow> string \<Rightarrow> string option \<Rightarrow> weather_report http" where
  "get_weather_endpoint report real_ip bound =
     (case report (get_ip real_ip bound) of None \<Rightarrow> Http_Server_Error | Some r \<Rightarrow> Http_Ok r)"

text \<open>An error of Windy whose body is a JSON object without temperatures is reported as a temperature of zero.\<close>

lemma windy_error_reads_zero:
  "decode body = Some [] \<Longrightarrow> get_temp mean decode (Some (status, body)) = Some (''0'' @ degrees)"
  by (simp add: get_temp_def format_temp_def)

end
