(* ===== verification/Bot_Boot.thy ===== *)
theory Bot_Boot
  imports Bot_Live Bot_Chat_Properties Twitch_Auth Hmac_Auth
begin

text \<open>
  The start of the bot's process (\<^verbatim>\<open>cmd/twitch-bot/main.go\<close>): its settings from the environment, the channels it
  asks core-api for, the choice of its login tokens, and the construction of the bot (\<^verbatim>\<open>NewBot\<close> of
  \<^verbatim>\<open>twitchbot/bot.go\<close>), up to the first joins. The environment, the answers of core-api and the time zone database
  are parameters.
\<close>

section \<open>The settings\<close>

type_synonym environment = "string \<Rightarrow> string"

text \<open>An unset variable reads as the empty string.\<close>

definition get_env :: "environment \<Rightarrow> string \<Rightarrow> string \<Rightarrow> string" where
  "get_env env key default_value = (if env key \<noteq> [] then env key else default_value)"

record bot_settings =
  bs_name :: string
  bs_id :: string
  bs_oauth :: string
  bs_client_id :: string
  bs_channels :: "bot_user list"
  bs_storage :: string
  bs_timezone :: string
  bs_executor :: string
  bs_overseer_key :: string
  bs_user_tokens :: "refresher option"
  bs_app_tokens :: "app_token_source option"

text \<open>The exits of the process before it serves; a panic of the constructor is one of them.\<close>

datatype boot_error =
    Api_Not_Set | Api_Client_Refused | Channels_Not_Fetched | No_Active_Users | No_Valid_Logins
  | Name_Missing | No_Login_Token | Timezone_Invalid | Overseer_Key_Invalid | Commands_Panic

section \<open>The channels\<close>

text \<open>The regular expression \<^verbatim>\<open>^[a-z0-9_]{4,25}$\<close>.\<close>

definition irc_login_char :: "char \<Rightarrow> bool" where
  "irc_login_char c \<longleftrightarrow> (97 \<le> code_of c \<and> code_of c \<le> 122) \<or> (48 \<le> code_of c \<and> code_of c \<le> 57) \<or> c = CHR ''_''"

definition valid_twitch_login :: "string \<Rightarrow> bool" where
  "valid_twitch_login s \<longleftrightarrow> 4 \<le> length s \<and> length s \<le> 25 \<and> list_all irc_login_char s"

definition has_valid_login :: "user \<Rightarrow> bool" where
  "has_valid_login u = (case us_login u of None \<Rightarrow> False | Some l \<Rightarrow> valid_twitch_login l)"

text \<open>\<open>None\<close> is a call of core-api that failed.\<close>

definition get_live_channels :: "user list option \<Rightarrow> boot_error + bot_user list" where
  "get_live_channels answer =
     (case answer of
        None \<Rightarrow> Inl Channels_Not_Fetched
      | Some users \<Rightarrow>
          if users = [] then Inl No_Active_Users
          else let channels = map bot_user_of (filter has_valid_login users)
               in if channels = [] then Inl No_Valid_Logins else Inr channels)"

section \<open>The bot\<close>

text \<open>What the constructor makes: the bot, the key of its link to the executor and the token IRC starts with.\<close>

record new_bot_parts =
  nb_bot :: bot
  nb_overseer_key :: string
  nb_irc_token :: string

definition fresh_bot :: "bot_settings \<Rightarrow> command_maps \<Rightarrow> bot" where
  "fresh_bot s maps =
     \<lparr> bt_name = bs_name s, bt_id = bs_id s, bt_channels = bs_channels s, bt_commands = fst maps, bt_requires = snd maps,
       bt_caps = Map.empty, bt_custom = Map.empty, bt_live = (\<lambda>_. False), bt_dad = Map.empty, bt_shouts = Map.empty,
       bt_watches = Map.empty, bt_seen = new_id_cache (int chat_message_id_cache_size) \<rparr>"

definition new_bot ::
  "(string \<Rightarrow> bool) \<Rightarrow> command_row list option \<Rightarrow> bot_settings \<Rightarrow> boot_error + new_bot_parts" where
  "new_bot zone_known rows s =
     (if \<not> zone_known (bs_timezone s) then Inl Timezone_Invalid
      else case hex_decode (bs_overseer_key s) of
        None \<Rightarrow> Inl Overseer_Key_Invalid
      | Some key \<Rightarrow>
          (case rows of
             None \<Rightarrow> Inl Commands_Panic
           | Some rs \<Rightarrow>
               (case build_command_maps rs of
                  Inl _ \<Rightarrow> Inl Commands_Panic
                | Inr maps \<Rightarrow> Inr \<lparr> nb_bot = fresh_bot s maps, nb_overseer_key = key, nb_irc_token = bs_oauth s \<rparr>)))"

section \<open>The process\<close>

record bot_process =
  bp_parts :: new_bot_parts
  bp_api_key :: string
  bp_user_tokens :: "refresher option"
  bp_app_tokens :: "app_token_source option"
  bp_event_sub :: "event_sub_client option"

definition bot_twitch_id :: string where
  "bot_twitch_id = ''1322716097''"

definition settings_of :: "environment \<Rightarrow> bot_user list \<Rightarrow> bot_settings" where
  "settings_of env channels =
     (let client_id = get_env env ''TWITCH_CLIENT_ID'' [];
          client_secret = get_env env ''TWITCH_CLIENT_SECRET'' [];
          refresh_token = get_env env ''TWITCH_BOT_REFRESH'' []
      in \<lparr> bs_name = get_env env ''TWITCH_BOT_USERNAME'' [], bs_id = bot_twitch_id,
           bs_oauth = get_env env ''TWITCH_BOT_OAUTH'' [], bs_client_id = client_id, bs_channels = channels,
           bs_storage = get_env env ''TWITCH_STORAGE_PATH'' ''./data/twitch-counters.json'',
           bs_timezone = get_env env ''TWITCH_TIMEZONE'' ''America/New_York'',
           bs_executor = get_env env ''EXECUTOR_WS_URL'' [], bs_overseer_key = get_env env ''OVERSEER_HMAC_KEY'' [],
           bs_user_tokens =
             (if client_id \<noteq> [] \<and> client_secret \<noteq> [] \<and> refresh_token \<noteq> []
              then Some (new_refresher client_id client_secret refresh_token) else None),
           bs_app_tokens =
             (if client_id \<noteq> [] \<and> client_secret \<noteq> [] then Some (new_app_token_source client_id client_secret) else None) \<rparr>)"

text \<open>
  The error of the EventSub client is overwritten by that of the next call: a client that cannot be made is
  carried on as nil.
\<close>

definition event_sub_of :: "environment \<Rightarrow> event_sub_client option" where
  "event_sub_of env =
     (case new_client \<lparr> event_sub_config.ec_client_id = get_env env ''TWITCH_CLIENT_ID'' [],
                        ec_client_secret = get_env env ''TWITCH_CLIENT_SECRET'' [],
                        ec_secret = get_env env ''TWITCH_EVENTSUB_SECRET'' [], ec_callback = [] \<rparr> of
        Inl _ \<Rightarrow> None
      | Inr c \<Rightarrow> Some c)"

definition boot_bot ::
  "(string \<Rightarrow> bool) \<Rightarrow> user list option \<Rightarrow> command_row list option \<Rightarrow> environment \<Rightarrow> boot_error + bot_process" where
  "boot_bot zone_known users rows env =
     (let api_url = get_env env ''CORE_API_URL'' []; hmac_key = get_env env ''BOT_API_HMAC_KEY'' []
      in if api_url = [] \<or> hmac_key = [] then Inl Api_Not_Set
         else case client_key api_url hmac_key of
           None \<Rightarrow> Inl Api_Client_Refused
         | Some key \<Rightarrow>
             (case get_live_channels users of
                Inl e \<Rightarrow> Inl e
              | Inr channels \<Rightarrow>
                  let s = settings_of env channels
                  in if bs_name s = [] \<or> bs_channels s = [] then Inl Name_Missing
                     else if bs_oauth s = [] \<and> bs_user_tokens s = None then Inl No_Login_Token
                     else case new_bot zone_known rows s of
                       Inl e \<Rightarrow> Inl e
                     | Inr parts \<Rightarrow>
                         Inr \<lparr> bp_parts = parts, bp_api_key = key, bp_user_tokens = bs_user_tokens s,
                               bp_app_tokens = bs_app_tokens s, bp_event_sub = event_sub_of env \<rparr>))"

text \<open>Where the webhook listener of the bot binds.\<close>

definition listen_address :: "environment \<Rightarrow> string" where
  "listen_address env =
     (let addr = env ''WEBHOOK_LISTEN_ADDRESS'' in if addr = [] then ''0.0.0.0:8090'' else addr)"

section \<open>The executor's process\<close>

text \<open>What \<^verbatim>\<open>cmd/df-executor/main.go\<close> starts from: the key of the link, the program that runs commands, the address.\<close>

datatype executor_error = Key_Not_Set | Key_Not_Hex | Run_Path_Not_Set

definition boot_executor :: "environment \<Rightarrow> executor_error + string \<times> string \<times> string" where
  "boot_executor env =
     (let key_hex = env ''OVERSEER_HMAC_KEY''
      in if key_hex = [] then Inl Key_Not_Set
         else case hex_decode key_hex of
           None \<Rightarrow> Inl Key_Not_Hex
         | Some key \<Rightarrow>
             let path = env ''DFHACK_RUN_PATH''; listen = env ''EXECUTOR_LISTEN''
             in if path = [] then Inl Run_Path_Not_Set
                else Inr (key, path, if listen = [] then ''127.0.0.1:8123'' else listen))"

section \<open>What a started bot is\<close>

lemma get_env_empty [simp]: "get_env env key [] = env key"
  by (simp add: get_env_def)

lemma irc_login_char_lower [simp]: "irc_login_char c \<Longrightarrow> lower_char c = c"
  by (auto simp: irc_login_char_def lower_char_def code_of_def)

lemma valid_login_lower [simp]: "valid_twitch_login l \<Longrightarrow> to_lower l = l"
  unfolding valid_twitch_login_def to_lower_def list_all_iff by (auto intro: map_idI)

lemma live_channels_iff:
  "get_live_channels answer = Inr cs \<longleftrightarrow>
     (\<exists>us. answer = Some us \<and> cs = map bot_user_of (filter has_valid_login us) \<and> cs \<noteq> [])"
  by (auto simp: get_live_channels_def Let_def split: option.splits if_splits)

lemma new_bot_iff:
  "(\<exists>parts. new_bot zone_known rows s = Inr parts) \<longleftrightarrow>
     zone_known (bs_timezone s) \<and> hex_decode (bs_overseer_key s) \<noteq> None \<and>
     (\<exists>rs maps. rows = Some rs \<and> build_command_maps rs = Inr maps)"
  by (auto simp: new_bot_def split: option.splits sum.splits)

lemma settings_of_simps [simp]:
  "bs_name (settings_of env cs) = env ''TWITCH_BOT_USERNAME''" "bs_channels (settings_of env cs) = cs"
  "bs_oauth (settings_of env cs) = env ''TWITCH_BOT_OAUTH''" "bs_overseer_key (settings_of env cs) = env ''OVERSEER_HMAC_KEY''"
  "bs_timezone (settings_of env cs) = get_env env ''TWITCH_TIMEZONE'' ''America/New_York''"
  "bs_user_tokens (settings_of env cs) = None \<longleftrightarrow>
     env ''TWITCH_CLIENT_ID'' = [] \<or> env ''TWITCH_CLIENT_SECRET'' = [] \<or> env ''TWITCH_BOT_REFRESH'' = []"
  by (auto simp: settings_of_def Let_def)

text \<open>The process starts exactly in these environments.\<close>

lemma boots_iff:
  "(\<exists>p. boot_bot zone_known users rows env = Inr p) \<longleftrightarrow>
     client_key (env ''CORE_API_URL'') (env ''BOT_API_HMAC_KEY'') \<noteq> None \<and> env ''BOT_API_HMAC_KEY'' \<noteq> [] \<and>
     (\<exists>us. users = Some us \<and> (\<exists>u \<in> set us. has_valid_login u)) \<and> env ''TWITCH_BOT_USERNAME'' \<noteq> [] \<and>
     (env ''TWITCH_BOT_OAUTH'' \<noteq> [] \<or>
        env ''TWITCH_CLIENT_ID'' \<noteq> [] \<and> env ''TWITCH_CLIENT_SECRET'' \<noteq> [] \<and> env ''TWITCH_BOT_REFRESH'' \<noteq> []) \<and>
     zone_known (get_env env ''TWITCH_TIMEZONE'' ''America/New_York'') \<and> hex_decode (env ''OVERSEER_HMAC_KEY'') \<noteq> None \<and>
     (\<exists>rs maps. rows = Some rs \<and> build_command_maps rs = Inr maps)"
proof (cases "client_key (env ''CORE_API_URL'') (env ''BOT_API_HMAC_KEY'')")
  case None
  then show ?thesis by (simp add: boot_bot_def Let_def)
next
  case (Some key)
  then have url: "env ''CORE_API_URL'' \<noteq> []" by (auto simp: client_key_def)
  show ?thesis
  proof (cases "get_live_channels users")
    case (Inl e)
    then have "\<not> (\<exists>us. users = Some us \<and> (\<exists>u \<in> set us. has_valid_login u))"
      by (auto simp: get_live_channels_def Let_def filter_empty_conv split: option.splits if_splits)
    then show ?thesis using Some Inl by (auto simp: boot_bot_def Let_def)
  next
    case (Inr cs)
    then have users: "\<exists>us. users = Some us \<and> (\<exists>u \<in> set us. has_valid_login u)" and cs: "cs \<noteq> []"
      by (auto simp: live_channels_iff filter_empty_conv)
    have "(\<exists>p. boot_bot zone_known users rows env = Inr p) \<longleftrightarrow>
        env ''BOT_API_HMAC_KEY'' \<noteq> [] \<and> env ''TWITCH_BOT_USERNAME'' \<noteq> [] \<and>
        (env ''TWITCH_BOT_OAUTH'' \<noteq> [] \<or> bs_user_tokens (settings_of env cs) \<noteq> None) \<and>
        (\<exists>parts. new_bot zone_known rows (settings_of env cs) = Inr parts)"
      using Some Inr url cs
      by (cases "new_bot zone_known rows (settings_of env cs)") (auto simp: boot_bot_def Let_def simp del: settings_of_simps(6))
    then show ?thesis using users Some unfolding new_bot_iff settings_of_simps by blast
  qed
qed

text \<open>Without the EventSub secret the bot starts all the same, and has no EventSub client.\<close>

lemma boots_without_event_sub:
  assumes "boot_bot zone_known users rows env = Inr p" and "env ''TWITCH_EVENTSUB_SECRET'' = []"
  shows "bp_event_sub p = None"
  using assms
  by (auto simp: boot_bot_def event_sub_of_def new_client_def Let_def split: option.splits sum.splits if_splits)

lemma boot_parts:
  assumes "boot_bot zone_known users rows env = Inr p"
  obtains us rs maps where "users = Some us" and "rows = Some rs" and "build_command_maps rs = Inr maps"
    and "nb_bot (bp_parts p) = fresh_bot (settings_of env (map bot_user_of (filter has_valid_login us))) maps"
    and "length (bp_api_key p) \<ge> 16"
    and "nb_irc_token (bp_parts p) \<noteq> [] \<or> bp_user_tokens p \<noteq> None"
proof -
  obtain key cs where key: "client_key (env ''CORE_API_URL'') (env ''BOT_API_HMAC_KEY'') = Some key"
    and cs: "get_live_channels users = Inr cs" and parts: "new_bot zone_known rows (settings_of env cs) = Inr (bp_parts p)"
    and api: "bp_api_key p = key" and tok: "bs_oauth (settings_of env cs) \<noteq> [] \<or> bs_user_tokens (settings_of env cs) \<noteq> None"
    and user: "bp_user_tokens p = bs_user_tokens (settings_of env cs)"
    using assms unfolding boot_bot_def Let_def get_env_empty by (simp split: option.splits sum.splits if_splits) auto
  obtain rs maps k where new: "rows = Some rs" "build_command_maps rs = Inr maps"
    "bp_parts p = \<lparr> nb_bot = fresh_bot (settings_of env cs) maps, nb_overseer_key = k, nb_irc_token = bs_oauth (settings_of env cs) \<rparr>"
    using parts unfolding new_bot_def by (simp split: option.splits sum.splits if_splits) metis
  obtain us where us: "users = Some us" "cs = map bot_user_of (filter has_valid_login us)"
    using cs unfolding live_channels_iff by blast
  have "length (bp_api_key p) \<ge> 16" using key api by (simp add: client_key_def split: option.splits if_splits)
  then show thesis using that [OF us(1) new(1,2)] tok user by (simp add: new(3) us(2))
qed

lemma start_joins:
  "Irc_Join l \<in> set (fst (start_bot b)) \<longleftrightarrow>
     l = bot_creator_channel \<or> l = to_lower (bt_name b) \<or> (\<exists>c \<in> set (bt_channels b). us_login c = Some l \<and> us_live c)"
proof -
  have "Irc_Join l \<in> set (start_channel_actions c) \<longleftrightarrow> us_login c = Some l \<and> us_live c" for c
    by (auto simp: start_channel_actions_def split: option.splits)
  then show ?thesis by (auto simp: start_bot_def)
qed

definition named_channel :: "string \<Rightarrow> bot_user \<Rightarrow> bool" where
  "named_channel l c \<longleftrightarrow> (\<exists>login. us_login c = Some login \<and> to_lower login = l)"

definition seed_live :: "bot_user \<Rightarrow> bot \<Rightarrow> bot" where
  "seed_live c b = (case us_login c of None \<Rightarrow> b | Some login \<Rightarrow> set_live login (us_live c) b)"

lemma seed_live_at: "bt_live (seed_live c b) l = (if named_channel l c then us_live c else bt_live b l)"
  by (auto simp: seed_live_def named_channel_def set_live_def split: option.splits)

lemma seeded_only: "bt_live (fold seed_live cs b) l \<Longrightarrow> bt_live b l \<or> (\<exists>c \<in> set cs. named_channel l c \<and> us_live c)"
proof (induction cs arbitrary: b)
  case (Cons c cs)
  then show ?case using Cons.IH [of "seed_live c b"] by (auto simp: seed_live_at split: if_splits)
qed simp

lemma seeded_all:
  "(\<forall>c \<in> set cs. named_channel l c \<longrightarrow> us_live c) \<Longrightarrow> bt_live b l \<or> (\<exists>c \<in> set cs. named_channel l c) \<Longrightarrow>
     bt_live (fold seed_live cs b) l"
proof (induction cs arbitrary: b)
  case (Cons c cs)
  show ?case using Cons.IH [of "seed_live c b"] Cons.prems by (auto simp: seed_live_at)
qed simp

lemma seeded_rest [simp]:
  "bt_commands (fold seed_live cs b) = bt_commands b" "bt_name (fold seed_live cs b) = bt_name b"
  "bt_channels (fold seed_live cs b) = bt_channels b"
  by (induction cs arbitrary: b) (simp_all add: seed_live_def set_live_def split: option.splits)

lemma start_state: "snd (start_bot b) = fold seed_live (bt_channels b) (b\<lparr> bt_shouts := Map.empty \<rparr>)"
  by (simp add: start_bot_def seed_live_def [abs_def])

lemma bot_user_of_user [simp]: "us_login (bot_user_of u) = us_login u" "us_live (bot_user_of u) = us_live u"
  by (simp_all add: bot_user_of_def)

lemma named_valid [simp]:
  "has_valid_login u \<Longrightarrow> named_channel l (bot_user_of u) \<longleftrightarrow> us_login u = Some l"
  by (auto simp: has_valid_login_def named_channel_def split: option.splits)

lemma boots_channels:
  assumes "boot_bot zone_known (Some us) rows env = Inr p"
  shows "filter has_valid_login us \<noteq> []"
proof -
  have "\<exists>p. boot_bot zone_known (Some us) rows env = Inr p" using assms ..
  then show ?thesis unfolding boots_iff by (auto simp: filter_empty_conv)
qed

text \<open>The words of the command table.\<close>

lemma build_maps_words:
  assumes "build_command_maps rows = Inr maps" and "fst maps word = Some key"
  shows "key \<in> set builtin_registry \<and> to_lower word = word"
proof -
  have bm: "build_maps rows (\<lambda>_. None, \<lambda>_. None) = Inr (fst maps, snd maps)" using assms(1) by (simp add: build_command_maps_def)
  from build_maps_spec(1) [OF bm assms(2)] obtain row where row: "row \<in> set rows" "loadable row" "cr_trigger row = word"
    "key \<in> set builtin_registry" by auto
  with build_maps_spec(2) [OF bm row(1,2)] show ?thesis by auto
qed

end
