(* ===== verification/Bot_Boot_Properties.thy ===== *)
theory Bot_Boot_Properties
  imports Bot_Boot
begin

text \<open>What holds of every bot that starts, and a concrete start.\<close>

text \<open>
  C29: A process that gets past its checks is sound: it tracks exactly the users core-api named whose login IRC
  accepts; it joins the creator's channel, its own and those of them that are live, and no other; a channel counts
  as live only for a user who is, and does if all who have the login are; every word it answers is lower case and
  has compiled code behind it; it has a token to log in with or a source for one, and a key of at least 16 bytes
  for core-api.
\<close>

theorem booted_bot_is_sound:
  assumes "boot_bot zone_known users rows env = Inr p" and "start_bot (nb_bot (bp_parts p)) = (acts, b)"
  shows "\<exists>us. users = Some us \<and>
    bt_channels b = map bot_user_of (filter has_valid_login us) \<and> bt_channels b \<noteq> [] \<and>
    (\<forall>l. Irc_Join l \<in> set acts \<longleftrightarrow>
       l = bot_creator_channel \<or> l = to_lower (bt_name b) \<or> (\<exists>u \<in> set us. has_valid_login u \<and> us_login u = Some l \<and> us_live u)) \<and>
    (\<forall>l. bt_live b l \<longrightarrow> (\<exists>u \<in> set us. has_valid_login u \<and> us_login u = Some l \<and> us_live u)) \<and>
    (\<forall>u \<in> set us. \<forall>l. has_valid_login u \<and> us_login u = Some l \<and> (\<forall>v \<in> set us. us_login v = Some l \<longrightarrow> us_live v) \<longrightarrow> is_channel_live l b) \<and>
    (\<forall>word key. bt_commands b word = Some key \<longrightarrow> key \<in> set builtin_registry \<and> to_lower word = word) \<and>
    (nb_irc_token (bp_parts p) \<noteq> [] \<or> bp_user_tokens p \<noteq> None) \<and> length (bp_api_key p) \<ge> 16"
proof -
  obtain us rs maps where us: "users = Some us" and maps: "build_command_maps rs = Inr maps"
    and bot: "nb_bot (bp_parts p) = fresh_bot (settings_of env (map bot_user_of (filter has_valid_login us))) maps"
    and key: "length (bp_api_key p) \<ge> 16" and tok: "nb_irc_token (bp_parts p) \<noteq> [] \<or> bp_user_tokens p \<noteq> None"
    using boot_parts [OF assms(1)] by metis
  define cs where "cs = map bot_user_of (filter has_valid_login us)"
  define b0 where "b0 = fresh_bot (settings_of env cs) maps"
  have acts: "acts = fst (start_bot b0)" and b: "b = fold seed_live cs (b0\<lparr> bt_shouts := Map.empty \<rparr>)"
    using assms(2) start_state [of b0] by (simp_all add: bot b0_def cs_def fresh_bot_def settings_of_def Let_def)
  have base [simp]: "bt_channels b0 = cs" "bt_live b0 = (\<lambda>_. False)" "bt_commands b0 = fst maps" "bt_name b = bt_name b0"
    by (simp_all add: b b0_def fresh_bot_def settings_of_def Let_def)
  have ne: "cs \<noteq> []" using boots_channels assms(1) unfolding us cs_def by auto
  have joins: "Irc_Join l \<in> set acts \<longleftrightarrow>
      l = bot_creator_channel \<or> l = to_lower (bt_name b) \<or> (\<exists>u \<in> set us. has_valid_login u \<and> us_login u = Some l \<and> us_live u)" for l
    by (auto simp: acts start_joins cs_def)
  have live: "\<exists>u \<in> set us. has_valid_login u \<and> us_login u = Some l \<and> us_live u" if "bt_live b l" for l
    using seeded_only [of cs "b0\<lparr> bt_shouts := Map.empty \<rparr>" l] that by (auto simp: b cs_def)
  have all: "is_channel_live l b"
    if u: "u \<in> set us" "has_valid_login u" "us_login u = Some l" and "\<forall>v \<in> set us. us_login v = Some l \<longrightarrow> us_live v" for u l
  proof -
    have "bt_live b l" unfolding b by (rule seeded_all) (use that in \<open>auto simp: cs_def\<close>)
    moreover have "to_lower l = l" using u(2,3) by (simp add: has_valid_login_def)
    ultimately show ?thesis by (simp add: is_channel_live_def)
  qed
  have commands: "key \<in> set builtin_registry \<and> to_lower word = word" if "bt_commands b word = Some key" for word key
    using build_maps_words [OF maps, of word key] that by (simp add: b)
  show ?thesis using us joins live all commands key tok ne by (intro exI [of _ us]) (simp add: b cs_def)
qed

section \<open>A concrete start\<close>

definition demo_env :: environment where
  "demo_env key =
     (case map_of [(''CORE_API_URL'', ''https://x''), (''BOT_API_HMAC_KEY'', ''000102030405060708090a0b0c0d0e0f''),
        (''TWITCH_BOT_USERNAME'', ''PeanutBudderBot''), (''TWITCH_BOT_OAUTH'', ''oauth:abc''), (''OVERSEER_HMAC_KEY'', ''6b'')] key of
        None \<Rightarrow> [] | Some v \<Rightarrow> v)"

definition demo_user :: "string \<Rightarrow> bool \<Rightarrow> user" where
  "demo_user login live = \<lparr> us_id = 1, us_twitch_id = Some ''42'', us_login = Some login, us_display_name = None, us_opt_in = True,
     us_live = live, us_key = None \<rparr>"

definition demo_members :: "user list" where
  "demo_members = [demo_user ''nivek'' True, demo_user ''a b'' True, demo_user ''dad_42'' False]"

text \<open>The process, but for the parts no statement looks at.\<close>

definition demo_process :: bot_process where
  "demo_process = (case boot_bot (\<lambda>_. True) (Some demo_members) (Some demo_rows) demo_env of Inr p \<Rightarrow> p | Inl _ \<Rightarrow> undefined)"

lemma demo_boots: "boot_bot (\<lambda>_. True) (Some demo_members) (Some demo_rows) demo_env = Inr demo_process"
proof -
  have "client_key (demo_env ''CORE_API_URL'') (demo_env ''BOT_API_HMAC_KEY'') \<noteq> None" by code_simp
  moreover have "hex_decode (demo_env ''OVERSEER_HMAC_KEY'') \<noteq> None" "\<exists>u \<in> set demo_members. has_valid_login u" by code_simp+
  moreover have "build_command_maps demo_rows = Inr (bt_commands demo_bot, bt_requires demo_bot)"
    by (simp add: demo_bot_def demo_rows_def build_command_maps_def builtin_registry_def to_lower_def lower_char_def code_of_def)
  ultimately have "\<exists>p. boot_bot (\<lambda>_. True) (Some demo_members) (Some demo_rows) demo_env = Inr p"
    unfolding boots_iff by (simp add: demo_env_def)
  then show ?thesis by (auto simp: demo_process_def)
qed

lemma demo_name: "bt_name (nb_bot (bp_parts demo_process)) = ''PeanutBudderBot''"
  by (rule boot_parts [OF demo_boots]) (simp add: fresh_bot_def settings_of_def demo_env_def Let_def)

theorem booted_bot_is_sound_witness:
  "\<exists>acts b. start_bot (nb_bot (bp_parts demo_process)) = (acts, b) \<and> Irc_Join ''nivek'' \<in> set acts \<and>
     Irc_Join ''peanutbudderbot'' \<in> set acts \<and> Irc_Join ''dad_42'' \<notin> set acts \<and> length (bt_channels b) = 2 \<and> is_channel_live ''nivek'' b"
proof -
  obtain acts b where st: "start_bot (nb_bot (bp_parts demo_process)) = (acts, b)" by (meson prod.exhaust)
  have name: "bt_name b = ''PeanutBudderBot''"
    using start_state [of "nb_bot (bp_parts demo_process)"] st by (simp add: demo_name)
  have v: "filter has_valid_login demo_members = [demo_user ''nivek'' True, demo_user ''dad_42'' False]"
    and low: "to_lower ''PeanutBudderBot'' = ''peanutbudderbot''" and names: "bot_creator_channel = ''timallenfanclubofficial''"
    by code_simp+
  from booted_bot_is_sound [OF demo_boots st]
  have ch: "bt_channels b = map bot_user_of (filter has_valid_login demo_members)"
    and joins: "\<And>l. Irc_Join l \<in> set acts \<longleftrightarrow>
       l = bot_creator_channel \<or> l = to_lower (bt_name b) \<or>
       (\<exists>u \<in> set demo_members. has_valid_login u \<and> us_login u = Some l \<and> us_live u)"
    and live: "\<forall>u \<in> set demo_members. \<forall>l. has_valid_login u \<and> us_login u = Some l \<and>
       (\<forall>v \<in> set demo_members. us_login v = Some l \<longrightarrow> us_live v) \<longrightarrow> is_channel_live l b"
    by simp_all
  have nivek: "demo_user ''nivek'' True \<in> set demo_members" "has_valid_login (demo_user ''nivek'' True)"
    by code_simp+
  have "is_channel_live ''nivek'' b"
    using live nivek by (force simp: demo_members_def demo_user_def)
  moreover have "Irc_Join ''dad_42'' \<notin> set acts"
    unfolding joins names name low by (auto simp: demo_members_def demo_user_def)
  moreover have "Irc_Join ''peanutbudderbot'' \<in> set acts" unfolding joins name low by simp
  moreover have "Irc_Join ''nivek'' \<in> set acts"
    unfolding joins using nivek by (force simp: demo_user_def)
  moreover have "length (bt_channels b) = 2" unfolding ch v by simp
  ultimately show ?thesis using st by blast
qed

end
