(* ===== verification/Fort_Scripts.thy ===== *)
theory Fort_Scripts
  imports Verb_Contract
begin

text \<open>
  What the Lua scripts of the submitters do to the fortress (the templates of \<^verbatim>\<open>overseer/verbs\<close>: \<^verbatim>\<open>pause.go\<close>,
  \<^verbatim>\<open>camera.go\<close>, \<^verbatim>\<open>dig.go\<close>, \<^verbatim>\<open>cuttree.go\<close>, \<^verbatim>\<open>appoint.go\<close>, \<^verbatim>\<open>taskat.go\<close>). The fortress is the part of the
  game's memory these scripts read and write. The scripts whose whole effect is DFHack's
  \<^verbatim>\<open>constructBuilding\<close>, and its work orders, are a parameter.
\<close>

section \<open>The fortress\<close>

text \<open>A tile is its coordinates with the raw level; the map is allocated in blocks of 16 by 16.\<close>

type_synonym tile = "int \<times> int \<times> int"

definition block_of :: "tile \<Rightarrow> tile" where
  "block_of t = (case t of (x, y, z) \<Rightarrow> (x div 16, y div 16, z))"

text \<open>A link of a historical figure to an entity: to a position by its assignment, or of another class.\<close>

record position_link =
  po_entity :: int
  po_assignment :: int
  po_index :: nat
  po_year :: int

datatype figure_link = Position_Link position_link | Other_Link string

record fort_position =
  ps_id :: int
  ps_code :: string

record office =
  ag_id :: int
  ag_position :: int
  ag_figure :: int
  ag_figure2 :: int

record fort_entity =
  fn_id :: int
  fn_positions :: "fort_position list"
  fn_offices :: "office list"

record fort_unit =
  fu_citizen :: bool
  fu_figure :: int

record fort_job =
  fj_type :: string
  fj_pos :: tile
  fj_material :: string
  fj_holder :: int

record fort_building =
  fb_workshop :: bool
  fb_center :: tile
  fb_jobs :: "fort_job list"

record fort =
  fo_region_z :: int
  fo_blocks :: "tile \<Rightarrow> bool"
  fo_dig :: "tile \<Rightarrow> string"
  fo_marked :: "tile \<Rightarrow> bool"
  fo_flagged :: "tile \<Rightarrow> bool"
  fo_trees_dry :: "tile list"
  fo_trees_wet :: "tile list"
  fo_paused :: bool
  fo_camera :: "tile option"
  fo_year :: int
  fo_units :: "int \<Rightarrow> fort_unit option"
  fo_figures :: "int \<Rightarrow> figure_link list option"
  fo_entity :: "fort_entity option"
  fo_buildings :: "int \<Rightarrow> fort_building option"
  fo_jobs :: "fort_job list"

section \<open>The scripts\<close>

text \<open>\<open>Inl\<close> is the message of Lua's \<^verbatim>\<open>error\<close>.\<close>

text \<open>The first line of every script with a level: the elevation the chatter typed to the embark's own.\<close>

definition raw_z :: "int \<Rightarrow> fort \<Rightarrow> int" where
  "raw_z z f = wrap64 (z - wrap64 (fo_region_z f - 100))"

definition designate :: "string \<Rightarrow> tile \<Rightarrow> fort \<Rightarrow> fort" where
  "designate d t f =
     (if fo_blocks f (block_of t)
      then f\<lparr> fo_dig := (fo_dig f)(t := d), fo_marked := (fo_marked f)(t := False),
             fo_flagged := (fo_flagged f)(block_of t := True) \<rparr>
      else f)"

definition run_dig :: "int \<Rightarrow> int \<Rightarrow> int \<Rightarrow> int \<Rightarrow> int \<Rightarrow> string \<Rightarrow> fort \<Rightarrow> fort" where
  "run_dig z x1 x2 y1 y2 d f =
     fold (\<lambda>(x, y). designate d (x, y, raw_z z f)) (List.product [x1..x2] [y1..y2]) f"

definition in_bounds :: "int \<Rightarrow> int \<Rightarrow> int \<Rightarrow> int \<Rightarrow> int \<Rightarrow> tile \<Rightarrow> bool" where
  "in_bounds rz x1 x2 y1 y2 t \<longleftrightarrow> (case t of (x, y, z) \<Rightarrow> z = rz \<and> x1 \<le> x \<and> x \<le> x2 \<and> y1 \<le> y \<and> y \<le> y2)"

definition mark_if_in_region :: "int \<Rightarrow> int \<Rightarrow> int \<Rightarrow> int \<Rightarrow> int \<Rightarrow> tile \<Rightarrow> int \<times> fort \<Rightarrow> int \<times> fort" where
  "mark_if_in_region rz x1 x2 y1 y2 t cf =
     (case cf of (c, f) \<Rightarrow>
        if in_bounds rz x1 x2 y1 y2 t \<and> fo_blocks f (block_of t) then (c + 1, designate ''Default'' t f) else (c, f))"

definition run_cut_tree :: "int \<Rightarrow> int \<Rightarrow> int \<Rightarrow> int \<Rightarrow> int \<Rightarrow> fort \<Rightarrow> string option \<times> fort" where
  "run_cut_tree z x1 x2 y1 y2 f =
     (case fold (mark_if_in_region (raw_z z f) x1 x2 y1 y2) (fo_trees_dry f @ fo_trees_wet f) (0, f) of
        (c, f1) \<Rightarrow> (if c = 0 then Some ''no trees in region'' else None, f1))"

section \<open>Appointments\<close>

definition holds_link :: "int \<Rightarrow> int \<Rightarrow> figure_link \<Rightarrow> bool" where
  "holds_link entity a l =
     (case l of Position_Link p \<Rightarrow> po_assignment p = a \<and> po_entity p = entity | Other_Link _ \<Rightarrow> False)"

fun remove_first :: "('a \<Rightarrow> bool) \<Rightarrow> 'a list \<Rightarrow> 'a list" where
  "remove_first P [] = []"
| "remove_first P (x # xs) = (if P x then xs else x # remove_first P xs)"

text \<open>The loop over the assignments: the first one of the position, with its index; what comes before and after.\<close>

fun split_office :: "int \<Rightarrow> office list \<Rightarrow> (office list \<times> office \<times> office list) option" where
  "split_office pid [] = None"
| "split_office pid (a # as) =
     (if ag_position a = pid then Some ([], a, as)
      else map_option (\<lambda>(xs, b, ys). (a # xs, b, ys)) (split_office pid as))"

definition unlink_figure :: "int \<Rightarrow> int \<Rightarrow> int \<Rightarrow> (int \<Rightarrow> figure_link list option) \<Rightarrow> int \<Rightarrow> figure_link list option" where
  "unlink_figure old entity a figs =
     (if old \<ge> 0
      then (case figs old of None \<Rightarrow> figs | Some ls \<Rightarrow> figs(old \<mapsto> remove_first (holds_link entity a) ls))
      else figs)"

definition link_figure :: "int \<Rightarrow> position_link \<Rightarrow> (int \<Rightarrow> figure_link list option) \<Rightarrow> int \<Rightarrow> figure_link list option" where
  "link_figure new p figs =
     (case figs new of
        None \<Rightarrow> figs
      | Some ls \<Rightarrow>
          if \<exists>l \<in> set ls. holds_link (po_entity p) (po_assignment p) l then figs
          else figs(new \<mapsto> ls @ [Position_Link p]))"

definition fill_office :: "int \<Rightarrow> fort_entity \<Rightarrow> office list \<times> office \<times> office list \<Rightarrow> fort \<Rightarrow> fort" where
  "fill_office fig ent slot f =
     (case slot of (before, a, after) \<Rightarrow>
        if ag_figure a = fig then f
        else f\<lparr> fo_entity := Some (ent\<lparr> fn_offices := before @ [a\<lparr> ag_figure := fig, ag_figure2 := fig \<rparr>] @ after \<rparr>),
                fo_figures := link_figure fig \<lparr> po_entity = fn_id ent, po_assignment = ag_id a, po_index = length before,
                                                po_year = fo_year f \<rparr>
                                (unlink_figure (ag_figure a) (fn_id ent) (ag_id a) (fo_figures f)) \<rparr>)"

definition run_appoint :: "int \<Rightarrow> string \<Rightarrow> fort \<Rightarrow> string option \<times> fort" where
  "run_appoint uid code f =
     (case fo_units f uid of
        None \<Rightarrow> (Some (''no unit with id '' @ itoa uid), f)
      | Some u \<Rightarrow>
          if \<not> fu_citizen u then (Some (''unit '' @ itoa uid @ '' is not a citizen of this fort''), f)
          else if fu_figure u < 0 then (Some (''unit '' @ itoa uid @ '' has no historical figure''), f)
          else if fo_figures f (fu_figure u) = None
            then (Some (''historical figure '' @ itoa (fu_figure u) @ '' not found''), f)
          else case fo_entity f of
            None \<Rightarrow> (Some ''no fortress entity'', f)
          | Some ent \<Rightarrow>
              (case find (\<lambda>p. ps_code p = code) (fn_positions ent) of
                 None \<Rightarrow> (Some (''position '' @ code @ '' not defined for this fort''), f)
               | Some p \<Rightarrow>
                   (case split_office (ps_id p) (fn_offices ent) of
                      None \<Rightarrow> (Some (''no assignment slot for position '' @ code), f)
                    | Some slot \<Rightarrow> (None, fill_office (fu_figure u) ent slot f))))"

section \<open>Jobs at a workshop\<close>

definition add_job :: "int \<Rightarrow> string \<Rightarrow> string \<Rightarrow> fort_building \<Rightarrow> fort \<Rightarrow> fort" where
  "add_job bid job material b f =
     (let j = \<lparr> fj_type = job, fj_pos = fb_center b, fj_material = material, fj_holder = bid \<rparr>
      in f\<lparr> fo_buildings := (fo_buildings f)(bid := map_option (\<lambda>b. b\<lparr> fb_jobs := fb_jobs b @ [j] \<rparr>) (fo_buildings f bid)),
             fo_jobs := fo_jobs f @ [j] \<rparr>)"

definition run_taskat :: "int \<Rightarrow> int \<Rightarrow> string \<Rightarrow> string \<Rightarrow> fort \<Rightarrow> string option \<times> fort" where
  "run_taskat bid n job material f =
     (case fo_buildings f bid of
        None \<Rightarrow> (Some (''no building with id '' @ itoa bid), f)
      | Some b \<Rightarrow>
          if \<not> fb_workshop b then (Some (''building '' @ itoa bid @ '' is not a workshop''), f)
          else (None, (add_job bid job material b ^^ nat n) f))"

section \<open>The executor\<close>

text \<open>\<open>other\<close> is DFHack for the calls whose effect is its own.\<close>

type_synonym dfhack = "executor_call \<Rightarrow> fort \<Rightarrow> string option \<times> fort"

definition run_lua :: "dfhack \<Rightarrow> lua_script \<Rightarrow> fort \<Rightarrow> string option \<times> fort" where
  "run_lua other s f =
     (case s of
        LuaSetPause b \<Rightarrow> (None, f\<lparr> fo_paused := b \<rparr>)
      | LuaCamera z x y \<Rightarrow> (None, f\<lparr> fo_camera := Some (x, y, raw_z z f) \<rparr>)
      | LuaDig z x1 x2 y1 y2 d \<Rightarrow> (None, run_dig z x1 x2 y1 y2 d f)
      | LuaCutTree z x1 x2 y1 y2 \<Rightarrow> run_cut_tree z x1 x2 y1 y2 f
      | LuaAppoint uid code \<Rightarrow> run_appoint uid code f
      | LuaTaskat bid n job material \<Rightarrow> run_taskat bid n job material f
      | _ \<Rightarrow> other (RunLua s) f)"

text \<open>\<^verbatim>\<open>dfhack-run\<close> exits with an error when the script raises one; \<open>failed\<close> is the error made of its output.\<close>

definition fort_executor :: "(string \<Rightarrow> string) \<Rightarrow> dfhack \<Rightarrow> fort executor" where
  "fort_executor failed other c f =
     (case c of
        RunLua s \<Rightarrow> (case run_lua other s f of (e, f1) \<Rightarrow> (map_option failed e, f1))
      | RunDFHack _ \<Rightarrow> (case other c f of (e, f1) \<Rightarrow> (map_option failed e, f1)))"

end
