(* ===== verification/Fort_Properties.thy ===== *)
theory Fort_Properties
  imports Fort_Scripts
begin

text \<open>What the scripts leave of the fortress: designations, offices, and nothing where they fail.\<close>

section \<open>Designations\<close>

definition designated :: "string \<Rightarrow> tile set \<Rightarrow> fort \<Rightarrow> fort" where
  "designated d T f =
     f\<lparr> fo_dig := (\<lambda>t. if t \<in> T then d else fo_dig f t), fo_marked := (\<lambda>t. t \<notin> T \<and> fo_marked f t),
        fo_flagged := (\<lambda>b. b \<in> block_of ` T \<or> fo_flagged f b) \<rparr>"

lemma designated_blocks [simp]: "fo_blocks (designated d T f) = fo_blocks f"
  by (simp add: designated_def)

lemma designated_empty [simp]: "designated d {} f = f"
  by (simp add: designated_def)

lemma designated_twice [simp]: "designated d T (designated d S f) = designated d (T \<union> S) f"
  by (auto simp: designated_def image_Un fun_eq_iff)

lemma designate_eq: "designate d t f = designated d (if fo_blocks f (block_of t) then {t} else {}) f"
  by (auto simp: designate_def designated_def fun_eq_iff)

lemma designate_blocks [simp]: "fo_blocks (designate d t f) = fo_blocks f"
  by (simp add: designate_def)

lemma fold_designate: "fold (designate d) ts f = designated d {t \<in> set ts. fo_blocks f (block_of t)} f"
proof (induction ts arbitrary: f)
  case (Cons t ts)
  have "fold (designate d) (t # ts) f = designated d {u \<in> set ts. fo_blocks f (block_of u)} (designate d t f)"
    using Cons.IH [of "designate d t f"] by simp
  also have "\<dots> = designated d {u \<in> set (t # ts). fo_blocks f (block_of u)} f"
    unfolding designate_eq designated_twice by (rule arg_cong [where f = "\<lambda>T. designated d T f"]) auto
  finally show ?case .
qed simp

text \<open>The allocated tiles of a rectangle.\<close>

definition rectangle :: "int \<Rightarrow> int \<Rightarrow> int \<Rightarrow> int \<Rightarrow> int \<Rightarrow> fort \<Rightarrow> tile set" where
  "rectangle rz x1 x2 y1 y2 f = {t. in_bounds rz x1 x2 y1 y2 t \<and> fo_blocks f (block_of t)}"

lemma run_dig_eq: "run_dig z x1 x2 y1 y2 d f = designated d (rectangle (raw_z z f) x1 x2 y1 y2 f) f"
proof -
  let ?ts = "map (\<lambda>(x, y). (x, y, raw_z z f)) (List.product [x1..x2] [y1..y2])"
  have "run_dig z x1 x2 y1 y2 d f = fold (designate d) ?ts f"
    by (simp add: run_dig_def fold_map comp_def case_prod_beta')
  also have "\<dots> = designated d {t \<in> set ?ts. fo_blocks f (block_of t)} f" by (rule fold_designate)
  also have "{t \<in> set ?ts. fo_blocks f (block_of t)} = rectangle (raw_z z f) x1 x2 y1 y2 f"
    by (auto simp: rectangle_def in_bounds_def)
  finally show ?thesis .
qed

lemma raw_z_designated [simp]: "raw_z z (designated d T f) = raw_z z f"
  by (simp add: raw_z_def designated_def)

lemma rectangle_designated [simp]: "rectangle rz x1 x2 y1 y2 (designated d T f) = rectangle rz x1 x2 y1 y2 f"
  by (simp add: rectangle_def)

lemma run_dig_again: "run_dig z x1 x2 y1 y2 d (run_dig z x1 x2 y1 y2 d f) = run_dig z x1 x2 y1 y2 d f"
  by (simp add: run_dig_eq)

text \<open>The trees that are cut: those of the two lists in the rectangle, if their block is there.\<close>

lemma mark_fold:
  "fold (mark_if_in_region rz x1 x2 y1 y2) ts (c, f) =
     (c + int (length (filter (\<lambda>t. t \<in> rectangle rz x1 x2 y1 y2 f) ts)),
      designated ''Default'' (set ts \<inter> rectangle rz x1 x2 y1 y2 f) f)"
proof (induction ts arbitrary: c f)
  case (Cons t ts)
  show ?case
  proof (cases "t \<in> rectangle rz x1 x2 y1 y2 f")
    case True
    then have "mark_if_in_region rz x1 x2 y1 y2 t (c, f) = (c + 1, designated ''Default'' {t} f)"
      by (simp add: mark_if_in_region_def rectangle_def designate_eq)
    then show ?thesis using True Cons.IH by (simp add: Int_insert_left)
  next
    case False
    then have "mark_if_in_region rz x1 x2 y1 y2 t (c, f) = (c, f)"
      by (simp add: mark_if_in_region_def rectangle_def)
    then show ?thesis using False Cons.IH by (simp add: Int_insert_left)
  qed
qed simp

lemma run_cut_tree_eq:
  "run_cut_tree z x1 x2 y1 y2 f =
     (let T = (set (fo_trees_dry f) \<union> set (fo_trees_wet f)) \<inter> rectangle (raw_z z f) x1 x2 y1 y2 f
      in (if T = {} then Some ''no trees in region'' else None, designated ''Default'' T f))"
proof -
  let ?R = "rectangle (raw_z z f) x1 x2 y1 y2 f" and ?ts = "fo_trees_dry f @ fo_trees_wet f"
  have "filter (\<lambda>t. t \<in> ?R) ?ts = [] \<longleftrightarrow> set ?ts \<inter> ?R = {}" unfolding filter_empty_conv by blast
  then have "length (filter (\<lambda>t. t \<in> ?R) ?ts) = 0 \<longleftrightarrow> set ?ts \<inter> ?R = {}" unfolding length_0_conv .
  then show ?thesis unfolding run_cut_tree_def mark_fold Let_def prod.case
    by (simp del: filter_append length_append set_append) simp
qed

section \<open>Offices\<close>

text \<open>
  The state the appointment script relies on and keeps: an office names a figure exactly when that figure has a link to
  it, and then one.
\<close>

definition links_to :: "int \<Rightarrow> int \<Rightarrow> figure_link list \<Rightarrow> nat" where
  "links_to entity a ls = length (filter (holds_link entity a) ls)"

definition linked_as_held :: "int \<Rightarrow> (int \<Rightarrow> figure_link list option) \<Rightarrow> office \<Rightarrow> bool" where
  "linked_as_held entity figs a \<longleftrightarrow>
     ag_figure2 a = ag_figure a \<and>
     (\<forall>fid ls. figs fid = Some ls \<longrightarrow> links_to entity (ag_id a) ls = (if ag_figure a = fid \<and> 0 \<le> fid then 1 else 0))"

definition offices_ok :: "fort \<Rightarrow> bool" where
  "offices_ok f \<longleftrightarrow>
     (\<forall>ent. fo_entity f = Some ent \<longrightarrow>
        distinct (map ag_id (fn_offices ent)) \<and> (\<forall>a \<in> set (fn_offices ent). linked_as_held (fn_id ent) (fo_figures f) a))"

lemma links_to_simps [simp]:
  "links_to e a [] = 0" "links_to e a (ls @ ms) = links_to e a ls + links_to e a ms"
  "links_to e a (l # ls) = (if holds_link e a l then 1 else 0) + links_to e a ls"
  by (simp_all add: links_to_def)

lemma links_to_0_iff: "links_to e a ls = 0 \<longleftrightarrow> \<not> (\<exists>l \<in> set ls. holds_link e a l)"
  by (auto simp: links_to_def filter_empty_conv)

lemma links_to_remove [simp]:
  "links_to e a (remove_first (holds_link e a) ls) = links_to e a ls - 1"
  by (induction ls) (auto simp: links_to_def)

lemma links_to_remove_other [simp]:
  "b \<noteq> a \<Longrightarrow> links_to e b (remove_first (holds_link e a) ls) = links_to e b ls"
  by (induction ls) (auto simp: holds_link_def split: figure_link.splits)

lemma split_office_append:
  "split_office pid os = Some (xs, a, ys) \<Longrightarrow>
     os = xs @ a # ys \<and> ag_position a = pid \<and> (\<forall>x \<in> set xs. ag_position x \<noteq> pid)"
  by (induction os arbitrary: xs) (auto split: if_splits)

text \<open>The figures after a change of holder.\<close>

lemma relinked:
  assumes "linked_as_held e figs a" and "figs new \<noteq> None" and "ag_figure a \<noteq> new" and "0 \<le> new"
    and "po_entity p = e" and "po_assignment p = ag_id a"
  shows "linked_as_held e (link_figure new p (unlink_figure (ag_figure a) e (ag_id a) figs)) (a\<lparr> ag_figure := new, ag_figure2 := new \<rparr>)"
proof -
  obtain ls where ls: "figs new = Some ls" using assms(2) by blast
  have other: "links_to e (ag_id a) ms = (if ag_figure a = fid \<and> 0 \<le> fid then 1 else 0)" if "figs fid = Some ms" for fid ms
    using assms(1) that by (simp add: linked_as_held_def)
  let ?mid = "unlink_figure (ag_figure a) e (ag_id a) figs"
  have mid_new: "?mid new = Some ls" using ls assms(3) by (auto simp: unlink_figure_def split: option.splits)
  have gone: "links_to e (ag_id a) ms = 0" if "?mid fid = Some ms" for fid ms
    using that other by (auto simp: unlink_figure_def split: if_splits option.splits)
  have none: "\<not> (\<exists>l \<in> set ls. holds_link e (ag_id a) l)" using gone [OF mid_new] by (simp add: links_to_0_iff)
  have link: "link_figure new p ?mid = ?mid(new \<mapsto> ls @ [Position_Link p])"
    using none by (simp add: link_figure_def mid_new assms(5,6))
  have "holds_link e (ag_id a) (Position_Link p)" using assms(5,6) by (simp add: holds_link_def)
  then show ?thesis using gone assms(4) mid_new unfolding link
    by (auto simp: linked_as_held_def split: if_splits)
qed

lemma relinked_other:
  assumes "linked_as_held e figs b" and "ag_id b \<noteq> i" and "po_entity p = e" and "po_assignment p = i"
  shows "linked_as_held e (link_figure new p (unlink_figure old e i figs)) b"
proof -
  have p: "\<not> holds_link e (ag_id b) (Position_Link p)" using assms(2-4) by (simp add: holds_link_def)
  have mid: "linked_as_held e (unlink_figure old e i figs) b"
    using assms(1,2) by (auto simp: linked_as_held_def unlink_figure_def split: option.splits)
  show ?thesis using mid p by (auto simp: linked_as_held_def link_figure_def split: option.splits)
qed

lemma fill_office_ok:
  assumes "offices_ok f" and "fo_entity f = Some ent" and "split_office pid (fn_offices ent) = Some (xs, a, ys)"
    and "fo_figures f fig \<noteq> None" and "0 \<le> fig"
  shows "offices_ok (fill_office fig ent (xs, a, ys) f)"
proof (cases "ag_figure a = fig")
  case True
  then show ?thesis using assms(1) by (simp add: fill_office_def)
next
  case False
  define a' where "a' = a\<lparr> ag_figure := fig, ag_figure2 := fig \<rparr>"
  define p where "p = \<lparr> po_entity = fn_id ent, po_assignment = ag_id a, po_index = length xs, po_year = fo_year f \<rparr>"
  define figs where "figs = link_figure fig p (unlink_figure (ag_figure a) (fn_id ent) (ag_id a) (fo_figures f))"
  have os: "fn_offices ent = xs @ a # ys" using split_office_append [OF assms(3)] by simp
  have ok: "distinct (map ag_id (fn_offices ent))" "\<forall>b \<in> set (fn_offices ent). linked_as_held (fn_id ent) (fo_figures f) b"
    using assms(1,2) by (auto simp: offices_ok_def)
  have "linked_as_held (fn_id ent) figs a'"
    unfolding figs_def a'_def by (rule relinked) (use ok(2) os assms(4,5) False in \<open>auto simp: p_def\<close>)
  moreover have "linked_as_held (fn_id ent) figs b" if "b \<in> set xs \<union> set ys" for b
    unfolding figs_def by (rule relinked_other) (use ok os that in \<open>auto simp: p_def image_iff\<close>)
  moreover have "distinct (map ag_id (xs @ [a'] @ ys))" using ok(1) by (simp add: os a'_def)
  moreover have "fill_office fig ent (xs, a, ys) f =
      f\<lparr> fo_entity := Some (ent\<lparr> fn_offices := xs @ [a'] @ ys \<rparr>), fo_figures := figs \<rparr>"
    using False by (simp add: fill_office_def a'_def figs_def p_def)
  ultimately show ?thesis by (auto simp: offices_ok_def)
qed

text \<open>What an appointment does, and that it keeps the offices in order.\<close>

lemma run_appoint_cases:
  "(\<exists>e. run_appoint uid code f = (Some e, f)) \<or>
   (\<exists>u ent p xs a ys. fo_units f uid = Some u \<and> fu_citizen u \<and> 0 \<le> fu_figure u \<and> fo_figures f (fu_figure u) \<noteq> None \<and>
      fo_entity f = Some ent \<and> find (\<lambda>p. ps_code p = code) (fn_positions ent) = Some p \<and>
      split_office (ps_id p) (fn_offices ent) = Some (xs, a, ys) \<and>
      run_appoint uid code f = (None, fill_office (fu_figure u) ent (xs, a, ys) f))"
  by (auto simp: run_appoint_def not_less split: option.splits)

lemma run_appoint_ok: "offices_ok f \<Longrightarrow> offices_ok (snd (run_appoint uid code f))"
  using run_appoint_cases [of uid code f] fill_office_ok [of f] by (elim disjE exE conjE) (simp_all del: not_None_eq)

lemma run_appoint_fails: "run_appoint uid code f = (Some e, f1) \<Longrightarrow> f1 = f"
  using run_appoint_cases [of uid code f] by auto

section \<open>Every script\<close>

lemma add_job_rest:
  "fo_entity ((add_job bid job mat b ^^ n) f) = fo_entity f" "fo_figures ((add_job bid job mat b ^^ n) f) = fo_figures f"
  by (induction n) (simp_all add: add_job_def Let_def)

lemma designated_rest [simp]:
  "fo_entity (designated d T f) = fo_entity f" "fo_figures (designated d T f) = fo_figures f"
  by (simp_all add: designated_def)

lemma offices_ok_cong:
  "fo_entity f = fo_entity g \<Longrightarrow> fo_figures f = fo_figures g \<Longrightarrow> offices_ok f = offices_ok g"
  by (simp add: offices_ok_def)

definition keeps_offices :: "dfhack \<Rightarrow> bool" where
  "keeps_offices other \<longleftrightarrow> (\<forall>c f. offices_ok f \<longrightarrow> offices_ok (snd (other c f)))"

lemma run_lua_offices:
  assumes "keeps_offices other" and "offices_ok f"
  shows "offices_ok (snd (run_lua other s f))"
proof (cases s)
  case (LuaCutTree z x1 x2 y1 y2)
  then show ?thesis using assms(2) offices_ok_cong [of "snd (run_lua other s f)" f]
    by (simp add: run_lua_def run_cut_tree_eq Let_def)
next
  case (LuaAppoint uid code)
  then show ?thesis using assms(2) by (simp add: run_lua_def run_appoint_ok)
next
  case (LuaTaskat bid n job mat)
  then show ?thesis using assms(2) offices_ok_cong [of "snd (run_lua other s f)" f]
    by (simp add: run_lua_def run_taskat_def add_job_rest split: option.splits)
qed (use assms offices_ok_cong [of "snd (run_lua other s f)" f] in \<open>simp_all add: run_lua_def run_dig_eq keeps_offices_def\<close>)

lemma snd_fort_executor:
  "snd (fort_executor failed other c f) = snd (case c of RunLua s \<Rightarrow> run_lua other s f | RunDFHack _ \<Rightarrow> other c f)"
  by (simp add: fort_executor_def split: executor_call.split prod.split)

lemma fort_executor_offices:
  "keeps_offices other \<Longrightarrow> offices_ok f \<Longrightarrow> offices_ok (snd (fort_executor failed other c f))"
  unfolding snd_fort_executor by (cases c) (simp_all add: run_lua_offices keeps_offices_def)

lemma submit_offices:
  "keeps_offices other \<Longrightarrow> offices_ok f \<Longrightarrow> offices_ok (snd (submit (fort_executor failed other) a f))"
  using fort_executor_offices [of other f failed]
  by (auto simp: submit_def split: sum.splits option.splits prod.splits) (metis snd_conv)+

text \<open>A run of actions, each carried out or refused.\<close>

definition submit_all :: "(string \<Rightarrow> string) \<Rightarrow> dfhack \<Rightarrow> action list \<Rightarrow> fort \<Rightarrow> fort" where
  "submit_all failed other as f = fold (\<lambda>a f. snd (submit (fort_executor failed other) a f)) as f"

lemma submit_all_offices: "keeps_offices other \<Longrightarrow> offices_ok f \<Longrightarrow> offices_ok (submit_all failed other as f)"
  unfolding submit_all_def by (induction as arbitrary: f) (simp_all add: submit_offices)

text \<open>An appointment that is reported done: the office is held by the unit's figure.\<close>

definition held_by :: "string \<Rightarrow> int \<Rightarrow> fort \<Rightarrow> bool" where
  "held_by code uid f \<longleftrightarrow>
     (\<exists>u ent p xs a ys. fo_units f uid = Some u \<and> fo_entity f = Some ent \<and>
        find (\<lambda>p. ps_code p = code) (fn_positions ent) = Some p \<and> split_office (ps_id p) (fn_offices ent) = Some (xs, a, ys) \<and>
        ag_figure a = fu_figure u)"

lemma split_office_set:
  "split_office pid os = Some (xs, a, ys) \<Longrightarrow> ag_position b = pid \<Longrightarrow> split_office pid (xs @ b # ys) = Some (xs, b, ys)"
  by (induction os arbitrary: xs) (auto split: if_splits)

lemma run_appoint_holds:
  assumes "run_appoint uid code f = (None, f1)"
  shows "held_by code uid f1"
proof -
  obtain u ent p xs a ys where u: "fo_units f uid = Some u" "fo_entity f = Some ent"
      "find (\<lambda>p. ps_code p = code) (fn_positions ent) = Some p" "split_office (ps_id p) (fn_offices ent) = Some (xs, a, ys)"
    and f1: "f1 = fill_office (fu_figure u) ent (xs, a, ys) f"
    using run_appoint_cases [of uid code f] assms by auto
  show ?thesis
  proof (cases "ag_figure a = fu_figure u")
    case True
    then show ?thesis using u by (auto simp: held_by_def f1 fill_office_def)
  next
    case False
    have "ag_position a = ps_id p" using split_office_append [OF u(4)] by simp
    then have "split_office (ps_id p) (xs @ a\<lparr> ag_figure := fu_figure u, ag_figure2 := fu_figure u \<rparr> # ys) =
        Some (xs, a\<lparr> ag_figure := fu_figure u, ag_figure2 := fu_figure u \<rparr>, ys)"
      using split_office_set [OF u(4)] by simp
    then show ?thesis using False u by (simp add: held_by_def f1 fill_office_def)
  qed
qed

text \<open>
  C14: Whatever sequence of actions is carried out, the offices stay in order: an office and the links of the figures
  agree, each holder having exactly one link and nobody else any; and an appointment reported as done has put the
  unit's figure into the office, one that is not has changed nothing.
\<close>

theorem offices_stay_in_order:
  assumes "keeps_offices other" and "offices_ok f" and "act_kind a = KindAppoint"
    and "submit (fort_executor failed other) a (submit_all failed other as f) = (e, f1)"
  shows "offices_ok f1 \<and> (if e = None then held_by (the (map_of office_to_position_code (act_office a))) (act_unit a) f1
                         else f1 = submit_all failed other as f)"
proof -
  let ?f = "submit_all failed other as f"
  have "offices_ok f1" using submit_offices [OF assms(1) submit_all_offices [OF assms(1,2), of failed as], of failed a] assms(4) by simp
  moreover have "if e = None then held_by (the (map_of office_to_position_code (act_office a))) (act_unit a) f1 else f1 = ?f"
  proof (cases "map_of office_to_position_code (act_office a)")
    case None
    then show ?thesis using assms(3,4) by (auto simp: submit_def submit_call_def submit_appoint_def)
  next
    case (Some code)
    obtain r f2 where r: "run_appoint (act_unit a) code ?f = (r, f2)" by (meson prod.exhaust)
    have "e = map_option (\<lambda>m. ExecutorFailed (failed m)) r" "f1 = f2"
      using assms(3,4) Some r
      by (auto simp: submit_def submit_call_def submit_appoint_def fort_executor_def run_lua_def split: option.splits)
    then show ?thesis using Some r run_appoint_holds [of "act_unit a" code ?f] run_appoint_fails [of "act_unit a" code ?f]
      by (cases r) auto
  qed
  ultimately show ?thesis by blast
qed

text \<open>Figure 7 is the manager; unit 1, figure 5, is appointed.\<close>

definition demo_fort :: fort where
  "demo_fort =
     \<lparr> fo_region_z = 100, fo_blocks = (\<lambda>b. b = (0, 0, 150)), fo_dig = (\<lambda>_. ''No''), fo_marked = (\<lambda>_. True), fo_flagged = (\<lambda>_. False),
       fo_trees_dry = [(3, 4, 150)], fo_trees_wet = [], fo_paused = False, fo_camera = None, fo_year = 250,
       fo_units = [1 \<mapsto> \<lparr> fu_citizen = True, fu_figure = 5 \<rparr>],
       fo_figures = [5 \<mapsto> [Other_Link ''member''],
         7 \<mapsto> [Position_Link \<lparr> po_entity = 9, po_assignment = 0, po_index = 0, po_year = 249 \<rparr>]],
       fo_entity = Some \<lparr> fn_id = 9, fn_positions = [\<lparr> ps_id = 3, ps_code = ''MANAGER'' \<rparr>],
         fn_offices = [\<lparr> ag_id = 0, ag_position = 3, ag_figure = 7, ag_figure2 = 7 \<rparr>] \<rparr>,
       fo_buildings = Map.empty, fo_jobs = [] \<rparr>"

lemma demo_fort_ok: "offices_ok demo_fort"
  by (auto simp: offices_ok_def demo_fort_def linked_as_held_def links_to_def holds_link_def)

theorem offices_stay_in_order_witness:
  "\<exists>f1. submit (fort_executor id (\<lambda>_ f. (None, f))) ((action_of_kind KindAppoint)\<lparr> act_office := ''manager'', act_unit := 1 \<rparr>)
        (submit_all id (\<lambda>_ f. (None, f)) [action_of_kind KindPause] demo_fort) = (None, f1) \<and>
     offices_ok f1 \<and> held_by ''MANAGER'' 1 f1 \<and> fo_figures f1 7 = Some []"
proof -
  let ?other = "(\<lambda>_ f. (None, f)) :: dfhack"
  let ?a = "(action_of_kind KindAppoint)\<lparr> act_office := ''manager'', act_unit := 1 \<rparr>"
  let ?f = "submit_all id ?other [action_of_kind KindPause] demo_fort"
  have f: "?f = demo_fort\<lparr> fo_paused := True \<rparr>"
    by (simp add: submit_all_def submit_def submit_call_def submit_pause_def fort_executor_def run_lua_def action_of_kind_def)
  obtain e f1 where st: "submit (fort_executor id ?other) ?a ?f = (e, f1)" by (meson prod.exhaust)
  have code: "map_of office_to_position_code ''manager'' = Some ''MANAGER''" by code_simp
  have e: "e = None" and moved: "fo_figures f1 7 = Some []"
    using st unfolding f
    by (auto simp: submit_def submit_call_def submit_appoint_def fort_executor_def run_lua_def run_appoint_def fill_office_def
        link_figure_def unlink_figure_def holds_link_def demo_fort_def action_of_kind_def code)
  have "keeps_offices ?other" by (simp add: keeps_offices_def)
  from offices_stay_in_order [OF this demo_fort_ok _ st] e st moved code show ?thesis by simp
qed

end
