(* ===== verification/Fort_Command.thy ===== *)
theory Fort_Command
  imports Fort_Properties Df_Command
begin

text \<open>
  From the words of a chatter to the tiles of the fortress: the chat command (\<^verbatim>\<open>twitchbot/cmd_df.go\<close>), the link to the
  executor and the scripts together.
\<close>

section \<open>The designations of a dig verb\<close>

definition dig_kinds :: "(action_kind \<times> string) list" where
  "dig_kinds = [(KindMine, ''Default''), (KindChannel, ''Channel''), (KindDigRamp, ''Ramp'')]"

text \<open>The tiles a region names in a fortress: those of its rectangle, on its level, whose block is allocated.\<close>

definition named_tiles :: "region \<Rightarrow> fort \<Rightarrow> tile set" where
  "named_tiles r f = {(x, y, z). (x, y) \<in> region_tiles r \<and> z = raw_z (pos_z (rmin r)) f \<and> fo_blocks f (block_of (x, y, z))}"

lemma named_tiles_eq:
  "ordered_region k r = Inr (z, x1, x2, y1, y2) \<Longrightarrow> rectangle (raw_z z f) x1 x2 y1 y2 f = named_tiles r f"
  by (auto simp: rectangle_def in_bounds_def named_tiles_def ordered_region_Inr)
    (auto simp: ordered_region_def Let_def split: if_splits)

lemma submit_dig:
  assumes "parse_command args = Inr a" and "map_of dig_kinds (act_kind a) = Some d" and "act_region a = Some r"
  shows "submit (fort_executor failed other) a f = (None, designated d (named_tiles r f) f)"
proof -
  have wf: "wf_region a" using assms by (auto simp: dig_kinds_def wf_action_def dest!: parse_command_wf_action split: if_splits)
  obtain z x1 x2 y1 y2 where r: "ordered_region (act_kind a) r = Inr (z, x1, x2, y1, y2)"
    using wf assms(3) ordered_region_wf [of r "act_kind a"] by (auto simp: wf_region_def)
  have "submit_call a = submit_dig_designation a d"
    using assms(2) by (auto simp: submit_call_def submit_mine_def submit_channel_def submit_digramp_def dig_kinds_def split: if_splits)
  then have "submit_call a = Inr (RunLua (LuaDig z x1 x2 y1 y2 d))"
    using assms(3) r by (simp add: submit_dig_designation_def)
  then show ?thesis using named_tiles_eq [OF r]
    by (simp add: submit_def fort_executor_def run_lua_def run_dig_eq)
qed

section \<open>The whole way\<close>

text \<open>The executor's \<^verbatim>\<open>Submit\<close> on a fortress, its error as text.\<close>

definition fort_submit :: "(submit_error \<Rightarrow> string) \<Rightarrow> (string \<Rightarrow> string) \<Rightarrow> dfhack \<Rightarrow> fort submit_fn" where
  "fort_submit err failed other a f = (case submit (fort_executor failed other) a f of (e, f1) \<Rightarrow> (map_option err e, f1))"

lemma named_tiles_designated [simp]: "named_tiles r (designated d T f) = named_tiles r f"
  by (simp add: named_tiles_def)

lemma designated_again [simp]: "designated d T (designated d T f) = designated d T f"
  by (cases f) (auto simp: designated_def fun_eq_iff)

text \<open>Executing a dig command several times designates what one execution does.\<close>

lemma dig_executions:
  assumes "parse_command args = Inr a" and "map_of dig_kinds (act_kind a) = Some d" and "act_region a = Some r"
  shows "fort_submit err failed other a f = (None, designated d (named_tiles r f) f)"
    and "((\<lambda>w. snd (fort_submit err failed other a w)) ^^ i) f = (if i = 0 then f else designated d (named_tiles r f) f)"
proof -
  show sub: "fort_submit err failed other a f = (None, designated d (named_tiles r f) f)" for f
    by (simp add: fort_submit_def submit_dig [OF assms])
  show "((\<lambda>w. snd (fort_submit err failed other a w)) ^^ i) f = (if i = 0 then f else designated d (named_tiles r f) f)"
    by (induction i) (simp_all add: sub)
qed


text \<open>On the fortress of one allocated block, the tiles beyond its edge are left out.\<close>

definition demo_region :: region where
  "demo_region = \<lparr> rmin = \<lparr> pos_x = 14, pos_y = 3, pos_z = 150 \<rparr>, rmax = \<lparr> pos_x = 17, pos_y = 3, pos_z = 150 \<rparr> \<rparr>"

lemma demo_mine: "parse_command ''mine 14 3 150 17 3'' = Inr ((action_of_kind KindMine)\<lparr> act_region := Some demo_region \<rparr>)"
  unfolding demo_region_def by code_simp

lemma demo_named: "named_tiles demo_region demo_fort = {(14, 3, 150), (15, 3, 150)}"
proof -
  have "raw_z 150 demo_fort = 150" by code_simp
  then show ?thesis
    by (auto simp: named_tiles_def demo_region_def region_tiles_def demo_fort_def block_of_def)
qed

definition demo_fort_network :: "fort network_state" where
  "demo_fort_network = \<lparr> ne_server = server_init demo_fort, ne_read = 0, ne_late = [], ne_step = 0 \<rparr>"


end
