(* ===== verification/Fish_Column.thy ===== *)
theory Fish_Column
  imports Fishing Json
begin

text \<open>
  The column of a score that lists the fish caught (\<^verbatim>\<open>FishArray\<close> of \<^verbatim>\<open>internal/libraries/fishing/const.go\<close>): how it is
  written to the database as JSON and read back. The text of a JSON value and its parser are parameters.
\<close>

text \<open>What the driver hands to \<^verbatim>\<open>Scan\<close>.\<close>

datatype column_value = Col_Null | Col_Bytes string | Col_Text string | Col_Other

definition fish_json :: "fish \<Rightarrow> json" where
  "fish_json f = J_Obj [(''value'', J_Int (fish_value f)), (''name'', J_Str (fish_name f)), (''scarcity'', J_Int (fish_scarcity f))]"

definition fish_of_json :: "json \<Rightarrow> fish option" where
  "fish_of_json j =
     (if \<not> json_struct j then None
      else case (json_int (json_field ''value'' j), json_string (json_field ''name'' j), json_int (json_field ''scarcity'' j)) of
        (Some v, Some n, Some s) \<Rightarrow> Some \<lparr> fish_value = v, fish_name = n, fish_scarcity = s \<rparr>
      | _ \<Rightarrow> None)"

definition fish_column :: "(json \<Rightarrow> string) \<Rightarrow> fish list \<Rightarrow> string" where
  "fish_column text_of fs = (if fs = [] then ''[]'' else text_of (J_Arr (map fish_json fs)))"

definition scan_fish :: "(string \<Rightarrow> json option) \<Rightarrow> column_value \<Rightarrow> fish list option" where
  "scan_fish parse v =
     (let decode = (\<lambda>s. Option.bind (parse s) (json_list fish_of_json))
      in case v of Col_Null \<Rightarrow> Some [] | Col_Bytes s \<Rightarrow> decode s | Col_Text s \<Rightarrow> decode s | Col_Other \<Rightarrow> None)"

lemma fish_json_round: "in_int64 (fish_value f) \<Longrightarrow> in_int64 (fish_scarcity f) \<Longrightarrow> fish_of_json (fish_json f) = Some f"
  by (simp add: fish_of_json_def fish_json_def json_struct_def json_int_def json_string_def equal_fold_def to_lower_def
      lower_char_def code_of_def)

text \<open>What is written is read back, as bytes or as text; the array of a chatter without fish too.\<close>

lemma fish_column_round:
  assumes "\<forall>j. parse (text_of j) = Some j" and "parse ''[]'' = Some (J_Arr [])"
    and "\<forall>f \<in> set fs. in_int64 (fish_value f) \<and> in_int64 (fish_scarcity f)"
  shows "scan_fish parse (Col_Bytes (fish_column text_of fs)) = Some fs"
    and "scan_fish parse (Col_Text (fish_column text_of fs)) = Some fs"
proof -
  have "json_list fish_of_json (J_Arr (map fish_json fs)) = Some fs"
    using assms(3) by (auto intro!: json_list_map fish_json_round)
  then show "scan_fish parse (Col_Bytes (fish_column text_of fs)) = Some fs"
    "scan_fish parse (Col_Text (fish_column text_of fs)) = Some fs"
    using assms(1,2) by (auto simp: scan_fish_def fish_column_def json_list_def)
qed

end
