(* ===== verification/Spec2Isabelle.thy ===== *)
theory Spec2Isabelle
  imports Verb_Properties Link_Properties Counters Fishing Stalk_Properties
    Overlay_Extension Keyed_Mutex
    Bot_Live_Properties Auto_Shout_Properties Dad_Properties Promo_Properties Bot_Chat_Properties Hmac_Auth Bot_Send
    Event_Sub_Properties Overlay_Manage_Properties Session_Properties
    Game_Commands Client_Properties Df_Dashboard_Properties Df_Command Core_Config Sub_Repair_Properties Twitch_Auth Alerting Service_Run Account_Pages
    Bot_Boot_Properties Fort_Command Fish_Column
begin

text \<open>
  A verification library of the services of \<^verbatim>\<open>nivek\<close>: a Twitch chat bot, the web back end \<^verbatim>\<open>core-api\<close>
  that owns the database, the overlay relay inside it, and the executor that plays Dwarf Fortress for the chat.

  \<^bold>\<open>The program and the theories.\<close>

  A chat message reaches the bot as a Twitch webhook or over IRC. The bot keeps no database: it asks core-api by
  signed requests. core-api also serves the dashboard (sign-in by Twitch), receives Twitch's notifications of cheers
  and redemptions, and forwards them and the bot's overlay commands to the streamer's overlay over a WebSocket. Fortress
  commands go from the bot over an authenticated WebSocket to the executor, which runs DFHack scripts.

  \<^item> Foundations. \<open>Go_Prelude\<close>: strings as bytes, machine integers with their wrap-around, times, the
    error type and the lemma collections the components share. \<open>Tables\<close>: the database as rows and a sequence,
    with the locales \<open>row_type\<close> and \<open>counter\<close>. \<open>Json\<close>, \<open>Net_Url\<close>: what the
    services use of \<^verbatim>\<open>encoding/json\<close>, \<^verbatim>\<open>net/url\<close> and \<^verbatim>\<open>net\<close>.
  \<^item> The fortress commands (\<^verbatim>\<open>internal/libraries/overseer\<close>). \<open>Wire\<close> has the types,
    \<open>Verb_Vocab\<close> the word tables, \<open>Verb_Parse\<close> the parser \<^verbatim>\<open>ParseCommand\<close> with one
    function per verb, \<open>Verb_Submit\<close> the submitters and \<^verbatim>\<open>Submit\<close>, \<open>Verb_Contract\<close> the
    contract between the two as locales (\<open>verb\<close>, \<open>region_verb\<close>), interpreted for all fifteen verbs.
    \<open>Overseer_Link\<close> is the link (\<^verbatim>\<open>envelope.go\<close>, \<^verbatim>\<open>server.go\<close>,
    \<^verbatim>\<open>client.go\<close>), \<open>Df_Command\<close> the chat command of \<^verbatim>\<open>cmd_df.go\<close>,
    \<open>Fort_Scripts\<close> the Lua of the submitters on the game's memory, and \<open>Fort_Command\<close> all of it
    together. \<open>Df_Dashboard\<close> is the map the dashboard shows: \<^verbatim>\<open>cmd/df-snapshot-pusher\<close> and
    \<^verbatim>\<open>endpoints/df\<close>.
  \<^item> The bot (\<^verbatim>\<open>internal/libraries/twitchbot\<close>). \<open>Bot_Boot\<close> starts it
    (\<^verbatim>\<open>cmd/twitch-bot\<close>); \<open>Bot_Chat\<close> takes a message to its handlers; \<open>Bot_Live\<close> has
    the streams that start and end, joins and \<^verbatim>\<open>!banish\<close>; \<open>Bot_Channels\<close> the tracked channels;
    \<open>Bot_Send\<close> the outgoing messages; \<open>Dedupe\<close> the ring of message ids; \<open>Chat_Message\<close> the
    roles; \<open>Twitch_Auth\<close> its tokens. The features, each with its service, its endpoints in core-api and its
    command: \<open>Stalk\<close>, \<open>Dad\<close>, \<open>Promo\<close> with \<open>Promo_Command\<close>,
    \<open>Auto_Shout\<close>, \<open>Counters\<close>, \<open>Fishing\<close> with \<open>Fish_Column\<close>, \<open>Game_Commands\<close>.
  \<^item> Bot and core-api. \<open>Hmac_Auth\<close> signs and checks; \<open>Routes\<close> is the route table with the guards;
    \<open>Core_Api\<close> the server as one function over one database; \<open>Api_Client\<close> and
    \<open>Client_Calls\<close> the bot's client, method by method (\<^verbatim>\<open>api/core_api_client.go\<close>);
    \<open>Client_Properties\<close> their agreement. \<open>Users\<close> is \<^verbatim>\<open>libraries/user\<close>.
  \<^item> The overlay relay (\<^verbatim>\<open>internal/libraries/overlayrelay\<close>, \<^verbatim>\<open>endpoints/overlay\<close>).
    \<open>Overlay_Log\<close> is the event log and the device tokens, \<open>Overlay_Connect\<close> the registry and a
    connection's stream, \<open>Overlay_Relay\<close> the ingest handlers, \<open>Overlay_Extension\<close> the purchases,
    \<open>Overlay_Manage\<close> minting, revoking and the reconciliation with Twitch, \<open>Keyed_Mutex\<close> the lock per
    broadcaster.
  \<^item> core-api. \<open>Session\<close> is the sign-in, \<open>Core_Config\<close> the configuration,
    \<open>Account_Pages\<close> the pages of an account, \<open>Alerting\<close> the alerts, \<open>Service_Run\<close> the life
    of a service and its connections. \<open>Event_Sub\<close> is the client of Twitch, \<open>Sub_Repair\<close> the two
    maintenance programs.

  \<^bold>\<open>How code becomes definitions.\<close> A struct is a record, a tagged type a datatype, an error a value of a sum or
  option; a handler is one definition with the code's guards in their order, and returns the new state with the list of
  what it sends or starts (\<open>bot_action\<close>, status and body). Concurrency is a step relation whose steps are the
  critical sections (\<open>Keyed_Mutex\<close>, \<open>Overlay_Relay\<close>, \<open>Bot_Live\<close>,
  \<open>Service_Run\<close>) or an explicit sequence of events (\<open>Stalk\<close>, \<open>Dad\<close>,
  \<open>Overlay_Connect\<close>). Machine integers are \<^typ>\<open>int\<close> with \<open>wrap64\<close> written where the
  code computes, and the theorems that need the absence of overflow say so. What is not in the repository is a parameter:
  HMAC, JWT and the random source, the text of JSON, Twitch, the network, the clock, Echo's router, PostgreSQL's
  answers (a fault function says which calls fail). A hypothesis about a parameter states its documented behaviour and has
  a witness with a concrete function.

  \<^bold>\<open>What is shown.\<close> The claims stand at the end of the theories named \<open>..._Properties\<close> and
  of the smaller components' own. By component: a parsed command is well formed, reaches the executor as one call, and a
  dig command typed in chat designates exactly its tiles; the link executes what is authentic, once and in order; the
  offices of the fortress stay consistent; the dashboard shows the newest capture. The overlay's log has no gaps and no
  duplicates, a connection that catches up gets every paid event once and in order, one handler's pushes are ordered, a
  purchase needs both tokens, and the boot-time reconciliation converges. The bot answers only what is allowed, quotes
  what was said, spaces its promos and posts them, keeps the allotment of \<^verbatim>\<open>!dad\<close> over a restart, joins a
  channel once and stays out of those it was banished from, and its logins stay valid. The calls of the bot are the
  endpoints they name; sessions need credentials and lead to the account of the Twitch profile; an accepted configuration
  keeps its promises; alerts are spaced; a service stops and reports. Refinements go to abstract specifications: the ring
  of ids to a window, the stalk service to a map, the link to a sequence of submissions. Where the code does not do what
  it means to, a lemma shows the case (for example \<open>area_cap_wraps\<close>, \<open>load_race_misattributes\<close>,
  \<open>missed_offline_leaks_rolls\<close>, \<open>recycled_login_takes_over\<close>, \<open>close_failure_keeps_all\<close>).

  \<^bold>\<open>Loops and bounds.\<close> Loops over data are structural. The listing of subscriptions, which follows cursors
  Twitch chooses, is a \<^theory_text>\<open>partial_function (option)\<close>, and it is proved that it returns exactly when the
  cursors come to an end. The replay of a connection runs over the pages its own cap admits; bounded retries (three
  appends, three openings of a connection, two sends on the link) are numbers of the code. Loops that wait for events are
  folds over the list of the events.

  \<^bold>\<open>Not modelled.\<close> The Nuxt frontend, the Twitch extension, the game's own snapshot script and the deployment are
  not Go. Of the Go code: log lines, response headers and texts that nothing reads; the HTTP and WebSocket servers, signal
  handlers and tickers of the \<^verbatim>\<open>main\<close> functions; the gorm adapters, which nothing calls, and the leak detector,
  which only logs; the reading of the environment by its library; wire types no code uses. DFHack's
  \<^verbatim>\<open>constructBuilding\<close> and work orders, the lookups of ipinfo and Windy and the floating point mean of the
  temperatures are parameters, since their code is elsewhere.
\<close>

end
